(* ===== verification/Prelude.thy ===== *)
theory Prelude
  imports Main "HOL-Library.AList"
begin

text \<open>
  Shared vocabulary of the development: the result type of fallible functions, the
  state-and-exception actions in which the stateful code is written, association lists
  standing for JavaScript's insertion-ordered \<open>Map\<close>, and the inversion lemmas that carry
  the component proofs (collections \<open>res_simps\<close> and \<open>act_simps\<close>).
\<close>

section \<open>Results: a thrown error or a value\<close>

type_synonym ('e, 'a) res = "'e + 'a"

definition r_bind :: "('e, 'a) res \<Rightarrow> ('a \<Rightarrow> ('e, 'b) res) \<Rightarrow> ('e, 'b) res" where
  "r_bind r f = (case r of Inl e \<Rightarrow> Inl e | Inr a \<Rightarrow> f a)"

definition r_guard :: "bool \<Rightarrow> 'e \<Rightarrow> ('e, unit) res" where
  "r_guard b e = (if b then Inr () else Inl e)"

text \<open>\<open>xs.map(f)\<close> where \<open>f\<close> may throw: left to right, the first error wins.\<close>

fun r_map :: "('a \<Rightarrow> ('e, 'b) res) \<Rightarrow> 'a list \<Rightarrow> ('e, 'b list) res" where
  "r_map f [] = Inr []"
| "r_map f (x # xs) = r_bind (f x) (\<lambda>y. r_bind (r_map f xs) (\<lambda>ys. Inr (y # ys)))"

text \<open>\<open>xs.map((x, index) => f(x, index))\<close>, starting from index \<open>i\<close>.\<close>

fun r_mapi :: "(nat \<Rightarrow> 'a \<Rightarrow> ('e, 'b) res) \<Rightarrow> nat \<Rightarrow> 'a list \<Rightarrow> ('e, 'b list) res" where
  "r_mapi f i [] = Inr []"
| "r_mapi f i (x # xs) =
     r_bind (f i x) (\<lambda>y. r_bind (r_mapi f (Suc i) xs) (\<lambda>ys. Inr (y # ys)))"

definition r_is_ok :: "('e, 'a) res \<Rightarrow> bool" where
  "r_is_ok r = (case r of Inl _ \<Rightarrow> False | Inr _ \<Rightarrow> True)"

named_theorems res_simps \<open>inversion of results\<close>

lemma r_bind_Inl [simp]: "r_bind (Inl e) f = Inl e"
  by (simp add: r_bind_def)

lemma r_bind_Inr [simp]: "r_bind (Inr a) f = f a"
  by (simp add: r_bind_def)

text \<open>The rest of a sequence is not looked at before its first step has been evaluated.\<close>

lemma r_bind_weak_cong [cong]: "r = r' \<Longrightarrow> r_bind r f = r_bind r' f"
  by simp

lemma r_bind_eq_Inr [res_simps]: "r_bind r f = Inr b \<longleftrightarrow> (\<exists>a. r = Inr a \<and> f a = Inr b)"
  by (cases r) auto

lemma r_bindE: "r_bind r f = Inr b \<Longrightarrow> (\<And>a. r = Inr a \<Longrightarrow> f a = Inr b \<Longrightarrow> P) \<Longrightarrow> P"
  by (auto simp: r_bind_eq_Inr)

lemma r_bind_eq_Inl [res_simps]:
  "r_bind r f = Inl e \<longleftrightarrow> r = Inl e \<or> (\<exists>a. r = Inr a \<and> f a = Inl e)"
  by (cases r) auto

lemma r_guard_eq_Inr [res_simps]: "r_guard b e = Inr u \<longleftrightarrow> b"
  by (simp add: r_guard_def)

lemma r_guard_eq_Inl [res_simps]: "r_guard b e = Inl e' \<longleftrightarrow> \<not> b \<and> e' = e"
  by (auto simp: r_guard_def)

lemma r_guard_simps [simp]: "r_guard True e = Inr ()" "r_guard False e = Inl e"
  by (simp_all add: r_guard_def)

lemma r_map_eq_Inr_length: "r_map f xs = Inr ys \<Longrightarrow> length ys = length xs"
  by (induction xs arbitrary: ys) (auto simp: res_simps)

lemma r_map_eq_Inr_all2: "r_map f xs = Inr ys \<longleftrightarrow> list_all2 (\<lambda>x y. f x = Inr y) xs ys"
  by (induction xs arbitrary: ys) (auto simp: res_simps list_all2_Cons1)

lemma r_mapi_ok: "(\<And>i x. x \<in> set xs \<Longrightarrow> f i (g x) = Inr x) \<Longrightarrow> r_mapi f i (map g xs) = Inr xs"
  by (induction xs arbitrary: i) auto

lemma r_mapi_eq_Inr_length: "r_mapi f i xs = Inr ys \<Longrightarrow> length ys = length xs"
  by (induction xs arbitrary: i ys) (auto simp: res_simps)

lemma r_mapi_Inr_set:
  "r_mapi f i xs = Inr ys \<Longrightarrow> y \<in> set ys \<Longrightarrow> \<exists>j x. x \<in> set xs \<and> f j x = Inr y"
  by (induction xs arbitrary: i ys) (fastforce simp: res_simps)+

text \<open>Evaluation of a first-match search that throws on a hit.\<close>

lemma guard_find_iff:
  "(case find P xs of None \<Rightarrow> Inr a | Some x \<Rightarrow> Inl (f x)) = Inr b \<longleftrightarrow> a = b \<and> (\<forall>x \<in> set xs. \<not> P x)"
  by (induction xs) auto

lemma r_mapi_iff:
  "(\<And>i v y. f i v = Inr y \<longleftrightarrow> P v y) \<Longrightarrow> r_mapi f i vs = Inr ys \<longleftrightarrow> list_all2 P vs ys"
  by (induction vs arbitrary: i ys) (auto simp: res_simps list_all2_Cons1)

lemma r_mapi_again:
  "r_mapi f i vs = Inr ys \<Longrightarrow> (\<And>i v y. f i v = Inr y \<Longrightarrow> (\<forall>j. f j (g y) = Inr y)) \<Longrightarrow>
   r_mapi f j (map g ys) = Inr ys"
  by (induction vs arbitrary: i j ys) (fastforce simp: res_simps)+

lemma r_is_ok_simps [simp]: "r_is_ok (Inl e) = False" "r_is_ok (Inr a) = True"
  by (simp_all add: r_is_ok_def)

section \<open>Actions: state passing with exceptions\<close>

text \<open>
  An operation of a stateful object takes the state, and returns what it returned or threw
  together with the state it left. A throw keeps every update made before it, as in the
  source.
\<close>

type_synonym ('s, 'e, 'a) action = "'s \<Rightarrow> ('e, 'a) res \<times> 's"

definition act_return :: "'a \<Rightarrow> ('s, 'e, 'a) action" where
  "act_return a s = (Inr a, s)"

definition act_throw :: "'e \<Rightarrow> ('s, 'e, 'a) action" where
  "act_throw e s = (Inl e, s)"

definition act_lift :: "('e, 'a) res \<Rightarrow> ('s, 'e, 'a) action" where
  "act_lift r s = (r, s)"

definition act_get :: "('s \<Rightarrow> 'a) \<Rightarrow> ('s, 'e, 'a) action" where
  "act_get f s = (Inr (f s), s)"

definition act_bind :: "('s, 'e, 'a) action \<Rightarrow> ('a \<Rightarrow> ('s, 'e, 'b) action) \<Rightarrow> ('s, 'e, 'b) action" where
  "act_bind m f s = (case m s of (Inl e, s') \<Rightarrow> (Inl e, s') | (Inr a, s') \<Rightarrow> f a s')"

definition act_seq :: "('s, 'e, 'a) action \<Rightarrow> ('s, 'e, 'b) action \<Rightarrow> ('s, 'e, 'b) action" where
  "act_seq m n = act_bind m (\<lambda>_. n)"

text \<open>\<open>for (const x of xs) f(x)\<close>.\<close>

fun act_for :: "('a \<Rightarrow> ('s, 'e, unit) action) \<Rightarrow> 'a list \<Rightarrow> ('s, 'e, unit) action" where
  "act_for f [] = act_return ()"
| "act_for f (x # xs) = act_seq (f x) (act_for f xs)"

named_theorems act_simps \<open>inversion of actions\<close>

lemma act_return_eq [act_simps]: "act_return a s = (r, s') \<longleftrightarrow> r = Inr a \<and> s' = s"
  by (auto simp: act_return_def)

lemma act_throw_eq [act_simps]: "act_throw e s = (r, s') \<longleftrightarrow> r = Inl e \<and> s' = s"
  by (auto simp: act_throw_def)

lemma act_lift_eq [act_simps]: "act_lift x s = (r, s') \<longleftrightarrow> r = x \<and> s' = s"
  by (auto simp: act_lift_def)

lemma act_get_eq [act_simps]: "act_get f s = (r, s') \<longleftrightarrow> r = Inr (f s) \<and> s' = s"
  by (auto simp: act_get_def)

lemma act_bind_eq_Inr [act_simps]:
  "act_bind m f s = (Inr b, s') \<longleftrightarrow> (\<exists>a s1. m s = (Inr a, s1) \<and> f a s1 = (Inr b, s'))"
  by (cases "m s") (auto simp: act_bind_def split: sum.splits)

lemma act_bind_eq_Inl [act_simps]:
  "act_bind m f s = (Inl e, s') \<longleftrightarrow>
     m s = (Inl e, s') \<or> (\<exists>a s1. m s = (Inr a, s1) \<and> f a s1 = (Inl e, s'))"
  by (cases "m s") (auto simp: act_bind_def split: sum.splits)

lemma act_seq_eq_Inr [act_simps]:
  "act_seq m n s = (Inr b, s') \<longleftrightarrow> (\<exists>a s1. m s = (Inr a, s1) \<and> n s1 = (Inr b, s'))"
  by (simp add: act_seq_def act_simps)

lemma act_seq_eq_Inl [act_simps]:
  "act_seq m n s = (Inl e, s') \<longleftrightarrow>
     m s = (Inl e, s') \<or> (\<exists>a s1. m s = (Inr a, s1) \<and> n s1 = (Inl e, s'))"
  by (simp add: act_seq_def act_simps)

lemma act_bind_run:
  "m s = (Inr a, s1) \<Longrightarrow> act_bind m f s = f a s1"
  "m s = (Inl e, s1) \<Longrightarrow> act_bind m f s = (Inl e, s1)"
  by (simp_all add: act_bind_def)

text \<open>Every action leaves a property of the state alone when its steps do.\<close>

lemma act_bind_preserves:
  assumes "P s" and "\<And>r s1. m s = (r, s1) \<Longrightarrow> P s1"
    and "\<And>a s1 r s2. P s1 \<Longrightarrow> f a s1 = (r, s2) \<Longrightarrow> P s2"
    and "act_bind m f s = (r, s')"
  shows "P s'"
  using assms by (cases "m s"; cases "fst (m s)") (auto simp: act_bind_def)

lemma act_for_preserves:
  assumes "\<And>x s r s'. x \<in> set xs \<Longrightarrow> P s \<Longrightarrow> f x s = (r, s') \<Longrightarrow> P s'"
    and "P s" and "act_for f xs s = (r, s')"
  shows "P s'"
  using assms
proof (induction xs arbitrary: s)
  case Nil
  then show ?case by (simp add: act_simps)
next
  case (Cons x xs)
  obtain r1 s1 where x: "f x s = (r1, s1)" by (cases "f x s")
  with Cons.prems(1) [of x s] Cons.prems(2) have s1: "P s1" by simp
  show ?case
  proof (cases r1)
    case (Inl e)
    with x Cons.prems(3) s1 show ?thesis by (simp add: act_seq_def act_bind_def)
  next
    case (Inr a)
    with x Cons.prems(3) have "act_for f xs s1 = (r, s')" by (simp add: act_seq_def act_bind_def)
    with Cons.IH [of s1] Cons.prems(1) s1 show ?thesis by auto
  qed
qed

section \<open>Insertion-ordered maps\<close>

text \<open>
  JavaScript's \<open>Map\<close> keeps insertion order and \<open>set\<close> on a present key keeps its place:
  exactly \<open>AList.update\<close>. \<open>map_of\<close> is \<open>get\<close>.
\<close>

type_synonym 'v js_map = "(string \<times> 'v) list"

abbreviation js_set :: "string \<Rightarrow> 'v \<Rightarrow> 'v js_map \<Rightarrow> 'v js_map" where
  "js_set \<equiv> AList.update"

definition js_get_or :: "'v js_map \<Rightarrow> string \<Rightarrow> 'v \<Rightarrow> 'v" where
  "js_get_or m k d = (case map_of m k of None \<Rightarrow> d | Some v \<Rightarrow> v)"

lemma map_of_js_set [simp]: "map_of (js_set k v m) k' = (if k' = k then Some v else map_of m k')"
  by (simp add: update_conv')

lemma js_get_or_set [simp]:
  "js_get_or (js_set k v m) k' d = (if k' = k then v else js_get_or m k' d)"
  by (simp add: js_get_or_def)

lemma js_get_or_Nil [simp]: "js_get_or [] k d = d"
  by (simp add: js_get_or_def)

lemma js_set_new: "map_of m k = None \<Longrightarrow> js_set k v m = m @ [(k, v)]"
  by (induction m) (auto split: if_splits)

lemma distinct_js_set: "distinct (map fst m) \<Longrightarrow> distinct (map fst (js_set k v m))"
  by (simp add: distinct_update)

section \<open>Lists\<close>

text \<open>\<open>[...new Set(xs)]\<close>: the first occurrence of every element, in order.\<close>

fun dedup_acc :: "'a list \<Rightarrow> 'a list \<Rightarrow> 'a list" where
  "dedup_acc seen [] = []"
| "dedup_acc seen (x # xs) =
     (if x \<in> set seen then dedup_acc seen xs else x # dedup_acc (x # seen) xs)"

definition js_dedup :: "'a list \<Rightarrow> 'a list" where
  "js_dedup xs = dedup_acc [] xs"

lemma set_dedup_acc: "set (dedup_acc seen xs) = set xs - set seen"
  by (induction seen xs rule: dedup_acc.induct) auto

lemma set_js_dedup [simp]: "set (js_dedup xs) = set xs"
  by (simp add: js_dedup_def set_dedup_acc)

lemma distinct_dedup_acc: "distinct (dedup_acc seen xs)"
  by (induction seen xs rule: dedup_acc.induct) (auto simp: set_dedup_acc)

lemma distinct_js_dedup [simp]: "distinct (js_dedup xs)"
  by (simp add: js_dedup_def distinct_dedup_acc)

lemma dedup_acc_distinct: "distinct xs \<Longrightarrow> set xs \<inter> set seen = {} \<Longrightarrow> dedup_acc seen xs = xs"
  by (induction seen xs rule: dedup_acc.induct) auto

lemma js_dedup_distinct: "distinct xs \<Longrightarrow> js_dedup xs = xs"
  by (simp add: js_dedup_def dedup_acc_distinct)

text \<open>\<open>xs.find(p)\<close> is \<open>List.find\<close>, \<open>xs.some(p)\<close> is \<open>list_ex\<close>; a loop that returns the
  first hit of a partial view is \<open>find_map\<close>, one that keeps the last is \<open>last_map\<close>.\<close>

fun find_map :: "('a \<Rightarrow> 'b option) \<Rightarrow> 'a list \<Rightarrow> 'b option" where
  "find_map f [] = None"
| "find_map f (x # xs) = (case f x of Some y \<Rightarrow> Some y | None \<Rightarrow> find_map f xs)"

fun last_map :: "('a \<Rightarrow> 'b option) \<Rightarrow> 'a list \<Rightarrow> 'b option \<Rightarrow> 'b option" where
  "last_map f [] acc = acc"
| "last_map f (x # xs) acc = last_map f xs (case f x of Some y \<Rightarrow> Some y | None \<Rightarrow> acc)"

lemma find_map_append:
  "find_map f (xs @ ys) = (case find_map f xs of Some y \<Rightarrow> Some y | None \<Rightarrow> find_map f ys)"
  by (induction xs) (auto split: option.splits)

lemma last_map_append: "last_map f (xs @ ys) acc = last_map f ys (last_map f xs acc)"
  by (induction xs arbitrary: acc) auto

lemma find_map_Some_iff_ex: "find_map f xs \<noteq> None \<longleftrightarrow> (\<exists>x \<in> set xs. f x \<noteq> None)"
  by (induction xs) (auto split: option.splits)

lemma find_map_SomeD: "find_map f xs = Some y \<Longrightarrow> \<exists>x \<in> set xs. f x = Some y"
  by (induction xs) (auto split: option.splits)

lemma find_map_None_iff: "find_map f xs = None \<longleftrightarrow> (\<forall>x \<in> set xs. f x = None)"
  by (induction xs) (auto split: option.splits)

lemma last_map_SomeD:
  "last_map f xs acc = Some y \<Longrightarrow> acc = Some y \<or> (\<exists>x \<in> set xs. f x = Some y)"
  by (induction xs arbitrary: acc) (fastforce split: option.splits)+

lemma last_map_None_iff: "last_map f xs acc = None \<longleftrightarrow> acc = None \<and> (\<forall>x \<in> set xs. f x = None)"
  by (induction xs arbitrary: acc) (auto split: option.splits)

lemma find_SomeD: "find P xs = Some x \<Longrightarrow> x \<in> set xs \<and> P x"
  by (induction xs) (auto split: if_splits)

text \<open>\<open>s.startsWith(p)\<close>.\<close>

definition starts_with :: "string \<Rightarrow> string \<Rightarrow> bool" where
  "starts_with s p = (take (length p) s = p)"

lemma starts_with_append [simp]: "starts_with (p @ s) p"
  by (simp add: starts_with_def)

lemma starts_with_iff: "starts_with s p \<longleftrightarrow> (\<exists>r. s = p @ r)"
  by (metis append_take_drop_id starts_with_append starts_with_def)

text \<open>\<open>xs.sort(cmp)\<close> for a comparator that is a total preorder \<open>le\<close>: JavaScript's sort is stable.\<close>

fun insort_by :: "('a \<Rightarrow> 'a \<Rightarrow> bool) \<Rightarrow> 'a \<Rightarrow> 'a list \<Rightarrow> 'a list" where
  "insort_by le x [] = [x]"
| "insort_by le x (y # ys) = (if le x y then x # y # ys else y # insort_by le x ys)"

fun sort_by :: "('a \<Rightarrow> 'a \<Rightarrow> bool) \<Rightarrow> 'a list \<Rightarrow> 'a list" where
  "sort_by le [] = []"
| "sort_by le (x # xs) = insort_by le x (sort_by le xs)"

lemma set_insort_by [simp]: "set (insort_by le x xs) = insert x (set xs)"
  by (induction xs) auto

lemma set_sort_by [simp]: "set (sort_by le xs) = set xs"
  by (induction xs) auto

lemma length_insort_by [simp]: "length (insort_by le x xs) = Suc (length xs)"
  by (induction xs) auto

lemma length_sort_by [simp]: "length (sort_by le xs) = length xs"
  by (induction xs) auto

lemma distinct_insort_by: "distinct (insort_by le x xs) = (x \<notin> set xs \<and> distinct xs)"
  by (induction xs) auto

lemma distinct_sort_by [simp]: "distinct (sort_by le xs) = distinct xs"
  by (induction xs) (auto simp: distinct_insort_by)

definition total_preorder :: "('a \<Rightarrow> 'a \<Rightarrow> bool) \<Rightarrow> bool" where
  "total_preorder le = ((\<forall>a b. le a b \<or> le b a) \<and> (\<forall>a b c. le a b \<longrightarrow> le b c \<longrightarrow> le a c))"

lemma total_preorderD:
  "total_preorder le \<Longrightarrow> \<not> le a b \<Longrightarrow> le b a"
  "total_preorder le \<Longrightarrow> le a b \<Longrightarrow> le b c \<Longrightarrow> le a c"
  unfolding total_preorder_def by blast+

lemma sorted_insort_by: "total_preorder le \<Longrightarrow> sorted_wrt le xs \<Longrightarrow> sorted_wrt le (insort_by le x xs)"
  by (induction xs) (auto intro: total_preorderD)

lemma sorted_sort_by: "total_preorder le \<Longrightarrow> sorted_wrt le (sort_by le xs)"
  by (induction xs) (auto intro!: sorted_insort_by)

lemma total_preorder_on: "total_preorder le \<Longrightarrow> total_preorder (\<lambda>a b. le (f a) (f b))"
  unfolding total_preorder_def by blast

lemma insort_by_front: "\<forall>y \<in> set ys. le x y \<Longrightarrow> insort_by le x ys = x # ys"
  by (cases ys) auto

lemma sort_by_sorted: "sorted_wrt le xs \<Longrightarrow> sort_by le xs = xs"
  by (induction xs) (auto simp: insort_by_front)

lemma sort_by_idem: "total_preorder le \<Longrightarrow> sort_by le (sort_by le xs) = sort_by le xs"
  by (simp add: sort_by_sorted sorted_sort_by)

end
