(* ===== verification/JsValue.thy ===== *)
theory JsValue
  imports Prelude Complex_Main "HOL-Library.Char_ord" "HOL-Library.List_Lexorder"
begin

text \<open>
  JavaScript values as the code meets them (\<open>unknown\<close> inputs and JSON payloads), the thrown
  error classes, the host functions whose result ECMAScript or Node leaves to the
  implementation, the schema checks of \<open>harness-v2/src/schema.ts\<close>, \<open>parseJsonValue\<close>, and the
  canonical printer \<open>stableJson\<close> of \<open>event-store/src/codec.ts\<close> with the map keys built from it.

  Strings are lists of code units below 256 (Latin-1); \<open>string\<close>'s character order is then
  JavaScript's code unit order. Finite numbers are rationals.
\<close>

section \<open>Values and errors\<close>

datatype js =
    JUndef
  | JNull
  | JBool bool
  | JNum rat
  | JNonFinite
  | JStr string
  | JArr "js list"
  | JObj "(string \<times> js) list"
  | JFun

datatype js_error =
    SchemaValidationError string
  | PlainError string
  | EventScopeMismatchError
  | EventSequenceConflictError
  | EventConflictError
  | CommandConflictError
  | ProjectionVersionConflictError
  | ProjectionSourceEventNotFoundError
  | TerminalEventConflictError
  | ChannelSessionConflictError
  | UnsupportedSchemaVersionError int int
  | ScheduleConflictError
  | ScheduleNotificationConflictError

type_synonym 'a parsed = "(js_error, 'a) res"

text \<open>
  What the language or Node leaves open: \<open>Date.parse\<close> (\<open>None\<close> for \<open>NaN\<close>),
  \<open>Date.prototype.toISOString\<close>, the digits of a number that is not a safe integer, the order of
  \<open>localeCompare\<close>, and \<open>node:crypto\<close>'s SHA-256 in hexadecimal.
\<close>

record host =
  date_parse :: "string \<Rightarrow> int option"
  iso_string :: "int \<Rightarrow> string"
  frac_digits :: "rat \<Rightarrow> string"
  locale_le :: "string \<Rightarrow> string \<Rightarrow> bool"
  sha256_hex :: "string \<Rightarrow> string"

section \<open>Numbers and strings\<close>

fun digit_char :: "nat \<Rightarrow> char" where
  "digit_char n = char_of (48 + n)"

fun show_nat :: "nat \<Rightarrow> string" where
  "show_nat n = (if n < 10 then [digit_char n] else show_nat (n div 10) @ [digit_char (n mod 10)])"

declare show_nat.simps [simp del]

definition show_int :: "int \<Rightarrow> string" where
  "show_int i = (if i < 0 then ''-'' @ show_nat (nat (- i)) else show_nat (nat i))"

definition is_integral :: "rat \<Rightarrow> bool" where
  "is_integral q = (snd (quotient_of q) = 1)"

definition the_int :: "rat \<Rightarrow> int" where
  "the_int q = fst (quotient_of q)"

text \<open>\<open>Number.MAX_SAFE_INTEGER\<close> is \<open>2^53 - 1\<close>.\<close>

definition max_safe :: int where
  "max_safe = 9007199254740991"

definition is_safe_integer :: "js \<Rightarrow> bool" where
  "is_safe_integer v =
     (case v of JNum q \<Rightarrow> is_integral q \<and> \<bar>the_int q\<bar> \<le> max_safe | _ \<Rightarrow> False)"

text \<open>
  \<open>Number::toString\<close>: safe integers print as their decimal digits; the shortest digits that read back
  as any other number are the host's.
\<close>

definition number_string :: "host \<Rightarrow> rat \<Rightarrow> string" where
  "number_string h q =
     (if is_integral q \<and> \<bar>the_int q\<bar> \<le> max_safe then show_int (the_int q) else frac_digits h q)"

definition is_space :: "char \<Rightarrow> bool" where
  "is_space c = (of_char c \<in> {9, 10, 11, 12, 13, 32, 160 :: nat})"

definition js_trim :: "string \<Rightarrow> string" where
  "js_trim s = rev (dropWhile is_space (rev (dropWhile is_space s)))"

definition is_blank :: "string \<Rightarrow> bool" where
  "is_blank s = (js_trim s = [])"

text \<open>\<open>JSON.stringify\<close> of a string.\<close>

fun hex_digit :: "nat \<Rightarrow> char" where
  "hex_digit n = (if n < 10 then char_of (48 + n) else char_of (87 + n))"

definition esc_char :: "char \<Rightarrow> string" where
  "esc_char c =
     (let n = of_char c :: nat in
      if n = 34 then [CHR 0x5C, CHR 0x22]
      else if n = 92 then [CHR 0x5C, CHR 0x5C]
      else if n = 8 then [CHR 0x5C, CHR ''b'']
      else if n = 9 then [CHR 0x5C, CHR ''t'']
      else if n = 10 then [CHR 0x5C, CHR ''n'']
      else if n = 12 then [CHR 0x5C, CHR ''f'']
      else if n = 13 then [CHR 0x5C, CHR ''r'']
      else if n < 32 then [CHR 0x5C, CHR ''u'', CHR ''0'', CHR ''0'', hex_digit (n div 16), hex_digit (n mod 16)]
      else [c])"

definition json_quote :: "string \<Rightarrow> string" where
  "json_quote s = [CHR 0x22] @ concat (map esc_char s) @ [CHR 0x22]"

section \<open>Objects\<close>

text \<open>\<open>value.field\<close> on an object without that own property is \<open>undefined\<close>.\<close>

definition js_field :: "(string \<times> js) list \<Rightarrow> string \<Rightarrow> js" where
  "js_field kvs k = (case map_of kvs k of None \<Rightarrow> JUndef | Some v \<Rightarrow> v)"

definition js_has_own :: "(string \<times> js) list \<Rightarrow> string \<Rightarrow> bool" where
  "js_has_own kvs k = (map_of kvs k \<noteq> None)"

text \<open>\<open>...(x === undefined ? {} : { k: x })\<close>.\<close>

definition opt_field :: "string \<Rightarrow> ('a \<Rightarrow> js) \<Rightarrow> 'a option \<Rightarrow> (string \<times> js) list" where
  "opt_field k f x = (case x of None \<Rightarrow> [] | Some a \<Rightarrow> [(k, f a)])"

text \<open>\<open>isRecord\<close>, as every module of the harness defines it.\<close>

fun is_record :: "js \<Rightarrow> bool" where
  "is_record (JObj _) = True"
| "is_record _ = False"

text \<open>The entries of a record; the empty object otherwise.\<close>

fun record_or_empty :: "js \<Rightarrow> (string \<times> js) list" where
  "record_or_empty (JObj kvs) = kvs"
| "record_or_empty _ = []"

text \<open>\<open>typeof value === "string" ? value : undefined\<close>.\<close>

fun as_string :: "js \<Rightarrow> string option" where
  "as_string (JStr s) = Some s"
| "as_string _ = None"

definition string_field :: "js \<Rightarrow> string \<Rightarrow> string option" where
  "string_field v k = (case v of JObj kvs \<Rightarrow> as_string (js_field kvs k) | _ \<Rightarrow> None)"

section \<open>Schema checks (\<open>schema.ts\<close>)\<close>

definition expect_record :: "js \<Rightarrow> string \<Rightarrow> (string \<times> js) list parsed" where
  "expect_record input name =
     (case input of
        JObj kvs \<Rightarrow> Inr kvs
      | _ \<Rightarrow> Inl (SchemaValidationError (name @ '' must be an object'')))"

definition expect_non_empty_string :: "js \<Rightarrow> string \<Rightarrow> string parsed" where
  "expect_non_empty_string input name =
     (case input of
        JStr s \<Rightarrow>
          if is_blank s then Inl (SchemaValidationError (name @ '' must be a non-empty string''))
          else Inr s
      | _ \<Rightarrow> Inl (SchemaValidationError (name @ '' must be a non-empty string'')))"

definition expect_positive_integer :: "js \<Rightarrow> string \<Rightarrow> int parsed" where
  "expect_positive_integer input name =
     (case input of
        JNum q \<Rightarrow>
          if is_safe_integer input \<and> \<not> the_int q < 1 then Inr (the_int q)
          else Inl (SchemaValidationError (name @ '' must be a positive integer''))
      | _ \<Rightarrow> Inl (SchemaValidationError (name @ '' must be a positive integer'')))"

definition expect_positive_finite_number :: "js \<Rightarrow> string \<Rightarrow> rat parsed" where
  "expect_positive_finite_number input name =
     (case input of
        JNum q \<Rightarrow>
          if q \<le> 0 then Inl (SchemaValidationError (name @ '' must be a positive finite number''))
          else Inr q
      | _ \<Rightarrow> Inl (SchemaValidationError (name @ '' must be a positive finite number'')))"

definition expect_non_negative_integer :: "js \<Rightarrow> string \<Rightarrow> int parsed" where
  "expect_non_negative_integer input name =
     (case input of
        JNum q \<Rightarrow>
          if is_safe_integer input \<and> \<not> the_int q < 0 then Inr (the_int q)
          else Inl (SchemaValidationError (name @ '' must be a non-negative integer''))
      | _ \<Rightarrow> Inl (SchemaValidationError (name @ '' must be a non-negative integer'')))"

section \<open>JSON values (\<open>contracts.ts\<close>, \<open>codec.ts\<close>)\<close>

definition index_name :: "string \<Rightarrow> nat \<Rightarrow> string" where
  "index_name name i = name @ ''['' @ show_nat i @ '']''"

fun parse_json_value :: "js \<Rightarrow> string \<Rightarrow> js parsed"
  and parse_json_items :: "js list \<Rightarrow> string \<Rightarrow> nat \<Rightarrow> js list parsed"
  and parse_json_entries :: "(string \<times> js) list \<Rightarrow> string \<Rightarrow> (string \<times> js) list parsed" where
  "parse_json_value JNull name = Inr JNull"
| "parse_json_value (JBool b) name = Inr (JBool b)"
| "parse_json_value (JStr s) name = Inr (JStr s)"
| "parse_json_value (JNum q) name = Inr (JNum q)"
| "parse_json_value (JArr xs) name =
     r_bind (parse_json_items xs name 0) (\<lambda>ys. Inr (JArr ys))"
| "parse_json_value (JObj kvs) name =
     r_bind (parse_json_entries kvs name) (\<lambda>ys. Inr (JObj ys))"
| "parse_json_value v name = Inl (SchemaValidationError (name @ '' must contain only JSON values''))"
| "parse_json_items [] name i = Inr []"
| "parse_json_items (x # xs) name i =
     r_bind (parse_json_value x (index_name name i)) (\<lambda>y.
     r_bind (parse_json_items xs name (Suc i)) (\<lambda>ys. Inr (y # ys)))"
| "parse_json_entries [] name = Inr []"
| "parse_json_entries ((k, v) # kvs) name =
     r_bind (parse_json_value v (name @ ''.'' @ k)) (\<lambda>y.
     r_bind (parse_json_entries kvs name) (\<lambda>ys. Inr ((k, y) # ys)))"

text \<open>The values that are JSON through and through.\<close>

fun is_json :: "js \<Rightarrow> bool" where
  "is_json JUndef = False"
| "is_json JNonFinite = False"
| "is_json JFun = False"
| "is_json (JArr xs) = (\<forall>x \<in> set xs. is_json x)"
| "is_json (JObj kvs) = (\<forall>kv \<in> set kvs. is_json (snd kv))"
| "is_json _ = True"

fun join_comma :: "string list \<Rightarrow> string" where
  "join_comma [] = []"
| "join_comma [s] = s"
| "join_comma (s # t # ss) = s @ '','' @ join_comma (t # ss)"

fun stable_json :: "host \<Rightarrow> js \<Rightarrow> string" where
  "stable_json h (JArr xs) = ''['' @ join_comma (map (stable_json h) xs) @ '']''"
| "stable_json h (JObj kvs) =
     ''{'' @ join_comma (map (\<lambda>kv. json_quote (fst kv) @ '':'' @ snd kv)
       (sort_key fst (map (\<lambda>kv. (fst kv, stable_json h (snd kv))) kvs))) @ ''}''"
| "stable_json h JNull = ''null''"
| "stable_json h (JBool b) = (if b then ''true'' else ''false'')"
| "stable_json h (JNum q) = number_string h q"
| "stable_json h (JStr s) = json_quote s"
| "stable_json h JNonFinite = ''null''"
| "stable_json h JUndef = ''undefined''"
| "stable_json h JFun = ''undefined''"

section \<open>Inversion of the checks\<close>

lemma is_blank_iff: "is_blank s \<longleftrightarrow> (\<forall>c \<in> set s. is_space c)"
proof -
  have "dropWhile P (rev (dropWhile P s)) = [] \<longleftrightarrow> (\<forall>c \<in> set s. P c)" for P :: "char \<Rightarrow> bool"
    by (induction s) (auto simp: dropWhile_eq_Nil_conv)
  then show ?thesis by (simp add: is_blank_def js_trim_def)
qed

text \<open>
  What a successful check says about its input. None of the facts mentions the name a check
  is given for its message, so a value accepted in one place is accepted in every place.
\<close>

named_theorems parse_iffs \<open>a check succeeds exactly when\<close>

lemma expect_record_iff [parse_iffs]: "expect_record v n = Inr kvs \<longleftrightarrow> v = JObj kvs"
  by (auto simp: expect_record_def split: js.splits)

lemma expect_non_empty_string_iff [parse_iffs]:
  "expect_non_empty_string v n = Inr s \<longleftrightarrow> v = JStr s \<and> \<not> is_blank s"
  by (auto simp: expect_non_empty_string_def split: js.splits)

lemma integral_of_int [simp]: "is_integral (of_int i)" "the_int (of_int i) = i"
  by (simp_all add: is_integral_def the_int_def)

lemma integral_is_of_int: "is_integral q \<Longrightarrow> q = of_int (the_int q)"
  unfolding is_integral_def the_int_def
  by (metis Fract_of_int_quotient Rat.of_int_def Rat_cases_nonzero quotient_of_div div_by_1 of_int_1 prod.collapse)

lemma safe_integer_iff: "is_safe_integer v \<longleftrightarrow> (\<exists>i. v = JNum (of_int i) \<and> \<bar>i\<bar> \<le> max_safe)"
  by (auto simp: is_safe_integer_def dest: integral_is_of_int split: js.splits)

lemma expect_positive_integer_iff [parse_iffs]:
  "expect_positive_integer v n = Inr i \<longleftrightarrow> v = JNum (of_int i) \<and> 1 \<le> i \<and> i \<le> max_safe"
  by (auto simp: expect_positive_integer_def safe_integer_iff split: js.splits)

lemma expect_non_negative_integer_iff [parse_iffs]:
  "expect_non_negative_integer v n = Inr i \<longleftrightarrow> v = JNum (of_int i) \<and> 0 \<le> i \<and> i \<le> max_safe"
  by (auto simp: expect_non_negative_integer_def safe_integer_iff split: js.splits)

lemma expect_positive_finite_number_iff [parse_iffs]:
  "expect_positive_finite_number v n = Inr q \<longleftrightarrow> v = JNum q \<and> 0 < q"
  by (auto simp: expect_positive_finite_number_def split: js.splits)

lemma js_field_simps [simp]:
  "js_field [] k = JUndef"
  "js_field ((k', v) # kvs) k = (if k = k' then v else js_field kvs k)"
  by (simp_all add: js_field_def)

lemma js_has_own_simps [simp]:
  "js_has_own [] k = False"
  "js_has_own ((k', v) # kvs) k = (k = k' \<or> js_has_own kvs k)"
  by (auto simp: js_has_own_def)

lemma js_field_absent: "\<not> js_has_own kvs k \<Longrightarrow> js_field kvs k = JUndef"
  by (simp add: js_has_own_def js_field_def)

lemma js_field_append [simp]: "js_field (xs @ ys) k = (if js_has_own xs k then js_field xs k else js_field ys k)"
  by (auto simp: js_field_def js_has_own_def split: option.splits)

lemma js_has_own_append [simp]: "js_has_own (xs @ ys) k = (js_has_own xs k \<or> js_has_own ys k)"
  by (auto simp: js_has_own_def map_add_def split: option.splits)

lemma js_has_own_opt_field [simp]: "js_has_own (opt_field k f x) k' = (k' = k \<and> x \<noteq> None)"
  by (cases x) (auto simp: opt_field_def)

lemma js_field_opt_field [simp]:
  "js_field (opt_field k f x) k' = (if k' = k then (case x of None \<Rightarrow> JUndef | Some a \<Rightarrow> f a) else JUndef)"
  by (cases x) (auto simp: opt_field_def)

text \<open>Taking a successful parse apart, one check at a time.\<close>

lemma case_arrE: "(case v of JArr xs \<Rightarrow> f xs | _ \<Rightarrow> Inl e) = Inr b \<Longrightarrow> (\<And>xs. v = JArr xs \<Longrightarrow> f xs = Inr b \<Longrightarrow> P) \<Longrightarrow> P"
  by (cases v) auto

lemma case_objE: "(case v of JObj xs \<Rightarrow> f xs | _ \<Rightarrow> Inl e) = Inr b \<Longrightarrow> (\<And>xs. v = JObj xs \<Longrightarrow> f xs = Inr b \<Longrightarrow> P) \<Longrightarrow> P"
  by (cases v) auto

lemma case_strE: "(case v of JStr xs \<Rightarrow> f xs | _ \<Rightarrow> Inl e) = Inr b \<Longrightarrow> (\<And>xs. v = JStr xs \<Longrightarrow> f xs = Inr b \<Longrightarrow> P) \<Longrightarrow> P"
  by (cases v) auto

lemma if_InlE: "(if c then Inl e else r) = Inr b \<Longrightarrow> (\<not> c \<Longrightarrow> r = Inr b \<Longrightarrow> P) \<Longrightarrow> P"
  by (cases c) auto

lemma let_E: "Let a f = r \<Longrightarrow> (f a = r \<Longrightarrow> P) \<Longrightarrow> P"
  by simp

lemmas parse_elims = r_bindE case_arrE case_objE case_strE if_InlE let_E

text \<open>The same facts as evaluation rules, for inputs that are known to pass.\<close>

named_theorems parse_runs \<open>evaluation of a check that succeeds\<close>

lemma expect_runs [parse_runs]:
  "expect_record (JObj kvs) n = Inr kvs"
  "\<not> is_blank s \<Longrightarrow> expect_non_empty_string (JStr s) n = Inr s"
  "1 \<le> i \<Longrightarrow> i \<le> max_safe \<Longrightarrow> expect_positive_integer (JNum (of_int i)) n = Inr i"
  "0 \<le> i \<Longrightarrow> i \<le> max_safe \<Longrightarrow> expect_non_negative_integer (JNum (of_int i)) n = Inr i"
  "0 < q \<Longrightarrow> expect_positive_finite_number (JNum q) n = Inr q"
  by (simp_all only: parse_iffs simp_thms)

lemma parse_json_iff_aux:
  "parse_json_value v n = Inr w \<longleftrightarrow> w = v \<and> is_json v"
  "parse_json_items vs n i = Inr ws \<longleftrightarrow> ws = vs \<and> (\<forall>x \<in> set vs. is_json x)"
  "parse_json_entries kvs n = Inr es \<longleftrightarrow> es = kvs \<and> (\<forall>kv \<in> set kvs. is_json (snd kv))"
  by (induction v n and vs n i and kvs n arbitrary: w and ws and es
      rule: parse_json_value_parse_json_items_parse_json_entries.induct)
    (auto simp: res_simps)

lemma parse_json_value_iff [parse_iffs]: "parse_json_value v n = Inr w \<longleftrightarrow> w = v \<and> is_json v"
  by (rule parse_json_iff_aux)

lemma parse_json_value_run [parse_runs]: "is_json v \<Longrightarrow> parse_json_value v n = Inr v"
  by (simp add: parse_json_value_iff)

end
