(* ===== verification/StableJson.thy ===== *)
theory StableJson
  imports JsValue
begin

text \<open>
  The canonical printer \<open>stable_json\<close> decides equality of JSON values up to the order of
  object keys, so comparing two printed values (as the stores do for idempotency) is sound.
  From it: the store keys built by \<open>scopedKey\<close> are injective, so two channel scopes, kinds or
  ids never share an entry, and \<open>scopedPrefix\<close> selects exactly the entries of one kind.
\<close>

section \<open>Printed numbers\<close>

definition digits_value :: "string \<Rightarrow> nat" where
  "digits_value s = foldl (\<lambda>a c. 10 * a + (of_char c - 48)) 0 s"

lemma of_char_digit_char: "n < 10 \<Longrightarrow> (of_char (digit_char n) :: nat) = 48 + n"
  by (simp add: of_char_of)

lemma digits_value_show_nat: "digits_value (show_nat n) = n"
proof (induction n rule: show_nat.induct)
  case (1 n)
  show ?case
  proof (cases "n < 10")
    case True
    then show ?thesis
      by (simp add: show_nat.simps [of n] digits_value_def of_char_digit_char del: digit_char.simps)
  next
    case False
    with 1 have "foldl (\<lambda>a c. 10 * a + (of_char c - 48)) 0 (show_nat (n div 10)) = n div 10"
      by (simp add: digits_value_def)
    with False show ?thesis
      by (simp add: show_nat.simps [of n] digits_value_def of_char_digit_char del: digit_char.simps)
  qed
qed

lemma show_nat_inj: "show_nat m = show_nat n \<longleftrightarrow> m = n"
  by (metis digits_value_show_nat)

definition is_digit :: "char \<Rightarrow> bool" where
  "is_digit c = (48 \<le> (of_char c :: nat) \<and> (of_char c :: nat) \<le> 57)"

lemma is_digit_digit_char: "n < 10 \<Longrightarrow> is_digit (digit_char n)"
  by (simp add: is_digit_def of_char_digit_char del: digit_char.simps)

lemma show_nat_digits: "c \<in> set (show_nat n) \<Longrightarrow> is_digit c"
proof (induction n arbitrary: c rule: show_nat.induct)
  case (1 n)
  then show ?case
    by (cases "n < 10")
      (auto simp: show_nat.simps [of n] is_digit_digit_char simp del: digit_char.simps)
qed

lemma show_nat_nonempty: "show_nat n \<noteq> []"
  by (subst show_nat.simps) simp

lemma show_int_inj: "show_int i = show_int j \<longleftrightarrow> i = j"
proof
  assume eq: "show_int i = show_int j"
  have nodash: "show_nat n \<noteq> CHR ''-'' # s" for n s
    using show_nat_digits [of "CHR ''-''" n] by (auto simp: is_digit_def)
  with eq have "(i < 0) = (j < 0)"
    by (metis append_Cons append_Nil show_int_def)
  with eq show "i = j"
    by (auto simp: show_int_def show_nat_inj split: if_splits)
qed simp

definition numeral_chars :: "char \<Rightarrow> bool" where
  "numeral_chars c = (is_digit c \<or> c \<in> set ''-+.e'')"

definition starts_number :: "string \<Rightarrow> bool" where
  "starts_number s = (case s of [] \<Rightarrow> False | c # _ \<Rightarrow> is_digit c \<or> c = CHR ''-'')"

lemma show_int_shape:
  "starts_number (show_int i)" "c \<in> set (show_int i) \<Longrightarrow> is_digit c \<or> c = CHR ''-''"
proof -
  have "starts_number (show_nat n)" for n
    using show_nat_nonempty [of n] show_nat_digits [of "hd (show_nat n)" n]
    by (cases "show_nat n") (auto simp: starts_number_def)
  then show "starts_number (show_int i)"
    by (auto simp: show_int_def starts_number_def)
  show "c \<in> set (show_int i) \<Longrightarrow> is_digit c \<or> c = CHR ''-''"
    by (auto simp: show_int_def show_nat_digits split: if_splits)
qed

text \<open>
  ECMAScript's \<open>Number::toString\<close> outside the safe integers: digits that read back as the number, so
  different for different numbers and from those of a safe integer.
\<close>

definition small_integer :: "rat \<Rightarrow> bool" where
  "small_integer q = (is_integral q \<and> \<bar>the_int q\<bar> \<le> max_safe)"

definition digits_ok :: "host \<Rightarrow> bool" where
  "digits_ok h =
     ((\<forall>q. \<not> small_integer q \<longrightarrow>
         starts_number (frac_digits h q) \<and> (\<forall>c \<in> set (frac_digits h q). numeral_chars c)
         \<and> (\<forall>i. \<bar>i\<bar> \<le> max_safe \<longrightarrow> frac_digits h q \<noteq> show_int i))
      \<and> (\<forall>p q. \<not> small_integer p \<and> \<not> small_integer q \<and> frac_digits h p = frac_digits h q \<longrightarrow> p = q))"

lemma number_string_small:
  "number_string h q = (if small_integer q then show_int (the_int q) else frac_digits h q)"
  by (simp add: number_string_def small_integer_def)

lemma integral_eq: "is_integral p \<Longrightarrow> is_integral q \<Longrightarrow> the_int p = the_int q \<Longrightarrow> p = q"
  by (metis is_integral_def prod.collapse quotient_of_inject the_int_def)

lemma number_string_inj:
  assumes h: "digits_ok h" and eq: "number_string h p = number_string h q"
  shows "p = q"
proof -
  have mixed: False if "small_integer x" "\<not> small_integer y" "show_int (the_int x) = frac_digits h y" for x y
    using h that unfolding digits_ok_def small_integer_def by metis
  show ?thesis
  proof (cases "small_integer p"; cases "small_integer q")
    assume "small_integer p" "small_integer q"
    with eq show ?thesis
      by (auto simp: number_string_small show_int_inj small_integer_def intro: integral_eq)
  next
    assume "\<not> small_integer p" "\<not> small_integer q"
    with eq h show ?thesis by (auto simp: number_string_small digits_ok_def)
  next
    assume "small_integer p" "\<not> small_integer q"
    with eq mixed [of p q] show ?thesis by (simp add: number_string_small)
  next
    assume "\<not> small_integer p" "small_integer q"
    with eq mixed [of q p] show ?thesis by (simp add: number_string_small)
  qed
qed

lemma number_string_shape:
  assumes h: "digits_ok h"
  shows "starts_number (number_string h q)" "c \<in> set (number_string h q) \<Longrightarrow> numeral_chars c"
  using h show_int_shape [where i = "the_int q"]
  by (auto simp: number_string_small digits_ok_def numeral_chars_def split: if_splits)

section \<open>Printed strings\<close>

lemma hex_digit_inj: "m < 16 \<Longrightarrow> n < 16 \<Longrightarrow> hex_digit m = hex_digit n \<Longrightarrow> m = n"
proof -
  assume "m < 16" "n < 16" "hex_digit m = hex_digit n"
  then have "(of_char (hex_digit m) :: nat) = of_char (hex_digit n)" by simp
  with \<open>m < 16\<close> \<open>n < 16\<close> show "m = n"
    by (auto simp: of_char_of split: if_splits)
qed

lemma hex_pair: "m < 32 \<Longrightarrow> n < 32 \<Longrightarrow> hex_digit (m div 16) = hex_digit (n div 16) \<Longrightarrow>
    hex_digit (m mod 16) = hex_digit (n mod 16) \<Longrightarrow> m = (n :: nat)"
proof -
  assume a: "m < 32" "n < 32" "hex_digit (m div 16) = hex_digit (n div 16)"
    "hex_digit (m mod 16) = hex_digit (n mod 16)"
  have "m div 16 = n div 16" by (rule hex_digit_inj) (use a in auto)
  moreover have "m mod 16 = n mod 16" by (rule hex_digit_inj) (use a in auto)
  ultimately show "m = n" by (metis div_mult_mod_eq)
qed

lemma esc_char_nonempty: "esc_char c \<noteq> []"
  by (simp add: esc_char_def Let_def)

lemma esc_char_hd: "hd (esc_char c) \<noteq> CHR 0x22"
  by (auto simp: esc_char_def Let_def split: if_splits)

lemma of_char_inj: "(of_char c :: nat) = of_char d \<Longrightarrow> c = d"
  by (metis char_of_char)

text \<open>The two-character escapes, by character code.\<close>

definition short_escapes :: "(nat \<times> char) list" where
  "short_escapes = [(34, CHR 0x22), (92, CHR 0x5C), (8, CHR ''b''), (9, CHR ''t''), (10, CHR ''n''),
     (12, CHR ''f''), (13, CHR ''r'')]"

lemma short_escapes_inj:
  "(m, x) \<in> set short_escapes \<Longrightarrow> (n, x) \<in> set short_escapes \<Longrightarrow> m = n"
  "(m, x) \<in> set short_escapes \<Longrightarrow> x \<noteq> CHR ''u''"
  by (auto simp: short_escapes_def)

lemma esc_char_forms:
  obtains (raw) "esc_char c = [c]" "c \<noteq> CHR 0x5C"
  | (short) x where "(of_char c, x) \<in> set short_escapes" "esc_char c = [CHR 0x5C, x]"
  | (unicode) "of_char c < (32 :: nat)" "esc_char c =
      [CHR 0x5C, CHR ''u'', CHR ''0'', CHR ''0'', hex_digit (of_char c div 16), hex_digit (of_char c mod 16)]"
proof -
  define n where "n = (of_char c :: nat)"
  note e = esc_char_def [of c, unfolded Let_def, folded n_def]
  consider "n \<in> {34, 92, 8, 9, 10, 12, 13}" | "n < 32" "n \<notin> {34, 92, 8, 9, 10, 12, 13}"
    | "\<not> n < 32" "n \<notin> {34, 92, 8, 9, 10, 12, 13}"
    by linarith
  then show thesis
  proof cases
    case 1
    then have "\<exists>x. (n, x) \<in> set short_escapes \<and> esc_char c = [CHR 0x5C, x]"
      by (auto simp: e short_escapes_def)
    then show ?thesis using short n_def by blast
  next
    case 2
    then show ?thesis using unicode e n_def by (simp del: hex_digit.simps)
  next
    case 3
    then have "c \<noteq> CHR 0x5C" by (auto simp: n_def)
    with 3 show ?thesis using raw e by simp
  qed
qed

lemma esc_char_prefix_free:
  assumes "esc_char c @ x = esc_char d @ y"
  shows "c = d \<and> x = y"
proof (cases c rule: esc_char_forms; cases d rule: esc_char_forms)
  fix u v assume "(of_char c, u) \<in> set short_escapes" "esc_char c = [CHR 0x5C, u]"
    "(of_char d, v) \<in> set short_escapes" "esc_char d = [CHR 0x5C, v]"
  with assms show ?thesis by (auto dest: short_escapes_inj(1) of_char_inj)
next
  assume "of_char c < (32 :: nat)" "of_char d < (32 :: nat)"
    "esc_char c = [CHR 0x5C, CHR ''u'', CHR ''0'', CHR ''0'', hex_digit (of_char c div 16), hex_digit (of_char c mod 16)]"
    "esc_char d = [CHR 0x5C, CHR ''u'', CHR ''0'', CHR ''0'', hex_digit (of_char d div 16), hex_digit (of_char d mod 16)]"
  with assms show ?thesis by (auto simp del: hex_digit.simps dest: hex_pair of_char_inj)
qed (use assms in \<open>auto simp del: hex_digit.simps dest: short_escapes_inj(2)\<close>)

lemma concat_esc_inj:
  "concat (map esc_char s) @ CHR 0x22 # r = concat (map esc_char t) @ CHR 0x22 # r' \<Longrightarrow> s = t \<and> r = r'"
proof (induction s arbitrary: t)
  case Nil
  then show ?case
  proof (cases t)
    case (Cons d t')
    with Nil have "hd (esc_char d) = CHR 0x22"
      using esc_char_nonempty [of d] by (cases "esc_char d") auto
    then show ?thesis using esc_char_hd by blast
  qed simp
next
  case (Cons c s)
  show ?case
  proof (cases t)
    case Nil
    with Cons.prems have "hd (esc_char c) = CHR 0x22"
      using esc_char_nonempty [of c] by (cases "esc_char c") auto
    then show ?thesis using esc_char_hd by blast
  next
    case (Cons d t')
    with Cons.prems esc_char_prefix_free [of c _ d] have "c = d"
      and "concat (map esc_char s) @ CHR 0x22 # r = concat (map esc_char t') @ CHR 0x22 # r'"
      by auto
    with Cons.IH Cons show ?thesis by blast
  qed
qed

lemma json_quote_inj: "json_quote s @ r = json_quote t @ r' \<Longrightarrow> s = t \<and> r = r'"
  by (auto simp: json_quote_def dest: concat_esc_inj)

lemma json_quote_hd: "\<exists>s'. json_quote s = CHR 0x22 # s'"
  by (simp add: json_quote_def)

section \<open>Canonical values\<close>

text \<open>Objects with their entries in code unit order of the keys, at every depth.\<close>

fun canon :: "js \<Rightarrow> js" where
  "canon (JArr xs) = JArr (map canon xs)"
| "canon (JObj kvs) = JObj (sort_key fst (map (\<lambda>kv. (fst kv, canon (snd kv))) kvs))"
| "canon v = v"

text \<open>Printing without sorting.\<close>

fun print_js :: "host \<Rightarrow> js \<Rightarrow> string" where
  "print_js h (JArr xs) = ''['' @ join_comma (map (print_js h) xs) @ '']''"
| "print_js h (JObj kvs) =
     ''{'' @ join_comma (map (\<lambda>kv. json_quote (fst kv) @ '':'' @ print_js h (snd kv)) kvs) @ ''}''"
| "print_js h v = stable_json h v"

lemma insort_key_fst_map:
  "insort_key fst (fst kv, f (snd kv)) (map (\<lambda>kv. (fst kv, f (snd kv))) kvs)
     = map (\<lambda>kv. (fst kv, f (snd kv))) (insort_key fst kv kvs)"
  by (induction kvs) auto

lemma sort_key_fst_map:
  "sort_key fst (map (\<lambda>kv. (fst kv, f (snd kv))) kvs) = map (\<lambda>kv. (fst kv, f (snd kv))) (sort_key fst kvs)"
  by (induction kvs) (simp_all add: insort_key_fst_map)

lemma stable_json_canon: "stable_json h v = print_js h (canon v)"
proof (induction v)
  case (JObj kvs)
  then have e: "map (\<lambda>kv. (fst kv, stable_json h (snd kv))) kvs
      = map (\<lambda>kv. (fst kv, print_js h (canon (snd kv)))) kvs"
    by (auto simp: prod_set_defs)
  have "stable_json h (JObj kvs) = ''{'' @ join_comma (map (\<lambda>kv. json_quote (fst kv) @ '':'' @ snd kv)
       (map (\<lambda>kv. (fst kv, print_js h (canon (snd kv)))) (sort_key fst kvs))) @ ''}''"
    by (simp only: stable_json.simps e sort_key_fst_map [of "\<lambda>v. print_js h (canon v)"])
  then show ?case
    by (simp only: canon.simps sort_key_fst_map print_js.simps) (simp add: comp_def)
qed (auto cong: map_cong simp: comp_def)

lemma is_json_canon [simp]: "is_json (canon v) = is_json v"
  by (induction v) (auto simp: prod_set_defs)

section \<open>The printer is self-delimiting\<close>

definition delimited :: "string \<Rightarrow> bool" where
  "delimited r = (case r of [] \<Rightarrow> True | c # _ \<Rightarrow> c \<in> {CHR 0x2C, CHR 0x5D, CHR 0x7D})"

lemma delimited_simps [simp]:
  "delimited []" "delimited (CHR 0x2C # r)" "delimited (CHR 0x5D # r)" "delimited (CHR 0x7D # r)"
  by (simp_all add: delimited_def)

lemma numeral_not_delimiter:
  "numeral_chars c \<Longrightarrow> \<not> delimited (c # s)"
  by (auto simp: delimited_def numeral_chars_def is_digit_def)

lemma numeral_split:
  assumes "\<forall>c \<in> set s. numeral_chars c" and "\<forall>c \<in> set t. numeral_chars c"
    and "delimited r" and "delimited r'" and "s @ r = t @ r'"
  shows "s = t \<and> r = r'"
  using assms
proof (induction s arbitrary: t)
  case Nil
  then show ?case using numeral_not_delimiter by (cases t) auto
next
  case (Cons c s)
  then show ?case using numeral_not_delimiter [of c s] numeral_not_delimiter by (cases t) auto
qed

text \<open>The first character tells the kind of value.\<close>

definition js_kind :: "char \<Rightarrow> nat" where
  "js_kind c = (if c = CHR ''n'' then 0 else if c = CHR ''t'' then 1 else if c = CHR ''f'' then 2
     else if c = CHR 0x22 then 3 else if c = CHR ''['' then 4 else if c = CHR ''{'' then 5
     else if is_digit c \<or> c = CHR ''-'' then 6 else 7)"

fun value_kind :: "js \<Rightarrow> nat" where
  "value_kind JNull = 0"
| "value_kind (JBool b) = (if b then 1 else 2)"
| "value_kind (JStr s) = 3"
| "value_kind (JArr xs) = 4"
| "value_kind (JObj kvs) = 5"
| "value_kind (JNum q) = 6"
| "value_kind v = 7"

lemma print_js_hd:
  assumes "digits_ok h" and "is_json v"
  shows "\<exists>c s. print_js h v = c # s \<and> js_kind c = value_kind v"
proof (cases v)
  case (JNum q)
  have "starts_number (number_string h q)" using number_string_shape(1) [OF assms(1)] .
  then show ?thesis
    by (cases "number_string h q")
      (auto simp: JNum starts_number_def js_kind_def is_digit_def split: list.splits)
qed (use assms json_quote_hd in \<open>auto simp: js_kind_def json_quote_def\<close>)

definition separable :: "host \<Rightarrow> js \<Rightarrow> bool" where
  "separable h a = (\<forall>b r r'. is_json b \<longrightarrow> delimited r \<longrightarrow> delimited r' \<longrightarrow>
     print_js h a @ r = print_js h b @ r' \<longrightarrow> a = b \<and> r = r')"

lemma print_js_not_closing:
  assumes "digits_ok h" and "is_json v"
  shows "print_js h v @ s \<noteq> CHR '']'' # t"
  using print_js_hd [OF assms] assms(2) by (cases v) (auto simp: js_kind_def is_digit_def)

lemma join_comma_Cons2: "ss \<noteq> [] \<Longrightarrow> join_comma (s # ss) = s @ '','' @ join_comma ss"
  by (cases ss) auto

lemma separable_items:
  assumes h: "digits_ok h"
    and "\<forall>x \<in> set xs. is_json x \<and> separable h x" and "\<forall>y \<in> set ys. is_json y"
    and "join_comma (map (print_js h) xs) @ '']'' @ r = join_comma (map (print_js h) ys) @ '']'' @ r'"
  shows "xs = ys \<and> r = r'"
  using assms(2-)
proof (induction xs arbitrary: ys)
  case Nil
  then show ?case
  proof (cases ys)
    case (Cons y ys')
    with Nil show ?thesis
      using print_js_not_closing [OF h, of y] by (cases ys') (auto dest: sym)
  qed simp
next
  case (Cons x xs)
  show ?case
  proof (cases ys)
    case Nil
    with Cons.prems show ?thesis
      using print_js_not_closing [OF h, of x] by (cases xs) (auto dest: sym)
  next
    case (Cons y ys')
    define tx ty where "tx = (if xs = [] then '']'' @ r else '','' @ join_comma (map (print_js h) xs) @ '']'' @ r)"
      and "ty = (if ys' = [] then '']'' @ r' else '','' @ join_comma (map (print_js h) ys') @ '']'' @ r')"
    have "print_js h x @ tx = print_js h y @ ty"
      using Cons.prems(3) Cons by (auto simp: tx_def ty_def join_comma_Cons2)
    moreover have "delimited tx" "delimited ty" by (auto simp: tx_def ty_def)
    ultimately have xy: "x = y" and t: "tx = ty"
      using Cons.prems(1,2) Cons by (auto simp: separable_def)
    from t have "xs = ys' \<and> r = r'"
    proof (cases "xs = []"; cases "ys' = []")
      assume "xs \<noteq> []" "ys' \<noteq> []"
      with t have "join_comma (map (print_js h) xs) @ '']'' @ r = join_comma (map (print_js h) ys') @ '']'' @ r'"
        by (simp add: tx_def ty_def)
      with Cons.IH [of ys'] Cons.prems Cons show ?thesis by auto
    qed (auto simp: tx_def ty_def)
    with xy Cons show ?thesis by simp
  qed
qed

lemma separable_entries:
  assumes "\<forall>kv \<in> set xs. is_json (snd kv) \<and> separable h (snd kv)" and "\<forall>kv \<in> set ys. is_json (snd kv)"
    and "join_comma (map (\<lambda>kv. json_quote (fst kv) @ '':'' @ print_js h (snd kv)) xs) @ ''}'' @ r
       = join_comma (map (\<lambda>kv. json_quote (fst kv) @ '':'' @ print_js h (snd kv)) ys) @ ''}'' @ r'"
  shows "xs = ys \<and> r = r'"
  using assms
proof (induction xs arbitrary: ys)
  case Nil
  then show ?case
  proof (cases ys)
    case (Cons y ys')
    with Nil show ?thesis by (cases ys') (auto simp: json_quote_def)
  qed simp
next
  case (Cons x xs)
  let ?p = "\<lambda>kv. json_quote (fst kv) @ '':'' @ print_js h (snd kv)"
  show ?case
  proof (cases ys)
    case Nil
    with Cons.prems show ?thesis by (cases xs) (auto simp: json_quote_def)
  next
    case (Cons y ys')
    define tx ty where "tx = (if xs = [] then ''}'' @ r else '','' @ join_comma (map ?p xs) @ ''}'' @ r)"
      and "ty = (if ys' = [] then ''}'' @ r' else '','' @ join_comma (map ?p ys') @ ''}'' @ r')"
    have "json_quote (fst x) @ ('':'' @ print_js h (snd x) @ tx) = json_quote (fst y) @ ('':'' @ print_js h (snd y) @ ty)"
      using Cons.prems(3) Cons by (auto simp: tx_def ty_def join_comma_Cons2)
    then have k: "fst x = fst y" and v: "print_js h (snd x) @ tx = print_js h (snd y) @ ty"
      by (auto dest: json_quote_inj)
    have "delimited tx" "delimited ty" by (auto simp: tx_def ty_def)
    with v Cons.prems(1,2) Cons have xy: "snd x = snd y" and t: "tx = ty"
      by (auto simp: separable_def)
    from t have "xs = ys' \<and> r = r'"
    proof (cases "xs = []"; cases "ys' = []")
      assume "xs \<noteq> []" "ys' \<noteq> []"
      with t have "join_comma (map ?p xs) @ ''}'' @ r = join_comma (map ?p ys') @ ''}'' @ r'"
        by (simp add: tx_def ty_def)
      with Cons.IH [of ys'] Cons.prems Cons show ?thesis by auto
    qed (auto simp: tx_def ty_def)
    with xy k Cons show ?thesis by (simp add: prod_eq_iff)
  qed
qed

lemma separableI:
  assumes h: "digits_ok h" and a: "is_json a"
    and "\<And>b r r'. value_kind a = value_kind b \<Longrightarrow> is_json b \<Longrightarrow> delimited r \<Longrightarrow> delimited r' \<Longrightarrow>
      print_js h a @ r = print_js h b @ r' \<Longrightarrow> a = b \<and> r = r'"
  shows "separable h a"
  unfolding separable_def
proof (intro allI impI)
  fix b r r' assume b: "is_json b" and d: "delimited r" "delimited r'"
    and eq: "print_js h a @ r = print_js h b @ r'"
  have "value_kind a = value_kind b"
    using print_js_hd [OF h a] print_js_hd [OF h b] eq by auto
  then show "a = b \<and> r = r'" by (rule assms(3) [OF _ b d eq])
qed

lemma value_kind_eq:
  "value_kind v = 3 \<longleftrightarrow> (\<exists>s. v = JStr s)" "value_kind v = 4 \<longleftrightarrow> (\<exists>xs. v = JArr xs)"
  "value_kind v = 5 \<longleftrightarrow> (\<exists>kvs. v = JObj kvs)" "value_kind v = 6 \<longleftrightarrow> (\<exists>q. v = JNum q)"
  "value_kind v = 0 \<longleftrightarrow> v = JNull" "value_kind v = Suc 0 \<longleftrightarrow> v = JBool True"
  "value_kind v = 2 \<longleftrightarrow> v = JBool False"
  by (cases v; simp)+

lemma separable_json: "digits_ok h \<Longrightarrow> is_json a \<Longrightarrow> separable h a"
proof (induction a)
  case (JNum q)
  show ?case
  proof (rule separableI [OF JNum])
    fix b r r' assume "value_kind (JNum q) = value_kind b" "delimited r" "delimited r'"
      and eq: "print_js h (JNum q) @ r = print_js h b @ r'"
    then obtain p where b: "b = JNum p" by (auto simp: value_kind_eq dest: sym)
    with eq have "number_string h q = number_string h p \<and> r = r'"
      using number_string_shape(2) [OF JNum(1)] \<open>delimited r\<close> \<open>delimited r'\<close>
      by (intro numeral_split) auto
    with b show "JNum q = b \<and> r = r'" using number_string_inj [OF JNum(1)] by blast
  qed
next
  case (JStr s)
  show ?case
    by (rule separableI [OF JStr]) (auto simp: value_kind_eq dest!: sym [of "3 :: nat"] dest: json_quote_inj)
next
  case (JArr xs)
  then have "\<forall>x \<in> set xs. is_json x \<and> separable h x" by auto
  note items = this
  show ?case
  proof (rule separableI [OF JArr.prems])
    fix b r r' assume "value_kind (JArr xs) = value_kind b" "is_json b"
      and eq: "print_js h (JArr xs) @ r = print_js h b @ r'"
    then obtain ys where "b = JArr ys" by (auto simp: value_kind_eq dest: sym)
    with eq \<open>is_json b\<close> separable_items [OF JArr.prems(1) items, of ys r r']
    show "JArr xs = b \<and> r = r'" by simp
  qed
next
  case (JObj kvs)
  then have "\<forall>kv \<in> set kvs. is_json (snd kv) \<and> separable h (snd kv)" by (auto simp: prod_set_defs)
  note entries = this
  show ?case
  proof (rule separableI [OF JObj.prems])
    fix b r r' assume "value_kind (JObj kvs) = value_kind b" "is_json b"
      and eq: "print_js h (JObj kvs) @ r = print_js h b @ r'"
    then obtain ys where "b = JObj ys" by (auto simp: value_kind_eq dest: sym)
    with eq \<open>is_json b\<close> separable_entries [OF entries, of ys r r']
    show "JObj kvs = b \<and> r = r'" by simp
  qed
next
  case (JBool b)
  show ?case
    by (rule separableI [OF JBool])
      (auto simp: value_kind_eq dest!: sym [of "Suc 0"] sym [of "2 :: nat"] split: if_splits)
next
  case JNull
  show ?case by (rule separableI [OF JNull]) (auto simp: value_kind_eq dest!: sym [of "0 :: nat"])
qed auto

text \<open>Two JSON values print the same exactly when they are the same up to the order of keys.\<close>

lemma stable_json_eq_iff:
  assumes "digits_ok h" and "is_json a" and "is_json b"
  shows "stable_json h a = stable_json h b \<longleftrightarrow> canon a = canon b"
proof
  assume "stable_json h a = stable_json h b"
  then have "print_js h (canon a) @ [] = print_js h (canon b) @ []" by (simp add: stable_json_canon)
  with separable_json [OF assms(1), of "canon a"] assms(2,3) show "canon a = canon b"
    unfolding separable_def using delimited_simps(1) by (metis is_json_canon)
qed (simp add: stable_json_canon)

section \<open>A concrete host\<close>

text \<open>
  An instance of the host functions for the examples: instants print as decimal
  milliseconds, a fraction prints as numerator and denominator around an \<open>e\<close>, strings are
  collated by code unit, and the digest of a text is the text.
\<close>

definition parse_millis :: "string \<Rightarrow> int option" where
  "parse_millis s = (if s \<noteq> [] \<and> list_all is_digit s then Some (int (digits_value s)) else None)"

definition demo_host :: host where
  "demo_host = \<lparr>date_parse = parse_millis, iso_string = show_int,
     frac_digits = (\<lambda>q. show_int (fst (quotient_of q)) @ ''e'' @ show_int (snd (quotient_of q))),
     locale_le = (\<le>), sha256_hex = (\<lambda>s. s)\<rparr>"

lemma show_int_no_e: "CHR ''e'' \<notin> set (show_int i)"
  by (auto dest: show_int_shape(2) simp: is_digit_def)

lemma split_at_unique: "x \<notin> set s \<Longrightarrow> x \<notin> set s' \<Longrightarrow> s @ x # t = s' @ x # t' \<Longrightarrow> s = s' \<and> t = t'"
  by (induction s arbitrary: s') (auto simp: append_eq_Cons_conv Cons_eq_append_conv)

lemma digits_ok_demo_host: "digits_ok demo_host"
proof -
  have "starts_number (show_int i @ s)" for i s
    using show_int_shape(1) [of i] by (cases "show_int i") (auto simp: starts_number_def)
  moreover have "p = q" if eq: "show_int (fst (quotient_of p)) @ CHR ''e'' # show_int (snd (quotient_of p))
      = show_int (fst (quotient_of q)) @ CHR ''e'' # show_int (snd (quotient_of q))" for p q
    using split_at_unique [OF show_int_no_e show_int_no_e eq]
    by (simp add: show_int_inj prod_eq_iff quotient_of_inject)
  moreover have "show_int i @ CHR ''e'' # s \<noteq> show_int j" for i j s
  proof
    assume "show_int i @ CHR ''e'' # s = show_int j"
    then have "CHR ''e'' \<in> set (show_int j)" by (metis in_set_conv_decomp)
    with show_int_no_e show False by blast
  qed
  ultimately show ?thesis
    by (auto simp: digits_ok_def demo_host_def numeral_chars_def dest: show_int_shape(2))
qed

lemma iso_date_demo_host: "0 \<le> t \<Longrightarrow> date_parse demo_host (iso_string demo_host t) = Some t"
  by (auto simp: demo_host_def parse_millis_def show_int_def show_nat_nonempty list_all_iff
      show_nat_digits digits_value_show_nat)

section \<open>Keys of the stores\<close>

text \<open>Printing strings does not look at the host.\<close>

lemma stable_json_strings:
  "stable_json h (JArr (map JStr xs)) = stable_json h' (JArr (map JStr xs))"
  by (simp add: comp_def)

lemma stable_json_strings_inj:
  "stable_json h (JArr (map JStr xs)) = stable_json h' (JArr (map JStr ys)) \<longleftrightarrow> xs = ys"
proof
  assume "stable_json h (JArr (map JStr xs)) = stable_json h' (JArr (map JStr ys))"
  then have "stable_json demo_host (JArr (map JStr xs)) = stable_json demo_host (JArr (map JStr ys))"
    using stable_json_strings by metis
  then have "canon (JArr (map JStr xs)) = canon (JArr (map JStr ys))"
    by (subst (asm) stable_json_eq_iff [OF digits_ok_demo_host]) auto
  then show "xs = ys" by (simp add: comp_def inj_map_eq_map inj_def)
qed (use stable_json_strings in metis)

end
