(* ===== verification/Catalogs.thy ===== *)
theory Catalogs
  imports StableJson
begin

text \<open>
  The content-addressed catalogs a run profile carries: the kernel descriptor
  (\<open>harness-v2/src/kernel-descriptor.ts\<close>), the skill catalog (\<open>skill-catalog.ts\<close>) and the
  capability policy (\<open>capability-catalog.ts\<close>). Each is parsed from an untrusted value; the
  catalogs recompute the hash of what they parsed and refuse a value whose recorded hash
  differs.
\<close>

section \<open>JSON text\<close>

text \<open>
  Property order of an object built by assigning its keys in order: array indices first, in
  increasing order, then the other keys as they came.
\<close>

definition array_index :: "string \<Rightarrow> nat option" where
  "array_index s =
     (if s \<noteq> [] \<and> list_all is_digit s \<and> (s = ''0'' \<or> hd s \<noteq> CHR ''0'') \<and> digits_value s < 4294967295
      then Some (digits_value s) else None)"

definition property_order :: "(string \<times> js) list \<Rightarrow> (string \<times> js) list" where
  "property_order kvs =
     sort_key (\<lambda>kv. case array_index (fst kv) of None \<Rightarrow> 0 | Some n \<Rightarrow> n)
       (filter (\<lambda>kv. array_index (fst kv) \<noteq> None) kvs)
     @ filter (\<lambda>kv. array_index (fst kv) = None) kvs"

definition printable :: "js \<Rightarrow> bool" where
  "printable v = (v \<noteq> JUndef \<and> v \<noteq> JFun)"

text \<open>\<open>JSON.stringify\<close>: undefined values and functions are left out of objects and are
  \<open>null\<close> in arrays; numbers that are not finite are \<open>null\<close>.\<close>

fun json_stringify :: "host \<Rightarrow> js \<Rightarrow> string" where
  "json_stringify h (JArr xs) =
     ''['' @ join_comma (map (\<lambda>x. if printable x then json_stringify h x else ''null'') xs) @ '']''"
| "json_stringify h (JObj kvs) =
     ''{'' @ join_comma (map (\<lambda>kv. json_quote (fst kv) @ '':'' @ snd kv)
       (map (\<lambda>kv. (fst kv, json_stringify h (snd kv))) (filter (\<lambda>kv. printable (snd kv)) kvs))) @ ''}''"
| "json_stringify h JNull = ''null''"
| "json_stringify h (JBool b) = (if b then ''true'' else ''false'')"
| "json_stringify h (JNum q) = number_string h q"
| "json_stringify h (JStr s) = json_quote s"
| "json_stringify h JNonFinite = ''null''"
| "json_stringify h JUndef = ''undefined''"
| "json_stringify h JFun = ''undefined''"

text \<open>The catalogs' \<open>stableJson\<close>: entries sorted by \<open>localeCompare\<close> and rebuilt as an object.\<close>

definition sort_entries :: "host \<Rightarrow> (string \<times> js) list \<Rightarrow> (string \<times> js) list" where
  "sort_entries h kvs = property_order (sort_by (\<lambda>a b. locale_le h (fst a) (fst b)) kvs)"

fun locale_sorted :: "host \<Rightarrow> js \<Rightarrow> js" where
  "locale_sorted h (JArr xs) = JArr (map (locale_sorted h) xs)"
| "locale_sorted h (JObj kvs) = JObj (sort_entries h (map (\<lambda>kv. (fst kv, locale_sorted h (snd kv))) kvs))"
| "locale_sorted h v = v"

definition catalog_json :: "host \<Rightarrow> js \<Rightarrow> string" where
  "catalog_json h v = json_stringify h (locale_sorted h v)"

definition sha256_of :: "host \<Rightarrow> string \<Rightarrow> string" where
  "sha256_of h s = ''sha256:'' @ sha256_hex h s"

section \<open>Checks shared by the parsers\<close>

definition require_non_empty_string :: "js \<Rightarrow> string \<Rightarrow> string parsed" where
  "require_non_empty_string value name =
     (case value of
        JStr s \<Rightarrow> if is_blank s then Inl (PlainError (name @ '' must be a non-empty string'')) else Inr s
      | _ \<Rightarrow> Inl (PlainError (name @ '' must be a non-empty string'')))"

definition assert_exact_keys :: "string \<Rightarrow> (string \<times> js) list \<Rightarrow> string list \<Rightarrow> unit parsed" where
  "assert_exact_keys msg value keys =
     (if list_ex (\<lambda>kv. fst kv \<notin> set keys) value \<or> list_ex (\<lambda>k. \<not> js_has_own value k) keys
      then Inl (PlainError msg) else Inr ())"

text \<open>\<open>exactRecord\<close> of \<open>kernel-descriptor.ts\<close> and \<open>run-profile.ts\<close>, the latter with optional keys.\<close>

definition allowed_record :: "js \<Rightarrow> string \<Rightarrow> string list \<Rightarrow> (string \<times> js) list parsed" where
  "allowed_record input name keys =
     r_bind (expect_record input name) (\<lambda>value.
     case find (\<lambda>kv. fst kv \<notin> set keys) value of
       Some kv \<Rightarrow> Inl (SchemaValidationError (name @ ''.'' @ fst kv @ '' is not allowed''))
     | None \<Rightarrow> Inr value)"

definition exact_record :: "js \<Rightarrow> string \<Rightarrow> string list \<Rightarrow> string list \<Rightarrow> (string \<times> js) list parsed" where
  "exact_record input name keys optional_keys =
     r_bind (allowed_record input name keys) (\<lambda>value.
     case find (\<lambda>k. k \<notin> set optional_keys \<and> \<not> js_has_own value k) keys of
       Some k \<Rightarrow> Inl (SchemaValidationError (name @ ''.'' @ k @ '' is required''))
     | None \<Rightarrow> Inr value)"

definition copy_string_array :: "js \<Rightarrow> string \<Rightarrow> bool \<Rightarrow> string list parsed" where
  "copy_string_array values name required =
     (case values of
        JArr xs \<Rightarrow>
          if required \<and> xs = [] then Inl (PlainError (name @ '' must not be empty''))
          else r_mapi (\<lambda>i v. require_non_empty_string v (index_name name i)) 0 xs
      | _ \<Rightarrow> Inl (PlainError (name @ '' must be an array'')))"

section \<open>Kernel descriptors\<close>

record pi_kernel =
  pk_sha256 :: string
  pk_core_integrity :: string
  pk_ai_integrity :: string

record omp_kernel =
  ok_sha256 :: string
  ok_integrity :: string
  ok_bun_sha256 :: string
  ok_native_sha256 :: string
  ok_lock_sha256 :: string
  ok_manifest_sha256 :: string

datatype kernel_descriptor = PiKernel pi_kernel | OmpKernel omp_kernel

text \<open>\<open>literal(value, expected, name)\<close> with strict equality on primitives.\<close>

definition expect_literal :: "js \<Rightarrow> js \<Rightarrow> string \<Rightarrow> js parsed" where
  "expect_literal value expected name =
     (if value = expected then Inr expected else Inl (SchemaValidationError (name @ '' is not allowed'')))"

definition is_lower_hex :: "char \<Rightarrow> bool" where
  "is_lower_hex c = (is_digit c \<or> c \<in> set ''abcdef'')"

definition is_base64 :: "char \<Rightarrow> bool" where
  "is_base64 c = (let n = of_char c :: nat in
     (65 \<le> n \<and> n \<le> 90) \<or> (97 \<le> n \<and> n \<le> 122) \<or> is_digit c \<or> n = 43 \<or> n = 47)"

text \<open>\<open>/^[0-9a-f]{64}$/\<close> and \<open>/^sha512-[A-Za-z0-9+/]{86}==$/\<close>.\<close>

definition expect_sha256 :: "js \<Rightarrow> string \<Rightarrow> string parsed" where
  "expect_sha256 value name =
     (case value of
        JStr s \<Rightarrow> if length s = 64 \<and> list_all is_lower_hex s then Inr s
                  else Inl (SchemaValidationError (name @ '' must be a lowercase SHA-256 hex digest''))
      | _ \<Rightarrow> Inl (SchemaValidationError (name @ '' must be a lowercase SHA-256 hex digest'')))"

definition expect_sha512_integrity :: "js \<Rightarrow> string \<Rightarrow> string parsed" where
  "expect_sha512_integrity value name =
     (case value of
        JStr s \<Rightarrow> if length s = 95 \<and> take 7 s = ''sha512-'' \<and> list_all is_base64 (take 86 (drop 7 s))
                      \<and> drop 93 s = ''=='' then Inr s
                  else Inl (SchemaValidationError (name @ '' must be a SHA-512 SRI value''))
      | _ \<Rightarrow> Inl (SchemaValidationError (name @ '' must be a SHA-512 SRI value'')))"

definition parse_pi_kernel :: "js \<Rightarrow> pi_kernel parsed" where
  "parse_pi_kernel input =
     r_bind (exact_record input ''PiKernelDescriptorV1''
       [''schemaVersion'', ''adapterId'', ''protocolVersion'', ''adapterSource'', ''upstream''] []) (\<lambda>value.
     r_bind (exact_record (js_field value ''adapterSource'') ''PiKernelDescriptorV1.adapterSource''
       [''packageName'', ''sha256''] []) (\<lambda>source.
     r_bind (exact_record (js_field value ''upstream'') ''PiKernelDescriptorV1.upstream''
       [''agentCore'', ''ai''] []) (\<lambda>upstream.
     r_bind (exact_record (js_field upstream ''agentCore'') ''PiKernelDescriptorV1.upstream.agentCore''
       [''version'', ''integrity''] []) (\<lambda>core.
     r_bind (exact_record (js_field upstream ''ai'') ''PiKernelDescriptorV1.upstream.ai''
       [''version'', ''integrity''] []) (\<lambda>ai.
     r_bind (expect_literal (js_field value ''schemaVersion'') (JNum 1) ''PiKernelDescriptorV1.schemaVersion'') (\<lambda>_.
     r_bind (expect_literal (js_field value ''adapterId'') (JStr ''pi'') ''PiKernelDescriptorV1.adapterId'') (\<lambda>_.
     r_bind (expect_literal (js_field value ''protocolVersion'') (JStr ''anna-loop-kernel/1'')
       ''PiKernelDescriptorV1.protocolVersion'') (\<lambda>_.
     r_bind (expect_literal (js_field source ''packageName'') (JStr ''@anna/pi-loop-kernel'')
       ''PiKernelDescriptorV1.adapterSource.packageName'') (\<lambda>_.
     r_bind (expect_sha256 (js_field source ''sha256'') ''PiKernelDescriptorV1.adapterSource.sha256'') (\<lambda>sha.
     r_bind (expect_literal (js_field core ''version'') (JStr ''0.84.2'')
       ''PiKernelDescriptorV1.upstream.agentCore.version'') (\<lambda>_.
     r_bind (expect_sha512_integrity (js_field core ''integrity'')
       ''PiKernelDescriptorV1.upstream.agentCore.integrity'') (\<lambda>ci.
     r_bind (expect_literal (js_field ai ''version'') (JStr ''0.84.2'')
       ''PiKernelDescriptorV1.upstream.ai.version'') (\<lambda>_.
     r_bind (expect_sha512_integrity (js_field ai ''integrity'')
       ''PiKernelDescriptorV1.upstream.ai.integrity'') (\<lambda>ii.
     Inr \<lparr>pk_sha256 = sha, pk_core_integrity = ci, pk_ai_integrity = ii\<rparr>))))))))))))))"

definition parse_omp_kernel :: "js \<Rightarrow> omp_kernel parsed" where
  "parse_omp_kernel input =
     r_bind (exact_record input ''OmpKernelDescriptorV1''
       [''schemaVersion'', ''adapterId'', ''protocolVersion'', ''adapterSource'', ''upstream'', ''runtime''] []) (\<lambda>value.
     r_bind (exact_record (js_field value ''adapterSource'') ''OmpKernelDescriptorV1.adapterSource''
       [''packageName'', ''sha256''] []) (\<lambda>source.
     r_bind (exact_record (js_field value ''upstream'') ''OmpKernelDescriptorV1.upstream''
       [''packageName'', ''version'', ''sourceCommit'', ''integrity''] []) (\<lambda>upstream.
     r_bind (exact_record (js_field value ''runtime'') ''OmpKernelDescriptorV1.runtime''
       [''platform'', ''arch'', ''bunVersion'', ''bunSha256'', ''nativeSha256'', ''dependencyLockSha256'',
        ''runtimeManifestSha256''] []) (\<lambda>runtime.
     r_bind (expect_literal (js_field value ''schemaVersion'') (JNum 1) ''OmpKernelDescriptorV1.schemaVersion'') (\<lambda>_.
     r_bind (expect_literal (js_field value ''adapterId'') (JStr ''omp'') ''OmpKernelDescriptorV1.adapterId'') (\<lambda>_.
     r_bind (expect_literal (js_field value ''protocolVersion'') (JStr ''anna-omp/1'')
       ''OmpKernelDescriptorV1.protocolVersion'') (\<lambda>_.
     r_bind (expect_literal (js_field source ''packageName'') (JStr ''@anna/omp-loop-kernel'')
       ''OmpKernelDescriptorV1.adapterSource.packageName'') (\<lambda>_.
     r_bind (expect_sha256 (js_field source ''sha256'') ''OmpKernelDescriptorV1.adapterSource.sha256'') (\<lambda>sha.
     r_bind (expect_literal (js_field upstream ''packageName'') (JStr ''@oh-my-pi/pi-coding-agent'')
       ''OmpKernelDescriptorV1.upstream.packageName'') (\<lambda>_.
     r_bind (expect_literal (js_field upstream ''version'') (JStr ''18.0.11'')
       ''OmpKernelDescriptorV1.upstream.version'') (\<lambda>_.
     r_bind (expect_literal (js_field upstream ''sourceCommit'') (JStr ''b8ce33a58911c26bed1d84f0db9a5e2e727c49a2'')
       ''OmpKernelDescriptorV1.upstream.sourceCommit'') (\<lambda>_.
     r_bind (expect_sha512_integrity (js_field upstream ''integrity'')
       ''OmpKernelDescriptorV1.upstream.integrity'') (\<lambda>integrity.
     r_bind (expect_literal (js_field runtime ''platform'') (JStr ''darwin'')
       ''OmpKernelDescriptorV1.runtime.platform'') (\<lambda>_.
     r_bind (expect_literal (js_field runtime ''arch'') (JStr ''arm64'')
       ''OmpKernelDescriptorV1.runtime.arch'') (\<lambda>_.
     r_bind (expect_literal (js_field runtime ''bunVersion'') (JStr ''1.3.14'')
       ''OmpKernelDescriptorV1.runtime.bunVersion'') (\<lambda>_.
     r_bind (expect_sha256 (js_field runtime ''bunSha256'') ''OmpKernelDescriptorV1.runtime.bunSha256'') (\<lambda>bun.
     r_bind (expect_sha256 (js_field runtime ''nativeSha256'') ''OmpKernelDescriptorV1.runtime.nativeSha256'') (\<lambda>native.
     r_bind (expect_sha256 (js_field runtime ''dependencyLockSha256'')
       ''OmpKernelDescriptorV1.runtime.dependencyLockSha256'') (\<lambda>lock.
     r_bind (expect_sha256 (js_field runtime ''runtimeManifestSha256'')
       ''OmpKernelDescriptorV1.runtime.runtimeManifestSha256'') (\<lambda>manifest.
     Inr \<lparr>ok_sha256 = sha, ok_integrity = integrity, ok_bun_sha256 = bun, ok_native_sha256 = native,
       ok_lock_sha256 = lock, ok_manifest_sha256 = manifest\<rparr>))))))))))))))))))))"

definition parse_kernel_descriptor :: "js \<Rightarrow> kernel_descriptor parsed" where
  "parse_kernel_descriptor input =
     r_bind (expect_record input ''KernelDescriptorV1'') (\<lambda>value.
     if js_field value ''adapterId'' = JStr ''omp''
     then r_bind (parse_omp_kernel input) (\<lambda>k. Inr (OmpKernel k))
     else r_bind (parse_pi_kernel input) (\<lambda>k. Inr (PiKernel k)))"

text \<open>The objects the two parsers return.\<close>

fun kernel_js :: "kernel_descriptor \<Rightarrow> js" where
  "kernel_js (PiKernel k) = JObj
     [(''schemaVersion'', JNum 1), (''adapterId'', JStr ''pi''),
      (''protocolVersion'', JStr ''anna-loop-kernel/1''),
      (''adapterSource'', JObj [(''packageName'', JStr ''@anna/pi-loop-kernel''), (''sha256'', JStr (pk_sha256 k))]),
      (''upstream'', JObj
        [(''agentCore'', JObj [(''version'', JStr ''0.84.2''), (''integrity'', JStr (pk_core_integrity k))]),
         (''ai'', JObj [(''version'', JStr ''0.84.2''), (''integrity'', JStr (pk_ai_integrity k))])])]"
| "kernel_js (OmpKernel k) = JObj
     [(''schemaVersion'', JNum 1), (''adapterId'', JStr ''omp''), (''protocolVersion'', JStr ''anna-omp/1''),
      (''adapterSource'', JObj [(''packageName'', JStr ''@anna/omp-loop-kernel''), (''sha256'', JStr (ok_sha256 k))]),
      (''upstream'', JObj [(''packageName'', JStr ''@oh-my-pi/pi-coding-agent''), (''version'', JStr ''18.0.11''),
        (''sourceCommit'', JStr ''b8ce33a58911c26bed1d84f0db9a5e2e727c49a2''), (''integrity'', JStr (ok_integrity k))]),
      (''runtime'', JObj [(''platform'', JStr ''darwin''), (''arch'', JStr ''arm64''), (''bunVersion'', JStr ''1.3.14''),
        (''bunSha256'', JStr (ok_bun_sha256 k)), (''nativeSha256'', JStr (ok_native_sha256 k)),
        (''dependencyLockSha256'', JStr (ok_lock_sha256 k)), (''runtimeManifestSha256'', JStr (ok_manifest_sha256 k))])]"

section \<open>Skill catalog\<close>

record skill_entry =
  sk_id :: string
  sk_name :: string
  sk_version :: string
  sk_hash :: string
  sk_source :: string
  sk_uri :: string
  sk_allowed_tools :: "string list"
  sk_forbidden_tools :: "string list"
  sk_content :: string

record skill_catalog =
  sc_version :: string
  sc_skills :: "skill_entry list"
  sc_hash :: string

definition js_strings :: "string list \<Rightarrow> js" where
  "js_strings xs = JArr (map JStr xs)"

definition skill_js :: "skill_entry \<Rightarrow> js" where
  "skill_js k = JObj
     [(''id'', JStr (sk_id k)), (''name'', JStr (sk_name k)), (''version'', JStr (sk_version k)),
      (''hash'', JStr (sk_hash k)),
      (''provenance'', JObj [(''source'', JStr (sk_source k)), (''uri'', JStr (sk_uri k))]),
      (''allowedTools'', js_strings (sk_allowed_tools k)),
      (''forbiddenTools'', js_strings (sk_forbidden_tools k)),
      (''content'', JStr (sk_content k))]"

definition skill_catalog_js :: "skill_catalog \<Rightarrow> js" where
  "skill_catalog_js c = JObj
     [(''version'', JStr (sc_version c)), (''skills'', JArr (map skill_js (sc_skills c))),
      (''hash'', JStr (sc_hash c))]"

definition workbench_skill_catalog_version :: string where
  "workbench_skill_catalog_version = ''workbench-skills-1''"

definition skill_string_array :: "js \<Rightarrow> string \<Rightarrow> string list parsed" where
  "skill_string_array value name = copy_string_array value name False"

definition validate_skill_entry :: "skill_entry \<Rightarrow> string \<Rightarrow> unit parsed" where
  "validate_skill_entry k name =
     r_bind (require_non_empty_string (JStr (sk_id k)) (name @ ''.id'')) (\<lambda>_.
     r_bind (require_non_empty_string (JStr (sk_name k)) (name @ ''.name'')) (\<lambda>_.
     r_bind (require_non_empty_string (JStr (sk_version k)) (name @ ''.version'')) (\<lambda>_.
     r_bind (require_non_empty_string (JStr (sk_hash k)) (name @ ''.hash'')) (\<lambda>_.
     r_bind (require_non_empty_string (JStr (sk_source k)) (name @ ''.provenance.source'')) (\<lambda>_.
     r_bind (require_non_empty_string (JStr (sk_uri k)) (name @ ''.provenance.uri'')) (\<lambda>_.
     r_bind (require_non_empty_string (JStr (sk_content k)) (name @ ''.content'')) (\<lambda>_.
     r_bind (skill_string_array (js_strings (sk_allowed_tools k)) (name @ ''.allowedTools'')) (\<lambda>_.
     r_bind (skill_string_array (js_strings (sk_forbidden_tools k)) (name @ ''.forbiddenTools'')) (\<lambda>_.
     Inr ())))))))))"

definition parse_skill_entry :: "js \<Rightarrow> string \<Rightarrow> skill_entry parsed" where
  "parse_skill_entry input name =
     (case input of
        JObj value \<Rightarrow>
          r_bind (assert_exact_keys ''Skill catalog contains unknown or missing fields'' value
            [''id'', ''name'', ''version'', ''hash'', ''provenance'', ''allowedTools'', ''forbiddenTools'', ''content'']) (\<lambda>_.
          case js_field value ''provenance'' of
            JObj prov \<Rightarrow>
              r_bind (require_non_empty_string (js_field value ''id'') (name @ ''.id'')) (\<lambda>i.
              r_bind (require_non_empty_string (js_field value ''name'') (name @ ''.name'')) (\<lambda>n.
              r_bind (require_non_empty_string (js_field value ''version'') (name @ ''.version'')) (\<lambda>v.
              r_bind (require_non_empty_string (js_field value ''hash'') (name @ ''.hash'')) (\<lambda>hs.
              r_bind (require_non_empty_string (js_field prov ''source'') (name @ ''.provenance.source'')) (\<lambda>so.
              r_bind (require_non_empty_string (js_field prov ''uri'') (name @ ''.provenance.uri'')) (\<lambda>u.
              r_bind (skill_string_array (js_field value ''allowedTools'') (name @ ''.allowedTools'')) (\<lambda>al.
              r_bind (skill_string_array (js_field value ''forbiddenTools'') (name @ ''.forbiddenTools'')) (\<lambda>fo.
              r_bind (require_non_empty_string (js_field value ''content'') (name @ ''.content'')) (\<lambda>co.
              let entry = \<lparr>sk_id = i, sk_name = n, sk_version = v, sk_hash = hs, sk_source = so, sk_uri = u,
                    sk_allowed_tools = al, sk_forbidden_tools = fo, sk_content = co\<rparr> in
              r_bind (validate_skill_entry entry name) (\<lambda>_. Inr entry))))))))))
          | _ \<Rightarrow> Inl (PlainError (name @ ''.provenance is invalid'')))
      | _ \<Rightarrow> Inl (PlainError (name @ '' is invalid'')))"

text \<open>The loop of \<open>buildSkillCatalog\<close> over the sorted skills, \<open>ids\<close> holding the ids seen.\<close>

fun check_skills :: "string list \<Rightarrow> skill_entry list \<Rightarrow> unit parsed" where
  "check_skills ids [] = Inr ()"
| "check_skills ids (k # ks) =
     (if is_blank (sk_id k) \<or> sk_id k \<in> set ids
      then Inl (PlainError (''duplicate or empty Skill id: '' @ sk_id k))
      else r_bind (validate_skill_entry k (''SkillCatalog.'' @ sk_id k)) (\<lambda>_.
           check_skills (sk_id k # ids) ks))"

definition skill_catalog_hash :: "host \<Rightarrow> string \<Rightarrow> skill_entry list \<Rightarrow> string" where
  "skill_catalog_hash h version skills =
     sha256_of h (catalog_json h (JObj [(''version'', JStr version), (''skills'', JArr (map skill_js skills))]))"

definition build_skill_catalog :: "host \<Rightarrow> skill_entry list \<Rightarrow> string \<Rightarrow> skill_catalog parsed" where
  "build_skill_catalog h skills version =
     (if version \<noteq> workbench_skill_catalog_version
      then Inl (PlainError (''unsupported Skill catalog version: '' @ version))
      else let sorted = sort_by (\<lambda>a b. locale_le h (sk_id a) (sk_id b)) skills in
           r_bind (check_skills [] sorted) (\<lambda>_.
           Inr \<lparr>sc_version = version, sc_skills = sorted, sc_hash = skill_catalog_hash h version sorted\<rparr>))"

definition parse_skill_catalog :: "host \<Rightarrow> js \<Rightarrow> skill_catalog parsed" where
  "parse_skill_catalog h input =
     (case input of
        JObj value \<Rightarrow>
          r_bind (assert_exact_keys ''Skill catalog contains unknown or missing fields'' value
            [''version'', ''skills'', ''hash'']) (\<lambda>_.
          case (js_field value ''version'', js_field value ''skills'', js_field value ''hash'') of
            (JStr version, JArr skills, JStr hash) \<Rightarrow>
              r_bind (r_mapi (\<lambda>i c. parse_skill_entry c (index_name ''SkillCatalogSnapshot.skills'' i)) 0 skills) (\<lambda>ks.
              r_bind (build_skill_catalog h ks version) (\<lambda>parsed.
              if sc_hash parsed \<noteq> hash then Inl (PlainError ''SkillCatalogSnapshot.hash mismatch'') else Inr parsed))
          | _ \<Rightarrow> Inl (PlainError ''SkillCatalogSnapshot is invalid''))
      | _ \<Rightarrow> Inl (PlainError ''SkillCatalogSnapshot must be an object''))"

section \<open>Capability policy\<close>

record capability_definition =
  cd_id :: string
  cd_version :: string
  cd_description :: string
  cd_source :: string
  cd_input_schema :: "(string \<times> js) list"
  cd_hash :: string

record capability_catalog =
  cc_version :: string
  cc_capabilities :: "capability_definition list"
  cc_hash :: string

record capability_policy =
  cp_version :: string
  cp_catalog :: capability_catalog

definition capability_body :: "capability_definition \<Rightarrow> (string \<times> js) list" where
  "capability_body d =
     [(''id'', JStr (cd_id d)), (''version'', JStr (cd_version d)), (''description'', JStr (cd_description d)),
      (''source'', JStr (cd_source d)), (''effect'', JStr ''read''), (''replayPolicy'', JStr ''safe''),
      (''inputSchema'', JObj (cd_input_schema d))]"

definition capability_js :: "capability_definition \<Rightarrow> js" where
  "capability_js d = JObj (capability_body d @ [(''hash'', JStr (cd_hash d))])"

definition capability_policy_js :: "capability_policy \<Rightarrow> js" where
  "capability_policy_js p = JObj
     [(''version'', JStr (cp_version p)),
      (''catalog'', JObj
        [(''version'', JStr (cc_version (cp_catalog p))),
         (''capabilities'', JArr (map capability_js (cc_capabilities (cp_catalog p)))),
         (''hash'', JStr (cc_hash (cp_catalog p)))])]"

definition workbench_capability_policy_version :: string where
  "workbench_capability_policy_version = ''workbench-capabilities-1''"

definition capability_definition_hash :: "host \<Rightarrow> capability_definition \<Rightarrow> string" where
  "capability_definition_hash h d = sha256_of h (catalog_json h (JObj (capability_body d)))"

definition build_capability_definition :: "host \<Rightarrow> capability_definition \<Rightarrow> capability_definition" where
  "build_capability_definition h d = d\<lparr>cd_hash := capability_definition_hash h d\<rparr>"

fun check_capabilities :: "host \<Rightarrow> string list \<Rightarrow> capability_definition list \<Rightarrow> unit parsed" where
  "check_capabilities h ids [] = Inr ()"
| "check_capabilities h ids (d # ds) =
     (if is_blank (cd_id d) \<or> cd_id d \<in> set ids
      then Inl (PlainError (''duplicate or empty capability id: '' @ cd_id d))
      else if capability_definition_hash h d \<noteq> cd_hash d
      then Inl (PlainError (''capability definition hash mismatch: '' @ cd_id d))
      else check_capabilities h (cd_id d # ids) ds)"

definition build_capability_catalog ::
    "host \<Rightarrow> capability_definition list \<Rightarrow> string \<Rightarrow> capability_catalog parsed" where
  "build_capability_catalog h capabilities version =
     (if version \<noteq> workbench_capability_policy_version
      then Inl (PlainError (''unsupported capability policy version: '' @ version))
      else let sorted = sort_by (\<lambda>a b. locale_le h (cd_id a) (cd_id b)) capabilities in
           r_bind (check_capabilities h [] sorted) (\<lambda>_.
           Inr \<lparr>cc_version = version, cc_capabilities = sorted,
             cc_hash = sha256_of h (catalog_json h (JObj
               [(''version'', JStr version), (''capabilities'', JArr (map capability_js sorted))]))\<rparr>))"

definition parse_capability_definition :: "host \<Rightarrow> nat \<Rightarrow> js \<Rightarrow> capability_definition parsed" where
  "parse_capability_definition h i input =
     (let invalid = Inl (PlainError (index_name ''CapabilityDefinitionSnapshot'' i @ '' is invalid'')) in
      case input of
        JObj value \<Rightarrow>
          (case (js_field value ''id'', js_field value ''version'', js_field value ''description'',
                 js_field value ''source'', js_field value ''inputSchema'', js_field value ''hash'') of
             (JStr cid, JStr version, JStr description, JStr source, JObj schema, JStr hash) \<Rightarrow>
               if js_field value ''effect'' \<noteq> JStr ''read'' \<or> js_field value ''replayPolicy'' \<noteq> JStr ''safe''
               then invalid
               else r_bind (assert_exact_keys ''capability snapshot contains unknown or missing fields'' value
                      [''id'', ''version'', ''description'', ''source'', ''effect'', ''replayPolicy'', ''inputSchema'', ''hash'']) (\<lambda>_.
                    let d = \<lparr>cd_id = cid, cd_version = version, cd_description = description,
                          cd_source = source, cd_input_schema = schema, cd_hash = hash\<rparr> in
                    if capability_definition_hash h d \<noteq> hash
                    then Inl (PlainError (index_name ''CapabilityDefinitionSnapshot'' i @ '' hash mismatch''))
                    else Inr d)
           | _ \<Rightarrow> invalid)
      | _ \<Rightarrow> invalid)"

definition parse_capability_policy :: "host \<Rightarrow> js \<Rightarrow> capability_policy parsed" where
  "parse_capability_policy h input =
     (case input of
        JObj value \<Rightarrow>
          r_bind (assert_exact_keys ''capability snapshot contains unknown or missing fields'' value
            [''version'', ''catalog'']) (\<lambda>_.
          case (js_field value ''version'', js_field value ''catalog'') of
            (JStr version, JObj catalog) \<Rightarrow>
              if version \<noteq> workbench_capability_policy_version
              then Inl (PlainError (''unsupported capability policy version: '' @ version))
              else r_bind (assert_exact_keys ''capability snapshot contains unknown or missing fields'' catalog
                     [''version'', ''capabilities'', ''hash'']) (\<lambda>_.
                   case (js_field catalog ''version'', js_field catalog ''hash'', js_field catalog ''capabilities'') of
                     (JStr cversion, JStr chash, JArr items) \<Rightarrow>
                       r_bind (r_mapi (parse_capability_definition h) 0 items) (\<lambda>ds.
                       r_bind (build_capability_catalog h ds cversion) (\<lambda>parsed.
                       if cc_hash parsed \<noteq> chash then Inl (PlainError ''CapabilityCatalogSnapshot.hash mismatch'')
                       else if version \<noteq> cc_version parsed then Inl (PlainError ''CapabilityPolicySnapshot.version mismatch'')
                       else Inr \<lparr>cp_version = version, cp_catalog = parsed\<rparr>))
                   | _ \<Rightarrow> Inl (PlainError ''CapabilityCatalogSnapshot is invalid''))
          | _ \<Rightarrow> Inl (PlainError ''CapabilityPolicySnapshot is invalid''))
      | _ \<Rightarrow> Inl (PlainError ''CapabilityPolicySnapshot must be an object''))"

section \<open>Re-reading what was parsed\<close>

text \<open>
  Every parser accepts the object it returned and returns it again, whatever name it is given
  for its messages. The catalogs are re-sorted, so their order must be one.
\<close>

lemma list_all2_strings:
  "list_all2 (\<lambda>v s. v = JStr s \<and> P s) vs xs \<longleftrightarrow> vs = map JStr xs \<and> (\<forall>x \<in> set xs. P x)"
  by (induction xs arbitrary: vs) (auto simp: list_all2_Cons2)

lemma require_non_empty_string_iff [parse_iffs]:
  "require_non_empty_string v n = Inr s \<longleftrightarrow> v = JStr s \<and> \<not> is_blank s"
  by (auto simp: require_non_empty_string_def split: js.splits)

lemma copy_string_array_iff [parse_iffs]:
  "copy_string_array v n req = Inr xs \<longleftrightarrow>
     v = js_strings xs \<and> (\<forall>x \<in> set xs. \<not> is_blank x) \<and> (req \<longrightarrow> xs \<noteq> [])"
proof -
  have items: "r_mapi (\<lambda>i v. require_non_empty_string v (index_name n i)) 0 vs = Inr xs \<longleftrightarrow>
      vs = map JStr xs \<and> (\<forall>x \<in> set xs. \<not> is_blank x)" for vs
    by (subst r_mapi_iff [OF require_non_empty_string_iff]) (rule list_all2_strings)
  show ?thesis by (auto simp: copy_string_array_def js_strings_def items split: js.splits)
qed

lemma assert_exact_keys_iff [parse_iffs]:
  "assert_exact_keys m value keys = Inr u \<longleftrightarrow>
     (\<forall>kv \<in> set value. fst kv \<in> set keys) \<and> (\<forall>k \<in> set keys. js_has_own value k)"
  by (auto simp: assert_exact_keys_def list_ex_iff)

lemma allowed_record_iff [parse_iffs]:
  "allowed_record v n keys = Inr kvs \<longleftrightarrow> v = JObj kvs \<and> (\<forall>kv \<in> set kvs. fst kv \<in> set keys)"
  by (auto simp: allowed_record_def res_simps parse_iffs guard_find_iff)

lemma exact_record_iff [parse_iffs]:
  "exact_record v n keys opts = Inr kvs \<longleftrightarrow>
     v = JObj kvs \<and> (\<forall>kv \<in> set kvs. fst kv \<in> set keys)
     \<and> (\<forall>k \<in> set keys. k \<notin> set opts \<longrightarrow> js_has_own kvs k)"
  by (auto simp: exact_record_def res_simps parse_iffs guard_find_iff)

lemma expect_literal_iff [parse_iffs]: "expect_literal v e n = Inr w \<longleftrightarrow> v = e \<and> w = e"
  by (auto simp: expect_literal_def)

definition sha256_text :: "string \<Rightarrow> bool" where
  "sha256_text s \<longleftrightarrow> length s = 64 \<and> list_all is_lower_hex s"

definition sha512_text :: "string \<Rightarrow> bool" where
  "sha512_text s \<longleftrightarrow> length s = 95 \<and> take 7 s = ''sha512-'' \<and> list_all is_base64 (take 86 (drop 7 s))
     \<and> drop 93 s = ''==''"

lemma expect_sha256_iff [parse_iffs]: "expect_sha256 v n = Inr s \<longleftrightarrow> v = JStr s \<and> sha256_text s"
  by (auto simp: expect_sha256_def sha256_text_def split: js.splits if_splits)

lemma expect_sha512_iff [parse_iffs]: "expect_sha512_integrity v n = Inr s \<longleftrightarrow> v = JStr s \<and> sha512_text s"
  by (auto simp: expect_sha512_integrity_def sha512_text_def split: js.splits if_splits)

lemma catalog_runs [parse_runs]:
  "\<not> is_blank s \<Longrightarrow> require_non_empty_string (JStr s) n = Inr s"
  "\<forall>x \<in> set xs. \<not> is_blank x \<Longrightarrow> req \<longrightarrow> xs \<noteq> [] \<Longrightarrow> copy_string_array (js_strings xs) n req = Inr xs"
  "\<forall>kv \<in> set value. fst kv \<in> set keys \<Longrightarrow> \<forall>k \<in> set keys. js_has_own value k \<Longrightarrow>
     assert_exact_keys m value keys = Inr ()"
  "\<forall>kv \<in> set value. fst kv \<in> set keys \<Longrightarrow> allowed_record (JObj value) n keys = Inr value"
  "\<forall>kv \<in> set value. fst kv \<in> set keys \<Longrightarrow> \<forall>k \<in> set keys. k \<notin> set opts \<longrightarrow> js_has_own value k \<Longrightarrow>
     exact_record (JObj value) n keys opts = Inr value"
  "expect_literal v v n = Inr v"
  "sha256_text s \<Longrightarrow> expect_sha256 (JStr s) n = Inr s"
  "sha512_text s \<Longrightarrow> expect_sha512_integrity (JStr s) n = Inr s"
  by (auto simp: parse_iffs)

lemma parse_pi_kernel_ok:
  "parse_pi_kernel v = Inr k \<Longrightarrow>
   sha256_text (pk_sha256 k) \<and> sha512_text (pk_core_integrity k) \<and> sha512_text (pk_ai_integrity k)"
  unfolding parse_pi_kernel_def by (elim r_bindE) (auto simp only: expect_sha256_iff expect_sha512_iff sum.inject pi_kernel.simps)

lemma parse_omp_kernel_ok:
  "parse_omp_kernel v = Inr k \<Longrightarrow>
   sha256_text (ok_sha256 k) \<and> sha512_text (ok_integrity k) \<and> sha256_text (ok_bun_sha256 k)
   \<and> sha256_text (ok_native_sha256 k) \<and> sha256_text (ok_lock_sha256 k) \<and> sha256_text (ok_manifest_sha256 k)"
  unfolding parse_omp_kernel_def by (elim r_bindE) (auto simp only: expect_sha256_iff expect_sha512_iff sum.inject omp_kernel.simps)

lemma parse_pi_kernel_js:
  "sha256_text (pk_sha256 k) \<Longrightarrow> sha512_text (pk_core_integrity k) \<Longrightarrow> sha512_text (pk_ai_integrity k) \<Longrightarrow>
   parse_pi_kernel (kernel_js (PiKernel k)) = Inr k"
  by (simp add: parse_pi_kernel_def parse_runs)

lemma parse_omp_kernel_js:
  "sha256_text (ok_sha256 k) \<Longrightarrow> sha512_text (ok_integrity k) \<Longrightarrow> sha256_text (ok_bun_sha256 k) \<Longrightarrow>
   sha256_text (ok_native_sha256 k) \<Longrightarrow> sha256_text (ok_lock_sha256 k) \<Longrightarrow> sha256_text (ok_manifest_sha256 k) \<Longrightarrow>
   parse_omp_kernel (kernel_js (OmpKernel k)) = Inr k"
  by (simp add: parse_omp_kernel_def parse_runs)
lemma parse_kernel_again:
  assumes "parse_kernel_descriptor v = Inr k"
  shows "parse_kernel_descriptor (kernel_js k) = Inr k"
proof (cases k)
  case (PiKernel p)
  with assms have "parse_pi_kernel v = Inr p"
    by (auto simp: parse_kernel_descriptor_def res_simps split: if_splits)
  from parse_pi_kernel_ok [OF this] have "parse_pi_kernel (kernel_js (PiKernel p)) = Inr p"
    by (blast intro: parse_pi_kernel_js)
  with PiKernel show ?thesis by (simp add: parse_kernel_descriptor_def expect_record_def)
next
  case (OmpKernel p)
  with assms have "parse_omp_kernel v = Inr p"
    by (auto simp: parse_kernel_descriptor_def res_simps split: if_splits)
  from parse_omp_kernel_ok [OF this] have "parse_omp_kernel (kernel_js (OmpKernel p)) = Inr p"
    by (blast intro: parse_omp_kernel_js)
  with OmpKernel show ?thesis by (simp add: parse_kernel_descriptor_def expect_record_def)
qed

definition skill_ok :: "skill_entry \<Rightarrow> bool" where
  "skill_ok k \<longleftrightarrow> \<not> is_blank (sk_id k) \<and> \<not> is_blank (sk_name k) \<and> \<not> is_blank (sk_version k)
     \<and> \<not> is_blank (sk_hash k) \<and> \<not> is_blank (sk_source k) \<and> \<not> is_blank (sk_uri k) \<and> \<not> is_blank (sk_content k)
     \<and> (\<forall>t \<in> set (sk_allowed_tools k). \<not> is_blank t) \<and> (\<forall>t \<in> set (sk_forbidden_tools k). \<not> is_blank t)"

lemma js_strings_inj [simp]: "js_strings xs = js_strings ys \<longleftrightarrow> xs = ys"
  by (auto simp: js_strings_def inj_map_eq_map inj_def)

lemma validate_skill_entry_iff: "validate_skill_entry k n = Inr u \<longleftrightarrow> skill_ok k"
  by (auto simp: validate_skill_entry_def skill_ok_def skill_string_array_def res_simps parse_iffs)

lemma parse_skill_entry_ok: "parse_skill_entry v n = Inr k \<Longrightarrow> skill_ok k"
  by (auto simp: parse_skill_entry_def res_simps validate_skill_entry_iff Let_def split: js.splits)

lemma parse_skill_entry_js: "skill_ok k \<Longrightarrow> parse_skill_entry (skill_js k) n = Inr k"
  by (cases k) (auto simp: parse_skill_entry_def skill_js_def res_simps parse_iffs skill_string_array_def
      validate_skill_entry_iff skill_ok_def Let_def)

lemma parse_skill_catalog_again:
  assumes "total_preorder (locale_le h)" and "parse_skill_catalog h v = Inr c"
  shows "parse_skill_catalog h (skill_catalog_js c) = Inr c"
proof -
  obtain vs ks version where items: "r_mapi (\<lambda>i c. parse_skill_entry c (index_name ''SkillCatalogSnapshot.skills'' i)) 0 vs = Inr ks"
    and c: "build_skill_catalog h ks version = Inr c"
    using assms(2) unfolding parse_skill_catalog_def
    by (auto elim!: r_bindE split: js.splits if_splits)
  have ks: "\<forall>k \<in> set ks. skill_ok k"
    using r_mapi_Inr_set [OF items] by (blast dest: parse_skill_entry_ok)
  from ks c have ok: "\<forall>k \<in> set (sc_skills c). skill_ok k"
    by (auto simp: build_skill_catalog_def res_simps Let_def split: if_splits)
  from c assms(1) have again: "build_skill_catalog h (sc_skills c) (sc_version c) = Inr c"
    by (auto simp: build_skill_catalog_def res_simps Let_def sort_by_idem total_preorder_on split: if_splits)
  have items: "r_mapi (\<lambda>i c. parse_skill_entry c (index_name ''SkillCatalogSnapshot.skills'' i)) 0
      (map skill_js (sc_skills c)) = Inr (sc_skills c)"
    using ok by (intro r_mapi_ok) (simp add: parse_skill_entry_js)
  show ?thesis
    by (simp add: parse_skill_catalog_def skill_catalog_js_def parse_runs items again)
qed

lemma parse_capability_definition_js:
  "parse_capability_definition h i v = Inr d \<Longrightarrow> parse_capability_definition h j (capability_js d) = Inr d"
  unfolding parse_capability_definition_def Let_def
  by (auto simp: capability_js_def capability_body_def parse_runs capability_definition_hash_def
      elim!: r_bindE split: js.splits if_splits)

lemma build_capability_catalog_set:
  "build_capability_catalog h ds version = Inr c \<Longrightarrow> set (cc_capabilities c) = set ds"
  by (auto simp: build_capability_catalog_def Let_def elim!: r_bindE split: if_splits)

lemma build_capability_catalog_again:
  "total_preorder (locale_le h) \<Longrightarrow> build_capability_catalog h ds version = Inr c \<Longrightarrow>
   build_capability_catalog h (cc_capabilities c) (cc_version c) = Inr c"
  by (auto simp: build_capability_catalog_def Let_def sort_by_idem total_preorder_on elim!: r_bindE split: if_splits)

lemma parse_capability_policy_again:
  assumes "total_preorder (locale_le h)" and "parse_capability_policy h v = Inr p"
  shows "parse_capability_policy h (capability_policy_js p) = Inr p"
proof -
  obtain vs ds where ds: "r_mapi (parse_capability_definition h) 0 vs = Inr ds"
    and c: "build_capability_catalog h ds (cc_version (cp_catalog p)) = Inr (cp_catalog p)"
    and v: "cp_version p = workbench_capability_policy_version" "cp_version p = cc_version (cp_catalog p)"
  proof -
    obtain vs ds where "r_mapi (parse_capability_definition h) 0 vs = Inr ds"
      and "build_capability_catalog h ds (cc_version (cp_catalog p)) = Inr (cp_catalog p)"
      and "cp_version p = workbench_capability_policy_version" "cp_version p = cc_version (cp_catalog p)"
      using assms(2) unfolding parse_capability_policy_def
      by (auto elim!: r_bindE split: js.splits if_splits) (auto simp: build_capability_catalog_def Let_def elim!: r_bindE split: if_splits)
    with that show thesis by blast
  qed
  have ok: "\<forall>d \<in> set (cc_capabilities (cp_catalog p)). \<forall>j. parse_capability_definition h j (capability_js d) = Inr d"
  proof (intro ballI allI)
    fix d j assume "d \<in> set (cc_capabilities (cp_catalog p))"
    with c have "d \<in> set ds" by (simp add: build_capability_catalog_set)
    with r_mapi_Inr_set [OF ds] obtain i v where "parse_capability_definition h i v = Inr d" by blast
    then show "parse_capability_definition h j (capability_js d) = Inr d" by (rule parse_capability_definition_js)
  qed
  note again = build_capability_catalog_again [OF assms(1) c]
  have items: "r_mapi (parse_capability_definition h) 0 (map capability_js (cc_capabilities (cp_catalog p))) =
      Inr (cc_capabilities (cp_catalog p))"
    using ok by (intro r_mapi_ok) simp
  show ?thesis using v again
    by (simp add: parse_capability_policy_def capability_policy_js_def parse_runs items)
qed

end
