(* ===== verification/RunProfile.thy ===== *)
theory RunProfile
  imports Catalogs "HOL-Library.Multiset"
begin

text \<open>
  Run profiles (\<open>harness-v2/src/run-profile.ts\<close>): the policy of one run, resolved from the
  channel's policy, the worker's profile and the run's own profile, and the parser of the
  hashed snapshot that is stored with a run. Enumerations are the strings the source checks
  against its lists of allowed values.
\<close>

section \<open>Data\<close>

type_synonym budget = "(string \<times> rat) list"

record model_policy =
  mp_provider :: string
  mp_name :: string
  mp_reasoning :: string

record memory_policy =
  mem_read :: string
  mem_write :: string

record artifact_contract =
  ac_kind :: string
  ac_required_for :: "string list"
  ac_verification :: string

record context_transform =
  ct_kind :: string
  ct_preserve :: "string list"

record eval_policy =
  ep_contract :: string
  ep_quality :: string

record terminal_rules =
  tr_allowed_outcomes :: "string list"
  tr_stop_condition :: string

record channel_policy =
  ch_allowed_tools :: "string list"
  ch_allowed_skill_ids :: "string list"
  ch_allowed_models :: "model_policy list"
  ch_budget_limits :: budget
  ch_read_modes :: "string list"
  ch_write_modes :: "string list"

record worker_profile =
  wp_id :: string
  wp_version :: string
  wp_instructions :: string
  wp_allowed_skill_ids :: "string list"
  wp_allowed_tools :: "string list"
  wp_allowed_models :: "model_policy list"
  wp_budget_defaults :: budget
  wp_artifact_contract :: artifact_contract

record run_profile =
  pr_id :: string
  pr_version :: string
  pr_model :: model_policy
  pr_skill_ids :: "string list"
  pr_transforms :: "context_transform list"
  pr_allowed_tools :: "string list"
  pr_budget :: budget
  pr_memory :: memory_policy
  pr_eval :: eval_policy
  pr_artifact :: artifact_contract
  pr_terminal :: terminal_rules
  pr_skill_catalog :: "skill_catalog option"
  pr_capability :: "capability_policy option"
  pr_kernel :: "kernel_descriptor option"

record resolved_profile =
  rp_id :: string
  rp_version :: string
  rp_hash :: string
  rp_worker_profile_id :: string
  rp_worker_id :: string
  rp_worker_version :: string
  rp_worker_instructions :: string
  rp_model :: model_policy
  rp_skills :: "skill_entry list"
  rp_allowed_tools :: "string list"
  rp_budget :: budget
  rp_transforms :: "context_transform list"
  rp_memory :: memory_policy
  rp_eval :: eval_policy
  rp_artifact :: artifact_contract
  rp_terminal :: terminal_rules
  rp_skill_catalog :: "skill_catalog option"
  rp_capability :: "capability_policy option"
  rp_kernel :: "kernel_descriptor option"

definition budget_keys :: "string list" where
  "budget_keys = [''wallTimeMs'', ''turns'', ''inputTokens'', ''outputTokens'', ''cost'', ''toolCalls'',
     ''retryAttempts'', ''concurrentChildLanes'']"

definition reasoning_levels :: "string list" where
  "reasoning_levels = [''low'', ''high'']"

definition memory_read_modes :: "string list" where
  "memory_read_modes = [''none'', ''channel'']"

definition memory_write_modes :: "string list" where
  "memory_write_modes = [''disabled'', ''propose'']"

definition artifact_verifications :: "string list" where
  "artifact_verifications = [''tests'']"

definition context_transform_kinds :: "string list" where
  "context_transform_kinds = [''compact'']"

definition context_preserved_fields :: "string list" where
  "context_preserved_fields = [''goal'', ''constraints'', ''pending_tool_calls'', ''provenance'']"

definition eval_contracts :: "string list" where
  "eval_contracts = [''disabled'', ''required'']"

definition eval_qualities :: "string list" where
  "eval_qualities = [''disabled'', ''human_on_risk'']"

definition run_outcomes :: "string list" where
  "run_outcomes = [''completed'', ''awaiting_input'', ''awaiting_approval'', ''failed'', ''timed_out'', ''cancelled'']"

definition terminal_stop_conditions :: "string list" where
  "terminal_stop_conditions = [''artifact_or_terminal'']"

section \<open>As JavaScript objects\<close>

definition budget_js :: "budget \<Rightarrow> js" where
  "budget_js b = JObj (map (\<lambda>kv. (fst kv, JNum (snd kv))) b)"

definition model_js :: "model_policy \<Rightarrow> js" where
  "model_js m = JObj [(''provider'', JStr (mp_provider m)), (''name'', JStr (mp_name m)),
     (''reasoning'', JStr (mp_reasoning m))]"

definition memory_policy_js :: "memory_policy \<Rightarrow> js" where
  "memory_policy_js m = JObj [(''read'', JStr (mem_read m)), (''write'', JStr (mem_write m))]"

definition eval_policy_js :: "eval_policy \<Rightarrow> js" where
  "eval_policy_js e = JObj [(''contract'', JStr (ep_contract e)), (''quality'', JStr (ep_quality e))]"

definition artifact_contract_js :: "artifact_contract \<Rightarrow> js" where
  "artifact_contract_js a = JObj [(''kind'', JStr (ac_kind a)), (''requiredFor'', js_strings (ac_required_for a)),
     (''verification'', JStr (ac_verification a))]"

definition terminal_rules_js :: "terminal_rules \<Rightarrow> js" where
  "terminal_rules_js t = JObj [(''allowedOutcomes'', js_strings (tr_allowed_outcomes t)),
     (''stopCondition'', JStr (tr_stop_condition t))]"

definition transform_js :: "context_transform \<Rightarrow> js" where
  "transform_js t = JObj [(''kind'', JStr (ct_kind t)), (''preserve'', js_strings (ct_preserve t))]"

text \<open>The snapshot without its hash, and with it.\<close>

definition profile_fields :: "resolved_profile \<Rightarrow> (string \<times> js) list" where
  "profile_fields p =
     [(''id'', JStr (rp_id p)), (''version'', JStr (rp_version p)),
      (''workerProfileId'', JStr (rp_worker_profile_id p)),
      (''workerProfile'', JObj [(''id'', JStr (rp_worker_id p)), (''version'', JStr (rp_worker_version p)),
         (''instructions'', JStr (rp_worker_instructions p))]),
      (''model'', model_js (rp_model p)), (''skills'', JArr (map skill_js (rp_skills p))),
      (''allowedTools'', js_strings (rp_allowed_tools p)), (''budget'', budget_js (rp_budget p)),
      (''contextTransforms'', JArr (map transform_js (rp_transforms p))),
      (''memoryPolicy'', memory_policy_js (rp_memory p)), (''evalPolicy'', eval_policy_js (rp_eval p)),
      (''artifactContract'', artifact_contract_js (rp_artifact p)),
      (''terminalRules'', terminal_rules_js (rp_terminal p))]
     @ opt_field ''skillCatalog'' skill_catalog_js (rp_skill_catalog p)
     @ opt_field ''capabilityPolicy'' capability_policy_js (rp_capability p)
     @ opt_field ''kernel'' kernel_js (rp_kernel p)"

definition profile_js :: "resolved_profile \<Rightarrow> js" where
  "profile_js p = JObj (profile_fields p @ [(''hash'', JStr (rp_hash p))])"

text \<open>
  \<open>sortJson\<close>: \<open>sorted[key] = ...\<close> over the sorted keys. Assigning \<open>__proto__\<close> sets the prototype
  and creates no property.
\<close>

fun sort_json :: "js \<Rightarrow> js" where
  "sort_json (JArr xs) = JArr (map sort_json xs)"
| "sort_json (JObj kvs) = JObj (property_order (filter (\<lambda>kv. fst kv \<noteq> ''__proto__'')
     (sort_key fst (map (\<lambda>kv. (fst kv, sort_json (snd kv))) kvs))))"
| "sort_json v = v"

definition profile_hash :: "host \<Rightarrow> resolved_profile \<Rightarrow> string" where
  "profile_hash h p = sha256_of h (json_stringify h (sort_json (JObj (profile_fields p))))"

section \<open>Checks\<close>

definition require_enum :: "js \<Rightarrow> string list \<Rightarrow> string \<Rightarrow> string parsed" where
  "require_enum value allowed name =
     r_bind (require_non_empty_string value name) (\<lambda>candidate.
     if candidate \<notin> set allowed then Inl (PlainError (name @ '' is not allowed'')) else Inr candidate)"

definition copy_enum_array :: "js \<Rightarrow> string list \<Rightarrow> string \<Rightarrow> bool \<Rightarrow> string list parsed" where
  "copy_enum_array values allowed name required =
     (case values of
        JArr xs \<Rightarrow>
          if required \<and> xs = [] then Inl (PlainError (name @ '' must not be empty''))
          else r_mapi (\<lambda>i v. require_enum v allowed (index_name name i)) 0 xs
      | _ \<Rightarrow> Inl (PlainError (name @ '' must be an array'')))"

definition snapshot_model :: "model_policy \<Rightarrow> string \<Rightarrow> model_policy parsed" where
  "snapshot_model m name =
     r_bind (require_non_empty_string (JStr (mp_provider m)) (name @ ''.provider'')) (\<lambda>p.
     r_bind (require_non_empty_string (JStr (mp_name m)) (name @ ''.name'')) (\<lambda>n.
     r_bind (require_enum (JStr (mp_reasoning m)) reasoning_levels (name @ ''.reasoning'')) (\<lambda>r.
     Inr \<lparr>mp_provider = p, mp_name = n, mp_reasoning = r\<rparr>)))"

definition snapshot_models :: "model_policy list \<Rightarrow> string \<Rightarrow> model_policy list parsed" where
  "snapshot_models models name =
     (if models = [] then Inl (PlainError (name @ '' must be a non-empty array''))
      else r_mapi (\<lambda>i m. snapshot_model m (index_name name i)) 0 models)"

definition snapshot_skill :: "skill_entry \<Rightarrow> skill_entry parsed" where
  "snapshot_skill k =
     r_bind (require_non_empty_string (JStr (sk_id k)) ''Skill.id'') (\<lambda>i.
     r_bind (require_non_empty_string (JStr (sk_name k)) ''Skill.name'') (\<lambda>n.
     r_bind (require_non_empty_string (JStr (sk_version k)) ''Skill.version'') (\<lambda>v.
     r_bind (require_non_empty_string (JStr (sk_hash k)) ''Skill.hash'') (\<lambda>hs.
     r_bind (require_non_empty_string (JStr (sk_source k)) ''Skill.provenance.source'') (\<lambda>so.
     r_bind (require_non_empty_string (JStr (sk_uri k)) ''Skill.provenance.uri'') (\<lambda>u.
     r_bind (require_non_empty_string (JStr (sk_content k)) ''Skill.content'') (\<lambda>c.
     r_bind (copy_string_array (js_strings (sk_allowed_tools k)) ''Skill.allowedTools'' False) (\<lambda>al.
     r_bind (copy_string_array (js_strings (sk_forbidden_tools k)) ''Skill.forbiddenTools'' False) (\<lambda>fo.
     Inr \<lparr>sk_id = i, sk_name = n, sk_version = v, sk_hash = hs, sk_source = so, sk_uri = u,
       sk_allowed_tools = al, sk_forbidden_tools = fo, sk_content = c\<rparr>)))))))))"

definition snapshot_artifact_contract :: "artifact_contract \<Rightarrow> string \<Rightarrow> artifact_contract parsed" where
  "snapshot_artifact_contract a name =
     r_bind (require_non_empty_string (JStr (ac_kind a)) (name @ ''.kind'')) (\<lambda>k.
     r_bind (copy_enum_array (js_strings (ac_required_for a)) run_outcomes (name @ ''.requiredFor'') True) (\<lambda>r.
     r_bind (require_enum (JStr (ac_verification a)) artifact_verifications (name @ ''.verification'')) (\<lambda>v.
     Inr \<lparr>ac_kind = k, ac_required_for = r, ac_verification = v\<rparr>)))"

definition artifact_contracts_match :: "artifact_contract \<Rightarrow> artifact_contract \<Rightarrow> bool" where
  "artifact_contracts_match a b \<longleftrightarrow>
     ac_kind a = ac_kind b \<and> ac_verification a = ac_verification b
     \<and> length (ac_required_for a) = length (ac_required_for b)
     \<and> list_all (\<lambda>(x, y). x = y) (zip (ac_required_for a) (ac_required_for b))"

definition model_is_allowed :: "model_policy \<Rightarrow> model_policy list \<Rightarrow> bool" where
  "model_is_allowed m ms = list_ex (\<lambda>c. mp_provider c = mp_provider m \<and> mp_name c = mp_name m
     \<and> mp_reasoning c = mp_reasoning m) ms"

text \<open>\<open>resolveBudget\<close>: the run's request (or the worker's default), capped by the channel's limit.\<close>

definition resolve_budget_key :: "budget \<Rightarrow> budget \<Rightarrow> budget \<Rightarrow> string \<Rightarrow> (string \<times> rat) option" where
  "resolve_budget_key defaults request limits key =
     (let requested = (case map_of request key of Some q \<Rightarrow> Some q | None \<Rightarrow> map_of defaults key) in
      case requested of
        None \<Rightarrow> None
      | Some q \<Rightarrow> Some (key, case map_of limits key of None \<Rightarrow> q | Some l \<Rightarrow> min q l))"

definition resolve_budget :: "budget \<Rightarrow> budget \<Rightarrow> budget \<Rightarrow> budget" where
  "resolve_budget defaults request limits =
     List.map_filter (resolve_budget_key defaults request limits) budget_keys"

section \<open>Parsing a stored snapshot\<close>

definition snapshot_string :: "js \<Rightarrow> string \<Rightarrow> string parsed" where
  "snapshot_string value name = expect_non_empty_string value name"

definition snapshot_enum :: "js \<Rightarrow> string list \<Rightarrow> string \<Rightarrow> string parsed" where
  "snapshot_enum value allowed name =
     r_bind (snapshot_string value name) (\<lambda>candidate.
     if candidate \<notin> set allowed then Inl (SchemaValidationError (name @ '' is not allowed'')) else Inr candidate)"

text \<open>The integer limits in the order of \<open>fields\<close>; a limit that is \<open>undefined\<close> is left out.\<close>

fun budget_integers :: "(string \<times> js) list \<Rightarrow> string \<Rightarrow> string list \<Rightarrow> budget parsed" where
  "budget_integers value name [] = Inr []"
| "budget_integers value name (f # fs) =
     (if js_field value f = JUndef then budget_integers value name fs
      else r_bind (expect_positive_integer (js_field value f) (name @ ''.'' @ f)) (\<lambda>n.
           r_bind (budget_integers value name fs) (\<lambda>b. Inr ((f, of_int n) # b))))"

definition budget_cost :: "(string \<times> js) list \<Rightarrow> string \<Rightarrow> budget parsed" where
  "budget_cost value name =
     (if js_field value ''cost'' = JUndef then Inr []
      else r_bind (expect_positive_finite_number (js_field value ''cost'') (name @ ''.cost'')) (\<lambda>q. Inr [(''cost'', q)]))"

definition read_budget :: "(string \<times> js) list \<Rightarrow> string \<Rightarrow> string list \<Rightarrow> budget parsed" where
  "read_budget value name fs =
     r_bind (budget_integers value name fs) (\<lambda>ints.
     r_bind (budget_cost value name) (\<lambda>cost.
     if ints @ cost = [] then Inl (SchemaValidationError (name @ '' must define at least one limit''))
     else Inr (ints @ cost)))"

definition snapshot_budget :: "js \<Rightarrow> string \<Rightarrow> budget parsed" where
  "snapshot_budget input name =
     r_bind (allowed_record input name budget_keys) (\<lambda>value.
     read_budget value name (filter (\<lambda>k. k \<noteq> ''cost'') budget_keys))"

definition parse_snapshot_model :: "js \<Rightarrow> string \<Rightarrow> model_policy parsed" where
  "parse_snapshot_model input name =
     r_bind (exact_record input name [''provider'', ''name'', ''reasoning''] []) (\<lambda>value.
     r_bind (snapshot_string (js_field value ''provider'') (name @ ''.provider'')) (\<lambda>p.
     r_bind (snapshot_string (js_field value ''name'') (name @ ''.name'')) (\<lambda>n.
     r_bind (snapshot_enum (js_field value ''reasoning'') reasoning_levels (name @ ''.reasoning'')) (\<lambda>r.
     Inr \<lparr>mp_provider = p, mp_name = n, mp_reasoning = r\<rparr>))))"

definition snapshot_skill_entry :: "js \<Rightarrow> string \<Rightarrow> skill_entry parsed" where
  "snapshot_skill_entry input name =
     r_bind (exact_record input name [''id'', ''name'', ''version'', ''hash'', ''provenance'', ''content'',
       ''allowedTools'', ''forbiddenTools''] []) (\<lambda>value.
     r_bind (exact_record (js_field value ''provenance'') (name @ ''.provenance'') [''source'', ''uri''] []) (\<lambda>prov.
     r_bind (snapshot_string (js_field value ''id'') (name @ ''.id'')) (\<lambda>i.
     r_bind (snapshot_string (js_field value ''name'') (name @ ''.name'')) (\<lambda>n.
     r_bind (snapshot_string (js_field value ''version'') (name @ ''.version'')) (\<lambda>v.
     r_bind (snapshot_string (js_field value ''hash'') (name @ ''.hash'')) (\<lambda>hs.
     r_bind (snapshot_string (js_field prov ''source'') (name @ ''.provenance.source'')) (\<lambda>so.
     r_bind (snapshot_string (js_field prov ''uri'') (name @ ''.provenance.uri'')) (\<lambda>u.
     r_bind (snapshot_string (js_field value ''content'') (name @ ''.content'')) (\<lambda>c.
     r_bind (copy_string_array (js_field value ''allowedTools'') (name @ ''.allowedTools'') False) (\<lambda>al.
     r_bind (copy_string_array (js_field value ''forbiddenTools'') (name @ ''.forbiddenTools'') False) (\<lambda>fo.
     Inr \<lparr>sk_id = i, sk_name = n, sk_version = v, sk_hash = hs, sk_source = so, sk_uri = u,
       sk_allowed_tools = al, sk_forbidden_tools = fo, sk_content = c\<rparr>)))))))))))"

definition parse_snapshot_transform :: "js \<Rightarrow> string \<Rightarrow> context_transform parsed" where
  "parse_snapshot_transform input name =
     r_bind (exact_record input name [''kind'', ''preserve''] []) (\<lambda>value.
     r_bind (snapshot_enum (js_field value ''kind'') context_transform_kinds (name @ ''.kind'')) (\<lambda>k.
     r_bind (copy_enum_array (js_field value ''preserve'') context_preserved_fields (name @ ''.preserve'') True) (\<lambda>p.
     Inr \<lparr>ct_kind = k, ct_preserve = p\<rparr>)))"

definition own_or_none :: "(string \<times> js) list \<Rightarrow> string \<Rightarrow> (js \<Rightarrow> 'a parsed) \<Rightarrow> 'a option parsed" where
  "own_or_none value key parse =
     (if js_has_own value key then r_bind (parse (js_field value key)) (\<lambda>x. Inr (Some x)) else Inr None)"

text \<open>The fields of a snapshot once its records have been checked, in the source's order.\<close>

definition parse_snapshot_fields ::
    "(string \<times> js) list \<Rightarrow> js list \<Rightarrow> js list \<Rightarrow> (string \<times> js) list \<Rightarrow> (string \<times> js) list \<Rightarrow>
     (string \<times> js) list \<Rightarrow> (string \<times> js) list \<Rightarrow> resolved_profile \<Rightarrow> resolved_profile parsed" where
  "parse_snapshot_fields value skills transforms memory eval artifact terminal p =
     r_bind (snapshot_string (js_field value ''id'') ''RunProfileSnapshot.id'') (\<lambda>i.
     r_bind (snapshot_string (js_field value ''version'') ''RunProfileSnapshot.version'') (\<lambda>v.
     r_bind (parse_snapshot_model (js_field value ''model'') ''RunProfileSnapshot.model'') (\<lambda>m.
     r_bind (r_mapi (\<lambda>j s. snapshot_skill_entry s (index_name ''RunProfileSnapshot.skills'' j)) 0 skills) (\<lambda>sk.
     r_bind (copy_string_array (js_field value ''allowedTools'') ''RunProfileSnapshot.allowedTools'' False) (\<lambda>tools.
     r_bind (snapshot_budget (js_field value ''budget'') ''RunProfileSnapshot.budget'') (\<lambda>b.
     r_bind (r_mapi (\<lambda>j t. parse_snapshot_transform t (index_name ''RunProfileSnapshot.contextTransforms'' j)) 0 transforms) (\<lambda>ts.
     r_bind (snapshot_enum (js_field memory ''read'') memory_read_modes ''RunProfileSnapshot.memoryPolicy.read'') (\<lambda>mr.
     r_bind (snapshot_enum (js_field memory ''write'') memory_write_modes ''RunProfileSnapshot.memoryPolicy.write'') (\<lambda>mw.
     r_bind (snapshot_enum (js_field eval ''contract'') eval_contracts ''RunProfileSnapshot.evalPolicy.contract'') (\<lambda>ec.
     r_bind (snapshot_enum (js_field eval ''quality'') eval_qualities ''RunProfileSnapshot.evalPolicy.quality'') (\<lambda>eq.
     r_bind (snapshot_string (js_field artifact ''kind'') ''RunProfileSnapshot.artifactContract.kind'') (\<lambda>ak.
     r_bind (copy_enum_array (js_field artifact ''requiredFor'') run_outcomes
       ''RunProfileSnapshot.artifactContract.requiredFor'' True) (\<lambda>ar.
     r_bind (snapshot_enum (js_field artifact ''verification'') artifact_verifications
       ''RunProfileSnapshot.artifactContract.verification'') (\<lambda>av.
     r_bind (copy_enum_array (js_field terminal ''allowedOutcomes'') run_outcomes
       ''RunProfileSnapshot.terminalRules.allowedOutcomes'' True) (\<lambda>ta.
     r_bind (snapshot_enum (js_field terminal ''stopCondition'') terminal_stop_conditions
       ''RunProfileSnapshot.terminalRules.stopCondition'') (\<lambda>ts'.
     Inr (p\<lparr>rp_id := i, rp_version := v, rp_model := m, rp_skills := sk, rp_allowed_tools := tools,
       rp_budget := b, rp_transforms := ts, rp_memory := \<lparr>mem_read = mr, mem_write = mw\<rparr>,
       rp_eval := \<lparr>ep_contract = ec, ep_quality = eq\<rparr>,
       rp_artifact := \<lparr>ac_kind = ak, ac_required_for = ar, ac_verification = av\<rparr>,
       rp_terminal := \<lparr>tr_allowed_outcomes = ta, tr_stop_condition = ts'\<rparr>\<rparr>)))))))))))))))))"

definition blank_profile :: "resolved_profile" where
  "blank_profile = \<lparr>rp_id = [], rp_version = [], rp_hash = [], rp_worker_profile_id = [], rp_worker_id = [],
     rp_worker_version = [], rp_worker_instructions = [],
     rp_model = \<lparr>mp_provider = [], mp_name = [], mp_reasoning = []\<rparr>, rp_skills = [], rp_allowed_tools = [],
     rp_budget = [], rp_transforms = [], rp_memory = \<lparr>mem_read = [], mem_write = []\<rparr>,
     rp_eval = \<lparr>ep_contract = [], ep_quality = []\<rparr>,
     rp_artifact = \<lparr>ac_kind = [], ac_required_for = [], ac_verification = []\<rparr>,
     rp_terminal = \<lparr>tr_allowed_outcomes = [], tr_stop_condition = []\<rparr>,
     rp_skill_catalog = None, rp_capability = None, rp_kernel = None\<rparr>"

definition parse_resolved_profile :: "host \<Rightarrow> js \<Rightarrow> resolved_profile parsed" where
  "parse_resolved_profile h input =
     r_bind (exact_record input ''RunProfileSnapshot''
       [''id'', ''version'', ''hash'', ''workerProfileId'', ''workerProfile'', ''model'', ''skills'', ''allowedTools'',
        ''budget'', ''contextTransforms'', ''memoryPolicy'', ''evalPolicy'', ''artifactContract'', ''terminalRules'',
        ''skillCatalog'', ''capabilityPolicy'', ''kernel''] [''skillCatalog'', ''capabilityPolicy'', ''kernel'']) (\<lambda>value.
     r_bind (exact_record (js_field value ''workerProfile'') ''RunProfileSnapshot.workerProfile''
       [''id'', ''version'', ''instructions''] []) (\<lambda>worker.
     r_bind (snapshot_string (js_field value ''workerProfileId'') ''RunProfileSnapshot.workerProfileId'') (\<lambda>wid.
     r_bind (snapshot_string (js_field worker ''id'') ''RunProfileSnapshot.workerProfile.id'') (\<lambda>wi.
     r_bind (snapshot_string (js_field worker ''version'') ''RunProfileSnapshot.workerProfile.version'') (\<lambda>wv.
     r_bind (snapshot_string (js_field worker ''instructions'') ''RunProfileSnapshot.workerProfile.instructions'') (\<lambda>wt.
     if wid \<noteq> wi
     then Inl (SchemaValidationError ''RunProfileSnapshot.workerProfileId must match RunProfileSnapshot.workerProfile.id'')
     else
     r_bind (own_or_none value ''capabilityPolicy'' (parse_capability_policy h)) (\<lambda>capability.
     case js_field value ''skills'' of
       JArr skills \<Rightarrow>
         if skills = [] \<and> capability = None
         then Inl (SchemaValidationError ''RunProfileSnapshot.skills must be a non-empty array unless a capability policy is present'')
         else (case js_field value ''contextTransforms'' of
           JArr transforms \<Rightarrow>
             if transforms = []
             then Inl (SchemaValidationError ''RunProfileSnapshot.contextTransforms must be a non-empty array'')
             else
             r_bind (exact_record (js_field value ''memoryPolicy'') ''RunProfileSnapshot.memoryPolicy'' [''read'', ''write''] []) (\<lambda>memory.
             r_bind (exact_record (js_field value ''evalPolicy'') ''RunProfileSnapshot.evalPolicy'' [''contract'', ''quality''] []) (\<lambda>eval.
             r_bind (exact_record (js_field value ''artifactContract'') ''RunProfileSnapshot.artifactContract''
               [''kind'', ''requiredFor'', ''verification''] []) (\<lambda>artifact.
             r_bind (exact_record (js_field value ''terminalRules'') ''RunProfileSnapshot.terminalRules''
               [''allowedOutcomes'', ''stopCondition''] []) (\<lambda>terminal.
             r_bind (own_or_none value ''kernel'' parse_kernel_descriptor) (\<lambda>kernel.
             r_bind (own_or_none value ''skillCatalog'' (parse_skill_catalog h)) (\<lambda>catalog.
             r_bind (parse_snapshot_fields value skills transforms memory eval artifact terminal
               (blank_profile\<lparr>rp_worker_profile_id := wid, rp_worker_id := wi, rp_worker_version := wv,
                  rp_worker_instructions := wt, rp_skill_catalog := catalog, rp_capability := capability,
                  rp_kernel := kernel\<rparr>)) (\<lambda>p.
             r_bind (snapshot_string (js_field value ''hash'') ''RunProfileSnapshot.hash'') (\<lambda>hash.
             if hash \<noteq> profile_hash h p
             then Inl (SchemaValidationError ''RunProfileSnapshot.hash must match its canonical content'')
             else Inr (p\<lparr>rp_hash := hash\<rparr>)))))))))
         | _ \<Rightarrow> Inl (SchemaValidationError ''RunProfileSnapshot.contextTransforms must be a non-empty array''))
     | _ \<Rightarrow> Inl (SchemaValidationError ''RunProfileSnapshot.skills must be a non-empty array unless a capability policy is present''))))))))"

section \<open>Resolving a profile\<close>

text \<open>\<open>runSkillIds.map(...)\<close>: every skill must be allowed by both policies and be in the catalog.\<close>

definition resolve_skill ::
    "skill_entry list \<Rightarrow> string list \<Rightarrow> string list \<Rightarrow> nat \<Rightarrow> string \<Rightarrow> skill_entry parsed" where
  "resolve_skill catalog channel_ids worker_ids i skill_id =
     (if skill_id \<notin> set channel_ids \<or> skill_id \<notin> set worker_ids
      then Inl (PlainError (index_name ''RunProfile.skillIds'' i @ '' must be allowed by ChannelPolicy and WorkerProfile''))
      else case find (\<lambda>k. sk_id k = skill_id) catalog of
        None \<Rightarrow> Inl (PlainError (index_name ''RunProfile.skillIds'' i @ '' does not exist in the catalog''))
      | Some k \<Rightarrow> snapshot_skill k)"

definition capability_host_tools :: "string list" where
  "capability_host_tools = [''capabilities.search'', ''capabilities.load'', ''skills.load'']"

definition resolve_allowed_tools ::
    "string list \<Rightarrow> string list \<Rightarrow> string list \<Rightarrow> skill_entry list \<Rightarrow> bool \<Rightarrow> string list" where
  "resolve_allowed_tools channel_tools worker_tools profile_tools skills has_policy =
     filter (\<lambda>tool.
       ((has_policy \<and> (skills = [] \<or> tool \<in> set capability_host_tools))
         \<or> tool \<in> set (concat (map sk_allowed_tools skills)))
       \<and> tool \<in> set worker_tools
       \<and> tool \<in> set profile_tools
       \<and> tool \<notin> set (concat (map sk_forbidden_tools skills))) channel_tools"

definition snapshot_transform :: "nat \<Rightarrow> context_transform \<Rightarrow> context_transform parsed" where
  "snapshot_transform i t =
     r_bind (require_enum (JStr (ct_kind t)) context_transform_kinds (index_name ''RunProfile.contextTransforms'' i @ ''.kind'')) (\<lambda>k.
     r_bind (copy_enum_array (js_strings (ct_preserve t)) context_preserved_fields
       (index_name ''RunProfile.contextTransforms'' i @ ''.preserve'') True) (\<lambda>p.
     Inr \<lparr>ct_kind = k, ct_preserve = p\<rparr>))"

definition opt_parse :: "('a \<Rightarrow> 'b parsed) \<Rightarrow> 'a option \<Rightarrow> 'b option parsed" where
  "opt_parse f x = (case x of None \<Rightarrow> Inr None | Some a \<Rightarrow> r_bind (f a) (\<lambda>b. Inr (Some b)))"

text \<open>The three policies are copied and checked one after the other before they are compared.\<close>

definition copy_channel_policy :: "bool \<Rightarrow> channel_policy \<Rightarrow> channel_policy parsed" where
  "copy_channel_policy has_capability channel =
     r_bind (copy_string_array (js_strings (ch_allowed_tools channel)) ''ChannelPolicy.toolPolicy.allowedTools'' True) (\<lambda>tools.
     r_bind (copy_string_array (js_strings (ch_allowed_skill_ids channel)) ''ChannelPolicy.allowedSkillIds'' (\<not> has_capability)) (\<lambda>skills.
     r_bind (snapshot_models (ch_allowed_models channel) ''ChannelPolicy.allowedModels'') (\<lambda>models.
     r_bind (copy_enum_array (js_strings (ch_read_modes channel)) memory_read_modes ''ChannelPolicy.memoryPolicy.allowedReadModes'' True) (\<lambda>read_modes.
     r_bind (copy_enum_array (js_strings (ch_write_modes channel)) memory_write_modes ''ChannelPolicy.memoryPolicy.allowedWriteModes'' True) (\<lambda>write_modes.
     Inr \<lparr>ch_allowed_tools = tools, ch_allowed_skill_ids = skills, ch_allowed_models = models,
       ch_budget_limits = ch_budget_limits channel, ch_read_modes = read_modes, ch_write_modes = write_modes\<rparr>)))))"

definition copy_worker_profile :: "bool \<Rightarrow> worker_profile \<Rightarrow> worker_profile parsed" where
  "copy_worker_profile has_capability worker =
     r_bind (require_non_empty_string (JStr (wp_id worker)) ''WorkerProfile.id'') (\<lambda>wid.
     r_bind (require_non_empty_string (JStr (wp_version worker)) ''WorkerProfile.version'') (\<lambda>version.
     r_bind (require_non_empty_string (JStr (wp_instructions worker)) ''WorkerProfile.instructions'') (\<lambda>instructions.
     r_bind (copy_string_array (js_strings (wp_allowed_skill_ids worker)) ''WorkerProfile.allowedSkillIds'' (\<not> has_capability)) (\<lambda>skills.
     r_bind (copy_string_array (js_strings (wp_allowed_tools worker)) ''WorkerProfile.allowedTools'' True) (\<lambda>tools.
     r_bind (snapshot_models (wp_allowed_models worker) ''WorkerProfile.modelPolicy.allowedModels'') (\<lambda>models.
     r_bind (snapshot_artifact_contract (wp_artifact_contract worker) ''WorkerProfile.artifactContract'') (\<lambda>artifact.
     Inr \<lparr>wp_id = wid, wp_version = version, wp_instructions = instructions, wp_allowed_skill_ids = skills,
       wp_allowed_tools = tools, wp_allowed_models = models, wp_budget_defaults = wp_budget_defaults worker,
       wp_artifact_contract = artifact\<rparr>)))))))"

definition copy_run_profile :: "host \<Rightarrow> run_profile \<Rightarrow> run_profile parsed" where
  "copy_run_profile h profile =
     r_bind (require_non_empty_string (JStr (pr_id profile)) ''RunProfile.id'') (\<lambda>pid.
     r_bind (require_non_empty_string (JStr (pr_version profile)) ''RunProfile.version'') (\<lambda>version.
     r_bind (opt_parse (\<lambda>c. parse_capability_policy h (capability_policy_js c)) (pr_capability profile)) (\<lambda>capability.
     r_bind (snapshot_model (pr_model profile) ''RunProfile.model'') (\<lambda>model.
     r_bind (copy_string_array (js_strings (pr_skill_ids profile)) ''RunProfile.skillIds'' (capability = None)) (\<lambda>skill_ids.
     r_bind (copy_string_array (js_strings (pr_allowed_tools profile)) ''RunProfile.toolPolicy.allowedTools'' True) (\<lambda>tools.
     r_bind (require_enum (JStr (mem_read (pr_memory profile))) memory_read_modes ''RunProfile.memoryPolicy.read'') (\<lambda>mr.
     r_bind (require_enum (JStr (mem_write (pr_memory profile))) memory_write_modes ''RunProfile.memoryPolicy.write'') (\<lambda>mw.
     if pr_transforms profile = [] then Inl (PlainError ''RunProfile.contextTransforms must be a non-empty array'') else
     r_bind (r_mapi snapshot_transform 0 (pr_transforms profile)) (\<lambda>transforms.
     r_bind (require_enum (JStr (ep_contract (pr_eval profile))) eval_contracts ''RunProfile.evalPolicy.contract'') (\<lambda>ec.
     r_bind (require_enum (JStr (ep_quality (pr_eval profile))) eval_qualities ''RunProfile.evalPolicy.quality'') (\<lambda>eq.
     r_bind (snapshot_artifact_contract (pr_artifact profile) ''RunProfile.artifactContract'') (\<lambda>artifact.
     r_bind (copy_enum_array (js_strings (tr_allowed_outcomes (pr_terminal profile))) run_outcomes ''RunProfile.terminalRules.allowedOutcomes'' True) (\<lambda>ta.
     r_bind (require_enum (JStr (tr_stop_condition (pr_terminal profile))) terminal_stop_conditions ''RunProfile.terminalRules.stopCondition'') (\<lambda>ts.
     r_bind (opt_parse (\<lambda>k. parse_kernel_descriptor (kernel_js k)) (pr_kernel profile)) (\<lambda>kernel.
     r_bind (opt_parse (\<lambda>c. parse_skill_catalog h (skill_catalog_js c)) (pr_skill_catalog profile)) (\<lambda>catalog.
     Inr \<lparr>pr_id = pid, pr_version = version, pr_model = model, pr_skill_ids = skill_ids, pr_transforms = transforms,
       pr_allowed_tools = tools, pr_budget = pr_budget profile, pr_memory = \<lparr>mem_read = mr, mem_write = mw\<rparr>,
       pr_eval = \<lparr>ep_contract = ec, ep_quality = eq\<rparr>, pr_artifact = artifact,
       pr_terminal = \<lparr>tr_allowed_outcomes = ta, tr_stop_condition = ts\<rparr>,
       pr_skill_catalog = catalog, pr_capability = capability, pr_kernel = kernel\<rparr>))))))))))))))))"

text \<open>The snapshot, without its hash, of the three checked policies and the selected skills.\<close>

definition draft_profile ::
    "channel_policy \<Rightarrow> worker_profile \<Rightarrow> run_profile \<Rightarrow> skill_entry list \<Rightarrow> resolved_profile" where
  "draft_profile channel worker profile skills =
     \<lparr>rp_id = pr_id profile, rp_version = pr_version profile, rp_hash = [],
      rp_worker_profile_id = wp_id worker, rp_worker_id = wp_id worker, rp_worker_version = wp_version worker,
      rp_worker_instructions = wp_instructions worker, rp_model = pr_model profile, rp_skills = skills,
      rp_allowed_tools = resolve_allowed_tools (ch_allowed_tools channel) (wp_allowed_tools worker)
        (pr_allowed_tools profile) skills (pr_capability profile \<noteq> None),
      rp_budget = resolve_budget (wp_budget_defaults worker) (pr_budget profile) (ch_budget_limits channel),
      rp_transforms = pr_transforms profile, rp_memory = pr_memory profile,
      rp_eval = pr_eval profile, rp_artifact = pr_artifact profile, rp_terminal = pr_terminal profile,
      rp_skill_catalog = pr_skill_catalog profile, rp_capability = pr_capability profile,
      rp_kernel = pr_kernel profile\<rparr>"

definition resolve_run_profile ::
    "host \<Rightarrow> skill_entry list \<Rightarrow> channel_policy \<Rightarrow> worker_profile \<Rightarrow> run_profile \<Rightarrow> resolved_profile parsed" where
  "resolve_run_profile h catalog channel_policy worker_profile run_profile =
     r_bind (copy_channel_policy (pr_capability run_profile \<noteq> None) channel_policy) (\<lambda>channel.
     r_bind (copy_worker_profile (pr_capability run_profile \<noteq> None) worker_profile) (\<lambda>worker.
     r_bind (copy_run_profile h run_profile) (\<lambda>profile.
     if \<not> model_is_allowed (pr_model profile) (ch_allowed_models channel)
        \<or> \<not> model_is_allowed (pr_model profile) (wp_allowed_models worker)
     then Inl (PlainError ''RunProfile.model must be allowed by ChannelPolicy and WorkerProfile'')
     else if mem_read (pr_memory profile) \<notin> set (ch_read_modes channel)
     then Inl (PlainError ''RunProfile.memoryPolicy.read is not allowed by ChannelPolicy'')
     else if mem_write (pr_memory profile) \<notin> set (ch_write_modes channel)
     then Inl (PlainError ''RunProfile.memoryPolicy.write is not allowed by ChannelPolicy'')
     else if \<not> artifact_contracts_match (pr_artifact profile) (wp_artifact_contract worker)
     then Inl (PlainError ''RunProfile.artifactContract must match WorkerProfile.artifactContract'')
     else
     r_bind (r_mapi (resolve_skill catalog (ch_allowed_skill_ids channel) (wp_allowed_skill_ids worker)) 0
       (pr_skill_ids profile)) (\<lambda>skills.
     let p = draft_profile channel worker profile skills in
     Inr (p\<lparr>rp_hash := profile_hash h p\<rparr>)))))"

text \<open>\<open>selectResolvedToolCatalog\<close>, over any catalog of named tools.\<close>

definition select_resolved_tool_catalog :: "('t \<Rightarrow> string) \<Rightarrow> resolved_profile \<Rightarrow> 't list \<Rightarrow> 't list" where
  "select_resolved_tool_catalog name_of p catalog = filter (\<lambda>t. name_of t \<in> set (rp_allowed_tools p)) catalog"

section \<open>Re-reading a stored snapshot\<close>

lemma snapshot_string_iff [parse_iffs]: "snapshot_string v n = Inr s \<longleftrightarrow> v = JStr s \<and> \<not> is_blank s"
  by (simp add: snapshot_string_def parse_iffs)

lemma snapshot_enum_iff [parse_iffs]:
  "snapshot_enum v allowed n = Inr s \<longleftrightarrow> v = JStr s \<and> \<not> is_blank s \<and> s \<in> set allowed"
  by (auto simp: snapshot_enum_def res_simps parse_iffs)

lemma require_enum_iff [parse_iffs]:
  "require_enum v allowed n = Inr s \<longleftrightarrow> v = JStr s \<and> \<not> is_blank s \<and> s \<in> set allowed"
  by (auto simp: require_enum_def res_simps parse_iffs)

lemma copy_enum_array_iff [parse_iffs]:
  "copy_enum_array v allowed n req = Inr xs \<longleftrightarrow>
     v = js_strings xs \<and> (\<forall>x \<in> set xs. \<not> is_blank x \<and> x \<in> set allowed) \<and> (req \<longrightarrow> xs \<noteq> [])"
proof -
  have items: "r_mapi (\<lambda>i v. require_enum v allowed (index_name n i)) 0 vs = Inr xs \<longleftrightarrow>
      vs = map JStr xs \<and> (\<forall>x \<in> set xs. \<not> is_blank x \<and> x \<in> set allowed)" for vs
    by (subst r_mapi_iff [OF require_enum_iff]) (rule list_all2_strings)
  show ?thesis by (auto simp: copy_enum_array_def js_strings_def items split: js.splits)
qed

lemma profile_runs [parse_runs]:
  "\<not> is_blank s \<Longrightarrow> snapshot_string (JStr s) n = Inr s"
  "\<not> is_blank s \<Longrightarrow> s \<in> set allowed \<Longrightarrow> snapshot_enum (JStr s) allowed n = Inr s"
  "\<not> is_blank s \<Longrightarrow> s \<in> set allowed \<Longrightarrow> require_enum (JStr s) allowed n = Inr s"
  "\<forall>x \<in> set xs. \<not> is_blank x \<and> x \<in> set allowed \<Longrightarrow> req \<longrightarrow> xs \<noteq> [] \<Longrightarrow>
     copy_enum_array (js_strings xs) allowed n req = Inr xs"
  by (auto simp: parse_iffs)

text \<open>Budgets.\<close>

definition budget_fields :: "budget \<Rightarrow> (string \<times> js) list" where
  "budget_fields b = map (\<lambda>kv. (fst kv, JNum (snd kv))) b"

lemma js_field_budget: "js_field (budget_fields b) k = (case map_of b k of None \<Rightarrow> JUndef | Some q \<Rightarrow> JNum q)"
  by (induction b) (auto simp: budget_fields_def)

lemma budget_integers_field:
  "budget_integers value n fs = Inr b \<Longrightarrow> distinct fs \<Longrightarrow>
   (\<forall>f. js_field (budget_fields b) f = (if f \<in> set fs then js_field value f else JUndef))
   \<and> (\<forall>kv \<in> set b. fst kv \<in> set fs)"
proof (induction fs arbitrary: b)
  case Nil
  then show ?case by (simp add: budget_fields_def)
next
  case (Cons f fs)
  then show ?case
    by (fastforce simp: parse_iffs budget_fields_def elim!: r_bindE split: if_splits)
qed

lemma budget_integers_cong:
  "(\<forall>f \<in> set fs. js_field value f = js_field value' f) \<Longrightarrow>
   budget_integers value n fs = Inr b \<Longrightarrow> budget_integers value' m fs = Inr b"
proof (induction fs arbitrary: b)
  case (Cons f fs)
  then show ?case by (auto simp: parse_iffs parse_runs elim!: r_bindE split: if_splits)
qed simp

lemma budget_cost_field:
  "budget_cost value n = Inr b \<Longrightarrow>
   (\<forall>f. js_field (budget_fields b) f = (if f = ''cost'' then js_field value f else JUndef)) \<and> (\<forall>kv \<in> set b. fst kv = ''cost'')"
  by (auto simp: budget_cost_def parse_iffs budget_fields_def elim!: r_bindE split: if_splits)

lemma budget_cost_cong:
  "js_field value ''cost'' = js_field value' ''cost'' \<Longrightarrow> budget_cost value n = Inr b \<Longrightarrow> budget_cost value' m = Inr b"
  by (auto simp: budget_cost_def parse_iffs parse_runs elim!: r_bindE split: if_splits)

lemma read_budget_again:
  assumes "read_budget value n fs = Inr b" and fs: "distinct fs" "''cost'' \<notin> set fs"
  shows "read_budget (budget_fields b) m fs = Inr b" and "\<forall>kv \<in> set b. fst kv \<in> insert ''cost'' (set fs)"
proof -
  obtain ints cost where i: "budget_integers value n fs = Inr ints" and c: "budget_cost value n = Inr cost"
    and b: "b = ints @ cost" "b \<noteq> []"
    using assms(1) unfolding read_budget_def by (auto elim!: r_bindE split: if_splits)
  note fi = budget_integers_field [OF i fs(1)] and fc = budget_cost_field [OF c]
  have own: "js_has_own (budget_fields xs) f \<longleftrightarrow> f \<in> fst ` set xs" for xs :: budget and f
    by (force simp: js_has_own_def budget_fields_def map_of_eq_None_iff)
  have "js_field (budget_fields b) f = js_field value f" if "f \<in> set fs \<or> f = ''cost''" for f
    using that fi fc fs(2) own [of ints f] js_field_absent [of "budget_fields ints" f]
    unfolding b(1) budget_fields_def map_append js_field_append
    by (auto simp flip: budget_fields_def dest: js_field_absent)
  then show "read_budget (budget_fields b) m fs = Inr b"
    using b budget_integers_cong [OF _ i, of "budget_fields b" m] budget_cost_cong [OF _ c, of "budget_fields b" m]
    by (auto simp: read_budget_def)
  show "\<forall>kv \<in> set b. fst kv \<in> insert ''cost'' (set fs)" using fi fc b by auto
qed

lemma snapshot_budget_again:
  assumes "snapshot_budget v n = Inr b"
  shows "snapshot_budget (budget_js b) m = Inr b"
proof -
  obtain kvs where r: "read_budget kvs n (filter (\<lambda>k. k \<noteq> ''cost'') budget_keys) = Inr b"
    using assms unfolding snapshot_budget_def by (elim r_bindE)
  have d: "distinct (filter (\<lambda>k. k \<noteq> ''cost'') budget_keys)" by (simp add: budget_keys_def)
  have "insert ''cost'' (set (filter (\<lambda>k. k \<noteq> ''cost'') budget_keys)) = set budget_keys"
    by (auto simp: budget_keys_def)
  moreover have "''cost'' \<notin> set (filter (\<lambda>k. k \<noteq> ''cost'') budget_keys)" by simp
  ultimately show ?thesis
    using read_budget_again(1) [OF r d, of m] read_budget_again(2) [OF r d]
    by (simp add: snapshot_budget_def budget_js_def parse_runs flip: budget_fields_def)
      (auto simp: budget_fields_def parse_runs)
qed

text \<open>The parts of a snapshot.\<close>

lemma parse_snapshot_model_again:
  "parse_snapshot_model v n = Inr x \<Longrightarrow> parse_snapshot_model (model_js x) m = Inr x"
  unfolding parse_snapshot_model_def
  by (auto simp: snapshot_string_iff snapshot_enum_iff model_js_def parse_runs elim!: r_bindE)

lemma snapshot_skill_entry_again:
  "snapshot_skill_entry v n = Inr k \<Longrightarrow> snapshot_skill_entry (skill_js k) m = Inr k"
  unfolding snapshot_skill_entry_def
  by (elim r_bindE) (auto simp: snapshot_string_iff copy_string_array_iff skill_js_def parse_runs)

lemma parse_snapshot_transform_again:
  "parse_snapshot_transform v n = Inr t \<Longrightarrow> parse_snapshot_transform (transform_js t) m = Inr t"
  unfolding parse_snapshot_transform_def
  by (elim r_bindE) (auto simp: snapshot_enum_iff copy_enum_array_iff transform_js_def parse_runs)
lemma parse_snapshot_fields_ok:
  assumes "parse_snapshot_fields value skills transforms memory eval artifact terminal p0 = Inr p"
  shows "p = p0\<lparr>rp_id := rp_id p, rp_version := rp_version p, rp_model := rp_model p, rp_skills := rp_skills p,
      rp_allowed_tools := rp_allowed_tools p, rp_budget := rp_budget p, rp_transforms := rp_transforms p,
      rp_memory := rp_memory p, rp_eval := rp_eval p, rp_artifact := rp_artifact p, rp_terminal := rp_terminal p\<rparr>"
  and "length (rp_skills p) = length skills" and "length (rp_transforms p) = length transforms"
  using assms unfolding parse_snapshot_fields_def
  by (elim r_bindE; auto dest: r_mapi_eq_Inr_length)+

lemma parse_snapshot_fields_again:
  assumes "parse_snapshot_fields value skills transforms memory eval artifact terminal p0 = Inr p"
    and "js_field kvs ''id'' = JStr (rp_id p)" "js_field kvs ''version'' = JStr (rp_version p)"
    and "js_field kvs ''model'' = model_js (rp_model p)" "js_field kvs ''allowedTools'' = js_strings (rp_allowed_tools p)"
    and "js_field kvs ''budget'' = budget_js (rp_budget p)"
  shows "parse_snapshot_fields kvs (map skill_js (rp_skills p)) (map transform_js (rp_transforms p))
     [(''read'', JStr (mem_read (rp_memory p))), (''write'', JStr (mem_write (rp_memory p)))]
     [(''contract'', JStr (ep_contract (rp_eval p))), (''quality'', JStr (ep_quality (rp_eval p)))]
     [(''kind'', JStr (ac_kind (rp_artifact p))), (''requiredFor'', js_strings (ac_required_for (rp_artifact p))),
      (''verification'', JStr (ac_verification (rp_artifact p)))]
     [(''allowedOutcomes'', js_strings (tr_allowed_outcomes (rp_terminal p))),
      (''stopCondition'', JStr (tr_stop_condition (rp_terminal p)))] p0 = Inr p"
proof -
  have skills: "r_mapi (\<lambda>j s. snapshot_skill_entry s (index_name n j)) 0 (map skill_js ks) = Inr ks"
    if "r_mapi (\<lambda>j s. snapshot_skill_entry s (index_name n j)) 0 vs = Inr ks" for n vs ks
    by (rule r_mapi_again [OF that]) (blast intro: snapshot_skill_entry_again)
  have transforms: "r_mapi (\<lambda>j s. parse_snapshot_transform s (index_name n j)) 0 (map transform_js ks) = Inr ks"
    if "r_mapi (\<lambda>j s. parse_snapshot_transform s (index_name n j)) 0 vs = Inr ks" for n vs ks
    by (rule r_mapi_again [OF that]) (blast intro: parse_snapshot_transform_again)
  show ?thesis
    using assms unfolding parse_snapshot_fields_def
    by (elim r_bindE)
      (auto simp: snapshot_string_iff snapshot_enum_iff copy_enum_array_iff copy_string_array_iff parse_runs
        parse_snapshot_model_again snapshot_budget_again skills transforms)
qed
lemma own_or_none_Some: "own_or_none (kvs) k f = Inr (Some x) \<Longrightarrow> f (js_field kvs k) = Inr x"
  by (auto simp: own_or_none_def elim!: r_bindE split: if_splits)

lemma own_or_none_run:
  "(\<And>y. x = Some y \<Longrightarrow> f (g y) = Inr y) \<Longrightarrow> js_has_own kvs k \<longleftrightarrow> x \<noteq> None \<Longrightarrow>
   (\<And>y. x = Some y \<Longrightarrow> js_field kvs k = g y) \<Longrightarrow> own_or_none kvs k f = Inr x"
  by (cases x) (auto simp: own_or_none_def)

lemma parse_resolved_profile_cases:
  assumes "parse_resolved_profile h v = Inr p"
  obtains kvs skills transforms memory eval artifact terminal wid wv wt cap kern cat p1 where
      "parse_snapshot_fields kvs skills transforms memory eval artifact terminal
        (blank_profile\<lparr>rp_worker_profile_id := wid, rp_worker_id := wid,
          rp_worker_version := wv, rp_worker_instructions := wt,
          rp_skill_catalog := cat, rp_capability := cap, rp_kernel := kern\<rparr>) = Inr p1"
    and "p = p1\<lparr>rp_hash := profile_hash h p1\<rparr>" "\<not> is_blank (profile_hash h p1)"
    and "\<not> is_blank wid" "\<not> is_blank wv" "\<not> is_blank wt"
    and "skills = [] \<longrightarrow> cap \<noteq> None" "transforms \<noteq> []"
    and "own_or_none kvs ''capabilityPolicy'' (parse_capability_policy h) = Inr cap"
      "own_or_none kvs ''kernel'' parse_kernel_descriptor = Inr kern"
      "own_or_none kvs ''skillCatalog'' (parse_skill_catalog h) = Inr cat"
  using assms unfolding parse_resolved_profile_def
  by (elim parse_elims) (auto simp: snapshot_string_iff)

definition stored_fields :: "resolved_profile \<Rightarrow> string \<Rightarrow> (string \<times> js) list" where
  "stored_fields p x = profile_fields p @ [(''hash'', JStr x)]"

lemma profile_get:
  fixes p x defines "kvs \<equiv> stored_fields p x"
  shows "js_field kvs ''id'' = JStr (rp_id p)" "js_field kvs ''version'' = JStr (rp_version p)"
    "js_field kvs ''workerProfileId'' = JStr (rp_worker_profile_id p)"
    "js_field kvs ''workerProfile'' = JObj [(''id'', JStr (rp_worker_id p)), (''version'', JStr (rp_worker_version p)),
         (''instructions'', JStr (rp_worker_instructions p))]"
    "js_field kvs ''model'' = model_js (rp_model p)" "js_field kvs ''skills'' = JArr (map skill_js (rp_skills p))"
    "js_field kvs ''allowedTools'' = js_strings (rp_allowed_tools p)" "js_field kvs ''budget'' = budget_js (rp_budget p)"
    "js_field kvs ''contextTransforms'' = JArr (map transform_js (rp_transforms p))"
    "js_field kvs ''memoryPolicy'' = memory_policy_js (rp_memory p)"
    "js_field kvs ''evalPolicy'' = eval_policy_js (rp_eval p)"
    "js_field kvs ''artifactContract'' = artifact_contract_js (rp_artifact p)"
    "js_field kvs ''terminalRules'' = terminal_rules_js (rp_terminal p)" "js_field kvs ''hash'' = JStr x"
    "rp_skill_catalog p = Some c \<Longrightarrow> js_field kvs ''skillCatalog'' = skill_catalog_js c"
    "rp_capability p = Some cp \<Longrightarrow> js_field kvs ''capabilityPolicy'' = capability_policy_js cp"
    "rp_kernel p = Some k \<Longrightarrow> js_field kvs ''kernel'' = kernel_js k"
    "js_has_own kvs ''skillCatalog'' \<longleftrightarrow> rp_skill_catalog p \<noteq> None"
    "js_has_own kvs ''capabilityPolicy'' \<longleftrightarrow> rp_capability p \<noteq> None"
    "js_has_own kvs ''kernel'' \<longleftrightarrow> rp_kernel p \<noteq> None"
  unfolding kvs_def stored_fields_def profile_fields_def by simp_all

lemma profile_exact:
  "exact_record (JObj (stored_fields p x)) n
     [''id'', ''version'', ''hash'', ''workerProfileId'', ''workerProfile'', ''model'', ''skills'', ''allowedTools'',
      ''budget'', ''contextTransforms'', ''memoryPolicy'', ''evalPolicy'', ''artifactContract'', ''terminalRules'',
      ''skillCatalog'', ''capabilityPolicy'', ''kernel''] [''skillCatalog'', ''capabilityPolicy'', ''kernel''] =
   Inr (stored_fields p x)"
  unfolding exact_record_iff
  by (auto simp: stored_fields_def profile_fields_def opt_field_def split: option.splits)

lemma parse_resolved_profile_run:
  assumes f: "parse_snapshot_fields (stored_fields p (profile_hash h p))
        (map skill_js (rp_skills p)) (map transform_js (rp_transforms p))
     [(''read'', JStr (mem_read (rp_memory p))), (''write'', JStr (mem_write (rp_memory p)))]
     [(''contract'', JStr (ep_contract (rp_eval p))), (''quality'', JStr (ep_quality (rp_eval p)))]
     [(''kind'', JStr (ac_kind (rp_artifact p))), (''requiredFor'', js_strings (ac_required_for (rp_artifact p))),
      (''verification'', JStr (ac_verification (rp_artifact p)))]
     [(''allowedOutcomes'', js_strings (tr_allowed_outcomes (rp_terminal p))),
      (''stopCondition'', JStr (tr_stop_condition (rp_terminal p)))]
     (blank_profile\<lparr>rp_worker_profile_id := rp_worker_id p, rp_worker_id := rp_worker_id p,
        rp_worker_version := rp_worker_version p, rp_worker_instructions := rp_worker_instructions p,
        rp_skill_catalog := rp_skill_catalog p, rp_capability := rp_capability p, rp_kernel := rp_kernel p\<rparr>) = Inr q"
    and q: "profile_hash h q = profile_hash h p"
    and w: "\<not> is_blank (rp_worker_id p)" "\<not> is_blank (rp_worker_version p)" "\<not> is_blank (rp_worker_instructions p)"
      "\<not> is_blank (profile_hash h p)" "rp_worker_profile_id p = rp_worker_id p"
    and ne: "rp_skills p = [] \<longrightarrow> rp_capability p \<noteq> None" "rp_transforms p \<noteq> []"
    and own: "\<And>y. rp_capability p = Some y \<Longrightarrow> parse_capability_policy h (capability_policy_js y) = Inr y"
      "\<And>y. rp_kernel p = Some y \<Longrightarrow> parse_kernel_descriptor (kernel_js y) = Inr y"
      "\<And>y. rp_skill_catalog p = Some y \<Longrightarrow> parse_skill_catalog h (skill_catalog_js y) = Inr y"
  shows "parse_resolved_profile h (profile_js (p\<lparr>rp_hash := profile_hash h p\<rparr>)) = Inr (q\<lparr>rp_hash := profile_hash h p\<rparr>)"
proof -
  let ?kvs = "stored_fields p (profile_hash h p)"
  have js: "profile_js (p\<lparr>rp_hash := profile_hash h p\<rparr>) = JObj ?kvs"
    by (simp add: profile_js_def profile_fields_def stored_fields_def)
  have o: "own_or_none ?kvs ''capabilityPolicy'' (parse_capability_policy h) = Inr (rp_capability p)"
      "own_or_none ?kvs ''kernel'' parse_kernel_descriptor = Inr (rp_kernel p)"
      "own_or_none ?kvs ''skillCatalog'' (parse_skill_catalog h) = Inr (rp_skill_catalog p)"
    by (rule own_or_none_run; auto simp: profile_get own)+
  show ?thesis
    unfolding js parse_resolved_profile_def
    using w ne
    by (simp add: profile_exact o profile_get parse_runs memory_policy_js_def eval_policy_js_def
        artifact_contract_js_def terminal_rules_js_def f q)
qed

lemma parse_resolved_profile_again:
  assumes le: "total_preorder (locale_le h)" and p: "parse_resolved_profile h v = Inr p"
  shows "parse_resolved_profile h (profile_js p) = Inr p"
proof (rule parse_resolved_profile_cases [OF p])
  fix kvs skills transforms memory eval artifact terminal wid wv wt cap kern cat p1
  let ?p0 = "blank_profile\<lparr>rp_worker_profile_id := wid, rp_worker_id := wid, rp_worker_version := wv,
    rp_worker_instructions := wt, rp_skill_catalog := cat, rp_capability := cap, rp_kernel := kern\<rparr>"
  assume f: "parse_snapshot_fields kvs skills transforms memory eval artifact terminal ?p0 = Inr p1"
    and p1: "p = p1\<lparr>rp_hash := profile_hash h p1\<rparr>" "\<not> is_blank (profile_hash h p1)"
    and w: "\<not> is_blank wid" "\<not> is_blank wv" "\<not> is_blank wt"
    and ne: "skills = [] \<longrightarrow> cap \<noteq> None" "transforms \<noteq> []"
    and own: "own_or_none kvs ''capabilityPolicy'' (parse_capability_policy h) = Inr cap"
      "own_or_none kvs ''kernel'' parse_kernel_descriptor = Inr kern"
      "own_or_none kvs ''skillCatalog'' (parse_skill_catalog h) = Inr cat"
  have f0: "rp_worker_profile_id p1 = wid" "rp_worker_id p1 = wid" "rp_worker_version p1 = wv"
      "rp_worker_instructions p1 = wt" "rp_skill_catalog p1 = cat" "rp_capability p1 = cap" "rp_kernel p1 = kern"
    by (subst parse_snapshot_fields_ok(1) [OF f], simp)+
  have ne': "rp_skills p1 = [] \<longrightarrow> rp_capability p1 \<noteq> None" "rp_transforms p1 \<noteq> []"
    using ne parse_snapshot_fields_ok(2,3) [OF f] by (auto simp: f0)
  have f': "parse_snapshot_fields kvs skills transforms memory eval artifact terminal
      (blank_profile\<lparr>rp_worker_profile_id := rp_worker_id p1, rp_worker_id := rp_worker_id p1,
        rp_worker_version := rp_worker_version p1, rp_worker_instructions := rp_worker_instructions p1,
        rp_skill_catalog := rp_skill_catalog p1, rp_capability := rp_capability p1, rp_kernel := rp_kernel p1\<rparr>) = Inr p1"
    using f by (simp add: f0)
  show ?thesis
  proof (subst (1 2) p1(1), rule parse_resolved_profile_run)
    show "parse_capability_policy h (capability_policy_js y) = Inr y" if "rp_capability p1 = Some y" for y
      using own(1) that by (auto simp: f0 dest!: own_or_none_Some intro: parse_capability_policy_again le)
    show "parse_kernel_descriptor (kernel_js y) = Inr y" if "rp_kernel p1 = Some y" for y
      using own(2) that by (auto simp: f0 dest!: own_or_none_Some intro: parse_kernel_again)
    show "parse_skill_catalog h (skill_catalog_js y) = Inr y" if "rp_skill_catalog p1 = Some y" for y
      using own(3) that by (auto simp: f0 dest!: own_or_none_Some intro: parse_skill_catalog_again le)
  qed (use ne' w p1(2) in \<open>simp_all add: profile_get f0 parse_snapshot_fields_again [OF f', unfolded f0]\<close>)
qed

end
