(* ===== verification/Contracts.thy ===== *)
theory Contracts
  imports RunProfile
begin

text \<open>
  The contracts of \<open>harness-v2/src/contracts.ts\<close>: the records the harness exchanges and stores
  (scopes, sessions, runs and their start commands, schedules, canonical events, artifacts,
  memory candidates), the parsers that admit an untrusted value, and the JavaScript object of
  each record. \<open>parse\<close> of the object of a parsed record is that record again; the event store
  relies on it whenever it copies a value by parsing it.
\<close>

section \<open>Scopes, sessions and events\<close>

record scope =
  sc_workspace :: string
  sc_channel :: string

record channel_session =
  cs_id :: string
  cs_scope :: scope

record canonical_event =
  ev_id :: string
  ev_scope :: scope
  ev_stream :: string
  ev_seq :: int
  ev_type :: string
  ev_timestamp :: string
  ev_schema_version :: int
  ev_payload :: js

definition parse_id :: "js \<Rightarrow> string \<Rightarrow> string parsed" where
  "parse_id input name = expect_non_empty_string input name"

definition parse_timestamp :: "host \<Rightarrow> js \<Rightarrow> string \<Rightarrow> string parsed" where
  "parse_timestamp h input name =
     r_bind (expect_non_empty_string input name) (\<lambda>t.
     if date_parse h t = None
     then Inl (SchemaValidationError (name @ '' must be a parseable timestamp''))
     else Inr t)"

definition scope_fields :: "scope \<Rightarrow> (string \<times> js) list" where
  "scope_fields s = [(''workspaceId'', JStr (sc_workspace s)), (''channelId'', JStr (sc_channel s))]"

definition scope_js :: "scope \<Rightarrow> js" where
  "scope_js s = JObj (scope_fields s)"

definition parse_scope_fields :: "(string \<times> js) list \<Rightarrow> string \<Rightarrow> scope parsed" where
  "parse_scope_fields value name =
     r_bind (parse_id (js_field value ''workspaceId'') (name @ ''.workspaceId'')) (\<lambda>w.
     r_bind (parse_id (js_field value ''channelId'') (name @ ''.channelId'')) (\<lambda>c.
     Inr \<lparr>sc_workspace = w, sc_channel = c\<rparr>))"

definition parse_channel_scope :: "js \<Rightarrow> scope parsed" where
  "parse_channel_scope input =
     r_bind (expect_record input ''ChannelScope'') (\<lambda>value. parse_scope_fields value ''ChannelScope'')"

definition session_js :: "channel_session \<Rightarrow> js" where
  "session_js s = JObj ((''id'', JStr (cs_id s)) # scope_fields (cs_scope s))"

definition parse_channel_session :: "js \<Rightarrow> channel_session parsed" where
  "parse_channel_session input =
     r_bind (expect_record input ''ChannelSession'') (\<lambda>value.
     r_bind (parse_id (js_field value ''id'') ''ChannelSession.id'') (\<lambda>i.
     r_bind (parse_scope_fields value ''ChannelSession'') (\<lambda>sc.
     Inr \<lparr>cs_id = i, cs_scope = sc\<rparr>)))"

definition event_js :: "canonical_event \<Rightarrow> js" where
  "event_js e = JObj ((''id'', JStr (ev_id e)) # scope_fields (ev_scope e) @
     [(''streamId'', JStr (ev_stream e)), (''seq'', JNum (of_int (ev_seq e))),
      (''type'', JStr (ev_type e)), (''timestamp'', JStr (ev_timestamp e)),
      (''schemaVersion'', JNum (of_int (ev_schema_version e))), (''payload'', ev_payload e)])"

definition parse_canonical_event :: "host \<Rightarrow> js \<Rightarrow> canonical_event parsed" where
  "parse_canonical_event h input =
     r_bind (expect_record input ''CanonicalEvent'') (\<lambda>value.
     r_bind (parse_id (js_field value ''id'') ''CanonicalEvent.id'') (\<lambda>i.
     r_bind (parse_scope_fields value ''CanonicalEvent'') (\<lambda>sc.
     r_bind (parse_id (js_field value ''streamId'') ''CanonicalEvent.streamId'') (\<lambda>st.
     r_bind (expect_non_negative_integer (js_field value ''seq'') ''CanonicalEvent.seq'') (\<lambda>seq.
     r_bind (expect_non_empty_string (js_field value ''type'') ''CanonicalEvent.type'') (\<lambda>ty.
     r_bind (parse_timestamp h (js_field value ''timestamp'') ''CanonicalEvent.timestamp'') (\<lambda>ts.
     r_bind (expect_positive_integer (js_field value ''schemaVersion'') ''CanonicalEvent.schemaVersion'') (\<lambda>sv.
     r_bind (parse_json_value (js_field value ''payload'') ''CanonicalEvent.payload'') (\<lambda>p.
     Inr \<lparr>ev_id = i, ev_scope = sc, ev_stream = st, ev_seq = seq, ev_type = ty, ev_timestamp = ts,
       ev_schema_version = sv, ev_payload = p\<rparr>)))))))))"

section \<open>Budgets\<close>

definition parse_budget :: "js \<Rightarrow> budget parsed" where
  "parse_budget input =
     r_bind (expect_record input ''budget'') (\<lambda>value.
     read_budget value ''budget''
       [''wallTimeMs'', ''turns'', ''inputTokens'', ''outputTokens'', ''toolCalls'', ''retryAttempts'', ''concurrentChildLanes''])"

definition budgets_match :: "budget \<Rightarrow> budget \<Rightarrow> bool" where
  "budgets_match expected actual \<longleftrightarrow>
     list_all (\<lambda>k. map_of expected k = map_of actual k) (js_dedup (map fst expected @ map fst actual))"

definition assert_run_profile_execution_contract ::
    "resolved_profile \<Rightarrow> budget \<Rightarrow> string \<Rightarrow> string \<Rightarrow> unit parsed" where
  "assert_run_profile_execution_contract snapshot budget stop_condition name =
     (if \<not> budgets_match (rp_budget snapshot) budget
      then Inl (SchemaValidationError (name @ ''.budget must match RunProfileSnapshot.budget''))
      else if stop_condition \<noteq> tr_stop_condition (rp_terminal snapshot)
      then Inl (SchemaValidationError
        (name @ ''.stopCondition must match RunProfileSnapshot.terminalRules.stopCondition''))
      else Inr ())"

section \<open>Schedule triggers\<close>

datatype schedule_trigger =
    ExplicitTrigger string
  | ThreadSlaTrigger string string
  | NodeDeadlineTrigger string string
  | ConnectorTrigger string string string
  | MonitorTrigger string string

fun trigger_kind :: "schedule_trigger \<Rightarrow> string" where
  "trigger_kind (ExplicitTrigger _) = ''explicit''"
| "trigger_kind (ThreadSlaTrigger _ _) = ''unresolved_thread_sla''"
| "trigger_kind (NodeDeadlineTrigger _ _) = ''waiting_node_deadline''"
| "trigger_kind (ConnectorTrigger _ _ _) = ''connector_event''"
| "trigger_kind (MonitorTrigger _ _) = ''monitor''"

fun trigger_args :: "schedule_trigger \<Rightarrow> (string \<times> js) list" where
  "trigger_args (ExplicitTrigger l) = [(''label'', JStr l)]"
| "trigger_args (ThreadSlaTrigger t d) = [(''threadId'', JStr t), (''deadlineAt'', JStr d)]"
| "trigger_args (NodeDeadlineTrigger n d) = [(''nodeId'', JStr n), (''deadlineAt'', JStr d)]"
| "trigger_args (ConnectorTrigger c e r) =
     [(''connector'', JStr c), (''eventType'', JStr e), (''registrationId'', JStr r)]"
| "trigger_args (MonitorTrigger m l) = [(''monitorId'', JStr m), (''label'', JStr l)]"

definition trigger_js :: "schedule_trigger \<Rightarrow> js" where
  "trigger_js t = JObj ((''kind'', JStr (trigger_kind t)) # trigger_args t)"

definition parse_schedule_trigger :: "host \<Rightarrow> js \<Rightarrow> schedule_trigger parsed" where
  "parse_schedule_trigger h input =
     r_bind (expect_record input ''ScheduleTrigger'') (\<lambda>value.
     let kind = js_field value ''kind'';
         text = (\<lambda>k. expect_non_empty_string (js_field value k) (''ScheduleTrigger.'' @ k));
         time = (\<lambda>k. parse_timestamp h (js_field value k) (''ScheduleTrigger.'' @ k)) in
     if kind = JStr ''explicit'' then r_bind (text ''label'') (\<lambda>l. Inr (ExplicitTrigger l))
     else if kind = JStr ''unresolved_thread_sla'' then
       r_bind (text ''threadId'') (\<lambda>t. r_bind (time ''deadlineAt'') (\<lambda>d. Inr (ThreadSlaTrigger t d)))
     else if kind = JStr ''waiting_node_deadline'' then
       r_bind (text ''nodeId'') (\<lambda>n. r_bind (time ''deadlineAt'') (\<lambda>d. Inr (NodeDeadlineTrigger n d)))
     else if kind = JStr ''connector_event'' then
       r_bind (text ''connector'') (\<lambda>c. r_bind (text ''eventType'') (\<lambda>e.
       r_bind (text ''registrationId'') (\<lambda>r. Inr (ConnectorTrigger c e r))))
     else if kind = JStr ''monitor'' then
       r_bind (text ''monitorId'') (\<lambda>m. r_bind (text ''label'') (\<lambda>l. Inr (MonitorTrigger m l)))
     else Inl (SchemaValidationError ''ScheduleTrigger.kind is unsupported''))"

section \<open>Runs\<close>

text \<open>
  The fields shared by a run and the command that starts it. \<open>parentRunId\<close> comes with
  \<open>parentEventId\<close>, and \<open>trigger\<close> with \<open>notificationAudience\<close>.
\<close>

record run_fields =
  rf_goal :: string
  rf_scope :: scope
  rf_source_event :: string
  rf_profile_id :: string
  rf_profile_version :: string
  rf_snapshot :: resolved_profile
  rf_budget :: budget
  rf_permission :: string
  rf_stop :: string
  rf_parent :: "(string \<times> string) option"
  rf_lane :: "string option"
  rf_trigger :: "(schedule_trigger \<times> string list) option"

record start_run =
  sr_command_id :: string
  sr_run_id :: string
  sr_surface :: "string option"
  sr_fields :: run_fields

record run =
  ru_id :: string
  ru_fields :: run_fields
  ru_status :: string
  ru_outcome :: "string option"

definition run_fields_js :: "run_fields \<Rightarrow> (string \<times> js) list" where
  "run_fields_js f =
     [(''goal'', JStr (rf_goal f))] @ scope_fields (rf_scope f) @
     [(''source'', JObj [(''eventId'', JStr (rf_source_event f))]),
      (''runProfile'', JObj [(''id'', JStr (rf_profile_id f)), (''version'', JStr (rf_profile_version f))]),
      (''runProfileSnapshot'', profile_js (rf_snapshot f)), (''budget'', budget_js (rf_budget f)),
      (''permissionScope'', JStr (rf_permission f)), (''stopCondition'', JStr (rf_stop f))]
     @ opt_field ''parentRunId'' (JStr \<circ> fst) (rf_parent f) @ opt_field ''parentEventId'' (JStr \<circ> snd) (rf_parent f)
     @ opt_field ''laneId'' JStr (rf_lane f)
     @ opt_field ''trigger'' (trigger_js \<circ> fst) (rf_trigger f)
     @ opt_field ''notificationAudience'' (js_strings \<circ> snd) (rf_trigger f)"

definition start_run_js :: "start_run \<Rightarrow> js" where
  "start_run_js c = JObj ([(''commandId'', JStr (sr_command_id c)), (''runId'', JStr (sr_run_id c))]
     @ opt_field ''surfaceId'' JStr (sr_surface c) @ run_fields_js (sr_fields c))"

definition run_js :: "run \<Rightarrow> js" where
  "run_js r = JObj ([(''id'', JStr (ru_id r))] @ run_fields_js (ru_fields r) @ [(''status'', JStr (ru_status r))]
     @ opt_field ''outcome'' (\<lambda>s. JObj [(''status'', JStr s)]) (ru_outcome r))"

text \<open>\<open>value.k === undefined ? undefined : parse(value.k)\<close>.\<close>

definition optional_field :: "(string \<times> js) list \<Rightarrow> string \<Rightarrow> (js \<Rightarrow> 'a parsed) \<Rightarrow> 'a option parsed" where
  "optional_field value key parse =
     (if js_field value key = JUndef then Inr None
      else r_bind (parse (js_field value key)) (\<lambda>x. Inr (Some x)))"

definition parse_audience :: "js \<Rightarrow> string \<Rightarrow> string list parsed" where
  "parse_audience input name =
     (case input of
        JArr items \<Rightarrow> r_mapi (\<lambda>i v. parse_id v (index_name name i)) 0 items
      | _ \<Rightarrow> Inl (SchemaValidationError (name @ '' must be an array'')))"

text \<open>\<open>(a === undefined) !== (b === undefined)\<close> is an error.\<close>

definition both_or_neither :: "'a option \<Rightarrow> 'b option \<Rightarrow> string \<Rightarrow> ('a \<times> 'b) option parsed" where
  "both_or_neither a b message =
     (case (a, b) of
        (None, None) \<Rightarrow> Inr None
      | (Some x, Some y) \<Rightarrow> Inr (Some (x, y))
      | _ \<Rightarrow> Inl (SchemaValidationError message))"

text \<open>
  The checks \<open>startRunSchema\<close> and \<open>runSchema\<close> make in the same order under their own names:
  \<open>profile_part\<close> up to the execution contract, then trigger, parent and lane.
\<close>

definition parse_run_contract :: "host \<Rightarrow> string \<Rightarrow> (string \<times> js) list \<Rightarrow> run_fields parsed" where
  "parse_run_contract h name value =
     r_bind (expect_record (js_field value ''runProfile'') (name @ ''.runProfile'')) (\<lambda>profile.
     r_bind (parse_id (js_field profile ''id'') (name @ ''.runProfile.id'')) (\<lambda>pid.
     r_bind (expect_non_empty_string (js_field profile ''version'') (name @ ''.runProfile.version'')) (\<lambda>pversion.
     r_bind (parse_resolved_profile h (js_field value ''runProfileSnapshot'')) (\<lambda>snapshot.
     if rp_id snapshot \<noteq> pid \<or> rp_version snapshot \<noteq> pversion
     then Inl (SchemaValidationError (name @ ''.runProfileSnapshot must match '' @ name @ ''.runProfile identity and version''))
     else
     r_bind (parse_budget (js_field value ''budget'')) (\<lambda>budget.
     r_bind (expect_non_empty_string (js_field value ''stopCondition'') (name @ ''.stopCondition'')) (\<lambda>stop.
     r_bind (assert_run_profile_execution_contract snapshot budget stop name) (\<lambda>_.
     r_bind (optional_field value ''trigger'' (parse_schedule_trigger h)) (\<lambda>trigger.
     r_bind (optional_field value ''notificationAudience'' (\<lambda>v. parse_audience v (name @ ''.notificationAudience''))) (\<lambda>audience.
     r_bind (both_or_neither trigger audience (name @ ''.trigger and notificationAudience must be provided together'')) (\<lambda>scheduled.
     r_bind (optional_field value ''parentRunId'' (\<lambda>v. parse_id v (name @ ''.parentRunId''))) (\<lambda>parent_run.
     r_bind (optional_field value ''parentEventId'' (\<lambda>v. parse_id v (name @ ''.parentEventId''))) (\<lambda>parent_event.
     r_bind (both_or_neither parent_run parent_event
       (name @ ''.parentRunId and '' @ name @ ''.parentEventId must be provided together'')) (\<lambda>parent.
     r_bind (optional_field value ''laneId'' (\<lambda>v. parse_id v (name @ ''.laneId''))) (\<lambda>lane.
     Inr \<lparr>rf_goal = [], rf_scope = \<lparr>sc_workspace = [], sc_channel = []\<rparr>, rf_source_event = [],
       rf_profile_id = pid, rf_profile_version = pversion, rf_snapshot = snapshot, rf_budget = budget,
       rf_permission = [], rf_stop = stop, rf_parent = parent, rf_lane = lane,
       rf_trigger = scheduled\<rparr>))))))))))))))"

text \<open>The rest of the fields, in the order of the object literal.\<close>

definition parse_run_rest ::
    "string \<Rightarrow> (string \<times> js) list \<Rightarrow> (string \<times> js) list \<Rightarrow> run_fields \<Rightarrow> run_fields parsed" where
  "parse_run_rest name value source f =
     r_bind (expect_non_empty_string (js_field value ''goal'') (name @ ''.goal'')) (\<lambda>goal.
     r_bind (parse_scope_fields value name) (\<lambda>sc.
     r_bind (parse_id (js_field source ''eventId'') (name @ ''.source.eventId'')) (\<lambda>event.
     r_bind (parse_id (js_field value ''permissionScope'') (name @ ''.permissionScope'')) (\<lambda>permission.
     Inr (f\<lparr>rf_goal := goal, rf_scope := sc, rf_source_event := event, rf_permission := permission\<rparr>)))))"

definition parse_start_run :: "host \<Rightarrow> js \<Rightarrow> start_run parsed" where
  "parse_start_run h input =
     r_bind (expect_record input ''StartRun'') (\<lambda>value.
     r_bind (expect_record (js_field value ''source'') ''StartRun.source'') (\<lambda>source.
     r_bind (parse_run_contract h ''StartRun'' value) (\<lambda>f.
     r_bind (parse_id (js_field value ''commandId'') ''StartRun.commandId'') (\<lambda>command.
     r_bind (parse_id (js_field value ''runId'') ''StartRun.runId'') (\<lambda>run.
     r_bind (optional_field value ''surfaceId'' (\<lambda>v. expect_non_empty_string v ''StartRun.surfaceId'')) (\<lambda>surface.
     r_bind (parse_run_rest ''StartRun'' value source f) (\<lambda>f.
     Inr \<lparr>sr_command_id = command, sr_run_id = run, sr_surface = surface, sr_fields = f\<rparr>)))))))"

definition run_outcome_values :: "string list" where
  "run_outcome_values = [''completed'', ''awaiting_input'', ''awaiting_approval'', ''failed'', ''timed_out'', ''cancelled'']"

definition parse_run_outcome :: "js \<Rightarrow> string parsed" where
  "parse_run_outcome input =
     r_bind (expect_record input ''RunOutcome'') (\<lambda>value.
     case js_field value ''status'' of
       JStr s \<Rightarrow> if s \<in> set run_outcome_values then Inr s
                 else Inl (SchemaValidationError ''RunOutcome.status must be terminal'')
     | _ \<Rightarrow> Inl (SchemaValidationError ''RunOutcome.status must be terminal''))"

definition parse_run_state :: "js \<Rightarrow> string parsed" where
  "parse_run_state input =
     (case input of
        JStr s \<Rightarrow> if s \<in> set ([''queued'', ''running''] @ run_outcome_values) then Inr s
                  else Inl (SchemaValidationError ''Run.status must be a lifecycle state'')
      | _ \<Rightarrow> Inl (SchemaValidationError ''Run.status must be a lifecycle state''))"

definition parse_run :: "host \<Rightarrow> js \<Rightarrow> run parsed" where
  "parse_run h input =
     r_bind (expect_record input ''Run'') (\<lambda>value.
     r_bind (expect_record (js_field value ''source'') ''Run.source'') (\<lambda>source.
     r_bind (parse_run_contract h ''Run'' value) (\<lambda>f.
     r_bind (parse_id (js_field value ''id'') ''Run.id'') (\<lambda>i.
     r_bind (parse_run_rest ''Run'' value source f) (\<lambda>f.
     r_bind (parse_run_state (js_field value ''status'')) (\<lambda>status.
     if status = ''queued'' \<or> status = ''running'' then
       (if js_field value ''outcome'' \<noteq> JUndef
        then Inl (SchemaValidationError ''active Run must not have a terminal outcome'')
        else Inr \<lparr>ru_id = i, ru_fields = f, ru_status = status, ru_outcome = None\<rparr>)
     else
       r_bind (parse_run_outcome (js_field value ''outcome'')) (\<lambda>outcome.
       if outcome \<noteq> status then Inl (SchemaValidationError ''Run outcome must match its terminal state'')
       else Inr \<lparr>ru_id = i, ru_fields = f, ru_status = status, ru_outcome = Some outcome\<rparr>)))))))"

section \<open>Schedules\<close>

record schedule =
  sd_id :: string
  sd_scope :: scope
  sd_kind :: string
  sd_trigger :: schedule_trigger
  sd_due :: string
  sd_policy :: string
  sd_status :: string
  sd_run :: run_fields
  sd_recurrence :: "int option"

record occurrence =
  oc_id :: string
  oc_schedule_id :: string
  oc_due :: string
  oc_run_id :: string
  oc_command_id :: string
  oc_claimed_at :: string
  oc_status :: "string option"
  oc_scope :: scope

record notification =
  nt_id :: string
  nt_schedule_id :: string
  nt_occurrence_id :: string
  nt_run_id :: string
  nt_trigger :: schedule_trigger
  nt_audience :: "string list"
  nt_created_at :: string
  nt_scope :: scope

text \<open>
  \<open>parseScheduledRunSpec\<close> parses the specification as a start command with template
  identifiers; \<open>surfaceId\<close>, \<open>laneId\<close> and the parent of the specification are dropped.
\<close>

definition parse_scheduled_run_spec :: "host \<Rightarrow> js \<Rightarrow> run_fields parsed" where
  "parse_scheduled_run_spec h input =
     r_bind (expect_record input ''ScheduledRunSpec'') (\<lambda>value.
     r_bind (parse_start_run h (JObj (js_set ''runId'' (JStr ''schedule-template-run'')
       (js_set ''commandId'' (JStr ''schedule-template-command'') value)))) (\<lambda>command.
     r_bind (parse_schedule_trigger h (js_field value ''trigger'')) (\<lambda>trigger.
     r_bind (parse_audience (js_field value ''notificationAudience'') ''ScheduledRunSpec.notificationAudience'') (\<lambda>audience.
     Inr ((sr_fields command)\<lparr>rf_parent := None, rf_lane := None, rf_trigger := Some (trigger, audience)\<rparr>)))))"

definition parse_recurrence :: "js \<Rightarrow> int parsed" where
  "parse_recurrence input =
     r_bind (expect_record input ''ScheduleRecord.recurrence'') (\<lambda>value.
     if js_field value ''kind'' \<noteq> JStr ''fixed_interval''
     then Inl (SchemaValidationError ''ScheduleRecord.recurrence.kind is unsupported'')
     else expect_positive_integer (js_field value ''intervalMs'') ''ScheduleRecord.recurrence.intervalMs'')"

text \<open>\<open>JSON.stringify(run.trigger) !== JSON.stringify(trigger)\<close>; a specification always has a trigger.\<close>

definition triggers_differ :: "host \<Rightarrow> run_fields \<Rightarrow> schedule_trigger \<Rightarrow> bool" where
  "triggers_differ h run trigger =
     (case rf_trigger run of
        None \<Rightarrow> True
      | Some (t, _) \<Rightarrow> json_stringify h (trigger_js t) \<noteq> json_stringify h (trigger_js trigger))"

definition parse_schedule :: "host \<Rightarrow> js \<Rightarrow> schedule parsed" where
  "parse_schedule h input =
     r_bind (expect_record input ''ScheduleRecord'') (\<lambda>value.
     r_bind (parse_scheduled_run_spec h (js_field value ''run'')) (\<lambda>run.
     r_bind (parse_id (js_field value ''id'') ''ScheduleRecord.id'') (\<lambda>i.
     r_bind (parse_schedule_trigger h (js_field value ''trigger'')) (\<lambda>trigger.
     if js_field value ''kind'' \<noteq> JStr (trigger_kind trigger)
     then Inl (SchemaValidationError ''ScheduleRecord.kind must match ScheduleRecord.trigger.kind'')
     else if triggers_differ h run trigger
     then Inl (SchemaValidationError ''ScheduleRecord.trigger must match ScheduledRunSpec.trigger'')
     else
     r_bind (optional_field value ''recurrence'' parse_recurrence) (\<lambda>recurrence.
     case js_field value ''catchUpPolicy'' of
       JStr policy \<Rightarrow>
         if policy \<noteq> ''skip'' \<and> policy \<noteq> ''run_latest''
         then Inl (SchemaValidationError ''ScheduleRecord.catchUpPolicy is unsupported'')
         else (case js_field value ''status'' of
           JStr status \<Rightarrow>
             if status \<noteq> ''active'' \<and> status \<noteq> ''cancelled'' \<and> status \<noteq> ''completed''
             then Inl (SchemaValidationError ''ScheduleRecord.status is unsupported'')
             else
             r_bind (parse_id (js_field value ''workspaceId'') ''ScheduleRecord.workspaceId'') (\<lambda>w.
             if sc_workspace (rf_scope run) \<noteq> w
             then Inl (SchemaValidationError ''ScheduleRecord scope must match its ScheduledRunSpec'')
             else
             r_bind (parse_id (js_field value ''channelId'') ''ScheduleRecord.channelId'') (\<lambda>c.
             if sc_channel (rf_scope run) \<noteq> c
             then Inl (SchemaValidationError ''ScheduleRecord scope must match its ScheduledRunSpec'')
             else
             r_bind (parse_timestamp h (js_field value ''dueAt'') ''ScheduleRecord.dueAt'') (\<lambda>due.
             Inr \<lparr>sd_id = i, sd_scope = rf_scope run, sd_kind = trigger_kind trigger, sd_trigger = trigger,
               sd_due = due, sd_policy = policy, sd_status = status, sd_run = run, sd_recurrence = recurrence\<rparr>)))
         | _ \<Rightarrow> Inl (SchemaValidationError ''ScheduleRecord.status is unsupported''))
     | _ \<Rightarrow> Inl (SchemaValidationError ''ScheduleRecord.catchUpPolicy is unsupported''))))))"

definition schedule_js :: "schedule \<Rightarrow> js" where
  "schedule_js s = JObj ([(''id'', JStr (sd_id s))] @ scope_fields (sd_scope s) @
     [(''kind'', JStr (sd_kind s)), (''trigger'', trigger_js (sd_trigger s)), (''dueAt'', JStr (sd_due s)),
      (''catchUpPolicy'', JStr (sd_policy s)), (''status'', JStr (sd_status s)),
      (''run'', JObj (run_fields_js (sd_run s)))]
     @ opt_field ''recurrence'' (\<lambda>i. JObj [(''kind'', JStr ''fixed_interval''), (''intervalMs'', JNum (of_int i))])
        (sd_recurrence s))"

definition occurrence_status :: "js \<Rightarrow> string option parsed" where
  "occurrence_status v =
     (if v = JUndef then Inr None
      else case v of
        JStr s \<Rightarrow> if s = ''claimed'' \<or> s = ''started'' \<or> s = ''skipped'' then Inr (Some s)
                  else Inl (SchemaValidationError ''ScheduleOccurrence.status is unsupported'')
      | _ \<Rightarrow> Inl (SchemaValidationError ''ScheduleOccurrence.status is unsupported''))"

definition parse_schedule_occurrence :: "host \<Rightarrow> js \<Rightarrow> occurrence parsed" where
  "parse_schedule_occurrence h input =
     r_bind (expect_record input ''ScheduleOccurrence'') (\<lambda>value.
     r_bind (occurrence_status (js_field value ''status'')) (\<lambda>status.
     r_bind (parse_id (js_field value ''id'') ''ScheduleOccurrence.id'') (\<lambda>i.
     r_bind (parse_id (js_field value ''scheduleId'') ''ScheduleOccurrence.scheduleId'') (\<lambda>sid.
     r_bind (parse_timestamp h (js_field value ''dueAt'') ''ScheduleOccurrence.dueAt'') (\<lambda>due.
     r_bind (parse_id (js_field value ''runId'') ''ScheduleOccurrence.runId'') (\<lambda>run.
     r_bind (parse_id (js_field value ''commandId'') ''ScheduleOccurrence.commandId'') (\<lambda>command.
     r_bind (parse_timestamp h (js_field value ''claimedAt'') ''ScheduleOccurrence.claimedAt'') (\<lambda>claimed.
     r_bind (parse_scope_fields value ''ScheduleOccurrence'') (\<lambda>sc.
     Inr \<lparr>oc_id = i, oc_schedule_id = sid, oc_due = due, oc_run_id = run, oc_command_id = command,
       oc_claimed_at = claimed, oc_status = status, oc_scope = sc\<rparr>)))))))))"

definition occurrence_js :: "occurrence \<Rightarrow> js" where
  "occurrence_js c = JObj ([(''id'', JStr (oc_id c)), (''scheduleId'', JStr (oc_schedule_id c)), (''dueAt'', JStr (oc_due c)),
     (''runId'', JStr (oc_run_id c)), (''commandId'', JStr (oc_command_id c)), (''claimedAt'', JStr (oc_claimed_at c))]
     @ opt_field ''status'' JStr (oc_status c) @ scope_fields (oc_scope c))"

definition parse_schedule_notification :: "host \<Rightarrow> js \<Rightarrow> notification parsed" where
  "parse_schedule_notification h input =
     r_bind (expect_record input ''ScheduleNotification'') (\<lambda>value.
     case js_field value ''audience'' of
       JArr audience \<Rightarrow>
         r_bind (parse_id (js_field value ''id'') ''ScheduleNotification.id'') (\<lambda>i.
         r_bind (parse_id (js_field value ''scheduleId'') ''ScheduleNotification.scheduleId'') (\<lambda>sid.
         r_bind (parse_id (js_field value ''occurrenceId'') ''ScheduleNotification.occurrenceId'') (\<lambda>oid.
         r_bind (parse_id (js_field value ''runId'') ''ScheduleNotification.runId'') (\<lambda>run.
         r_bind (parse_schedule_trigger h (js_field value ''trigger'')) (\<lambda>trigger.
         r_bind (r_mapi (\<lambda>j v. parse_id v (index_name ''ScheduleNotification.audience'' j)) 0 audience) (\<lambda>actors.
         r_bind (parse_timestamp h (js_field value ''createdAt'') ''ScheduleNotification.createdAt'') (\<lambda>created.
         r_bind (parse_scope_fields value ''ScheduleNotification'') (\<lambda>sc.
         Inr \<lparr>nt_id = i, nt_schedule_id = sid, nt_occurrence_id = oid, nt_run_id = run, nt_trigger = trigger,
           nt_audience = actors, nt_created_at = created, nt_scope = sc\<rparr>))))))))
     | _ \<Rightarrow> Inl (SchemaValidationError ''ScheduleNotification.audience must be an array''))"

definition notification_js :: "notification \<Rightarrow> js" where
  "notification_js n = JObj ([(''id'', JStr (nt_id n)), (''scheduleId'', JStr (nt_schedule_id n)),
     (''occurrenceId'', JStr (nt_occurrence_id n)), (''runId'', JStr (nt_run_id n)), (''trigger'', trigger_js (nt_trigger n)),
     (''audience'', js_strings (nt_audience n)), (''createdAt'', JStr (nt_created_at n))] @ scope_fields (nt_scope n))"

section \<open>Artifacts and memory candidates\<close>

record artifact =
  ar_id :: string
  ar_scope :: scope
  ar_run_id :: string
  ar_kind :: string
  ar_uri :: string
  ar_hash :: string
  ar_version :: string
  ar_validation :: string
  ar_review :: string

record memory_candidate =
  mc_id :: string
  mc_scope :: scope
  mc_content :: string
  mc_sources :: "string list"

definition artifact_js :: "artifact \<Rightarrow> js" where
  "artifact_js a = JObj ([(''id'', JStr (ar_id a))] @ scope_fields (ar_scope a) @
     [(''runId'', JStr (ar_run_id a)), (''kind'', JStr (ar_kind a)), (''uri'', JStr (ar_uri a)), (''hash'', JStr (ar_hash a)),
      (''version'', JStr (ar_version a)), (''validationStatus'', JStr (ar_validation a)), (''reviewState'', JStr (ar_review a))])"

definition parse_artifact :: "js \<Rightarrow> artifact parsed" where
  "parse_artifact input =
     r_bind (expect_record input ''Artifact'') (\<lambda>value.
     r_bind (parse_id (js_field value ''id'') ''Artifact.id'') (\<lambda>i.
     r_bind (parse_scope_fields value ''Artifact'') (\<lambda>sc.
     r_bind (parse_id (js_field value ''runId'') ''Artifact.runId'') (\<lambda>run.
     r_bind (expect_non_empty_string (js_field value ''kind'') ''Artifact.kind'') (\<lambda>kind.
     r_bind (expect_non_empty_string (js_field value ''uri'') ''Artifact.uri'') (\<lambda>uri.
     r_bind (expect_non_empty_string (js_field value ''hash'') ''Artifact.hash'') (\<lambda>hash.
     r_bind (expect_non_empty_string (js_field value ''version'') ''Artifact.version'') (\<lambda>version.
     r_bind (expect_non_empty_string (js_field value ''validationStatus'') ''Artifact.validationStatus'') (\<lambda>validation.
     r_bind (expect_non_empty_string (js_field value ''reviewState'') ''Artifact.reviewState'') (\<lambda>review.
     Inr \<lparr>ar_id = i, ar_scope = sc, ar_run_id = run, ar_kind = kind, ar_uri = uri, ar_hash = hash,
       ar_version = version, ar_validation = validation, ar_review = review\<rparr>))))))))))"

definition memory_candidate_js :: "memory_candidate \<Rightarrow> js" where
  "memory_candidate_js m = JObj ([(''id'', JStr (mc_id m))] @ scope_fields (mc_scope m) @
     [(''content'', JStr (mc_content m)), (''sourceEventIds'', js_strings (mc_sources m))])"

definition parse_memory_candidate :: "js \<Rightarrow> memory_candidate parsed" where
  "parse_memory_candidate input =
     r_bind (expect_record input ''MemoryCandidate'') (\<lambda>value.
     case js_field value ''sourceEventIds'' of
       JArr items \<Rightarrow>
         if items = [] then Inl (SchemaValidationError ''MemoryCandidate.sourceEventIds must contain provenance'')
         else
         r_bind (parse_id (js_field value ''id'') ''MemoryCandidate.id'') (\<lambda>i.
         r_bind (parse_scope_fields value ''MemoryCandidate'') (\<lambda>sc.
         r_bind (expect_non_empty_string (js_field value ''content'') ''MemoryCandidate.content'') (\<lambda>content.
         r_bind (r_mapi (\<lambda>j v. parse_id v (index_name ''MemoryCandidate.sourceEventIds'' j)) 0 items) (\<lambda>sources.
         Inr \<lparr>mc_id = i, mc_scope = sc, mc_content = content, mc_sources = sources\<rparr>))))
     | _ \<Rightarrow> Inl (SchemaValidationError ''MemoryCandidate.sourceEventIds must contain provenance''))"

end
