(* ===== verification/ContractFacts.thy ===== *)
theory ContractFacts
  imports Contracts
begin

text \<open>
  Every contract parser accepts the object of the record it returned and returns that record
  again. \<open>host\<close>'s string order is only asked to be a total preorder, because the catalogs in a
  profile snapshot are sorted by it.
\<close>

section \<open>Re-reading a parsed record\<close>

lemma parse_id_iff [parse_iffs]: "parse_id v n = Inr s \<longleftrightarrow> v = JStr s \<and> \<not> is_blank s"
  by (simp add: parse_id_def parse_iffs)

lemma parse_timestamp_iff [parse_iffs]:
  "parse_timestamp h v n = Inr s \<longleftrightarrow> v = JStr s \<and> \<not> is_blank s \<and> date_parse h s \<noteq> None"
  by (auto simp: parse_timestamp_def res_simps parse_iffs)

lemma contract_runs [parse_runs]:
  "\<not> is_blank s \<Longrightarrow> parse_id (JStr s) n = Inr s"
  "\<not> is_blank s \<Longrightarrow> date_parse h s \<noteq> None \<Longrightarrow> parse_timestamp h (JStr s) n = Inr s"
  by (simp_all add: parse_iffs)

definition scope_ok :: "scope \<Rightarrow> bool" where
  "scope_ok s \<longleftrightarrow> \<not> is_blank (sc_workspace s) \<and> \<not> is_blank (sc_channel s)"

lemma parse_scope_fields_iff [parse_iffs]:
  "parse_scope_fields kvs n = Inr s \<longleftrightarrow>
     js_field kvs ''workspaceId'' = JStr (sc_workspace s) \<and> js_field kvs ''channelId'' = JStr (sc_channel s) \<and> scope_ok s"
  by (cases s) (auto simp: parse_scope_fields_def scope_ok_def res_simps parse_iffs)

lemma scope_fields_get [simp]:
  "js_field (scope_fields s) k =
     (if k = ''workspaceId'' then JStr (sc_workspace s) else if k = ''channelId'' then JStr (sc_channel s) else JUndef)"
  "js_has_own (scope_fields s) k \<longleftrightarrow> k = ''workspaceId'' \<or> k = ''channelId''"
  by (auto simp: scope_fields_def)

lemma parse_channel_scope_js: "parse_channel_scope (scope_js s) = Inr s' \<longleftrightarrow> s' = s \<and> scope_ok s"
  by (cases s; cases s') (auto simp: parse_channel_scope_def scope_js_def res_simps parse_iffs)

lemma parse_channel_session_js:
  "parse_channel_session (session_js s) = Inr s' \<longleftrightarrow> s' = s \<and> \<not> is_blank (cs_id s) \<and> scope_ok (cs_scope s)"
  by (cases s; cases s'; cases "cs_scope s"; cases "cs_scope s'")
    (auto simp: parse_channel_session_def session_js_def res_simps parse_iffs)

definition event_ok :: "host \<Rightarrow> canonical_event \<Rightarrow> bool" where
  "event_ok h e \<longleftrightarrow> \<not> is_blank (ev_id e) \<and> scope_ok (ev_scope e) \<and> \<not> is_blank (ev_stream e)
     \<and> 0 \<le> ev_seq e \<and> ev_seq e \<le> max_safe \<and> \<not> is_blank (ev_type e)
     \<and> \<not> is_blank (ev_timestamp e) \<and> date_parse h (ev_timestamp e) \<noteq> None
     \<and> 1 \<le> ev_schema_version e \<and> ev_schema_version e \<le> max_safe \<and> is_json (ev_payload e)"

lemma parse_canonical_event_iff:
  "parse_canonical_event h (JObj kvs) = Inr e \<longleftrightarrow>
     js_field kvs ''id'' = JStr (ev_id e) \<and> js_field kvs ''workspaceId'' = JStr (sc_workspace (ev_scope e))
     \<and> js_field kvs ''channelId'' = JStr (sc_channel (ev_scope e)) \<and> js_field kvs ''streamId'' = JStr (ev_stream e)
     \<and> js_field kvs ''seq'' = JNum (of_int (ev_seq e)) \<and> js_field kvs ''type'' = JStr (ev_type e)
     \<and> js_field kvs ''timestamp'' = JStr (ev_timestamp e)
     \<and> js_field kvs ''schemaVersion'' = JNum (of_int (ev_schema_version e)) \<and> js_field kvs ''payload'' = ev_payload e
     \<and> event_ok h e"
  by (cases e) (auto simp: parse_canonical_event_def event_ok_def res_simps parse_iffs)

lemma parse_canonical_event_js: "parse_canonical_event h (event_js e) = Inr e' \<longleftrightarrow> e' = e \<and> event_ok h e"
  unfolding event_js_def parse_canonical_event_iff
  by (cases e; cases e'; cases "ev_scope e"; cases "ev_scope e'") auto

lemma parse_canonical_event_ok: "parse_canonical_event h v = Inr e \<Longrightarrow> event_ok h e"
  unfolding parse_canonical_event_def by (elim r_bindE) (auto simp: parse_iffs event_ok_def)

definition trigger_ok :: "host \<Rightarrow> schedule_trigger \<Rightarrow> bool" where
  "trigger_ok h t \<longleftrightarrow> parse_schedule_trigger h (trigger_js t) = Inr t"

lemma parse_schedule_trigger_again: "parse_schedule_trigger h v = Inr t \<Longrightarrow> parse_schedule_trigger h (trigger_js t) = Inr t"
  unfolding parse_schedule_trigger_def Let_def
  by (elim r_bindE) (auto simp: trigger_js_def parse_iffs parse_runs elim!: r_bindE split: if_splits)

lemma parse_budget_again: "parse_budget v = Inr b \<Longrightarrow> parse_budget (budget_js b) = Inr b"
  unfolding parse_budget_def
  by (auto simp: budget_js_def parse_runs elim!: r_bindE simp flip: budget_fields_def intro!: read_budget_again(1))

lemma parse_audience_iff [parse_iffs]:
  "parse_audience v n = Inr xs \<longleftrightarrow> v = js_strings xs \<and> (\<forall>x \<in> set xs. \<not> is_blank x)"
proof -
  have items: "r_mapi (\<lambda>i v. parse_id v (index_name n i)) 0 vs = Inr xs \<longleftrightarrow>
      vs = map JStr xs \<and> (\<forall>x \<in> set xs. \<not> is_blank x)" for vs
    by (subst r_mapi_iff [OF parse_id_iff]) (rule list_all2_strings)
  show ?thesis by (auto simp: parse_audience_def js_strings_def items split: js.splits)
qed

lemma ids_iff:
  "r_mapi (\<lambda>i v. parse_id v (index_name n i)) 0 vs = Inr xs \<longleftrightarrow> vs = map JStr xs \<and> (\<forall>x \<in> set xs. \<not> is_blank x)"
  by (subst r_mapi_iff [OF parse_id_iff]) (rule list_all2_strings)

lemma ids_run:
  "\<forall>x \<in> set xs. \<not> is_blank x \<Longrightarrow> r_mapi (\<lambda>i v. parse_id v (index_name n i)) 0 (map JStr xs) = Inr xs"
  by (simp add: ids_iff)

lemma optional_field_again:
  "optional_field kvs k f = Inr x \<Longrightarrow> (\<And>v y. f v = Inr y \<Longrightarrow> g y \<noteq> JUndef \<and> f' (g y) = Inr y) \<Longrightarrow>
   js_field kvs' k' = (case x of None \<Rightarrow> JUndef | Some y \<Rightarrow> g y) \<Longrightarrow> optional_field kvs' k' f' = Inr x"
  by (auto simp: optional_field_def elim!: r_bindE split: if_splits)

lemma both_or_neither_iff: "both_or_neither a b m = Inr x \<longleftrightarrow> a = map_option fst x \<and> b = map_option snd x"
  by (cases x) (auto simp: both_or_neither_def split: option.splits)
text \<open>What the object of a run's fields holds.\<close>

definition run_field_keys :: "string list" where
  "run_field_keys = [''goal'', ''workspaceId'', ''channelId'', ''source'', ''runProfile'', ''runProfileSnapshot'', ''budget'',
        ''permissionScope'', ''stopCondition'', ''parentRunId'', ''parentEventId'', ''laneId'', ''trigger'',
        ''notificationAudience'']"

definition same_run_fields :: "(string \<times> js) list \<Rightarrow> run_fields \<Rightarrow> bool" where
  "same_run_fields kvs f \<longleftrightarrow>
     (\<forall>k \<in> set run_field_keys. js_field kvs k = js_field (run_fields_js f) k)"

lemma run_fields_get:
  assumes "same_run_fields kvs f"
  shows "js_field kvs ''goal'' = JStr (rf_goal f)" "js_field kvs ''workspaceId'' = JStr (sc_workspace (rf_scope f))"
    "js_field kvs ''channelId'' = JStr (sc_channel (rf_scope f))"
    "js_field kvs ''source'' = JObj [(''eventId'', JStr (rf_source_event f))]"
    "js_field kvs ''runProfile'' = JObj [(''id'', JStr (rf_profile_id f)), (''version'', JStr (rf_profile_version f))]"
    "js_field kvs ''runProfileSnapshot'' = profile_js (rf_snapshot f)" "js_field kvs ''budget'' = budget_js (rf_budget f)"
    "js_field kvs ''permissionScope'' = JStr (rf_permission f)" "js_field kvs ''stopCondition'' = JStr (rf_stop f)"
    "js_field kvs ''parentRunId'' = (case map_option fst (rf_parent f) of None \<Rightarrow> JUndef | Some x \<Rightarrow> JStr x)"
    "js_field kvs ''parentEventId'' = (case map_option snd (rf_parent f) of None \<Rightarrow> JUndef | Some x \<Rightarrow> JStr x)"
    "js_field kvs ''laneId'' = (case rf_lane f of None \<Rightarrow> JUndef | Some x \<Rightarrow> JStr x)"
    "js_field kvs ''trigger'' = (case map_option fst (rf_trigger f) of None \<Rightarrow> JUndef | Some x \<Rightarrow> trigger_js x)"
    "js_field kvs ''notificationAudience'' = (case map_option snd (rf_trigger f) of None \<Rightarrow> JUndef | Some x \<Rightarrow> js_strings x)"
  using assms unfolding same_run_fields_def run_field_keys_def run_fields_js_def by (auto split: option.splits)

lemma parse_run_contract_facts:
  assumes "parse_run_contract h n kvs = Inr f"
  shows "\<not> is_blank (rf_profile_id f) \<and> \<not> is_blank (rf_profile_version f) \<and> \<not> is_blank (rf_stop f)
    \<and> parse_resolved_profile h (js_field kvs ''runProfileSnapshot'') = Inr (rf_snapshot f)
    \<and> rp_id (rf_snapshot f) = rf_profile_id f \<and> rp_version (rf_snapshot f) = rf_profile_version f
    \<and> parse_budget (js_field kvs ''budget'') = Inr (rf_budget f)
    \<and> (\<forall>m. assert_run_profile_execution_contract (rf_snapshot f) (rf_budget f) (rf_stop f) m = Inr ())
    \<and> optional_field kvs ''trigger'' (parse_schedule_trigger h) = Inr (map_option fst (rf_trigger f))
    \<and> optional_field kvs ''notificationAudience'' (\<lambda>v. parse_audience v (n @ ''.notificationAudience'')) =
        Inr (map_option snd (rf_trigger f))
    \<and> optional_field kvs ''parentRunId'' (\<lambda>v. parse_id v (n @ ''.parentRunId'')) = Inr (map_option fst (rf_parent f))
    \<and> optional_field kvs ''parentEventId'' (\<lambda>v. parse_id v (n @ ''.parentEventId'')) = Inr (map_option snd (rf_parent f))
    \<and> optional_field kvs ''laneId'' (\<lambda>v. parse_id v (n @ ''.laneId'')) = Inr (rf_lane f)
    \<and> rf_goal f = [] \<and> rf_scope f = \<lparr>sc_workspace = [], sc_channel = []\<rparr> \<and> rf_source_event f = [] \<and> rf_permission f = []"
  using assms unfolding parse_run_contract_def
  by (elim parse_elims)
    (auto simp: parse_iffs both_or_neither_iff assert_run_profile_execution_contract_def split: if_splits)

lemma both_or_neither_same: "both_or_neither (map_option fst x) (map_option snd x) e = Inr x"
  by (simp add: both_or_neither_iff)

lemma optional_field_run:
  "js_field kvs k = (case x of None \<Rightarrow> JUndef | Some y \<Rightarrow> g y) \<Longrightarrow>
   (\<And>y. x = Some y \<Longrightarrow> g y \<noteq> JUndef \<and> f (g y) = Inr y) \<Longrightarrow> optional_field kvs k f = Inr x"
  by (cases x) (auto simp: optional_field_def)

lemma optional_field_Some: "optional_field kvs k f = Inr (Some y) \<Longrightarrow> f (js_field kvs k) = Inr y"
  by (auto simp: optional_field_def elim!: r_bindE split: if_splits)

lemma optional_ids:
  "optional_field kvs k (\<lambda>v. parse_id v n) = Inr x \<Longrightarrow>
   js_field kvs' k' = (case x of None \<Rightarrow> JUndef | Some y \<Rightarrow> JStr y) \<Longrightarrow> optional_field kvs' k' (\<lambda>v. parse_id v m) = Inr x"
  by (rule optional_field_run) (auto dest!: optional_field_Some simp: parse_iffs)

lemma optional_ids_less:
  "optional_field kvs k (\<lambda>v. parse_id v n) = Inr x \<Longrightarrow> y = x \<or> y = None \<Longrightarrow>
   js_field kvs' k' = (case y of None \<Rightarrow> JUndef | Some z \<Rightarrow> JStr z) \<Longrightarrow> optional_field kvs' k' (\<lambda>v. parse_id v m) = Inr y"
  by (elim disjE; simp) (blast intro: optional_ids, simp add: optional_field_def)

lemma optional_triggers:
  "optional_field kvs k (parse_schedule_trigger h) = Inr x \<Longrightarrow>
   js_field kvs' k' = (case x of None \<Rightarrow> JUndef | Some y \<Rightarrow> trigger_js y) \<Longrightarrow>
   optional_field kvs' k' (parse_schedule_trigger h) = Inr x"
  by (rule optional_field_run) (auto dest!: optional_field_Some simp: trigger_js_def [abs_def] dest: parse_schedule_trigger_again)

lemma optional_audiences:
  "optional_field kvs k (\<lambda>v. parse_audience v n) = Inr x \<Longrightarrow>
   js_field kvs' k' = (case x of None \<Rightarrow> JUndef | Some y \<Rightarrow> js_strings y) \<Longrightarrow>
   optional_field kvs' k' (\<lambda>v. parse_audience v m) = Inr x"
  by (rule optional_field_run) (auto dest!: optional_field_Some simp: parse_audience_iff, simp add: js_strings_def)

lemma parse_run_contract_less:
  assumes le: "total_preorder (locale_le h)" and p: "parse_run_contract h n kvs = Inr f"
    and s: "same_run_fields kvs' g"
    and fg: "rf_profile_id g = rf_profile_id f" "rf_profile_version g = rf_profile_version f"
      "rf_snapshot g = rf_snapshot f" "rf_budget g = rf_budget f" "rf_stop g = rf_stop f" "rf_trigger g = rf_trigger f"
    and less: "rf_parent g = rf_parent f \<or> rf_parent g = None" "rf_lane g = rf_lane f \<or> rf_lane g = None"
  shows "parse_run_contract h m kvs' = Inr (f\<lparr>rf_parent := rf_parent g, rf_lane := rf_lane g\<rparr>)"
proof -
  note get = run_fields_get [OF s, unfolded fg] and facts = parse_run_contract_facts [OF p]
  have "parse_resolved_profile h (profile_js (rf_snapshot f)) = Inr (rf_snapshot f)"
    using facts parse_resolved_profile_again [OF le] by blast
  moreover have "parse_budget (budget_js (rf_budget f)) = Inr (rf_budget f)" using facts parse_budget_again by blast
  moreover have "optional_field kvs' ''trigger'' (parse_schedule_trigger h) = Inr (map_option fst (rf_trigger f))"
      "optional_field kvs' ''notificationAudience'' (\<lambda>v. parse_audience v (m @ ''.notificationAudience'')) =
        Inr (map_option snd (rf_trigger f))"
    using facts by (blast intro: optional_triggers optional_audiences get)+
  moreover have "optional_field kvs' ''parentRunId'' (\<lambda>v. parse_id v (m @ ''.parentRunId'')) = Inr (map_option fst (rf_parent g))"
      "optional_field kvs' ''parentEventId'' (\<lambda>v. parse_id v (m @ ''.parentEventId'')) = Inr (map_option snd (rf_parent g))"
    using facts less(1) get(10,11) by (auto intro: optional_ids_less)
  moreover have "optional_field kvs' ''laneId'' (\<lambda>v. parse_id v (m @ ''.laneId'')) = Inr (rf_lane g)"
    using facts less(2) get(12) by (auto intro: optional_ids_less)
  ultimately show ?thesis
    using facts unfolding parse_run_contract_def
    by (simp add: get(5,6,7,9) parse_runs both_or_neither_same)
qed

lemma parse_run_contract_again:
  assumes le: "total_preorder (locale_le h)" and p: "parse_run_contract h n kvs = Inr f"
    and s: "same_run_fields kvs' g"
    and fg: "rf_profile_id g = rf_profile_id f" "rf_profile_version g = rf_profile_version f"
      "rf_snapshot g = rf_snapshot f" "rf_budget g = rf_budget f" "rf_stop g = rf_stop f" "rf_parent g = rf_parent f"
      "rf_lane g = rf_lane f" "rf_trigger g = rf_trigger f"
  shows "parse_run_contract h m kvs' = Inr f"
  using parse_run_contract_less [OF le p s fg(1-5) fg(8)] fg by simp

lemma parse_run_rest_iff:
  "parse_run_rest n kvs source f = Inr g \<longleftrightarrow>
     js_field kvs ''goal'' = JStr (rf_goal g) \<and> \<not> is_blank (rf_goal g)
     \<and> js_field kvs ''workspaceId'' = JStr (sc_workspace (rf_scope g)) \<and> js_field kvs ''channelId'' = JStr (sc_channel (rf_scope g))
     \<and> scope_ok (rf_scope g)
     \<and> js_field source ''eventId'' = JStr (rf_source_event g) \<and> \<not> is_blank (rf_source_event g)
     \<and> js_field kvs ''permissionScope'' = JStr (rf_permission g) \<and> \<not> is_blank (rf_permission g)
     \<and> g = f\<lparr>rf_goal := rf_goal g, rf_scope := rf_scope g, rf_source_event := rf_source_event g, rf_permission := rf_permission g\<rparr>"
  by (cases g; cases f) (auto simp: parse_run_rest_def res_simps parse_iffs)

lemma parse_run_rest_keeps:
  assumes "parse_run_rest n kvs source f = Inr g"
  shows "rf_profile_id g = rf_profile_id f" "rf_profile_version g = rf_profile_version f"
      "rf_snapshot g = rf_snapshot f" "rf_budget g = rf_budget f" "rf_stop g = rf_stop f" "rf_parent g = rf_parent f"
      "rf_lane g = rf_lane f" "rf_trigger g = rf_trigger f"
proof -
  have "g = f\<lparr>rf_goal := rf_goal g, rf_scope := rf_scope g, rf_source_event := rf_source_event g, rf_permission := rf_permission g\<rparr>"
    using assms unfolding parse_run_rest_iff by blast
  note g = this
  show "rf_profile_id g = rf_profile_id f" "rf_profile_version g = rf_profile_version f"
      "rf_snapshot g = rf_snapshot f" "rf_budget g = rf_budget f" "rf_stop g = rf_stop f" "rf_parent g = rf_parent f"
      "rf_lane g = rf_lane f" "rf_trigger g = rf_trigger f"
    by (subst g, simp)+
qed

lemma parse_run_rest_again:
  "parse_run_rest n kvs source f = Inr g \<Longrightarrow> same_run_fields kvs' g \<Longrightarrow>
   parse_run_rest m kvs' [(''eventId'', JStr (rf_source_event g))] f = Inr g"
  unfolding parse_run_rest_iff by (simp add: run_fields_get)

lemma js_has_own_iff: "js_has_own xs k \<longleftrightarrow> k \<in> set (map fst xs)"
  by (induction xs) (auto simp: js_has_own_def)

lemma same_run_fields_in:
  assumes "set (map fst xs) \<inter> set run_field_keys = {}" and "set (map fst ys) \<inter> set run_field_keys = {}"
  shows "same_run_fields (xs @ run_fields_js f @ ys) f"
  unfolding same_run_fields_def
proof
  fix k assume "k \<in> set run_field_keys"
  with assms have "\<not> js_has_own xs k" "js_field ys k = JUndef"
    by (auto simp: js_has_own_iff disjoint_iff intro!: js_field_absent)
  then show "js_field (xs @ run_fields_js f @ ys) k = js_field (run_fields_js f) k"
    by (simp add: js_field_absent)
qed

lemma same_run_fields_refl: "same_run_fields (run_fields_js f) f"
  by (simp add: same_run_fields_def)

lemma parse_start_run_again:
  assumes le: "total_preorder (locale_le h)" and p: "parse_start_run h v = Inr c"
  shows "parse_start_run h (start_run_js c) = Inr c"
proof -
  obtain kvs source f where f: "parse_run_contract h ''StartRun'' kvs = Inr f"
    and g: "parse_run_rest ''StartRun'' kvs source f = Inr (sr_fields c)"
    and i: "\<not> is_blank (sr_command_id c)" "\<not> is_blank (sr_run_id c)"
    and s: "optional_field kvs ''surfaceId'' (\<lambda>v. expect_non_empty_string v ''StartRun.surfaceId'') = Inr (sr_surface c)"
    using p unfolding parse_start_run_def by (auto simp: parse_iffs elim!: r_bindE)
  let ?kvs = "[(''commandId'', JStr (sr_command_id c)), (''runId'', JStr (sr_run_id c))]
     @ opt_field ''surfaceId'' JStr (sr_surface c) @ run_fields_js (sr_fields c)"
  have same: "same_run_fields ?kvs (sr_fields c)"
    using same_run_fields_in [of "[(''commandId'', JStr (sr_command_id c)), (''runId'', JStr (sr_run_id c))]
     @ opt_field ''surfaceId'' JStr (sr_surface c)" "[]" "sr_fields c"]
    by (auto simp: run_field_keys_def opt_field_def split: option.splits)
  have "optional_field ?kvs ''surfaceId'' (\<lambda>v. expect_non_empty_string v ''StartRun.surfaceId'') = Inr (sr_surface c)"
    by (rule optional_field_run [where g = JStr]) (use s in \<open>auto simp: run_fields_js_def parse_iffs dest!: optional_field_Some split: option.splits\<close>)
  then show ?thesis
    using i parse_run_contract_again [OF le f same parse_run_rest_keeps [OF g], of "''StartRun''"]
      parse_run_rest_again [OF g same, of "''StartRun''"]
    unfolding start_run_js_def parse_start_run_def
    by (simp add: parse_runs run_fields_get(4) [OF same_run_fields_refl])
qed

lemma parse_run_again:
  assumes le: "total_preorder (locale_le h)" and p: "parse_run h v = Inr r"
  shows "parse_run h (run_js r) = Inr r"
proof -
  obtain kvs source f where f: "parse_run_contract h ''Run'' kvs = Inr f"
    and g: "parse_run_rest ''Run'' kvs source f = Inr (ru_fields r)"
    and i: "\<not> is_blank (ru_id r)" and st: "parse_run_state (js_field kvs ''status'') = Inr (ru_status r)"
    and oc: "ru_outcome r = (if ru_status r = ''queued'' \<or> ru_status r = ''running'' then None else Some (ru_status r))"
    using p unfolding parse_run_def by (auto simp: parse_iffs elim!: r_bindE split: if_splits)
  define K where "K = [(''id'', JStr (ru_id r))] @ run_fields_js (ru_fields r) @ ([(''status'', JStr (ru_status r))]
     @ opt_field ''outcome'' (\<lambda>s. JObj [(''status'', JStr s)]) (ru_outcome r))"
  have same: "same_run_fields K (ru_fields r)"
    unfolding K_def by (rule same_run_fields_in) (auto simp: run_field_keys_def opt_field_def split: option.splits)
  have status: "js_field K ''status'' = JStr (ru_status r)"
    "js_field K ''outcome'' = (case ru_outcome r of None \<Rightarrow> JUndef | Some s \<Rightarrow> JObj [(''status'', JStr s)])"
    "js_field K ''id'' = JStr (ru_id r)" "run_js r = JObj K"
    by (auto simp: K_def run_js_def run_fields_js_def split: option.splits)
  have s1: "parse_run_state (JStr (ru_status r)) = Inr (ru_status r)"
    and s2: "ru_status r \<noteq> ''queued'' \<Longrightarrow> ru_status r \<noteq> ''running'' \<Longrightarrow> ru_status r \<in> set run_outcome_values"
    using st by (auto simp: parse_run_state_def split: js.splits if_splits)
  show ?thesis
    using i parse_run_contract_again [OF le f same parse_run_rest_keeps [OF g], of "''Run''"]
      parse_run_rest_again [OF g same, of "''Run''"]
    unfolding status(4) parse_run_def
    by (cases "ru_status r = ''queued'' \<or> ru_status r = ''running''")
      (auto simp: parse_runs run_fields_get(4) [OF same] status s1 s2 oc parse_run_outcome_def intro!: run.equality)
qed

lemma js_field_set [simp]: "js_field (js_set k v kvs) k' = (if k' = k then v else js_field kvs k')"
  by (simp add: js_field_def)

lemma parse_scheduled_run_spec_again:
  assumes le: "total_preorder (locale_le h)" and p: "parse_scheduled_run_spec h v = Inr f"
  shows "parse_scheduled_run_spec h (JObj (run_fields_js f)) = Inr f
    \<and> (\<exists>t a. rf_trigger f = Some (t, a) \<and> parse_schedule_trigger h (trigger_js t) = Inr t)
    \<and> scope_ok (rf_scope f)"
proof -
  obtain kvs c t a where c: "parse_start_run h (JObj (js_set ''runId'' (JStr ''schedule-template-run'')
       (js_set ''commandId'' (JStr ''schedule-template-command'') kvs))) = Inr c"
    and t: "parse_schedule_trigger h (js_field kvs ''trigger'') = Inr t"
    and a: "parse_audience (js_field kvs ''notificationAudience'') ''ScheduledRunSpec.notificationAudience'' = Inr a"
    and f: "f = (sr_fields c)\<lparr>rf_parent := None, rf_lane := None, rf_trigger := Some (t, a)\<rparr>"
    using p unfolding parse_scheduled_run_spec_def by (auto elim!: r_bindE)
  let ?in = "js_set ''runId'' (JStr ''schedule-template-run'') (js_set ''commandId'' (JStr ''schedule-template-command'') kvs)"
  obtain source f0 where f0: "parse_run_contract h ''StartRun'' ?in = Inr f0"
    and g: "parse_run_rest ''StartRun'' ?in source f0 = Inr (sr_fields c)"
    using c unfolding parse_start_run_def by (auto simp: parse_iffs elim!: r_bindE)
  note facts = parse_run_contract_facts [OF f0] and keeps = parse_run_rest_keeps [OF g]
  have "js_field kvs ''trigger'' \<noteq> JUndef" using t by (auto simp: parse_schedule_trigger_def parse_iffs elim!: r_bindE)
  then have "optional_field ?in ''trigger'' (parse_schedule_trigger h) = Inr (Some t)"
    using t by (simp add: optional_field_def)
  moreover have "optional_field ?in ''notificationAudience'' (\<lambda>v. parse_audience v (''StartRun'' @ ''.notificationAudience'')) = Inr (Some a)"
    using a by (intro optional_field_run [where g = js_strings]) (auto simp: parse_audience_iff, simp add: js_strings_def)
  ultimately have tr: "rf_trigger f0 = Some (t, a)"
    using facts by (cases "rf_trigger f0") auto
  let ?K = "js_set ''runId'' (JStr ''schedule-template-run'') (js_set ''commandId'' (JStr ''schedule-template-command'') (run_fields_js f))"
  have same: "same_run_fields ?K f" by (simp add: same_run_fields_def run_field_keys_def)
  define f1 where "f1 = f0\<lparr>rf_parent := None, rf_lane := None\<rparr>"
  have k1: "parse_run_contract h ''StartRun'' ?K = Inr f1"
    using parse_run_contract_less [OF le f0 same, of "''StartRun''"] keeps tr by (simp add: f f1_def)
  have k2: "parse_run_rest ''StartRun'' ?K [(''eventId'', JStr (rf_source_event f))] f1 = Inr f"
  proof -
    have "rf_goal f = rf_goal (sr_fields c)" "rf_scope f = rf_scope (sr_fields c)"
        "rf_source_event f = rf_source_event (sr_fields c)" "rf_permission f = rf_permission (sr_fields c)"
      by (simp_all add: f)
    moreover have "f = f1\<lparr>rf_goal := rf_goal f, rf_scope := rf_scope f, rf_source_event := rf_source_event f,
        rf_permission := rf_permission f\<rparr>"
      by (rule run_fields.equality) (simp_all add: f f1_def keeps tr)
    ultimately show ?thesis
      using g unfolding parse_run_rest_iff by (simp add: run_fields_get [OF same_run_fields_refl])
  qed
  have k3: "parse_start_run h (JObj ?K) =
      Inr \<lparr>sr_command_id = ''schedule-template-command'', sr_run_id = ''schedule-template-run'', sr_surface = None, sr_fields = f\<rparr>"
  proof -
    have "\<not> js_has_own (run_fields_js f) ''surfaceId''" by (simp add: run_fields_js_def)
    then have "js_field ?K ''surfaceId'' = JUndef" by (simp add: js_field_absent)
    then show ?thesis
      using k1 k2 unfolding parse_start_run_def
      by (simp add: parse_runs run_fields_get(4) [OF same_run_fields_refl] optional_field_def is_blank_iff is_space_def)
  qed
  have "js_field (run_fields_js f) ''trigger'' = trigger_js t" "js_field (run_fields_js f) ''notificationAudience'' = js_strings a"
    by (simp_all add: run_fields_get [OF same_run_fields_refl] f)
  moreover have "parse_schedule_trigger h (trigger_js t) = Inr t" by (rule parse_schedule_trigger_again [OF t])
  moreover have "parse_audience (js_strings a) n = Inr a" for n using a by (simp add: parse_audience_iff)
  ultimately have "parse_scheduled_run_spec h (JObj (run_fields_js f)) = Inr f"
    using k3 unfolding parse_scheduled_run_spec_def by (simp add: parse_runs) (simp add: f)
  moreover have "scope_ok (rf_scope f)" using g unfolding parse_run_rest_iff by (simp add: f)
  moreover have "rf_trigger f = Some (t, a)" by (simp add: f)
  ultimately show ?thesis using parse_schedule_trigger_again [OF t] by blast
qed
lemma parse_recurrence_iff:
  "parse_recurrence v = Inr i \<longleftrightarrow>
     (\<exists>kvs. v = JObj kvs \<and> js_field kvs ''kind'' = JStr ''fixed_interval'' \<and> js_field kvs ''intervalMs'' = JNum (of_int i))
     \<and> 1 \<le> i \<and> i \<le> max_safe"
  by (auto simp: parse_recurrence_def res_simps parse_iffs)

lemma parse_schedule_again:
  assumes le: "total_preorder (locale_le h)" and p: "parse_schedule h v = Inr s"
  shows "parse_schedule h (schedule_js s) = Inr s"
proof -
  obtain kvs where run: "parse_scheduled_run_spec h (js_field kvs ''run'') = Inr (sd_run s)"
    and i: "\<not> is_blank (sd_id s)" and t: "parse_schedule_trigger h (js_field kvs ''trigger'') = Inr (sd_trigger s)"
    and k: "sd_kind s = trigger_kind (sd_trigger s)"
    and same: "\<not> triggers_differ h (sd_run s) (sd_trigger s)"
    and rec: "optional_field kvs ''recurrence'' parse_recurrence = Inr (sd_recurrence s)"
    and pol: "sd_policy s = ''skip'' \<or> sd_policy s = ''run_latest''"
    and st: "sd_status s = ''active'' \<or> sd_status s = ''cancelled'' \<or> sd_status s = ''completed''"
    and sc: "sd_scope s = rf_scope (sd_run s)"
    and due: "\<not> is_blank (sd_due s)" "date_parse h (sd_due s) \<noteq> None"
    using p unfolding parse_schedule_def by (elim parse_elims) (auto simp: parse_iffs)
  define K where "K = [(''id'', JStr (sd_id s))] @ scope_fields (sd_scope s) @
     [(''kind'', JStr (sd_kind s)), (''trigger'', trigger_js (sd_trigger s)), (''dueAt'', JStr (sd_due s)),
      (''catchUpPolicy'', JStr (sd_policy s)), (''status'', JStr (sd_status s)),
      (''run'', JObj (run_fields_js (sd_run s)))]
     @ opt_field ''recurrence'' (\<lambda>i. JObj [(''kind'', JStr ''fixed_interval''), (''intervalMs'', JNum (of_int i))])
        (sd_recurrence s)"
  have get: "js_field K ''id'' = JStr (sd_id s)" "js_field K ''kind'' = JStr (sd_kind s)"
      "js_field K ''trigger'' = trigger_js (sd_trigger s)" "js_field K ''dueAt'' = JStr (sd_due s)"
      "js_field K ''catchUpPolicy'' = JStr (sd_policy s)" "js_field K ''status'' = JStr (sd_status s)"
      "js_field K ''run'' = JObj (run_fields_js (sd_run s))" "js_field K ''workspaceId'' = JStr (sc_workspace (sd_scope s))"
      "js_field K ''channelId'' = JStr (sc_channel (sd_scope s))"
      "js_field K ''recurrence'' = (case sd_recurrence s of None \<Rightarrow> JUndef
         | Some i \<Rightarrow> JObj [(''kind'', JStr ''fixed_interval''), (''intervalMs'', JNum (of_int i))])"
    by (auto simp: K_def split: option.splits)
  have rec': "optional_field K ''recurrence'' parse_recurrence = Inr (sd_recurrence s)"
    using rec by (intro optional_field_run [OF get(10)]) (auto dest!: optional_field_Some simp: parse_recurrence_iff)
  note spec = parse_scheduled_run_spec_again [OF le run] and tr = parse_schedule_trigger_again [OF t]
  have js: "schedule_js s = JObj K" by (simp add: schedule_js_def K_def)
  show ?thesis
    using spec i k same pol st sc due
    unfolding js parse_schedule_def
    by (auto simp: get parse_runs tr rec' scope_ok_def intro!: schedule.equality)
qed

lemma parse_schedule_occurrence_again:
  assumes "parse_schedule_occurrence h v = Inr c"
  shows "parse_schedule_occurrence h (occurrence_js c) = Inr c"
proof -
  have "oc_status c \<in> {None, Some ''claimed'', Some ''started'', Some ''skipped''}" and "scope_ok (oc_scope c)"
    and "\<forall>x \<in> {oc_id c, oc_schedule_id c, oc_due c, oc_run_id c, oc_command_id c, oc_claimed_at c}. \<not> is_blank x"
    and "date_parse h (oc_due c) \<noteq> None" "date_parse h (oc_claimed_at c) \<noteq> None"
    using assms unfolding parse_schedule_occurrence_def
    by (elim r_bindE; auto simp: parse_iffs occurrence_status_def split: js.splits if_splits)+
  then show ?thesis
    by (cases c; cases "oc_scope c")
      (auto simp: occurrence_js_def parse_schedule_occurrence_def occurrence_status_def opt_field_def parse_runs
        scope_ok_def parse_scope_fields_def)
qed

lemma parse_schedule_notification_again:
  assumes "parse_schedule_notification h v = Inr n"
  shows "parse_schedule_notification h (notification_js n) = Inr n"
proof -
  have "parse_schedule_trigger h (trigger_js (nt_trigger n)) = Inr (nt_trigger n)" and "scope_ok (nt_scope n)"
    and "\<forall>x \<in> {nt_id n, nt_schedule_id n, nt_occurrence_id n, nt_run_id n, nt_created_at n}. \<not> is_blank x"
    and "date_parse h (nt_created_at n) \<noteq> None" and "\<forall>x \<in> set (nt_audience n). \<not> is_blank x"
    using assms unfolding parse_schedule_notification_def
    by (elim parse_elims; auto simp: parse_iffs ids_iff intro: parse_schedule_trigger_again)+
  moreover from this have "r_mapi (\<lambda>j v. parse_id v (index_name m j)) 0 (map JStr (nt_audience n)) = Inr (nt_audience n)" for m
    by (simp add: ids_iff)
  ultimately show ?thesis
    by (cases n; cases "nt_scope n")
      (simp add: notification_js_def parse_schedule_notification_def parse_runs scope_ok_def parse_scope_fields_def js_strings_def)
qed

lemma parse_artifact_again: "parse_artifact v = Inr a \<Longrightarrow> parse_artifact (artifact_js a) = Inr a"
  unfolding parse_artifact_def
  by (elim r_bindE; simp only: parse_iffs)
    (auto simp: artifact_js_def parse_runs scope_ok_def parse_scope_fields_def)

lemma parse_memory_candidate_again:
  "parse_memory_candidate v = Inr m \<Longrightarrow> parse_memory_candidate (memory_candidate_js m) = Inr m"
  unfolding parse_memory_candidate_def
  by (elim parse_elims; simp only: parse_iffs ids_iff)
    (auto simp: memory_candidate_js_def parse_runs scope_ok_def parse_scope_fields_def js_strings_def ids_run)
end
