(* ===== verification/EventStore.thy ===== *)
theory EventStore
  imports ContractFacts
begin

text \<open>
  The in-memory channel store (\<open>event-store/src/index.ts\<close>, with \<open>codec.ts\<close> and the terminal
  event types of \<open>lifecycle.ts\<close>). One \<open>store\<close> holds the maps of all channels; an operation of
  the scoped store is an action on it that is given the scope. Every operation runs to its end
  before another one starts: none of them awaits anything after its first line.
\<close>

section \<open>Codec\<close>

text \<open>A value is copied by parsing the object it is.\<close>

definition clone_event :: "host \<Rightarrow> canonical_event \<Rightarrow> canonical_event parsed" where
  "clone_event h e = parse_canonical_event h (event_js e)"

definition clone_scope :: "scope \<Rightarrow> scope parsed" where
  "clone_scope s = parse_channel_scope (scope_js s)"

definition clone_session :: "channel_session \<Rightarrow> channel_session parsed" where
  "clone_session s = parse_channel_session (session_js s)"

definition clone_start_run :: "host \<Rightarrow> start_run \<Rightarrow> start_run parsed" where
  "clone_start_run h c = parse_start_run h (start_run_js c)"

definition clone_schedule :: "host \<Rightarrow> schedule \<Rightarrow> schedule parsed" where
  "clone_schedule h s = parse_schedule h (schedule_js s)"

definition clone_occurrence :: "host \<Rightarrow> occurrence \<Rightarrow> occurrence parsed" where
  "clone_occurrence h c = parse_schedule_occurrence h (occurrence_js c)"

definition clone_notification :: "host \<Rightarrow> notification \<Rightarrow> notification parsed" where
  "clone_notification h n = parse_schedule_notification h (notification_js n)"

record projection_snapshot =
  ps_state :: js
  ps_version :: int
  ps_last_seq :: int

definition clone_projection :: "projection_snapshot \<Rightarrow> projection_snapshot parsed" where
  "clone_projection p =
     r_bind (parse_json_value (ps_state p) ''ProjectionSnapshot.state'') (\<lambda>s. Inr (p\<lparr>ps_state := s\<rparr>))"

text \<open>\<open>cloneProjectionCommitResult\<close>; the flag is \<open>applied\<close>.\<close>

definition clone_projection_result :: "projection_snapshot \<Rightarrow> bool \<Rightarrow> (projection_snapshot \<times> bool) parsed" where
  "clone_projection_result p applied = r_bind (clone_projection p) (\<lambda>q. Inr (q, applied))"

definition scoped_key :: "host \<Rightarrow> scope \<Rightarrow> string \<Rightarrow> string \<Rightarrow> string" where
  "scoped_key h s kind i = stable_json h (js_strings [sc_workspace s, sc_channel s, kind, i])"

definition scoped_prefix :: "host \<Rightarrow> scope \<Rightarrow> string \<Rightarrow> string" where
  "scoped_prefix h s kind = butlast (stable_json h (js_strings [sc_workspace s, sc_channel s, kind]))"

definition final_event_types :: "string list" where
  "final_event_types = [''run.completed'', ''run.failed'', ''run.timed_out'', ''run.cancelled'']"

definition is_terminal_event :: "string \<Rightarrow> bool" where
  "is_terminal_event ty \<longleftrightarrow> ty \<in> set final_event_types"

section \<open>State\<close>

record lease =
  le_claimed_at :: int
  le_owner :: string

record projection_commit =
  pc_projector :: string
  pc_stream :: string
  pc_event_id :: string
  pc_event_seq :: int
  pc_expected_version :: int
  pc_state :: js

record store =
  st_streams :: "canonical_event list js_map"
  st_events :: "canonical_event js_map"
  st_commands :: "start_run js_map"
  st_sessions :: "channel_session js_map"
  st_projections :: "projection_snapshot js_map"
  st_receipts :: "string list"
  st_schedules :: "schedule js_map"
  st_occurrences :: "occurrence js_map"
  st_claims :: "occurrence js_map"
  st_leases :: "lease js_map"
  st_notifications :: "notification js_map"
  st_triggers :: "schedule_trigger js_map"

definition empty_store :: store where
  "empty_store = \<lparr>st_streams = [], st_events = [], st_commands = [], st_sessions = [], st_projections = [],
     st_receipts = [], st_schedules = [], st_occurrences = [], st_claims = [], st_leases = [],
     st_notifications = [], st_triggers = []\<rparr>"

type_synonym 'a store_op = "(store, js_error, 'a) action"

text \<open>\<open>Map.get(key) ?? []\<close> of the streams.\<close>

definition stream_events :: "host \<Rightarrow> scope \<Rightarrow> string \<Rightarrow> store \<Rightarrow> canonical_event list" where
  "stream_events h s stream st = js_get_or (st_streams st) (scoped_key h s ''stream'' stream) []"

definition stored_event :: "host \<Rightarrow> scope \<Rightarrow> string \<Rightarrow> store \<Rightarrow> canonical_event option" where
  "stored_event h s i st = map_of (st_events st) (scoped_key h s ''event'' i)"

definition push_event :: "host \<Rightarrow> scope \<Rightarrow> canonical_event \<Rightarrow> store \<Rightarrow> store" where
  "push_event h s e st = st
     \<lparr>st_streams := js_set (scoped_key h s ''stream'' (ev_stream e)) (stream_events h s (ev_stream e) st @ [e]) (st_streams st),
      st_events := js_set (scoped_key h s ''event'' (ev_id e)) e (st_events st)\<rparr>"

section \<open>Events\<close>

definition append_event :: "host \<Rightarrow> scope \<Rightarrow> canonical_event \<Rightarrow> unit store_op" where
  "append_event h s event = act_bind (act_lift (clone_event h event)) (\<lambda>candidate st.
     if ev_scope candidate \<noteq> s then (Inl EventScopeMismatchError, st)
     else case stored_event h s (ev_id candidate) st of
       Some existing \<Rightarrow>
         if stable_json h (event_js existing) = stable_json h (event_js candidate) then (Inr (), st)
         else (Inl EventConflictError, st)
     | None \<Rightarrow>
         let events = stream_events h s (ev_stream candidate) st in
         if ev_seq candidate \<noteq> int (length events) then (Inl EventSequenceConflictError, st)
         else if list_ex (\<lambda>e. is_terminal_event (ev_type e)) events then (Inl TerminalEventConflictError, st)
         else (Inr (), push_event h s candidate st))"

text \<open>\<open>{ ...event, seq: 0, timestamp: "" }\<close>.\<close>

definition unstamped :: "canonical_event \<Rightarrow> canonical_event" where
  "unstamped e = e\<lparr>ev_seq := 0, ev_timestamp := []\<rparr>"

definition append_idempotent :: "host \<Rightarrow> scope \<Rightarrow> canonical_event \<Rightarrow> bool store_op" where
  "append_idempotent h s event = act_bind (act_lift (clone_event h event)) (\<lambda>candidate st.
     if ev_scope candidate \<noteq> s then (Inl EventScopeMismatchError, st)
     else case stored_event h s (ev_id candidate) st of
       Some existing \<Rightarrow>
         if stable_json h (event_js (unstamped existing)) \<noteq> stable_json h (event_js (unstamped candidate))
         then (Inl EventConflictError, st)
         else (Inr False, st)
     | None \<Rightarrow>
         let events = stream_events h s (ev_stream candidate) st;
             stored = (if ev_seq candidate = int (length events) then candidate
                       else candidate\<lparr>ev_seq := int (length events)\<rparr>) in
         if list_ex (\<lambda>e. is_terminal_event (ev_type e)) events then (Inl TerminalEventConflictError, st)
         else (Inr True, push_event h s stored st))"

text \<open>The events after \<open>after\<close>, each copied as it is yielded.\<close>

definition read_events :: "host \<Rightarrow> scope \<Rightarrow> string \<Rightarrow> int option \<Rightarrow> canonical_event list store_op" where
  "read_events h s stream after st =
     (r_map (clone_event h) (filter (\<lambda>e. case after of None \<Rightarrow> True | Some n \<Rightarrow> n < ev_seq e) (stream_events h s stream st)), st)"

section \<open>Commands\<close>

text \<open>\<open>for (c of values) commands.set(c.runId, c)\<close>: the last command of every run, in first-seen order.\<close>

definition commands_by_run :: "start_run list \<Rightarrow> start_run js_map" where
  "commands_by_run cs = fold (\<lambda>c m. js_set (sr_run_id c) c m) cs []"

definition list_run_commands :: "host \<Rightarrow> scope \<Rightarrow> start_run list store_op" where
  "list_run_commands h s st =
     (r_map (clone_start_run h) (sort_by (\<lambda>a b. locale_le h (sr_run_id a) (sr_run_id b))
        (map snd (commands_by_run (map snd (st_commands st))))), st)"

definition payload_string :: "js \<Rightarrow> string \<Rightarrow> string option" where
  "payload_string payload k = string_field payload k"

definition belongs_to_run :: "string \<Rightarrow> canonical_event \<Rightarrow> bool" where
  "belongs_to_run run_id e \<longleftrightarrow>
     ev_stream e = run_id
     \<or> (payload_string (ev_payload e) ''runId'' = Some run_id
        \<and> (starts_with (ev_stream e) (''tool:'' @ run_id @ '':'') \<or> starts_with (ev_stream e) ''effect:''))
     \<or> payload_string (ev_payload e) ''parentRunId'' = Some run_id"

definition list_run_stream_ids :: "host \<Rightarrow> scope \<Rightarrow> string \<Rightarrow> string list store_op" where
  "list_run_stream_ids h s run_id st =
     (Inr (sort (js_dedup
        (map sr_run_id (filter (\<lambda>c. map_option fst (rf_parent (sr_fields c)) = Some run_id) (map snd (st_commands st)))
         @ map ev_stream (filter (\<lambda>e. ev_scope e = s \<and> belongs_to_run run_id e) (concat (map snd (st_streams st))))))), st)"

definition claim_start :: "host \<Rightarrow> scope \<Rightarrow> start_run \<Rightarrow> start_run store_op" where
  "claim_start h s command = act_bind (act_lift (clone_start_run h command)) (\<lambda>candidate st.
     if rf_scope (sr_fields candidate) \<noteq> s then (Inl EventScopeMismatchError, st)
     else
     let key = scoped_key h s ''command'' (sr_command_id candidate);
         run_key = scoped_key h s ''run'' (sr_run_id candidate) in
     case map_of (st_commands st) key of
       Some existing \<Rightarrow>
         if stable_json h (start_run_js existing) = stable_json h (start_run_js candidate)
         then (clone_start_run h existing, st)
         else (Inl CommandConflictError, st)
     | None \<Rightarrow>
         if map_of (st_commands st) run_key \<noteq> None then (Inl CommandConflictError, st)
         else (clone_start_run h candidate,
               st\<lparr>st_commands := js_set run_key candidate (js_set key candidate (st_commands st))\<rparr>))"

text \<open>\<open>value === undefined ? undefined : clone(value)\<close>.\<close>

definition clone_option :: "('a \<Rightarrow> 'a parsed) \<Rightarrow> 'a option \<Rightarrow> 'a option parsed" where
  "clone_option f x = (case x of None \<Rightarrow> Inr None | Some a \<Rightarrow> r_bind (f a) (\<lambda>b. Inr (Some b)))"

definition get_command :: "host \<Rightarrow> scope \<Rightarrow> string \<Rightarrow> start_run option store_op" where
  "get_command h s i st = (clone_option (clone_start_run h) (map_of (st_commands st) (scoped_key h s ''command'' i)), st)"

definition get_run_command :: "host \<Rightarrow> scope \<Rightarrow> string \<Rightarrow> start_run option store_op" where
  "get_run_command h s i st = (clone_option (clone_start_run h) (map_of (st_commands st) (scoped_key h s ''run'' i)), st)"

definition claim_channel_session :: "host \<Rightarrow> scope \<Rightarrow> channel_session \<Rightarrow> channel_session store_op" where
  "claim_channel_session h s session = act_bind (act_lift (clone_session session)) (\<lambda>candidate st.
     if cs_scope candidate \<noteq> s then (Inl EventScopeMismatchError, st)
     else
     let key = scoped_key h s ''channel-session'' [] in
     case map_of (st_sessions st) key of
       Some existing \<Rightarrow>
         if stable_json h (session_js existing) = stable_json h (session_js candidate) then (clone_session existing, st)
         else (Inl ChannelSessionConflictError, st)
     | None \<Rightarrow> (clone_session candidate, st\<lparr>st_sessions := js_set key candidate (st_sessions st)\<rparr>))"

definition get_channel_session :: "host \<Rightarrow> scope \<Rightarrow> channel_session option store_op" where
  "get_channel_session h s st = (clone_option clone_session (map_of (st_sessions st) (scoped_key h s ''channel-session'' [])), st)"

section \<open>Projections\<close>

definition projection_key :: "host \<Rightarrow> scope \<Rightarrow> string \<Rightarrow> string \<Rightarrow> string" where
  "projection_key h s projector stream = scoped_key h s (''projection:'' @ projector) stream"

definition receipt_key :: "host \<Rightarrow> scope \<Rightarrow> string \<Rightarrow> string \<Rightarrow> string \<Rightarrow> string" where
  "receipt_key h s projector stream event =
     scoped_key h s (''projection-receipt:'' @ projector) (stable_json h (js_strings [stream, event]))"

definition load_projection :: "host \<Rightarrow> scope \<Rightarrow> string \<Rightarrow> string \<Rightarrow> projection_snapshot option store_op" where
  "load_projection h s projector stream st =
     (clone_option clone_projection (map_of (st_projections st) (projection_key h s projector stream)), st)"

definition commit_projection :: "host \<Rightarrow> scope \<Rightarrow> projection_commit \<Rightarrow> (projection_snapshot \<times> bool) store_op" where
  "commit_projection h s c st =
     (case stored_event h s (pc_event_id c) st of
        None \<Rightarrow> (Inl ProjectionSourceEventNotFoundError, st)
      | Some e \<Rightarrow>
        if ev_stream e \<noteq> pc_stream c \<or> ev_seq e \<noteq> pc_event_seq c
        then (Inl ProjectionSourceEventNotFoundError, st)
        else
        let key = projection_key h s (pc_projector c) (pc_stream c);
            receipt = receipt_key h s (pc_projector c) (pc_stream c) (pc_event_id c);
            current = map_of (st_projections st) key in
        if receipt \<in> set (st_receipts st)
        then (case current of
            None \<Rightarrow> (Inl (PlainError ''in-memory projection receipt has no projection state''), st)
          | Some p \<Rightarrow> (r_bind (clone_projection p) (\<lambda>q. Inr (q, False)), st))
        else if (case current of None \<Rightarrow> 0 | Some p \<Rightarrow> ps_version p) \<noteq> pc_expected_version c
        then (Inl ProjectionVersionConflictError, st)
        else (case parse_json_value (pc_state c) ''ProjectionCommit.state'' of
            Inl err \<Rightarrow> (Inl err, st)
          | Inr state \<Rightarrow>
            let p = \<lparr>ps_state = state, ps_version = pc_expected_version c + 1, ps_last_seq = pc_event_seq c\<rparr> in
            (clone_projection_result p True,
             st\<lparr>st_projections := js_set key p (st_projections st), st_receipts := st_receipts st @ [receipt]\<rparr>)))"

text \<open>\<open>activeRunIds\<close>: one entry per command id, in claim order.\<close>

definition active_run_ids :: "host \<Rightarrow> scope \<Rightarrow> string list store_op" where
  "active_run_ids h s st =
     (Inr (map sr_run_id (filter (\<lambda>c. \<not> list_ex (\<lambda>e. is_terminal_event (ev_type e)) (stream_events h s (sr_run_id c) st))
        (map snd (filter (\<lambda>kv. starts_with (fst kv) (scoped_prefix h s ''command'')) (st_commands st))))), st)"

section \<open>Schedules\<close>

datatype occurrence_claim = Claimed occurrence | AlreadyClaimed occurrence | ScheduleInactive

definition create_schedule :: "host \<Rightarrow> scope \<Rightarrow> schedule \<Rightarrow> schedule store_op" where
  "create_schedule h s schedule = act_bind (act_lift (clone_schedule h schedule)) (\<lambda>candidate st.
     if sd_scope candidate \<noteq> s then (Inl EventScopeMismatchError, st)
     else
     let key = scoped_key h s ''schedule'' (sd_id candidate) in
     case map_of (st_schedules st) key of
       Some existing \<Rightarrow>
         if stable_json h (schedule_js existing) = stable_json h (schedule_js candidate) then (clone_schedule h existing, st)
         else (Inl ScheduleConflictError, st)
     | None \<Rightarrow> (clone_schedule h candidate, st\<lparr>st_schedules := js_set key candidate (st_schedules st)\<rparr>))"

definition scoped_values :: "host \<Rightarrow> scope \<Rightarrow> string \<Rightarrow> 'v js_map \<Rightarrow> 'v list" where
  "scoped_values h s kind m = map snd (filter (\<lambda>kv. starts_with (fst kv) (scoped_prefix h s kind)) m)"

definition list_schedules :: "host \<Rightarrow> scope \<Rightarrow> schedule list store_op" where
  "list_schedules h s st =
     (r_bind (r_map (clone_schedule h) (scoped_values h s ''schedule'' (st_schedules st)))
        (\<lambda>xs. Inr (sort_by (\<lambda>a b. locale_le h (sd_id a) (sd_id b)) xs)), st)"

definition cancel_schedule :: "host \<Rightarrow> scope \<Rightarrow> string \<Rightarrow> schedule option store_op" where
  "cancel_schedule h s i st =
     (let key = scoped_key h s ''schedule'' i in
      case map_of (st_schedules st) key of
        None \<Rightarrow> (Inr None, st)
      | Some existing \<Rightarrow>
        (case clone_schedule h (existing\<lparr>sd_status := ''cancelled''\<rparr>) of
           Inl err \<Rightarrow> (Inl err, st)
         | Inr cancelled \<Rightarrow>
           (r_bind (clone_schedule h cancelled) (\<lambda>c. Inr (Some c)),
            st\<lparr>st_schedules := js_set key cancelled (st_schedules st)\<rparr>)))"

text \<open>\<open>schedule?.status !== "active"\<close>.\<close>

definition schedule_active :: "host \<Rightarrow> scope \<Rightarrow> string \<Rightarrow> store \<Rightarrow> bool" where
  "schedule_active h s i st =
     (case map_of (st_schedules st) (scoped_key h s ''schedule'' i) of
        None \<Rightarrow> False | Some sched \<Rightarrow> sd_status sched = ''active'')"

definition claim_key :: "host \<Rightarrow> scope \<Rightarrow> occurrence \<Rightarrow> string" where
  "claim_key h s c = scoped_key h s ''schedule-occurrence-claim''
     (stable_json h (js_strings [oc_schedule_id c, oc_due c]))"

definition record_occurrence :: "host \<Rightarrow> scope \<Rightarrow> occurrence \<Rightarrow> store \<Rightarrow> store" where
  "record_occurrence h s c st = st
     \<lparr>st_occurrences := js_set (scoped_key h s ''schedule-occurrence'' (oc_id c)) c (st_occurrences st),
      st_claims := js_set (claim_key h s c) c (st_claims st)\<rparr>"

definition claim_occurrence :: "host \<Rightarrow> scope \<Rightarrow> occurrence \<Rightarrow> occurrence_claim store_op" where
  "claim_occurrence h s occ = act_bind (act_lift (clone_occurrence h occ)) (\<lambda>candidate st.
     if oc_scope candidate \<noteq> s then (Inl EventScopeMismatchError, st)
     else if \<not> schedule_active h s (oc_schedule_id candidate) st then (Inr ScheduleInactive, st)
     else case map_of (st_claims st) (claim_key h s candidate) of
       Some claimed \<Rightarrow> (r_bind (clone_occurrence h claimed) (\<lambda>c. Inr (AlreadyClaimed c)), st)
     | None \<Rightarrow>
         if map_of (st_occurrences st) (scoped_key h s ''schedule-occurrence'' (oc_id candidate)) \<noteq> None
         then (Inl ScheduleConflictError, st)
         else if list_ex (\<lambda>c. oc_run_id c = oc_run_id candidate \<or> oc_command_id c = oc_command_id candidate)
              (scoped_values h s ''schedule-occurrence'' (st_occurrences st))
         then (Inl ScheduleConflictError, st)
         else (r_bind (clone_occurrence h candidate) (\<lambda>c. Inr (Claimed c)), record_occurrence h s candidate st))"

definition skip_occurrence :: "host \<Rightarrow> scope \<Rightarrow> occurrence \<Rightarrow> bool store_op" where
  "skip_occurrence h s occ = act_bind (act_lift (clone_occurrence h (occ\<lparr>oc_status := Some ''skipped''\<rparr>))) (\<lambda>candidate st.
     if oc_scope candidate \<noteq> s then (Inl EventScopeMismatchError, st)
     else if \<not> schedule_active h s (oc_schedule_id candidate) st then (Inr False, st)
     else if map_of (st_claims st) (claim_key h s candidate) \<noteq> None then (Inr False, st)
     else if map_of (st_occurrences st) (scoped_key h s ''schedule-occurrence'' (oc_id candidate)) \<noteq> None
     then (Inl ScheduleConflictError, st)
     else (Inr True, record_occurrence h s candidate st))"

definition lease_key :: "host \<Rightarrow> scope \<Rightarrow> occurrence \<Rightarrow> string" where
  "lease_key h s c = scoped_key h s ''schedule-occurrence-recovery'' (oc_id c)"

text \<open>A lease lasts 60 seconds; \<open>now\<close> is \<open>Date.now()\<close>.\<close>

definition claim_recovery :: "host \<Rightarrow> scope \<Rightarrow> int \<Rightarrow> occurrence \<Rightarrow> string \<Rightarrow> bool store_op" where
  "claim_recovery h s now occ owner = act_bind (act_lift (clone_occurrence h occ)) (\<lambda>candidate st.
     if oc_scope candidate \<noteq> s then (Inl EventScopeMismatchError, st)
     else if (case map_of (st_leases st) (lease_key h s candidate) of
        None \<Rightarrow> False | Some l \<Rightarrow> now - le_claimed_at l < 60000)
     then (Inr False, st)
     else (Inr True, st\<lparr>st_leases := js_set (lease_key h s candidate) \<lparr>le_claimed_at = now, le_owner = owner\<rparr> (st_leases st)\<rparr>))"

definition renew_recovery :: "host \<Rightarrow> scope \<Rightarrow> int \<Rightarrow> occurrence \<Rightarrow> string \<Rightarrow> bool store_op" where
  "renew_recovery h s now occ owner = act_bind (act_lift (clone_occurrence h occ)) (\<lambda>candidate st.
     if oc_scope candidate \<noteq> s then (Inl EventScopeMismatchError, st)
     else if map_option le_owner (map_of (st_leases st) (lease_key h s candidate)) \<noteq> Some owner then (Inr False, st)
     else (Inr True, st\<lparr>st_leases := js_set (lease_key h s candidate) \<lparr>le_claimed_at = now, le_owner = owner\<rparr> (st_leases st)\<rparr>))"

definition claim_execution :: "host \<Rightarrow> scope \<Rightarrow> int \<Rightarrow> occurrence \<Rightarrow> string \<Rightarrow> bool store_op" where
  "claim_execution h s now occ owner = act_bind (act_lift (clone_occurrence h occ)) (\<lambda>candidate st.
     if oc_scope candidate \<noteq> s then (Inl EventScopeMismatchError, st)
     else if (case map_of (st_leases st) (lease_key h s candidate) of
        None \<Rightarrow> True | Some l \<Rightarrow> le_owner l \<noteq> owner \<or> 60000 \<le> now - le_claimed_at l)
     then (Inr False, st)
     else
     let key = scoped_key h s ''schedule-occurrence'' (oc_id candidate) in
     case map_of (st_occurrences st) key of
       None \<Rightarrow> (Inr False, st)
     | Some existing \<Rightarrow>
         if oc_status existing = Some ''started'' \<or> oc_status existing = Some ''skipped'' then (Inr False, st)
         else (case clone_occurrence h (existing\<lparr>oc_status := Some ''started''\<rparr>) of
             Inl err \<Rightarrow> (Inl err, st)
           | Inr started \<Rightarrow> (Inr True, st\<lparr>st_occurrences := js_set key started (st_occurrences st)\<rparr>)))"

definition audience_js :: "run_fields \<Rightarrow> js" where
  "audience_js f = (case rf_trigger f of None \<Rightarrow> JUndef | Some (_, a) \<Rightarrow> js_strings a)"

definition record_notification :: "host \<Rightarrow> scope \<Rightarrow> notification \<Rightarrow> notification store_op" where
  "record_notification h s notification = act_bind (act_lift (clone_notification h notification)) (\<lambda>candidate st.
     if nt_scope candidate \<noteq> s then (Inl EventScopeMismatchError, st)
     else if (case map_of (st_occurrences st) (scoped_key h s ''schedule-occurrence'' (nt_occurrence_id candidate)) of
        None \<Rightarrow> True
      | Some c \<Rightarrow> oc_schedule_id c \<noteq> nt_schedule_id candidate \<or> oc_run_id c \<noteq> nt_run_id candidate)
     then (Inl ScheduleNotificationConflictError, st)
     else if (case map_of (st_schedules st) (scoped_key h s ''schedule'' (nt_schedule_id candidate)) of
        None \<Rightarrow> True
      | Some sched \<Rightarrow>
          stable_json h (trigger_js (sd_trigger sched)) \<noteq> stable_json h (trigger_js (nt_trigger candidate))
          \<or> stable_json h (audience_js (sd_run sched)) \<noteq> stable_json h (js_strings (nt_audience candidate)))
     then (Inl ScheduleNotificationConflictError, st)
     else
     let key = scoped_key h s ''schedule-notification'' (nt_id candidate);
         settle = (\<lambda>stored. if stable_json h (notification_js stored) = stable_json h (notification_js candidate)
                    then (clone_notification h stored, st)
                    else (Inl ScheduleNotificationConflictError, st)) in
     case map_of (st_notifications st) key of
       Some existing \<Rightarrow> settle existing
     | None \<Rightarrow>
         (case find (\<lambda>n. nt_occurrence_id n = nt_occurrence_id candidate)
            (scoped_values h s ''schedule-notification'' (st_notifications st)) of
            Some stored \<Rightarrow> settle stored
          | None \<Rightarrow> (clone_notification h candidate,
              st\<lparr>st_notifications := js_set key candidate (st_notifications st)\<rparr>)))"

definition list_occurrences :: "host \<Rightarrow> scope \<Rightarrow> string \<Rightarrow> occurrence list store_op" where
  "list_occurrences h s i st =
     (r_bind (r_map (clone_occurrence h)
        (filter (\<lambda>c. oc_schedule_id c = i) (scoped_values h s ''schedule-occurrence'' (st_occurrences st))))
        (\<lambda>xs. Inr (sort_by (\<lambda>a b. locale_le h (oc_due a) (oc_due b)) xs)), st)"

definition list_notifications :: "host \<Rightarrow> scope \<Rightarrow> string \<Rightarrow> notification list store_op" where
  "list_notifications h s i st =
     (r_bind (r_map (clone_notification h)
        (filter (\<lambda>n. nt_schedule_id n = i) (scoped_values h s ''schedule-notification'' (st_notifications st))))
        (\<lambda>xs. Inr (sort_by (\<lambda>a b. locale_le h (nt_created_at a) (nt_created_at b)) xs)), st)"

definition trigger_key :: "host \<Rightarrow> scope \<Rightarrow> schedule_trigger \<Rightarrow> string" where
  "trigger_key h s t = scoped_key h s ''schedule-trigger-registration'' (stable_json h (trigger_js t))"

definition register_trigger :: "host \<Rightarrow> scope \<Rightarrow> schedule_trigger \<Rightarrow> unit store_op" where
  "register_trigger h s t st = (Inr (), st\<lparr>st_triggers := js_set (trigger_key h s t) t (st_triggers st)\<rparr>)"

definition has_trigger :: "host \<Rightarrow> scope \<Rightarrow> schedule_trigger \<Rightarrow> bool store_op" where
  "has_trigger h s t st = (Inr (map_of (st_triggers st) (trigger_key h s t) \<noteq> None), st)"

text \<open>\<open>EventStore.scope\<close> checks the scope once; the scoped store keeps it.\<close>

definition open_scope :: "scope \<Rightarrow> scope store_op" where
  "open_scope s = act_lift (clone_scope s)"

end
