(* ===== verification/EventLog.thy ===== *)
theory EventLog
  imports EventStore
begin

text \<open>
  The event log of the in-memory store: keys of different scopes, kinds and identifiers never
  collide, every reachable store is a well-formed log (numbered streams, one event per
  identifier, nothing after a terminal event), and calls only ever append to it.
\<close>

section \<open>Keys\<close>

lemma scope_eq_iff: "(s :: scope) = s' \<longleftrightarrow> sc_workspace s = sc_workspace s' \<and> sc_channel s = sc_channel s'"
  by (cases s; cases s') auto

lemma scoped_key_inj [simp]:
  "scoped_key h s k i = scoped_key h s' k' i' \<longleftrightarrow> s = s' \<and> k = k' \<and> i = i'"
  unfolding scoped_key_def js_strings_def stable_json_strings_inj by (auto simp: scope_eq_iff)

lemma pair_key_inj [simp]:
  "stable_json h (js_strings [a, b]) = stable_json h (js_strings [a', b']) \<longleftrightarrow> a = a' \<and> b = b'"
  unfolding js_strings_def stable_json_strings_inj by auto

lemma scoped_key_text:
  "scoped_key h s k i = ''['' @ json_quote (sc_workspace s) @ '','' @ json_quote (sc_channel s) @ '','' @ json_quote k
     @ '','' @ json_quote i @ '']''"
  by (simp add: scoped_key_def js_strings_def)

lemma scoped_prefix_text:
  "scoped_prefix h s k = ''['' @ json_quote (sc_workspace s) @ '','' @ json_quote (sc_channel s) @ '','' @ json_quote k"
proof -
  have "stable_json h (js_strings [sc_workspace s, sc_channel s, k]) =
      (''['' @ json_quote (sc_workspace s) @ '','' @ json_quote (sc_channel s) @ '','' @ json_quote k) @ '']''"
    by (simp add: js_strings_def)
  then show ?thesis unfolding scoped_prefix_def by (simp add: butlast_append)
qed

lemma scoped_prefix_iff [simp]:
  "starts_with (scoped_key h s k i) (scoped_prefix h s' k') \<longleftrightarrow> s = s' \<and> k = k'"
proof
  assume "starts_with (scoped_key h s k i) (scoped_prefix h s' k')"
  then obtain r where eq: "json_quote (sc_workspace s) @ '','' @ json_quote (sc_channel s) @ '','' @ json_quote k @ '','' @ json_quote i @ '']''
      = json_quote (sc_workspace s') @ '','' @ json_quote (sc_channel s') @ '','' @ json_quote k' @ r"
    unfolding starts_with_iff scoped_key_text scoped_prefix_text by auto
  from json_quote_inj [OF eq] have w: "sc_workspace s = sc_workspace s'" and
    eq: "json_quote (sc_channel s) @ '','' @ json_quote k @ '','' @ json_quote i @ '']'' = json_quote (sc_channel s') @ '','' @ json_quote k' @ r"
    by auto
  from json_quote_inj [OF eq] have c: "sc_channel s = sc_channel s'" and
    eq: "json_quote k @ '','' @ json_quote i @ '']'' = json_quote k' @ r"
    by auto
  from json_quote_inj [OF eq] w c show "s = s' \<and> k = k'" by (auto simp: scope_eq_iff)
next
  assume "s = s' \<and> k = k'"
  then show "starts_with (scoped_key h s k i) (scoped_prefix h s' k')"
    unfolding starts_with_iff scoped_key_text scoped_prefix_text by auto
qed

section \<open>The event log\<close>

lemma clone_event_iff: "clone_event h e = Inr e' \<longleftrightarrow> e' = e \<and> event_ok h e"
  by (simp add: clone_event_def parse_canonical_event_js)

lemma clone_event_run: "event_ok h e \<Longrightarrow> clone_event h e = Inr e"
  by (simp add: clone_event_iff)

lemma r_map_run: "(\<And>x. x \<in> set xs \<Longrightarrow> f x = Inr x) \<Longrightarrow> r_map f xs = Inr xs"
  by (induction xs) auto

definition log_ok :: "host \<Rightarrow> store \<Rightarrow> bool" where
  "log_ok h st \<longleftrightarrow>
     (\<forall>s stream i. i < length (stream_events h s stream st) \<longrightarrow>
        (let e = stream_events h s stream st ! i in
         event_ok h e \<and> ev_scope e = s \<and> ev_stream e = stream \<and> ev_seq e = int i
         \<and> stored_event h s (ev_id e) st = Some e
         \<and> (Suc i < length (stream_events h s stream st) \<longrightarrow> \<not> is_terminal_event (ev_type e))))
     \<and> (\<forall>s i e. stored_event h s i st = Some e \<longrightarrow>
         ev_id e = i \<and> ev_scope e = s \<and> e \<in> set (stream_events h s (ev_stream e) st))"

lemma log_ok_nth:
  assumes "log_ok h st" "i < length (stream_events h s stream st)"
  shows "event_ok h (stream_events h s stream st ! i)" "ev_scope (stream_events h s stream st ! i) = s"
    "ev_stream (stream_events h s stream st ! i) = stream" "ev_seq (stream_events h s stream st ! i) = int i"
    "stored_event h s (ev_id (stream_events h s stream st ! i)) st = Some (stream_events h s stream st ! i)"
    "Suc i < length (stream_events h s stream st) \<Longrightarrow> \<not> is_terminal_event (ev_type (stream_events h s stream st ! i))"
  using assms unfolding log_ok_def by (auto simp: Let_def)

lemma log_ok_stored:
  "log_ok h st \<Longrightarrow> stored_event h s i st = Some e \<Longrightarrow>
   ev_id e = i \<and> ev_scope e = s \<and> e \<in> set (stream_events h s (ev_stream e) st)"
  unfolding log_ok_def by blast

lemma log_ok_in:
  "log_ok h st \<Longrightarrow> e \<in> set (stream_events h s stream st) \<Longrightarrow>
   event_ok h e \<and> ev_scope e = s \<and> ev_stream e = stream \<and> stored_event h s (ev_id e) st = Some e"
  by (auto simp: in_set_conv_nth log_ok_nth)

lemma stream_events_push [simp]:
  "stream_events h s' stream (push_event h s e st) =
     (if s' = s \<and> stream = ev_stream e then stream_events h s (ev_stream e) st @ [e] else stream_events h s' stream st)"
  by (simp add: stream_events_def push_event_def)

lemma stored_event_push [simp]:
  "stored_event h s' i (push_event h s e st) = (if s' = s \<and> i = ev_id e then Some e else stored_event h s' i st)"
  by (simp add: stored_event_def push_event_def)

lemma log_ok_push:
  assumes ok: "log_ok h st" and e: "event_ok h e" "ev_scope e = s"
    and seq: "ev_seq e = int (length (stream_events h s (ev_stream e) st))"
    and new: "stored_event h s (ev_id e) st = None"
    and unsealed: "\<not> list_ex (\<lambda>x. is_terminal_event (ev_type x)) (stream_events h s (ev_stream e) st)"
  shows "log_ok h (push_event h s e st)"
proof -
  let ?st = "push_event h s e st"
  have other: "ev_id x \<noteq> ev_id e" if "x \<in> set (stream_events h s stream st)" for x stream
    using log_ok_in [OF ok that] new by auto
  have "let x = stream_events h s' stream ?st ! i in
      event_ok h x \<and> ev_scope x = s' \<and> ev_stream x = stream \<and> ev_seq x = int i \<and> stored_event h s' (ev_id x) ?st = Some x
      \<and> (Suc i < length (stream_events h s' stream ?st) \<longrightarrow> \<not> is_terminal_event (ev_type x))"
    if i: "i < length (stream_events h s' stream ?st)" for s' stream i
  proof (cases "i < length (stream_events h s' stream st)")
    case True
    then have "s' = s \<longrightarrow> ev_id (stream_events h s' stream st ! i) \<noteq> ev_id e" using other nth_mem by blast
    with True unsealed log_ok_nth [OF ok True] show ?thesis
      by (auto simp: Let_def nth_append list_ex_iff)
  next
    case False
    with i e seq show ?thesis by (auto simp: Let_def nth_append split: if_splits)
  qed
  moreover have "ev_id x = i \<and> ev_scope x = s' \<and> x \<in> set (stream_events h s' (ev_stream x) ?st)"
    if "stored_event h s' i ?st = Some x" for s' i x
    using that e log_ok_stored [OF ok, of s' i x] by (auto split: if_splits)
  ultimately show ?thesis unfolding log_ok_def by blast
qed

lemma log_ok_empty: "log_ok h empty_store"
  by (simp add: log_ok_def stream_events_def stored_event_def empty_store_def)

text \<open>What appending does.\<close>

lemma append_event_cases:
  assumes "append_event h s e st = (r, st')"
  shows "st' = st \<or> (r = Inr () \<and> st' = push_event h s e st \<and> event_ok h e \<and> ev_scope e = s
    \<and> stored_event h s (ev_id e) st = None \<and> ev_seq e = int (length (stream_events h s (ev_stream e) st))
    \<and> \<not> list_ex (\<lambda>x. is_terminal_event (ev_type x)) (stream_events h s (ev_stream e) st))"
  using assms unfolding append_event_def
  by (cases "clone_event h e")
    (auto simp: act_bind_def act_lift_def clone_event_iff Let_def split: option.splits if_splits)

lemma same_seq [simp]: "ev_seq e = n \<Longrightarrow> e\<lparr>ev_seq := n\<rparr> = e"
  by (cases e) simp

lemma append_idempotent_cases:
  assumes "append_idempotent h s e st = (r, st')"
  shows "st' = st \<and> r \<noteq> Inr True \<or> (r = Inr True \<and> event_ok h e \<and> ev_scope e = s
    \<and> st' = push_event h s (e\<lparr>ev_seq := int (length (stream_events h s (ev_stream e) st))\<rparr>) st
    \<and> stored_event h s (ev_id e) st = None
    \<and> \<not> list_ex (\<lambda>x. is_terminal_event (ev_type x)) (stream_events h s (ev_stream e) st))"
  using assms unfolding append_idempotent_def
  by (cases "clone_event h e")
    (auto simp: act_bind_def act_lift_def clone_event_iff Let_def split: option.splits if_splits)

lemma append_event_log_ok: "log_ok h st \<Longrightarrow> append_event h s e st = (r, st') \<Longrightarrow> log_ok h st'"
  by (drule append_event_cases) (auto intro: log_ok_push)

definition array_room :: "host \<Rightarrow> store \<Rightarrow> bool" where
  "array_room h st \<longleftrightarrow> (\<forall>s stream. length (stream_events h s stream st) < 4294967295)"

lemma append_idempotent_log_ok:
  assumes ok: "log_ok h st" and room: "array_room h st" and a: "append_idempotent h s e st = (r, st')"
  shows "log_ok h st'"
  using append_idempotent_cases [OF a]
proof (elim disjE conjE)
  let ?n = "length (stream_events h s (ev_stream e) st)"
  assume e: "event_ok h e" "ev_scope e = s" "stored_event h s (ev_id e) st = None"
    "\<not> list_ex (\<lambda>x. is_terminal_event (ev_type x)) (stream_events h s (ev_stream e) st)"
    and st': "st' = push_event h s (e\<lparr>ev_seq := int ?n\<rparr>) st"
  have "?n < 4294967295" using room by (simp add: array_room_def)
  then have "event_ok h (e\<lparr>ev_seq := int ?n\<rparr>)" using e(1) by (simp add: event_ok_def max_safe_def)
  with e show ?thesis unfolding st' by (intro log_ok_push [OF ok]) simp_all
qed (use ok in simp)

lemma read_events_run:
  assumes "log_ok h st"
  shows "read_events h s stream after st =
    (Inr (filter (\<lambda>e. case after of None \<Rightarrow> True | Some n \<Rightarrow> n < ev_seq e) (stream_events h s stream st)), st)"
  using log_ok_in [OF assms] unfolding read_events_def by (auto intro!: r_map_run clone_event_run)

section \<open>Calls and reachable stores\<close>

text \<open>
  The calls that change a store. Clients of any number of scopes are free to interleave them:
  a run of the system is a sequence of calls.
\<close>

datatype store_call =
    CallAppend canonical_event
  | CallAppendIdempotent canonical_event
  | CallClaimStart start_run
  | CallClaimSession channel_session
  | CallCommitProjection projection_commit
  | CallCreateSchedule schedule
  | CallCancelSchedule string
  | CallClaimOccurrence occurrence
  | CallSkipOccurrence occurrence
  | CallClaimRecovery int occurrence string
  | CallRenewRecovery int occurrence string
  | CallClaimExecution int occurrence string
  | CallRecordNotification notification
  | CallRegisterTrigger schedule_trigger

fun run_call :: "host \<Rightarrow> scope \<Rightarrow> store_call \<Rightarrow> store \<Rightarrow> store" where
  "run_call h s (CallAppend e) st = snd (append_event h s e st)"
| "run_call h s (CallAppendIdempotent e) st = snd (append_idempotent h s e st)"
| "run_call h s (CallClaimStart c) st = snd (claim_start h s c st)"
| "run_call h s (CallClaimSession c) st = snd (claim_channel_session h s c st)"
| "run_call h s (CallCommitProjection c) st = snd (commit_projection h s c st)"
| "run_call h s (CallCreateSchedule c) st = snd (create_schedule h s c st)"
| "run_call h s (CallCancelSchedule i) st = snd (cancel_schedule h s i st)"
| "run_call h s (CallClaimOccurrence c) st = snd (claim_occurrence h s c st)"
| "run_call h s (CallSkipOccurrence c) st = snd (skip_occurrence h s c st)"
| "run_call h s (CallClaimRecovery t c w) st = snd (claim_recovery h s t c w st)"
| "run_call h s (CallRenewRecovery t c w) st = snd (renew_recovery h s t c w st)"
| "run_call h s (CallClaimExecution t c w) st = snd (claim_execution h s t c w st)"
| "run_call h s (CallRecordNotification n) st = snd (record_notification h s n st)"
| "run_call h s (CallRegisterTrigger t) st = snd (register_trigger h s t st)"

text \<open>A JavaScript array holds fewer than \<open>2^32\<close> elements; a call needs room in the streams.\<close>

inductive store_steps :: "host \<Rightarrow> store \<Rightarrow> store \<Rightarrow> bool" for h where
  start: "store_steps h st st"
| step: "store_steps h st st' \<Longrightarrow> array_room h st' \<Longrightarrow> store_steps h st (run_call h s c st')"

definition reachable_store :: "host \<Rightarrow> store \<Rightarrow> bool" where
  "reachable_store h st = store_steps h empty_store st"

inductive_cases store_stepsE: "store_steps h st st'"

lemma store_steps_trans: "store_steps h b c \<Longrightarrow> store_steps h a b \<Longrightarrow> store_steps h a c"
  by (induction rule: store_steps.induct) (auto intro: store_steps.intros)

lemma reachable_steps: "reachable_store h st \<Longrightarrow> store_steps h st st' \<Longrightarrow> reachable_store h st'"
  unfolding reachable_store_def by (rule store_steps_trans)

lemma reachable_call: "reachable_store h st \<Longrightarrow> array_room h st \<Longrightarrow> reachable_store h (run_call h s c st)"
  unfolding reachable_store_def by (rule store_steps.step)

text \<open>Rule induction, packaged: a property of the empty store that every call keeps.\<close>

lemma reachable_invariant:
  assumes "reachable_store h st" and "P empty_store"
    and "\<And>st s c. P st \<Longrightarrow> array_room h st \<Longrightarrow> P (run_call h s c st)"
  shows "P st"
proof -
  have "store_steps h a b \<Longrightarrow> P a \<Longrightarrow> P b" for a b
    by (induction rule: store_steps.induct) (auto intro: assms(3))
  then show ?thesis using assms(1,2) unfolding reachable_store_def by blast
qed

named_theorems op_defs \<open>the operations of the scoped store\<close>

lemmas [op_defs] = claim_start_def claim_channel_session_def commit_projection_def create_schedule_def
  cancel_schedule_def claim_occurrence_def skip_occurrence_def claim_recovery_def renew_recovery_def
  claim_execution_def record_notification_def register_trigger_def record_occurrence_def
  act_bind_def act_lift_def Let_def

lemma snd_case_res:
  "snd (case r of Inl e \<Rightarrow> f e | Inr a \<Rightarrow> g a) = (case r of Inl e \<Rightarrow> snd (f e) | Inr a \<Rightarrow> snd (g a))"
  "snd (case x of None \<Rightarrow> u | Some a \<Rightarrow> v a) = (case x of None \<Rightarrow> snd u | Some a \<Rightarrow> snd (v a))"
  by (auto split: sum.splits option.splits)

fun log_call :: "store_call \<Rightarrow> bool" where
  "log_call (CallAppend _) = True"
| "log_call (CallAppendIdempotent _) = True"
| "log_call _ = False"

lemma frame_log:
  "\<not> log_call c \<Longrightarrow> st_streams (run_call h s c st) = st_streams st \<and> st_events (run_call h s c st) = st_events st"
  by (cases c) (auto simp: op_defs split: sum.splits option.splits)
end
