(* ===== verification/StoreInvariants.thy ===== *)
theory StoreInvariants
  imports EventLog
begin

text \<open>
  Invariants of every reachable store and the effects of single calls: the log invariant, what
  one call does to a stream, the case analysis of every operation (\<open>call_cases\<close>), the part of
  the store a scope can observe (\<open>same_scope\<close>), and the command table.
\<close>

section \<open>The log\<close>

lemma reachable_log_ok: "reachable_store h st \<Longrightarrow> log_ok h st"
proof (erule reachable_invariant)
  show "log_ok h empty_store" by (rule log_ok_empty)
  fix st s c assume ok: "log_ok h st" and room: "array_room h st"
  show "log_ok h (run_call h s c st)"
  proof (cases "log_call c")
    case True
    then show ?thesis
      using append_event_log_ok [OF ok surjective_pairing] append_idempotent_log_ok [OF ok room surjective_pairing]
      by (cases c) simp_all
  next
    case False
    from frame_log [OF this, of h s st] ok show ?thesis
      by (simp add: log_ok_def stream_events_def stored_event_def)
  qed
qed

text \<open>One call: streams other than the one appended to are untouched, and a sealed stream too.\<close>

lemma run_call_stream:
  assumes ok: "log_ok h st"
  shows "stream_events h s' stream (run_call h s c st) = stream_events h s' stream st
    \<or> (\<exists>e. stream_events h s' stream (run_call h s c st) = stream_events h s' stream st @ [e]
      \<and> s' = s \<and> log_call c \<and> (\<forall>x \<in> set (stream_events h s' stream st). \<not> is_terminal_event (ev_type x)))"
proof (cases "log_call c")
  case False
  from frame_log [OF this, of h s st] show ?thesis by (simp add: stream_events_def)
next
  case True
  then consider e where "c = CallAppend e" | e where "c = CallAppendIdempotent e" by (cases c) auto
  then show ?thesis
  proof cases
    case 1
    from append_event_cases [OF surjective_pairing, of h s e st] 1 show ?thesis by (auto simp: list_ex_iff split: if_splits)
  next
    case 2
    from append_idempotent_cases [OF surjective_pairing, of h s e st] 2 show ?thesis by (auto simp: list_ex_iff split: if_splits)
  qed
qed

definition sealed :: "canonical_event list \<Rightarrow> bool" where
  "sealed es \<longleftrightarrow> (\<exists>e \<in> set es. is_terminal_event (ev_type e))"

lemma steps_stream:
  assumes "store_steps h st st'" and "reachable_store h st"
  shows "\<exists>new. stream_events h s stream st' = stream_events h s stream st @ new \<and> (sealed (stream_events h s stream st) \<longrightarrow> new = [])"
  using assms
proof (induction rule: store_steps.induct)
  case (step st st' s' c)
  then obtain new where new: "stream_events h s stream st' = stream_events h s stream st @ new"
      "sealed (stream_events h s stream st) \<longrightarrow> new = []" by blast
  have ok: "log_ok h st'" using step.hyps step.prems by (blast intro: reachable_log_ok reachable_steps)
  show ?case
    using run_call_stream [OF ok, of s stream s' c] new by (auto simp: sealed_def)
qed simp

lemma canon_event_js:
  "canon (event_js e) = canon (event_js e') \<longleftrightarrow>
     ev_id e = ev_id e' \<and> ev_scope e = ev_scope e' \<and> ev_stream e = ev_stream e' \<and> ev_seq e = ev_seq e'
     \<and> ev_type e = ev_type e' \<and> ev_timestamp e = ev_timestamp e' \<and> ev_schema_version e = ev_schema_version e'
     \<and> canon (ev_payload e) = canon (ev_payload e')"
  by (auto simp: event_js_def scope_fields_def scope_eq_iff)

lemma is_json_event: "event_ok h e \<Longrightarrow> is_json (event_js e)"
  by (auto simp: event_ok_def event_js_def scope_fields_def)

section \<open>Isolation of scopes\<close>

lemma js_set_filter: "\<not> P k \<Longrightarrow> filter (\<lambda>kv. P (fst kv)) (js_set k v m) = filter (\<lambda>kv. P (fst kv)) m"
  by (induction m) auto

lemma scoped_values_set [simp]:
  "s \<noteq> s' \<or> kind \<noteq> kind' \<Longrightarrow> scoped_values h s' kind' (js_set (scoped_key h s kind i) v m) = scoped_values h s' kind' m"
  unfolding scoped_values_def by (subst js_set_filter [where P = "\<lambda>k. starts_with k (scoped_prefix h s' kind')"]) auto

definition same_scope :: "host \<Rightarrow> scope \<Rightarrow> store \<Rightarrow> store \<Rightarrow> bool" where
  "same_scope h s st st' \<longleftrightarrow>
     (\<forall>kind i. map_of (st_streams st') (scoped_key h s kind i) = map_of (st_streams st) (scoped_key h s kind i)
        \<and> map_of (st_events st') (scoped_key h s kind i) = map_of (st_events st) (scoped_key h s kind i)
        \<and> map_of (st_commands st') (scoped_key h s kind i) = map_of (st_commands st) (scoped_key h s kind i)
        \<and> map_of (st_sessions st') (scoped_key h s kind i) = map_of (st_sessions st) (scoped_key h s kind i)
        \<and> map_of (st_projections st') (scoped_key h s kind i) = map_of (st_projections st) (scoped_key h s kind i)
        \<and> (scoped_key h s kind i \<in> set (st_receipts st') \<longleftrightarrow> scoped_key h s kind i \<in> set (st_receipts st))
        \<and> map_of (st_schedules st') (scoped_key h s kind i) = map_of (st_schedules st) (scoped_key h s kind i)
        \<and> map_of (st_occurrences st') (scoped_key h s kind i) = map_of (st_occurrences st) (scoped_key h s kind i)
        \<and> map_of (st_claims st') (scoped_key h s kind i) = map_of (st_claims st) (scoped_key h s kind i)
        \<and> map_of (st_leases st') (scoped_key h s kind i) = map_of (st_leases st) (scoped_key h s kind i)
        \<and> map_of (st_notifications st') (scoped_key h s kind i) = map_of (st_notifications st) (scoped_key h s kind i)
        \<and> map_of (st_triggers st') (scoped_key h s kind i) = map_of (st_triggers st) (scoped_key h s kind i))
     \<and> (\<forall>kind. scoped_values h s kind (st_commands st') = scoped_values h s kind (st_commands st)
        \<and> scoped_values h s kind (st_schedules st') = scoped_values h s kind (st_schedules st)
        \<and> scoped_values h s kind (st_occurrences st') = scoped_values h s kind (st_occurrences st)
        \<and> scoped_values h s kind (st_notifications st') = scoped_values h s kind (st_notifications st))"

lemma same_scope_refl [simp]: "same_scope h s st st"
  by (simp add: same_scope_def)

text \<open>The updates a call can make.\<close>

lemma claim_start_cases:
  "claim_start h s c st = (r, st') \<Longrightarrow>
   st' = st \<or> (\<exists>c'. clone_start_run h c = Inr c' \<and> rf_scope (sr_fields c') = s
     \<and> map_of (st_commands st) (scoped_key h s ''command'' (sr_command_id c')) = None
     \<and> map_of (st_commands st) (scoped_key h s ''run'' (sr_run_id c')) = None
     \<and> r = clone_start_run h c'
     \<and> st' = st\<lparr>st_commands := js_set (scoped_key h s ''run'' (sr_run_id c')) c'
         (js_set (scoped_key h s ''command'' (sr_command_id c')) c' (st_commands st))\<rparr>)"
  unfolding claim_start_def Let_def
  by (auto simp: act_bind_def act_lift_def split: sum.splits option.splits if_splits)

lemma claim_session_cases:
  "claim_channel_session h s c st = (r, st') \<Longrightarrow>
   st' = st \<or> (\<exists>c'. st' = st\<lparr>st_sessions := js_set (scoped_key h s ''channel-session'' []) c' (st_sessions st)\<rparr>)"
  unfolding claim_channel_session_def Let_def
  by (auto simp: act_bind_def act_lift_def split: sum.splits option.splits if_splits)

lemma commit_projection_cases:
  "commit_projection h s c st = (r, st') \<Longrightarrow>
   st' = st \<and> (\<forall>p. r \<noteq> Inr (p, True)) \<or> (\<exists>p e. stored_event h s (pc_event_id c) st = Some e \<and> ev_stream e = pc_stream c \<and> ev_seq e = pc_event_seq c
     \<and> receipt_key h s (pc_projector c) (pc_stream c) (pc_event_id c) \<notin> set (st_receipts st)
     \<and> (case map_of (st_projections st) (projection_key h s (pc_projector c) (pc_stream c)) of None \<Rightarrow> 0 | Some q \<Rightarrow> ps_version q)
         = pc_expected_version c
     \<and> is_json (pc_state c) \<and> p = \<lparr>ps_state = pc_state c, ps_version = pc_expected_version c + 1, ps_last_seq = pc_event_seq c\<rparr>
     \<and> r = Inr (p, True)
     \<and> st' = st\<lparr>st_projections := js_set (projection_key h s (pc_projector c) (pc_stream c)) p (st_projections st),
          st_receipts := st_receipts st @ [receipt_key h s (pc_projector c) (pc_stream c) (pc_event_id c)]\<rparr>)"
  unfolding commit_projection_def Let_def
  by (auto simp: clone_projection_result_def clone_projection_def parse_json_value_iff res_simps
      split: sum.splits option.splits if_splits elim!: r_bindE)

lemma create_schedule_cases:
  "create_schedule h s c st = (r, st') \<Longrightarrow>
   st' = st \<or> (\<exists>c'. st' = st\<lparr>st_schedules := js_set (scoped_key h s ''schedule'' (sd_id c')) c' (st_schedules st)\<rparr>)"
  unfolding create_schedule_def Let_def
  by (auto simp: act_bind_def act_lift_def split: sum.splits option.splits if_splits)

lemma cancel_schedule_cases:
  "cancel_schedule h s i st = (r, st') \<Longrightarrow>
   st' = st \<or> (\<exists>c'. st' = st\<lparr>st_schedules := js_set (scoped_key h s ''schedule'' i) c' (st_schedules st)\<rparr>)"
  unfolding cancel_schedule_def Let_def by (auto split: sum.splits option.splits if_splits)

lemma claim_occurrence_cases:
  "claim_occurrence h s c st = (r, st') \<Longrightarrow>
   st' = st \<and> (\<forall>o'. r \<noteq> Inr (Claimed o')) \<or> (\<exists>c'. clone_occurrence h c = Inr c' \<and> oc_scope c' = s \<and> schedule_active h s (oc_schedule_id c') st
     \<and> map_of (st_claims st) (claim_key h s c') = None
     \<and> map_of (st_occurrences st) (scoped_key h s ''schedule-occurrence'' (oc_id c')) = None
     \<and> (\<forall>x \<in> set (scoped_values h s ''schedule-occurrence'' (st_occurrences st)). oc_run_id x \<noteq> oc_run_id c' \<and> oc_command_id x \<noteq> oc_command_id c')
     \<and> r = r_bind (clone_occurrence h c') (\<lambda>c. Inr (Claimed c))
     \<and> st' = record_occurrence h s c' st)"
  unfolding claim_occurrence_def
  by (auto simp: act_bind_def act_lift_def list_ex_iff split: sum.splits option.splits if_splits elim!: r_bindE)

lemma skip_occurrence_cases:
  "skip_occurrence h s c st = (r, st') \<Longrightarrow>
   st' = st \<and> r \<noteq> Inr True \<or> (\<exists>c'. clone_occurrence h (c\<lparr>oc_status := Some ''skipped''\<rparr>) = Inr c' \<and> oc_scope c' = s
     \<and> schedule_active h s (oc_schedule_id c') st
     \<and> map_of (st_claims st) (claim_key h s c') = None
     \<and> map_of (st_occurrences st) (scoped_key h s ''schedule-occurrence'' (oc_id c')) = None
     \<and> r = Inr True \<and> st' = record_occurrence h s c' st)"
  unfolding skip_occurrence_def
  by (auto simp: act_bind_def act_lift_def split: sum.splits option.splits if_splits)

lemma claim_recovery_cases:
  "claim_recovery h s t c w st = (r, st') \<Longrightarrow>
   st' = st \<and> r \<noteq> Inr True \<or> (\<exists>c'. clone_occurrence h c = Inr c' \<and> oc_scope c' = s
     \<and> (\<forall>l. map_of (st_leases st) (lease_key h s c') = Some l \<longrightarrow> 60000 \<le> t - le_claimed_at l) \<and> r = Inr True
     \<and> st' = st\<lparr>st_leases := js_set (lease_key h s c') \<lparr>le_claimed_at = t, le_owner = w\<rparr> (st_leases st)\<rparr>)"
  unfolding claim_recovery_def
  by (auto simp: act_bind_def act_lift_def split: sum.splits option.splits if_splits)

lemma renew_recovery_cases:
  "renew_recovery h s t c w st = (r, st') \<Longrightarrow>
   st' = st \<and> r \<noteq> Inr True \<or> (\<exists>c' l. clone_occurrence h c = Inr c' \<and> oc_scope c' = s
     \<and> map_of (st_leases st) (lease_key h s c') = Some l \<and> le_owner l = w \<and> r = Inr True
     \<and> st' = st\<lparr>st_leases := js_set (lease_key h s c') \<lparr>le_claimed_at = t, le_owner = w\<rparr> (st_leases st)\<rparr>)"
  unfolding renew_recovery_def
  by (auto simp: act_bind_def act_lift_def split: sum.splits option.splits if_splits)

lemma claim_execution_cases:
  "claim_execution h s t c w st = (r, st') \<Longrightarrow>
   st' = st \<and> r \<noteq> Inr True \<or> (\<exists>c' l x x'. clone_occurrence h c = Inr c' \<and> oc_scope c' = s
     \<and> map_of (st_leases st) (lease_key h s c') = Some l \<and> le_owner l = w \<and> t - le_claimed_at l < 60000
     \<and> map_of (st_occurrences st) (scoped_key h s ''schedule-occurrence'' (oc_id c')) = Some x
     \<and> oc_status x \<noteq> Some ''started'' \<and> oc_status x \<noteq> Some ''skipped''
     \<and> clone_occurrence h (x\<lparr>oc_status := Some ''started''\<rparr>) = Inr x' \<and> r = Inr True
     \<and> st' = st\<lparr>st_occurrences := js_set (scoped_key h s ''schedule-occurrence'' (oc_id c')) x' (st_occurrences st)\<rparr>)"
  unfolding claim_execution_def Let_def
  by (auto simp: act_bind_def act_lift_def not_le split: sum.splits option.splits if_splits)

lemma record_notification_cases:
  "record_notification h s n st = (r, st') \<Longrightarrow>
   st' = st \<or> (\<exists>n'. clone_notification h n = Inr n' \<and> nt_scope n' = s
     \<and> map_of (st_notifications st) (scoped_key h s ''schedule-notification'' (nt_id n')) = None
     \<and> (\<forall>x \<in> set (scoped_values h s ''schedule-notification'' (st_notifications st)). nt_occurrence_id x \<noteq> nt_occurrence_id n')
     \<and> st' = st\<lparr>st_notifications := js_set (scoped_key h s ''schedule-notification'' (nt_id n')) n' (st_notifications st)\<rparr>)"
  unfolding record_notification_def Let_def
  by (auto simp: act_bind_def act_lift_def find_None_iff split: sum.splits option.splits if_splits)

lemmas call_cases = append_event_cases append_idempotent_cases claim_start_cases claim_session_cases
  commit_projection_cases create_schedule_cases cancel_schedule_cases claim_occurrence_cases skip_occurrence_cases
  claim_recovery_cases renew_recovery_cases claim_execution_cases record_notification_cases

lemma same_scope_updates:
  assumes "s \<noteq> s'"
  shows "same_scope h s' st (push_event h s e st)"
    and "same_scope h s' st (st\<lparr>st_commands := js_set (scoped_key h s k i) c (js_set (scoped_key h s k' i') c (st_commands st))\<rparr>)"
    and "same_scope h s' st (st\<lparr>st_sessions := js_set (scoped_key h s k i) ss (st_sessions st)\<rparr>)"
    and "same_scope h s' st (st\<lparr>st_projections := js_set (scoped_key h s k i) p (st_projections st),
          st_receipts := st_receipts st @ [scoped_key h s k' i']\<rparr>)"
    and "same_scope h s' st (st\<lparr>st_schedules := js_set (scoped_key h s k i) sd (st_schedules st)\<rparr>)"
    and "same_scope h s' st (record_occurrence h s oc st)"
    and "same_scope h s' st (st\<lparr>st_leases := js_set (scoped_key h s k i) l (st_leases st)\<rparr>)"
    and "same_scope h s' st (st\<lparr>st_occurrences := js_set (scoped_key h s k i) oc (st_occurrences st)\<rparr>)"
    and "same_scope h s' st (st\<lparr>st_notifications := js_set (scoped_key h s k i) n (st_notifications st)\<rparr>)"
    and "same_scope h s' st (st\<lparr>st_triggers := js_set (scoped_key h s k i) t (st_triggers st)\<rparr>)"
  using assms by (simp_all add: same_scope_def push_event_def record_occurrence_def claim_key_def)

lemma run_call_other_scope:
  assumes "s \<noteq> s'"
  shows "same_scope h s' st (run_call h s c st)"
proof -
  note same = same_scope_updates [OF assms, of h st] and defs = projection_key_def receipt_key_def lease_key_def
  show ?thesis
  proof (cases c)
    case (CallAppend e)
    from append_event_cases [OF surjective_pairing, of h s e st] same show ?thesis unfolding CallAppend run_call.simps defs by force
  next
    case (CallAppendIdempotent e)
    from append_idempotent_cases [OF surjective_pairing, of h s e st] same show ?thesis unfolding CallAppendIdempotent run_call.simps defs by force
  next
    case (CallClaimStart e)
    from claim_start_cases [OF surjective_pairing, of h s e st] same show ?thesis unfolding CallClaimStart run_call.simps defs by force
  next
    case (CallClaimSession e)
    from claim_session_cases [OF surjective_pairing, of h s e st] same show ?thesis unfolding CallClaimSession run_call.simps defs by force
  next
    case (CallCommitProjection e)
    from commit_projection_cases [OF surjective_pairing, of h s e st] same show ?thesis unfolding CallCommitProjection run_call.simps defs by force
  next
    case (CallCreateSchedule e)
    from create_schedule_cases [OF surjective_pairing, of h s e st] same show ?thesis unfolding CallCreateSchedule run_call.simps defs by force
  next
    case (CallCancelSchedule e)
    from cancel_schedule_cases [OF surjective_pairing, of h s e st] same show ?thesis unfolding CallCancelSchedule run_call.simps defs by force
  next
    case (CallClaimOccurrence e)
    from claim_occurrence_cases [OF surjective_pairing, of h s e st] same show ?thesis unfolding CallClaimOccurrence run_call.simps defs by force
  next
    case (CallSkipOccurrence e)
    from skip_occurrence_cases [OF surjective_pairing, of h s e st] same show ?thesis unfolding CallSkipOccurrence run_call.simps defs by force
  next
    case (CallClaimRecovery t e w)
    from claim_recovery_cases [OF surjective_pairing, of h s t e w st] same show ?thesis unfolding CallClaimRecovery run_call.simps defs by force
  next
    case (CallRenewRecovery t e w)
    from renew_recovery_cases [OF surjective_pairing, of h s t e w st] same show ?thesis unfolding CallRenewRecovery run_call.simps defs by force
  next
    case (CallClaimExecution t e w)
    from claim_execution_cases [OF surjective_pairing, of h s t e w st] same show ?thesis unfolding CallClaimExecution run_call.simps defs by force
  next
    case (CallRecordNotification e)
    from record_notification_cases [OF surjective_pairing, of h s e st] same show ?thesis unfolding CallRecordNotification run_call.simps defs by force
  next
    case (CallRegisterTrigger t)
    with same show ?thesis by (simp add: register_trigger_def trigger_key_def)
  qed
qed
section \<open>Commands\<close>

definition commands_ok :: "host \<Rightarrow> store \<Rightarrow> bool" where
  "commands_ok h st \<longleftrightarrow>
     (\<forall>key c. map_of (st_commands st) key = Some c \<longrightarrow>
        (let s = rf_scope (sr_fields c) in
         clone_start_run h c = Inr c
         \<and> map_of (st_commands st) (scoped_key h s ''command'' (sr_command_id c)) = Some c
         \<and> map_of (st_commands st) (scoped_key h s ''run'' (sr_run_id c)) = Some c
         \<and> (key = scoped_key h s ''command'' (sr_command_id c) \<or> key = scoped_key h s ''run'' (sr_run_id c))))"

lemma commands_ok_empty: "commands_ok h empty_store"
  by (simp add: commands_ok_def empty_store_def)

lemma clone_start_run_again: "total_preorder (locale_le h) \<Longrightarrow> clone_start_run h c = Inr c' \<Longrightarrow> clone_start_run h c' = Inr c'"
  unfolding clone_start_run_def by (rule parse_start_run_again)

lemma commands_ok_claim:
  assumes le: "total_preorder (locale_le h)" and ok: "commands_ok h st" and c: "claim_start h s c st = (r, st')"
  shows "commands_ok h st'"
  using claim_start_cases [OF c]
proof (elim disjE exE conjE)
  fix c' assume "clone_start_run h c = Inr c'" "rf_scope (sr_fields c') = s"
    "map_of (st_commands st) (scoped_key h s ''command'' (sr_command_id c')) = None"
    "map_of (st_commands st) (scoped_key h s ''run'' (sr_run_id c')) = None"
    "st' = st\<lparr>st_commands := js_set (scoped_key h s ''run'' (sr_run_id c')) c'
         (js_set (scoped_key h s ''command'' (sr_command_id c')) c' (st_commands st))\<rparr>"
  note c' = this
  have old: "clone_start_run h d = Inr d
      \<and> map_of (st_commands st) (scoped_key h (rf_scope (sr_fields d)) ''command'' (sr_command_id d)) = Some d
      \<and> map_of (st_commands st) (scoped_key h (rf_scope (sr_fields d)) ''run'' (sr_run_id d)) = Some d
      \<and> (key = scoped_key h (rf_scope (sr_fields d)) ''command'' (sr_command_id d)
         \<or> key = scoped_key h (rf_scope (sr_fields d)) ''run'' (sr_run_id d))"
    if "map_of (st_commands st) key = Some d" for key d
    using ok that unfolding commands_ok_def Let_def by blast
  have "\<not> (rf_scope (sr_fields d) = s \<and> (sr_command_id d = sr_command_id c' \<or> sr_run_id d = sr_run_id c'))"
    if "map_of (st_commands st) key = Some d" for key d
    using old [OF that] c'(3,4) by auto
  with old c' clone_start_run_again [OF le c'(1)] show ?thesis
    unfolding commands_ok_def Let_def by auto
qed (use ok in simp)

lemma frame_commands:
  "(\<And>x. c \<noteq> CallClaimStart x) \<Longrightarrow> st_commands (run_call h s c st) = st_commands st"
  by (cases c) (auto simp: op_defs append_event_def append_idempotent_def push_event_def split: sum.splits option.splits)

lemma reachable_commands_ok:
  assumes le: "total_preorder (locale_le h)" and "reachable_store h st"
  shows "commands_ok h st"
  using assms(2)
proof (rule reachable_invariant)
  fix st s c assume ok: "commands_ok h st"
  show "commands_ok h (run_call h s c st)"
  proof (cases "\<exists>x. c = CallClaimStart x")
    case True
    then show ?thesis using commands_ok_claim [OF le ok surjective_pairing] by auto
  next
    case False
    then have "st_commands (run_call h s c st) = st_commands st" by (intro frame_commands) blast
    with ok show ?thesis by (simp add: commands_ok_def)
  qed
qed (rule commands_ok_empty)


lemma commands_ok_in:
  "commands_ok h st \<Longrightarrow> map_of (st_commands st) (scoped_key h s ''run'' i) = Some c \<Longrightarrow>
   rf_scope (sr_fields c) = s \<and> sr_run_id c = i \<and> clone_start_run h c = Inr c
   \<and> map_of (st_commands st) (scoped_key h s ''command'' (sr_command_id c)) = Some c"
  "commands_ok h st \<Longrightarrow> map_of (st_commands st) (scoped_key h s ''command'' i) = Some c \<Longrightarrow>
   rf_scope (sr_fields c) = s \<and> sr_command_id c = i \<and> clone_start_run h c = Inr c
   \<and> map_of (st_commands st) (scoped_key h s ''run'' (sr_run_id c)) = Some c"
  unfolding commands_ok_def Let_def by fastforce+

lemma get_run_command_run:
  "commands_ok h st \<Longrightarrow> get_run_command h s i st = (Inr (map_of (st_commands st) (scoped_key h s ''run'' i)), st)"
  by (auto simp: get_run_command_def clone_option_def commands_ok_in split: option.splits)

lemma get_command_run:
  "commands_ok h st \<Longrightarrow> get_command h s i st = (Inr (map_of (st_commands st) (scoped_key h s ''command'' i)), st)"
  by (auto simp: get_command_def clone_option_def commands_ok_in split: option.splits)

lemma steps_commands:
  assumes "store_steps h st st'" "map_of (st_commands st) (scoped_key h s kind i) = Some c"
  shows "map_of (st_commands st') (scoped_key h s kind i) = Some c"
  using assms
proof (induction rule: store_steps.induct)
  case (step st st' s' call)
  show ?case
  proof (cases "\<exists>x. call = CallClaimStart x")
    case True
    then obtain x where x: "call = CallClaimStart x" by blast
    from claim_start_cases [OF surjective_pairing, of h s' x st'] step.IH step.prems show ?thesis
      unfolding x run_call.simps by force
  next
    case False
    then have "st_commands (run_call h s' call st') = st_commands st'" by (intro frame_commands) blast
    with step.IH step.prems show ?thesis by simp
  qed
qed simp

end
