(* ===== verification/StoreLedger.thy ===== *)
theory StoreLedger
  imports StoreInvariants
begin

text \<open>
  What a store accumulates: the runs a command listing holds, the receipts a projection counts,
  and the occurrences of schedules with their claims. The lemmas say what every reachable store
  satisfies and what later calls keep.
\<close>

section \<open>Listing commands\<close>

lemma commands_distinct:
  assumes "reachable_store h st"
  shows "distinct (map fst (st_commands st))"
  using assms
proof (rule reachable_invariant)
  fix st :: store and s c assume d: "distinct (map fst (st_commands st))"
  show "distinct (map fst (st_commands (run_call h s c st)))"
  proof (cases "\<exists>x. c = CallClaimStart x")
    case True
    then obtain x where x: "c = CallClaimStart x" by blast
    from claim_start_cases [OF surjective_pairing, of h s x st] d show ?thesis
      unfolding x run_call.simps by (elim disjE exE conjE) (simp_all add: distinct_js_set)
  next
    case False
    then have "st_commands (run_call h s c st) = st_commands st" by (intro frame_commands) blast
    with d show ?thesis by simp
  qed
qed (simp add: empty_store_def)

lemma commands_by_run_snoc: "commands_by_run (cs @ [c]) = js_set (sr_run_id c) c (commands_by_run cs)"
  by (simp add: commands_by_run_def)

lemma commands_by_run_find: "map_of (commands_by_run cs) i = find (\<lambda>c. sr_run_id c = i) (rev cs)"
proof (induction cs rule: rev_induct)
  case Nil show ?case by (simp add: commands_by_run_def)
next
  case (snoc c cs) then show ?case by (simp add: commands_by_run_snoc)
qed

lemma commands_by_run_distinct: "distinct (map fst (commands_by_run cs))"
proof (induction cs rule: rev_induct)
  case Nil show ?case by (simp add: commands_by_run_def)
next
  case (snoc c cs) then show ?case by (simp add: commands_by_run_snoc distinct_js_set)
qed

lemma commands_by_run_in: "(i, c) \<in> set (commands_by_run cs) \<Longrightarrow> sr_run_id c = i \<and> c \<in> set cs"
  using map_of_is_SomeI [OF commands_by_run_distinct, of i c cs]
  by (auto simp: commands_by_run_find dest!: find_SomeD)

lemma commands_by_run_ids: "fst ` set (commands_by_run cs) = sr_run_id ` set cs"
proof (induction cs rule: rev_induct)
  case Nil show ?case by (simp add: commands_by_run_def)
next
  case (snoc c cs)
  have "fst ` set (js_set k v m) = insert k (fst ` set m)" for k and v :: start_run and m
    by (simp add: dom_map_of_conv_image_fst [symmetric]) (auto simp: dom_def)
  with snoc show ?case by (simp add: commands_by_run_snoc)
qed

text \<open>The runs a listing holds: those claimed in any scope, each once.\<close>

lemma list_run_commands_facts:
  assumes le: "total_preorder (locale_le h)" and st: "reachable_store h st"
  obtains cs where "list_run_commands h s st = (Inr cs, st)" "distinct (map sr_run_id cs)"
    "sorted_wrt (\<lambda>a b. locale_le h (sr_run_id a) (sr_run_id b)) cs"
    "\<And>run. run \<in> sr_run_id ` set cs \<longleftrightarrow> (\<exists>s' c. get_run_command h s' run st = (Inr (Some c), st))"
    "\<And>c. c \<in> set cs \<Longrightarrow> \<exists>s'. get_run_command h s' (sr_run_id c) st = (Inr (Some c), st)"
proof -
  note ok = reachable_commands_ok [OF le st]
  define all where "all = map snd (st_commands st)"
  define cs where "cs = sort_by (\<lambda>a b. locale_le h (sr_run_id a) (sr_run_id b)) (map snd (commands_by_run all))"
  have stored: "get_run_command h (rf_scope (sr_fields c)) (sr_run_id c) st = (Inr (Some c), st) \<and> clone_start_run h c = Inr c"
    if "c \<in> set all" for c
  proof -
    from that obtain key where "(key, c) \<in> set (st_commands st)" by (auto simp: all_def)
    then have "map_of (st_commands st) key = Some c" by (simp add: commands_distinct [OF st])
    then show ?thesis using ok unfolding commands_ok_def Let_def by (simp add: get_run_command_run [OF ok])
  qed
  have set_cs: "set cs = snd ` set (commands_by_run all)" by (simp add: cs_def)
  then have sub: "set cs \<subseteq> set all" by (auto dest: commands_by_run_in)
  have ids: "sr_run_id ` set cs = fst ` set (commands_by_run all)"
    unfolding set_cs by (force dest: commands_by_run_in)
  have "list_run_commands h s st = (Inr cs, st)"
    unfolding list_run_commands_def all_def [symmetric] cs_def [symmetric]
    using sub stored by (auto intro!: r_map_run)
  moreover have "distinct (map sr_run_id cs)"
  proof -
    have "map sr_run_id (map snd (commands_by_run all)) = map fst (commands_by_run all)"
      by (auto dest: commands_by_run_in)
    then have "distinct (map sr_run_id (map snd (commands_by_run all)))" by (simp only: commands_by_run_distinct)
    then show ?thesis unfolding cs_def by (simp only: distinct_map distinct_sort_by set_sort_by)
  qed
  moreover have "sorted_wrt (\<lambda>a b. locale_le h (sr_run_id a) (sr_run_id b)) cs"
    unfolding cs_def by (rule sorted_sort_by [OF total_preorder_on [OF le]])
  moreover have "run \<in> sr_run_id ` set cs \<longleftrightarrow> (\<exists>s' c. get_run_command h s' run st = (Inr (Some c), st))" for run
  proof
    assume "run \<in> sr_run_id ` set cs" then show "\<exists>s' c. get_run_command h s' run st = (Inr (Some c), st)"
      using sub stored by blast
  next
    assume "\<exists>s' c. get_run_command h s' run st = (Inr (Some c), st)"
    then obtain s' c where c: "map_of (st_commands st) (scoped_key h s' ''run'' run) = Some c"
      by (auto simp: get_run_command_run [OF ok])
    then have "c \<in> set all" unfolding all_def by (force dest: map_of_SomeD)
    moreover have "sr_run_id c = run" using commands_ok_in(1) [OF ok c] by blast
    ultimately show "run \<in> sr_run_id ` set cs" unfolding ids commands_by_run_ids by blast
  qed
  moreover have "\<exists>s'. get_run_command h s' (sr_run_id c) st = (Inr (Some c), st)" if "c \<in> set cs" for c
    using that sub stored by blast
  ultimately show thesis by (rule that)
qed

section \<open>Listings and other scopes\<close>

lemma clone_start_run_keeps_id: "clone_start_run h c = Inr c' \<Longrightarrow> sr_run_id c' = sr_run_id c"
  by (auto simp: clone_start_run_def parse_start_run_def start_run_js_def parse_iffs elim!: r_bindE)

lemma listed_ids:
  assumes "fst (list_run_commands h s st) = Inr cs"
  shows "sr_run_id ` set cs = sr_run_id ` snd ` set (st_commands st)"
proof -
  have "list_all2 (\<lambda>c c'. clone_start_run h c = Inr c')
      (sort_by (\<lambda>a b. locale_le h (sr_run_id a) (sr_run_id b)) (map snd (commands_by_run (map snd (st_commands st))))) cs"
    using assms by (simp add: list_run_commands_def r_map_eq_Inr_all2)
  then have "map sr_run_id cs = map sr_run_id (sort_by (\<lambda>a b. locale_le h (sr_run_id a) (sr_run_id b))
      (map snd (commands_by_run (map snd (st_commands st)))))"
    by (induction rule: list_all2_induct) (simp_all add: clone_start_run_keeps_id)
  then have "sr_run_id ` set cs = sr_run_id ` snd ` set (commands_by_run (map snd (st_commands st)))"
    by (metis set_map set_sort_by)
  also have "\<dots> = fst ` set (commands_by_run (map snd (st_commands st)))"
    by (force dest: commands_by_run_in)
  finally show ?thesis by (simp add: commands_by_run_ids)
qed

lemma js_set_append_in:
  "x \<in> set (concat (map snd (js_set k (js_get_or m k [] @ [e]) m))) \<longleftrightarrow> x = e \<or> x \<in> set (concat (map snd m))"
proof (induction m)
  case Nil show ?case by (simp add: js_get_or_def)
next
  case (Cons kv m) then show ?case by (cases kv) (auto simp: js_get_or_def)
qed

lemma run_call_events:
  "{x \<in> set (concat (map snd (st_streams (run_call h s c st)))). ev_scope x = s'} =
   {x \<in> set (concat (map snd (st_streams st))). ev_scope x = s'}" if "s \<noteq> s'"
proof -
  have push: "{x \<in> set (concat (map snd (st_streams (push_event h s e st)))). ev_scope x = s'} =
      {x \<in> set (concat (map snd (st_streams st))). ev_scope x = s'}" if "ev_scope e = s" for e
    using that \<open>s \<noteq> s'\<close> by (auto simp: push_event_def stream_events_def js_set_append_in simp del: set_concat set_map)
  show ?thesis
  proof (cases c)
    case (CallAppend e)
    from append_event_cases [OF surjective_pairing, of h s e st] show ?thesis
      unfolding CallAppend run_call.simps by (elim disjE conjE) (simp_all only: push)
  next
    case (CallAppendIdempotent e)
    from append_idempotent_cases [OF surjective_pairing, of h s e st] show ?thesis
      unfolding CallAppendIdempotent run_call.simps by (elim disjE conjE) (simp_all add: push del: set_concat set_map)
  qed (use frame_log [of c h s st] in simp_all)
qed

lemma js_set_values_in:
  "map_of m k = None \<Longrightarrow> snd ` set (js_set k v m) = insert v (snd ` set m)"
  by (simp add: js_set_new)

lemma run_call_commands:
  "snd ` set (st_commands st) \<subseteq> snd ` set (st_commands (run_call h s c st))
   \<and> (\<forall>y \<in> snd ` set (st_commands (run_call h s c st)) - snd ` set (st_commands st).
        \<exists>x. c = CallClaimStart x \<and> clone_start_run h x = Inr y \<and> rf_scope (sr_fields y) = s)"
proof (cases "\<exists>x. c = CallClaimStart x")
  case True
  then obtain x where x: "c = CallClaimStart x" by blast
  show ?thesis
    using claim_start_cases [OF surjective_pairing, of h s x st] unfolding x run_call.simps
  proof (elim disjE exE conjE)
    fix y assume y: "clone_start_run h x = Inr y" "rf_scope (sr_fields y) = s"
      "map_of (st_commands st) (scoped_key h s ''command'' (sr_command_id y)) = None"
      "map_of (st_commands st) (scoped_key h s ''run'' (sr_run_id y)) = None"
      "snd (claim_start h s x st) = st\<lparr>st_commands := js_set (scoped_key h s ''run'' (sr_run_id y)) y
         (js_set (scoped_key h s ''command'' (sr_command_id y)) y (st_commands st))\<rparr>"
    have "snd ` set (st_commands (snd (claim_start h s x st))) = insert y (snd ` set (st_commands st))"
      using y(3,4) by (simp add: y(5) js_set_values_in)
    with y(1,2) show "snd ` set (st_commands st) \<subseteq> snd ` set (st_commands (snd (claim_start h s x st)))
      \<and> (\<forall>y \<in> snd ` set (st_commands (snd (claim_start h s x st))) - snd ` set (st_commands st).
        \<exists>x'. CallClaimStart x = CallClaimStart x' \<and> clone_start_run h x' = Inr y \<and> rf_scope (sr_fields y) = s)"
      by auto
  qed simp
next
  case False
  then have "st_commands (run_call h s c st) = st_commands st" by (intro frame_commands) blast
  then show ?thesis by simp
qed

lemma listed_streams:
  "fst (list_run_stream_ids h s run st) = Inr ids \<Longrightarrow>
   set ids = sr_run_id ` {c \<in> snd ` set (st_commands st). map_option fst (rf_parent (sr_fields c)) = Some run}
     \<union> ev_stream ` {e \<in> {e \<in> set (concat (map snd (st_streams st))). ev_scope e = s}. belongs_to_run run e}"
  unfolding list_run_stream_ids_def fst_conv sum.inject
  by (drule sym, simp only: set_sort set_js_dedup set_append list.set_map set_filter mem_Collect_eq conj_assoc)

lemma new_members:
  assumes "C \<subseteq> D" and "\<And>y. y \<in> D \<Longrightarrow> y \<notin> C \<Longrightarrow> \<exists>x. R x \<and> S x y"
  shows "f ` {y \<in> C. P y} \<union> E \<subseteq> f ` {y \<in> D. P y} \<union> E
    \<and> (\<forall>i \<in> (f ` {y \<in> D. P y} \<union> E) - (f ` {y \<in> C. P y} \<union> E). \<exists>x y. R x \<and> S x y \<and> f y = i \<and> P y)"
  using assms by blast

text \<open>Two listings ignore the scope they are asked in; what they show of a call in another scope is the run it claims.\<close>

lemma listings_other_scope:
  assumes "s \<noteq> s'"
  shows "fst (list_run_stream_ids h s' run st) = Inr ids \<Longrightarrow> fst (list_run_stream_ids h s' run (run_call h s c st)) = Inr ids' \<Longrightarrow>
      set ids \<subseteq> set ids' \<and> (\<forall>i \<in> set ids' - set ids. \<exists>x y. c = CallClaimStart x \<and> clone_start_run h x = Inr y
         \<and> sr_run_id y = i \<and> map_option fst (rf_parent (sr_fields y)) = Some run)"
    and "fst (list_run_commands h s' st) = Inr cs \<Longrightarrow> fst (list_run_commands h s' (run_call h s c st)) = Inr cs' \<Longrightarrow>
      sr_run_id ` set cs \<subseteq> sr_run_id ` set cs' \<and> (\<forall>i \<in> sr_run_id ` set cs' - sr_run_id ` set cs.
         \<exists>x y. c = CallClaimStart x \<and> clone_start_run h x = Inr y \<and> sr_run_id y = i)"
proof -
  let ?C = "snd ` set (st_commands st)" and ?D = "snd ` set (st_commands (run_call h s c st))"
  have sub: "?C \<subseteq> ?D" and new: "\<And>y. y \<in> ?D \<Longrightarrow> y \<notin> ?C \<Longrightarrow> \<exists>x. c = CallClaimStart x \<and> clone_start_run h x = Inr y"
    using run_call_commands [of st h s c] by blast+
  show "set ids \<subseteq> set ids' \<and> (\<forall>i \<in> set ids' - set ids. \<exists>x y. c = CallClaimStart x \<and> clone_start_run h x = Inr y
         \<and> sr_run_id y = i \<and> map_option fst (rf_parent (sr_fields y)) = Some run)"
    if "fst (list_run_stream_ids h s' run st) = Inr ids" "fst (list_run_stream_ids h s' run (run_call h s c st)) = Inr ids'"
    unfolding listed_streams [OF that(1)] listed_streams [OF that(2)] run_call_events [OF assms] by (rule new_members [OF sub new])
  show "sr_run_id ` set cs \<subseteq> sr_run_id ` set cs' \<and> (\<forall>i \<in> sr_run_id ` set cs' - sr_run_id ` set cs.
         \<exists>x y. c = CallClaimStart x \<and> clone_start_run h x = Inr y \<and> sr_run_id y = i)"
    if "fst (list_run_commands h s' st) = Inr cs" "fst (list_run_commands h s' (run_call h s c st)) = Inr cs'"
    unfolding listed_ids [OF that(1)] listed_ids [OF that(2)]
    using new_members [OF sub new, where P = "\<lambda>_. True" and E = "{}" and f = sr_run_id] by simp
qed

lemma listing_other_scope_same:
  assumes "s \<noteq> s'"
  shows "\<nexists>x. c = CallClaimStart x \<Longrightarrow> fst (list_run_commands h s' (run_call h s c st)) = fst (list_run_commands h s' st)"
    and "\<nexists>x. c = CallClaimStart x \<Longrightarrow>
      fst (list_run_stream_ids h s' run (run_call h s c st)) = fst (list_run_stream_ids h s' run st)"
proof -
  assume "\<nexists>x. c = CallClaimStart x"
  then have cs: "st_commands (run_call h s c st) = st_commands st" by (intro frame_commands) blast
  then show "fst (list_run_commands h s' (run_call h s c st)) = fst (list_run_commands h s' st)"
    by (simp only: list_run_commands_def fst_conv)
  obtain ids ids' where ids: "fst (list_run_stream_ids h s' run st) = Inr ids"
      "fst (list_run_stream_ids h s' run (run_call h s c st)) = Inr ids'"
    by (simp add: list_run_stream_ids_def)
  have "set ids' = set ids"
    unfolding listed_streams [OF ids(1)] listed_streams [OF ids(2)] run_call_events [OF assms] cs ..
  moreover have "sorted ids \<and> distinct ids" "sorted ids' \<and> distinct ids'" using ids by (auto simp: list_run_stream_ids_def)
  ultimately show "fst (list_run_stream_ids h s' run (run_call h s c st)) = fst (list_run_stream_ids h s' run st)"
    unfolding ids sum.inject by (intro sorted_distinct_set_unique) simp_all
qed

section \<open>Projections\<close>

lemma receipt_key_inj [simp]:
  "receipt_key h s p stream e = receipt_key h s' p' stream' e' \<longleftrightarrow> s = s' \<and> p = p' \<and> stream = stream' \<and> e = e'"
  by (auto simp: receipt_key_def)

lemma projection_key_inj [simp]:
  "projection_key h s p stream = projection_key h s' p' stream' \<longleftrightarrow> s = s' \<and> p = p' \<and> stream = stream'"
  by (auto simp: projection_key_def)

definition acknowledged :: "host \<Rightarrow> scope \<Rightarrow> string \<Rightarrow> string \<Rightarrow> store \<Rightarrow> string set" where
  "acknowledged h s projector stream st = {e. receipt_key h s projector stream e \<in> set (st_receipts st)}"

definition projection_version :: "host \<Rightarrow> scope \<Rightarrow> string \<Rightarrow> string \<Rightarrow> store \<Rightarrow> int" where
  "projection_version h s projector stream st =
     (case map_of (st_projections st) (projection_key h s projector stream) of None \<Rightarrow> 0 | Some p \<Rightarrow> ps_version p)"

text \<open>Every projection counts its receipts, acknowledges stored events only, and holds JSON.\<close>

definition projections_ok :: "host \<Rightarrow> store \<Rightarrow> bool" where
  "projections_ok h st \<longleftrightarrow>
     (\<forall>s projector stream.
        finite (acknowledged h s projector stream st)
        \<and> projection_version h s projector stream st = int (card (acknowledged h s projector stream st))
        \<and> (\<forall>p. map_of (st_projections st) (projection_key h s projector stream) = Some p \<longrightarrow> is_json (ps_state p) \<and> acknowledged h s projector stream st \<noteq> {})
        \<and> (acknowledged h s projector stream st \<noteq> {} \<longrightarrow> map_of (st_projections st) (projection_key h s projector stream) \<noteq> None))"

lemma frame_projections:
  "(\<And>x. c \<noteq> CallCommitProjection x) \<Longrightarrow>
   st_projections (run_call h s c st) = st_projections st \<and> st_receipts (run_call h s c st) = st_receipts st"
  by (cases c) (auto simp: op_defs append_event_def append_idempotent_def push_event_def split: sum.splits option.splits)

lemma projections_ok_cong:
  "st_projections st' = st_projections st \<Longrightarrow> st_receipts st' = st_receipts st \<Longrightarrow> projections_ok h st' = projections_ok h st"
  by (simp add: projections_ok_def acknowledged_def projection_version_def)

lemma projections_ok_commit:
  assumes ok: "projections_ok h st" and c: "commit_projection h s c st = (r, st')"
  shows "projections_ok h st'"
  using commit_projection_cases [OF c]
proof (elim disjE exE conjE)
  fix p e
  let ?k = "projection_key h s (pc_projector c) (pc_stream c)"
  let ?r = "receipt_key h s (pc_projector c) (pc_stream c) (pc_event_id c)"
  assume new: "?r \<notin> set (st_receipts st)" and json: "is_json (pc_state c)"
    and v: "(case map_of (st_projections st) ?k of None \<Rightarrow> 0 | Some q \<Rightarrow> ps_version q) = pc_expected_version c"
    and p: "p = \<lparr>ps_state = pc_state c, ps_version = pc_expected_version c + 1, ps_last_seq = pc_event_seq c\<rparr>"
    and st': "st' = st\<lparr>st_projections := js_set ?k p (st_projections st), st_receipts := st_receipts st @ [?r]\<rparr>"
  have ack: "acknowledged h s' p' stream' st' =
      (if s' = s \<and> p' = pc_projector c \<and> stream' = pc_stream c
       then insert (pc_event_id c) (acknowledged h s' p' stream' st) else acknowledged h s' p' stream' st)" for s' p' stream'
    by (auto simp: acknowledged_def st')
  have "pc_event_id c \<notin> acknowledged h s (pc_projector c) (pc_stream c) st" using new by (simp add: acknowledged_def)
  then show ?thesis
    using ok v json unfolding projections_ok_def ack by (auto simp: projection_version_def st' p)
qed (use ok in simp)

lemma run_call_projections_ok:
  assumes ok: "projections_ok h st"
  shows "projections_ok h (run_call h s c st)"
proof (cases "\<exists>x. c = CallCommitProjection x")
  case True
  then show ?thesis using projections_ok_commit [OF ok surjective_pairing] by auto
next
  case False
  with frame_projections [of c h s st] ok show ?thesis by (simp cong: projections_ok_cong)
qed

lemma steps_projections_ok: "store_steps h st st' \<Longrightarrow> projections_ok h st \<Longrightarrow> projections_ok h st'"
  by (induction rule: store_steps.induct) (auto intro: run_call_projections_ok)

lemma reachable_projections_ok: "reachable_store h st \<Longrightarrow> projections_ok h st"
  unfolding reachable_store_def
  by (erule steps_projections_ok)
    (simp add: projections_ok_def acknowledged_def projection_version_def empty_store_def)

lemma steps_receipts: "store_steps h st st' \<Longrightarrow> set (st_receipts st) \<subseteq> set (st_receipts st')"
proof (induction rule: store_steps.induct)
  case (step st st' s c)
  show ?case
  proof (cases "\<exists>x. c = CallCommitProjection x")
    case True
    then obtain x where x: "c = CallCommitProjection x" by blast
    from commit_projection_cases [OF surjective_pairing, of h s x st'] step.IH show ?thesis
      unfolding x run_call.simps by (elim disjE exE conjE) auto
  next
    case False
    with frame_projections [of c h s st'] step.IH show ?thesis by simp
  qed
qed simp

lemma steps_stored:
  "store_steps h st st' \<Longrightarrow> stored_event h s i st = Some e \<Longrightarrow> stored_event h s i st' = Some e"
proof (induction rule: store_steps.induct)
  case (step st st' s' c)
  show ?case
  proof (cases "log_call c")
    case False
    with frame_log [of c h s' st'] step show ?thesis by (simp add: stored_event_def)
  next
    case True
    then consider x where "c = CallAppend x" | x where "c = CallAppendIdempotent x" by (cases c) auto
    then show ?thesis
    proof cases
      case 1
      with append_event_cases [OF surjective_pairing, of h s' x st'] step show ?thesis by auto
    next
      case 2
      with append_idempotent_cases [OF surjective_pairing, of h s' x st'] step show ?thesis by auto
    qed
  qed
qed simp

lemma clone_projection_run: "is_json (ps_state p) \<Longrightarrow> clone_projection p = Inr p"
  by (simp add: clone_projection_def parse_json_value_iff res_simps)

lemma load_projection_run:
  "projections_ok h st \<Longrightarrow>
   load_projection h s projector stream st = (Inr (map_of (st_projections st) (projection_key h s projector stream)), st)"
  unfolding load_projection_def projections_ok_def
  by (auto simp: clone_option_def clone_projection_run split: option.splits)

lemma commit_applied_once:
  assumes st: "reachable_store h st" and c: "commit_projection h s c st = (Inr (p, True), st1)" and later: "store_steps h st1 st2"
  shows "\<exists>q. load_projection h s (pc_projector c) (pc_stream c) st2 = (Inr (Some q), st2)
    \<and> commit_projection h s (c\<lparr>pc_expected_version := v, pc_state := x\<rparr>) st2 = (Inr (q, False), st2)
    \<and> ps_version p = pc_expected_version c + 1 \<and> ps_last_seq p = pc_event_seq c"
proof -
  let ?r = "receipt_key h s (pc_projector c) (pc_stream c) (pc_event_id c)"
  from commit_projection_cases [OF c] obtain e where e: "stored_event h s (pc_event_id c) st = Some e"
      "ev_stream e = pc_stream c" "ev_seq e = pc_event_seq c"
    and p: "p = \<lparr>ps_state = pc_state c, ps_version = pc_expected_version c + 1, ps_last_seq = pc_event_seq c\<rparr>"
    and r: "?r \<in> set (st_receipts st1)" and same: "st_events st1 = st_events st" by auto
  have ok: "projections_ok h st2"
    by (rule steps_projections_ok [OF later projections_ok_commit [OF reachable_projections_ok [OF st] c]])
  have r2: "?r \<in> set (st_receipts st2)" using r steps_receipts [OF later] by blast
  then have "acknowledged h s (pc_projector c) (pc_stream c) st2 \<noteq> {}" by (auto simp: acknowledged_def)
  then obtain q where q: "map_of (st_projections st2) (projection_key h s (pc_projector c) (pc_stream c)) = Some q" "is_json (ps_state q)"
    using ok unfolding projections_ok_def by blast
  have "stored_event h s (pc_event_id c) st2 = Some e"
    using e same by (intro steps_stored [OF later]) (simp add: stored_event_def)
  then show ?thesis
    using e q r2 by (auto simp: load_projection_run [OF ok] commit_projection_def Let_def clone_projection_run p)
qed

section \<open>Occurrences\<close>

abbreviation occurrence_entry :: "host \<Rightarrow> scope \<Rightarrow> string \<Rightarrow> store \<Rightarrow> occurrence option" where
  "occurrence_entry h s i st \<equiv> map_of (st_occurrences st) (scoped_key h s ''schedule-occurrence'' i)"

lemma claim_key_inj [simp]:
  "claim_key h s c = claim_key h s' c' \<longleftrightarrow> s = s' \<and> oc_schedule_id c = oc_schedule_id c' \<and> oc_due c = oc_due c'"
  by (auto simp: claim_key_def)

fun occurrence_call :: "store_call \<Rightarrow> bool" where
  "occurrence_call (CallClaimOccurrence _) = True"
| "occurrence_call (CallSkipOccurrence _) = True"
| "occurrence_call (CallClaimExecution _ _ _) = True"
| "occurrence_call _ = False"

lemma frame_occurrences:
  "\<not> occurrence_call c \<Longrightarrow>
   st_occurrences (run_call h s c st) = st_occurrences st \<and> st_claims (run_call h s c st) = st_claims st"
  by (cases c) (auto simp: op_defs append_event_def append_idempotent_def push_event_def split: sum.splits option.splits)

text \<open>A call keeps the claims there are, and an occurrence that has started or was skipped.\<close>

lemma call_keeps_occurrences:
  shows "map_of (st_claims st) k = Some x \<Longrightarrow> map_of (st_claims (run_call h s c st)) k = Some x"
    and "occurrence_entry h s' i st = Some y \<Longrightarrow> oc_status y = Some ''started'' \<or> oc_status y = Some ''skipped'' \<Longrightarrow>
      occurrence_entry h s' i (run_call h s c st) = Some y"
proof -
  have "(map_of (st_claims st) k = Some x \<longrightarrow> map_of (st_claims (run_call h s c st)) k = Some x)
    \<and> (occurrence_entry h s' i st = Some y \<longrightarrow> oc_status y = Some ''started'' \<or> oc_status y = Some ''skipped'' \<longrightarrow>
      occurrence_entry h s' i (run_call h s c st) = Some y)"
  proof (cases "occurrence_call c")
    case False
    from frame_occurrences [OF this, of h s st] show ?thesis by simp
  next
    case True
    then consider d where "c = CallClaimOccurrence d" | d where "c = CallSkipOccurrence d"
      | t d w where "c = CallClaimExecution t d w" by (cases c) auto
    then show ?thesis
    proof cases
      case 1
      show ?thesis
        using claim_occurrence_cases [OF surjective_pairing, of h s d st] unfolding 1 run_call.simps
        by (elim disjE exE conjE) (auto simp: record_occurrence_def)
    next
      case 2
      show ?thesis
        using skip_occurrence_cases [OF surjective_pairing, of h s d st] unfolding 2 run_call.simps
        by (elim disjE exE conjE) (auto simp: record_occurrence_def)
    next
      case 3
      show ?thesis
        using claim_execution_cases [OF surjective_pairing, of h s t d w st] unfolding 3 run_call.simps
        by (elim disjE exE conjE) auto
    qed
  qed
  then show "map_of (st_claims st) k = Some x \<Longrightarrow> map_of (st_claims (run_call h s c st)) k = Some x"
    and "occurrence_entry h s' i st = Some y \<Longrightarrow> oc_status y = Some ''started'' \<or> oc_status y = Some ''skipped'' \<Longrightarrow>
      occurrence_entry h s' i (run_call h s c st) = Some y" by blast+
qed

lemma steps_keep_claims: "store_steps h st st' \<Longrightarrow> map_of (st_claims st) k = Some x \<Longrightarrow> map_of (st_claims st') k = Some x"
  by (induction rule: store_steps.induct) (auto intro: call_keeps_occurrences)

lemma steps_keep_settled:
  "store_steps h st st' \<Longrightarrow> occurrence_entry h s i st = Some y \<Longrightarrow>
   oc_status y = Some ''started'' \<or> oc_status y = Some ''skipped'' \<Longrightarrow> occurrence_entry h s i st' = Some y"
  by (induction rule: store_steps.induct) (auto intro: call_keeps_occurrences)

lemma clone_occurrence_same: "clone_occurrence h c = Inr c' \<Longrightarrow> c' = c"
  unfolding clone_occurrence_def parse_schedule_occurrence_def occurrence_js_def
  by (cases c, cases "oc_scope c")
    (auto elim!: parse_elims simp: parse_iffs occurrence_status_def parse_scope_fields_def scope_fields_def
      split: option.splits if_splits js.splits)

lemma occurrence_claimed:
  assumes c: "claim_occurrence h s c st = (Inr (Claimed o'), st1)" and later: "store_steps h st1 st2"
  shows "o' = c" and "map_of (st_claims st2) (claim_key h s c) = Some c" and "clone_occurrence h c = Inr c"
proof -
  from claim_occurrence_cases [OF c] obtain c' where c': "clone_occurrence h c = Inr c'" "st1 = record_occurrence h s c' st"
    "Inr (Claimed o') = r_bind (clone_occurrence h c') (\<lambda>c. Inr (Claimed c))" by auto
  have same: "c' = c" using c'(1) by (rule clone_occurrence_same)
  then show "clone_occurrence h c = Inr c" "o' = c" using c' by auto
  show "map_of (st_claims st2) (claim_key h s c) = Some c"
    using c' same by (intro steps_keep_claims [OF later]) (simp add: record_occurrence_def)
qed

lemma occurrence_started:
  assumes c: "claim_execution h s t c w st = (Inr True, st1)" and later: "store_steps h st1 st2"
  shows "\<exists>x. occurrence_entry h s (oc_id c) st2 = Some (x\<lparr>oc_status := Some ''started''\<rparr>)
    \<and> occurrence_entry h s (oc_id c) st = Some x \<and> oc_status x \<noteq> Some ''started'' \<and> oc_status x \<noteq> Some ''skipped''"
proof -
  from claim_execution_cases [OF c] obtain c' x x' where c': "clone_occurrence h c = Inr c'"
    "occurrence_entry h s (oc_id c') st = Some x" "oc_status x \<noteq> Some ''started''" "oc_status x \<noteq> Some ''skipped''"
    "clone_occurrence h (x\<lparr>oc_status := Some ''started''\<rparr>) = Inr x'"
    "st1 = st\<lparr>st_occurrences := js_set (scoped_key h s ''schedule-occurrence'' (oc_id c')) x' (st_occurrences st)\<rparr>"
    by auto
  have same: "c' = c" "x' = x\<lparr>oc_status := Some ''started''\<rparr>" using c' clone_occurrence_same by blast+
  have "occurrence_entry h s (oc_id c) st2 = Some x'"
    using c' same by (intro steps_keep_settled [OF later]) simp_all
  with c' same show ?thesis by auto
qed

end
