(* ===== verification/ProfileResolution.thy ===== *)
theory ProfileResolution
  imports RunProfile
begin

text \<open>
  What \<open>resolveRunProfile\<close> guarantees: the resolved profile grants only what the channel, the
  worker and the run's own profile all allow, and its stored form is read back unchanged.
\<close>

section \<open>Facts about the checks\<close>

lemma profile_hash_not_blank [simp]: "\<not> is_blank (profile_hash h p)"
  by (simp add: is_blank_iff profile_hash_def sha256_of_def is_space_def)

lemma resolve_budget_of:
  "map_of (resolve_budget d r l) k =
     (if k \<in> set budget_keys then map_option snd (resolve_budget_key d r l k) else None)"
proof -
  have key: "resolve_budget_key d r l k = Some kv \<Longrightarrow> fst kv = k" for k kv
    by (auto simp: resolve_budget_key_def Let_def split: option.splits)
  have "map_of (List.map_filter (resolve_budget_key d r l) ks) k =
     (if k \<in> set ks then map_option snd (resolve_budget_key d r l k) else None)" for ks
    by (induction ks) (auto simp: map_filter_simps dest: key split: option.splits)
  then show ?thesis by (simp add: resolve_budget_def)
qed

lemma resolve_budget_asked:
  "map_of (resolve_budget d r l) k = Some q \<longleftrightarrow> k \<in> set budget_keys \<and>
     (\<exists>asked. (map_of r k = Some asked \<or> map_of r k = None \<and> map_of d k = Some asked)
        \<and> (case map_of l k of None \<Rightarrow> q = asked | Some m \<Rightarrow> q = min asked m))"
  by (cases "map_of r k"; cases "map_of d k"; cases "map_of l k")
    (auto simp: resolve_budget_of resolve_budget_key_def)

lemma resolve_allowed_tools_set:
  "tool \<in> set (resolve_allowed_tools ct wt pt skills cap) \<longleftrightarrow>
     tool \<in> set ct \<and> tool \<in> set wt \<and> tool \<in> set pt
     \<and> (\<forall>k \<in> set skills. tool \<notin> set (sk_forbidden_tools k))
     \<and> ((cap \<and> (skills = [] \<or> tool \<in> set capability_host_tools)) \<or> (\<exists>k \<in> set skills. tool \<in> set (sk_allowed_tools k)))"
  by (auto simp: resolve_allowed_tools_def)

lemma snapshot_skill_id: "snapshot_skill e = Inr k \<Longrightarrow> k = e"
  unfolding snapshot_skill_def
  by (elim r_bindE) (auto simp: require_non_empty_string_iff copy_string_array_iff)

lemma resolve_skill_ok:
  "resolve_skill catalog cs ws i s = Inr k \<Longrightarrow>
   sk_id k = s \<and> s \<in> set cs \<and> s \<in> set ws \<and> k \<in> set catalog \<and> snapshot_skill k = Inr k"
  unfolding resolve_skill_def
  by (auto dest: find_SomeD snapshot_skill_id split: if_splits option.splits)

lemma model_is_allowed_iff: "model_is_allowed m ms \<longleftrightarrow> m \<in> set ms"
  by (auto simp: model_is_allowed_def list_ex_iff intro: model_policy.equality dest!: model_policy.equality)

lemma snapshot_model_id: "snapshot_model m n = Inr x \<Longrightarrow> x = m \<and> (\<forall>n'. parse_snapshot_model (model_js m) n' = Inr m)"
  unfolding snapshot_model_def
  by (elim r_bindE) (auto simp: require_non_empty_string_iff require_enum_iff parse_snapshot_model_def model_js_def parse_runs)

lemma snapshot_models_id: "snapshot_models ms n = Inr xs \<Longrightarrow> xs = ms"
proof -
  have "r_mapi (\<lambda>i m. snapshot_model m (index_name n i)) j ms = Inr xs \<Longrightarrow> xs = ms" for j
    by (induction ms arbitrary: xs j) (auto elim!: r_bindE dest: snapshot_model_id)
  then show "snapshot_models ms n = Inr xs \<Longrightarrow> xs = ms" by (auto simp: snapshot_models_def split: if_splits)
qed

lemma artifact_id: "snapshot_artifact_contract a n = Inr x \<Longrightarrow>
   x = a \<and> \<not> is_blank (ac_kind a) \<and> (\<forall>o' \<in> set (ac_required_for a). \<not> is_blank o' \<and> o' \<in> set run_outcomes)
   \<and> ac_required_for a \<noteq> [] \<and> \<not> is_blank (ac_verification a) \<and> ac_verification a \<in> set artifact_verifications"
  unfolding snapshot_artifact_contract_def
  by (elim r_bindE) (auto simp: require_non_empty_string_iff require_enum_iff copy_enum_array_iff)

lemma artifact_contracts_match_iff: "artifact_contracts_match a b \<longleftrightarrow> a = b"
  by (cases a; cases b) (auto simp: artifact_contracts_match_def list_all_iff list_eq_iff_zip_eq)

lemma snapshot_skill_js: "snapshot_skill k = Inr k \<Longrightarrow> snapshot_skill_entry (skill_js k) n = Inr k"
  unfolding snapshot_skill_def
  by (elim r_bindE) (auto simp: require_non_empty_string_iff copy_string_array_iff snapshot_skill_entry_def
      skill_js_def parse_runs)

lemma snapshot_transform_js:
  "snapshot_transform i t = Inr u \<Longrightarrow> u = t \<and> (\<forall>n. parse_snapshot_transform (transform_js t) n = Inr t)"
  unfolding snapshot_transform_def
  by (elim r_bindE) (auto simp: require_enum_iff copy_enum_array_iff parse_snapshot_transform_def
      transform_js_def parse_runs)

text \<open>What a successful resolution has checked, and the snapshot it drafts.\<close>

lemma snapshot_transforms_id: "r_mapi snapshot_transform i ts = Inr us \<Longrightarrow> us = ts"
  by (induction ts arbitrary: us i) (auto elim!: r_bindE dest: snapshot_transform_js)

lemma copy_channel_policy_id:
  "copy_channel_policy c channel = Inr channel' \<Longrightarrow>
   channel' = channel \<and> (\<forall>t \<in> set (ch_allowed_tools channel). \<not> is_blank t)"
  unfolding copy_channel_policy_def
  by (elim parse_elims; frule snapshot_models_id) (auto simp: copy_string_array_iff copy_enum_array_iff)

lemma copy_worker_profile_id:
  "copy_worker_profile c worker = Inr worker' \<Longrightarrow>
   worker' = worker \<and> \<not> is_blank (wp_id worker) \<and> \<not> is_blank (wp_version worker) \<and> \<not> is_blank (wp_instructions worker)"
  unfolding copy_worker_profile_def
  by (elim parse_elims; frule snapshot_models_id; frule artifact_id)
    (auto simp: copy_string_array_iff require_non_empty_string_iff)

lemma copy_run_profile_all:
  "copy_run_profile h profile = Inr profile' \<Longrightarrow>
   (profile' = profile\<lparr>pr_capability := pr_capability profile', pr_kernel := pr_kernel profile',
      pr_skill_catalog := pr_skill_catalog profile'\<rparr>)
   \<and> (opt_parse (\<lambda>c. parse_capability_policy h (capability_policy_js c)) (pr_capability profile) = Inr (pr_capability profile'))
   \<and> (opt_parse (\<lambda>k. parse_kernel_descriptor (kernel_js k)) (pr_kernel profile) = Inr (pr_kernel profile'))
   \<and> (opt_parse (\<lambda>c. parse_skill_catalog h (skill_catalog_js c)) (pr_skill_catalog profile) = Inr (pr_skill_catalog profile'))
   \<and> (pr_capability profile' = None \<longrightarrow> pr_skill_ids profile \<noteq> [])
   \<and> (pr_transforms profile \<noteq> [])
   \<and> (r_mapi snapshot_transform 0 (pr_transforms profile) = Inr (pr_transforms profile))
   \<and> (snapshot_model (pr_model profile) ''RunProfile.model'' = Inr (pr_model profile))
   \<and> (\<not> is_blank (pr_id profile))
   \<and> (\<not> is_blank (pr_version profile))
   \<and> (\<forall>(x, xs) \<in> {(mem_read (pr_memory profile), memory_read_modes), (mem_write (pr_memory profile), memory_write_modes),
       (ep_contract (pr_eval profile), eval_contracts), (ep_quality (pr_eval profile), eval_qualities),
       (tr_stop_condition (pr_terminal profile), terminal_stop_conditions)}. \<not> is_blank x \<and> x \<in> set xs)
   \<and> (tr_allowed_outcomes (pr_terminal profile) \<noteq> [])
   \<and> (\<forall>x \<in> set (tr_allowed_outcomes (pr_terminal profile)). \<not> is_blank x \<and> x \<in> set run_outcomes)
   \<and> (snapshot_artifact_contract (pr_artifact profile) ''RunProfile.artifactContract'' = Inr (pr_artifact profile))"
  unfolding copy_run_profile_def
  by (elim parse_elims; frule snapshot_model_id; frule snapshot_transforms_id; frule artifact_id)
    (auto simp: require_non_empty_string_iff require_enum_iff copy_enum_array_iff copy_string_array_iff)


lemma resolve_run_profile_facts:
  assumes "resolve_run_profile h catalog channel worker profile = Inr p"
  obtains profile' where
      "copy_channel_policy (pr_capability profile \<noteq> None) channel = Inr channel"
    and "copy_worker_profile (pr_capability profile \<noteq> None) worker = Inr worker"
    and "copy_run_profile h profile = Inr profile'"
    and "pr_model profile' \<in> set (ch_allowed_models channel)" "pr_model profile' \<in> set (wp_allowed_models worker)"
    and "mem_read (pr_memory profile') \<in> set (ch_read_modes channel)"
    and "mem_write (pr_memory profile') \<in> set (ch_write_modes channel)"
    and "pr_artifact profile' = wp_artifact_contract worker"
    and "r_mapi (resolve_skill catalog (ch_allowed_skill_ids channel) (wp_allowed_skill_ids worker)) 0
       (pr_skill_ids profile') = Inr (rp_skills p)"
    and "p = (draft_profile channel worker profile' (rp_skills p))
       \<lparr>rp_hash := profile_hash h (draft_profile channel worker profile' (rp_skills p))\<rparr>"
proof -
  have d: "rp_skills (draft_profile c w q sk) = sk" for c w q sk by (simp add: draft_profile_def)
  show thesis
    by (insert assms [unfolded resolve_run_profile_def], elim parse_elims, frule copy_channel_policy_id, frule copy_worker_profile_id, elim conjE, hypsubst, rule that)
      (auto simp: model_is_allowed_iff artifact_contracts_match_iff d)
qed

lemma resolve_skills_ok:
  "r_mapi (resolve_skill catalog cs ws) i ids = Inr ks \<Longrightarrow>
   map sk_id ks = ids \<and> (\<forall>s \<in> set ids. s \<in> set cs \<and> s \<in> set ws)
   \<and> (\<forall>k \<in> set ks. k \<in> set catalog \<and> (\<forall>n. snapshot_skill_entry (skill_js k) n = Inr k))"
  by (induction ids arbitrary: i ks) (auto elim!: r_bindE dest!: resolve_skill_ok intro: snapshot_skill_js)

lemma map_of_eq_Some_iff_any: "b \<noteq> [] \<Longrightarrow> \<exists>k q. map_of b k = Some q"
  by (cases b) auto

text \<open>Budgets: the resolved budget is accepted by the parser, up to the place of \<open>cost\<close>.\<close>

definition budget_ok :: "budget \<Rightarrow> bool" where
  "budget_ok b \<longleftrightarrow> (\<forall>(k, q) \<in> set b. 0 < q \<and> (k \<noteq> ''cost'' \<longrightarrow> (\<exists>i. q = of_int i \<and> 1 \<le> i \<and> i \<le> max_safe)))"

lemma budget_ok_min:
  "map_of b k = Some q \<Longrightarrow> budget_ok b \<Longrightarrow> map_of l k = Some m \<Longrightarrow> budget_ok l \<Longrightarrow>
   0 < min q m \<and> (k \<noteq> ''cost'' \<longrightarrow> (\<exists>i. min q m = of_int i \<and> 1 \<le> i \<and> i \<le> max_safe))"
  by (auto simp: budget_ok_def min_def dest!: map_of_SomeD)

lemma resolve_budget_key_ok:
  assumes "budget_ok d" "budget_ok r" "budget_ok l" and "map_of (resolve_budget d r l) k = Some q"
  shows "0 < q \<and> (k \<noteq> ''cost'' \<longrightarrow> (\<exists>i. q = of_int i \<and> 1 \<le> i \<and> i \<le> max_safe))"
proof -
  have one: "0 < q \<and> (k \<noteq> ''cost'' \<longrightarrow> (\<exists>i. q = of_int i \<and> 1 \<le> i \<and> i \<le> max_safe))"
    if "map_of b k = Some q" "budget_ok b" for b q
    using that by (auto simp: budget_ok_def dest!: map_of_SomeD)
  show ?thesis
    using assms one budget_ok_min
    by (auto simp: resolve_budget_of resolve_budget_key_def Let_def split: if_splits option.splits)
qed

definition budget_parsed_order :: "budget \<Rightarrow> budget" where
  "budget_parsed_order b = List.map_filter (\<lambda>k. map_option (Pair k) (map_of b k))
     (filter (\<lambda>k. k \<noteq> ''cost'') budget_keys @ [''cost''])"

lemma budget_integers_run:
  "(\<forall>k \<in> set fs. \<forall>q. map_of b k = Some q \<longrightarrow> (\<exists>i. q = of_int i \<and> 1 \<le> i \<and> i \<le> max_safe)) \<Longrightarrow>
   budget_integers (budget_fields b) n fs = Inr (List.map_filter (\<lambda>k. map_option (Pair k) (map_of b k)) fs)"
  by (induction fs) (fastforce simp: js_field_budget map_filter_simps parse_runs split: option.splits)+

lemma resolve_budget_parsed:
  assumes "budget_ok d" "budget_ok r" "budget_ok l" and ne: "resolve_budget d r l \<noteq> []"
  shows "snapshot_budget (budget_js (resolve_budget d r l)) n = Inr (budget_parsed_order (resolve_budget d r l))"
    (is "snapshot_budget (budget_js ?b) n = _")
proof -
  note ok = resolve_budget_key_ok [OF assms(1-3)]
  have keys: "\<forall>kv \<in> set ?b. fst kv \<in> set budget_keys"
    by (auto simp: resolve_budget_def map_filter_def resolve_budget_key_def Let_def split: option.splits)
  have ints: "budget_integers (budget_fields ?b) n (filter (\<lambda>k. k \<noteq> ''cost'') budget_keys) =
      Inr (List.map_filter (\<lambda>k. map_option (Pair k) (map_of ?b k)) (filter (\<lambda>k. k \<noteq> ''cost'') budget_keys))"
    by (rule budget_integers_run) (use ok in auto)
  have cost: "budget_cost (budget_fields ?b) n =
      Inr (List.map_filter (\<lambda>k. map_option (Pair k) (map_of ?b k)) [''cost''])"
    using ok [of "''cost''"]
    by (auto simp: budget_cost_def js_field_budget map_filter_simps parse_runs split: option.splits)
  have "budget_parsed_order ?b \<noteq> []"
  proof -
    obtain k q where "map_of ?b k = Some q" using ne map_of_eq_Some_iff_any [of ?b] by blast
    moreover from this have "k \<in> set budget_keys" using keys by (force dest: map_of_SomeD)
    ultimately show ?thesis
      by (cases "k = ''cost''") (auto simp: budget_parsed_order_def map_filter_def filter_empty_conv intro!: bexI [of _ k])
  qed
  moreover have "\<forall>kv \<in> set (budget_fields ?b). fst kv \<in> set budget_keys" using keys by (auto simp: budget_fields_def)
  ultimately show ?thesis
    using ints cost by (simp add: snapshot_budget_def budget_js_def parse_runs read_budget_def budget_parsed_order_def
        map_filter_def flip: budget_fields_def)
qed

lemma sort_key_same:
  "distinct (map fst xs) \<Longrightarrow> distinct (map fst ys) \<Longrightarrow> set xs = set ys \<Longrightarrow>
   sort_key fst xs = sort_key (fst :: string \<times> 'b \<Rightarrow> string) ys"
  by (rule map_sorted_distinct_set_unique [where f = fst]) (auto simp: distinct_map inj_on_def)

lemma sort_json_budget:
  assumes "distinct (map fst b)" "distinct (map fst c)" "set b = set c"
  shows "sort_json (budget_js b) = sort_json (budget_js c)"
proof -
  have "sort_key fst (map (\<lambda>kv. (fst kv, sort_json (snd kv))) (map (\<lambda>kv. (fst kv, JNum (snd kv))) b)) =
      sort_key fst (map (\<lambda>kv. (fst kv, sort_json (snd kv))) (map (\<lambda>kv. (fst kv, JNum (snd kv))) c))"
    using assms by (intro sort_key_same) (simp_all add: comp_def)
  then show ?thesis by (simp add: budget_js_def)
qed

lemma profile_hash_budget:
  assumes "distinct (map fst (rp_budget p))" "distinct (map fst b)" "set (rp_budget p) = set b"
  shows "profile_hash h (p\<lparr>rp_budget := b\<rparr>) = profile_hash h p"
  using sort_json_budget [OF assms] by (simp add: profile_hash_def profile_fields_def)

lemma set_map_filter_iff: "y \<in> set (List.map_filter f xs) \<longleftrightarrow> (\<exists>x \<in> set xs. f x = Some y)"
  by (induction xs) (auto simp: map_filter_simps split: option.splits)

lemma map_filter_keys:
  "(\<And>k kv. f k = Some kv \<Longrightarrow> fst kv = k) \<Longrightarrow> distinct ks \<Longrightarrow>
   distinct (map fst (List.map_filter f ks)) \<and> fst ` set (List.map_filter f ks) \<subseteq> set ks"
  by (induction ks) (force simp: map_filter_simps split: option.splits)+

lemma resolve_budget_distinct:
  "distinct (map fst (resolve_budget d r l)) \<and> fst ` set (resolve_budget d r l) \<subseteq> set budget_keys"
  unfolding resolve_budget_def
  by (rule map_filter_keys) (auto simp: budget_keys_def resolve_budget_key_def Let_def split: option.splits)

lemma budget_parsed_order_distinct: "distinct (map fst (budget_parsed_order b))"
  unfolding budget_parsed_order_def
  by (rule map_filter_keys [THEN conjunct1]) (auto simp: budget_keys_def)

lemma budget_parsed_order_set:
  assumes "distinct (map fst b)" "fst ` set b \<subseteq> set budget_keys"
  shows "set (budget_parsed_order b) = set b"
proof (rule set_eqI)
  fix kv :: "string \<times> rat"
  have "set (filter (\<lambda>k. k \<noteq> ''cost'') budget_keys @ [''cost'']) = set budget_keys"
    by (auto simp: budget_keys_def)
  then have "kv \<in> set (budget_parsed_order b) \<longleftrightarrow> (\<exists>k \<in> set budget_keys. \<exists>q. map_of b k = Some q \<and> kv = (k, q))"
    unfolding budget_parsed_order_def set_map_filter_iff by (simp only:) auto
  also have "\<dots> \<longleftrightarrow> kv \<in> set b"
    using assms(2) map_of_eq_Some_iff [OF assms(1)] by (cases kv) force
  finally show "kv \<in> set (budget_parsed_order b) \<longleftrightarrow> kv \<in> set b" .
qed

text \<open>A channel that caps the turns below the worker's default, and a skill that forbids \<open>write\<close>.\<close>

definition demo_skill :: skill_entry where
  "demo_skill = \<lparr>sk_id = ''s'', sk_name = ''S'', sk_version = ''1'', sk_hash = ''h'', sk_source = ''r'', sk_uri = ''u'',
     sk_allowed_tools = [''read'', ''write''], sk_forbidden_tools = [''write''], sk_content = ''c''\<rparr>"
definition demo_model :: model_policy where
  "demo_model = \<lparr>mp_provider = ''p'', mp_name = ''m'', mp_reasoning = ''low''\<rparr>"
definition demo_artifact :: artifact_contract where
  "demo_artifact = \<lparr>ac_kind = ''patch'', ac_required_for = [''completed''], ac_verification = ''tests''\<rparr>"
definition demo_channel_policy :: channel_policy where
  "demo_channel_policy = \<lparr>ch_allowed_tools = [''read'', ''write''], ch_allowed_skill_ids = [''s''],
     ch_allowed_models = [demo_model], ch_budget_limits = [(''turns'', 5)], ch_read_modes = [''none'', ''channel''],
     ch_write_modes = [''disabled'', ''propose'']\<rparr>"
definition demo_worker_profile :: worker_profile where
  "demo_worker_profile = \<lparr>wp_id = ''w'', wp_version = ''1'', wp_instructions = ''i'', wp_allowed_skill_ids = [''s''],
     wp_allowed_tools = [''read'', ''write''], wp_allowed_models = [demo_model], wp_budget_defaults = [(''turns'', 9)],
     wp_artifact_contract = demo_artifact\<rparr>"
definition demo_run_profile :: run_profile where
  "demo_run_profile = \<lparr>pr_id = ''p'', pr_version = ''1'', pr_model = demo_model, pr_skill_ids = [''s''],
     pr_transforms = [\<lparr>ct_kind = ''compact'', ct_preserve = [''goal'']\<rparr>], pr_allowed_tools = [''read'', ''write''],
     pr_budget = [], pr_memory = \<lparr>mem_read = ''channel'', mem_write = ''propose''\<rparr>,
     pr_eval = \<lparr>ep_contract = ''disabled'', ep_quality = ''disabled''\<rparr>, pr_artifact = demo_artifact,
     pr_terminal = \<lparr>tr_allowed_outcomes = [''completed''], tr_stop_condition = ''artifact_or_terminal''\<rparr>,
     pr_skill_catalog = None, pr_capability = None, pr_kernel = None\<rparr>"
lemma demo_resolves:
  "case resolve_run_profile demo_host [demo_skill] demo_channel_policy demo_worker_profile demo_run_profile of
     Inl _ \<Rightarrow> False | Inr p \<Rightarrow> rp_budget p = [(''turns'', 5)] \<and> rp_allowed_tools p = [''read'']
       \<and> rp_id p = ''p'' \<and> rp_version p = ''1'' \<and> tr_stop_condition (rp_terminal p) = ''artifact_or_terminal''
       \<and> rp_memory p = \<lparr>mem_read = ''channel'', mem_write = ''propose''\<rparr>"
  by code_simp

lemma demo_profile_cases:
  obtains p where "resolve_run_profile demo_host [demo_skill] demo_channel_policy demo_worker_profile demo_run_profile = Inr p"
    and "rp_budget p = [(''turns'', 5)]" and "rp_allowed_tools p = [''read'']"
    and "rp_id p = ''p''" and "rp_version p = ''1''" and "tr_stop_condition (rp_terminal p) = ''artifact_or_terminal''"
    and "rp_memory p = \<lparr>mem_read = ''channel'', mem_write = ''propose''\<rparr>"
  using demo_resolves by (auto split: sum.splits)

lemma demo_budgets:
  "budget_ok (wp_budget_defaults demo_worker_profile)" "budget_ok (pr_budget demo_run_profile)"
  "budget_ok (ch_budget_limits demo_channel_policy)"
proof -
  have "\<exists>i. (5 :: rat) = of_int i \<and> 1 \<le> i \<and> i \<le> max_safe" by (rule exI [of _ 5]) (simp add: max_safe_def)
  moreover have "\<exists>i. (9 :: rat) = of_int i \<and> 1 \<le> i \<and> i \<le> max_safe" by (rule exI [of _ 9]) (simp add: max_safe_def)
  ultimately show "budget_ok (wp_budget_defaults demo_worker_profile)" "budget_ok (pr_budget demo_run_profile)"
      "budget_ok (ch_budget_limits demo_channel_policy)"
    by (simp_all add: budget_ok_def demo_worker_profile_def demo_run_profile_def demo_channel_policy_def)
qed

lemma total_preorder_demo_host: "total_preorder (locale_le demo_host)"
  by (auto simp: total_preorder_def demo_host_def)

text \<open>
  C1. Least privilege. A resolved run profile gives a run only what every policy allows: each
  of its tools is allowed by the channel, the worker and the run's profile, is forbidden by no
  selected skill and, without a capability policy, is allowed by one of the skills; its model
  and memory modes are those of the run's profile, the model allowed by the channel and the
  worker, the memory modes by the channel; its skills, in the order asked for, come from the
  catalog and from both allow lists; and each limit of its budget is what the run's profile asks
  for, or the worker's default where it does not ask, lowered to the channel's limit where there
  is one. No key is limited that neither of them names.
\<close>

theorem resolve_run_profile_least_privilege:
  assumes "resolve_run_profile h catalog channel worker profile = Inr p"
  shows "set (rp_allowed_tools p) \<subseteq> set (ch_allowed_tools channel) \<inter> set (wp_allowed_tools worker) \<inter> set (pr_allowed_tools profile)
    \<and> (\<forall>k \<in> set (rp_skills p). set (rp_allowed_tools p) \<inter> set (sk_forbidden_tools k) = {})
    \<and> (rp_capability p = None \<longrightarrow> set (rp_allowed_tools p) \<subseteq> \<Union> ((set \<circ> sk_allowed_tools) ` set (rp_skills p)))
    \<and> rp_model p = pr_model profile \<and> rp_memory p = pr_memory profile
    \<and> rp_model p \<in> set (ch_allowed_models channel) \<inter> set (wp_allowed_models worker)
    \<and> mem_read (rp_memory p) \<in> set (ch_read_modes channel) \<and> mem_write (rp_memory p) \<in> set (ch_write_modes channel)
    \<and> map sk_id (rp_skills p) = pr_skill_ids profile \<and> set (rp_skills p) \<subseteq> set catalog
    \<and> set (pr_skill_ids profile) \<subseteq> set (ch_allowed_skill_ids channel) \<inter> set (wp_allowed_skill_ids worker)
    \<and> (\<forall>k q. map_of (rp_budget p) k = Some q \<longleftrightarrow> k \<in> set budget_keys \<and>
         (\<exists>asked. (map_of (pr_budget profile) k = Some asked
              \<or> map_of (pr_budget profile) k = None \<and> map_of (wp_budget_defaults worker) k = Some asked)
            \<and> (case map_of (ch_budget_limits channel) k of None \<Rightarrow> q = asked | Some m \<Rightarrow> q = min asked m)))"
proof (rule resolve_run_profile_facts [OF assms])
  fix profile'
  assume c: "copy_run_profile h profile = Inr profile'"
    and m: "pr_model profile' \<in> set (ch_allowed_models channel)" "pr_model profile' \<in> set (wp_allowed_models worker)"
      "mem_read (pr_memory profile') \<in> set (ch_read_modes channel)" "mem_write (pr_memory profile') \<in> set (ch_write_modes channel)"
    and sk: "r_mapi (resolve_skill catalog (ch_allowed_skill_ids channel) (wp_allowed_skill_ids worker)) 0
       (pr_skill_ids profile') = Inr (rp_skills p)"
    and p: "p = (draft_profile channel worker profile' (rp_skills p))
       \<lparr>rp_hash := profile_hash h (draft_profile channel worker profile' (rp_skills p))\<rparr>"
  have prof: "profile' = profile\<lparr>pr_capability := pr_capability profile', pr_kernel := pr_kernel profile',
      pr_skill_catalog := pr_skill_catalog profile'\<rparr>"
    using copy_run_profile_all [OF c] by blast
  have keep: "pr_model profile' = pr_model profile" "pr_memory profile' = pr_memory profile" "pr_budget profile' = pr_budget profile"
    by (subst prof, simp)+
  have "pr_skill_ids profile' = pr_skill_ids profile" "pr_allowed_tools profile' = pr_allowed_tools profile"
    by (subst prof, simp)+
  moreover have cap: "rp_capability p = pr_capability profile'" by (subst p) (simp add: draft_profile_def)
  ultimately have tools: "tool \<in> set (rp_allowed_tools p) \<longleftrightarrow> tool \<in> set (ch_allowed_tools channel)
      \<and> tool \<in> set (wp_allowed_tools worker) \<and> tool \<in> set (pr_allowed_tools profile)
      \<and> (\<forall>k \<in> set (rp_skills p). tool \<notin> set (sk_forbidden_tools k))
      \<and> ((rp_capability p \<noteq> None \<and> (rp_skills p = [] \<or> tool \<in> set capability_host_tools))
         \<or> (\<exists>k \<in> set (rp_skills p). tool \<in> set (sk_allowed_tools k)))" for tool
    by (subst (1) p, simp add: draft_profile_def resolve_allowed_tools_set cap)
  have f: "rp_model p = pr_model profile'" "rp_memory p = pr_memory profile'"
      "rp_budget p = resolve_budget (wp_budget_defaults worker) (pr_budget profile') (ch_budget_limits channel)"
    by (subst p, simp add: draft_profile_def)+
  have ids: "pr_skill_ids profile' = pr_skill_ids profile" by (subst prof) simp
  have t1: "set (rp_allowed_tools p) \<subseteq> set (ch_allowed_tools channel) \<inter> set (wp_allowed_tools worker) \<inter> set (pr_allowed_tools profile)"
    and t2: "\<forall>k \<in> set (rp_skills p). set (rp_allowed_tools p) \<inter> set (sk_forbidden_tools k) = {}"
    and t3: "rp_capability p = None \<longrightarrow> set (rp_allowed_tools p) \<subseteq> \<Union> ((set \<circ> sk_allowed_tools) ` set (rp_skills p))"
    by (auto simp: tools)
  show ?thesis
    using t1 t2 t3 m keep(1,2) resolve_skills_ok [OF sk, unfolded ids]
    unfolding f keep resolve_budget_asked by auto
qed

theorem resolve_run_profile_least_privilege_witness:
  "\<exists>p. resolve_run_profile demo_host [demo_skill] demo_channel_policy demo_worker_profile demo_run_profile = Inr p
     \<and> rp_allowed_tools p = [''read''] \<and> rp_model p = demo_model \<and> map_of (rp_budget p) ''turns'' = Some 5
     \<and> (\<forall>k \<in> set (rp_skills p). set (rp_allowed_tools p) \<inter> set (sk_forbidden_tools k) = {})"
proof (rule demo_profile_cases)
  fix p assume r: "resolve_run_profile demo_host [demo_skill] demo_channel_policy demo_worker_profile demo_run_profile = Inr p"
    and "rp_allowed_tools p = [''read'']"
  moreover note g = resolve_run_profile_least_privilege [OF r]
  then have "rp_model p = demo_model" by (simp add: demo_run_profile_def)
  moreover from g have "map_of (rp_budget p) ''turns'' = Some 5"
    by (simp add: demo_run_profile_def demo_worker_profile_def demo_channel_policy_def budget_keys_def)
  ultimately show ?thesis using g r by blast
qed

lemma opt_parse_Some: "opt_parse f x = Inr (Some y) \<Longrightarrow> \<exists>a. x = Some a \<and> f a = Inr y"
  by (auto simp: opt_parse_def elim!: r_bindE split: option.splits)

lemma resolved_snapshot_parses:
  assumes le: "total_preorder (locale_le h)" and r: "resolve_run_profile h catalog channel worker profile = Inr p"
    and ok: "budget_ok (wp_budget_defaults worker)" "budget_ok (pr_budget profile)" "budget_ok (ch_budget_limits channel)"
    and ne: "rp_budget p \<noteq> []"
  shows "parse_resolved_profile h (profile_js p) = Inr (p\<lparr>rp_budget := budget_parsed_order (rp_budget p)\<rparr>)
    \<and> set (budget_parsed_order (rp_budget p)) = set (rp_budget p)"
proof (rule resolve_run_profile_facts [OF r])
  fix profile'
  define d where "d = draft_profile channel worker profile' (rp_skills p)"
  assume ch: "copy_channel_policy (pr_capability profile \<noteq> None) channel = Inr channel"
    and wk: "copy_worker_profile (pr_capability profile \<noteq> None) worker = Inr worker"
    and c: "copy_run_profile h profile = Inr profile'"
    and sk: "r_mapi (resolve_skill catalog (ch_allowed_skill_ids channel) (wp_allowed_skill_ids worker)) 0
       (pr_skill_ids profile') = Inr (rp_skills p)"
    and "p = (draft_profile channel worker profile' (rp_skills p))
       \<lparr>rp_hash := profile_hash h (draft_profile channel worker profile' (rp_skills p))\<rparr>"
  then have p: "p = d\<lparr>rp_hash := profile_hash h d\<rparr>" by (simp add: d_def)
  note all = copy_run_profile_all [OF c]
  have prof: "profile' = profile\<lparr>pr_capability := pr_capability profile', pr_kernel := pr_kernel profile',
      pr_skill_catalog := pr_skill_catalog profile'\<rparr>"
    using all by blast
  have eqs: "pr_id profile' = pr_id profile" "pr_version profile' = pr_version profile" "pr_model profile' = pr_model profile"
      "pr_skill_ids profile' = pr_skill_ids profile" "pr_transforms profile' = pr_transforms profile"
      "pr_budget profile' = pr_budget profile" "pr_memory profile' = pr_memory profile" "pr_eval profile' = pr_eval profile"
      "pr_artifact profile' = pr_artifact profile" "pr_terminal profile' = pr_terminal profile"
    by (subst prof, simp)+
  have bud: "rp_budget d = resolve_budget (wp_budget_defaults worker) (pr_budget profile) (ch_budget_limits channel)"
    by (simp add: d_def draft_profile_def eqs)
  let ?b = "budget_parsed_order (rp_budget d)"
  have same: "set ?b = set (rp_budget d)"
    unfolding bud
    by (rule budget_parsed_order_set [OF resolve_budget_distinct [THEN conjunct1] resolve_budget_distinct [THEN conjunct2]])
  have ne': "resolve_budget (wp_budget_defaults worker) (pr_budget profile) (ch_budget_limits channel) \<noteq> []"
    using ne by (simp add: p bud)
  have hash: "profile_hash h (d\<lparr>rp_budget := ?b\<rparr>) = profile_hash h d"
    using resolve_budget_distinct budget_parsed_order_distinct same by (intro profile_hash_budget) (simp_all add: bud)
  have trs: "r_mapi (\<lambda>j s. parse_snapshot_transform s (index_name n j)) 0 (map transform_js (pr_transforms profile)) =
      Inr (pr_transforms profile)" for n
  proof (rule r_mapi_ok)
    fix j t assume "t \<in> set (pr_transforms profile)"
    with all obtain i u where "snapshot_transform i u = Inr t" by (meson r_mapi_Inr_set)
    then show "parse_snapshot_transform (transform_js t) (index_name n j) = Inr t" by (blast dest: snapshot_transform_js)
  qed
  have sks: "r_mapi (\<lambda>j s. snapshot_skill_entry s (index_name n j)) 0 (map skill_js (rp_skills p)) = Inr (rp_skills p)" for n
    using resolve_skills_ok [OF sk] by (intro r_mapi_ok) simp
  have tools: "\<forall>t \<in> set (rp_allowed_tools d). \<not> is_blank t"
    using copy_channel_policy_id [OF ch] by (auto simp: d_def draft_profile_def resolve_allowed_tools_set)
  note art = artifact_id [of "pr_artifact profile" "''RunProfile.artifactContract''" "pr_artifact profile"]
  note wk = copy_worker_profile_id [OF wk, THEN conjunct2]
  have "parse_snapshot_fields (stored_fields d (profile_hash h d)) (map skill_js (rp_skills d)) (map transform_js (rp_transforms d))
     [(''read'', JStr (mem_read (rp_memory d))), (''write'', JStr (mem_write (rp_memory d)))]
     [(''contract'', JStr (ep_contract (rp_eval d))), (''quality'', JStr (ep_quality (rp_eval d)))]
     [(''kind'', JStr (ac_kind (rp_artifact d))), (''requiredFor'', js_strings (ac_required_for (rp_artifact d))),
      (''verification'', JStr (ac_verification (rp_artifact d)))]
     [(''allowedOutcomes'', js_strings (tr_allowed_outcomes (rp_terminal d))),
      (''stopCondition'', JStr (tr_stop_condition (rp_terminal d)))]
     (blank_profile\<lparr>rp_worker_profile_id := rp_worker_id d, rp_worker_id := rp_worker_id d,
        rp_worker_version := rp_worker_version d, rp_worker_instructions := rp_worker_instructions d,
        rp_skill_catalog := rp_skill_catalog d, rp_capability := rp_capability d, rp_kernel := rp_kernel d\<rparr>)
     = Inr (d\<lparr>rp_budget := ?b\<rparr>)" (is ?fields)
  proof -
    note run = resolve_budget_parsed [OF ok ne', folded bud]
    have m: "parse_snapshot_model (model_js (pr_model profile)) n = Inr (pr_model profile)" for n
      using all snapshot_model_id by blast
    have f: "rp_id d = pr_id profile" "rp_version d = pr_version profile" "rp_model d = pr_model profile"
        "rp_skills d = rp_skills p" "rp_transforms d = pr_transforms profile" "rp_memory d = pr_memory profile"
        "rp_eval d = pr_eval profile" "rp_artifact d = pr_artifact profile" "rp_terminal d = pr_terminal profile"
      by (simp_all add: d_def draft_profile_def eqs)
    show ?thesis
      using all art tools
      by (simp add: parse_snapshot_fields_def profile_get f m sks trs run parse_runs)
        (simp add: d_def draft_profile_def eqs blank_profile_def)
  qed
  have "parse_resolved_profile h (profile_js (d\<lparr>rp_hash := profile_hash h d\<rparr>)) =
      Inr ((d\<lparr>rp_budget := ?b\<rparr>)\<lparr>rp_hash := profile_hash h d\<rparr>)"
  proof (rule parse_resolved_profile_run)
    show "profile_hash h (d\<lparr>rp_budget := ?b\<rparr>) = profile_hash h d" by (rule hash)
    show ?fields by fact
    show "parse_capability_policy h (capability_policy_js y) = Inr y" if "rp_capability d = Some y" for y
      using all that le by (auto simp: d_def draft_profile_def dest!: opt_parse_Some intro: parse_capability_policy_again)
    show "parse_kernel_descriptor (kernel_js y) = Inr y" if "rp_kernel d = Some y" for y
      using all that by (auto simp: d_def draft_profile_def dest!: opt_parse_Some intro: parse_kernel_again)
    show "parse_skill_catalog h (skill_catalog_js y) = Inr y" if "rp_skill_catalog d = Some y" for y
      using all that le by (auto simp: d_def draft_profile_def dest!: opt_parse_Some intro: parse_skill_catalog_again)
    show "rp_skills d = [] \<longrightarrow> rp_capability d \<noteq> None"
      using all resolve_skills_ok [OF sk] eqs by (auto simp: d_def draft_profile_def)
    show "rp_transforms d \<noteq> []" using all eqs by (simp add: d_def draft_profile_def)
  qed (use wk in \<open>simp_all add: d_def draft_profile_def\<close>)
  then show ?thesis using same by (simp add: p)
qed

text \<open>
  C2. A resolved profile can be stored and read back: when the three budgets hold positive
  limits and set at least one, the snapshot parser accepts the resolved snapshot with its
  recorded hash and returns it, up to the place of \<open>cost\<close> among the keys of the budget.
\<close>

theorem resolved_profile_parses:
  assumes le: "total_preorder (locale_le h)" and r: "resolve_run_profile h catalog channel worker profile = Inr p"
    and ok: "budget_ok (wp_budget_defaults worker)" "budget_ok (pr_budget profile)" "budget_ok (ch_budget_limits channel)"
    and ne: "rp_budget p \<noteq> []"
  shows "parse_resolved_profile h (profile_js p) = Inr (p\<lparr>rp_budget := budget_parsed_order (rp_budget p)\<rparr>)
    \<and> set (budget_parsed_order (rp_budget p)) = set (rp_budget p)"
  by (rule resolved_snapshot_parses [OF assms])

theorem resolved_profile_parses_witness:
  "\<exists>p. resolve_run_profile demo_host [demo_skill] demo_channel_policy demo_worker_profile demo_run_profile = Inr p
     \<and> parse_resolved_profile demo_host (profile_js p) = Inr (p\<lparr>rp_budget := budget_parsed_order (rp_budget p)\<rparr>)"
proof (rule demo_profile_cases)
  fix p assume r: "resolve_run_profile demo_host [demo_skill] demo_channel_policy demo_worker_profile demo_run_profile = Inr p"
    and "rp_budget p = [(''turns'', 5)]"
  with resolved_profile_parses [OF total_preorder_demo_host r demo_budgets] show ?thesis by simp
qed

end
