(* ===== verification/Examples.thy ===== *)
theory Examples
  imports ProfileResolution ContractFacts
begin

text \<open>
  Concrete records on the concrete host, for the examples of the properties: two scopes, an
  event, and a start command that carries the profile resolved from the sample policies.
\<close>

definition demo_scope :: scope where
  "demo_scope = \<lparr>sc_workspace = ''w'', sc_channel = ''c''\<rparr>"

definition other_scope :: scope where
  "other_scope = \<lparr>sc_workspace = ''w'', sc_channel = ''d''\<rparr>"

definition demo_event :: "string \<Rightarrow> int \<Rightarrow> string \<Rightarrow> canonical_event" where
  "demo_event i n ty = \<lparr>ev_id = i, ev_scope = demo_scope, ev_stream = ''r'', ev_seq = n, ev_type = ty,
     ev_timestamp = ''7'', ev_schema_version = 1, ev_payload = JObj []\<rparr>"

lemma demo_event_ok: "\<not> is_blank i \<Longrightarrow> \<not> is_blank ty \<Longrightarrow> 0 \<le> n \<Longrightarrow> n \<le> max_safe \<Longrightarrow> event_ok demo_host (demo_event i n ty)"
  by (simp add: event_ok_def demo_event_def scope_ok_def demo_scope_def is_blank_iff is_space_def demo_host_def
      parse_millis_def is_digit_def max_safe_def)

definition demo_snapshot :: resolved_profile where
  "demo_snapshot = (case resolve_run_profile demo_host [demo_skill] demo_channel_policy demo_worker_profile demo_run_profile of
     Inr p \<Rightarrow> p | Inl _ \<Rightarrow> blank_profile)"

definition demo_fields :: run_fields where
  "demo_fields = \<lparr>rf_goal = ''g'', rf_scope = demo_scope, rf_source_event = ''e'', rf_profile_id = ''p'',
     rf_profile_version = ''1'', rf_snapshot = demo_snapshot, rf_budget = [(''turns'', 5)], rf_permission = ''x'',
     rf_stop = ''artifact_or_terminal'', rf_parent = None, rf_lane = None, rf_trigger = None\<rparr>"

definition demo_start :: start_run where
  "demo_start = \<lparr>sr_command_id = ''k'', sr_run_id = ''r'', sr_surface = None, sr_fields = demo_fields\<rparr>"

lemma demo_snapshot_facts:
  "parse_resolved_profile demo_host (profile_js demo_snapshot) = Inr demo_snapshot"
  "rp_id demo_snapshot = ''p''" "rp_version demo_snapshot = ''1''" "rp_budget demo_snapshot = [(''turns'', 5)]"
  "tr_stop_condition (rp_terminal demo_snapshot) = ''artifact_or_terminal''"
  "rp_memory demo_snapshot = \<lparr>mem_read = ''channel'', mem_write = ''propose''\<rparr>"
proof -
  obtain p where r: "resolve_run_profile demo_host [demo_skill] demo_channel_policy demo_worker_profile demo_run_profile = Inr p"
    and f: "rp_budget p = [(''turns'', 5)]" "rp_id p = ''p''" "rp_version p = ''1''"
      "tr_stop_condition (rp_terminal p) = ''artifact_or_terminal''"
      "rp_memory p = \<lparr>mem_read = ''channel'', mem_write = ''propose''\<rparr>"
    by (rule demo_profile_cases)
  have p: "demo_snapshot = p" by (simp add: demo_snapshot_def r)
  have "budget_parsed_order (rp_budget p) = rp_budget p"
    by (simp add: f budget_parsed_order_def budget_keys_def map_filter_simps)
  then have "p\<lparr>rp_budget := budget_parsed_order (rp_budget p)\<rparr> = p" by simp
  then show "parse_resolved_profile demo_host (profile_js demo_snapshot) = Inr demo_snapshot"
    using resolved_snapshot_parses [OF total_preorder_demo_host r demo_budgets] f by (simp add: p)
  show "rp_id demo_snapshot = ''p''" "rp_version demo_snapshot = ''1''" "rp_budget demo_snapshot = [(''turns'', 5)]"
    "tr_stop_condition (rp_terminal demo_snapshot) = ''artifact_or_terminal''"
    "rp_memory demo_snapshot = \<lparr>mem_read = ''channel'', mem_write = ''propose''\<rparr>"
    by (simp_all add: p f)
qed

lemma demo_budget_parses: "parse_budget (budget_js [(''turns'', 5)]) = Inr [(''turns'', 5)]"
  using expect_runs(3) [of 5]
  by (simp add: parse_budget_def budget_js_def parse_runs read_budget_def budget_cost_def max_safe_def)

lemma demo_start_parses: "parse_start_run demo_host (start_run_js demo_start) = Inr demo_start"
proof -
  have blank: "\<not> is_blank (CHR ''k'' # [])" "\<not> is_blank ''r''" "\<not> is_blank ''p''" "\<not> is_blank ''1''" "\<not> is_blank ''g''"
      "\<not> is_blank ''w''" "\<not> is_blank ''c''" "\<not> is_blank ''e''" "\<not> is_blank ''x''" "\<not> is_blank ''artifact_or_terminal''"
    by (simp_all add: is_blank_iff is_space_def)
  note get = run_fields_get [OF same_run_fields_refl]
  have surface: "js_field (run_fields_js f) ''surfaceId'' = JUndef" for f
    by (simp add: run_fields_js_def scope_fields_def opt_field_def split: option.splits)
  show ?thesis
    unfolding parse_start_run_def start_run_js_def parse_run_contract_def parse_run_rest_def
    by (simp add: parse_runs demo_start_def get demo_fields_def blank demo_snapshot_facts demo_budget_parses
        assert_run_profile_execution_contract_def budgets_match_def js_dedup_def optional_field_def both_or_neither_def
        parse_scope_fields_def demo_scope_def opt_field_def surface)
qed

end
