(* ===== verification/StoreProperties.thy ===== *)
theory StoreProperties
  imports StoreLedger Examples
begin

text \<open>
  The event store's properties: the log is well formed, append-only and sealed by terminal
  events; both ways of appending, branch by branch; channels are isolated; runs are claimed once;
  command listings; projections count every event once; occurrences are claimed and started once.
  The examples run the operations on the concrete host.
\<close>

section \<open>Example stores\<close>

lemma array_room_empty: "array_room h empty_store"
  by (simp add: array_room_def stream_events_def js_get_or_def empty_store_def)

lemma reachable_empty: "reachable_store h empty_store"
  unfolding reachable_store_def by (rule store_steps.start)

definition demo_log :: store where
  "demo_log = push_event demo_host demo_scope (demo_event ''a'' 0 ''run.started'') empty_store"

lemma empty_streams [simp]: "stream_events h s stream empty_store = []" "stored_event h s i empty_store = None"
  by (simp_all add: stream_events_def stored_event_def js_get_or_def empty_store_def)

lemma demo_events_ok:
  "event_ok demo_host (demo_event ''a'' 0 ''run.started'')" "event_ok demo_host (demo_event ''b'' n ''run.completed'') = (0 \<le> n \<and> n \<le> max_safe)"
  by (simp_all add: demo_event_ok is_blank_iff is_space_def max_safe_def)
    (auto simp: event_ok_def demo_event_def scope_ok_def demo_scope_def is_blank_iff is_space_def demo_host_def
      parse_millis_def is_digit_def max_safe_def)

lemma demo_log_call: "demo_log = run_call demo_host demo_scope (CallAppend (demo_event ''a'' 0 ''run.started'')) empty_store"
  by (simp add: demo_log_def append_event_def act_bind_def act_lift_def clone_event_run demo_events_ok)
    (simp add: demo_event_def Let_def)

lemma reachable_demo_log: "reachable_store demo_host demo_log"
  unfolding demo_log_call by (rule reachable_call [OF reachable_empty array_room_empty])

lemma demo_log_events:
  "stream_events demo_host demo_scope ''r'' demo_log = [demo_event ''a'' 0 ''run.started'']"
  "stored_event demo_host demo_scope ''a'' demo_log = Some (demo_event ''a'' 0 ''run.started'')"
  "stored_event demo_host demo_scope ''b'' demo_log = None"
  by (simp_all add: demo_log_def) (simp_all add: demo_event_def)

lemma demo_started_open: "\<not> is_terminal_event (ev_type (demo_event i n ''run.started''))"
  by (simp add: demo_event_def is_terminal_event_def final_event_types_def)

lemma demo_log_room: "array_room demo_host demo_log"
  by (simp add: array_room_def demo_log_def)

definition demo_claims :: store where
  "demo_claims = run_call demo_host demo_scope (CallClaimStart demo_start) empty_store"

lemma reachable_demo_claims: "reachable_store demo_host demo_claims"
  unfolding demo_claims_def by (rule reachable_call [OF reachable_empty array_room_empty])

lemma demo_claimed: "get_run_command demo_host demo_scope ''r'' demo_claims = (Inr (Some demo_start), demo_claims)"
proof -
  have "sr_run_id demo_start = ''r''" "rf_scope (sr_fields demo_start) = demo_scope"
    by (simp_all add: demo_start_def demo_fields_def)
  moreover have "clone_start_run demo_host demo_start = Inr demo_start"
    by (simp add: clone_start_run_def demo_start_parses)
  ultimately show ?thesis
    by (simp add: demo_claims_def claim_start_def act_bind_def act_lift_def Let_def get_run_command_def clone_option_def)
      (simp add: empty_store_def)
qed

section \<open>The log\<close>

text \<open>
  C3. Every reachable store is a well-formed log: the events of a stream carry the scope and
  the stream they are stored under, are numbered 0, 1, 2, ... in order, pass their own schema,
  are found again under their identifier, and nothing follows a terminal event.
\<close>

theorem event_log_well_formed:
  assumes "reachable_store h st" and "i < length (stream_events h s stream st)"
  shows "let e = stream_events h s stream st ! i in ev_seq e = int i \<and> ev_scope e = s \<and> ev_stream e = stream \<and> event_ok h e
    \<and> stored_event h s (ev_id e) st = Some e
    \<and> (Suc i < length (stream_events h s stream st) \<longrightarrow> \<not> is_terminal_event (ev_type e))"
  using log_ok_nth [OF reachable_log_ok [OF assms(1)] assms(2)] by (simp add: Let_def)

lemma event_log_well_formed_witness:
  "ev_seq (stream_events demo_host demo_scope ''r'' demo_log ! 0) = 0"
  using event_log_well_formed [OF reachable_demo_log, of 0 demo_scope "''r''"] by (simp add: demo_log_events Let_def)

text \<open>
  C4. The log is append-only and terminal events seal it: whatever calls are made later, by
  whatever scope, a stream keeps its events as a prefix, and a stream that holds a terminal
  event stays exactly as it is.
\<close>

theorem event_log_append_only:
  assumes "reachable_store h st" and "store_steps h st st'"
  shows "\<exists>new. stream_events h s stream st' = stream_events h s stream st @ new
    \<and> ((\<exists>e \<in> set (stream_events h s stream st). is_terminal_event (ev_type e)) \<longrightarrow> new = [])"
  using steps_stream [OF assms(2,1)] by (simp add: sealed_def)

lemma event_log_append_only_witness:
  "\<exists>new. stream_events demo_host demo_scope ''r''
     (run_call demo_host other_scope (CallAppendIdempotent (demo_event ''b'' 1 ''run.completed'')) demo_log)
     = demo_event ''a'' 0 ''run.started'' # new"
  using event_log_append_only [OF reachable_demo_log store_steps.step [OF store_steps.start demo_log_room],
      of demo_scope "''r''" other_scope "CallAppendIdempotent (demo_event ''b'' 1 ''run.completed'')"]
  by (auto simp: demo_log_events)

text \<open>
  C5. Appending, branch by branch. An event of another scope is refused. An event whose
  identifier is stored is accepted without effect when it is the stored event up to the order
  of keys in its payload, and is a conflict otherwise. A new event is accepted exactly when its
  number is the length of its stream and the stream is not sealed; only then does the store
  change, by that event alone.
\<close>

theorem append_event_branches:
  assumes h: "digits_ok h" and st: "reachable_store h st" and e: "event_ok h e"
  shows "append_event h s e st =
    (if ev_scope e \<noteq> s then (Inl EventScopeMismatchError, st)
     else case stored_event h s (ev_id e) st of
       Some e' \<Rightarrow> (if canon (event_js e') = canon (event_js e) then Inr () else Inl EventConflictError, st)
     | None \<Rightarrow>
         if ev_seq e \<noteq> int (length (stream_events h s (ev_stream e) st)) then (Inl EventSequenceConflictError, st)
         else if \<exists>x \<in> set (stream_events h s (ev_stream e) st). is_terminal_event (ev_type x)
         then (Inl TerminalEventConflictError, st)
         else (Inr (), push_event h s e st))"
proof -
  have "stable_json h (event_js e') = stable_json h (event_js e) \<longleftrightarrow> canon (event_js e') = canon (event_js e)"
    if "stored_event h s (ev_id e) st = Some e'" for e'
  proof -
    have "event_ok h e'"
      using log_ok_stored [OF reachable_log_ok [OF st] that] log_ok_in [OF reachable_log_ok [OF st]] by blast
    with e show ?thesis by (intro stable_json_eq_iff h is_json_event)
  qed
  then show ?thesis
    by (auto simp: append_event_def act_bind_def act_lift_def clone_event_run [OF e] Let_def list_ex_iff split: option.splits)
qed

lemma append_event_branches_witness:
  "append_event demo_host demo_scope (demo_event ''b'' 3 ''run.completed'') demo_log = (Inl EventSequenceConflictError, demo_log)
   \<and> append_event demo_host demo_scope (demo_event ''b'' 1 ''run.completed'') demo_log
       = (Inr (), push_event demo_host demo_scope (demo_event ''b'' 1 ''run.completed'') demo_log)"
proof -
  have b: "ev_scope (demo_event ''b'' n t) = demo_scope" "ev_id (demo_event ''b'' n t) = ''b''"
    "ev_stream (demo_event ''b'' n t) = ''r''" "ev_seq (demo_event ''b'' n t) = n" for n t
    by (simp_all add: demo_event_def)
  show ?thesis
    using append_event_branches [OF digits_ok_demo_host reachable_demo_log, of "demo_event ''b'' 3 ''run.completed''"]
      append_event_branches [OF digits_ok_demo_host reachable_demo_log, of "demo_event ''b'' 1 ''run.completed''"]
    by (simp add: demo_events_ok max_safe_def b demo_log_events demo_started_open)
qed

text \<open>
  Idempotent appending never fails on the sequence number. A new event of the right scope
  is stored at the end of its unsealed stream under the next number, whatever number it came
  with, and reported as new; a retry is reported as known without effect even when its number
  and timestamp have moved on.
\<close>

theorem append_idempotent_retry:
  assumes h: "digits_ok h" and st: "reachable_store h st" and room: "array_room h st"
    and e: "event_ok h e" "ev_scope e = s" and new: "stored_event h s (ev_id e) st = None"
    and unsealed: "\<forall>x \<in> set (stream_events h s (ev_stream e) st). \<not> is_terminal_event (ev_type x)"
  shows "let e' = e\<lparr>ev_seq := int (length (stream_events h s (ev_stream e) st))\<rparr> in
    append_idempotent h s e st = (Inr True, push_event h s e' st)
    \<and> (\<forall>t n. date_parse h t \<noteq> None \<longrightarrow> \<not> is_blank t \<longrightarrow> 0 \<le> n \<longrightarrow> n \<le> max_safe \<longrightarrow>
        append_idempotent h s (e\<lparr>ev_seq := n, ev_timestamp := t\<rparr>) (push_event h s e' st) = (Inr False, push_event h s e' st))"
proof -
  define e' where "e' = e\<lparr>ev_seq := int (length (stream_events h s (ev_stream e) st))\<rparr>"
  have "append_idempotent h s e st = (Inr True, push_event h s e' st)
    \<and> (\<forall>t n. date_parse h t \<noteq> None \<longrightarrow> \<not> is_blank t \<longrightarrow> 0 \<le> n \<longrightarrow> n \<le> max_safe \<longrightarrow>
        append_idempotent h s (e\<lparr>ev_seq := n, ev_timestamp := t\<rparr>) (push_event h s e' st) = (Inr False, push_event h s e' st))"
  proof (intro conjI allI impI)
    show "append_idempotent h s e st = (Inr True, push_event h s e' st)"
      using e new unsealed
      by (auto simp: append_idempotent_def act_bind_def act_lift_def clone_event_run Let_def list_ex_iff e'_def)
    fix t n assume "date_parse h t \<noteq> None" "\<not> is_blank t" "0 \<le> n" "n \<le> max_safe"
    then have "event_ok h (e\<lparr>ev_seq := n, ev_timestamp := t\<rparr>)" using e by (simp add: event_ok_def)
    moreover have "unstamped e' = unstamped (e\<lparr>ev_seq := n, ev_timestamp := t\<rparr>)" by (simp add: unstamped_def e'_def)
    ultimately show "append_idempotent h s (e\<lparr>ev_seq := n, ev_timestamp := t\<rparr>) (push_event h s e' st) = (Inr False, push_event h s e' st)"
      using e by (simp add: append_idempotent_def act_bind_def act_lift_def clone_event_run Let_def)
        (simp add: e'_def)
  qed
  then show ?thesis by (simp add: e'_def Let_def)
qed

lemma append_idempotent_retry_witness:
  "append_idempotent demo_host demo_scope (demo_event ''b'' 0 ''run.completed'') demo_log
    = (Inr True, push_event demo_host demo_scope (demo_event ''b'' 1 ''run.completed'') demo_log)"
proof -
  have b: "ev_scope (demo_event ''b'' n t) = demo_scope" "ev_id (demo_event ''b'' n t) = ''b''"
    "ev_stream (demo_event ''b'' n t) = ''r''" "(demo_event ''b'' n t)\<lparr>ev_seq := 1\<rparr> = demo_event ''b'' 1 t" for n t
    by (simp_all add: demo_event_def)
  show ?thesis
    using append_idempotent_retry [OF digits_ok_demo_host reachable_demo_log demo_log_room, of "demo_event ''b'' 0 ''run.completed''"]
    by (simp add: demo_events_ok max_safe_def b demo_log_events demo_started_open Let_def)
qed

text \<open>
  C7. What a channel can observe of a call made in another one. Its streams, its commands by either
  identifier, its session, its projections, its active runs, its schedules, occurrences,
  notifications and trigger registrations read the same before and after. The two listings that
  look at the commands of all scopes, of the commands and of the streams of a run, read the same
  unless the call claims a run; a claim can add the claimed run, to the listing of streams only when
  it is a child of the run asked for, and takes no identifier out of either.
\<close>

theorem scopes_are_isolated:
  assumes "s \<noteq> s'" and st': "st' = run_call h s c st"
  shows "fst (read_events h s' stream n st') = fst (read_events h s' stream n st)
    \<and> fst (get_command h s' i st') = fst (get_command h s' i st)
    \<and> fst (get_run_command h s' i st') = fst (get_run_command h s' i st)
    \<and> fst (get_channel_session h s' st') = fst (get_channel_session h s' st)
    \<and> fst (load_projection h s' projector stream st') = fst (load_projection h s' projector stream st)
    \<and> fst (active_run_ids h s' st') = fst (active_run_ids h s' st)
    \<and> fst (list_schedules h s' st') = fst (list_schedules h s' st)
    \<and> fst (list_occurrences h s' i st') = fst (list_occurrences h s' i st)
    \<and> fst (list_notifications h s' i st') = fst (list_notifications h s' i st)
    \<and> fst (has_trigger h s' t st') = fst (has_trigger h s' t st)
    \<and> ((\<nexists>x. c = CallClaimStart x) \<longrightarrow> fst (list_run_commands h s' st') = fst (list_run_commands h s' st)
         \<and> fst (list_run_stream_ids h s' run st') = fst (list_run_stream_ids h s' run st))
    \<and> (\<forall>ids ids'. fst (list_run_stream_ids h s' run st) = Inr ids \<longrightarrow> fst (list_run_stream_ids h s' run st') = Inr ids' \<longrightarrow>
         set ids \<subseteq> set ids' \<and> (\<forall>j \<in> set ids' - set ids. \<exists>x y. c = CallClaimStart x \<and> clone_start_run h x = Inr y
           \<and> sr_run_id y = j \<and> map_option fst (rf_parent (sr_fields y)) = Some run))
    \<and> (\<forall>cs cs'. fst (list_run_commands h s' st) = Inr cs \<longrightarrow> fst (list_run_commands h s' st') = Inr cs' \<longrightarrow>
         sr_run_id ` set cs \<subseteq> sr_run_id ` set cs' \<and> (\<forall>j \<in> sr_run_id ` set cs' - sr_run_id ` set cs.
           \<exists>x y. c = CallClaimStart x \<and> clone_start_run h x = Inr y \<and> sr_run_id y = j))"
proof -
  have same: "same_scope h s' st st'" unfolding st' by (rule run_call_other_scope [OF assms(1)])
  have streams: "stream_events h s' x st' = stream_events h s' x st" for x
    using same by (simp add: same_scope_def stream_events_def js_get_or_def)
  have reads: "fst (read_events h s' stream n st') = fst (read_events h s' stream n st)"
      "fst (get_command h s' i st') = fst (get_command h s' i st)"
      "fst (get_run_command h s' i st') = fst (get_run_command h s' i st)"
      "fst (get_channel_session h s' st') = fst (get_channel_session h s' st)"
      "fst (load_projection h s' projector stream st') = fst (load_projection h s' projector stream st)"
      "fst (active_run_ids h s' st') = fst (active_run_ids h s' st)"
      "fst (list_schedules h s' st') = fst (list_schedules h s' st)"
      "fst (list_occurrences h s' i st') = fst (list_occurrences h s' i st)"
      "fst (list_notifications h s' i st') = fst (list_notifications h s' i st)"
      "fst (has_trigger h s' t st') = fst (has_trigger h s' t st)"
    using same unfolding same_scope_def
    by (simp_all add: read_events_def get_command_def get_run_command_def get_channel_session_def load_projection_def
        active_run_ids_def list_schedules_def list_occurrences_def list_notifications_def has_trigger_def streams
        projection_key_def trigger_key_def scoped_values_def)
  note same_lists = listing_other_scope_same [OF assms(1), where c = c and st = st and h = h, folded st']
    and lists = listings_other_scope [OF assms(1), where c = c and st = st and h = h, folded st']
  show ?thesis by (intro conjI reads allI impI; (rule same_lists lists [THEN conjunct1] lists [THEN conjunct2]; assumption))
qed

lemma scopes_are_isolated_witness:
  "fst (read_events demo_host other_scope ''r'' None demo_log) = fst (read_events demo_host other_scope ''r'' None empty_store)"
  using scopes_are_isolated [OF _ demo_log_call, of other_scope] by (simp add: demo_scope_def other_scope_def)

text \<open>
  The in-memory listing of commands ignores the scope it is asked for. Whatever the scope,
  it holds every run claimed in any scope, each run once and in the order of their identifiers:
  a channel sees the commands of the others (the SQLite store filters by scope).
\<close>

theorem listed_commands_cross_scopes:
  assumes "total_preorder (locale_le h)" and "reachable_store h st"
  shows "\<exists>cs. list_run_commands h s st = (Inr cs, st) \<and> distinct (map sr_run_id cs)
    \<and> sorted_wrt (\<lambda>a b. locale_le h (sr_run_id a) (sr_run_id b)) cs
    \<and> (\<forall>run. run \<in> sr_run_id ` set cs \<longleftrightarrow> (\<exists>s' c. get_run_command h s' run st = (Inr (Some c), st)))
    \<and> (\<forall>c \<in> set cs. \<exists>s'. get_run_command h s' (sr_run_id c) st = (Inr (Some c), st))"
  by (rule list_run_commands_facts [OF assms]) blast

lemma listed_commands_cross_scopes_witness:
  "\<exists>cs. list_run_commands demo_host other_scope demo_claims = (Inr cs, demo_claims) \<and> ''r'' \<in> sr_run_id ` set cs"
  using listed_commands_cross_scopes [OF total_preorder_demo_host reachable_demo_claims, of other_scope] demo_claimed by blast

text \<open>
  C9. A run is claimed once. In a reachable store a run id and a command id lead to the same
  command, which belongs to the scope it is looked up in; that command stays claimed for good,
  claiming it again returns it and changes nothing, and a different command with the same
  command id or for the same run is refused without effect.
\<close>

theorem run_claimed_once:
  assumes le: "total_preorder (locale_le h)" and st: "reachable_store h st" and later: "store_steps h st st'"
    and c: "get_run_command h s run st = (Inr (Some c), st)"
  shows "get_command h s (sr_command_id c) st = (Inr (Some c), st) \<and> sr_run_id c = run \<and> rf_scope (sr_fields c) = s
    \<and> get_run_command h s run st' = (Inr (Some c), st')
    \<and> claim_start h s c st' = (Inr c, st')
    \<and> (\<forall>d d'. clone_start_run h d = Inr d' \<longrightarrow> rf_scope (sr_fields d') = s \<longrightarrow>
         sr_run_id d' = run \<or> sr_command_id d' = sr_command_id c \<longrightarrow>
         claim_start h s d st' = (Inl CommandConflictError, st')
         \<or> (\<exists>x. get_command h s (sr_command_id d') st' = (Inr (Some x), st') \<and> claim_start h s d st' = (Inr x, st')
              \<and> stable_json h (start_run_js x) = stable_json h (start_run_js d')))"
proof -
  note ok = reachable_commands_ok [OF le st] and ok' = reachable_commands_ok [OF le reachable_steps [OF st later]]
  have r: "map_of (st_commands st) (scoped_key h s ''run'' run) = Some c"
    using c by (simp add: get_run_command_run [OF ok])
  note facts = commands_ok_in(1) [OF ok r]
  have r': "map_of (st_commands st') (scoped_key h s ''run'' run) = Some c"
    and k': "map_of (st_commands st') (scoped_key h s ''command'' (sr_command_id c)) = Some c"
    using steps_commands [OF later] r facts by auto
  have retry: "claim_start h s c st' = (Inr c, st')"
    using facts k' by (simp add: claim_start_def act_bind_def act_lift_def Let_def)
  have other: "claim_start h s d st' = (Inl CommandConflictError, st')
       \<or> (\<exists>x. get_command h s (sr_command_id d') st' = (Inr (Some x), st') \<and> claim_start h s d st' = (Inr x, st')
            \<and> stable_json h (start_run_js x) = stable_json h (start_run_js d'))"
    if "clone_start_run h d = Inr d'" "rf_scope (sr_fields d') = s" "sr_run_id d' = run \<or> sr_command_id d' = sr_command_id c" for d d'
  proof (cases "map_of (st_commands st') (scoped_key h s ''command'' (sr_command_id d'))")
    case None
    with that k' have "sr_run_id d' = run" by auto
    with that None r' show ?thesis by (simp add: claim_start_def act_bind_def act_lift_def Let_def)
  next
    case (Some x)
    with that commands_ok_in(2) [OF ok' Some] show ?thesis
      by (simp add: claim_start_def act_bind_def act_lift_def Let_def get_command_run [OF ok'])
  qed
  have "get_command h s (sr_command_id c) st = (Inr (Some c), st)" using facts by (simp add: get_command_run [OF ok])
  moreover have "get_run_command h s run st' = (Inr (Some c), st')" using r' by (simp add: get_run_command_run [OF ok'])
  ultimately show ?thesis using facts retry other by blast
qed

lemma run_claimed_once_witness:
  "claim_start demo_host demo_scope demo_start demo_claims = (Inr demo_start, demo_claims)"
  using run_claimed_once [OF total_preorder_demo_host reachable_demo_claims store_steps.start demo_claimed] by blast

section \<open>Projections\<close>

definition demo_commit :: projection_commit where
  "demo_commit = \<lparr>pc_projector = ''t'', pc_stream = ''r'', pc_event_id = ''a'', pc_event_seq = 0,
     pc_expected_version = 0, pc_state = JObj []\<rparr>"

definition demo_projected :: store where
  "demo_projected = run_call demo_host demo_scope (CallCommitProjection demo_commit) demo_log"

lemma reachable_demo_projected: "reachable_store demo_host demo_projected"
  unfolding demo_projected_def by (rule reachable_call [OF reachable_demo_log demo_log_room])

lemma demo_projected_commit:
  "commit_projection demo_host demo_scope demo_commit demo_log
     = (Inr (\<lparr>ps_state = JObj [], ps_version = 1, ps_last_seq = 0\<rparr>, True), demo_projected)"
proof -
  have "st_projections demo_log = []" "st_receipts demo_log = []"
    by (simp_all add: demo_log_def push_event_def empty_store_def)
  then have "fst (commit_projection demo_host demo_scope demo_commit demo_log)
     = Inr (\<lparr>ps_state = JObj [], ps_version = 1, ps_last_seq = 0\<rparr>, True)"
    by (simp add: commit_projection_def demo_log_events demo_commit_def Let_def clone_projection_result_def
        clone_projection_def parse_json_value_run demo_event_def)
  then show ?thesis by (simp add: demo_projected_def prod_eq_iff)
qed

lemma demo_projected_load:
  "load_projection demo_host demo_scope ''t'' ''r'' demo_projected
     = (Inr (Some \<lparr>ps_state = JObj [], ps_version = 1, ps_last_seq = 0\<rparr>), demo_projected)"
proof -
  have "map_of (st_projections st) (projection_key demo_host demo_scope ''t'' ''r'')
      = Some \<lparr>ps_state = JObj [], ps_version = 1, ps_last_seq = 0\<rparr>" if "st = demo_projected" for st
    using commit_projection_cases [OF demo_projected_commit [folded that]] by (auto simp: demo_commit_def)
  then show ?thesis by (simp add: load_projection_def clone_option_def clone_projection_run)
qed

text \<open>
  A projection's version counts its source events: in a reachable store the stored
  projection of a projector over a stream has as version the number of distinct events it has
  acknowledged, it exists exactly when it has acknowledged one, and loading returns it whole.
\<close>

theorem projection_version_counts_events:
  assumes "reachable_store h st"
  shows "case load_projection h s projector stream st of
      (Inr None, st') \<Rightarrow> st' = st \<and> acknowledged h s projector stream st = {}
    | (Inr (Some p), st') \<Rightarrow> st' = st \<and> ps_version p = int (card (acknowledged h s projector stream st)) \<and> 0 < ps_version p
    | (Inl _, _) \<Rightarrow> False"
proof -
  note ok = reachable_projections_ok [OF assms]
  let ?a = "acknowledged h s projector stream st"
  have "finite ?a" and v: "projection_version h s projector stream st = int (card ?a)"
    and "map_of (st_projections st) (projection_key h s projector stream) = None \<longleftrightarrow> ?a = {}"
    using ok unfolding projections_ok_def by (blast, blast, metis option.exhaust)
  then show ?thesis
    using v by (auto simp: load_projection_run [OF ok] projection_version_def card_gt_0_iff split: option.splits)
qed

lemma projection_version_counts_events_witness:
  "int (card (acknowledged demo_host demo_scope ''t'' ''r'' demo_projected)) = 1"
  using projection_version_counts_events [OF reachable_demo_projected, of demo_scope "''t''" "''r''"]
    demo_projected_load by simp

text \<open>
  C11. An event is applied to a projection once. After a commit has been applied, a commit for
  the same event, whatever state and version it carries and whatever calls were made in
  between, is acknowledged as a duplicate: it returns the current projection and changes nothing.
\<close>

theorem projection_commit_applied_once:
  assumes "reachable_store h st" and "commit_projection h s c st = (Inr (p, True), st1)" and "store_steps h st1 st2"
  shows "\<exists>q. load_projection h s (pc_projector c) (pc_stream c) st2 = (Inr (Some q), st2)
    \<and> commit_projection h s (c\<lparr>pc_expected_version := v, pc_state := x\<rparr>) st2 = (Inr (q, False), st2)
    \<and> ps_version p = pc_expected_version c + 1 \<and> ps_last_seq p = pc_event_seq c"
  by (rule commit_applied_once [OF assms])

lemma projection_commit_applied_once_witness:
  "\<exists>q. commit_projection demo_host demo_scope (demo_commit\<lparr>pc_expected_version := 7, pc_state := JNull\<rparr>) demo_projected
     = (Inr (q, False), demo_projected)"
  using projection_commit_applied_once [OF reachable_demo_log demo_projected_commit store_steps.start, where v = 7 and x = JNull] by (auto simp: demo_commit_def)


section \<open>Schedules\<close>

text \<open>
  A due time of a schedule is claimed once. After an occurrence has been claimed, and
  whatever calls were made in between, no occurrence of the same schedule and due time is
  claimed or skipped again: a claim answers with the first occurrence (or that the schedule is
  no longer active) and a skip answers false, both without effect, unless the new occurrence
  itself is refused as malformed or foreign.
\<close>

theorem occurrence_claimed_once:
  assumes "claim_occurrence h s c st = (Inr (Claimed o'), st1)" and "store_steps h st1 st2"
    and "oc_schedule_id d = oc_schedule_id c" and "oc_due d = oc_due c" and "oc_scope d = s"
  shows "o' = c
    \<and> (clone_occurrence h d = Inr d \<longrightarrow> claim_occurrence h s d st2 =
        (Inr (if schedule_active h s (oc_schedule_id c) st2 then AlreadyClaimed c else ScheduleInactive), st2))
    \<and> (\<forall>e. clone_occurrence h d = Inl e \<longrightarrow> claim_occurrence h s d st2 = (Inl e, st2))
    \<and> snd (skip_occurrence h s d st2) = st2 \<and> fst (skip_occurrence h s d st2) \<noteq> Inr True"
proof -
  note first = occurrence_claimed [OF assms(1,2)]
  have key: "claim_key h s d = claim_key h s c" "claim_key h s (d\<lparr>oc_status := x\<rparr>) = claim_key h s c" for x
    using assms(3,4) by simp_all
  have claimed: "map_of (st_claims st2) (claim_key h s (d\<lparr>oc_status := x\<rparr>)) = Some c"
      "map_of (st_claims st2) (claim_key h s d) = Some c" for x
    by (simp_all only: key first(2))
  then have "st' = st2 \<and> r \<noteq> Inr True" if "skip_occurrence h s d st2 = (r, st')" for r st'
    using skip_occurrence_cases [OF that] by (auto dest!: clone_occurrence_same)
  from this [OF surjective_pairing] show ?thesis
    using first(1,3) assms(3-5) claimed(2) by (simp add: claim_occurrence_def act_bind_def act_lift_def)
qed

definition demo_occurrence :: occurrence where
  "demo_occurrence = \<lparr>oc_id = ''o'', oc_schedule_id = ''s'', oc_due = ''7'', oc_run_id = ''r'', oc_command_id = ''k'',
     oc_claimed_at = ''8'', oc_status = Some ''claimed'', oc_scope = demo_scope\<rparr>"

definition demo_schedule :: schedule where
  "demo_schedule = \<lparr>sd_id = ''s'', sd_scope = demo_scope, sd_kind = ''explicit'', sd_trigger = ExplicitTrigger ''7'',
     sd_due = ''7'', sd_policy = ''skip'', sd_status = ''active'', sd_run = demo_fields, sd_recurrence = None\<rparr>"

definition demo_scheduled :: store where
  "demo_scheduled = empty_store\<lparr>st_schedules := [(scoped_key demo_host demo_scope ''schedule'' ''s'', demo_schedule)]\<rparr>"

lemma demo_occurrence_clone:
  "x \<in> {None, Some ''claimed'', Some ''started''} \<Longrightarrow>
   clone_occurrence demo_host (demo_occurrence\<lparr>oc_status := x\<rparr>) = Inr (demo_occurrence\<lparr>oc_status := x\<rparr>)"
  by (auto simp: clone_occurrence_def demo_occurrence_def occurrence_js_def parse_schedule_occurrence_def parse_runs
      parse_scope_fields_def scope_fields_def demo_scope_def occurrence_status_def is_blank_iff is_space_def demo_host_def
      parse_millis_def is_digit_def)

lemma demo_occurrence_clone_same: "clone_occurrence demo_host demo_occurrence = Inr demo_occurrence"
  using demo_occurrence_clone [of "Some ''claimed''"] by (simp add: demo_occurrence_def)

lemma demo_occurrence_fields:
  "oc_id demo_occurrence = ''o''" "oc_schedule_id demo_occurrence = ''s''" "oc_scope demo_occurrence = demo_scope"
  "oc_status demo_occurrence = Some ''claimed''"
  by (simp_all add: demo_occurrence_def)

lemma demo_occurrence_claimed:
  "claim_occurrence demo_host demo_scope demo_occurrence demo_scheduled
     = (Inr (Claimed demo_occurrence), record_occurrence demo_host demo_scope demo_occurrence demo_scheduled)"
  by (simp add: claim_occurrence_def act_bind_def act_lift_def demo_occurrence_clone_same demo_occurrence_fields
      demo_scheduled_def schedule_active_def demo_schedule_def empty_store_def scoped_values_def)

lemma occurrence_claimed_once_witness:
  "let st = record_occurrence demo_host demo_scope demo_occurrence demo_scheduled;
       again = demo_occurrence\<lparr>oc_id := ''o2'', oc_run_id := ''r2''\<rparr>
   in snd (skip_occurrence demo_host demo_scope again st) = st \<and> fst (skip_occurrence demo_host demo_scope again st) \<noteq> Inr True"
  using occurrence_claimed_once [OF demo_occurrence_claimed store_steps.start,
      of "demo_occurrence\<lparr>oc_id := ''o2'', oc_run_id := ''r2''\<rparr>"]
  by (simp add: demo_occurrence_def Let_def)

text \<open>
  An occurrence is started once. When the execution of an occurrence has been claimed, its
  record has been marked as started and nothing else of it has changed; after that, and
  whatever calls were made in between, no claim for it succeeds again, whoever holds the lease
  and whatever the time, and the record keeps its status.
\<close>

theorem occurrence_executed_once:
  assumes "claim_execution h s t c w st = (Inr True, st1)" and "store_steps h st1 st2" and "oc_id d = oc_id c"
  shows "fst (claim_execution h s t' d w' st2) \<noteq> Inr True \<and> snd (claim_execution h s t' d w' st2) = st2
    \<and> (\<exists>x. occurrence_entry h s (oc_id c) st = Some x \<and> oc_status x \<noteq> Some ''started'' \<and> oc_status x \<noteq> Some ''skipped''
        \<and> occurrence_entry h s (oc_id c) st2 = Some (x\<lparr>oc_status := Some ''started''\<rparr>))"
proof -
  note first = occurrence_started [OF assms(1,2)]
  have "st' = st2 \<and> r \<noteq> Inr True" if "claim_execution h s t' d w' st2 = (r, st')" for r st'
    using claim_execution_cases [OF that] first assms(3) by (auto dest!: clone_occurrence_same)
  from this [OF surjective_pairing] first show ?thesis by blast
qed


definition demo_leased :: store where
  "demo_leased = (record_occurrence demo_host demo_scope demo_occurrence demo_scheduled)
     \<lparr>st_leases := [(lease_key demo_host demo_scope demo_occurrence, \<lparr>le_claimed_at = 10, le_owner = ''x''\<rparr>)]\<rparr>"

lemma demo_executed:
  "fst (claim_execution demo_host demo_scope 20 demo_occurrence ''x'' demo_leased) = Inr True"
  using demo_occurrence_clone [of "Some ''started''"]
  by (simp add: claim_execution_def act_bind_def act_lift_def demo_occurrence_clone_same demo_leased_def
      record_occurrence_def Let_def demo_occurrence_fields)

lemma occurrence_executed_once_witness:
  "fst (claim_execution demo_host demo_scope 90000 demo_occurrence ''y''
     (snd (claim_execution demo_host demo_scope 20 demo_occurrence ''x'' demo_leased))) \<noteq> Inr True"
  using occurrence_executed_once [OF _ store_steps.start, of demo_host demo_scope 20 demo_occurrence "''x''" demo_leased _ demo_occurrence]
    demo_executed by (metis prod.collapse)


end
