(* ===== verification/ChannelOps.thy ===== *)
theory ChannelOps
  imports StoreProperties
begin

text \<open>
  \<open>ScopedChannelStore\<close> (\<open>harness-v2/src/interfaces.ts\<close>) as its clients see it: a record of
  operations over some state. The run manager, the projections and the memory and tool
  services take such a record, so the in-memory store is one provider among others. The locale
  \<open>channel_log\<close> states what a provider promises about events and commands. Its laws allow other
  clients to act before every call; they hold for the store alone and for the store whose calls
  are interleaved with those of any other clients (\<open>interleaved\<close>).
\<close>

section \<open>The interface\<close>

record 's channel_ops =
  co_append :: "canonical_event \<Rightarrow> ('s, js_error, unit) action"
  co_append_idempotent :: "canonical_event \<Rightarrow> ('s, js_error, bool) action"
  co_read :: "string \<Rightarrow> int option \<Rightarrow> ('s, js_error, canonical_event list) action"
  co_get_run_command :: "string \<Rightarrow> ('s, js_error, start_run option) action"
  co_claim_start :: "start_run \<Rightarrow> ('s, js_error, start_run) action"
  co_active_run_ids :: "('s, js_error, string list) action"
  co_list_run_stream_ids :: "string \<Rightarrow> ('s, js_error, string list) action"
  co_claim_session :: "channel_session \<Rightarrow> ('s, js_error, channel_session) action"
  co_load_projection :: "string \<Rightarrow> string \<Rightarrow> ('s, js_error, projection_snapshot option) action"
  co_commit_projection :: "projection_commit \<Rightarrow> ('s, js_error, projection_snapshot \<times> bool) action"

text \<open>The store scoped to a channel, as \<open>EventStore.scope\<close> returns it.\<close>

definition in_memory :: "host \<Rightarrow> scope \<Rightarrow> store channel_ops" where
  "in_memory h s = \<lparr>co_append = append_event h s, co_append_idempotent = append_idempotent h s,
     co_read = read_events h s, co_get_run_command = get_run_command h s, co_claim_start = claim_start h s,
     co_active_run_ids = active_run_ids h s, co_list_run_stream_ids = list_run_stream_ids h s,
     co_claim_session = claim_channel_session h s, co_load_projection = load_projection h s,
     co_commit_projection = commit_projection h s\<rparr>"

text \<open>Other clients' updates, run before each call of this one: the head of the list, then the rest.\<close>

definition disturb :: "('s, 'e, 'a) action \<Rightarrow> ('s \<times> ('s \<Rightarrow> 's) list, 'e, 'a) action" where
  "disturb m = (\<lambda>(st, fs).
     case fs of
       [] \<Rightarrow> (case m st of (r, st') \<Rightarrow> (r, (st', [])))
     | f # fs' \<Rightarrow> (case m (f st) of (r, st') \<Rightarrow> (r, (st', fs'))))"

definition interleaved :: "'s channel_ops \<Rightarrow> ('s \<times> ('s \<Rightarrow> 's) list) channel_ops" where
  "interleaved ops = \<lparr>co_append = (\<lambda>e. disturb (co_append ops e)),
     co_append_idempotent = (\<lambda>e. disturb (co_append_idempotent ops e)),
     co_read = (\<lambda>i n. disturb (co_read ops i n)),
     co_get_run_command = (\<lambda>i. disturb (co_get_run_command ops i)),
     co_claim_start = (\<lambda>c. disturb (co_claim_start ops c)),
     co_active_run_ids = disturb (co_active_run_ids ops),
     co_list_run_stream_ids = (\<lambda>i. disturb (co_list_run_stream_ids ops i)),
     co_claim_session = (\<lambda>c. disturb (co_claim_session ops c)),
     co_load_projection = (\<lambda>p i. disturb (co_load_projection ops p i)),
     co_commit_projection = (\<lambda>c. disturb (co_commit_projection ops c))\<rparr>"

text \<open>An access to the store leaves the world alone.\<close>

definition on_store :: "('s, 'e, 'a) action \<Rightarrow> ('w \<times> 's, 'e, 'a) action" where
  "on_store m = (\<lambda>(w, s). case m s of (r, s') \<Rightarrow> (r, (w, s')))"

lemma act_bind_cases:
  assumes "act_bind m f s = (r, s')"
  obtains e where "m s = (Inl e, s')" "r = Inl e" | a s1 where "m s = (Inr a, s1)" "f a s1 = (r, s')"
  using assms by (cases "m s") (auto simp: act_bind_def split: sum.splits)

lemma act_seq_cases:
  assumes "act_seq m n s = (r, s')"
  obtains e where "m s = (Inl e, s')" "r = Inl e" | a s1 where "m s = (Inr a, s1)" "n s1 = (r, s')"
  using assms by (cases "m s") (auto simp: act_seq_def act_bind_def split: sum.splits)

section \<open>What the log promises\<close>

text \<open>A later state: streams have grown at their end, sealed ones not at all, and commands stay.\<close>

definition log_extends :: "('s \<Rightarrow> string \<Rightarrow> canonical_event list) \<Rightarrow> ('s \<Rightarrow> string \<Rightarrow> start_run option) \<Rightarrow> 's \<Rightarrow> 's \<Rightarrow> bool" where
  "log_extends events command st st' \<longleftrightarrow>
     (\<forall>i. \<exists>new. events st' i = events st i @ new \<and> (sealed (events st i) \<longrightarrow> new = []))
     \<and> (\<forall>i c. command st i = Some c \<longrightarrow> command st' i = Some c)"

lemma log_extends_refl [simp]: "log_extends events command st st"
  by (simp add: log_extends_def)

lemma sealed_append: "sealed xs \<Longrightarrow> sealed (xs @ ys)"
  by (auto simp: sealed_def)

lemma log_extends_trans:
  assumes "log_extends events command a b" "log_extends events command b c"
  shows "log_extends events command a c"
  unfolding log_extends_def
proof (intro conjI allI impI)
  fix i
  obtain xs where xs: "events b i = events a i @ xs" "sealed (events a i) \<longrightarrow> xs = []"
    using assms(1) unfolding log_extends_def by blast
  obtain ys where ys: "events c i = events b i @ ys" "sealed (events b i) \<longrightarrow> ys = []"
    using assms(2) unfolding log_extends_def by blast
  show "\<exists>new. events c i = events a i @ new \<and> (sealed (events a i) \<longrightarrow> new = [])"
    using xs ys by (intro exI [of _ "xs @ ys"]) auto
next
  show "\<And>i x. command a i = Some x \<Longrightarrow> command c i = Some x" using assms unfolding log_extends_def by blast
qed

text \<open>An event the store takes for another one: equal up to the order of object entries.\<close>

definition same_event :: "canonical_event \<Rightarrow> canonical_event \<Rightarrow> bool" where
  "same_event e e' \<longleftrightarrow> canon (event_js e) = canon (event_js e')"

lemma same_event_refl [simp]: "same_event e e"
  by (simp add: same_event_def)

lemma same_event_fields:
  "same_event e e' \<Longrightarrow> ev_id e = ev_id e' \<and> ev_stream e = ev_stream e' \<and> ev_seq e = ev_seq e' \<and> ev_type e = ev_type e'
     \<and> ev_timestamp e = ev_timestamp e' \<and> canon (ev_payload e) = canon (ev_payload e')"
  by (simp add: same_event_def canon_event_js)

text \<open>The fields of such events.\<close>

lemma map_of_filter: "map_of xs k = (case filter (\<lambda>kv. fst kv = k) xs of [] \<Rightarrow> None | kv # _ \<Rightarrow> Some (snd kv))"
  by (induction xs) auto

lemma map_of_sort_key: "map_of (sort_key fst kvs) k = map_of kvs k"
  by (simp only: map_of_filter sort_key_stable)

lemma js_field_canon: "js_field (sort_key fst (map (\<lambda>kv. (fst kv, canon (snd kv))) kvs)) k = canon (js_field kvs k)"
proof -
  have "js_field (map (\<lambda>kv. (fst kv, canon (snd kv))) kvs) k = canon (js_field kvs k)"
    by (induction kvs) (auto simp: js_field_def)
  then show ?thesis by (simp add: js_field_def map_of_sort_key)
qed

lemma as_string_canon [simp]: "as_string (canon v) = as_string v"
  by (cases v) simp_all

lemma string_field_canon: "string_field (canon v) k = string_field v k"
  by (cases v) (simp_all add: string_field_def js_field_canon)

lemma record_field_canon: "js_field (record_or_empty (canon v)) k = canon (js_field (record_or_empty v) k)"
  by (cases v) (simp_all add: js_field_canon)

lemma same_event_string: "same_event e e' \<Longrightarrow> string_field (ev_payload e) k = string_field (ev_payload e') k"
  by (metis same_event_fields string_field_canon)

locale channel_log =
  fixes ops :: "'s channel_ops" and ok :: "'s \<Rightarrow> bool"
    and events :: "'s \<Rightarrow> string \<Rightarrow> canonical_event list" and command :: "'s \<Rightarrow> string \<Rightarrow> start_run option"
  assumes numbered: "ok st \<Longrightarrow> n < length (events st i) \<Longrightarrow> ev_seq (events st i ! n) = int n"
    and final_last: "ok st \<Longrightarrow> Suc n < length (events st i) \<Longrightarrow> \<not> is_terminal_event (ev_type (events st i ! n))"
    and command_run: "ok st \<Longrightarrow> command st i = Some c \<Longrightarrow> sr_run_id c = i"
    and read_law: "ok st \<Longrightarrow> co_read ops i after st = (r, st') \<Longrightarrow>
      ok st' \<and> log_extends events command st st'
      \<and> r = Inr (filter (\<lambda>e. case after of None \<Rightarrow> True | Some n \<Rightarrow> n < ev_seq e) (events st' i))"
    and command_law: "ok st \<Longrightarrow> co_get_run_command ops i st = (got, st') \<Longrightarrow>
      ok st' \<and> log_extends events command st st' \<and> got = Inr (command st' i)"
    and claim_law: "ok st \<Longrightarrow> co_claim_start ops c st = (claimed, st') \<Longrightarrow>
      ok st' \<and> log_extends events command st st' \<and> (\<forall>c'. claimed = Inr c' \<longrightarrow> command st' (sr_run_id c') = Some c')"
    and active_law: "ok st \<Longrightarrow> co_active_run_ids ops st = (active, st') \<Longrightarrow>
      ok st' \<and> log_extends events command st st'
      \<and> (\<exists>ids. active = Inr ids \<and> distinct ids \<and> set ids = {i. command st' i \<noteq> None \<and> \<not> sealed (events st' i)})"
    and append_law: "ok st \<Longrightarrow> co_append ops e st = (appended, st') \<Longrightarrow>
      ok st' \<and> log_extends events command st st'
      \<and> (appended = Inr () \<longrightarrow> (\<exists>e' \<in> set (events st' (ev_stream e)). same_event e' e))"

section \<open>The in-memory store keeps the promises\<close>

definition store_ok :: "host \<Rightarrow> store \<Rightarrow> bool" where
  "store_ok h st \<longleftrightarrow> log_ok h st \<and> commands_ok h st \<and> distinct (map fst (st_commands st))"

lemma store_ok_push:
  assumes "store_ok h st" "event_ok h e" "ev_scope e = s" "ev_seq e = int (length (stream_events h s (ev_stream e) st))"
    "stored_event h s (ev_id e) st = None" "\<not> sealed (stream_events h s (ev_stream e) st)"
  shows "store_ok h (push_event h s e st)"
proof -
  have same: "st_commands (push_event h s e st) = st_commands st" by (simp add: push_event_def)
  then have "commands_ok h (push_event h s e st) = commands_ok h st" by (simp only: commands_ok_def)
  with same log_ok_push [of h st e s] assms show ?thesis by (simp add: store_ok_def list_ex_iff sealed_def)
qed

definition run_entry :: "host \<Rightarrow> scope \<Rightarrow> store \<Rightarrow> string \<Rightarrow> start_run option" where
  "run_entry h s st i = map_of (st_commands st) (scoped_key h s ''run'' i)"

lemma reachable_store_ok: "total_preorder (locale_le h) \<Longrightarrow> reachable_store h st \<Longrightarrow> store_ok h st"
  by (simp add: store_ok_def reachable_log_ok reachable_commands_ok commands_distinct)

lemma claim_start_distinct:
  "distinct (map fst (st_commands st)) \<Longrightarrow> claim_start h s c st = (r, st') \<Longrightarrow> distinct (map fst (st_commands st'))"
  by (drule claim_start_cases) (elim disjE exE conjE; simp add: distinct_js_set)

lemma run_call_log_ok:
  assumes ok: "log_ok h st" and room: "array_room h st"
  shows "log_ok h (run_call h s c st)"
proof (cases "log_call c")
  case True
  then show ?thesis
    using append_event_log_ok [OF ok surjective_pairing] append_idempotent_log_ok [OF ok room surjective_pairing]
    by (cases c) simp_all
next
  case False
  from frame_log [OF this, of h s st] ok show ?thesis
    by (simp add: log_ok_def stream_events_def stored_event_def)
qed

lemma run_call_store_ok:
  assumes le: "total_preorder (locale_le h)" and ok: "store_ok h st" and room: "array_room h st"
  shows "store_ok h (run_call h s c st)"
proof (cases "\<exists>x. c = CallClaimStart x")
  case True
  then obtain x where x: "c = CallClaimStart x" by blast
  show ?thesis
    using run_call_log_ok [OF _ room, of s c] ok commands_ok_claim [OF le _ surjective_pairing, of st s x]
      claim_start_distinct [OF _ surjective_pairing, of st h s x]
    by (simp add: store_ok_def x)
next
  case False
  then have same: "st_commands (run_call h s c st) = st_commands st" by (intro frame_commands) blast
  then have "commands_ok h (run_call h s c st) = commands_ok h st" by (simp only: commands_ok_def)
  with same run_call_log_ok [OF _ room, of s c] ok show ?thesis by (simp add: store_ok_def)
qed

text \<open>One call, of any client, extends the log of every scope.\<close>

lemma run_call_extends:
  assumes ok: "store_ok h st"
  shows "log_extends (\<lambda>st i. stream_events h s i st) (run_entry h s) st (run_call h s' c st)"
  unfolding log_extends_def
proof (intro conjI allI impI)
  fix i
  from ok have "log_ok h st" by (simp add: store_ok_def)
  from run_call_stream [OF this, of s i s' c] show "\<exists>new. stream_events h s i (run_call h s' c st) = stream_events h s i st @ new
      \<and> (sealed (stream_events h s i st) \<longrightarrow> new = [])"
    by (auto simp: sealed_def)
next
  fix i x assume x: "run_entry h s st i = Some x"
  show "run_entry h s (run_call h s' c st) i = Some x"
  proof (cases "\<exists>y. c = CallClaimStart y")
    case True
    then obtain y where y: "c = CallClaimStart y" by blast
    from claim_start_cases [OF surjective_pairing, of h s' y st] x show ?thesis
      unfolding y run_call.simps run_entry_def by force
  next
    case False
    then have "st_commands (run_call h s' c st) = st_commands st" by (intro frame_commands) blast
    with x show ?thesis by (simp add: run_entry_def)
  qed
qed

lemma commands_ok_entry:
  assumes "commands_ok h st" and "map_of (st_commands st) key = Some c"
  shows "map_of (st_commands st) (scoped_key h (rf_scope (sr_fields c)) ''run'' (sr_run_id c)) = Some c"
    and "key = scoped_key h (rf_scope (sr_fields c)) ''command'' (sr_command_id c)
      \<or> key = scoped_key h (rf_scope (sr_fields c)) ''run'' (sr_run_id c)"
  using assms unfolding commands_ok_def Let_def by blast+

lemma active_run_ids_facts:
  assumes ok: "store_ok h st"
  obtains ids where "active_run_ids h s st = (Inr ids, st)" "distinct ids"
    "set ids = {i. run_entry h s st i \<noteq> None \<and> \<not> sealed (stream_events h s i st)}"
proof -
  have cs: "commands_ok h st" and d: "distinct (map fst (st_commands st))" using ok by (simp_all add: store_ok_def)
  define entries where "entries = filter (\<lambda>kv. starts_with (fst kv) (scoped_prefix h s ''command'')) (st_commands st)"
  have entry: "key = scoped_key h s ''command'' (sr_command_id c) \<and> rf_scope (sr_fields c) = s
      \<and> run_entry h s st (sr_run_id c) = Some c" if "(key, c) \<in> set entries" for key c
  proof -
    have "map_of (st_commands st) key = Some c" using that d by (simp add: entries_def)
    note stored = commands_ok_entry [OF cs this]
    have "starts_with key (scoped_prefix h s ''command'')" using that by (simp add: entries_def)
    with stored show ?thesis by (auto simp: run_entry_def)
  qed
  have into: "(scoped_key h s ''command'' (sr_command_id c), c) \<in> set entries" if "run_entry h s st i = Some c" for i c
  proof -
    have "map_of (st_commands st) (scoped_key h s ''command'' (sr_command_id c)) = Some c"
      using commands_ok_in(1) [OF cs] that by (simp add: run_entry_def)
    from map_of_SomeD [OF this] show ?thesis by (simp add: entries_def)
  qed
  have "distinct (map sr_run_id (map snd entries))"
  proof -
    have "distinct entries" using d by (simp add: entries_def distinct_map)
    moreover have "(k, c) = (k', c')"
      if "(k, c) \<in> set entries" "(k', c') \<in> set entries" "sr_run_id c = sr_run_id c'" for k c k' c'
    proof -
      have "run_entry h s st (sr_run_id c) = Some c" "run_entry h s st (sr_run_id c') = Some c'"
        using entry that(1,2) by blast+
      then have "c = c'" using that(3) by (metis option.inject)
      moreover have "k = scoped_key h s ''command'' (sr_command_id c)" "k' = scoped_key h s ''command'' (sr_command_id c')"
        using entry that(1,2) by blast+
      ultimately show ?thesis by blast
    qed
    then have "inj_on (\<lambda>kv. sr_run_id (snd kv)) (set entries)" by (intro inj_onI) (metis prod.collapse)
    ultimately show ?thesis by (simp add: distinct_map comp_def)
  qed
  moreover have "set (map sr_run_id (filter (\<lambda>c. \<not> sealed (stream_events h s (sr_run_id c) st)) (map snd entries)))
      = {i. run_entry h s st i \<noteq> None \<and> \<not> sealed (stream_events h s i st)}"
  proof (intro set_eqI iffI)
    fix i assume "i \<in> {i. run_entry h s st i \<noteq> None \<and> \<not> sealed (stream_events h s i st)}"
    then obtain c where c: "run_entry h s st i = Some c" "\<not> sealed (stream_events h s i st)" by blast
    note into [OF c(1)]
    moreover have "sr_run_id c = i" using commands_ok_in(1) [OF cs] c(1) by (simp add: run_entry_def)
    ultimately show "i \<in> set (map sr_run_id (filter (\<lambda>c. \<not> sealed (stream_events h s (sr_run_id c) st)) (map snd entries)))"
      using c(2) by force
  next
    fix i assume "i \<in> set (map sr_run_id (filter (\<lambda>c. \<not> sealed (stream_events h s (sr_run_id c) st)) (map snd entries)))"
    then show "i \<in> {i. run_entry h s st i \<noteq> None \<and> \<not> sealed (stream_events h s i st)}" by (auto dest!: entry)
  qed
  ultimately show thesis
    by (intro that [of "map sr_run_id (filter (\<lambda>c. \<not> sealed (stream_events h s (sr_run_id c) st)) (map snd entries))"])
      (simp_all add: active_run_ids_def entries_def sealed_def list_ex_iff distinct_map_filter)
qed

lemma claim_start_entry:
  assumes le: "total_preorder (locale_le h)" and ok: "commands_ok h st" and c: "claim_start h s c st = (Inr c', st')"
  shows "map_of (st_commands st') (scoped_key h s ''run'' (sr_run_id c')) = Some c'"
proof (cases "clone_start_run h c")
  case (Inr d)
  show ?thesis
  proof (cases "map_of (st_commands st) (scoped_key h s ''command'' (sr_command_id d))")
    case None
    with c Inr clone_start_run_again [OF le Inr] show ?thesis
      by (auto simp: claim_start_def act_bind_def act_lift_def Let_def split: if_splits)
  next
    case (Some x)
    with c Inr commands_ok_in(2) [OF ok Some] show ?thesis
      by (auto simp: claim_start_def act_bind_def act_lift_def Let_def split: if_splits)
  qed
qed (use c in \<open>simp add: claim_start_def act_bind_def act_lift_def\<close>)

lemma append_stores:
  assumes h: "digits_ok h" and ok: "log_ok h st" and a: "append_event h s e st = (Inr (), st')"
  shows "\<exists>e' \<in> set (stream_events h s (ev_stream e) st'). same_event e' e"
proof (cases "stored_event h s (ev_id e) st")
  case None
  with a have "st' = push_event h s e st"
    by (auto simp: append_event_def act_bind_def act_lift_def clone_event_iff Let_def split: sum.splits if_splits)
  then show ?thesis by simp
next
  case (Some e')
  with a have e: "event_ok h e" and same: "stable_json h (event_js e') = stable_json h (event_js e)" and st': "st' = st"
    by (auto simp: append_event_def act_bind_def act_lift_def clone_event_iff split: sum.splits if_splits)
  from log_ok_stored [OF ok Some] have e': "e' \<in> set (stream_events h s (ev_stream e') st)" by blast
  with log_ok_in [OF ok] have "event_ok h e'" by blast
  with e same have "same_event e' e"
    by (simp add: same_event_def stable_json_eq_iff [OF h] is_json_event)
  with same_event_fields [OF this] e' st' show ?thesis by auto
qed

locale good_host =
  fixes h :: host
  assumes digits: "digits_ok h" and order: "total_preorder (locale_le h)"

sublocale good_host \<subseteq> store: channel_log "in_memory h s" "store_ok h" "\<lambda>st i. stream_events h s i st" "run_entry h s"
proof
  fix st n i assume ok: "store_ok h st"
  then have log: "log_ok h st" by (simp add: store_ok_def)
  assume "n < length (stream_events h s i st)" then show "ev_seq (stream_events h s i st ! n) = int n"
    using log_ok_nth [OF log] by simp
next
  fix st n i assume ok: "store_ok h st" "Suc n < length (stream_events h s i st)"
  then show "\<not> is_terminal_event (ev_type (stream_events h s i st ! n))"
    using log_ok_nth [of h st n s i] by (simp add: store_ok_def)
next
  fix st i c assume "store_ok h st" "run_entry h s st i = Some c"
  then show "sr_run_id c = i" using commands_ok_in(1) unfolding store_ok_def run_entry_def by blast
next
  fix st i after r st' assume "store_ok h st" "co_read (in_memory h s) i after st = (r, st')"
  then show "store_ok h st' \<and> log_extends (\<lambda>st i. stream_events h s i st) (run_entry h s) st st'
      \<and> r = Inr (filter (\<lambda>e. case after of None \<Rightarrow> True | Some n \<Rightarrow> n < ev_seq e) (stream_events h s i st'))"
    using read_events_run [of h st s i after] by (auto simp: in_memory_def store_ok_def)
next
  fix st i got st' assume "store_ok h st" "co_get_run_command (in_memory h s) i st = (got, st')"
  then show "store_ok h st' \<and> log_extends (\<lambda>st i. stream_events h s i st) (run_entry h s) st st' \<and> got = Inr (run_entry h s st' i)"
    using get_run_command_run [of h st s i] by (auto simp: in_memory_def store_ok_def run_entry_def)
next
  fix st c claimed st' assume ok: "store_ok h st" and "co_claim_start (in_memory h s) c st = (claimed, st')"
  then have c: "claim_start h s c st = (claimed, st')" by (simp add: in_memory_def)
  have cs: "commands_ok h st'" using commands_ok_claim [OF order _ c] ok by (simp add: store_ok_def)
  have frame: "st_streams st' = st_streams st" "st_events st' = st_events st"
    using frame_log [of "CallClaimStart c" h s st] c by simp_all
  then have ok': "store_ok h st'" using ok cs claim_start_distinct [OF _ c]
    by (simp add: store_ok_def log_ok_def stream_events_def stored_event_def)
  have "log_extends (\<lambda>st i. stream_events h s i st) (run_entry h s) st st'"
    using run_call_extends [OF ok, of s s "CallClaimStart c"] c by simp
  moreover have "run_entry h s st' (sr_run_id c') = Some c'" if "claimed = Inr c'" for c'
    using claim_start_entry [OF order _ c [unfolded that]] ok by (simp add: store_ok_def run_entry_def)
  ultimately show "store_ok h st' \<and> log_extends (\<lambda>st i. stream_events h s i st) (run_entry h s) st st'
      \<and> (\<forall>c'. claimed = Inr c' \<longrightarrow> run_entry h s st' (sr_run_id c') = Some c')"
    using ok' by blast
next
  fix st active st' assume ok: "store_ok h st" and "co_active_run_ids (in_memory h s) st = (active, st')"
  then have "active_run_ids h s st = (active, st')" by (simp add: in_memory_def)
  with active_run_ids_facts [OF ok, of s]
  show "store_ok h st' \<and> log_extends (\<lambda>st i. stream_events h s i st) (run_entry h s) st st'
    \<and> (\<exists>ids. active = Inr ids \<and> distinct ids
      \<and> set ids = {i. run_entry h s st' i \<noteq> None \<and> \<not> sealed (stream_events h s i st')})"
    using ok by (metis (no_types, lifting) Pair_inject log_extends_refl)
next
  fix st e appended st' assume ok: "store_ok h st" and "co_append (in_memory h s) e st = (appended, st')"
  then have a: "append_event h s e st = (appended, st')" by (simp add: in_memory_def)
  have "st_commands st' = st_commands st" using frame_commands [of "CallAppend e" h s st] a by simp
  then have "commands_ok h st' = commands_ok h st" "st_commands st' = st_commands st" by (simp_all only: commands_ok_def)
  then have "store_ok h st'" using append_event_log_ok [OF _ a] ok by (simp add: store_ok_def)
  moreover have "log_extends (\<lambda>st i. stream_events h s i st) (run_entry h s) st st'"
    using run_call_extends [OF ok, of s s "CallAppend e"] a by simp
  ultimately show "store_ok h st' \<and> log_extends (\<lambda>st i. stream_events h s i st) (run_entry h s) st st'
    \<and> (appended = Inr () \<longrightarrow> (\<exists>e' \<in> set (stream_events h s (ev_stream e) st'). same_event e' e))"
    using append_stores [OF digits, of st s e st'] ok a by (simp add: store_ok_def)
qed

text \<open>
  Interleaving keeps the promises: if every update of the others keeps the provider's invariant
  and only extends the log, then the client sees a channel log still. The invariant of the
  interleaved state covers the updates that are still to come.
\<close>

lemma interleaved_simps:
  "co_read (interleaved ops) i n = disturb (co_read ops i n)"
  "co_get_run_command (interleaved ops) i = disturb (co_get_run_command ops i)"
  "co_claim_start (interleaved ops) c = disturb (co_claim_start ops c)"
  "co_active_run_ids (interleaved ops) = disturb (co_active_run_ids ops)"
  "co_append (interleaved ops) e = disturb (co_append ops e)"
  by (simp_all add: interleaved_def)

definition polite :: "('s \<Rightarrow> bool) \<Rightarrow> ('s \<Rightarrow> string \<Rightarrow> canonical_event list) \<Rightarrow> ('s \<Rightarrow> string \<Rightarrow> start_run option) \<Rightarrow> ('s \<Rightarrow> 's) \<Rightarrow> bool" where
  "polite ok events command f \<longleftrightarrow> (\<forall>st. ok st \<longrightarrow> ok (f st) \<and> log_extends events command st (f st))"

lemma disturb_law:
  assumes law: "\<And>st r st'. ok st \<Longrightarrow> m st = (r, st') \<Longrightarrow> ok st' \<and> log_extends events command st st' \<and> Q r st'"
    and ok: "ok (fst sf) \<and> (\<forall>f \<in> set (snd sf). polite ok events command f)" and run: "disturb m sf = (r, sf')"
  shows "(ok (fst sf') \<and> (\<forall>f \<in> set (snd sf'). polite ok events command f))
    \<and> log_extends (\<lambda>sf. events (fst sf)) (\<lambda>sf. command (fst sf)) sf sf' \<and> Q r (fst sf')"
proof (cases "snd sf")
  case Nil
  then obtain st where sf: "sf = (st, [])" by (cases sf) simp
  obtain r' st' where m: "m st = (r', st')" by (cases "m st")
  with run sf have r: "r = r'" "sf' = (st', [])" by (simp_all add: disturb_def)
  have "ok st' \<and> log_extends events command st st' \<and> Q r' st'" using law [OF _ m] ok sf by simp
  with r show ?thesis unfolding sf r log_extends_def by simp
next
  case (Cons f fs)
  then obtain st where sf: "sf = (st, f # fs)" by (cases sf) simp
  obtain r' st' where m: "m (f st) = (r', st')" by (cases "m (f st)")
  with run sf have r: "r = r'" "sf' = (st', fs)" by (simp_all add: disturb_def)
  have f: "ok (f st)" "log_extends events command st (f st)" using ok sf by (simp_all add: polite_def)
  have "ok st'" "Q r' st'" "log_extends events command (f st) st'" using law [OF f(1) m] by blast+
  moreover from this f(2) have "log_extends events command st st'" by (blast intro: log_extends_trans)
  moreover have "\<forall>f \<in> set fs. polite ok events command f" using ok sf by simp
  ultimately show ?thesis unfolding sf r log_extends_def by simp
qed

context channel_log
begin

lemma interleaved_log:
  "channel_log (interleaved ops) (\<lambda>sf. ok (fst sf) \<and> (\<forall>f \<in> set (snd sf). polite ok events command f))
     (\<lambda>sf. events (fst sf)) (\<lambda>sf. command (fst sf))"
proof (unfold_locales, goal_cases)
  case (1 sf n i) then show ?case using numbered by blast
next
  case (2 sf n i) then show ?case using final_last by blast
next
  case (3 sf i c) then show ?case using command_run by blast
next
  case (4 sf i after r sf')
  show ?case
    by (rule disturb_law [OF read_law 4(1) 4(2) [unfolded interleaved_simps]])
next
  case (5 sf i got sf')
  show ?case by (rule disturb_law [OF command_law 5(1) 5(2) [unfolded interleaved_simps]])
next
  case (6 sf c claimed sf')
  show ?case by (rule disturb_law [OF claim_law 6(1) 6(2) [unfolded interleaved_simps]])
next
  case (7 sf active sf')
  show ?case by (rule disturb_law [OF active_law 7(1) 7(2) [unfolded interleaved_simps]])
next
  case (8 sf e appended sf')
  show ?case by (rule disturb_law [OF append_law 8(1) 8(2) [unfolded interleaved_simps]])
qed

end

text \<open>
  Calls that any client of any channel makes, as one update. A client whose call finds an array
  full does not return to the store.
\<close>

fun others :: "host \<Rightarrow> (scope \<times> store_call) list \<Rightarrow> store \<Rightarrow> store" where
  "others h [] st = st"
| "others h ((s, c) # calls) st = (if array_room h st then others h calls (run_call h s c st) else st)"

context good_host
begin

lemma others_polite: "polite (store_ok h) (\<lambda>st i. stream_events h s i st) (run_entry h s) (others h calls)"
  unfolding polite_def
proof (intro allI impI)
  fix st assume "store_ok h st"
  then show "store_ok h (others h calls st)
      \<and> log_extends (\<lambda>st i. stream_events h s i st) (run_entry h s) st (others h calls st)"
  proof (induction calls arbitrary: st)
    case (Cons sc calls)
    obtain s' c where sc: "sc = (s', c)" by (cases sc)
    show ?case
    proof (cases "array_room h st")
      case True
      from Cons.IH [OF run_call_store_ok [OF order Cons.prems True, of s' c]]
        log_extends_trans [OF run_call_extends [OF Cons.prems, of s s' c]] True
      show ?thesis by (simp add: sc)
    qed (use Cons.prems in \<open>simp add: sc\<close>)
  qed simp
qed

end

sublocale good_host \<subseteq> busy: channel_log "interleaved (in_memory h s)"
    "\<lambda>sf. store_ok h (fst sf) \<and> (\<forall>f \<in> set (snd sf). polite (store_ok h) (\<lambda>st i. stream_events h s i st) (run_entry h s) f)"
    "\<lambda>sf i. stream_events h s i (fst sf)" "\<lambda>sf. run_entry h s (fst sf)"
  by (rule store.interleaved_log)

context good_host
begin

lemmas in_memory_log = store.channel_log_axioms

lemmas busy_log = busy.channel_log_axioms

end

interpretation demo: good_host demo_host
  by unfold_locales (rule digits_ok_demo_host total_preorder_demo_host)+

end
