(* ===== verification/RunManager.thy ===== *)
theory RunManager
  imports ChannelOps
begin

text \<open>
  The lifecycle of a run (\<open>event-store/src/lifecycle.ts\<close>, \<open>run-manager.ts\<close>,
  \<open>channel-session.ts\<close>, \<open>resolved-run-profile.ts\<close>): which events end or suspend a run, how the
  run manager reads a run's state off its stream, and how it closes the runs a crash left open.
\<close>

section \<open>Lifecycle\<close>

definition terminal_outcomes :: "(string \<times> string) list" where
  "terminal_outcomes =
     [(''run.completed'', ''completed''), (''run.awaiting_input'', ''awaiting_input''),
      (''run.awaiting_approval'', ''awaiting_approval''), (''run.failed'', ''failed''),
      (''run.timed_out'', ''timed_out''), (''run.cancelled'', ''cancelled'')]"

text \<open>
  The tables are object literals, so a lookup also finds what every object inherits:
  \<open>terminalOutcomes["toString"]\<close> is a function.
\<close>

definition object_prototype_keys :: "string list" where
  "object_prototype_keys =
     [''constructor'', ''__defineGetter__'', ''__defineSetter__'', ''hasOwnProperty'', ''__lookupGetter__'',
      ''__lookupSetter__'', ''isPrototypeOf'', ''propertyIsEnumerable'', ''toString'', ''valueOf'', ''__proto__'',
      ''toLocaleString'']"

text \<open>
  \<open>terminalOutcome\<close>: \<open>None\<close> is \<open>undefined\<close>. The copy \<open>{ ...outcome }\<close> of an inherited function
  (or of the prototype) has no \<open>status\<close>: \<open>Some None\<close>.
\<close>

definition terminal_outcome :: "string \<Rightarrow> string option option" where
  "terminal_outcome ty =
     (case map_of terminal_outcomes ty of
        Some status \<Rightarrow> Some (Some status)
      | None \<Rightarrow> if ty \<in> set object_prototype_keys then Some None else None)"

definition is_terminal_run_state :: "string \<Rightarrow> bool" where
  "is_terminal_run_state status \<longleftrightarrow> status \<noteq> ''queued'' \<and> status \<noteq> ''running''"

text \<open>The types that (re)start a run.\<close>

definition is_running_event :: "string \<Rightarrow> bool" where
  "is_running_event ty \<longleftrightarrow> ty = ''run.started'' \<or> ty = ''run.resumed'' \<or> ty = ''run.progress''"

section \<open>The run manager\<close>

definition active_run :: "start_run \<Rightarrow> string \<Rightarrow> run" where
  "active_run c status = \<lparr>ru_id = sr_run_id c, ru_fields = sr_fields c, ru_status = status, ru_outcome = None\<rparr>"

text \<open>The switch has no case for an outcome without a status: the function then returns \<open>undefined\<close>.\<close>

definition terminal_run :: "start_run \<Rightarrow> string option \<Rightarrow> run option" where
  "terminal_run c outcome =
     (case outcome of
        None \<Rightarrow> None
      | Some s \<Rightarrow> Some \<lparr>ru_id = sr_run_id c, ru_fields = sr_fields c, ru_status = s, ru_outcome = Some s\<rparr>)"

text \<open>The loop of \<open>get\<close>: the status and the outcome of a suspension so far.\<close>

fun scan_run :: "start_run \<Rightarrow> string \<Rightarrow> string option option \<Rightarrow> string list \<Rightarrow> run option" where
  "scan_run c status suspended [] =
     (case suspended of Some outcome \<Rightarrow> terminal_run c outcome | None \<Rightarrow> Some (active_run c status))"
| "scan_run c status suspended (ty # tys) =
     (case terminal_outcome ty of
        Some outcome \<Rightarrow>
          if is_terminal_event ty then terminal_run c outcome
          else scan_run c status (Some outcome) tys
      | None \<Rightarrow>
          if is_running_event ty then scan_run c ''running'' None tys
          else scan_run c status suspended tys)"

definition rm_get :: "'s channel_ops \<Rightarrow> string \<Rightarrow> ('s, js_error, run option) action" where
  "rm_get ops run_id = act_bind (co_get_run_command ops run_id) (\<lambda>command.
     case command of
       None \<Rightarrow> act_return None
     | Some c \<Rightarrow> act_bind (co_read ops run_id None) (\<lambda>events.
         act_return (scan_run c ''queued'' None (map ev_type events))))"

definition rm_start :: "'s channel_ops \<Rightarrow> start_run \<Rightarrow> ('s, js_error, run option) action" where
  "rm_start ops command = act_seq
     (case rf_parent (sr_fields command) of
        None \<Rightarrow> act_return ()
      | Some (parent, _) \<Rightarrow> act_bind (co_get_run_command ops parent) (\<lambda>found.
          case found of
            None \<Rightarrow> act_throw (PlainError (''Parent Run '' @ parent @ '' is not claimed in this Channel''))
          | Some _ \<Rightarrow> act_return ()))
     (act_bind (co_claim_start ops command) (\<lambda>claimed. rm_get ops (sr_run_id claimed)))"

text \<open>The event that closes a run left open; \<open>stamp\<close> gives the fresh event id and the time.\<close>

definition restart_failure :: "(string \<Rightarrow> string \<times> string) \<Rightarrow> run \<Rightarrow> string \<Rightarrow> int \<Rightarrow> canonical_event" where
  "restart_failure stamp r run_id n =
     \<lparr>ev_id = fst (stamp run_id), ev_scope = rf_scope (ru_fields r), ev_stream = run_id, ev_seq = n,
      ev_type = ''run.failed'', ev_timestamp = snd (stamp run_id), ev_schema_version = 1,
      ev_payload = JObj [(''errorType'', JStr ''process_restarted'')]\<rparr>"

definition reconcile_one :: "'s channel_ops \<Rightarrow> (string \<Rightarrow> string \<times> string) \<Rightarrow> string \<Rightarrow> ('s, js_error, unit) action" where
  "reconcile_one ops stamp run_id = act_bind (rm_get ops run_id) (\<lambda>found.
     case found of
       None \<Rightarrow> act_return ()
     | Some r \<Rightarrow>
       if ru_status r \<noteq> ''running'' then act_return ()
       else act_bind (co_read ops run_id None) (\<lambda>events st.
         case co_append ops (restart_failure stamp r run_id (int (length events))) st of
           (Inr u, st') \<Rightarrow> (Inr u, st')
         | (Inl err, st') \<Rightarrow>
             if err \<noteq> EventSequenceConflictError \<and> err \<noteq> TerminalEventConflictError then (Inl err, st')
             else act_bind (rm_get ops run_id) (\<lambda>refreshed st.
               case refreshed of
                 Some r' \<Rightarrow> if is_terminal_run_state (ru_status r') then (Inr (), st) else (Inl err, st)
               | None \<Rightarrow> (Inl err, st)) st'))"

definition rm_reconcile :: "'s channel_ops \<Rightarrow> (string \<Rightarrow> string \<times> string) \<Rightarrow> ('s, js_error, unit) action" where
  "rm_reconcile ops stamp = act_bind (co_active_run_ids ops) (act_for (reconcile_one ops stamp))"

text \<open>\<open>ChannelSessionService.open\<close>: the store of the session's scope, after the session has been claimed.\<close>

definition open_session :: "host \<Rightarrow> channel_session \<Rightarrow> store channel_ops store_op" where
  "open_session h session = act_bind (open_scope (cs_scope session)) (\<lambda>s.
     act_seq (act_bind (claim_channel_session h s session) (\<lambda>_. act_return ())) (act_return (in_memory h s)))"

text \<open>
  \<open>claimRunWithResolvedProfile\<close>: the command's own fields, with the contract fields of the
  resolved snapshot put over them, parsed and claimed in its scope.
\<close>

definition claim_run_with_resolved_profile ::
    "host \<Rightarrow> skill_entry list \<Rightarrow> channel_policy \<Rightarrow> worker_profile \<Rightarrow> run_profile \<Rightarrow> (string \<times> js) list \<Rightarrow> start_run store_op" where
  "claim_run_with_resolved_profile h catalog channel worker profile command =
     act_bind (act_lift (resolve_run_profile h catalog channel worker profile)) (\<lambda>snapshot.
     act_bind (act_lift (parse_start_run h (JObj
        (js_set ''stopCondition'' (JStr (tr_stop_condition (rp_terminal snapshot)))
        (js_set ''budget'' (budget_js (rp_budget snapshot))
        (js_set ''runProfileSnapshot'' (profile_js snapshot)
        (js_set ''runProfile'' (JObj [(''id'', JStr (rp_id snapshot)), (''version'', JStr (rp_version snapshot))]) command))))))) (\<lambda>c.
     act_bind (open_scope (rf_scope (sr_fields c))) (\<lambda>s. claim_start h s c)))"

section \<open>What a stream of events says of a run\<close>

text \<open>The reference: the last event that starts, suspends or ends the run decides.\<close>

definition decisive :: "string \<Rightarrow> bool" where
  "decisive ty \<longleftrightarrow> terminal_outcome ty \<noteq> None \<or> is_running_event ty"

definition event_view :: "start_run \<Rightarrow> string \<Rightarrow> run option" where
  "event_view c ty = (case terminal_outcome ty of Some outcome \<Rightarrow> terminal_run c outcome | None \<Rightarrow> Some (active_run c ''running''))"

definition run_view :: "start_run \<Rightarrow> string list \<Rightarrow> run option" where
  "run_view c tys =
     (case find decisive (rev tys) of None \<Rightarrow> Some (active_run c ''queued'') | Some ty \<Rightarrow> event_view c ty)"

lemma find_append: "find P (xs @ ys) = (case find P xs of None \<Rightarrow> find P ys | Some x \<Rightarrow> Some x)"
  by (induction xs) auto

lemma terminal_event_outcome: "is_terminal_event ty \<Longrightarrow> \<exists>s. terminal_outcome ty = Some (Some s)"
  by (auto simp: is_terminal_event_def final_event_types_def terminal_outcome_def terminal_outcomes_def)

lemma running_event_outcome [simp]: "is_running_event ty \<Longrightarrow> terminal_outcome ty = None"
  unfolding is_running_event_def
  by (elim disjE) (simp_all add: terminal_outcome_def terminal_outcomes_def object_prototype_keys_def)

lemma terminal_outcome_status:
  "terminal_outcome ty = Some (Some s) \<longleftrightarrow> (ty, s) \<in> set terminal_outcomes"
proof -
  have "distinct (map fst terminal_outcomes)" by (simp add: terminal_outcomes_def)
  then have "map_of terminal_outcomes ty = Some s \<longleftrightarrow> (ty, s) \<in> set terminal_outcomes" by simp
  then show ?thesis by (auto simp: terminal_outcome_def split: option.splits if_splits)
qed

lemma scan_run_from:
  assumes "\<forall>n. Suc n < length tys \<longrightarrow> \<not> is_terminal_event (tys ! n)"
  shows "scan_run c status suspended tys =
    (case find decisive (rev tys) of
       None \<Rightarrow> (case suspended of Some outcome \<Rightarrow> terminal_run c outcome | None \<Rightarrow> Some (active_run c status))
     | Some ty \<Rightarrow> event_view c ty)"
  using assms
proof (induction tys arbitrary: status suspended)
  case (Cons ty tys)
  have tail: "\<forall>n. Suc n < length tys \<longrightarrow> \<not> is_terminal_event (tys ! n)" using Cons.prems by auto
  have last: "tys = []" if "is_terminal_event ty" using Cons.prems [rule_format, of 0] that by (cases tys) auto
  show ?case
    using Cons.IH [OF tail] last terminal_event_outcome [of ty]
    by (auto simp: find_append decisive_def event_view_def split: option.splits)
qed simp

lemma scan_run_view:
  "\<forall>n. Suc n < length tys \<longrightarrow> \<not> is_terminal_event (tys ! n) \<Longrightarrow> scan_run c ''queued'' None tys = run_view c tys"
  by (simp add: scan_run_from run_view_def split: option.splits)

definition final_statuses :: "string list" where
  "final_statuses = [''completed'', ''failed'', ''timed_out'', ''cancelled'']"

lemma final_outcome:
  assumes "terminal_outcome ty = Some (Some s)"
  shows "is_terminal_event ty \<longleftrightarrow> s \<in> set final_statuses"
  using assms unfolding terminal_outcome_status terminal_outcomes_def
  by (simp, elim disjE) (simp_all add: is_terminal_event_def final_event_types_def final_statuses_def)

lemma final_view_sealed:
  assumes "run_view c tys = Some r" and "ru_status r \<in> set final_statuses"
  shows "\<exists>ty \<in> set tys. is_terminal_event ty"
proof -
  have active: "\<not> ru_status (active_run c s) \<in> set final_statuses" if "s = ''queued'' \<or> s = ''running''" for s
    using that by (elim disjE) (simp_all add: active_run_def final_statuses_def)
  with assms obtain ty where ty: "find decisive (rev tys) = Some ty" and v: "event_view c ty = Some r"
    by (simp add: run_view_def split: option.splits) fastforce
  from v active assms(2) obtain s where "terminal_outcome ty = Some (Some s)" "ru_status r = s"
    by (simp add: event_view_def terminal_run_def split: option.splits) fastforce+
  with assms(2) have "is_terminal_event ty" by (simp add: final_outcome)
  with find_SomeD [OF ty] show ?thesis by auto
qed

context channel_log
begin

abbreviation types :: "'s \<Rightarrow> string \<Rightarrow> string list" where
  "types st i \<equiv> map ev_type (events st i)"

lemma scan_types: "ok st \<Longrightarrow> scan_run c ''queued'' None (types st i) = run_view c (types st i)"
  by (rule scan_run_view) (auto simp: final_last)

text \<open>What the run manager returns is the view of a state between its call and its return.\<close>

lemma get_view:
  assumes ok: "ok st" and run: "rm_get ops i st = (r, st')"
  shows "ok st' \<and> log_extends events command st st'
    \<and> (r = Inr None \<and> command st' i = None \<or>
       (\<exists>c. command st' i = Some c \<and> r = Inr (run_view c (types st' i))))"
proof -
  obtain got st1 where g: "co_get_run_command ops i st = (got, st1)" by fastforce
  from command_law [OF ok g] have s1: "ok st1" "log_extends events command st st1" "got = Inr (command st1 i)" by blast+
  show ?thesis
  proof (cases "command st1 i")
    case None
    with run g s1 show ?thesis by (simp add: rm_get_def act_bind_def act_return_def)
  next
    case (Some c)
    obtain es st2 where rd: "co_read ops i None st1 = (es, st2)" by fastforce
    from read_law [OF s1(1) rd] have s2: "ok st2" "log_extends events command st1 st2" "es = Inr (events st2 i)" by simp_all
    have "command st2 i = Some c" using s2(2) Some by (simp add: log_extends_def)
    moreover have "r = Inr (run_view c (types st2 i)) \<and> st' = st2"
      using run g s1(3) Some rd s2(3) scan_types [OF s2(1), of c i] by (auto simp: rm_get_def act_bind_def act_return_def)
    ultimately show ?thesis using s2 log_extends_trans [OF s1(2) s2(2)] by blast
  qed
qed

lemma get_final:
  assumes ok: "ok st" and run: "rm_get ops i st = (Inr (Some r), st1)" and final: "ru_status r \<in> set final_statuses"
    and later: "ok st2" "log_extends events command st1 st2" and again: "rm_get ops i st2 = (r', st3)"
  shows "r' = Inr (Some r) \<and> events st3 i = events st1 i"
proof -
  from get_view [OF ok run] obtain c where c: "command st1 i = Some c" "run_view c (types st1 i) = Some r" by auto
  from final_view_sealed [OF c(2) final] have "sealed (events st1 i)" by (auto simp: sealed_def)
  moreover from get_view [OF later(1) again] have ext: "log_extends events command st1 st3"
    using log_extends_trans [OF later(2)] by blast
  ultimately have "events st3 i = events st1 i" "command st3 i = Some c"
    using c(1) unfolding log_extends_def by (metis append_Nil2, blast)
  with get_view [OF later(1) again] c(2) show ?thesis by auto
qed

end

section \<open>Reconciliation among other clients\<close>

lemma sealed_view:
  assumes last: "\<forall>n. Suc n < length es \<longrightarrow> \<not> is_terminal_event (ev_type (es ! n))" and "sealed es"
  shows "\<exists>ty s. find decisive (rev (map ev_type es)) = Some ty \<and> is_terminal_event ty \<and> terminal_outcome ty = Some (Some s)
    \<and> s \<in> set final_statuses"
proof -
  from \<open>sealed es\<close> obtain n where n: "n < length es" "is_terminal_event (ev_type (es ! n))"
    by (auto simp: sealed_def in_set_conv_nth)
  with last have "Suc n = length es" by (meson Suc_lessI)
  then have "es = take n es @ [es ! n]" using take_Suc_conv_app_nth [OF n(1)] by simp
  then obtain ys x where es: "es = ys @ [x]" and x: "is_terminal_event (ev_type x)" using n(2) by blast
  from terminal_event_outcome [OF x] obtain s where s: "terminal_outcome (ev_type x) = Some (Some s)" by blast
  then have "decisive (ev_type x)" by (simp add: decisive_def)
  with x s final_outcome [OF s] show ?thesis by (simp add: es)
qed

lemma status_final: "s \<in> set final_statuses \<Longrightarrow> s \<noteq> ''running'' \<and> s \<noteq> ''queued''"
  by (auto simp: final_statuses_def)

context channel_log
begin

definition settled :: "'s \<Rightarrow> string \<Rightarrow> bool" where
  "settled st i \<longleftrightarrow> (\<forall>c r. command st i = Some c \<longrightarrow> run_view c (types st i) = Some r \<longrightarrow> ru_status r \<noteq> ''running'')"

lemma sealed_settled: "ok st \<Longrightarrow> sealed (events st i) \<Longrightarrow> settled st i"
  using sealed_view [of "events st i"] final_last [of st _ i] status_final
  by (fastforce simp: settled_def run_view_def event_view_def terminal_run_def)

lemma reconcile_one_settles:
  assumes ok: "ok st" and run: "reconcile_one ops stamp i st = (r, st')"
  shows "ok st' \<and> log_extends events command st st'
    \<and> (r = Inr () \<longrightarrow> (\<exists>mid. ok mid \<and> log_extends events command st mid \<and> log_extends events command mid st' \<and> settled mid i))"
proof -
  obtain found st1 where g: "rm_get ops i st = (found, st1)" by fastforce
  note v = get_view [OF ok g]
  have keep: ?thesis if "st' = st1" "settled st1 i" using v that by (auto intro!: exI [of _ st1])
  show ?thesis
  proof (cases "\<exists>x. found = Inr (Some x) \<and> ru_status x = ''running''")
    case False
    then have "st' = st1" using run g by (auto simp: reconcile_one_def act_bind_def act_return_def split: sum.splits option.splits if_splits)
    moreover have "settled st1 i" using v False by (auto simp: settled_def)
    ultimately show ?thesis by (rule keep)
  next
    case True
    then obtain x where x: "found = Inr (Some x)" "ru_status x = ''running''" by blast
    obtain es st2 where rd: "co_read ops i None st1 = (es, st2)" by fastforce
    from read_law [OF _ rd] v have s2: "ok st2" "log_extends events command st st2" "es = Inr (events st2 i)"
      by (auto intro: log_extends_trans)
    define e where "e = restart_failure stamp x i (int (length (events st2 i)))"
    have e: "ev_stream e = i" "ev_type e = ''run.failed''" by (simp_all add: e_def restart_failure_def)
    obtain ap st3 where a: "co_append ops e st2 = (ap, st3)" by fastforce
    from append_law [OF s2(1) a] s2 e have s3: "ok st3" "log_extends events command st st3"
      and stored: "ap = Inr () \<longrightarrow> (\<exists>e' \<in> set (events st3 i). ev_type e' = ''run.failed'')"
      by (auto intro: log_extends_trans) (metis same_event_fields)
    show ?thesis
    proof (cases ap)
      case (Inr u)
      have "r = Inr u \<and> st' = st3" using run g x rd s2(3) a Inr by (simp add: reconcile_one_def act_bind_def e_def)
      moreover from stored Inr have "sealed (events st3 i)" by (auto simp: sealed_def is_terminal_event_def final_event_types_def)
      then have "settled st3 i" by (rule sealed_settled [OF s3(1)])
      ultimately show ?thesis using s3 by (auto intro!: exI [of _ st3])
    next
      case (Inl err)
      obtain re st4 where g4: "rm_get ops i st3 = (re, st4)" by fastforce
      note v4 = get_view [OF s3(1) g4]
      have cases: "(r, st') = (if err \<noteq> EventSequenceConflictError \<and> err \<noteq> TerminalEventConflictError then (Inl err, st3)
          else case re of Inl err' \<Rightarrow> (Inl err', st4)
          | Inr None \<Rightarrow> (Inl err, st4)
          | Inr (Some r') \<Rightarrow> if is_terminal_run_state (ru_status r') then (Inr (), st4) else (Inl err, st4))"
        using run g x rd s2(3) a Inl g4
        by (cases "err = EventSequenceConflictError \<or> err = TerminalEventConflictError"; cases re)
          (auto simp: reconcile_one_def act_bind_def e_def split: option.splits)
      show ?thesis
      proof (cases "r = Inr ()")
        case False
        then have "st' = st3 \<or> st' = st4" using cases by (auto split: if_splits sum.splits option.splits)
        then show ?thesis using False s3 v4 by (auto intro: log_extends_trans)
      next
        case True
        then obtain r' where r': "re = Inr (Some r')" "is_terminal_run_state (ru_status r')" "st' = st4"
          using cases by (auto split: if_splits sum.splits option.splits)
        then have "settled st4 i" using v4 by (auto simp: settled_def is_terminal_run_state_def)
        then show ?thesis using r' v4 s3 by (auto intro!: exI [of _ st4] intro: log_extends_trans)
      qed
    qed
  qed
qed

lemma reconcile_settles:
  assumes ok: "ok st" and run: "act_for (reconcile_one ops stamp) ids st = (r, st')"
  shows "ok st' \<and> log_extends events command st st'
    \<and> (r = Inr () \<longrightarrow> (\<forall>i \<in> set ids. \<exists>mid. ok mid \<and> log_extends events command st mid \<and> log_extends events command mid st' \<and> settled mid i))"
  using assms
proof (induction ids arbitrary: st)
  case Nil then show ?case by (simp add: act_return_def)
next
  case (Cons i ids)
  obtain r1 st1 where one: "reconcile_one ops stamp i st = (r1, st1)" by fastforce
  note s1 = reconcile_one_settles [OF Cons.prems(1) one]
  show ?case
  proof (cases r1)
    case (Inl e)
    with Cons.prems(2) one s1 show ?thesis by (auto simp: act_seq_def act_bind_def)
  next
    case (Inr u)
    with Cons.prems(2) one have rest: "act_for (reconcile_one ops stamp) ids st1 = (r, st')"
      by (simp add: act_seq_def act_bind_def)
    from s1 have "ok st1" by blast
    note ih = Cons.IH [OF this rest]
    show ?thesis
    proof (intro conjI impI ballI)
      show "ok st'" "log_extends events command st st'" using ih s1 by (blast intro: log_extends_trans)+
      fix j assume "r = Inr ()" "j \<in> set (i # ids)"
      then show "\<exists>mid. ok mid \<and> log_extends events command st mid \<and> log_extends events command mid st' \<and> settled mid j"
        using s1 ih Inr by (auto intro: log_extends_trans)
    qed
  qed
qed

lemma rm_reconcile_settles:
  assumes ok: "ok st" and run: "rm_reconcile ops stamp st = (Inr (), st')" and i: "command st i \<noteq> None"
  shows "ok st' \<and> log_extends events command st st'
    \<and> (\<exists>mid. ok mid \<and> log_extends events command st mid \<and> log_extends events command mid st' \<and> settled mid i)"
proof -
  obtain act st1 where a: "co_active_run_ids ops st = (act, st1)" by fastforce
  from active_law [OF ok a] obtain ids where ids: "act = Inr ids" "ok st1" "log_extends events command st st1"
    "set ids = {i. command st1 i \<noteq> None \<and> \<not> sealed (events st1 i)}" by blast
  have rest: "act_for (reconcile_one ops stamp) ids st1 = (Inr (), st')"
    using run a ids(1) by (simp add: rm_reconcile_def act_bind_def)
  note all = reconcile_settles [OF ids(2) rest]
  show ?thesis
  proof (cases "i \<in> set ids")
    case True
    then show ?thesis using all ids(3) by (blast intro: log_extends_trans)
  next
    case False
    have "command st1 i \<noteq> None" using i ids(3) unfolding log_extends_def by (metis option.exhaust option.simps(3))
    with False ids(4) have "sealed (events st1 i)" by simp
    then have "settled st1 i" by (rule sealed_settled [OF ids(2)])
    then show ?thesis using all ids by (blast intro: log_extends_trans)
  qed
qed

end

end
