(* ===== verification/RunProperties.thy ===== *)
theory RunProperties
  imports RunManager
begin

text \<open>
  The run manager's properties: what it reports, that a reported end is final whatever other
  clients do, what reconciliation does to every run, how starting behaves, and the event types
  that make a run disappear.
\<close>

section \<open>The run manager over the in-memory store\<close>

lemma in_memory_simps [simp]:
  "co_append (in_memory h s) = append_event h s" "co_read (in_memory h s) = read_events h s"
  "co_get_run_command (in_memory h s) = get_run_command h s" "co_claim_start (in_memory h s) = claim_start h s"
  "co_active_run_ids (in_memory h s) = active_run_ids h s"
  "co_load_projection (in_memory h s) = load_projection h s" "co_commit_projection (in_memory h s) = commit_projection h s"
  by (simp_all add: in_memory_def)

abbreviation run_types :: "host \<Rightarrow> scope \<Rightarrow> string \<Rightarrow> store \<Rightarrow> string list" where
  "run_types h s i st \<equiv> map ev_type (stream_events h s i st)"

lemma get_command_entry: "store_ok h st \<Longrightarrow> get_run_command h s i st = (Inr (run_entry h s st i), st)"
  by (simp add: store_ok_def get_run_command_run run_entry_def)

lemma read_all: "store_ok h st \<Longrightarrow> read_events h s i None st = (Inr (stream_events h s i st), st)"
  by (simp add: store_ok_def read_events_run)

lemma in_memory_get:
  assumes ok: "store_ok h st"
  shows "rm_get (in_memory h s) i st =
    (Inr (case run_entry h s st i of None \<Rightarrow> None | Some c \<Rightarrow> run_view c (run_types h s i st)), st)"
proof -
  have "scan_run c ''queued'' None (run_types h s i st) = run_view c (run_types h s i st)" for c
    using log_ok_nth [of h st _ s i] ok by (intro scan_run_view) (auto simp: store_ok_def)
  then show ?thesis
    by (simp add: rm_get_def act_bind_def act_return_def get_command_entry [OF ok] read_all [OF ok] split: option.splits)
qed

section \<open>Example: a claimed run with one event\<close>

definition demo_run_with :: "string \<Rightarrow> store" where
  "demo_run_with ty = run_call demo_host demo_scope (CallAppend (demo_event ''a'' 0 ty)) demo_claims"

lemma demo_claims_streams: "stream_events h s i demo_claims = []" "stored_event h s x demo_claims = None"
  using frame_log [of "CallClaimStart demo_start" demo_host demo_scope empty_store]
  by (simp_all add: demo_claims_def stream_events_def stored_event_def js_get_or_def empty_store_def del: run_call.simps)

lemma demo_run_with_push:
  "\<not> is_blank ty \<Longrightarrow> demo_run_with ty = push_event demo_host demo_scope (demo_event ''a'' 0 ty) demo_claims"
  using demo_event_ok [of "''a''" ty 0]
  by (simp add: demo_run_with_def append_event_def act_bind_def act_lift_def clone_event_run is_blank_iff is_space_def
      max_safe_def demo_claims_streams) (simp add: demo_event_def Let_def demo_claims_streams)

lemma demo_run_with_facts:
  assumes "\<not> is_blank ty"
  shows "reachable_store demo_host (demo_run_with ty)" "array_room demo_host (demo_run_with ty)"
    "run_types demo_host demo_scope ''r'' (demo_run_with ty) = [ty]"
    "run_entry demo_host demo_scope (demo_run_with ty) ''r'' = Some demo_start"
proof -
  have room: "array_room demo_host demo_claims" by (simp add: array_room_def demo_claims_streams)
  show "reachable_store demo_host (demo_run_with ty)"
    unfolding demo_run_with_def by (rule reachable_call [OF reachable_demo_claims room])
  show "array_room demo_host (demo_run_with ty)" "run_types demo_host demo_scope ''r'' (demo_run_with ty) = [ty]"
    by (simp_all add: demo_run_with_push [OF assms] array_room_def demo_claims_streams) (simp_all add: demo_event_def)
  have "run_entry demo_host demo_scope demo_claims ''r'' = Some demo_start"
    using demo_claimed by (simp add: get_command_entry reachable_store_ok [OF total_preorder_demo_host reachable_demo_claims])
  then show "run_entry demo_host demo_scope (demo_run_with ty) ''r'' = Some demo_start"
    by (simp add: demo_run_with_push [OF assms] run_entry_def push_event_def)
qed

lemma demo_blank: "\<not> is_blank ''run.started''" "\<not> is_blank ''run.completed''" "\<not> is_blank ''toString''"
  by (simp_all add: is_blank_iff is_space_def)

lemmas demo_started_run = demo_run_with_facts [OF demo_blank(1)]

lemmas demo_ended_run = demo_run_with_facts [OF demo_blank(2)]

lemma demo_outcomes:
  "terminal_outcome ''run.completed'' = Some (Some ''completed'')" "terminal_outcome ''run.started'' = None"
  "is_running_event ''run.started''"
  by (simp_all add: terminal_outcome_def terminal_outcomes_def object_prototype_keys_def is_running_event_def)

lemma quiet_get:
  "rm_get (interleaved ops) i (st, []) = (case rm_get ops i st of (r, st') \<Rightarrow> (r, (st', [])))"
  by (auto simp: rm_get_def act_bind_def disturb_def interleaved_simps act_return_def split: prod.splits sum.splits option.splits)

text \<open>
  C14. The run manager reports the view of the run's last decisive event, which is a single
  backward search: queued when no event starts, suspends or ends the run, running after a start,
  a resumption or progress, and the outcome of the suspension or end otherwise. A run that is
  not claimed in the channel is reported as absent. Reading changes nothing.
\<close>

theorem run_manager_reads_last_decisive_event:
  assumes "total_preorder (locale_le h)" and "reachable_store h st"
  shows "rm_get (in_memory h s) i st =
    (Inr (case run_entry h s st i of None \<Rightarrow> None | Some c \<Rightarrow> run_view c (run_types h s i st)), st)"
  by (rule in_memory_get [OF reachable_store_ok [OF assms]])

lemma run_manager_reads_last_decisive_event_witness:
  "fst (rm_get (in_memory demo_host demo_scope) ''r'' (demo_run_with ''run.started'')) = Inr (Some (active_run demo_start ''running''))"
  using run_manager_reads_last_decisive_event [OF total_preorder_demo_host demo_started_run(1), of demo_scope "''r''"]
  by (simp add: demo_started_run demo_outcomes run_view_def event_view_def decisive_def)

text \<open>
  C15. A reported end is final. When the run manager, whose store accesses are interleaved with
  arbitrary calls of other clients, reports a run as completed, failed, timed out or cancelled,
  then it reports the same run, unchanged, whenever it is asked again.
\<close>

theorem reported_end_is_final:
  assumes "digits_ok h" and "total_preorder (locale_le h)" and "reachable_store h st"
    and "rm_get (interleaved (in_memory h s)) i (st, map (others h) calls) = (Inr (Some r), (st1, fs))"
    and "ru_status r \<in> {''completed'', ''failed'', ''timed_out'', ''cancelled''}"
    and "rm_get (interleaved (in_memory h s)) i (st1, map (others h) calls') = (r', (st2, fs'))"
  shows "r' = Inr (Some r) \<and> stream_events h s i st2 = stream_events h s i st1"
proof -
  have h: "good_host h" using assms(1,2) by (rule good_host.intro)
  have ok: "store_ok h st" by (rule reachable_store_ok [OF assms(2,3)])
  have polite: "\<forall>f \<in> set (map (others h) calls). polite (store_ok h) (\<lambda>st i. stream_events h s i st) (run_entry h s) f" for calls
    by (auto intro: good_host.others_polite [OF h])
  have final: "ru_status r \<in> set final_statuses" using assms(5) by (simp add: final_statuses_def)
  from channel_log.get_view [OF good_host.busy_log [OF h] _ assms(4)] ok polite have "store_ok h st1" by simp
  then show ?thesis
    using channel_log.get_final [OF good_host.busy_log [OF h] _ assms(4) final _ _ assms(6)] ok polite by (simp add: log_extends_def)
qed

lemma demo_ended_get:
  "rm_get (in_memory demo_host demo_scope) ''r'' (demo_run_with ''run.completed'')
     = (Inr (terminal_run demo_start (Some ''completed'')), demo_run_with ''run.completed'')"
  by (simp add: in_memory_get [OF reachable_store_ok [OF total_preorder_demo_host demo_ended_run(1)]] demo_ended_run
      demo_outcomes run_view_def event_view_def decisive_def)

lemma reported_end_is_final_witness:
  "fst (rm_get (interleaved (in_memory demo_host demo_scope)) ''r''
      (demo_run_with ''run.completed'', [others demo_host [(other_scope, CallCancelSchedule ''x'')]]))
     = Inr (terminal_run demo_start (Some ''completed''))"
proof -
  define sf where "sf = rm_get (interleaved (in_memory demo_host demo_scope)) ''r''
      (demo_run_with ''run.completed'', map (others demo_host) [[(other_scope, CallCancelSchedule ''x'')]])"
  have get: "rm_get (interleaved (in_memory demo_host demo_scope)) ''r''
      (demo_run_with ''run.completed'', map (others demo_host) [[(other_scope, CallCancelSchedule ''x'')]])
      = (fst sf, (fst (snd sf), snd (snd sf)))"
    unfolding sf_def by (simp only: prod.collapse)
  from reported_end_is_final [OF digits_ok_demo_host total_preorder_demo_host demo_ended_run(1) _ _ get,
      of "[]" "the (terminal_run demo_start (Some ''completed''))" "[]"]
  have "fst sf = Inr (terminal_run demo_start (Some ''completed''))"
    by (simp add: quiet_get demo_ended_get terminal_run_def)
  then show ?thesis unfolding sf_def by (simp only: list.map)
qed

section \<open>Reconciliation\<close>

text \<open>
  C16. Reconciliation leaves no run running. When it returns normally, then for every run claimed
  before it began there was a moment, between its beginning and its end and with arbitrary calls of
  other clients interleaved, at which the run was not running; the log has only grown, and sealed
  streams are as they were.
\<close>

theorem reconcile_settles_every_run:
  assumes "digits_ok h" and "total_preorder (locale_le h)" and "reachable_store h st"
    and "rm_reconcile (interleaved (in_memory h s)) stamp (st, map (others h) calls) = (Inr (), (st1, fs))"
    and "run_entry h s st i = Some c"
  shows "\<exists>mid. log_extends (\<lambda>st i. stream_events h s i st) (run_entry h s) st mid
    \<and> log_extends (\<lambda>st i. stream_events h s i st) (run_entry h s) mid st1
    \<and> (\<forall>r. rm_get (in_memory h s) i mid = (Inr (Some r), mid) \<longrightarrow> ru_status r \<noteq> ''running'')"
proof -
  have h: "good_host h" using assms(1,2) by (rule good_host.intro)
  have ok: "store_ok h st" by (rule reachable_store_ok [OF assms(2,3)])
  have polite: "\<forall>f \<in> set (map (others h) calls). polite (store_ok h) (\<lambda>st i. stream_events h s i st) (run_entry h s) f"
    by (auto intro: good_host.others_polite [OF h])
  obtain mid where mid: "store_ok h (fst mid)"
      "log_extends (\<lambda>st i. stream_events h s i (fst st)) (\<lambda>st. run_entry h s (fst st)) (st, map (others h) calls) mid"
      "log_extends (\<lambda>st i. stream_events h s i (fst st)) (\<lambda>st. run_entry h s (fst st)) mid (st1, fs)"
      "\<forall>c r. run_entry h s (fst mid) i = Some c \<longrightarrow> run_view c (run_types h s i (fst mid)) = Some r \<longrightarrow> ru_status r \<noteq> ''running''"
    using channel_log.rm_reconcile_settles [OF good_host.busy_log [OF h] _ assms(4), of i] ok polite assms(5)
    unfolding channel_log.settled_def [OF good_host.busy_log [OF h]] by auto
  have "ru_status r \<noteq> ''running''" if "rm_get (in_memory h s) i (fst mid) = (Inr (Some r), fst mid)" for r
    using that mid(4) by (simp add: in_memory_get [OF mid(1)] split: option.splits)
  with mid show ?thesis by (intro exI [of _ "fst mid"]) (simp add: log_extends_def)
qed


lemma quiet_for:
  assumes "\<And>x st. f' x (st, []) = (case f x st of (r, st') \<Rightarrow> (r, (st', [])))"
  shows "act_for f' xs (st, []) = (case act_for f xs st of (r, st') \<Rightarrow> (r, (st', [])))"
  by (induction xs arbitrary: st) (auto simp: act_return_def act_seq_def act_bind_def assms split: prod.splits sum.splits)

lemma quiet_reconcile:
  "rm_reconcile (interleaved ops) stamp (st, []) = (case rm_reconcile ops stamp st of (r, st') \<Rightarrow> (r, (st', [])))"
proof -
  have "reconcile_one (interleaved ops) stamp i (st, []) = (case reconcile_one ops stamp i st of (r, st') \<Rightarrow> (r, (st', [])))" for i st
    by (auto simp: reconcile_one_def act_bind_def disturb_def interleaved_simps act_return_def quiet_get
        split: prod.splits sum.splits option.splits if_splits)
  note loop = quiet_for [of "reconcile_one (interleaved ops) stamp" "reconcile_one ops stamp", OF this]
  show ?thesis
    by (auto simp: rm_reconcile_def act_bind_def disturb_def interleaved_simps loop split: prod.splits sum.splits)
qed

text \<open>Reconciliation of one run, with nobody else around.\<close>

definition runs_now :: "host \<Rightarrow> scope \<Rightarrow> store \<Rightarrow> string \<Rightarrow> bool" where
  "runs_now h s st i \<longleftrightarrow> (\<exists>c. run_entry h s st i = Some c \<and> run_view c (run_types h s i st) = Some (active_run c ''running''))"

lemma view_running: "run_view c tys = Some r \<Longrightarrow> ru_status r = ''running'' \<Longrightarrow> r = active_run c ''running''"
proof -
  assume v: "run_view c tys = Some r" and r: "ru_status r = ''running''"
  have "s \<noteq> ''running''" if "terminal_outcome ty = Some (Some s)" for ty s
    using that unfolding terminal_outcome_status terminal_outcomes_def by (simp, elim disjE) simp_all
  with v r show ?thesis
    by (auto simp: run_view_def event_view_def terminal_run_def active_run_def split: option.splits)
qed

lemma running_stream:
  assumes ok: "store_ok h st" and run: "runs_now h s st i"
  shows "\<not> sealed (stream_events h s i st)" and "scope_ok s" and "\<not> is_blank i"
proof -
  have log: "log_ok h st" using ok by (simp add: store_ok_def)
  from run obtain c where c: "run_view c (run_types h s i st) = Some (active_run c ''running'')" by (auto simp: runs_now_def)
  show "\<not> sealed (stream_events h s i st)"
  proof
    assume "sealed (stream_events h s i st)"
    then obtain ty o' where "find decisive (rev (run_types h s i st)) = Some ty" "terminal_outcome ty = Some (Some o')" "o' \<in> set final_statuses"
      using sealed_view [of "stream_events h s i st"] log_ok_nth [OF log, of _ s i] by auto
    with c status_final show False by (auto simp: run_view_def event_view_def terminal_run_def active_run_def)
  qed
  from c have "stream_events h s i st \<noteq> []" by (auto simp: run_view_def active_run_def)
  then have "0 < length (stream_events h s i st)" by simp
  from log_ok_nth [OF log this] show "scope_ok s" "\<not> is_blank i" by (auto simp: event_ok_def)
qed

definition fresh_stamps :: "host \<Rightarrow> scope \<Rightarrow> store \<Rightarrow> (string \<Rightarrow> string \<times> string) \<Rightarrow> bool" where
  "fresh_stamps h s st stamp \<longleftrightarrow> inj (fst \<circ> stamp)
     \<and> (\<forall>i. stored_event h s (fst (stamp i)) st = None \<and> \<not> is_blank (fst (stamp i))
          \<and> \<not> is_blank (snd (stamp i)) \<and> date_parse h (snd (stamp i)) \<noteq> None)"

lemma append_new:
  assumes "event_ok h e" "ev_scope e = s" "stored_event h s (ev_id e) st = None"
    "ev_seq e = int (length (stream_events h s (ev_stream e) st))" "\<not> sealed (stream_events h s (ev_stream e) st)"
  shows "append_event h s e st = (Inr (), push_event h s e st)"
  using assms by (auto simp: append_event_def act_bind_def act_lift_def clone_event_run Let_def sealed_def list_ex_iff)

lemma reconcile_one_exact:
  assumes ok: "store_ok h st" and len: "length (stream_events h s i st) < 4294967295"
    and stamp: "stored_event h s (fst (stamp i)) st = None" "\<not> is_blank (fst (stamp i))"
      "\<not> is_blank (snd (stamp i))" "date_parse h (snd (stamp i)) \<noteq> None"
    and c: "run_entry h s st i = Some c"
  shows "reconcile_one (in_memory h s) stamp i st =
    (Inr (), if runs_now h s st i
             then push_event h s (restart_failure stamp (active_run c ''running'') i (int (length (stream_events h s i st)))) st
             else st)"
proof (cases "runs_now h s st i")
  case False
  then show ?thesis using c view_running
    by (auto simp: reconcile_one_def act_bind_def act_return_def in_memory_get [OF ok] runs_now_def split: option.splits)
next
  case True
  with c have v: "run_view c (run_types h s i st) = Some (active_run c ''running'')" by (auto simp: runs_now_def)
  have s: "rf_scope (sr_fields c) = s" using commands_ok_in(1) c ok unfolding store_ok_def run_entry_def by blast
  let ?e = "restart_failure stamp (active_run c ''running'') i (int (length (stream_events h s i st)))"
  have "event_ok h ?e" using running_stream [OF ok True] stamp len s
    by (simp add: event_ok_def restart_failure_def active_run_def max_safe_def is_blank_iff is_space_def)
  then have "append_event h s ?e st = (Inr (), push_event h s ?e st)"
    by (rule append_new) (simp_all add: restart_failure_def active_run_def s stamp running_stream [OF ok True])
  then show ?thesis using True v
    by (simp add: reconcile_one_def act_bind_def in_memory_get [OF ok] c read_all [OF ok]) (simp add: active_run_def)
qed


definition closing :: "scope \<Rightarrow> (string \<Rightarrow> string \<times> string) \<Rightarrow> string \<Rightarrow> int \<Rightarrow> canonical_event" where
  "closing s stamp i n = \<lparr>ev_id = fst (stamp i), ev_scope = s, ev_stream = i, ev_seq = n, ev_type = ''run.failed'',
     ev_timestamp = snd (stamp i), ev_schema_version = 1, ev_payload = JObj [(''errorType'', JStr ''process_restarted'')]\<rparr>"

lemma restart_failure_closing: "restart_failure stamp (active_run c x) i n = closing (rf_scope (sr_fields c)) stamp i n"
  by (simp add: restart_failure_def closing_def active_run_def)

text \<open>The store after the runs of a list have been closed.\<close>

definition closed_runs :: "host \<Rightarrow> scope \<Rightarrow> (string \<Rightarrow> string \<times> string) \<Rightarrow> string list \<Rightarrow> store \<Rightarrow> store \<Rightarrow> bool" where
  "closed_runs h s stamp ids st st' \<longleftrightarrow>
     (\<forall>s' i. stream_events h s' i st' = stream_events h s' i st
        @ (if s' = s \<and> i \<in> set ids \<and> runs_now h s st i
           then [closing s stamp i (int (length (stream_events h s i st)))] else []))
     \<and> (\<forall>s' x. stored_event h s' x st' \<noteq> stored_event h s' x st \<longrightarrow> s' = s \<and> (\<exists>i \<in> set ids. x = fst (stamp i)))
     \<and> st' = st\<lparr>st_streams := st_streams st', st_events := st_events st'\<rparr>"

lemma reconcile_loop_exact:
  assumes h: "good_host h" and "store_ok h st" and "distinct ids" and "\<forall>i \<in> set ids. run_entry h s st i \<noteq> None \<and> length (stream_events h s i st) < 4294967295"
    and "inj (fst \<circ> stamp)"
    and "\<forall>i \<in> set ids. stored_event h s (fst (stamp i)) st = None \<and> \<not> is_blank (fst (stamp i))
          \<and> \<not> is_blank (snd (stamp i)) \<and> date_parse h (snd (stamp i)) \<noteq> None"
  shows "\<exists>st'. act_for (reconcile_one (in_memory h s) stamp) ids st = (Inr (), st') \<and> closed_runs h s stamp ids st st'"
  using assms(2-)
proof (induction ids arbitrary: st)
  case Nil then show ?case by (simp add: act_return_def closed_runs_def)
next
  case (Cons i ids)
  from Cons.prems(3) obtain c where c: "run_entry h s st i = Some c" by auto
  have sc: "rf_scope (sr_fields c) = s" using commands_ok_in(1) c Cons.prems(1) unfolding store_ok_def run_entry_def by blast
  let ?e = "closing s stamp i (int (length (stream_events h s i st)))"
  define st1 where "st1 = (if runs_now h s st i then push_event h s ?e st else st)"
  have one: "reconcile_one (in_memory h s) stamp i st = (Inr (), st1)"
    using reconcile_one_exact [OF Cons.prems(1) _ _ _ _ _ c, of stamp] Cons.prems(3,5) sc
    by (simp add: st1_def restart_failure_closing)
  have e: "ev_id ?e = fst (stamp i)" "ev_stream ?e = i" by (simp_all add: closing_def)
  have streams: "stream_events h s' j st1 = stream_events h s' j st
      @ (if s' = s \<and> j = i \<and> runs_now h s st i then [?e] else [])" for s' j
    by (simp add: st1_def e)
  have stored: "stored_event h s' x st1 = stored_event h s' x st" if "s' \<noteq> s \<or> x \<noteq> fst (stamp i)" for s' x
    using that by (auto simp: st1_def e)
  have entries: "run_entry h s st1 = run_entry h s st" by (auto simp: st1_def run_entry_def push_event_def)
  have runs: "runs_now h s st1 j = runs_now h s st j" if "j \<noteq> i" for j
    using that by (simp add: runs_now_def streams entries)
  have "store_ok h st1"
    using channel_log.reconcile_one_settles [OF good_host.in_memory_log [OF h] Cons.prems(1) one] by blast
  moreover have "fst (stamp j) \<noteq> fst (stamp i)" if "j \<in> set ids" for j
    using that Cons.prems(2,4) by (auto simp: inj_def)
  ultimately obtain st' where st': "act_for (reconcile_one (in_memory h s) stamp) ids st1 = (Inr (), st')" "closed_runs h s stamp ids st1 st'"
    using Cons.IH [of st1] Cons.prems streams stored entries by force
  have "closed_runs h s stamp (i # ids) st st'"
    unfolding closed_runs_def
  proof (intro conjI allI impI)
    fix s' j
    show "stream_events h s' j st' = stream_events h s' j st
        @ (if s' = s \<and> j \<in> set (i # ids) \<and> runs_now h s st j
           then [closing s stamp j (int (length (stream_events h s j st)))] else [])"
    proof (cases "j = i")
      case True
      with st'(2) streams Cons.prems(2) show ?thesis unfolding closed_runs_def by simp
    next
      case False
      with st'(2) streams runs [OF False] show ?thesis unfolding closed_runs_def by simp
    qed
  next
    fix s' x assume new: "stored_event h s' x st' \<noteq> stored_event h s' x st"
    have "s' = s \<and> (\<exists>j \<in> set (i # ids). x = fst (stamp j))"
    proof (cases "s' = s \<and> x = fst (stamp i)")
      case False
      then have "stored_event h s' x st1 = stored_event h s' x st" by (intro stored) blast
      with new have "stored_event h s' x st' \<noteq> stored_event h s' x st1" by simp
      with st'(2) show ?thesis unfolding closed_runs_def by (meson list.set_intros(2))
    qed auto
    then show "s' = s" "\<exists>j \<in> set (i # ids). x = fst (stamp j)" by blast+
  next
    have "st1 = st\<lparr>st_streams := st_streams st1, st_events := st_events st1\<rparr>" by (simp add: st1_def push_event_def)
    then show "st' = st\<lparr>st_streams := st_streams st', st_events := st_events st'\<rparr>"
      using st'(2) unfolding closed_runs_def by (metis (no_types, lifting) store.surjective store.update_convs(1,2))
  qed
  with st'(1) one show ?case by (auto simp: act_seq_def act_bind_def)
qed


lemma reconcile_exact:
  assumes h: "good_host h" and ok: "store_ok h st" and room: "array_room h st" and stamp: "fresh_stamps h s st stamp"
  obtains ids st' where "rm_reconcile (in_memory h s) stamp st = (Inr (), st')" "closed_runs h s stamp ids st st'"
    "\<And>i. runs_now h s st i \<Longrightarrow> i \<in> set ids"
proof -
  obtain ids where ids: "active_run_ids h s st = (Inr ids, st)" "distinct ids"
      "set ids = {i. run_entry h s st i \<noteq> None \<and> \<not> sealed (stream_events h s i st)}"
    by (rule active_run_ids_facts [OF ok])
  obtain st' where st': "act_for (reconcile_one (in_memory h s) stamp) ids st = (Inr (), st')" "closed_runs h s stamp ids st st'"
    using reconcile_loop_exact [OF h ok ids(2), of s stamp] ids(3) room stamp
    by (auto simp: array_room_def fresh_stamps_def)
  have "i \<in> set ids" if "runs_now h s st i" for i
    using that running_stream(1) [OF ok that] by (auto simp: ids(3) runs_now_def)
  with st' ids(1) show thesis by (intro that [of st' ids]) (simp_all add: rm_reconcile_def act_bind_def)
qed

text \<open>
  Reconciliation, exactly. With nobody else at the store and fresh event identifiers, it
  appends one \<open>run.failed\<close> event to the stream of every claimed run that is running, under the
  next number of that stream, and changes nothing else: not the other streams of the channel,
  not other channels, not commands or any other record. Afterwards no run of the channel is
  running, and each run that was is reported as failed.
\<close>

theorem reconcile_fails_running_runs:
  assumes "digits_ok h" and "total_preorder (locale_le h)" and "reachable_store h st" and "array_room h st"
    and "fresh_stamps h s st stamp"
  shows "\<exists>st'. rm_reconcile (in_memory h s) stamp st = (Inr (), st')
    \<and> (\<forall>s' i. stream_events h s' i st' = stream_events h s' i st
        @ (if s' = s \<and> runs_now h s st i then [closing s stamp i (int (length (stream_events h s i st)))] else []))
    \<and> st' = st\<lparr>st_streams := st_streams st', st_events := st_events st'\<rparr>
    \<and> (\<forall>i r. fst (rm_get (in_memory h s) i st') = Inr (Some r) \<longrightarrow>
         ru_status r = (if runs_now h s st i then ''failed''
                        else case fst (rm_get (in_memory h s) i st) of Inr (Some r') \<Rightarrow> ru_status r' | _ \<Rightarrow> ''queued'')
         \<and> ru_status r \<noteq> ''running'')"
proof -
  have h: "good_host h" using assms(1,2) by (rule good_host.intro)
  have ok: "store_ok h st" by (rule reachable_store_ok [OF assms(2,3)])
  obtain ids st' where st': "rm_reconcile (in_memory h s) stamp st = (Inr (), st')" "closed_runs h s stamp ids st st'"
    and ids: "\<And>i. runs_now h s st i \<Longrightarrow> i \<in> set ids"
    by (rule reconcile_exact [OF h ok assms(4,5)]) blast
  have streams: "stream_events h s' i st' = stream_events h s' i st
      @ (if s' = s \<and> runs_now h s st i then [closing s stamp i (int (length (stream_events h s i st)))] else [])" for s' i
    using st'(2) ids unfolding closed_runs_def by auto
  have frame: "st' = st\<lparr>st_streams := st_streams st', st_events := st_events st'\<rparr>" using st'(2) unfolding closed_runs_def by blast
  have entry: "run_entry h s st' = run_entry h s st" by (subst frame) (auto simp: run_entry_def)
  obtain a st1 where a: "active_run_ids h s st = (Inr a, st1)" "st1 = st" by (rule active_run_ids_facts [OF ok]) auto
  have ok': "store_ok h st'"
    using channel_log.reconcile_settles [OF good_host.in_memory_log [OF h] ok, of s stamp a "Inr ()" st'] st'(1) a
    by (simp add: rm_reconcile_def act_bind_def)
  have status: "ru_status r = (if runs_now h s st i then ''failed''
        else case fst (rm_get (in_memory h s) i st) of Inr (Some r') \<Rightarrow> ru_status r' | _ \<Rightarrow> ''queued'')
      \<and> ru_status r \<noteq> ''running''" if r: "fst (rm_get (in_memory h s) i st') = Inr (Some r)" for i r
  proof -
    obtain c where c: "run_entry h s st i = Some c" "run_view c (run_types h s i st') = Some r"
      using r by (auto simp: in_memory_get [OF ok'] entry split: option.splits)
    show ?thesis
    proof (cases "runs_now h s st i")
      case True
      have "decisive ''run.failed''" "terminal_outcome ''run.failed'' = Some (Some ''failed'')"
        by (simp_all add: decisive_def terminal_outcome_def terminal_outcomes_def)
      with c True have "r = \<lparr>ru_id = sr_run_id c, ru_fields = sr_fields c, ru_status = ''failed'', ru_outcome = Some ''failed''\<rparr>"
        by (simp add: streams closing_def run_view_def event_view_def terminal_run_def)
      with True show ?thesis by simp
    next
      case False
      then have r': "run_view c (run_types h s i st) = Some r" using c(2) by (simp add: streams)
      then have "ru_status r \<noteq> ''running''" using False c(1) view_running by (auto simp: runs_now_def)
      with False r' c(1) show ?thesis by (simp add: in_memory_get [OF ok])
    qed
  qed
  from st'(1) streams frame status show ?thesis by blast
qed


definition demo_stamp :: "string \<Rightarrow> string \<times> string" where
  "demo_stamp i = (''z'' @ i, ''7'')"

lemma demo_stamp_fresh: "fresh_stamps demo_host demo_scope (demo_run_with ''run.started'') demo_stamp"
  by (simp add: fresh_stamps_def demo_stamp_def inj_def demo_run_with_push demo_blank demo_claims_streams is_blank_iff
      is_space_def demo_host_def parse_millis_def is_digit_def) (simp add: demo_event_def)

lemma reconcile_fails_running_runs_witness:
  "\<exists>st'. rm_reconcile (in_memory demo_host demo_scope) demo_stamp (demo_run_with ''run.started'') = (Inr (), st')
     \<and> run_types demo_host demo_scope ''r'' st' = [''run.started'', ''run.failed'']"
proof -
  have "runs_now demo_host demo_scope (demo_run_with ''run.started'') ''r''"
    by (simp add: runs_now_def demo_started_run demo_outcomes run_view_def event_view_def decisive_def)
  moreover from reconcile_fails_running_runs [OF digits_ok_demo_host total_preorder_demo_host demo_started_run(1,2) demo_stamp_fresh]
  obtain st' where st': "rm_reconcile (in_memory demo_host demo_scope) demo_stamp (demo_run_with ''run.started'') = (Inr (), st')"
    and streams: "\<And>s' i. stream_events demo_host s' i st' = stream_events demo_host s' i (demo_run_with ''run.started'')
        @ (if s' = demo_scope \<and> runs_now demo_host demo_scope (demo_run_with ''run.started'') i
           then [closing demo_scope demo_stamp i (int (length (stream_events demo_host demo_scope i (demo_run_with ''run.started''))))]
           else [])" by blast
  ultimately show ?thesis
    by (intro exI [of _ st'] conjI) (simp_all only: streams map_append demo_started_run(3) if_True simp_thms,
      simp add: closing_def)
qed

lemma reconcile_settles_every_run_witness:
  "\<exists>mid. rm_get (in_memory demo_host demo_scope) ''r'' mid \<noteq> (Inr (Some (active_run demo_start ''running'')), mid)"
proof -
  obtain ids st' where "rm_reconcile (in_memory demo_host demo_scope) demo_stamp (demo_run_with ''run.started'') = (Inr (), st')"
    by (rule reconcile_exact [OF demo.good_host_axioms reachable_store_ok [OF total_preorder_demo_host demo_started_run(1)]
          demo_started_run(2) demo_stamp_fresh]) blast
  then have "rm_reconcile (interleaved (in_memory demo_host demo_scope)) demo_stamp
      (demo_run_with ''run.started'', map (others demo_host) []) = (Inr (), (st', []))"
    by (simp add: quiet_reconcile)
  from reconcile_settles_every_run [OF digits_ok_demo_host total_preorder_demo_host demo_started_run(1) this demo_started_run(4)]
  obtain mid where "\<forall>r. rm_get (in_memory demo_host demo_scope) ''r'' mid = (Inr (Some r), mid) \<longrightarrow> ru_status r \<noteq> ''running''"
    by blast
  moreover have "ru_status (active_run demo_start ''running'') = ''running''" by (simp add: active_run_def)
  ultimately show ?thesis by blast
qed

section \<open>Starting\<close>

lemma claim_start_again:
  assumes le: "total_preorder (locale_le h)" and c: "claim_start h s c st = (Inr c', st1)"
  shows "claim_start h s c st1 = (Inr c', st1)"
proof (cases "clone_start_run h c")
  case (Inr d)
  show ?thesis
  proof (cases "map_of (st_commands st) (scoped_key h s ''command'' (sr_command_id d))")
    case None
    with c Inr clone_start_run_again [OF le Inr] show ?thesis
      by (auto simp: claim_start_def act_bind_def act_lift_def Let_def split: if_splits)
  next
    case (Some x)
    with c Inr show ?thesis
      by (auto simp: claim_start_def act_bind_def act_lift_def Let_def split: if_splits)
  qed
qed (use c in \<open>simp add: claim_start_def act_bind_def act_lift_def\<close>)

text \<open>
  C18. Starting a run is idempotent and checks its parent. When a start returns, the parent run
  it names, if any, was claimed in the channel, the command it stands for is claimed, the
  answer is that run as the log shows it, and starting again with the same command gives the
  same answer and changes nothing. A start whose parent is not claimed is refused without effect.
\<close>

theorem start_is_idempotent:
  assumes "digits_ok h" and "total_preorder (locale_le h)" and "reachable_store h st"
  shows "(case rf_parent (sr_fields c) of
      Some (parent, _) \<Rightarrow> run_entry h s st parent = None \<longrightarrow>
        rm_start (in_memory h s) c st = (Inl (PlainError (''Parent Run '' @ parent @ '' is not claimed in this Channel'')), st)
    | None \<Rightarrow> True)
    \<and> (\<forall>r st1. rm_start (in_memory h s) c st = (Inr r, st1) \<longrightarrow>
        (\<forall>parent e. rf_parent (sr_fields c) = Some (parent, e) \<longrightarrow> run_entry h s st parent \<noteq> None)
        \<and> (\<exists>c'. claim_start h s c st = (Inr c', st1) \<and> run_entry h s st1 (sr_run_id c') = Some c'
            \<and> r = run_view c' (run_types h s (sr_run_id c') st1))
        \<and> rm_start (in_memory h s) c st1 = (Inr r, st1))"
proof -
  have h: "good_host h" using assms(1,2) by (rule good_host.intro)
  note log = good_host.in_memory_log [OF h, of s]
  have ok: "store_ok h st" by (rule reachable_store_ok [OF assms(2,3)])
  have refused: "rm_start (in_memory h s) c st = (Inl (PlainError (''Parent Run '' @ parent @ '' is not claimed in this Channel'')), st)"
    if "rf_parent (sr_fields c) = Some (parent, e)" "run_entry h s st parent = None" for parent e
    using that by (simp add: rm_start_def act_seq_def act_bind_def act_throw_def get_command_entry [OF ok])
  have started: "(\<forall>parent e. rf_parent (sr_fields c) = Some (parent, e) \<longrightarrow> run_entry h s st parent \<noteq> None)
        \<and> (\<exists>c'. claim_start h s c st = (Inr c', st1) \<and> run_entry h s st1 (sr_run_id c') = Some c'
            \<and> r = run_view c' (run_types h s (sr_run_id c') st1))
        \<and> rm_start (in_memory h s) c st1 = (Inr r, st1)" if run: "rm_start (in_memory h s) c st = (Inr r, st1)" for r st1
  proof -
    have parent: "run_entry h s st parent \<noteq> None" if "rf_parent (sr_fields c) = Some (parent, e)" for parent e
      using refused [OF that] run by auto
    obtain claimed st2 where c: "claim_start h s c st = (claimed, st2)" by fastforce
    from channel_log.claim_law [OF log ok, of c claimed st2] c
    have s2: "store_ok h st2" "log_extends (\<lambda>st i. stream_events h s i st) (run_entry h s) st st2"
      "\<forall>c'. claimed = Inr c' \<longrightarrow> run_entry h s st2 (sr_run_id c') = Some c'" by simp_all
    have unfolded: "rm_start (in_memory h s) c sta = (case claim_start h s c sta of
        (Inl e, st') \<Rightarrow> (Inl e, st') | (Inr c', st') \<Rightarrow> rm_get (in_memory h s) (sr_run_id c') st')"
      if "store_ok h sta" "log_extends (\<lambda>st i. stream_events h s i st) (run_entry h s) st sta" for sta
      using parent that by (cases "rf_parent (sr_fields c)")
        (auto simp: rm_start_def act_seq_def act_bind_def act_return_def get_command_entry log_extends_def split: option.splits)
    from run unfolded [OF ok] c obtain c' where c': "claimed = Inr c'" "rm_get (in_memory h s) (sr_run_id c') st2 = (Inr r, st1)"
      by (auto split: sum.splits)
    with s2(3) in_memory_get [OF s2(1), of s "sr_run_id c'"]
    have r: "r = run_view c' (run_types h s (sr_run_id c') st2)" "st1 = st2" by simp_all
    have "claim_start h s c st2 = (Inr c', st2)" by (rule claim_start_again [OF assms(2) c [unfolded c'(1)]])
    then have "rm_start (in_memory h s) c st2 = (Inr r, st2)"
      by (simp only: unfolded [OF s2(1,2)] prod.case sum.case c'(2) r(2))
    then have again: "rm_start (in_memory h s) c st1 = (Inr r, st1)" by (simp only: r(2))
    have claim: "claim_start h s c st = (Inr c', st1)" "run_entry h s st1 (sr_run_id c') = Some c'"
      "r = run_view c' (run_types h s (sr_run_id c') st1)"
      using c [unfolded c'(1)] s2(3) [rule_format, OF c'(1)] r(1) by (simp_all only: r(2))
    show ?thesis using parent claim again by metis
  qed
  show ?thesis
  proof (rule conjI)
    show "case rf_parent (sr_fields c) of
      Some (parent, _) \<Rightarrow> run_entry h s st parent = None \<longrightarrow>
        rm_start (in_memory h s) c st = (Inl (PlainError (''Parent Run '' @ parent @ '' is not claimed in this Channel'')), st)
    | None \<Rightarrow> True" by (simp add: refused split: option.splits prod.splits)
  qed (intro allI impI started)
qed

lemma start_is_idempotent_witness:
  "rm_start (in_memory demo_host other_scope) (demo_start\<lparr>sr_fields := demo_fields\<lparr>rf_parent := Some (''r'', ''e'')\<rparr>\<rparr>) demo_claims
     = (Inl (PlainError ''Parent Run r is not claimed in this Channel''), demo_claims)"
proof -
  have "demo_scope \<noteq> other_scope" by (simp add: demo_scope_def other_scope_def)
  from run_call_other_scope [OF this, of demo_host empty_store "CallClaimStart demo_start"]
  have "run_entry demo_host other_scope demo_claims ''r'' = None"
    by (simp add: demo_claims_def run_entry_def same_scope_def del: run_call.simps) (simp add: empty_store_def)
  then show ?thesis
    using conjunct1 [OF start_is_idempotent [OF digits_ok_demo_host total_preorder_demo_host reachable_demo_claims,
        where s = other_scope and c = "demo_start\<lparr>sr_fields := demo_fields\<lparr>rf_parent := Some (''r'', ''e'')\<rparr>\<rparr>"]]
    by simp
qed

section \<open>Inherited table entries\<close>

lemma inherited_outcome:
  assumes "ty \<in> set object_prototype_keys"
  shows "terminal_outcome ty = Some None"
proof -
  have "map_of terminal_outcomes ty = None"
    using assms unfolding object_prototype_keys_def terminal_outcomes_def by (simp, elim disjE) simp_all
  with assms show ?thesis by (simp add: terminal_outcome_def)
qed

text \<open>
  An event whose type is a name that every JavaScript object inherits hides its run: while
  such an event is the run's last decisive one, the run manager reports the run as absent,
  although its command is claimed and any later start, resumption or progress brings it back.
\<close>

theorem inherited_event_type_hides_run:
  assumes "total_preorder (locale_le h)" and "reachable_store h st"
    and "run_entry h s st i = Some c"
    and "find decisive (rev (run_types h s i st)) = Some ty" and "ty \<in> set object_prototype_keys"
  shows "rm_get (in_memory h s) i st = (Inr None, st) \<and> get_run_command h s i st = (Inr (Some c), st)
    \<and> run_view c (run_types h s i st @ [''run.progress'']) = Some (active_run c ''running'')"
proof -
  note ok = reachable_store_ok [OF assms(1,2)]
  have "is_running_event ''run.progress''" by (simp add: is_running_event_def)
  then have "decisive ''run.progress''" "terminal_outcome ''run.progress'' = None" by (simp_all add: decisive_def)
  then show ?thesis
    using assms(3,4) inherited_outcome [OF assms(5)]
    by (simp add: in_memory_get [OF ok] get_command_entry [OF ok] run_view_def event_view_def terminal_run_def)
qed

lemma inherited_event_type_hides_run_witness:
  "rm_get (in_memory demo_host demo_scope) ''r'' (demo_run_with ''toString'') = (Inr None, demo_run_with ''toString'')"
proof -
  have "''toString'' \<in> set object_prototype_keys" by (simp add: object_prototype_keys_def)
  note odd = this inherited_outcome [OF this]
  have "find decisive (rev (run_types demo_host demo_scope ''r'' (demo_run_with ''toString''))) = Some ''toString''"
    by (simp add: demo_run_with_facts [OF demo_blank(3)] decisive_def odd(2))
  from inherited_event_type_hides_run [OF total_preorder_demo_host demo_run_with_facts(1,4) [OF demo_blank(3)] this odd(1)]
  show ?thesis by (rule conjunct1)
qed

end
