(* ===== verification/Tools.thy ===== *)
theory Tools
  imports RunProperties
begin

text \<open>
  The tool gateway (\<open>harness-v2/src/tool-gateway-types.ts\<close>, \<open>tool-events.ts\<close>,
  \<open>tool-approval.ts\<close>, \<open>tool-effects.ts\<close>, \<open>tool-gateway.ts\<close>): every tool call of a run passes the
  gateway, which records it, asks the policy, waits for approvals written to the run's stream, and
  keeps a ledger of effects so that an effect runs at most once. The state of an action is a pair:
  the world the sandbox acts on, and the store.
\<close>

section \<open>Requests, results, the gateway\<close>

record tool_request =
  rq_scope :: scope
  rq_run :: string
  rq_worker :: string
  rq_name :: string
  rq_input :: js
  rq_effect :: "string option"
  rq_call :: string
  rq_parent_run :: "string option"
  rq_parent_event :: "string option"
  rq_lane :: "string option"

record tool_result =
  to_status :: string
  to_output :: "js option"

text \<open>The input schema is the tool's own code: a parameter. \<open>td_replay\<close> is \<open>replayPolicy\<close>.\<close>

record tool_definition =
  td_name :: string
  td_schema :: "js \<Rightarrow> js parsed"
  td_replay :: "string option"

text \<open>
  The options of \<open>createToolGateway\<close>. The policy service decides on a request or throws (\<open>None\<close>);
  what it answers is any string. The sandbox acts on the world and answers or throws (\<open>None\<close>);
  \<open>tg_aborted\<close> is the state of the call's abort signal. \<open>tg_stamp\<close> gives the identifier and time
  of the events a call appends, by their type.
\<close>

record ('w, 's) tool_gateway =
  tg_scope :: scope
  tg_worker :: string
  tg_catalog :: "tool_definition list"
  tg_policy :: "(tool_request \<Rightarrow> string option) option"
  tg_sandbox :: "tool_request \<Rightarrow> 'w \<Rightarrow> tool_result option \<times> 'w"
  tg_aborted :: "'w \<Rightarrow> bool"
  tg_ops :: "'s channel_ops"
  tg_stamp :: "string \<Rightarrow> string \<times> string"

definition snapshot_options :: "('w, 's) tool_gateway \<Rightarrow> ('w, 's) tool_gateway parsed" where
  "snapshot_options tg =
     (if sc_workspace (tg_scope tg) = [] \<or> sc_channel (tg_scope tg) = []
      then Inl (PlainError ''ToolGateway scope must contain non-empty workspaceId and channelId'')
      else if tg_worker tg = [] then Inl (PlainError ''ToolGateway workerProfileId must be non-empty'')
      else Inr tg)"

section \<open>Events\<close>

definition read_stream_events :: "('w, 's) tool_gateway \<Rightarrow> string \<Rightarrow> ('w \<times> 's, js_error, canonical_event list) action" where
  "read_stream_events tg i = on_store (co_read (tg_ops tg) i None)"

definition tool_next_sequence :: "canonical_event list \<Rightarrow> int" where
  "tool_next_sequence es = foldl (\<lambda>n e. max n (ev_seq e + 1)) 0 es"

definition run_attribution :: "tool_request \<Rightarrow> (string \<times> js) list" where
  "run_attribution rq = opt_field ''parentRunId'' JStr (rq_parent_run rq)
     @ opt_field ''parentEventId'' JStr (rq_parent_event rq) @ opt_field ''laneId'' JStr (rq_lane rq)"

text \<open>An optional string as the value of a field.\<close>

definition opt_js :: "string option \<Rightarrow> js" where
  "opt_js x = (case x of None \<Rightarrow> JUndef | Some s \<Rightarrow> JStr s)"

definition matches_attribution :: "js \<Rightarrow> string option \<Rightarrow> string option \<Rightarrow> string option \<Rightarrow> bool" where
  "matches_attribution payload parent_run parent_event lane \<longleftrightarrow>
     (case payload of
        JObj kvs \<Rightarrow> js_field kvs ''parentRunId'' = opt_js parent_run \<and> js_field kvs ''parentEventId'' = opt_js parent_event
          \<and> js_field kvs ''laneId'' = opt_js lane
      | _ \<Rightarrow> False)"

definition matches_provided :: "js \<Rightarrow> string option \<Rightarrow> string option \<Rightarrow> string option \<Rightarrow> bool" where
  "matches_provided payload parent_run parent_event lane \<longleftrightarrow>
     (case payload of
        JObj kvs \<Rightarrow> (parent_run = None \<or> js_field kvs ''parentRunId'' = opt_js parent_run)
          \<and> (parent_event = None \<or> js_field kvs ''parentEventId'' = opt_js parent_event)
          \<and> (lane = None \<or> js_field kvs ''laneId'' = opt_js lane)
      | _ \<Rightarrow> False)"

definition lifecycle_request :: "('w, 's) tool_gateway \<Rightarrow> tool_request \<Rightarrow> tool_request option" where
  "lifecycle_request tg rq =
     (if rq_call rq = [] then None
      else Some (rq\<lparr>rq_scope := tg_scope tg, rq_worker := tg_worker tg, rq_input := JNull\<rparr>))"

definition lifecycle_event_id :: "host \<Rightarrow> tool_request \<Rightarrow> int \<Rightarrow> string" where
  "lifecycle_event_id h rq n = ''tool-lifecycle:'' @ json_stringify h (JArr
     [JStr (sc_workspace (rq_scope rq)), JStr (sc_channel (rq_scope rq)), JStr (rq_run rq), JStr (rq_call rq), JNum (of_int n)])"

definition lifecycle_stream :: "tool_request \<Rightarrow> string" where
  "lifecycle_stream rq = ''tool:'' @ rq_run rq @ '':'' @ rq_call rq"

definition lifecycle_event :: "host \<Rightarrow> string \<Rightarrow> tool_request \<Rightarrow> int \<Rightarrow> string \<Rightarrow> (string \<times> js) list \<Rightarrow> canonical_event" where
  "lifecycle_event h time rq n ty details =
     \<lparr>ev_id = lifecycle_event_id h rq n, ev_scope = rq_scope rq, ev_stream = lifecycle_stream rq, ev_seq = n, ev_type = ty,
      ev_timestamp = time, ev_schema_version = 1,
      ev_payload = JObj ([(''runId'', JStr (rq_run rq)), (''workerProfileId'', JStr (rq_worker rq)), (''tool'', JStr (rq_name rq)),
        (''toolCallId'', JStr (rq_call rq))] @ opt_field ''effectKey'' JStr (rq_effect rq) @ run_attribution rq @ details)\<rparr>"

definition append_lifecycle ::
    "host \<Rightarrow> ('w, 's) tool_gateway \<Rightarrow> tool_request \<Rightarrow> string \<Rightarrow> (string \<times> js) list \<Rightarrow> ('w \<times> 's, js_error, unit) action" where
  "append_lifecycle h tg rq ty details = act_bind (read_stream_events tg (lifecycle_stream rq)) (\<lambda>es.
     on_store (co_append (tg_ops tg) (lifecycle_event h (snd (tg_stamp tg ty)) rq (tool_next_sequence es) ty details)))"

definition result_reason :: "tool_result \<Rightarrow> string option" where
  "result_reason r = (case to_output r of Some v \<Rightarrow> string_field v ''reason'' | None \<Rightarrow> None)"

definition result_details :: "tool_result \<Rightarrow> (string \<times> js) list" where
  "result_details r = [(''status'', JStr (to_status r))]
     @ (if to_status r \<noteq> ''succeeded'' then opt_field ''reason'' JStr (result_reason r) else [])"

definition terminal_result ::
    "host \<Rightarrow> ('w, 's) tool_gateway \<Rightarrow> tool_request option \<Rightarrow> tool_result \<Rightarrow> string option \<Rightarrow> ('w \<times> 's, js_error, tool_result) action" where
  "terminal_result h tg lifecycle r reason = act_seq
     (case lifecycle of
        None \<Rightarrow> act_return ()
      | Some rq \<Rightarrow> append_lifecycle h tg rq ''tool.result''
          (case reason of None \<Rightarrow> result_details r | Some x \<Rightarrow> js_set ''reason'' (JStr x) (result_details r)))
     (act_return r)"

definition serialize_result :: "tool_result \<Rightarrow> js" where
  "serialize_result r = JObj ([(''status'', JStr (to_status r))] @ opt_field ''output'' (\<lambda>v. v) (to_output r))"

definition serialize_failed :: "tool_result \<Rightarrow> js" where
  "serialize_failed r = JObj ([(''status'', JStr ''failed'')]
     @ opt_field ''output'' (\<lambda>x. JObj [(''reason'', JStr x)]) (result_reason r))"

text \<open>\<open>value.output === undefined\<close>.\<close>

definition output_field :: "(string \<times> js) list \<Rightarrow> js option" where
  "output_field kvs = (if js_field kvs ''output'' = JUndef then None else Some (js_field kvs ''output''))"

definition deserialize_failed :: "js \<Rightarrow> tool_result option" where
  "deserialize_failed v =
     (case v of
        JObj kvs \<Rightarrow>
          if js_field kvs ''status'' \<noteq> JStr ''failed'' then None
          else Some \<lparr>to_status = ''failed'',
            to_output = map_option (\<lambda>x. JObj [(''reason'', JStr x)]) (string_field (js_field kvs ''output'') ''reason'')\<rparr>
      | _ \<Rightarrow> None)"

definition deserialize_result :: "js \<Rightarrow> tool_result option" where
  "deserialize_result v =
     (case v of
        JObj kvs \<Rightarrow>
          (case js_field kvs ''status'' of
             JStr s \<Rightarrow>
               if s = ''succeeded'' \<or> s = ''failed'' \<or> s = ''unknown''
               then Some \<lparr>to_status = s, to_output = output_field kvs\<rparr> else None
           | _ \<Rightarrow> None)
      | _ \<Rightarrow> None)"

definition failed_with :: "string \<Rightarrow> tool_result" where
  "failed_with reason = \<lparr>to_status = ''failed'', to_output = Some (JObj [(''reason'', JStr reason)])\<rparr>"

definition plain_failed :: tool_result where
  "plain_failed = \<lparr>to_status = ''failed'', to_output = None\<rparr>"

section \<open>Approvals\<close>

record approval_answer =
  an_scope :: scope
  an_run :: string
  an_effect :: string
  an_approval :: string
  an_actor :: string
  an_decision :: string
  an_parent_run :: "string option"
  an_parent_event :: "string option"
  an_lane :: "string option"

definition matches_scope :: "canonical_event \<Rightarrow> scope \<Rightarrow> string \<Rightarrow> bool" where
  "matches_scope e s run \<longleftrightarrow> ev_scope e = s \<and> ev_stream e = run"

definition same_field :: "js \<Rightarrow> string \<Rightarrow> js \<Rightarrow> bool" where
  "same_field payload k v \<longleftrightarrow> is_record payload \<and> js_field (record_or_empty payload) k = v"

definition same_origin :: "js \<Rightarrow> scope \<Rightarrow> string \<Rightarrow> bool" where
  "same_origin payload s run \<longleftrightarrow> same_field payload ''workspaceId'' (JStr (sc_workspace s))
     \<and> same_field payload ''channelId'' (JStr (sc_channel s)) \<and> same_field payload ''runId'' (JStr run)"

definition is_approval_request :: "canonical_event \<Rightarrow> tool_request \<Rightarrow> string \<Rightarrow> bool" where
  "is_approval_request e rq approval \<longleftrightarrow>
     ev_type e = ''tool.approval.requested'' \<and> matches_scope e (rq_scope rq) (rq_run rq)
     \<and> same_origin (ev_payload e) (rq_scope rq) (rq_run rq)
     \<and> same_field (ev_payload e) ''workerProfileId'' (JStr (rq_worker rq)) \<and> same_field (ev_payload e) ''tool'' (JStr (rq_name rq))
     \<and> same_field (ev_payload e) ''effectKey'' (opt_js (rq_effect rq)) \<and> same_field (ev_payload e) ''approvalId'' (JStr approval)
     \<and> matches_attribution (ev_payload e) (rq_parent_run rq) (rq_parent_event rq) (rq_lane rq)"

definition is_request_for_answer :: "canonical_event \<Rightarrow> approval_answer \<Rightarrow> bool" where
  "is_request_for_answer e an \<longleftrightarrow>
     ev_type e = ''tool.approval.requested'' \<and> matches_scope e (an_scope an) (an_run an)
     \<and> same_origin (ev_payload e) (an_scope an) (an_run an)
     \<and> same_field (ev_payload e) ''effectKey'' (JStr (an_effect an)) \<and> same_field (ev_payload e) ''approvalId'' (JStr (an_approval an))
     \<and> matches_provided (ev_payload e) (an_parent_run an) (an_parent_event an) (an_lane an)"

definition approval_decision :: "tool_request \<Rightarrow> string \<Rightarrow> canonical_event \<Rightarrow> string option" where
  "approval_decision rq approval e =
     (if ev_type e = ''tool.approval.answered'' \<and> matches_scope e (rq_scope rq) (rq_run rq)
         \<and> same_origin (ev_payload e) (rq_scope rq) (rq_run rq)
         \<and> same_field (ev_payload e) ''effectKey'' (opt_js (rq_effect rq)) \<and> same_field (ev_payload e) ''approvalId'' (JStr approval)
         \<and> matches_provided (ev_payload e) (rq_parent_run rq) (rq_parent_event rq) (rq_lane rq)
      then (if same_field (ev_payload e) ''decision'' (JStr ''approved'') then Some ''approved''
            else if same_field (ev_payload e) ''decision'' (JStr ''denied'') then Some ''denied'' else None)
      else None)"

text \<open>The first matching request, and the first decision after it.\<close>

definition approval_for :: "canonical_event list \<Rightarrow> tool_request \<Rightarrow> string \<Rightarrow> canonical_event option \<times> string option" where
  "approval_for es rq approval =
     (case find (\<lambda>e. is_approval_request e rq approval) es of
        None \<Rightarrow> (None, None)
      | Some request \<Rightarrow>
          (Some request, find_map (\<lambda>e. if ev_seq e \<le> ev_seq request then None else approval_decision rq approval e) es))"

definition tool_event :: "scope \<Rightarrow> string \<times> string \<Rightarrow> string \<Rightarrow> int \<Rightarrow> string \<Rightarrow> (string \<times> js) list \<Rightarrow> canonical_event" where
  "tool_event s stamp stream n ty kvs =
     \<lparr>ev_id = fst stamp, ev_scope = s, ev_stream = stream, ev_seq = n, ev_type = ty, ev_timestamp = snd stamp,
      ev_schema_version = 1, ev_payload = JObj kvs\<rparr>"

definition append_approval_request ::
    "('w, 's) tool_gateway \<Rightarrow> tool_request \<Rightarrow> string \<Rightarrow> canonical_event list \<Rightarrow> ('w \<times> 's, js_error, unit) action" where
  "append_approval_request tg rq approval es = on_store (co_append (tg_ops tg)
     (tool_event (rq_scope rq) (tg_stamp tg ''tool.approval.requested'') (rq_run rq) (tool_next_sequence es) ''tool.approval.requested''
       (scope_fields (rq_scope rq) @ [(''runId'', JStr (rq_run rq)), (''workerProfileId'', JStr (rq_worker rq)),
          (''tool'', JStr (rq_name rq)), (''effectKey'', opt_js (rq_effect rq)), (''approvalId'', JStr approval)]
        @ run_attribution rq)))"

definition first_some :: "'a option \<Rightarrow> 'a option \<Rightarrow> 'a option" where
  "first_some x y = (case x of None \<Rightarrow> y | Some a \<Rightarrow> Some a)"

definition append_approval_answer :: "('w, 's) tool_gateway \<Rightarrow> approval_answer \<Rightarrow> ('w \<times> 's, js_error, unit) action" where
  "append_approval_answer tg an = act_bind (read_stream_events tg (an_run an)) (\<lambda>es.
     case find (\<lambda>e. is_request_for_answer e an) es of
       None \<Rightarrow> act_throw (PlainError ''Tool approval request was not found in the Run stream'')
     | Some request \<Rightarrow> on_store (co_append (tg_ops tg)
         (tool_event (tg_scope tg) (tg_stamp tg ''tool.approval.answered'') (an_run an) (tool_next_sequence es) ''tool.approval.answered''
           (scope_fields (tg_scope tg) @ [(''runId'', JStr (an_run an)), (''effectKey'', JStr (an_effect an)),
              (''approvalId'', JStr (an_approval an)), (''actorId'', JStr (an_actor an)), (''decision'', JStr (an_decision an))]
            @ opt_field ''parentRunId'' JStr (first_some (an_parent_run an) (string_field (ev_payload request) ''parentRunId''))
            @ opt_field ''parentEventId'' JStr (first_some (an_parent_event an) (string_field (ev_payload request) ''parentEventId''))
            @ opt_field ''laneId'' JStr (first_some (an_lane an) (string_field (ev_payload request) ''laneId''))))))"

section \<open>Effects\<close>

definition is_effect :: "tool_request \<Rightarrow> string \<Rightarrow> string \<Rightarrow> canonical_event \<Rightarrow> bool" where
  "is_effect rq policy ty e \<longleftrightarrow>
     ev_type e = ty \<and> ev_scope e = rq_scope rq \<and> same_origin (ev_payload e) (rq_scope rq) (rq_run rq)
     \<and> same_field (ev_payload e) ''workerProfileId'' (JStr (rq_worker rq)) \<and> same_field (ev_payload e) ''tool'' (JStr (rq_name rq))
     \<and> same_field (ev_payload e) ''effectKey'' (opt_js (rq_effect rq))
     \<and> matches_attribution (ev_payload e) (rq_parent_run rq) (rq_parent_event rq) (rq_lane rq)
     \<and> same_field (ev_payload e) ''replayPolicy'' (JStr policy)"

definition payload_field :: "canonical_event \<Rightarrow> string \<Rightarrow> js" where
  "payload_field e k = js_field (record_or_empty (ev_payload e)) k"

definition is_succeeded_effect :: "tool_request \<Rightarrow> string \<Rightarrow> canonical_event \<Rightarrow> bool" where
  "is_succeeded_effect rq policy e \<longleftrightarrow> is_effect rq policy ''tool.effect.succeeded'' e
     \<and> same_field (payload_field e ''result'') ''status'' (JStr ''succeeded'')"

definition is_cancelled_result :: "tool_result \<Rightarrow> bool \<Rightarrow> bool" where
  "is_cancelled_result r aborted \<longleftrightarrow> aborted \<or> result_reason r = Some ''cancelled''"

definition intent_text :: "host \<Rightarrow> tool_request \<Rightarrow> string \<Rightarrow> string" where
  "intent_text h rq policy = stable_json h (JArr
     [JStr (sc_workspace (rq_scope rq)), JStr (sc_channel (rq_scope rq)), JStr (rq_run rq), JStr (rq_worker rq), JStr (rq_name rq),
      JStr policy, rq_input rq])"

definition effect_intent_hash :: "host \<Rightarrow> tool_request \<Rightarrow> string \<Rightarrow> string" where
  "effect_intent_hash h rq policy = ''sha256:'' @ sha256_hex h (intent_text h rq policy)"

definition matches_effect_intent :: "tool_request \<Rightarrow> string \<Rightarrow> string \<Rightarrow> canonical_event \<Rightarrow> bool" where
  "matches_effect_intent rq policy hash e \<longleftrightarrow> is_effect rq policy ''tool.effect.started'' e
     \<and> same_field (ev_payload e) ''intentHash'' (JStr hash)"

definition unknown_effect_result :: "string \<Rightarrow> tool_result" where
  "unknown_effect_result key = \<lparr>to_status = ''unknown'',
     to_output = Some (JObj [(''reason'', JStr ''effect_outcome_unknown''), (''effectKey'', JStr key)])\<rparr>"

definition effect_stream :: "string \<Rightarrow> string" where
  "effect_stream key = ''effect:'' @ key"

text \<open>The events of the ledger: the fields of the effect, then what the kind of event adds.\<close>

definition effect_event ::
    "('w, 's) tool_gateway \<Rightarrow> tool_request \<Rightarrow> string \<Rightarrow> string \<Rightarrow> int \<Rightarrow> string \<Rightarrow> (string \<times> js) list \<Rightarrow> (string \<times> js) list \<Rightarrow> canonical_event" where
  "effect_event tg rq policy key n ty before after =
     tool_event (rq_scope rq) (tg_stamp tg ty) (effect_stream key) n ty
       (scope_fields (rq_scope rq) @ [(''runId'', JStr (rq_run rq)), (''workerProfileId'', JStr (rq_worker rq)),
          (''tool'', JStr (rq_name rq)), (''effectKey'', JStr key), (''replayPolicy'', JStr policy)]
        @ before @ run_attribution rq @ after)"

definition append_unknown ::
    "('w, 's) tool_gateway \<Rightarrow> tool_request \<Rightarrow> string \<Rightarrow> string \<Rightarrow> int \<Rightarrow> ('w \<times> 's, js_error, tool_result) action" where
  "append_unknown tg rq policy key started = act_seq
     (on_store (co_append (tg_ops tg) (effect_event tg rq policy key (started + 1) ''tool.effect.unknown'' []
        [(''reason'', JStr ''effect_outcome_unknown'')])))
     (act_return (unknown_effect_result key))"

text \<open>What is written after the sandbox answered, and what the caller gets.\<close>

definition settle_effect ::
    "('w, 's) tool_gateway \<Rightarrow> tool_request \<Rightarrow> string \<Rightarrow> string \<Rightarrow> int \<Rightarrow> tool_result \<Rightarrow> ('w \<times> 's, js_error, tool_result) action" where
  "settle_effect tg rq policy key started r =
     (if to_status r = ''unknown'' then append_unknown tg rq policy key started
      else (\<lambda>(w, s). act_seq (
        if is_cancelled_result r (tg_aborted tg w)
        then on_store (co_append (tg_ops tg) (effect_event tg rq policy key (started + 1) ''tool.effect.cancelled'' []
          [(''result'', serialize_result r)]))
        else if to_status r = ''succeeded''
        then on_store (co_append (tg_ops tg) (effect_event tg rq policy key (started + 1) ''tool.effect.succeeded'' []
          [(''result'', serialize_result r)]))
        else if to_status r = ''failed''
        then on_store (co_append (tg_ops tg) (effect_event tg rq policy key (started + 1) ''tool.effect.failed'' []
          [(''result'', serialize_failed r)]))
        else act_return ()) (act_return r) (w, s)))"

definition dispatch_effect ::
    "('w, 's) tool_gateway \<Rightarrow> tool_request \<Rightarrow> string \<Rightarrow> string \<Rightarrow> int \<Rightarrow> ('w \<times> 's, js_error, tool_result) action" where
  "dispatch_effect tg rq policy key started = (\<lambda>(w, s).
     case tg_sandbox tg rq w of
       (None, w') \<Rightarrow> append_unknown tg rq policy key started (w', s)
     | (Some r, w') \<Rightarrow> settle_effect tg rq policy key started r (w', s))"

text \<open>What the ledger says of an effect that has been recorded: the answer of a replay.\<close>

definition recorded_result :: "tool_request \<Rightarrow> string \<Rightarrow> string \<Rightarrow> canonical_event list \<Rightarrow> tool_result option" where
  "recorded_result rq policy key es =
     (case find (is_succeeded_effect rq policy) es of
        Some e \<Rightarrow> Some \<lparr>to_status = ''succeeded'', to_output = output_field (record_or_empty (payload_field e ''result''))\<rparr>
      | None \<Rightarrow>
        case find (is_effect rq policy ''tool.effect.failed'') es of
          Some e \<Rightarrow> Some (case deserialize_failed (payload_field e ''result'') of Some r \<Rightarrow> r | None \<Rightarrow> plain_failed)
        | None \<Rightarrow>
          case find (is_effect rq policy ''tool.effect.cancelled'') es of
            Some e \<Rightarrow> Some (case deserialize_result (payload_field e ''result'') of Some r \<Rightarrow> r | None \<Rightarrow> plain_failed)
          | None \<Rightarrow> if list_ex (is_effect rq policy ''tool.effect.unknown'') es then Some (unknown_effect_result key) else None)"

text \<open>\<open>executeDurableEffect\<close>.\<close>

definition execute_effect ::
    "host \<Rightarrow> ('w, 's) tool_gateway \<Rightarrow> tool_request \<Rightarrow> string \<Rightarrow> ('w \<times> 's, js_error, tool_result) action" where
  "execute_effect h tg rq policy =
     (case rq_effect rq of
        None \<Rightarrow> act_return plain_failed
      | Some key \<Rightarrow>
        act_bind (read_stream_events tg (effect_stream key)) (\<lambda>es.
          let hash = effect_intent_hash h rq policy in
          if list_ex (\<lambda>e. ev_type e = ''tool.effect.started'' \<and> \<not> matches_effect_intent rq policy hash e) es
          then act_return (failed_with ''effect_key_conflict'')
          else case recorded_result rq policy key es of
            Some r \<Rightarrow> act_return r
          | None \<Rightarrow>
            case find (is_effect rq policy ''tool.effect.started'') es of
              Some e \<Rightarrow> append_unknown tg rq policy key (ev_seq e)
            | None \<Rightarrow> act_seq
                (on_store (co_append (tg_ops tg) (effect_event tg rq policy key (tool_next_sequence es) ''tool.effect.started''
                  [(''intentHash'', JStr hash)] [])))
                (dispatch_effect tg rq policy key (tool_next_sequence es))))"

section \<open>The gateway\<close>

text \<open>The sandbox that the \<open>allow\<close> path passes to the ledger checks the signal first.\<close>

definition checked_sandbox :: "('w, 's) tool_gateway \<Rightarrow> ('w, 's) tool_gateway" where
  "checked_sandbox tg = tg\<lparr>tg_sandbox := (\<lambda>rq w. if tg_aborted tg w then (Some (failed_with ''cancelled''), w) else tg_sandbox tg rq w)\<rparr>"

text \<open>A sandbox call without the ledger: a throw of the sandbox ends the call.\<close>

definition run_sandbox :: "('w, 's) tool_gateway \<Rightarrow> tool_request \<Rightarrow> ('w \<times> 's, js_error, tool_result) action" where
  "run_sandbox tg rq = (\<lambda>(w, s). case tg_sandbox tg rq w of
     (None, w') \<Rightarrow> (Inl (PlainError ''sandbox''), (w', s)) | (Some r, w') \<Rightarrow> (Inr r, (w', s)))"

definition approval_answered ::
    "host \<Rightarrow> ('w, 's) tool_gateway \<Rightarrow> tool_request option \<Rightarrow> tool_definition \<Rightarrow> tool_request \<Rightarrow> string \<Rightarrow> canonical_event list
     \<Rightarrow> ('w \<times> 's, js_error, tool_result) action" where
  "approval_answered h tg lifecycle d rq approval es =
     (case approval_for es rq approval of
        (request, decision) \<Rightarrow>
          if decision = Some ''approved''
          then act_bind (case td_replay d of Some policy \<Rightarrow> execute_effect h tg rq policy | None \<Rightarrow> run_sandbox tg rq)
            (\<lambda>r. terminal_result h tg lifecycle r None)
          else if decision = Some ''denied''
          then terminal_result h tg lifecycle \<lparr>to_status = ''failed'', to_output = Some (JObj
            [(''reason'', JStr ''approval_denied''), (''approvalId'', JStr approval)])\<rparr> None
          else act_seq (if request = None then append_approval_request tg rq approval es else act_return ())
            (terminal_result h tg lifecycle \<lparr>to_status = ''failed'', to_output = Some (JObj
              [(''reason'', JStr ''approval_required''), (''approvalId'', JStr approval)])\<rparr> None))"

definition approval_path ::
    "host \<Rightarrow> ('w, 's) tool_gateway \<Rightarrow> tool_request option \<Rightarrow> tool_definition \<Rightarrow> tool_request \<Rightarrow> string \<Rightarrow> ('w \<times> 's, js_error, tool_result) action" where
  "approval_path h tg lifecycle d rq key =
     act_bind (read_stream_events tg (rq_run rq)) (approval_answered h tg lifecycle d rq (''approval:'' @ key))"

text \<open>What follows a decision that the policy is allowed to make.\<close>

definition decided_path ::
    "host \<Rightarrow> ('w, 's) tool_gateway \<Rightarrow> tool_request option \<Rightarrow> tool_definition \<Rightarrow> tool_request \<Rightarrow> string \<Rightarrow> ('w \<times> 's, js_error, tool_result) action" where
  "decided_path h tg lifecycle d rq decision =
     (if decision = ''deny'' then terminal_result h tg lifecycle plain_failed (Some ''policy_denied'')
      else if decision = ''allow'' \<and> td_replay d = Some ''safe'' \<and> rq_effect rq = None
      then act_bind (run_sandbox tg rq) (\<lambda>r. terminal_result h tg lifecycle r None)
      else if decision = ''allow'' \<and> (td_replay d = Some ''safe'' \<or> td_replay d = Some ''never'')
        \<and> rq_effect rq \<noteq> None \<and> rq_effect rq \<noteq> Some []
      then act_bind (execute_effect h (checked_sandbox tg) rq (the (td_replay d))) (\<lambda>r. terminal_result h tg lifecycle r None)
      else if decision \<noteq> ''require_approval'' \<or> rq_effect rq = None \<or> rq_effect rq = Some []
      then terminal_result h tg lifecycle (failed_with ''invalid_tool_combination'') None
      else approval_path h tg lifecycle d rq (the (rq_effect rq)))"

definition tool_execute :: "host \<Rightarrow> ('w, 's) tool_gateway \<Rightarrow> tool_request \<Rightarrow> ('w \<times> 's, js_error, tool_result) action" where
  "tool_execute h tg rq =
     (case lifecycle_request tg rq of
        None \<Rightarrow> act_return (failed_with ''invalid_tool_call_id'')
      | Some lifecycle \<Rightarrow> act_seq (append_lifecycle h tg lifecycle ''tool.requested'' []) (
        if rq_scope rq \<noteq> tg_scope tg \<or> rq_worker rq \<noteq> tg_worker tg
        then terminal_result h tg (Some lifecycle) (failed_with ''scope_denied'') None
        else case find (\<lambda>d. td_name d = rq_name rq) (tg_catalog tg) of
          None \<Rightarrow> terminal_result h tg (Some lifecycle) plain_failed (Some ''unregistered_tool'')
        | Some d \<Rightarrow>
          case r_bind (td_schema d (rq_input rq)) (\<lambda>v. parse_json_value v ''ToolRequest.input'') of
            Inl _ \<Rightarrow> terminal_result h tg (Some lifecycle) (failed_with ''invalid_tool_input'') None
          | Inr input \<Rightarrow>
            case tg_policy tg of
              None \<Rightarrow> terminal_result h tg (Some lifecycle) (failed_with ''policy_unavailable'') None
            | Some decide \<Rightarrow>
              case decide (rq\<lparr>rq_input := input\<rparr>) of
                None \<Rightarrow> terminal_result h tg (Some lifecycle) (failed_with ''policy_unavailable'') None
              | Some decision \<Rightarrow>
                if decision \<noteq> ''allow'' \<and> decision \<noteq> ''deny'' \<and> decision \<noteq> ''require_approval''
                then terminal_result h tg (Some lifecycle) (failed_with ''invalid_policy_decision'') None
                else act_seq (append_lifecycle h tg lifecycle ''tool.policy.decided'' [(''decision'', JStr decision)])
                  (decided_path h tg (Some lifecycle) d (rq\<lparr>rq_input := input\<rparr>) decision)))"

definition answer_approval :: "('w, 's) tool_gateway \<Rightarrow> approval_answer \<Rightarrow> ('w \<times> 's, js_error, unit) action" where
  "answer_approval tg an =
     (if an_scope an \<noteq> tg_scope tg then act_throw (PlainError ''Tool approval answer is outside the bound scope'')
      else append_approval_answer tg an)"

end
