(* ===== verification/SteadyActions.thy ===== *)
theory SteadyActions
  imports ChannelOps
begin

text \<open>
  Actions of a client of the store that has a world of its own. An action is \<open>quiet\<close> when it leaves
  the world alone, \<open>steady\<close> when it keeps the promises of a channel log.
\<close>

text \<open>\<open>try m finally f\<close>, and what follows a promise however it settles.\<close>

definition act_finally :: "('s, 'e, 'a) action \<Rightarrow> ('s \<Rightarrow> 's) \<Rightarrow> ('s, 'e, 'a) action" where
  "act_finally m f = (\<lambda>s. case m s of (r, s') \<Rightarrow> (r, f s'))"

section \<open>Actions that leave the world alone\<close>

definition quiet :: "('w \<times> 's, js_error, 'a) action \<Rightarrow> bool" where
  "quiet m \<longleftrightarrow> (\<forall>w s r w' s'. m (w, s) = (r, (w', s')) \<longrightarrow> w' = w)"

named_theorems quiet_intros \<open>rules for \<open>quiet\<close>\<close>

lemma quiet_bind [quiet_intros]: "quiet m \<Longrightarrow> (\<And>a. quiet (f a)) \<Longrightarrow> quiet (act_bind m f)"
  unfolding quiet_def
proof (intro allI impI)
  fix w s r w' s'
  assume m: "\<forall>w s r w' s'. m (w, s) = (r, (w', s')) \<longrightarrow> w' = w"
    and f: "\<And>a. \<forall>w s r w' s'. f a (w, s) = (r, (w', s')) \<longrightarrow> w' = w" and run: "act_bind m f (w, s) = (r, (w', s'))"
  from run show "w' = w"
  proof (cases rule: act_bind_cases)
    case (1 e) with m show ?thesis by blast
  next
    case (2 a ws)
    obtain w1 s1 where ws: "ws = (w1, s1)" by (cases ws)
    with 2(1) m have "w1 = w" by blast
    with 2(2) f ws show ?thesis by blast
  qed
qed

lemma quiet_seq [quiet_intros]: "quiet m \<Longrightarrow> quiet n \<Longrightarrow> quiet (act_seq m n)"
  unfolding act_seq_def by (rule quiet_bind)

lemma quiet_return [quiet_intros]: "quiet (act_return x)" and quiet_throw [quiet_intros]: "quiet (act_throw e)"
  by (simp_all add: quiet_def act_return_def act_throw_def)

lemma quiet_on_store [quiet_intros]: "quiet (on_store m)"
  by (auto simp: quiet_def on_store_def split: prod.splits)

lemma quiet_if [quiet_intros]: "quiet m \<Longrightarrow> quiet n \<Longrightarrow> quiet (if b then m else n)"
  by simp

lemma quiet_option [quiet_intros]:
  "quiet m \<Longrightarrow> (\<And>a. quiet (f a)) \<Longrightarrow> quiet (case x of None \<Rightarrow> m | Some a \<Rightarrow> f a)"
  by (cases x) simp_all

lemma quiet_at [quiet_intros]: "(\<And>w. quiet (m w)) \<Longrightarrow> quiet (\<lambda>(w, s). m w (w, s))"
  by (auto simp: quiet_def)

lemma quietD: "quiet m \<Longrightarrow> m (w, s) = (r, (w', s')) \<Longrightarrow> w' = w"
  unfolding quiet_def by blast

section \<open>Actions that keep the log\<close>

context channel_log
begin

definition steady where
  "steady m \<longleftrightarrow> (\<forall>w s r w' s'. ok s \<longrightarrow> m (w, s) = (r, (w', s')) \<longrightarrow> ok s' \<and> log_extends events command s s')"

lemma steadyD: "steady m \<Longrightarrow> ok s \<Longrightarrow> m (w, s) = (r, (w', s')) \<Longrightarrow> ok s' \<and> log_extends events command s s'"
  by (simp add: steady_def)

lemma steady_bind: "steady m \<Longrightarrow> (\<And>a. steady (f a)) \<Longrightarrow> steady (act_bind m f)"
  unfolding steady_def
proof (intro allI impI)
  fix w s r w' s'
  assume m: "\<forall>w s r w' s'. ok s \<longrightarrow> m (w, s) = (r, (w', s')) \<longrightarrow> ok s' \<and> log_extends events command s s'"
    and f: "\<And>a. \<forall>w s r w' s'. ok s \<longrightarrow> f a (w, s) = (r, (w', s')) \<longrightarrow> ok s' \<and> log_extends events command s s'"
    and ok: "ok s" and run: "act_bind m f (w, s) = (r, (w', s'))"
  from run show "ok s' \<and> log_extends events command s s'"
  proof (cases rule: act_bind_cases)
    case (1 e) with m ok show ?thesis by blast
  next
    case (2 a ws)
    obtain w1 s1 where ws: "ws = (w1, s1)" by (cases ws)
    with 2(1) m ok have s1: "ok s1" "log_extends events command s s1" by blast+
    with 2(2) f ws have "ok s'" "log_extends events command s1 s'" by blast+
    with s1 show ?thesis by (blast intro: log_extends_trans)
  qed
qed

lemma steady_seq: "steady m \<Longrightarrow> steady n \<Longrightarrow> steady (act_seq m n)"
  unfolding act_seq_def by (rule steady_bind)

lemma steady_return: "steady (act_return x)" and steady_throw: "steady (act_throw e)"
  by (simp_all add: steady_def act_return_def act_throw_def)

lemma steady_if: "steady m \<Longrightarrow> steady n \<Longrightarrow> steady (if b then m else n)"
  by simp

lemma steady_option: "steady m \<Longrightarrow> (\<And>a. steady (f a)) \<Longrightarrow> steady (case x of None \<Rightarrow> m | Some a \<Rightarrow> f a)"
  by (cases x) simp_all

lemma steady_at: "(\<And>w. steady (m w)) \<Longrightarrow> steady (\<lambda>(w, s). m w (w, s))"
  by (auto simp: steady_def)

lemma steady_on_store:
  "(\<And>s r s'. ok s \<Longrightarrow> m s = (r, s') \<Longrightarrow> ok s' \<and> log_extends events command s s') \<Longrightarrow> steady (on_store m)"
  by (fastforce simp: steady_def on_store_def split: prod.splits)

lemma steady_append: "steady (on_store (co_append ops e))"
  by (rule steady_on_store) (use append_law in blast)

lemma steady_read: "steady (on_store (co_read ops i after))"
  by (rule steady_on_store) (use read_law in blast)

lemma steady_command: "steady (on_store (co_get_run_command ops i))"
  by (rule steady_on_store) (use command_law in blast)

lemma steady_active: "steady (on_store (co_active_run_ids ops))"
  by (rule steady_on_store) (use active_law in blast)

lemma steady_finally: "steady m \<Longrightarrow> (\<And>w s. \<exists>w'. f (w, s) = (w', s)) \<Longrightarrow> steady (act_finally m f)"
  unfolding steady_def act_finally_def by (metis (no_types, lifting) case_prod_conv old.prod.exhaust prod.inject)

lemmas steady_basic = steady_bind steady_seq steady_return steady_throw steady_if steady_option steady_at steady_append
  steady_read steady_command steady_active

end

end
