(* ===== verification/ToolLog.thy ===== *)
theory ToolLog
  imports Tools SteadyActions
begin

text \<open>
  What the gateway does to the world and to the log. An action is \<open>quiet\<close> when it leaves the world
  alone, \<open>steady\<close> when it keeps the promises of a channel log. On any channel log, hence also on
  one that other clients write between the calls, a call for an effect that has begun is quiet,
  and a call that reached the sandbox wrote the event that begins the effect.
\<close>

lemma quiet_read_stream [quiet_intros]: "quiet (read_stream_events tg i)"
  unfolding read_stream_events_def by (rule quiet_intros)

lemma quiet_lifecycle [quiet_intros]: "quiet (append_lifecycle h tg rq ty ds)"
  unfolding append_lifecycle_def by (intro quiet_intros)

lemma quiet_terminal [quiet_intros]: "quiet (terminal_result h tg l r reason)"
  unfolding terminal_result_def by (intro quiet_intros)

lemma quiet_request [quiet_intros]: "quiet (append_approval_request tg rq x es)"
  unfolding append_approval_request_def by (rule quiet_intros)

lemma quiet_unknown [quiet_intros]: "quiet (append_unknown tg rq policy key n)"
  unfolding append_unknown_def by (intro quiet_intros)

lemma quiet_settle [quiet_intros]: "quiet (settle_effect tg rq policy key n r)"
  unfolding settle_effect_def by (intro quiet_intros)

lemma quiet_answer: "quiet (answer_approval tg an)"
  unfolding answer_approval_def append_approval_answer_def by (intro quiet_intros)

lemma find_append_none: "(\<And>x. x \<in> set xs \<Longrightarrow> \<not> P x) \<Longrightarrow> find P (xs @ ys) = find P ys"
  by (induction xs) auto

abbreviation starts_effect :: "canonical_event \<Rightarrow> bool" where
  "starts_effect e \<equiv> ev_type e = ''tool.effect.started''"

lemma canon_atom: "canon v = JStr x \<longleftrightarrow> v = JStr x" "canon v = JUndef \<longleftrightarrow> v = JUndef"
  by (cases v; simp)+

lemma same_field_canon: "v = JUndef \<or> (\<exists>x. v = JStr x) \<Longrightarrow> same_field (canon p) k v = same_field p k v"
  by (cases p) (auto simp: same_field_def js_field_canon canon_atom)

lemma tool_next_sequence_count:
  assumes "\<And>n. n < length xs \<Longrightarrow> ev_seq (xs ! n) = int n"
  shows "tool_next_sequence xs = int (length xs)"
  using assms unfolding tool_next_sequence_def
proof (induction xs rule: rev_induct)
  case (snoc x xs)
  have "ev_seq (xs ! n) = int n" if "n < length xs" for n
    using snoc.prems [of n] that by (simp add: nth_append)
  moreover have "ev_seq x = int (length xs)" using snoc.prems [of "length xs"] by simp
  ultimately show ?case using snoc.IH by simp
qed simp

section \<open>Actions that keep the log\<close>

context channel_log
begin

lemma steady_read_stream: "tg_ops tg = ops \<Longrightarrow> steady (read_stream_events tg i)"
  unfolding read_stream_events_def by (simp add: steady_read)

lemma steady_lifecycle: "tg_ops tg = ops \<Longrightarrow> steady (append_lifecycle h tg rq ty ds)"
  unfolding append_lifecycle_def by (simp, intro steady_basic steady_read_stream)

lemma steady_terminal: "tg_ops tg = ops \<Longrightarrow> steady (terminal_result h tg l r reason)"
  unfolding terminal_result_def by (intro steady_basic steady_lifecycle)

lemma steady_request: "tg_ops tg = ops \<Longrightarrow> steady (append_approval_request tg rq x es)"
  unfolding append_approval_request_def by (simp, intro steady_basic)

lemma steady_answer:
  assumes "tg_ops tg = ops"
  shows "steady (answer_approval tg an)"
  unfolding answer_approval_def append_approval_answer_def assms by (intro steady_basic steady_read_stream [OF assms])

lemma steady_unknown: "tg_ops tg = ops \<Longrightarrow> steady (append_unknown tg rq policy key n)"
  unfolding append_unknown_def by (simp, intro steady_basic)

lemma steady_settle:
  assumes "tg_ops tg = ops"
  shows "steady (settle_effect tg rq policy key n r)"
  unfolding settle_effect_def assms by (intro steady_basic steady_unknown [OF assms])

lemma steady_dispatch:
  assumes "tg_ops tg = ops"
  shows "steady (dispatch_effect tg rq policy key n)"
  unfolding steady_def
proof (intro allI impI)
  fix w s r w' s' assume ok: "ok s" and run: "dispatch_effect tg rq policy key n (w, s) = (r, (w', s'))"
  obtain x w1 where x: "tg_sandbox tg rq w = (x, w1)" by (cases "tg_sandbox tg rq w")
  show "ok s' \<and> log_extends events command s s'"
  proof (cases x)
    case None
    with run x have "append_unknown tg rq policy key n (w1, s) = (r, (w', s'))" by (simp add: dispatch_effect_def)
    from steadyD [OF steady_unknown [OF assms] ok this] show ?thesis .
  next
    case (Some res)
    with run x have "settle_effect tg rq policy key n res (w1, s) = (r, (w', s'))" by (simp add: dispatch_effect_def)
    from steadyD [OF steady_settle [OF assms] ok this] show ?thesis .
  qed
qed

lemma steady_execute:
  assumes "tg_ops tg = ops"
  shows "steady (execute_effect h tg rq policy)"
  unfolding execute_effect_def Let_def assms
  by (intro steady_basic steady_read_stream [OF assms] steady_unknown [OF assms] steady_dispatch [OF assms])

lemma steady_run: "steady (run_sandbox tg rq)"
  by (auto simp: steady_def run_sandbox_def split: prod.splits option.splits)

text \<open>What an effect sees: the stream as it is when it is read.\<close>

lemma read_stream:
  assumes "tg_ops tg = ops" "ok s"
  obtains s1 new where "read_stream_events tg i (w, s) = (Inr (events s1 i), (w, s1))" "ok s1" "log_extends events command s s1"
    "events s1 i = events s i @ new"
proof -
  obtain r s1 where r: "co_read ops i None s = (r, s1)" by (cases "co_read ops i None s")
  from read_law [OF assms(2) r] have "ok s1" "log_extends events command s s1" "r = Inr (events s1 i)" by auto
  moreover from this(2) obtain new where "events s1 i = events s i @ new" unfolding log_extends_def by blast
  ultimately show thesis using r assms(1) by (intro that [of s1 new]) (simp_all add: read_stream_events_def on_store_def)
qed

text \<open>The event a find returns stays the same while the stream grows at its end.\<close>

lemma find_stays: "find P (events s i) = Some e \<Longrightarrow> log_extends events command s s' \<Longrightarrow> find P (events s' i) = Some e"
proof -
  assume f: "find P (events s i) = Some e" and "log_extends events command s s'"
  then obtain new where "events s' i = events s i @ new" unfolding log_extends_def by blast
  moreover have "find P (xs @ ys) = Some e" if "find P xs = Some e" for xs ys :: "canonical_event list"
    using that by (induction xs) (auto split: if_splits)
  ultimately show ?thesis using f by simp
qed

lemma tool_next_sequence_read: "ok s \<Longrightarrow> tool_next_sequence (events s i) = int (length (events s i))"
  by (rule tool_next_sequence_count) (use numbered in blast)

text \<open>A call that finds its effect begun does not run the sandbox.\<close>

lemma begun_quiet:
  assumes ops: "tg_ops tg = ops" and ok: "ok s" and key: "rq_effect rq = Some key"
    and b: "find starts_effect (events s (effect_stream key)) = Some e"
    and run: "execute_effect h tg rq policy (w, s) = (r, (w', s'))"
  shows "w' = w"
proof -
  obtain s1 new where s1: "read_stream_events tg (effect_stream key) (w, s) = (Inr (events s1 (effect_stream key)), (w, s1))"
      "log_extends events command s s1"
    by (rule read_stream [OF ops ok])
  let ?es = "events s1 (effect_stream key)" and ?hash = "effect_intent_hash h rq policy"
  from find_stays [OF b s1(2)] have e: "e \<in> set ?es" "starts_effect e"
    by (auto simp: find_Some_iff in_set_conv_nth)
  show ?thesis
  proof (cases "list_ex (\<lambda>e. starts_effect e \<and> \<not> matches_effect_intent rq policy ?hash e) ?es")
    case True
    with run key s1 show ?thesis by (simp add: execute_effect_def act_bind_run act_return_def Let_def)
  next
    case False
    with e have "is_effect rq policy ''tool.effect.started'' e" by (auto simp: list_ex_iff matches_effect_intent_def)
    with e obtain e' where found: "find (is_effect rq policy ''tool.effect.started'') ?es = Some e'"
      by (cases "find (is_effect rq policy ''tool.effect.started'') ?es") (auto simp: find_None_iff)
    show ?thesis
    proof (cases "recorded_result rq policy key ?es")
      case (Some x)
      with False run key s1 show ?thesis by (simp add: execute_effect_def act_bind_run act_return_def Let_def)
    next
      case None
      with False found run key s1 have "append_unknown tg rq policy key (ev_seq e') (w, s1) = (r, (w', s'))"
        by (simp add: execute_effect_def act_bind_run Let_def)
      then show ?thesis by (rule quietD [OF quiet_unknown])
    qed
  qed
qed

text \<open>A call that ran the sandbox wrote the event that begins the effect.\<close>

lemma ran_first:
  assumes ops: "tg_ops tg = ops" and ok: "ok s" and run: "execute_effect h tg rq policy (w, s) = (r, (w', s'))" and ran: "w' \<noteq> w"
  obtains key e where "rq_effect rq = Some key" "find starts_effect (events s' (effect_stream key)) = Some e"
    "ev_id e = fst (tg_stamp tg ''tool.effect.started'')" "same_field (ev_payload e) ''intentHash'' (JStr (effect_intent_hash h rq policy))"
proof -
  obtain key where key: "rq_effect rq = Some key"
    using run ran by (cases "rq_effect rq") (auto simp: execute_effect_def act_return_def)
  obtain s1 new where s1: "read_stream_events tg (effect_stream key) (w, s) = (Inr (events s1 (effect_stream key)), (w, s1))"
      "ok s1"
    by (rule read_stream [OF ops ok])
  let ?es = "events s1 (effect_stream key)" and ?hash = "effect_intent_hash h rq policy"
  let ?e = "effect_event tg rq policy key (tool_next_sequence ?es) ''tool.effect.started'' [(''intentHash'', JStr ?hash)] []"
  have none: "\<not> list_ex (\<lambda>e. starts_effect e \<and> \<not> matches_effect_intent rq policy ?hash e) ?es"
    using run key s1 ran by (auto simp: execute_effect_def act_bind_run act_return_def Let_def split: if_splits)
  have rec: "recorded_result rq policy key ?es = None"
    using run key s1 ran none by (cases "recorded_result rq policy key ?es") (auto simp: execute_effect_def act_bind_run act_return_def Let_def)
  have start: "find (is_effect rq policy ''tool.effect.started'') ?es = None"
    using run key s1 ran none rec
    by (cases "find (is_effect rq policy ''tool.effect.started'') ?es")
      (auto simp: execute_effect_def act_bind_run Let_def dest: quietD [OF quiet_unknown])
  have fresh: "\<not> starts_effect x" if "x \<in> set ?es" for x
    using none start that by (auto simp: list_ex_iff find_None_iff matches_effect_intent_def)
  have run': "act_seq (on_store (co_append (tg_ops tg) ?e)) (dispatch_effect tg rq policy key (tool_next_sequence ?es)) (w, s1) = (r, (w', s'))"
    using run key s1 none rec start by (simp add: execute_effect_def act_bind_run Let_def)
  obtain x s2 where x: "co_append ops ?e s1 = (x, s2)" by (cases "co_append ops ?e s1")
  have inr: "x = Inr ()" using run' x ran ops by (cases x) (auto simp: act_seq_def act_bind_def on_store_def)
  have parts: "ev_stream ?e = effect_stream key" "ev_id ?e = fst (tg_stamp tg ''tool.effect.started'')" "starts_effect ?e"
      "ev_seq ?e = int (length ?es)"
    by (simp_all add: effect_event_def tool_event_def tool_next_sequence_read [OF s1(2)])
  from append_law [OF s1(2) x] inr parts same_event_fields obtain e where s2: "ok s2" "log_extends events command s1 s2"
    and e: "e \<in> set (events s2 (effect_stream key))" "ev_id e = fst (tg_stamp tg ''tool.effect.started'')" "starts_effect e"
      "ev_seq e = int (length ?es)" and same: "same_event e ?e"
    by auto
  have "same_field (ev_payload ?e) ''intentHash'' (JStr ?hash)"
    by (auto simp: effect_event_def tool_event_def same_field_def scope_fields_def run_attribution_def)
  moreover have "canon (ev_payload e) = canon (ev_payload ?e)" using same_event_fields [OF same] by blast
  ultimately have hash: "same_field (ev_payload e) ''intentHash'' (JStr ?hash)"
    using same_field_canon [of "JStr ?hash" "ev_payload e"] same_field_canon [of "JStr ?hash" "ev_payload ?e"] by simp
  obtain more' where s2': "events s2 (effect_stream key) = ?es @ more'" using s2(2) unfolding log_extends_def by blast
  obtain n where n: "n < length (events s2 (effect_stream key))" "e = events s2 (effect_stream key) ! n"
    using e(1) by (auto simp: in_set_conv_nth)
  with numbered [OF s2(1) n(1)] e(4) have "n = length ?es" by simp
  with n s2' obtain rest where "events s2 (effect_stream key) = ?es @ e # rest" by (cases more') auto
  then have "find starts_effect (events s2 (effect_stream key)) = Some e"
    using fresh e(3) by (simp add: find_append_none)
  moreover from run' x inr ops have "dispatch_effect tg rq policy key (tool_next_sequence ?es) (w, s2) = (r, (w', s'))"
    by (simp add: act_seq_def act_bind_def on_store_def)
  from steadyD [OF steady_dispatch [OF ops] s2(1) this] have "log_extends events command s2 s'" by blast
  ultimately show thesis using key e(2) hash find_stays that by blast
qed

text \<open>Two calls for one effect that end in a common store: at most one ran.\<close>

lemma ran_once:
  assumes "tg_ops tg = ops" "ok s" "execute_effect h tg rq policy (w, s) = (r, (w', s'))" "w' \<noteq> w"
    and "tg_ops tg2 = ops" "ok t" "execute_effect h tg2 rq2 policy2 (v, t) = (r2, (v', t'))" "v' \<noteq> v"
    and "rq_effect rq2 = rq_effect rq" "log_extends events command s' u" "log_extends events command t' u"
  shows "fst (tg_stamp tg2 ''tool.effect.started'') = fst (tg_stamp tg ''tool.effect.started'')"
proof -
  obtain key e where e: "rq_effect rq = Some key" "find starts_effect (events s' (effect_stream key)) = Some e"
      "ev_id e = fst (tg_stamp tg ''tool.effect.started'')"
    by (rule ran_first [OF assms(1-4)])
  obtain key' e' where e': "rq_effect rq2 = Some key'" "find starts_effect (events t' (effect_stream key')) = Some e'"
      "ev_id e' = fst (tg_stamp tg2 ''tool.effect.started'')"
    by (rule ran_first [OF assms(5-8)])
  have "key' = key" using e(1) e'(1) assms(9) by simp
  with find_stays [OF e(2) assms(10)] find_stays [OF e'(2) assms(11)] have "e' = e" by simp
  with e(3) e'(3) show ?thesis by simp
qed

end

end
