(* ===== verification/ToolCalls.thy ===== *)
theory ToolCalls
  imports ToolLog
begin

text \<open>
  Whole calls of the gateway on a channel log that other clients write too: what must hold before
  the sandbox is reached, and what a call that answers has left in the log.
\<close>

section \<open>What reaches the sandbox\<close>

definition approved :: "tool_request \<Rightarrow> string \<Rightarrow> canonical_event list \<Rightarrow> bool" where
  "approved rq key es \<longleftrightarrow> (\<exists>a \<in> set es. \<exists>b \<in> set es. is_approval_request a rq (''approval:'' @ key) \<and> ev_seq a < ev_seq b
     \<and> approval_decision rq (''approval:'' @ key) b = Some ''approved'')"

lemma approved_append: "approved rq key es \<Longrightarrow> approved rq key (es @ fs)"
  unfolding approved_def by auto

lemma find_map_Some: "find_map f xs = Some y \<Longrightarrow> \<exists>x \<in> set xs. f x = Some y"
  by (induction xs) (auto split: option.splits)

lemma approval_for_approved: "approval_for es rq (''approval:'' @ key) = (request, Some ''approved'') \<Longrightarrow> approved rq key es"
  by (force simp: approval_for_def approved_def find_Some_iff in_set_conv_nth split: option.splits if_splits dest: find_map_Some)

text \<open>
  What a call needs to reach the sandbox: a call identifier, the scope and the worker of the
  gateway, a tool of the catalog, an input the tool takes, and a policy that allows it, or asks for
  an approval that has been given in the stream of the run.
\<close>

definition permitted :: "('w, 's) tool_gateway \<Rightarrow> tool_request \<Rightarrow> canonical_event list \<Rightarrow> bool" where
  "permitted tg rq es \<longleftrightarrow> rq_call rq \<noteq> [] \<and> rq_scope rq = tg_scope tg \<and> rq_worker rq = tg_worker tg
     \<and> (\<exists>d input decide. find (\<lambda>d. td_name d = rq_name rq) (tg_catalog tg) = Some d
       \<and> r_bind (td_schema d (rq_input rq)) (\<lambda>v. parse_json_value v ''ToolRequest.input'') = Inr input
       \<and> tg_policy tg = Some decide
       \<and> (decide (rq\<lparr>rq_input := input\<rparr>) = Some ''allow'' \<and> td_replay d \<noteq> None
          \<or> decide (rq\<lparr>rq_input := input\<rparr>) = Some ''require_approval''
            \<and> (\<exists>key. rq_effect rq = Some key \<and> key \<noteq> [] \<and> approved (rq\<lparr>rq_input := input\<rparr>) key es)))"

text \<open>The checks before the policy's decision is written: a rejection, or what the decision is about.\<close>

definition screen :: "('w, 's) tool_gateway \<Rightarrow> tool_request \<Rightarrow> (tool_result \<times> string option) + (tool_definition \<times> js \<times> string)" where
  "screen tg rq =
     (if rq_scope rq \<noteq> tg_scope tg \<or> rq_worker rq \<noteq> tg_worker tg then Inl (failed_with ''scope_denied'', None)
      else case find (\<lambda>d. td_name d = rq_name rq) (tg_catalog tg) of
        None \<Rightarrow> Inl (plain_failed, Some ''unregistered_tool'')
      | Some d \<Rightarrow>
        case r_bind (td_schema d (rq_input rq)) (\<lambda>v. parse_json_value v ''ToolRequest.input'') of
          Inl _ \<Rightarrow> Inl (failed_with ''invalid_tool_input'', None)
        | Inr input \<Rightarrow>
          case tg_policy tg of
            None \<Rightarrow> Inl (failed_with ''policy_unavailable'', None)
          | Some decide \<Rightarrow>
            case decide (rq\<lparr>rq_input := input\<rparr>) of
              None \<Rightarrow> Inl (failed_with ''policy_unavailable'', None)
            | Some decision \<Rightarrow>
              if decision \<noteq> ''allow'' \<and> decision \<noteq> ''deny'' \<and> decision \<noteq> ''require_approval''
              then Inl (failed_with ''invalid_policy_decision'', None)
              else Inr (d, input, decision))"

lemma screen_InrD:
  assumes "screen tg rq = Inr (d, input, decision)"
  obtains decide where "rq_scope rq = tg_scope tg" "rq_worker rq = tg_worker tg"
    "find (\<lambda>d. td_name d = rq_name rq) (tg_catalog tg) = Some d"
    "r_bind (td_schema d (rq_input rq)) (\<lambda>v. parse_json_value v ''ToolRequest.input'') = Inr input"
    "tg_policy tg = Some decide" "decide (rq\<lparr>rq_input := input\<rparr>) = Some decision"
    "decision = ''allow'' \<or> decision = ''deny'' \<or> decision = ''require_approval''"
  using assms unfolding screen_def by (auto split: if_splits option.splits sum.splits)

text \<open>The request as the lifecycle events show it.\<close>

definition shown :: "('w, 's) tool_gateway \<Rightarrow> tool_request \<Rightarrow> tool_request" where
  "shown tg rq = rq\<lparr>rq_scope := tg_scope tg, rq_worker := tg_worker tg, rq_input := JNull\<rparr>"

lemma tool_execute_screened:
  "tool_execute h tg rq =
     (if rq_call rq = [] then act_return (failed_with ''invalid_tool_call_id'')
      else act_seq (append_lifecycle h tg (shown tg rq) ''tool.requested'' [])
        (case screen tg rq of
           Inl (r, reason) \<Rightarrow> terminal_result h tg (Some (shown tg rq)) r reason
         | Inr (d, input, decision) \<Rightarrow> act_seq (append_lifecycle h tg (shown tg rq) ''tool.policy.decided'' [(''decision'', JStr decision)])
             (decided_path h tg (Some (shown tg rq)) d (rq\<lparr>rq_input := input\<rparr>) decision)))"
  unfolding tool_execute_def screen_def lifecycle_request_def shown_def
  by (simp split: option.split sum.split)

context channel_log
begin

lemma steady_sum: "(\<And>a. steady (f a)) \<Longrightarrow> (\<And>b. steady (g b)) \<Longrightarrow> steady (case x of Inl a \<Rightarrow> f a | Inr b \<Rightarrow> g b)"
  by (cases x) simp_all

lemma steady_prod: "(\<And>a b. steady (f a b)) \<Longrightarrow> steady (case x of (a, b) \<Rightarrow> f a b)"
  by (cases x) simp

text \<open>Every change of the world establishes \<open>P\<close>.\<close>

definition guarded where
  "guarded P m \<longleftrightarrow> (\<forall>w s r w' s'. ok s \<longrightarrow> m (w, s) = (r, (w', s')) \<longrightarrow> w' \<noteq> w \<longrightarrow> P s')"

lemma guarded_quiet: "quiet m \<Longrightarrow> guarded P m"
  unfolding guarded_def by (blast dest: quietD)

text \<open>A continuation may use what was read: the stream is still there at its end.\<close>

lemma guarded_read:
  assumes ops: "tg_ops tg = ops" and f: "\<And>es. guarded (\<lambda>s. (\<exists>fs. events s i = es @ fs) \<longrightarrow> P s) (f es)" "\<And>es. steady (f es)"
  shows "guarded P (act_bind (read_stream_events tg i) f)"
  unfolding guarded_def
proof (intro allI impI)
  fix w s r w' s' assume ok: "ok s" and run: "act_bind (read_stream_events tg i) f (w, s) = (r, (w', s'))" and ne: "w' \<noteq> w"
  obtain s1 new where s1: "read_stream_events tg i (w, s) = (Inr (events s1 i), (w, s1))" "ok s1"
    by (rule read_stream [OF ops ok])
  with run have run': "f (events s1 i) (w, s1) = (r, (w', s'))" by (simp add: act_bind_run)
  from steadyD [OF f(2) s1(2) this] obtain fs where "events s' i = events s1 i @ fs" unfolding log_extends_def by blast
  with f(1) run' s1(2) ne show "P s'" unfolding guarded_def by blast
qed

lemma permitted_append: "permitted tg rq es \<Longrightarrow> permitted tg rq (es @ fs)"
  unfolding permitted_def using approved_append by blast

lemma steady_answered:
  assumes "tg_ops tg = ops"
  shows "steady (approval_answered h tg l d rq approval es)"
  unfolding approval_answered_def
  by (intro steady_prod steady_basic steady_execute [OF assms] steady_run steady_terminal [OF assms] steady_request [OF assms])

lemma steady_approval:
  assumes "tg_ops tg = ops"
  shows "steady (approval_path h tg l d rq key)"
  unfolding approval_path_def by (intro steady_bind steady_read_stream [OF assms] steady_answered [OF assms])

lemma steady_decided:
  assumes "tg_ops tg = ops"
  shows "steady (decided_path h tg l d rq decision)"
  unfolding decided_path_def
  by (intro steady_basic steady_execute steady_run steady_terminal [OF assms] steady_approval [OF assms])
    (simp add: checked_sandbox_def assms)

lemma steady_tool_execute:
  assumes "tg_ops tg = ops"
  shows "steady (tool_execute h tg rq)"
  unfolding tool_execute_screened
  by (intro steady_basic steady_sum steady_lifecycle [OF assms] steady_terminal [OF assms] steady_prod steady_decided [OF assms])

lemma guarded_holds: "(\<And>s. P s) \<Longrightarrow> guarded P m"
  by (simp add: guarded_def)

text \<open>The approval is read in the run's stream, and stays there.\<close>

lemma guarded_approval:
  assumes ops: "tg_ops tg = ops" and yes: "\<And>es. approved rq key es \<Longrightarrow> Q es" and keep: "\<And>es fs. Q es \<Longrightarrow> Q (es @ fs)"
  shows "guarded (\<lambda>s. Q (events s (rq_run rq))) (approval_path h tg l d rq key)"
  unfolding approval_path_def
proof (rule guarded_read [OF ops _ steady_answered [OF ops]])
  fix es
  obtain request decision where a: "approval_for es rq (''approval:'' @ key) = (request, decision)" by fastforce
  show "guarded (\<lambda>s. (\<exists>fs. events s (rq_run rq) = es @ fs) \<longrightarrow> Q (events s (rq_run rq)))
     (approval_answered h tg l d rq (''approval:'' @ key) es)"
  proof (cases "decision = Some ''approved''")
    case True
    with a have "Q es" using approval_for_approved yes by blast
    with keep show ?thesis by (intro guarded_holds) auto
  next
    case False
    then show ?thesis unfolding approval_answered_def a prod.case if_not_P [OF False] by (intro guarded_quiet quiet_intros)
  qed
qed

lemma guarded_decided:
  assumes ops: "tg_ops tg = ops" and screened: "screen tg rq = Inr (d, input, decision)" and call: "rq_call rq \<noteq> []"
  shows "guarded (\<lambda>s. permitted tg rq (events s (rq_run rq))) (decided_path h tg l d (rq\<lparr>rq_input := input\<rparr>) decision)"
proof -
  obtain decide where s: "rq_scope rq = tg_scope tg" "rq_worker rq = tg_worker tg"
      "find (\<lambda>d. td_name d = rq_name rq) (tg_catalog tg) = Some d"
      "r_bind (td_schema d (rq_input rq)) (\<lambda>v. parse_json_value v ''ToolRequest.input'') = Inr input"
      "tg_policy tg = Some decide" "decide (rq\<lparr>rq_input := input\<rparr>) = Some decision"
    by (rule screen_InrD [OF screened])
  consider (allow) "decision = ''allow''" "td_replay d \<noteq> None"
    | (ask) key where "decision = ''require_approval''" "rq_effect rq = Some key" "key \<noteq> []"
    | (no) "decision \<noteq> ''allow'' \<or> td_replay d = None" "decision \<noteq> ''require_approval'' \<or> rq_effect rq = None \<or> rq_effect rq = Some []"
    by fastforce
  then show ?thesis
  proof cases
    case allow
    with s call show ?thesis by (intro guarded_holds) (auto simp: permitted_def)
  next
    case (ask key)
    have "guarded (\<lambda>s. permitted tg rq (events s (rq_run (rq\<lparr>rq_input := input\<rparr>)))) (approval_path h tg l d (rq\<lparr>rq_input := input\<rparr>) key)"
      by (rule guarded_approval [OF ops]) (use s call ask in \<open>auto simp: permitted_def intro: approved_append\<close>)
    with ask show ?thesis by (simp add: decided_path_def)
  next
    case no
    then have "decided_path h tg l d (rq\<lparr>rq_input := input\<rparr>) decision = (if decision = ''deny'' then terminal_result h tg l plain_failed (Some ''policy_denied'')
        else terminal_result h tg l (failed_with ''invalid_tool_combination'') None)"
      by (auto simp: decided_path_def)
    then show ?thesis by (simp add: guarded_quiet quiet_terminal)
  qed
qed

lemma stays_in: "e \<in> set (events s i) \<Longrightarrow> log_extends events command s s' \<Longrightarrow> e \<in> set (events s' i)"
  unfolding log_extends_def by (metis UnI1 set_append)

text \<open>What a lifecycle event leaves in the stream of the call.\<close>

lemma lifecycle_law:
  assumes ops: "tg_ops tg = ops" and ok: "ok s" and run: "append_lifecycle h tg rq ty ds (w, s) = (r, (w', s'))"
  shows "w' = w \<and> ok s' \<and> log_extends events command s s'
    \<and> (r = Inr () \<longrightarrow> (\<exists>e \<in> set (events s' (lifecycle_stream rq)). length (events s (lifecycle_stream rq)) \<le> ev_seq e
        \<and> same_event e (lifecycle_event h (snd (tg_stamp tg ty)) rq (ev_seq e) ty ds)))"
proof -
  let ?i = "lifecycle_stream rq"
  have w: "w' = w" by (rule quietD [OF quiet_lifecycle run])
  have s: "ok s'" "log_extends events command s s'" using steadyD [OF steady_lifecycle [OF ops] ok run] by blast+
  obtain s1 new where s1: "read_stream_events tg ?i (w, s) = (Inr (events s1 ?i), (w, s1))" "ok s1" "events s1 ?i = events s ?i @ new"
    by (rule read_stream [OF ops ok])
  let ?e = "lifecycle_event h (snd (tg_stamp tg ty)) rq (tool_next_sequence (events s1 ?i)) ty ds"
  have e: "ev_stream ?e = ?i" "ev_seq ?e = int (length (events s1 ?i))"
    by (simp_all add: lifecycle_event_def tool_next_sequence_read [OF s1(2)])
  obtain x s2 where x: "co_append ops ?e s1 = (x, s2)" by (cases "co_append ops ?e s1")
  have rs: "r = x \<and> s' = s2" using run s1(1) x ops by (simp add: append_lifecycle_def act_bind_run on_store_def)
  have "\<exists>e \<in> set (events s' ?i). length (events s ?i) \<le> ev_seq e \<and> same_event e (lifecycle_event h (snd (tg_stamp tg ty)) rq (ev_seq e) ty ds)"
    if "r = Inr ()"
  proof -
    from append_law [OF s1(2) x] rs that obtain e' where e': "e' \<in> set (events s' ?i)" "same_event e' ?e" by (auto simp: e)
    then have "ev_seq e' = ev_seq ?e" using same_event_fields by blast
    then have seq: "ev_seq e' = tool_next_sequence (events s1 ?i)" by (simp add: lifecycle_event_def)
    moreover have "length (events s ?i) \<le> ev_seq e'" using seq s1(3) tool_next_sequence_read [OF s1(2), of ?i] by simp
    ultimately show ?thesis using e' by (intro bexI [of _ e']) simp_all
  qed
  with w s show ?thesis by blast
qed

lemma terminal_law:
  assumes ops: "tg_ops tg = ops" and ok: "ok s" and run: "terminal_result h tg (Some rq) r reason (w, s) = (Inr x, (w', s'))"
  obtains e where "x = r" "w' = w" "ok s'" "log_extends events command s s'"
    "e \<in> set (events s' (lifecycle_stream rq))" "length (events s (lifecycle_stream rq)) \<le> ev_seq e"
    "same_event e (lifecycle_event h (snd (tg_stamp tg ''tool.result'')) rq (ev_seq e) ''tool.result''
       (case reason of None \<Rightarrow> result_details r | Some x \<Rightarrow> js_set ''reason'' (JStr x) (result_details r)))"
proof -
  let ?ds = "case reason of None \<Rightarrow> result_details r | Some x \<Rightarrow> js_set ''reason'' (JStr x) (result_details r)"
  obtain y ws where y: "append_lifecycle h tg rq ''tool.result'' ?ds (w, s) = (y, ws)"
    by (cases "append_lifecycle h tg rq ''tool.result'' ?ds (w, s)")
  obtain w1 s1 where ws: "ws = (w1, s1)" by (cases ws)
  have "y = Inr () \<and> x = r \<and> w1 = w' \<and> s1 = s'"
    using run y ws by (cases y) (auto simp: terminal_result_def act_seq_def act_bind_def act_return_def)
  with lifecycle_law [OF ops ok y [unfolded ws]] that show thesis by blast
qed

text \<open>A call that changed the world was permitted, and its decision was on record.\<close>

lemma execute_permitted:
  assumes ops: "tg_ops tg = ops" and ok: "ok s" and run: "tool_execute h tg rq (w, s) = (r, (w', s'))" and ran: "w' \<noteq> w"
  shows "permitted tg rq (events s' (rq_run rq))
    \<and> (\<exists>a \<in> set (events s' (lifecycle_stream rq)). \<exists>b \<in> set (events s' (lifecycle_stream rq)).
        ev_type a = ''tool.requested'' \<and> ev_type b = ''tool.policy.decided'' \<and> ev_seq a < ev_seq b)"
proof -
  let ?L = "shown tg rq" and ?i = "lifecycle_stream rq"
  have i: "lifecycle_stream ?L = ?i" by (simp add: shown_def lifecycle_stream_def)
  have call: "rq_call rq \<noteq> []" using run ran by (auto simp: tool_execute_screened act_return_def)
  from run call have "act_seq (append_lifecycle h tg ?L ''tool.requested'' [])
        (case screen tg rq of
           Inl (r, reason) \<Rightarrow> terminal_result h tg (Some ?L) r reason
         | Inr (d, input, decision) \<Rightarrow> act_seq (append_lifecycle h tg ?L ''tool.policy.decided'' [(''decision'', JStr decision)])
             (decided_path h tg (Some ?L) d (rq\<lparr>rq_input := input\<rparr>) decision)) (w, s) = (r, (w', s'))" (is "act_seq _ ?rest _ = _")
    by (simp add: tool_execute_screened)
  then show ?thesis
  proof (cases rule: act_seq_cases)
    case (1 e)
    from lifecycle_law [OF ops ok this(1)] ran show ?thesis by blast
  next
    case (2 u ws)
    obtain w1 s1 where ws: "ws = (w1, s1)" by (cases ws)
    from lifecycle_law [OF ops ok 2(1) [unfolded ws]] i obtain a where s1: "w1 = w" "ok s1" and a: "a \<in> set (events s1 ?i)" "ev_type a = ''tool.requested''"
      by (auto dest!: same_event_fields simp: lifecycle_event_def)
    from 2(2) ws s1(1) have rest: "?rest (w, s1) = (r, (w', s'))" by simp
    show ?thesis
    proof (cases "screen tg rq")
      case (Inl x)
      obtain y reason where x: "x = (y, reason)" by (cases x)
      with rest Inl have "terminal_result h tg (Some ?L) y reason (w, s1) = (r, (w', s'))" by simp
      from quietD [OF quiet_terminal this] ran show ?thesis by blast
    next
      case (Inr x)
      obtain d input decision where x: "x = (d, input, decision)" by (cases x)
      from rest Inr x have "act_seq (append_lifecycle h tg ?L ''tool.policy.decided'' [(''decision'', JStr decision)])
             (decided_path h tg (Some ?L) d (rq\<lparr>rq_input := input\<rparr>) decision) (w, s1) = (r, (w', s'))" by simp
      then show ?thesis
      proof (cases rule: act_seq_cases)
        case (1 e)
        from lifecycle_law [OF ops s1(2) this(1)] ran show ?thesis by blast
      next
        case (2 v ws2)
        obtain w2 s2 where ws2: "ws2 = (w2, s2)" by (cases ws2)
        from lifecycle_law [OF ops s1(2) 2(1) [unfolded ws2]] i obtain b where s2: "w2 = w" "ok s2" "log_extends events command s1 s2"
          and b: "b \<in> set (events s2 ?i)" "ev_type b = ''tool.policy.decided''" "length (events s1 ?i) \<le> ev_seq b"
          by (auto dest!: same_event_fields simp: lifecycle_event_def)
        from a(1) obtain n where n: "n < length (events s1 ?i)" "a = events s1 ?i ! n" by (auto simp: in_set_conv_nth)
        with numbered [OF s1(2) n(1)] b(3) have less: "ev_seq a < ev_seq b" by simp
        have dec: "decided_path h tg (Some ?L) d (rq\<lparr>rq_input := input\<rparr>) decision (w, s2) = (r, (w', s'))" using 2(2) ws2 s2(1) by simp
        have ext: "log_extends events command s2 s'" using steadyD [OF steady_decided [OF ops] s2(2) dec] by blast
        have "permitted tg rq (events s' (rq_run rq))"
          using guarded_decided [OF ops _ call] Inr x dec s2(2) ran unfolding guarded_def by blast
        moreover have "a \<in> set (events s' ?i)" "b \<in> set (events s' ?i)"
          using a(1) b(1) s2(3) ext stays_in by blast+
        ultimately show ?thesis using a(2) b(2) less by blast
      qed
    qed
  qed
qed

text \<open>A call that answers has written its answer: every path ends in \<open>terminal_result\<close>.\<close>

definition closing where
  "closing h tg l m \<longleftrightarrow> (\<forall>w s r w' s'. ok s \<longrightarrow> m (w, s) = (Inr r, (w', s')) \<longrightarrow>
     (\<exists>w1 s1 reason. ok s1 \<and> log_extends events command s s1 \<and> terminal_result h tg l r reason (w1, s1) = (Inr r, (w', s'))))"

lemma closing_terminal: "closing h tg l (terminal_result h tg l r reason)"
proof -
  have "r' = r" if "terminal_result h tg l r reason (w, s) = (Inr r', (w', s'))" for w s r' w' s'
    using that by (auto simp: terminal_result_def act_seq_def act_bind_def act_return_def split: prod.splits sum.splits)
  then show ?thesis unfolding closing_def by (metis log_extends_refl)
qed

lemma closing_bind: "steady m \<Longrightarrow> (\<And>a. closing h tg l (f a)) \<Longrightarrow> closing h tg l (act_bind m f)"
  unfolding closing_def
proof (intro allI impI)
  fix w s r w' s'
  assume m: "steady m" and ok: "ok s" and run: "act_bind m f (w, s) = (Inr r, (w', s'))"
    and f: "\<And>a. \<forall>w s r w' s'. ok s \<longrightarrow> f a (w, s) = (Inr r, (w', s')) \<longrightarrow>
     (\<exists>w1 s1 reason. ok s1 \<and> log_extends events command s s1 \<and> terminal_result h tg l r reason (w1, s1) = (Inr r, (w', s')))"
  from run show "\<exists>w1 s1 reason. ok s1 \<and> log_extends events command s s1 \<and> terminal_result h tg l r reason (w1, s1) = (Inr r, (w', s'))"
  proof (cases rule: act_bind_cases)
    case (2 a ws)
    obtain w2 s2 where ws: "ws = (w2, s2)" by (cases ws)
    with 2(1) m ok have s2: "ok s2" "log_extends events command s s2" by (blast dest: steadyD)+
    with 2(2) f ws obtain w1 s1 reason where "ok s1" "log_extends events command s2 s1"
        "terminal_result h tg l r reason (w1, s1) = (Inr r, (w', s'))"
      by blast
    with s2 show ?thesis by (blast intro: log_extends_trans)
  qed simp
qed

lemma closing_seq: "steady m \<Longrightarrow> closing h tg l n \<Longrightarrow> closing h tg l (act_seq m n)"
  unfolding act_seq_def by (rule closing_bind)

lemma closing_if: "closing h tg l m \<Longrightarrow> closing h tg l n \<Longrightarrow> closing h tg l (if b then m else n)"
  by simp

lemma closing_prod: "(\<And>a b. closing h tg l (f a b)) \<Longrightarrow> closing h tg l (case x of (a, b) \<Rightarrow> f a b)"
  by (cases x) simp

lemma closing_sum:
  "(\<And>a. closing h tg l (f a)) \<Longrightarrow> (\<And>b. closing h tg l (g b)) \<Longrightarrow> closing h tg l (case x of Inl a \<Rightarrow> f a | Inr b \<Rightarrow> g b)"
  by (cases x) simp_all

lemmas closing_basic = closing_terminal closing_seq closing_bind closing_if closing_prod closing_sum

lemma closing_answered:
  assumes "tg_ops tg = ops"
  shows "closing h tg l (approval_answered h tg l d rq approval es)"
  unfolding approval_answered_def
  by (intro closing_basic steady_if steady_option steady_return steady_execute [OF assms] steady_run steady_request [OF assms])

lemma closing_decided:
  assumes "tg_ops tg = ops"
  shows "closing h tg l (decided_path h tg l d rq decision)"
  unfolding decided_path_def approval_path_def
  by (intro closing_basic closing_answered [OF assms] steady_read_stream [OF assms] steady_execute steady_run)
    (simp add: checked_sandbox_def assms)

lemma execute_recorded:
  assumes ops: "tg_ops tg = ops" and ok: "ok s" and run: "tool_execute h tg rq (w, s) = (Inr r, (w', s'))" and call: "rq_call rq \<noteq> []"
  shows "\<exists>a \<in> set (events s' (lifecycle_stream rq)). \<exists>b \<in> set (events s' (lifecycle_stream rq)).
       length (events s (lifecycle_stream rq)) \<le> ev_seq a \<and> ev_seq a < ev_seq b
     \<and> same_event a (lifecycle_event h (snd (tg_stamp tg ''tool.requested'')) (shown tg rq) (ev_seq a) ''tool.requested'' [])
     \<and> (\<exists>reason. same_event b (lifecycle_event h (snd (tg_stamp tg ''tool.result'')) (shown tg rq) (ev_seq b) ''tool.result''
         (case reason of None \<Rightarrow> result_details r | Some x \<Rightarrow> js_set ''reason'' (JStr x) (result_details r))))"
proof -
  let ?L = "shown tg rq" and ?i = "lifecycle_stream rq"
  have i: "lifecycle_stream ?L = ?i" by (simp add: shown_def lifecycle_stream_def)
  from run call have "act_seq (append_lifecycle h tg ?L ''tool.requested'' [])
        (case screen tg rq of
           Inl (r, reason) \<Rightarrow> terminal_result h tg (Some ?L) r reason
         | Inr (d, input, decision) \<Rightarrow> act_seq (append_lifecycle h tg ?L ''tool.policy.decided'' [(''decision'', JStr decision)])
             (decided_path h tg (Some ?L) d (rq\<lparr>rq_input := input\<rparr>) decision)) (w, s) = (Inr r, (w', s'))" (is "act_seq _ ?rest _ = _")
    by (simp add: tool_execute_screened)
  then show ?thesis
  proof (cases rule: act_seq_cases)
    case (2 u ws)
    obtain w1 s1 where ws: "ws = (w1, s1)" by (cases ws)
    from lifecycle_law [OF ops ok 2(1) [unfolded ws]] i obtain a where s1: "ok s1"
      and a: "a \<in> set (events s1 ?i)" "length (events s ?i) \<le> ev_seq a"
        "same_event a (lifecycle_event h (snd (tg_stamp tg ''tool.requested'')) ?L (ev_seq a) ''tool.requested'' [])"
      by auto
    have "closing h tg (Some ?L) ?rest"
      by (intro closing_basic closing_decided [OF ops] steady_lifecycle [OF ops])
    with 2(2) ws s1 obtain w2 s2 reason where s2: "ok s2" "log_extends events command s1 s2"
        "terminal_result h tg (Some ?L) r reason (w2, s2) = (Inr r, (w', s'))"
      unfolding closing_def by blast
    obtain b where b: "log_extends events command s2 s'" "b \<in> set (events s' ?i)" "length (events s2 ?i) \<le> ev_seq b"
        "same_event b (lifecycle_event h (snd (tg_stamp tg ''tool.result'')) ?L (ev_seq b) ''tool.result''
         (case reason of None \<Rightarrow> result_details r | Some x \<Rightarrow> js_set ''reason'' (JStr x) (result_details r)))"
      using terminal_law [OF ops s2(1,3)] i by metis
    have "a \<in> set (events s2 ?i)" using stays_in [OF a(1) s2(2)] .
    then obtain n where n: "n < length (events s2 ?i)" "a = events s2 ?i ! n" by (auto simp: in_set_conv_nth)
    with numbered [OF s2(1) n(1)] b(3) have "ev_seq a < ev_seq b" by simp
    moreover have "a \<in> set (events s' ?i)" using stays_in [OF \<open>a \<in> set (events s2 ?i)\<close> b(1)] .
    ultimately show ?thesis using a(2,3) b(2,4) by blast
  qed simp
qed

end

end
