(* ===== verification/ToolLedger.thy ===== *)
theory ToolLedger
  imports ToolCalls
begin

text \<open>
  The ledger of effects on the store itself: what a run of the sandbox leaves at the end of the
  ledger, and what the same call answers when it reads the ledger back.
\<close>

section \<open>The ledger alone on the store\<close>

lemma append_at_end:
  assumes "log_ok h st" "co_append (in_memory h s) e st = (Inr (), st')" "int (length (stream_events h s (ev_stream e) st)) \<le> ev_seq e"
    "digits_ok h"
  shows "log_ok h st' \<and> event_ok h e \<and> stream_events h s (ev_stream e) st' = stream_events h s (ev_stream e) st @ [e]"
proof -
  have a: "append_event h s e st = (Inr (), st')" using assms(2) by (simp add: in_memory_def)
  from append_event_cases [OF a] show ?thesis
  proof (elim disjE conjE)
    assume st': "st' = st"
    obtain e' where e': "e' \<in> set (stream_events h s (ev_stream e) st)" "same_event e' e"
      using append_stores [OF assms(4,1) a] st' by blast
    from e'(1) obtain n where n: "n < length (stream_events h s (ev_stream e) st)" "e' = stream_events h s (ev_stream e) st ! n"
      by (auto simp: in_set_conv_nth)
    with log_ok_nth(4) [OF assms(1) n(1)] same_event_fields [OF e'(2)] assms(3) show ?thesis by simp
  next
    assume "st' = push_event h s e st" "event_ok h e"
    with append_event_log_ok [OF assms(1) a] show ?thesis by simp
  qed
qed

lemma read_run:
  "log_ok h st \<Longrightarrow> tg_ops tg = in_memory h s \<Longrightarrow> read_stream_events tg i (w, st) = (Inr (stream_events h s i st), (w, st))"
  by (simp add: read_stream_events_def on_store_def in_memory_def read_events_run)

lemma execute_run:
  assumes "log_ok h st" "tg_ops tg = in_memory h s" "rq_effect rq = Some key"
  shows "execute_effect h tg rq policy (w, st) =
    (let es = stream_events h s (effect_stream key) st; hash = effect_intent_hash h rq policy in
      if list_ex (\<lambda>e. starts_effect e \<and> \<not> matches_effect_intent rq policy hash e) es
      then (Inr (failed_with ''effect_key_conflict''), (w, st))
      else case recorded_result rq policy key es of
        Some r \<Rightarrow> (Inr r, (w, st))
      | None \<Rightarrow>
        case find (is_effect rq policy ''tool.effect.started'') es of
          Some e \<Rightarrow> append_unknown tg rq policy key (ev_seq e) (w, st)
        | None \<Rightarrow> act_seq
            (on_store (co_append (tg_ops tg) (effect_event tg rq policy key (tool_next_sequence es) ''tool.effect.started''
              [(''intentHash'', JStr hash)] [])))
            (dispatch_effect tg rq policy key (tool_next_sequence es)) (w, st))"
  using read_run [OF assms(1,2)] assms(3)
  by (simp add: execute_effect_def act_bind_run act_return_def Let_def split: option.split)

lemma run_attribution_own [simp]:
  "js_has_own (run_attribution rq) k =
     (k = ''parentRunId'' \<and> rq_parent_run rq \<noteq> None \<or> k = ''parentEventId'' \<and> rq_parent_event rq \<noteq> None
      \<or> k = ''laneId'' \<and> rq_lane rq \<noteq> None)"
  by (auto simp: run_attribution_def)

lemma run_attribution_field [simp]:
  "js_field (run_attribution rq) ''parentRunId'' = opt_js (rq_parent_run rq)"
  "js_field (run_attribution rq) ''parentEventId'' = opt_js (rq_parent_event rq)"
  "js_field (run_attribution rq) ''laneId'' = opt_js (rq_lane rq)"
  by (auto simp: run_attribution_def opt_js_def opt_field_def split: option.splits)

lemma effect_event_parts [simp]:
  "ev_type (effect_event tg rq policy key n ty before after) = ty" "ev_seq (effect_event tg rq policy key n ty before after) = n"
  "ev_stream (effect_event tg rq policy key n ty before after) = effect_stream key"
  by (simp_all add: effect_event_def tool_event_def)

definition extra_keys :: "(string \<times> js) list \<Rightarrow> bool" where
  "extra_keys kvs \<longleftrightarrow> set (map fst kvs) \<subseteq> {''result'', ''reason'', ''intentHash''}"

lemma extra_keysD: "extra_keys kvs \<Longrightarrow> k \<notin> {''result'', ''reason'', ''intentHash''} \<Longrightarrow> \<not> js_has_own kvs k"
  by (auto simp: extra_keys_def js_has_own_def map_of_eq_None_iff)

lemma is_effect_event:
  assumes "extra_keys before" "extra_keys after" "rq_effect rq = Some key"
  shows "is_effect rq policy ty' (effect_event tg rq policy key n ty before after) \<longleftrightarrow> ty' = ty"
  using assms extra_keysD [OF assms(1)] extra_keysD [OF assms(2)]
  by (auto simp: is_effect_def effect_event_def tool_event_def same_origin_def same_field_def scope_fields_def
      matches_attribution_def opt_js_def js_field_absent split: option.splits)

text \<open>What a run of the sandbox leaves at the end of the ledger, and what the caller got.\<close>

definition settled_as :: "('w, 's) tool_gateway \<Rightarrow> tool_request \<Rightarrow> string \<Rightarrow> string \<Rightarrow> int \<Rightarrow> canonical_event \<Rightarrow> tool_result \<Rightarrow> bool" where
  "settled_as tg rq policy key n e x \<longleftrightarrow>
     e = effect_event tg rq policy key n ''tool.effect.unknown'' [] [(''reason'', JStr ''effect_outcome_unknown'')]
       \<and> x = unknown_effect_result key
   \<or> e = effect_event tg rq policy key n ''tool.effect.cancelled'' [] [(''result'', serialize_result x)]
       \<and> to_status x \<in> {''succeeded'', ''failed''}
   \<or> e = effect_event tg rq policy key n ''tool.effect.succeeded'' [] [(''result'', serialize_result x)] \<and> to_status x = ''succeeded''
   \<or> e = effect_event tg rq policy key n ''tool.effect.failed'' [] [(''result'', serialize_failed x)] \<and> to_status x = ''failed''"

lemma store_append_run:
  assumes ops: "tg_ops tg = in_memory h s" and ok: "log_ok h st" "digits_ok h"
    and run: "act_seq (on_store (co_append (tg_ops tg) e)) m (w, st) = (Inr x, (w', st'))"
    and long: "int (length (stream_events h s (ev_stream e) st)) \<le> ev_seq e"
  obtains st1 where "log_ok h st1" "event_ok h e" "stream_events h s (ev_stream e) st1 = stream_events h s (ev_stream e) st @ [e]"
    "m (w, st1) = (Inr x, (w', st'))"
proof -
  obtain y st1 where y: "co_append (in_memory h s) e st = (y, st1)" by fastforce
  with run ops have "y = Inr ()" "m (w, st1) = (Inr x, (w', st'))"
    by (cases y; simp add: act_seq_def act_bind_def on_store_def)+
  with append_at_end [OF ok(1) _ long ok(2)] y that show thesis by blast
qed

lemma unknown_run:
  assumes "tg_ops tg = in_memory h s" "log_ok h st" "digits_ok h"
    and "append_unknown tg rq policy key n (w, st) = (Inr x, (w', st'))"
    and "int (length (stream_events h s (effect_stream key) st)) \<le> n + 1"
  shows "\<exists>e. log_ok h st' \<and> event_ok h e \<and> stream_events h s (effect_stream key) st' = stream_events h s (effect_stream key) st @ [e]
    \<and> settled_as tg rq policy key (n + 1) e x"
  using store_append_run [OF assms(1-3) assms(4) [unfolded append_unknown_def]] assms(5)
  by (simp add: act_return_def settled_as_def) blast

lemma settle_run:
  assumes ops: "tg_ops tg = in_memory h s" and ok: "log_ok h st" "digits_ok h"
    and run: "settle_effect tg rq policy key n r (w, st) = (Inr x, (w', st'))" and status: "to_status r \<in> {''succeeded'', ''failed'', ''unknown''}"
    and long: "int (length (stream_events h s (effect_stream key) st)) \<le> n + 1"
  shows "\<exists>e. log_ok h st' \<and> event_ok h e \<and> stream_events h s (effect_stream key) st' = stream_events h s (effect_stream key) st @ [e]
    \<and> settled_as tg rq policy key (n + 1) e x"
proof (cases "to_status r = ''unknown''")
  case True
  with run have "append_unknown tg rq policy key n (w, st) = (Inr x, (w', st'))" by (simp add: settle_effect_def)
  from unknown_run [OF ops ok this long] show ?thesis .
next
  case False
  consider (c) "is_cancelled_result r (tg_aborted tg w)" | (s) "\<not> is_cancelled_result r (tg_aborted tg w)" "to_status r = ''succeeded''"
    | (f) "\<not> is_cancelled_result r (tg_aborted tg w)" "to_status r = ''failed''"
    using status False by auto
  then show ?thesis
  proof cases
    case c
    with run False have "act_seq (on_store (co_append (tg_ops tg) (effect_event tg rq policy key (n + 1) ''tool.effect.cancelled'' []
          [(''result'', serialize_result r)]))) (act_return r) (w, st) = (Inr x, (w', st'))"
      by (simp add: settle_effect_def)
    from store_append_run [OF ops ok this] long status False show ?thesis by (simp add: act_return_def settled_as_def) blast
  next
    case s
    with run False have "act_seq (on_store (co_append (tg_ops tg) (effect_event tg rq policy key (n + 1) ''tool.effect.succeeded'' []
          [(''result'', serialize_result r)]))) (act_return r) (w, st) = (Inr x, (w', st'))"
      by (simp add: settle_effect_def)
    from store_append_run [OF ops ok this] long s show ?thesis by (simp add: act_return_def settled_as_def) blast
  next
    case f
    with run False have "act_seq (on_store (co_append (tg_ops tg) (effect_event tg rq policy key (n + 1) ''tool.effect.failed'' []
          [(''result'', serialize_failed r)]))) (act_return r) (w, st) = (Inr x, (w', st'))"
      by (simp add: settle_effect_def)
    from store_append_run [OF ops ok this] long f show ?thesis by (simp add: act_return_def settled_as_def) blast
  qed
qed

text \<open>Reading back what was written. A failure keeps its reason and nothing else.\<close>

lemma deserialize_serialize:
  assumes "is_json (serialize_result r)" "to_status r \<in> {''succeeded'', ''failed'', ''unknown''}"
  shows "deserialize_result (serialize_result r) = Some r"
proof -
  have "to_output r \<noteq> Some JUndef" using assms(1) by (auto simp: serialize_result_def opt_field_def)
  then have "output_field ([(''status'', JStr (to_status r))] @ opt_field ''output'' (\<lambda>v. v) (to_output r)) = to_output r"
    by (cases "to_output r") (auto simp: output_field_def opt_field_def)
  then show ?thesis using assms(2) by (cases r) (auto simp: deserialize_result_def serialize_result_def)
qed

definition only_reason :: "tool_result \<Rightarrow> tool_result" where
  "only_reason r = \<lparr>to_status = ''failed'', to_output = map_option (\<lambda>m. JObj [(''reason'', JStr m)]) (result_reason r)\<rparr>"

lemma deserialize_failed_serialize: "deserialize_failed (serialize_failed r) = Some (only_reason r)"
  by (cases "result_reason r")
    (auto simp: deserialize_failed_def serialize_failed_def only_reason_def string_field_def opt_field_def)

text \<open>What a replay gives for a result: the result; of a failure possibly its status and reason only.\<close>

definition replays :: "tool_result \<Rightarrow> tool_result \<Rightarrow> bool" where
  "replays r r' \<longleftrightarrow> r' = r \<or> to_status r = ''failed'' \<and> r' = only_reason r"

lemma replays_refl [simp]: "replays r r"
  by (simp add: replays_def)

lemma recorded_settled:
  assumes none: "recorded_result rq policy key es = None" and key: "rq_effect rq = Some key"
    and start: "\<And>e. e \<in> set ss \<Longrightarrow> starts_effect e" and fin: "settled_as tg rq policy key n e x" "event_ok h e"
  shows "\<exists>r. recorded_result rq policy key (es @ ss @ [e]) = Some r \<and> replays x r"
proof -
  have other: "\<not> is_effect rq policy ty e" if "e \<in> set ss" "ty \<noteq> ''tool.effect.started''" for e ty
    using start [OF that(1)] that(2) by (auto simp: is_effect_def)
  let ?A = "set es \<union> set ss"
  have none': "\<forall>e \<in> ?A. \<not> is_succeeded_effect rq policy e" "\<forall>e \<in> ?A. \<not> is_effect rq policy ''tool.effect.failed'' e"
      "\<forall>e \<in> ?A. \<not> is_effect rq policy ''tool.effect.cancelled'' e" "\<forall>e \<in> ?A. \<not> is_effect rq policy ''tool.effect.unknown'' e"
    using none other by (auto simp: recorded_result_def is_succeeded_effect_def find_None_iff list_ex_iff split: option.splits if_splits)
  have f: "find P (es @ ss @ [e]) = (if P e then Some e else None)" if "\<forall>e \<in> ?A. \<not> P e" for P
    using find_append_none [of "es @ ss" P "[e]"] that by auto
  have ex: "list_ex P (es @ ss @ [e]) = P e" if "\<forall>e \<in> ?A. \<not> P e" for P
    using that by (auto simp: list_ex_iff)
  note shape = recorded_result_def f [OF none'(1)] f [OF none'(2)] f [OF none'(3)] ex [OF none'(4)]
  have json: "is_json (ev_payload e)" using fin(2) by (simp add: event_ok_def)
  note isE = is_effect_event [OF _ _ key, of "[]"]
  from fin(1) show ?thesis unfolding settled_as_def
  proof (elim disjE conjE)
    assume e: "e = effect_event tg rq policy key n ''tool.effect.unknown'' [] [(''reason'', JStr ''effect_outcome_unknown'')]"
      and x: "x = unknown_effect_result key"
    have ty: "is_effect rq policy ty e \<longleftrightarrow> ty = ''tool.effect.unknown''" for ty unfolding e by (rule isE) (simp_all add: extra_keys_def)
    show ?thesis by (simp add: shape ty is_succeeded_effect_def x)
  next
    assume e: "e = effect_event tg rq policy key n ''tool.effect.cancelled'' [] [(''result'', serialize_result x)]"
      and x: "to_status x \<in> {''succeeded'', ''failed''}"
    then have field: "payload_field e ''result'' = serialize_result x" and "is_json (serialize_result x)"
      using json by (auto simp: payload_field_def effect_event_def tool_event_def scope_fields_def js_field_append)
    from this(2) deserialize_serialize [of x] x field have "deserialize_result (payload_field e ''result'') = Some x" by auto
    moreover have ty: "is_effect rq policy ty e \<longleftrightarrow> ty = ''tool.effect.cancelled''" for ty unfolding e by (rule isE) (simp_all add: extra_keys_def)
    ultimately show ?thesis by (simp add: shape ty is_succeeded_effect_def)
  next
    assume e: "e = effect_event tg rq policy key n ''tool.effect.succeeded'' [] [(''result'', serialize_result x)]"
      and x: "to_status x = ''succeeded''"
    then have field: "payload_field e ''result'' = serialize_result x" and j: "is_json (serialize_result x)"
      using json by (auto simp: payload_field_def effect_event_def tool_event_def scope_fields_def js_field_append)
    have "Some (x\<lparr>to_output := output_field (record_or_empty (serialize_result x))\<rparr>) = Some x"
      using deserialize_serialize [OF j] x by (cases x) (auto simp: deserialize_result_def serialize_result_def)
    then have "output_field (record_or_empty (serialize_result x)) = to_output x"
      by (metis option.inject tool_result.select_convs(2) tool_result.surjective tool_result.update_convs(2))
    moreover have "same_field (serialize_result x) ''status'' (JStr ''succeeded'')"
      using x by (simp add: serialize_result_def same_field_def)
    moreover have ty: "is_effect rq policy ty e \<longleftrightarrow> ty = ''tool.effect.succeeded''" for ty unfolding e by (rule isE) (simp_all add: extra_keys_def)
    ultimately show ?thesis using x by (simp add: shape ty is_succeeded_effect_def field replays_def)
  next
    assume e: "e = effect_event tg rq policy key n ''tool.effect.failed'' [] [(''result'', serialize_failed x)]"
      and x: "to_status x = ''failed''"
    then have "payload_field e ''result'' = serialize_failed x"
      by (auto simp: payload_field_def effect_event_def tool_event_def scope_fields_def js_field_append)
    moreover have ty: "is_effect rq policy ty e \<longleftrightarrow> ty = ''tool.effect.failed''" for ty unfolding e by (rule isE) (simp_all add: extra_keys_def)
    ultimately show ?thesis using deserialize_failed_serialize [of x] x by (auto simp: shape ty is_succeeded_effect_def replays_def)
  qed
qed

lemma next_sequence_run:
  assumes "log_ok h st"
  shows "tool_next_sequence (stream_events h s i st) = int (length (stream_events h s i st))"
  by (rule tool_next_sequence_count) (use log_ok_nth(4) [OF assms] in blast)

text \<open>The ledger does not tell an event from one the store takes for the same.\<close>

lemma matches_attribution_canon: "matches_attribution (canon p) a b c = matches_attribution p a b c"
  by (cases p) (auto simp: matches_attribution_def js_field_canon opt_js_def canon_atom split: option.splits)

lemma is_effect_same:
  assumes "same_event e e'" "ev_scope e = ev_scope e'"
  shows "is_effect rq policy ty e = is_effect rq policy ty e'"
proof -
  have p: "canon (ev_payload e) = canon (ev_payload e')" and ty: "ev_type e = ev_type e'"
    using same_event_fields [OF assms(1)] by blast+
  have f: "same_field (ev_payload e) k v = same_field (ev_payload e') k v" if "v = JUndef \<or> (\<exists>x. v = JStr x)" for k v
    using same_field_canon [OF that, of "ev_payload e"] same_field_canon [OF that, of "ev_payload e'"] p by simp
  have "same_field (ev_payload e) k (opt_js v) = same_field (ev_payload e') k (opt_js v)" for k v
    by (rule f) (simp add: opt_js_def split: option.split)
  moreover have "same_field (ev_payload e) k (JStr v) = same_field (ev_payload e') k (JStr v)" for k v
    by (rule f) simp
  moreover have "matches_attribution (ev_payload e) a b c = matches_attribution (ev_payload e') a b c" for a b c
    using matches_attribution_canon p by metis
  ultimately show ?thesis by (simp add: is_effect_def same_origin_def ty assms(2))
qed

lemma orphan_run:
  assumes ops: "tg_ops tg = in_memory h s" and ok: "log_ok h st" and h: "digits_ok h" and key: "rq_effect rq = Some key"
    and run: "append_unknown tg rq policy key n (w, st) = (Inr x, (w', st'))"
    and none: "recorded_result rq policy key (stream_events h s (effect_stream key) st) = None"
  shows "\<exists>e. log_ok h st' \<and> event_ok h e \<and> stream_events h s (effect_stream key) st' = stream_events h s (effect_stream key) st @ [e]
    \<and> settled_as tg rq policy key (n + 1) e x"
proof -
  let ?e = "effect_event tg rq policy key (n + 1) ''tool.effect.unknown'' [] [(''reason'', JStr ''effect_outcome_unknown'')]"
  obtain y st1 where y: "append_event h s ?e st = (y, st1)" by fastforce
  with run ops have r: "y = Inr ()" "x = unknown_effect_result key" "st' = st1"
    by (cases y; simp add: append_unknown_def act_seq_def act_bind_def act_return_def on_store_def in_memory_def)+
  note a = y [unfolded r(1) r(3) [symmetric]]
  from append_event_cases [OF a] show ?thesis
  proof (elim disjE conjE)
    assume st': "st' = st"
    obtain e' where e': "e' \<in> set (stream_events h s (effect_stream key) st)" "same_event e' ?e"
      using append_stores [OF h ok a] st' by auto
    from a ok have "ev_scope ?e = s"
      by (auto simp: append_event_def act_bind_def act_lift_def clone_event_iff Let_def split: option.splits if_splits sum.splits)
    moreover have "ev_scope e' = s" using e'(1) log_ok_nth(2) [OF ok] by (auto simp: in_set_conv_nth)
    moreover have "is_effect rq policy ''tool.effect.unknown'' ?e" by (subst is_effect_event) (simp_all add: key extra_keys_def)
    ultimately have "is_effect rq policy ''tool.effect.unknown'' e'" using is_effect_same [OF e'(2)] by simp
    with e'(1) none have False by (auto simp: recorded_result_def list_ex_iff split: option.splits if_splits)
    then show ?thesis ..
  next
    assume "st' = push_event h s ?e st" "event_ok h ?e"
    with append_event_log_ok [OF ok a] r(2) show ?thesis by (intro exI [of _ ?e]) (simp add: settled_as_def)
  qed
qed

text \<open>A call for an effect, and the same call again on the store it left.\<close>

lemma effect_again:
  assumes ops: "tg_ops tg = in_memory h s" and ok: "log_ok h st" and h: "digits_ok h"
    and run: "execute_effect h tg rq policy (w, st) = (Inr x, (w', st'))"
    and status: "fst (tg_sandbox tg rq w) = None \<or> to_status (the (fst (tg_sandbox tg rq w))) \<in> {''succeeded'', ''failed'', ''unknown''}"
  shows "\<exists>x'. replays x x' \<and> (\<forall>tg2 v. tg_ops tg2 = in_memory h s \<longrightarrow> execute_effect h tg2 rq policy (v, st') = (Inr x', (v, st')))"
proof (cases "rq_effect rq")
  case None
  with run show ?thesis by (intro exI [of _ x]) (simp add: execute_effect_def act_return_def)
next
  case (Some key)
  let ?es = "stream_events h s (effect_stream key) st" and ?hash = "effect_intent_hash h rq policy"
  let ?clash = "\<lambda>e. starts_effect e \<and> \<not> matches_effect_intent rq policy ?hash e"
  let ?start = "effect_event tg rq policy key (tool_next_sequence ?es) ''tool.effect.started'' [(''intentHash'', JStr ?hash)] []"
  note first = run [unfolded execute_run [OF ok ops Some] Let_def]
  have last: "?thesis" if ok': "log_ok h st'" and es': "stream_events h s (effect_stream key) st' = ?es @ ss @ [e]"
      and e: "settled_as tg rq policy key n e x" "event_ok h e" and ss: "\<And>e. e \<in> set ss \<Longrightarrow> starts_effect e \<and> \<not> ?clash e"
      and none: "recorded_result rq policy key ?es = None" "\<not> list_ex ?clash ?es" for ss e n
  proof -
    have "\<not> starts_effect e" using e(1) by (auto simp: settled_as_def)
    then have "list_ex ?clash (?es @ ss @ [e]) = False" using none(2) ss by (auto simp: list_ex_iff)
    moreover obtain x' where "recorded_result rq policy key (?es @ ss @ [e]) = Some x'" "replays x x'"
      using recorded_settled [OF none(1) Some _ e] ss by blast
    ultimately show ?thesis
      by (intro exI [of _ x'] conjI allI impI) (assumption, simp only: execute_run [OF ok' _ Some] es' Let_def if_False option.case)
  qed
  show ?thesis
  proof (cases "list_ex ?clash ?es")
    case True
    with first have "x = failed_with ''effect_key_conflict''" "st' = st" by simp_all
    with True show ?thesis by (intro exI [of _ x]) (simp add: execute_run [OF ok _ Some] Let_def)
  next
    case clear: False
    show ?thesis
    proof (cases "recorded_result rq policy key ?es")
      case (Some r)
      with first clear have "x = r" "st' = st" by simp_all
      with Some clear show ?thesis by (intro exI [of _ x]) (simp add: execute_run [OF ok _ \<open>rq_effect rq = Some key\<close>] Let_def)
    next
      case none: None
      show ?thesis
      proof (cases "find (is_effect rq policy ''tool.effect.started'') ?es")
        case orphan: (Some e)
        then have "e \<in> set ?es" by (auto simp: find_Some_iff in_set_conv_nth)
        from first clear none orphan have u: "append_unknown tg rq policy key (ev_seq e) (w, st) = (Inr x, (w', st'))" by simp
        have "\<exists>e'. log_ok h st' \<and> event_ok h e' \<and> stream_events h s (effect_stream key) st' = ?es @ [e']
            \<and> settled_as tg rq policy key (ev_seq e + 1) e' x"
          by (rule orphan_run [OF ops ok h \<open>rq_effect rq = Some key\<close> u none])
        with last [of "[]"] clear none show ?thesis by auto
      next
        case fresh: None
        from first clear none fresh have run': "act_seq (on_store (co_append (tg_ops tg) ?start))
            (dispatch_effect tg rq policy key (tool_next_sequence ?es)) (w, st) = (Inr x, (w', st'))" by simp
        have n: "tool_next_sequence ?es = int (length ?es)" by (rule next_sequence_run [OF ok])
        obtain st1 where st1: "log_ok h st1" "event_ok h ?start" "stream_events h s (effect_stream key) st1 = ?es @ [?start]"
            "dispatch_effect tg rq policy key (tool_next_sequence ?es) (w, st1) = (Inr x, (w', st'))"
          using store_append_run [OF ops ok h run'] n by auto
        have long: "int (length (stream_events h s (effect_stream key) st1)) \<le> tool_next_sequence ?es + 1" by (simp add: st1(3) n)
        have "\<exists>e. log_ok h st' \<and> event_ok h e \<and> stream_events h s (effect_stream key) st' = stream_events h s (effect_stream key) st1 @ [e]
            \<and> settled_as tg rq policy key (tool_next_sequence ?es + 1) e x"
        proof (cases "fst (tg_sandbox tg rq w)")
          case None
          with st1(4) have "append_unknown tg rq policy key (tool_next_sequence ?es) (snd (tg_sandbox tg rq w), st1) = (Inr x, (w', st'))"
            by (cases "tg_sandbox tg rq w") (simp add: dispatch_effect_def)
          from unknown_run [OF ops st1(1) h this long] show ?thesis .
        next
          case (Some r)
          with st1(4) have "settle_effect tg rq policy key (tool_next_sequence ?es) r (snd (tg_sandbox tg rq w), st1) = (Inr x, (w', st'))"
            by (cases "tg_sandbox tg rq w") (simp add: dispatch_effect_def)
          from settle_run [OF ops st1(1) h this _ long] status Some show ?thesis by simp
        qed
        moreover have "matches_effect_intent rq policy ?hash ?start"
          unfolding matches_effect_intent_def using \<open>rq_effect rq = Some key\<close>
          by (subst is_effect_event) (auto simp: extra_keys_def same_field_def effect_event_def tool_event_def scope_fields_def)
        ultimately show ?thesis using last [of "[?start]"] st1(3) clear none by auto
      qed
    qed
  qed
qed

section \<open>Approvals\<close>

lemma find_append_some: "find P xs = Some x \<Longrightarrow> find P (xs @ ys) = Some x"
  by (induction xs) (auto split: if_splits)

definition answer_event :: "('w, 's) tool_gateway \<Rightarrow> approval_answer \<Rightarrow> canonical_event \<Rightarrow> int \<Rightarrow> canonical_event" where
  "answer_event tg an request n =
     tool_event (tg_scope tg) (tg_stamp tg ''tool.approval.answered'') (an_run an) n ''tool.approval.answered''
       (scope_fields (tg_scope tg) @ [(''runId'', JStr (an_run an)), (''effectKey'', JStr (an_effect an)),
          (''approvalId'', JStr (an_approval an)), (''actorId'', JStr (an_actor an)), (''decision'', JStr (an_decision an))]
        @ opt_field ''parentRunId'' JStr (first_some (an_parent_run an) (string_field (ev_payload request) ''parentRunId''))
        @ opt_field ''parentEventId'' JStr (first_some (an_parent_event an) (string_field (ev_payload request) ''parentEventId''))
        @ opt_field ''laneId'' JStr (first_some (an_lane an) (string_field (ev_payload request) ''laneId'')))"

text \<open>The answer is for a request that is like the answer's.\<close>

definition answers :: "approval_answer \<Rightarrow> tool_request \<Rightarrow> string \<Rightarrow> bool" where
  "answers an rq approval \<longleftrightarrow> an_scope an = rq_scope rq \<and> an_run an = rq_run rq \<and> rq_effect rq = Some (an_effect an)
     \<and> an_approval an = approval \<and> an_parent_run an = rq_parent_run rq \<and> an_parent_event an = rq_parent_event rq
     \<and> an_lane an = rq_lane rq \<and> an_decision an \<in> {''approved'', ''denied''}"

lemma answer_decides:
  assumes "answers an rq approval" "an_scope an = tg_scope tg"
  shows "approval_decision rq approval (answer_event tg an request n) = Some (an_decision an)"
proof -
  show ?thesis using assms
    unfolding answers_def approval_decision_def answer_event_def tool_event_def
    by (auto simp: matches_scope_def same_origin_def same_field_def scope_fields_def matches_provided_def opt_js_def
        opt_field_def first_some_def split: option.splits)
qed

lemma answer_run:
  assumes "log_ok h st" "digits_ok h" "tg_ops tg = in_memory h s" "answer_approval tg an (w, st) = (Inr (), (w', st'))"
  obtains request where "an_scope an = tg_scope tg" "find (\<lambda>e. is_request_for_answer e an) (stream_events h s (an_run an) st) = Some request"
    "w' = w" "log_ok h st'" "stream_events h s (an_run an) st'
      = stream_events h s (an_run an) st @ [answer_event tg an request (int (length (stream_events h s (an_run an) st)))]"
proof -
  let ?es = "stream_events h s (an_run an) st"
  have scope: "an_scope an = tg_scope tg" using assms(4) by (auto simp: answer_approval_def act_throw_def split: if_splits)
  with assms(4) read_run [OF assms(1,3)] obtain request where r: "find (\<lambda>e. is_request_for_answer e an) ?es = Some request"
    and a: "on_store (co_append (tg_ops tg) (answer_event tg an request (tool_next_sequence ?es))) (w, st) = (Inr (), (w', st'))"
    by (auto simp: answer_approval_def append_approval_answer_def act_bind_run act_throw_def answer_event_def split: option.splits)
  from a assms(3) have "w' = w" "co_append (in_memory h s) (answer_event tg an request (tool_next_sequence ?es)) st = (Inr (), st')"
    by (auto simp: on_store_def split: prod.splits)
  moreover have "ev_stream (answer_event tg an request n) = an_run an" "ev_seq (answer_event tg an request n) = n" for n
    by (simp_all add: answer_event_def tool_event_def)
  ultimately have "log_ok h st' \<and> stream_events h s (an_run an) st' = ?es @ [answer_event tg an request (int (length ?es))]"
    using append_at_end [OF assms(1) _ _ assms(2), of s "answer_event tg an request (int (length ?es))" st']
    by (simp add: next_sequence_run [OF assms(1)])
  with \<open>w' = w\<close> scope r that show thesis by blast
qed

end
