(* ===== verification/ToolExamples.thy ===== *)
theory ToolExamples
  imports ToolLedger
begin

text \<open>
  A gateway with one tool whose sandbox counts, and its runs on the concrete host: a call for an
  effect, the same call by another gateway that loses the race for the ledger, a call without an
  effect key with its three events, and an approval that is asked for and answered.
\<close>

lemma append_event_push:
  "event_ok h e \<Longrightarrow> ev_scope e = s \<Longrightarrow> stored_event h s (ev_id e) st = None
    \<Longrightarrow> ev_seq e = int (length (stream_events h s (ev_stream e) st)) \<Longrightarrow> \<not> sealed (stream_events h s (ev_stream e) st)
    \<Longrightarrow> append_event h s e st = (Inr (), push_event h s e st)"
  by (simp add: append_event_def act_bind_def act_lift_def clone_event_run Let_def sealed_def list_ex_iff)

lemma in_memory_append: "co_append (in_memory h s) = append_event h s"
  by (simp add: in_memory_def)

lemma in_memory_read: "co_read (in_memory h s) = read_events h s"
  by (simp add: in_memory_def)

lemma empty_log [simp]: "stream_events h s i empty_store = []" "stored_event h s i empty_store = None"
  by (simp_all add: stream_events_def stored_event_def empty_store_def)

definition demo_request :: "string option \<Rightarrow> tool_request" where
  "demo_request key = \<lparr>rq_scope = demo_scope, rq_run = ''r'', rq_worker = ''x'', rq_name = ''t'', rq_input = JNull, rq_effect = key,
     rq_call = ''k'', rq_parent_run = None, rq_parent_event = None, rq_lane = None\<rparr>"

definition demo_tools :: "string \<Rightarrow> 's channel_ops \<Rightarrow> (nat, 's) tool_gateway" where
  "demo_tools mark ops = \<lparr>tg_scope = demo_scope, tg_worker = ''x'',
     tg_catalog = [\<lparr>td_name = ''t'', td_schema = Inr, td_replay = Some ''safe''\<rparr>], tg_policy = Some (\<lambda>_. Some ''allow''),
     tg_sandbox = (\<lambda>_ n. (Some \<lparr>to_status = ''succeeded'', to_output = None\<rparr>, Suc n)), tg_aborted = (\<lambda>_. False),
     tg_ops = ops, tg_stamp = (\<lambda>ty. (mark @ ty, ''7''))\<rparr>"

definition demo_effect :: "string \<Rightarrow> int \<Rightarrow> string \<Rightarrow> (string \<times> js) list \<Rightarrow> (string \<times> js) list \<Rightarrow> canonical_event" where
  "demo_effect mark n ty before after = effect_event (demo_tools mark (in_memory demo_host demo_scope)) (demo_request (Some ''k'')) ''safe'' ''k'' n ty before after"

lemma demo_effect [simp]: "effect_event (demo_tools mark ops) (demo_request (Some ''k'')) ''safe'' ''k'' n ty before after = demo_effect mark n ty before after"
  by (simp add: demo_effect_def effect_event_def demo_tools_def demo_request_def)

lemma demo_effect_parts [simp]:
  "ev_id (demo_effect mark n ty before after) = mark @ ty" "ev_scope (demo_effect mark n ty before after) = demo_scope"
  "ev_stream (demo_effect mark n ty before after) = effect_stream ''k''" "ev_seq (demo_effect mark n ty before after) = n"
  "ev_type (demo_effect mark n ty before after) = ty"
  by (simp_all add: demo_effect_def effect_event_def tool_event_def demo_tools_def demo_request_def)

lemma demo_effect_ok:
  "\<not> is_blank (mark @ ty) \<Longrightarrow> \<not> is_blank ty \<Longrightarrow> 0 \<le> n \<Longrightarrow> n \<le> max_safe
    \<Longrightarrow> \<forall>kv \<in> set before \<union> set after. is_json (snd kv) \<Longrightarrow> event_ok demo_host (demo_effect mark n ty before after)"
  by (simp add: event_ok_def) (auto simp: demo_effect_def effect_event_def tool_event_def demo_tools_def demo_request_def effect_stream_def
      scope_ok_def demo_scope_def is_blank_iff is_space_def demo_host_def parse_millis_def is_digit_def max_safe_def scope_fields_def
      run_attribution_def opt_field_def)

definition demo_begin :: "string \<Rightarrow> canonical_event" where
  "demo_begin mark = demo_effect mark 0 ''tool.effect.started''
     [(''intentHash'', JStr (effect_intent_hash demo_host (demo_request (Some ''k'')) ''safe''))] []"

definition demo_end :: "string \<Rightarrow> canonical_event" where
  "demo_end mark = demo_effect mark 1 ''tool.effect.succeeded'' [] [(''result'', JObj [(''status'', JStr ''succeeded'')])]"

definition demo_ledger :: "string \<Rightarrow> store" where
  "demo_ledger mark = push_event demo_host demo_scope (demo_end mark) (push_event demo_host demo_scope (demo_begin mark) empty_store)"

lemma demo_ledger_events_ok: "event_ok demo_host (demo_begin ''a'')" "event_ok demo_host (demo_end ''a'')" "event_ok demo_host (demo_begin ''b'')"
  unfolding demo_begin_def demo_end_def
  by (rule demo_effect_ok; simp add: is_blank_iff is_space_def max_safe_def)+

lemma demo_ledger_appends:
  "append_event demo_host demo_scope (demo_begin ''a'') empty_store = (Inr (), push_event demo_host demo_scope (demo_begin ''a'') empty_store)" (is ?first)
  "append_event demo_host demo_scope (demo_end ''a'') (push_event demo_host demo_scope (demo_begin ''a'') empty_store)
     = (Inr (), demo_ledger ''a'')" (is ?second)
proof -
  show ?first by (rule append_event_push [OF demo_ledger_events_ok(1)]) (simp_all add: demo_begin_def sealed_def)
  show ?second unfolding demo_ledger_def
    by (rule append_event_push [OF demo_ledger_events_ok(2)])
      (simp_all add: demo_begin_def demo_end_def sealed_def is_terminal_event_def final_event_types_def)
qed

lemma demo_run_on:
  assumes "co_read ops (effect_stream ''k'') None s0 = (Inr [], s0)" "co_append ops (demo_begin ''a'') s0 = (Inr (), s1)"
    "co_append ops (demo_end ''a'') s1 = (Inr (), s2)"
  shows "execute_effect demo_host (demo_tools ''a'' ops) (demo_request (Some ''k'')) ''safe'' (0, s0)
     = (Inr \<lparr>to_status = ''succeeded'', to_output = None\<rparr>, (1, s2))"
proof -
  let ?tg = "demo_tools ''a'' ops" and ?rq = "demo_request (Some ''k'')" and ?r = "\<lparr>to_status = ''succeeded'', to_output = None\<rparr>"
  have ops: "tg_ops ?tg = ops" by (simp add: demo_tools_def)
  have end_event: "effect_event ?tg ?rq ''safe'' ''k'' 1 ''tool.effect.succeeded'' [] [(''result'', serialize_result ?r)] = demo_end ''a''"
    by (simp add: demo_end_def serialize_result_def opt_field_def)
  have settle: "settle_effect ?tg ?rq ''safe'' ''k'' 0 ?r (1, s1) = (Inr ?r, (1, s2))"
    using end_event assms(3)
    by (simp add: settle_effect_def is_cancelled_result_def result_reason_def act_seq_def act_bind_def act_return_def on_store_def ops)
      (simp add: demo_tools_def act_return_def)
  have "tg_sandbox ?tg ?rq 0 = (Some ?r, 1)" and "rq_effect ?rq = Some ''k''" by (simp_all add: demo_tools_def demo_request_def)
  then show ?thesis
    using settle assms(1,2)
    by (simp add: execute_effect_def read_stream_events_def act_bind_def act_seq_def Let_def recorded_result_def tool_next_sequence_def
        demo_begin_def [symmetric] on_store_def dispatch_effect_def ops)
qed

lemmas demo_read = read_events_run [OF log_ok_empty]

lemma demo_shown:
  "co_append (in_memory demo_host demo_scope) (demo_end ''a'') (push_event demo_host demo_scope (demo_begin ''a'') empty_store)
     = (Inr (), demo_ledger ''a'')"
  "co_append (interleaved (in_memory demo_host demo_scope)) (demo_end ''a'') (push_event demo_host demo_scope (demo_begin ''a'') empty_store, [])
     = (Inr (), (demo_ledger ''a'', []))"
  by (simp_all add: interleaved_simps disturb_def in_memory_append demo_ledger_appends)

lemma demo_run:
  "execute_effect demo_host (demo_tools ''a'' (in_memory demo_host demo_scope)) (demo_request (Some ''k'')) ''safe'' (0, empty_store)
     = (Inr \<lparr>to_status = ''succeeded'', to_output = None\<rparr>, (1, demo_ledger ''a''))"
  by (rule demo_run_on [OF _ _ demo_shown(1)]) (simp_all add: in_memory_def demo_read demo_ledger_appends)

lemma demo_shared_run:
  "execute_effect demo_host (demo_tools ''a'' (interleaved (in_memory demo_host demo_scope))) (demo_request (Some ''k'')) ''safe''
       (0, (empty_store, []))
     = (Inr \<lparr>to_status = ''succeeded'', to_output = None\<rparr>, (1, (demo_ledger ''a'', [])))"
  by (rule demo_run_on [OF _ _ demo_shown(2)]) (simp_all add: interleaved_simps disturb_def in_memory_def demo_read demo_ledger_appends)

text \<open>Another gateway reads the empty ledger, and then finds that the first one has written it.\<close>

definition demo_race :: "(scope \<times> store_call) list list" where
  "demo_race = [[], [(demo_scope, CallAppend (demo_begin ''a'')), (demo_scope, CallAppend (demo_end ''a''))]]"

lemma demo_other_run:
  "execute_effect demo_host (demo_tools ''b'' (interleaved (in_memory demo_host demo_scope))) (demo_request (Some ''k'')) ''safe''
       (5, (empty_store, map (others demo_host) demo_race))
     = (Inl EventSequenceConflictError, (5, (demo_ledger ''a'', [])))"
proof -
  let ?tg = "demo_tools ''b'' (interleaved (in_memory demo_host demo_scope))"
  have ops: "tg_ops ?tg = interleaved (in_memory demo_host demo_scope)" by (simp add: demo_tools_def)
  have room: "array_room demo_host empty_store" "array_room demo_host (push_event demo_host demo_scope (demo_begin ''a'') empty_store)"
    by (simp_all add: array_room_def)
  have others: "others demo_host [(demo_scope, CallAppend (demo_begin ''a'')), (demo_scope, CallAppend (demo_end ''a''))] empty_store = demo_ledger ''a''"
    by (simp add: demo_ledger_appends room)
  have late: "append_event demo_host demo_scope (demo_begin ''b'') (demo_ledger ''a'') = (Inl EventSequenceConflictError, demo_ledger ''a'')"
    using demo_ledger_events_ok(3)
    by (simp add: append_event_def act_bind_def act_lift_def clone_event_run demo_ledger_def Let_def)
      (simp add: demo_begin_def demo_end_def is_terminal_event_def final_event_types_def)
  have "rq_effect (demo_request (Some ''k'')) = Some ''k''" by (simp add: demo_request_def)
  then show ?thesis using late others
    by (simp add: execute_effect_def read_stream_events_def act_bind_def act_seq_def Let_def recorded_result_def tool_next_sequence_def
        demo_begin_def [symmetric] on_store_def ops interleaved_simps disturb_def demo_race_def in_memory_append in_memory_read demo_read
        demo_ledger_appends room)
qed

definition demo_call :: "int \<Rightarrow> string \<Rightarrow> (string \<times> js) list \<Rightarrow> canonical_event" where
  "demo_call n ty ds = lifecycle_event demo_host ''7'' (shown (demo_tools ''a'' (in_memory demo_host demo_scope)) (demo_request None)) n ty ds"

lemma lifecycle_event_id_inj: "digits_ok h \<Longrightarrow> lifecycle_event_id h rq n = lifecycle_event_id h rq m \<longleftrightarrow> n = m"
  using number_string_inj [of h "of_int n" "of_int m"] by (auto simp: lifecycle_event_id_def printable_def)

lemma demo_call_parts [simp]:
  "ev_id (demo_call n ty ds) = lifecycle_event_id demo_host (shown (demo_tools ''a'' (in_memory demo_host demo_scope)) (demo_request None)) n"
  "ev_scope (demo_call n ty ds) = demo_scope" "ev_stream (demo_call n ty ds) = ''tool:r:k''" "ev_seq (demo_call n ty ds) = n"
  "ev_type (demo_call n ty ds) = ty"
  by (simp_all add: demo_call_def lifecycle_event_def lifecycle_stream_def shown_def demo_tools_def demo_request_def)

lemma demo_call [simp]:
  "lifecycle_event demo_host ''7'' (shown (demo_tools ''a'' ops) (demo_request None)) n ty ds = demo_call n ty ds"
  by (simp add: demo_call_def shown_def demo_tools_def)

lemma demo_call_ok:
  "\<not> is_blank ty \<Longrightarrow> 0 \<le> n \<Longrightarrow> n \<le> max_safe \<Longrightarrow> \<forall>kv \<in> set ds. is_json (snd kv) \<Longrightarrow> event_ok demo_host (demo_call n ty ds)"
  by (simp add: event_ok_def) (auto simp: demo_call_def lifecycle_event_def lifecycle_event_id_def shown_def demo_tools_def demo_request_def
      scope_ok_def demo_scope_def is_blank_iff is_space_def demo_host_def parse_millis_def is_digit_def max_safe_def
      run_attribution_def opt_field_def)

text \<open>The store after each event of the demonstration call.\<close>

definition demo_calls :: "nat \<Rightarrow> store" where
  "demo_calls n = foldl (\<lambda>st e. push_event demo_host demo_scope e st) empty_store (take n
     [demo_call 0 ''tool.requested'' [], demo_call 1 ''tool.policy.decided'' [(''decision'', JStr ''allow'')],
      demo_call 2 ''tool.result'' [(''status'', JStr ''succeeded'')]])"

lemma demo_calls_simps:
  "demo_calls 0 = empty_store"
  "demo_calls 1 = push_event demo_host demo_scope (demo_call 0 ''tool.requested'' []) (demo_calls 0)"
  "demo_calls 2 = push_event demo_host demo_scope (demo_call 1 ''tool.policy.decided'' [(''decision'', JStr ''allow'')]) (demo_calls 1)"
  "demo_calls 3 = push_event demo_host demo_scope (demo_call 2 ''tool.result'' [(''status'', JStr ''succeeded'')]) (demo_calls 2)"
  by (simp_all add: demo_calls_def numeral_eq_Suc)

lemma demo_calls_log:
  "stream_events demo_host demo_scope ''tool:r:k'' (demo_calls 0) = []"
  "stream_events demo_host demo_scope ''tool:r:k'' (demo_calls 1) = [demo_call 0 ''tool.requested'' []]"
  "stream_events demo_host demo_scope ''tool:r:k'' (demo_calls 2) = [demo_call 0 ''tool.requested'' [],
     demo_call 1 ''tool.policy.decided'' [(''decision'', JStr ''allow'')]]"
  by (simp_all add: demo_calls_simps del: One_nat_def)

lemma demo_calls_store:
  "store_ok demo_host (demo_calls 0)" "store_ok demo_host (demo_calls 1)" "store_ok demo_host (demo_calls 2)"
proof -
  show zero: "store_ok demo_host (demo_calls 0)"
    using reachable_store_ok [OF total_preorder_demo_host reachable_empty] by (simp add: demo_calls_simps)
  have e: "event_ok demo_host (demo_call 0 ''tool.requested'' [])"
    "event_ok demo_host (demo_call 1 ''tool.policy.decided'' [(''decision'', JStr ''allow'')])"
    by (rule demo_call_ok; simp add: is_blank_iff is_space_def max_safe_def)+
  show one: "store_ok demo_host (demo_calls 1)"
    unfolding demo_calls_simps(2) by (rule store_ok_push [OF zero e(1)]) (simp_all add: demo_calls_simps sealed_def del: One_nat_def)
  show "store_ok demo_host (demo_calls 2)"
    unfolding demo_calls_simps(3) by (rule store_ok_push [OF one e(2)])
      (simp_all add: demo_calls_simps sealed_def is_terminal_event_def final_event_types_def
        lifecycle_event_id_inj [OF digits_ok_demo_host] del: One_nat_def)
qed

lemma demo_calls_appends:
  "append_event demo_host demo_scope (demo_call 0 ''tool.requested'' []) (demo_calls 0) = (Inr (), demo_calls 1)"
  "append_event demo_host demo_scope (demo_call 1 ''tool.policy.decided'' [(''decision'', JStr ''allow'')]) (demo_calls 1) = (Inr (), demo_calls 2)"
  "append_event demo_host demo_scope (demo_call 2 ''tool.result'' [(''status'', JStr ''succeeded'')]) (demo_calls 2) = (Inr (), demo_calls 3)"
proof -
  have e: "event_ok demo_host (demo_call 0 ''tool.requested'' [])"
    "event_ok demo_host (demo_call 1 ''tool.policy.decided'' [(''decision'', JStr ''allow'')])"
    "event_ok demo_host (demo_call 2 ''tool.result'' [(''status'', JStr ''succeeded'')])"
    by (rule demo_call_ok; simp add: is_blank_iff is_space_def max_safe_def)+
  note ids = lifecycle_event_id_inj [OF digits_ok_demo_host]
  show "append_event demo_host demo_scope (demo_call 0 ''tool.requested'' []) (demo_calls 0) = (Inr (), demo_calls 1)"
    unfolding demo_calls_simps(2) by (rule append_event_push [OF e(1)]) (simp_all add: demo_calls_simps sealed_def del: One_nat_def)
  show "append_event demo_host demo_scope (demo_call 1 ''tool.policy.decided'' [(''decision'', JStr ''allow'')]) (demo_calls 1) = (Inr (), demo_calls 2)"
    unfolding demo_calls_simps(3) by (rule append_event_push [OF e(2)])
      (simp_all add: demo_calls_simps sealed_def is_terminal_event_def final_event_types_def ids del: One_nat_def)
  show "append_event demo_host demo_scope (demo_call 2 ''tool.result'' [(''status'', JStr ''succeeded'')]) (demo_calls 2) = (Inr (), demo_calls 3)"
    unfolding demo_calls_simps(4) by (rule append_event_push [OF e(3)])
      (simp_all add: demo_calls_simps sealed_def is_terminal_event_def final_event_types_def ids del: One_nat_def)
qed

lemma demo_call_run:
  "tool_execute demo_host (demo_tools ''a'' (interleaved (in_memory demo_host demo_scope))) (demo_request None) (0, (demo_calls 0, []))
     = (Inr \<lparr>to_status = ''succeeded'', to_output = None\<rparr>, (1, (demo_calls 3, [])))"
proof -
  let ?tg = "demo_tools ''a'' (interleaved (in_memory demo_host demo_scope))"
  have log: "log_ok demo_host (demo_calls 0)" "log_ok demo_host (demo_calls 1)" "log_ok demo_host (demo_calls 2)"
    using demo_calls_store by (simp_all add: store_ok_def)
  have L: "lifecycle_stream (shown ?tg (demo_request None)) = ''tool:r:k''"
    by (simp add: shown_def lifecycle_stream_def demo_request_def)
  have ops: "tg_ops ?tg = interleaved (in_memory demo_host demo_scope)" "snd (tg_stamp ?tg ty) = ''7''" for ty by (simp_all add: demo_tools_def)
  have steps: "append_lifecycle demo_host ?tg (shown ?tg (demo_request None)) ''tool.requested'' [] (w, (demo_calls 0, [])) = (Inr (), (w, (demo_calls 1, [])))"
    "append_lifecycle demo_host ?tg (shown ?tg (demo_request None)) ''tool.policy.decided'' [(''decision'', JStr ''allow'')] (w, (demo_calls 1, []))
       = (Inr (), (w, (demo_calls 2, [])))"
    "append_lifecycle demo_host ?tg (shown ?tg (demo_request None)) ''tool.result'' [(''status'', JStr ''succeeded'')] (w, (demo_calls 2, []))
       = (Inr (), (w, (demo_calls 3, [])))" for w
    by (simp_all add: append_lifecycle_def read_stream_events_def L ops act_bind_def on_store_def interleaved_simps disturb_def in_memory_append
        in_memory_read read_events_run [OF log(1)] read_events_run [OF log(2)] read_events_run [OF log(3)] demo_calls_log
        tool_next_sequence_def demo_calls_appends del: One_nat_def)
  have "screen ?tg (demo_request None) = Inr (\<lparr>td_name = ''t'', td_schema = Inr, td_replay = Some ''safe''\<rparr>, JNull, ''allow'')"
    by (simp add: screen_def demo_tools_def demo_request_def r_bind_def)
  moreover have "run_sandbox ?tg rq (0, st) = (Inr \<lparr>to_status = ''succeeded'', to_output = None\<rparr>, (1, st))" for rq st
    by (simp add: run_sandbox_def demo_tools_def)
  moreover have "rq_call (demo_request None) \<noteq> []" "rq_effect (demo_request None) = None" by (simp_all add: demo_request_def)
  ultimately show ?thesis using steps
    by (simp add: tool_execute_screened decided_path_def terminal_result_def act_seq_def act_bind_def act_return_def result_details_def
        del: One_nat_def)
qed

section \<open>An approval\<close>

definition demo_ask :: canonical_event where
  "demo_ask = tool_event demo_scope (''q'', ''7'') ''r'' 0 ''tool.approval.requested''
     (scope_fields demo_scope @ [(''runId'', JStr ''r''), (''workerProfileId'', JStr ''x''), (''tool'', JStr ''t''),
        (''effectKey'', JStr ''k''), (''approvalId'', JStr ''approval:k'')])"

definition demo_answer :: approval_answer where
  "demo_answer = \<lparr>an_scope = demo_scope, an_run = ''r'', an_effect = ''k'', an_approval = ''approval:k'', an_actor = ''o'',
     an_decision = ''approved'', an_parent_run = None, an_parent_event = None, an_lane = None\<rparr>"

definition demo_asked :: store where
  "demo_asked = push_event demo_host demo_scope demo_ask empty_store"

definition demo_answered :: store where
  "demo_answered = push_event demo_host demo_scope (answer_event (demo_tools ''a'' (in_memory demo_host demo_scope)) demo_answer demo_ask 1) demo_asked"

lemma demo_ask_facts:
  "event_ok demo_host demo_ask"
  "event_ok demo_host (answer_event (demo_tools ''a'' (in_memory demo_host demo_scope)) demo_answer demo_ask 1)"
  by (auto simp: event_ok_def demo_ask_def answer_event_def demo_answer_def demo_tools_def tool_event_def scope_ok_def demo_scope_def
      is_blank_iff is_space_def demo_host_def parse_millis_def is_digit_def max_safe_def scope_fields_def opt_field_def first_some_def
      string_field_def)

lemma demo_asked_store: "store_ok demo_host demo_asked" "stream_events demo_host demo_scope ''r'' demo_asked = [demo_ask]"
proof -
  show "store_ok demo_host demo_asked" unfolding demo_asked_def
    by (rule store_ok_push [OF reachable_store_ok [OF total_preorder_demo_host reachable_empty] demo_ask_facts(1)])
      (simp_all add: demo_ask_def tool_event_def sealed_def)
  show "stream_events demo_host demo_scope ''r'' demo_asked = [demo_ask]" by (simp add: demo_asked_def demo_ask_def tool_event_def)
qed

lemma demo_ask_pending: "approval_for [demo_ask] (demo_request (Some ''k'')) ''approval:k'' = (Some demo_ask, None)"
  by (simp add: approval_for_def is_approval_request_def demo_ask_def demo_request_def tool_event_def matches_scope_def same_origin_def
      same_field_def scope_fields_def matches_attribution_def opt_js_def)

lemma demo_answer_run:
  "answer_approval (demo_tools ''a'' (in_memory demo_host demo_scope)) demo_answer (w, demo_asked) = (Inr (), (w, demo_answered))"
proof -
  let ?tg = "demo_tools ''a'' (in_memory demo_host demo_scope)"
  have log: "log_ok demo_host demo_asked" using demo_asked_store(1) by (simp add: store_ok_def)
  have ops: "tg_ops ?tg = in_memory demo_host demo_scope" "tg_scope ?tg = demo_scope" by (simp_all add: demo_tools_def)
  have an: "an_scope demo_answer = demo_scope" "an_run demo_answer = ''r''" by (simp_all add: demo_answer_def)
  have "is_request_for_answer demo_ask demo_answer"
    by (simp add: is_request_for_answer_def demo_ask_def demo_answer_def tool_event_def matches_scope_def same_origin_def
      same_field_def scope_fields_def matches_provided_def)
  moreover have "tool_next_sequence [demo_ask] = 1" by (simp add: tool_next_sequence_def demo_ask_def tool_event_def)
  moreover have "append_event demo_host demo_scope (answer_event ?tg demo_answer demo_ask 1) demo_asked = (Inr (), demo_answered)"
    unfolding demo_answered_def
    by (rule append_event_push [OF demo_ask_facts(2)])
      (simp_all add: demo_asked_def answer_event_def demo_answer_def demo_ask_def demo_tools_def tool_event_def sealed_def
        is_terminal_event_def final_event_types_def)
  ultimately show ?thesis
    by (simp add: answer_approval_def append_approval_answer_def read_run [OF log ops(1)] act_bind_run an ops(2) demo_asked_store(2)
        answer_event_def on_store_def ops(1) in_memory_append del: One_nat_def)
qed

end
