(* ===== verification/ToolFlights.thy ===== *)
theory ToolFlights
  imports ToolExamples
begin

text \<open>
  Effects in flight (\<open>harness-v2/src/tool-effects.ts\<close>, \<open>executeEffect\<close> and \<open>removeInFlightEffect\<close>):
  the calls of one process that use the same store for the same effect, tool policy and intent share
  one execution, and all of them get its answer. A promise is a flight, known by its position; a
  step relation says in which order calls, answers and removals may come.
\<close>

section \<open>The table\<close>

text \<open>An execution: the gateway and request it was started with, and what its promise settled with.\<close>

record ('w, 's) flight =
  fl_key :: string
  fl_gateway :: "('w, 's) tool_gateway"
  fl_request :: tool_request
  fl_policy :: string
  fl_result :: "(js_error + tool_result) option"

text \<open>
  The table of one store object, every flight so far, the calls with the flight whose promise each of
  them was given (none for a request without an effect key, which is answered at once), and what the
  executions act on.
\<close>

record ('w, 's) flights =
  fs_table :: "nat js_map"
  fs_flights :: "('w, 's) flight list"
  fs_calls :: "(tool_request \<times> string \<times> nat option) list"
  fs_world :: "'w \<times> 's"

definition no_flights :: "'w \<times> 's \<Rightarrow> ('w, 's) flights" where
  "no_flights ws = \<lparr>fs_table = [], fs_flights = [], fs_calls = [], fs_world = ws\<rparr>"

definition execution_key :: "host \<Rightarrow> tool_request \<Rightarrow> string \<Rightarrow> string \<Rightarrow> string" where
  "execution_key h rq policy key = stable_json h (JArr
     [JStr (sc_workspace (rq_scope rq)), JStr (sc_channel (rq_scope rq)), JStr (effect_stream key), JStr policy,
      JStr (effect_intent_hash h rq policy)])"

definition join_flight :: "host \<Rightarrow> ('w, 's) tool_gateway \<Rightarrow> tool_request \<Rightarrow> string \<Rightarrow> ('w, 's) flights \<Rightarrow> ('w, 's) flights" where
  "join_flight h tg rq policy st =
     (case rq_effect rq of
        None \<Rightarrow> st\<lparr>fs_calls := fs_calls st @ [(rq, policy, None)]\<rparr>
      | Some key \<Rightarrow>
        let k = execution_key h rq policy key in
        case map_of (fs_table st) k of
          Some f \<Rightarrow> st\<lparr>fs_calls := fs_calls st @ [(rq, policy, Some f)]\<rparr>
        | None \<Rightarrow> st\<lparr>fs_table := js_set k (length (fs_flights st)) (fs_table st),
            fs_flights := fs_flights st @ [\<lparr>fl_key = k, fl_gateway = tg, fl_request = rq, fl_policy = policy, fl_result = None\<rparr>],
            fs_calls := fs_calls st @ [(rq, policy, Some (length (fs_flights st)))]\<rparr>)"

text \<open>The execution runs to its end and its promise settles.\<close>

definition settle_flight :: "host \<Rightarrow> nat \<Rightarrow> ('w, 's) flights \<Rightarrow> ('w, 's) flights" where
  "settle_flight h f st =
     (let fl = fs_flights st ! f in
      case execute_effect h (fl_gateway fl) (fl_request fl) (fl_policy fl) (fs_world st) of
        (r, ws) \<Rightarrow> st\<lparr>fs_flights := (fs_flights st)[f := fl\<lparr>fl_result := Some r\<rparr>], fs_world := ws\<rparr>)"

definition remove_in_flight_effect :: "nat \<Rightarrow> ('w, 's) flights \<Rightarrow> ('w, 's) flights" where
  "remove_in_flight_effect f st =
     (let k = fl_key (fs_flights st ! f) in
      if map_of (fs_table st) k \<noteq> Some f then st
      else st\<lparr>fs_table := filter (\<lambda>kv. fst kv \<noteq> k) (fs_table st)\<rparr>)"

definition running :: "('w, 's) flights \<Rightarrow> nat \<Rightarrow> bool" where
  "running st f \<longleftrightarrow> f < length (fs_flights st) \<and> fl_result (fs_flights st ! f) = None"

definition settled :: "('w, 's) flights \<Rightarrow> nat \<Rightarrow> bool" where
  "settled st f \<longleftrightarrow> f < length (fs_flights st) \<and> fl_result (fs_flights st ! f) \<noteq> None"

section \<open>Steps\<close>

text \<open>Any gateway over the store may call; others may change the world and the store at any time.\<close>

inductive flight_step :: "host \<Rightarrow> 's channel_ops \<Rightarrow> ('w, 's) flights \<Rightarrow> ('w, 's) flights \<Rightarrow> bool" for h ops where
  call: "tg_ops tg = ops \<Longrightarrow> flight_step h ops st (join_flight h tg rq policy st)"
| answer: "running st f \<Longrightarrow> flight_step h ops st (settle_flight h f st)"
| remove: "settled st f \<Longrightarrow> flight_step h ops st (remove_in_flight_effect f st)"
| others: "flight_step h ops st (st\<lparr>fs_world := ws\<rparr>)"

inductive flight_steps :: "host \<Rightarrow> 's channel_ops \<Rightarrow> ('w, 's) flights \<Rightarrow> ('w, 's) flights \<Rightarrow> bool" for h ops where
  none: "flight_steps h ops st st"
| more: "flight_steps h ops st st' \<Longrightarrow> flight_step h ops st' st'' \<Longrightarrow> flight_steps h ops st st''"

section \<open>The invariant\<close>

definition same_call :: "host \<Rightarrow> tool_request \<Rightarrow> string \<Rightarrow> ('w, 's) flight \<Rightarrow> bool" where
  "same_call h rq policy fl \<longleftrightarrow> (\<exists>key. rq_effect rq = Some key \<and> fl_key fl = execution_key h rq policy key)"

definition flight_ok :: "host \<Rightarrow> ('w, 's) flight \<Rightarrow> bool" where
  "flight_ok h fl \<longleftrightarrow> same_call h (fl_request fl) (fl_policy fl) fl
     \<and> (\<forall>r. fl_result fl = Some r \<longrightarrow> (\<exists>ws ws'. execute_effect h (fl_gateway fl) (fl_request fl) (fl_policy fl) ws = (r, ws')))"

definition call_ok :: "host \<Rightarrow> ('w, 's) flight list \<Rightarrow> tool_request \<times> string \<times> nat option \<Rightarrow> bool" where
  "call_ok h fls c \<longleftrightarrow> (case c of (rq, policy, n) \<Rightarrow>
     (case n of None \<Rightarrow> rq_effect rq = None | Some f \<Rightarrow> f < length fls \<and> same_call h rq policy (fls ! f)))"

definition flights_ok :: "host \<Rightarrow> ('w, 's) flights \<Rightarrow> bool" where
  "flights_ok h st \<longleftrightarrow>
     (\<forall>k f. map_of (fs_table st) k = Some f \<longrightarrow> f < length (fs_flights st) \<and> fl_key (fs_flights st ! f) = k)
     \<and> (\<forall>f. running st f \<longrightarrow> map_of (fs_table st) (fl_key (fs_flights st ! f)) = Some f)
     \<and> list_all (flight_ok h) (fs_flights st) \<and> list_all (call_ok h (fs_flights st)) (fs_calls st)"

lemma same_call_result [simp]: "same_call h rq policy (fl\<lparr>fl_result := r\<rparr>) = same_call h rq policy fl"
  by (simp add: same_call_def)

lemma call_ok_append: "call_ok h fls c \<Longrightarrow> call_ok h (fls @ gls) c"
  by (auto simp: call_ok_def nth_append split: option.splits)

lemma call_ok_update:
  "call_ok h fls c \<Longrightarrow> f < length fls \<Longrightarrow> call_ok h (fls[f := (fls ! f)\<lparr>fl_result := r\<rparr>]) c"
  by (auto simp: call_ok_def nth_list_update split: option.splits)

lemma flights_okI:
  assumes "\<And>k f. map_of (fs_table st) k = Some f \<Longrightarrow> f < length (fs_flights st) \<and> fl_key (fs_flights st ! f) = k"
    and "\<And>f. running st f \<Longrightarrow> map_of (fs_table st) (fl_key (fs_flights st ! f)) = Some f"
    and "list_all (flight_ok h) (fs_flights st)" and "list_all (call_ok h (fs_flights st)) (fs_calls st)"
  shows "flights_ok h st"
  using assms unfolding flights_ok_def by blast

lemma flights_okD:
  assumes "flights_ok h st"
  shows "map_of (fs_table st) k = Some f \<Longrightarrow> f < length (fs_flights st) \<and> fl_key (fs_flights st ! f) = k"
    and "running st f \<Longrightarrow> map_of (fs_table st) (fl_key (fs_flights st ! f)) = Some f"
    and "list_all (flight_ok h) (fs_flights st)" "list_all (call_ok h (fs_flights st)) (fs_calls st)"
  using assms unfolding flights_ok_def by blast+

lemma list_all_mono: "list_all P xs \<Longrightarrow> (\<And>x. P x \<Longrightarrow> Q x) \<Longrightarrow> list_all Q xs"
  by (auto simp: list_all_iff)

lemma join_flight_ok:
  assumes ok: "flights_ok h st" shows "flights_ok h (join_flight h tg rq policy st)"
proof (cases "rq_effect rq")
  case None
  with ok show ?thesis by (simp add: join_flight_def flights_ok_def running_def call_ok_def)
next
  case (Some key)
  let ?k = "execution_key h rq policy key" and ?n = "length (fs_flights st)"
  show ?thesis
  proof (cases "map_of (fs_table st) ?k")
    case (Some f)
    with flights_okD(1) [OF ok Some] ok \<open>rq_effect rq = Some key\<close> show ?thesis
      by (simp add: join_flight_def Let_def flights_ok_def running_def call_ok_def same_call_def)
  next
    case None
    let ?fl = "\<lparr>fl_key = ?k, fl_gateway = tg, fl_request = rq, fl_policy = policy, fl_result = None\<rparr>"
    have fl: "flight_ok h ?fl" "same_call h rq policy ?fl" using \<open>rq_effect rq = Some key\<close> by (simp_all add: flight_ok_def same_call_def)
    have st': "join_flight h tg rq policy st = st\<lparr>fs_table := js_set ?k ?n (fs_table st),
        fs_flights := fs_flights st @ [?fl], fs_calls := fs_calls st @ [(rq, policy, Some ?n)]\<rparr>"
      using None \<open>rq_effect rq = Some key\<close> by (simp add: join_flight_def Let_def)
    show ?thesis unfolding st'
    proof (rule flights_okI, goal_cases)
      case (1 k f)
      then show ?case using flights_okD(1) [OF ok, of k f] by (auto simp: nth_append split: if_splits)
    next
      case (2 f)
      show ?case
      proof (cases "f < ?n")
        case True
        with 2 have "running st f" by (simp add: running_def nth_append)
        from flights_okD(2) [OF ok this] None True show ?thesis by (auto simp: nth_append)
      next
        case False
        with 2 have "f = ?n" by (simp add: running_def)
        then show ?thesis by simp
      qed
    next
      case 3
      then show ?case using flights_okD(3) [OF ok] fl by simp
    next
      case 4
      have "list_all (call_ok h (fs_flights st @ [?fl])) (fs_calls st)" by (rule list_all_mono [OF flights_okD(4) [OF ok] call_ok_append])
      then show ?case using fl by (simp add: call_ok_def)
    qed
  qed
qed

lemma settle_flight_ok:
  assumes ok: "flights_ok h st" and run: "running st f" shows "flights_ok h (settle_flight h f st)"
proof -
  let ?fl = "fs_flights st ! f"
  obtain r ws where ex: "execute_effect h (fl_gateway ?fl) (fl_request ?fl) (fl_policy ?fl) (fs_world st) = (r, ws)" by (rule prod.exhaust)
  have f: "f < length (fs_flights st)" using run by (simp add: running_def)
  have st': "settle_flight h f st = st\<lparr>fs_flights := (fs_flights st)[f := ?fl\<lparr>fl_result := Some r\<rparr>], fs_world := ws\<rparr>"
    by (simp add: settle_flight_def Let_def ex)
  show ?thesis unfolding st'
  proof (rule flights_okI, goal_cases)
    case (1 k g)
    then show ?case using flights_okD(1) [OF ok, of k g] by (auto simp: nth_list_update f)
  next
    case (2 g)
    then have "running st g" and "g \<noteq> f" by (auto simp: running_def nth_list_update f split: if_splits)
    with flights_okD(2) [OF ok] show ?case by simp
  next
    case 3
    have "flight_ok h ?fl" using flights_okD(3) [OF ok] f by (simp add: list_all_length)
    then have "flight_ok h (?fl\<lparr>fl_result := Some r\<rparr>)" using ex by (cases "fs_world st"; cases ws) (auto simp: flight_ok_def)
    then show ?case using flights_okD(3) [OF ok] by (auto simp: list_all_iff dest: set_update_subset_insert [THEN subsetD])
  next
    case 4
    show ?case by (simp, rule list_all_mono [OF flights_okD(4) [OF ok]]) (rule call_ok_update [OF _ f])
  qed
qed

lemma map_of_removed: "map_of (filter (\<lambda>kv. fst kv \<noteq> k) m) k' = (if k' = k then None else map_of m k')"
  by (induction m) auto

lemma remove_flight_ok:
  assumes ok: "flights_ok h st" and over: "settled st f" shows "flights_ok h (remove_in_flight_effect f st)"
proof (cases "map_of (fs_table st) (fl_key (fs_flights st ! f)) = Some f")
  case False
  with ok show ?thesis by (simp add: remove_in_flight_effect_def Let_def)
next
  case True
  let ?k = "fl_key (fs_flights st ! f)"
  have st': "remove_in_flight_effect f st = st\<lparr>fs_table := filter (\<lambda>kv. fst kv \<noteq> ?k) (fs_table st)\<rparr>"
    using True by (simp add: remove_in_flight_effect_def Let_def)
  show ?thesis unfolding st'
  proof (rule flights_okI, goal_cases)
    case (1 k g)
    then show ?case using flights_okD(1) [OF ok, of k g] by (simp add: map_of_removed split: if_splits)
  next
    case (2 g)
    then have run: "running st g" by (simp add: running_def)
    have "g \<noteq> f" using run over by (auto simp: running_def settled_def)
    with flights_okD(2) [OF ok run] True have "fl_key (fs_flights st ! g) \<noteq> ?k" by auto
    with flights_okD(2) [OF ok run] show ?case by (simp add: map_of_removed)
  qed (use flights_okD(3,4) [OF ok] in simp_all)
qed

lemma flights_ok_none: "flights_ok h (no_flights ws)"
  by (simp add: flights_ok_def no_flights_def running_def)

lemma flight_steps_ok: "flight_steps h ops st st' \<Longrightarrow> flights_ok h st \<Longrightarrow> flights_ok h st'"
proof (induction rule: flight_steps.induct)
  case (more st st' st'')
  then have ok: "flights_ok h st'" by blast
  from more(2) show ?case
  proof cases
    case (others ws)
    with ok show ?thesis by (simp add: flights_ok_def running_def)
  qed (use ok in \<open>auto intro: join_flight_ok settle_flight_ok remove_flight_ok\<close>)
qed

lemma settled_stays:
  assumes "flight_steps h ops st st'" "settled st f"
  shows "settled st' f \<and> fs_flights st' ! f = fs_flights st ! f"
  using assms
proof (induction rule: flight_steps.induct)
  case (more st st' st'')
  then have s: "settled st' f" "fs_flights st' ! f = fs_flights st ! f" by blast+
  from more(2) show ?case
  proof cases
    case (call tg rq policy)
    with s show ?thesis by (auto simp: join_flight_def Let_def settled_def nth_append split: option.splits)
  next
    case (answer g)
    with s have "g \<noteq> f" by (auto simp: running_def settled_def)
    with s answer show ?thesis by (auto simp: settle_flight_def Let_def settled_def split: prod.splits)
  next
    case (remove g)
    with s show ?thesis by (simp add: remove_in_flight_effect_def Let_def settled_def)
  next
    case (others ws)
    with s show ?thesis by (simp add: settled_def)
  qed
qed simp

lemma execution_key_eq:
  "execution_key h rq policy key = execution_key h rq' policy' key' \<longleftrightarrow>
     rq_scope rq = rq_scope rq' \<and> key = key' \<and> policy = policy' \<and> effect_intent_hash h rq policy = effect_intent_hash h rq' policy'"
  using stable_json_strings_inj [of h "[sc_workspace (rq_scope rq), sc_channel (rq_scope rq), effect_stream key, policy, effect_intent_hash h rq policy]"
      h "[sc_workspace (rq_scope rq'), sc_channel (rq_scope rq'), effect_stream key', policy', effect_intent_hash h rq' policy']"]
  by (cases "rq_scope rq"; cases "rq_scope rq'") (auto simp: execution_key_def effect_stream_def)

section \<open>The property and an instance\<close>

text \<open>Two calls are for the same effect: scope, effect key, tool policy and intent agree.\<close>

definition same_effect :: "host \<Rightarrow> tool_request \<Rightarrow> string \<Rightarrow> tool_request \<Rightarrow> string \<Rightarrow> bool" where
  "same_effect h rq policy rq' policy' \<longleftrightarrow> rq_effect rq \<noteq> None \<and> rq_scope rq' = rq_scope rq \<and> rq_effect rq' = rq_effect rq
     \<and> policy' = policy \<and> effect_intent_hash h rq' policy' = effect_intent_hash h rq policy"

lemma same_effect_keys:
  "rq_effect rq = Some key \<Longrightarrow> rq_effect rq' = Some key' \<Longrightarrow>
   same_effect h rq policy rq' policy' \<longleftrightarrow> execution_key h rq' policy' key' = execution_key h rq policy key"
  by (auto simp: same_effect_def execution_key_eq)

text \<open>
  C13. Simultaneous calls for an effect share one execution. Whatever calls, answers, removals and
  updates by others have happened: a call for the same effect (scope, effect key, tool policy and
  intent) as an execution in progress starts no execution but is given the promise of that one; no
  two executions in progress are for the same effect; every call with an effect key was given the
  promise of an execution for the same effect; a promise that has settled holds what an execution of
  its request answered, and holds it for good.
\<close>

theorem simultaneous_effects_share_execution:
  assumes "flight_steps h ops (no_flights ws) st" and "flight_steps h ops st st'"
  shows "(\<forall>f rq policy tg. running st f \<and> same_effect h rq policy (fl_request (fs_flights st ! f)) (fl_policy (fs_flights st ! f)) \<longrightarrow>
         join_flight h tg rq policy st = st\<lparr>fs_calls := fs_calls st @ [(rq, policy, Some f)]\<rparr>)
    \<and> (\<forall>f g. running st f \<and> running st g \<and> same_effect h (fl_request (fs_flights st ! f)) (fl_policy (fs_flights st ! f))
           (fl_request (fs_flights st ! g)) (fl_policy (fs_flights st ! g)) \<longrightarrow> f = g)
    \<and> (\<forall>(rq, policy, joined) \<in> set (fs_calls st). case joined of
         None \<Rightarrow> rq_effect rq = None
       | Some f \<Rightarrow> f < length (fs_flights st) \<and> same_effect h rq policy (fl_request (fs_flights st ! f)) (fl_policy (fs_flights st ! f)))
    \<and> (\<forall>f r. f < length (fs_flights st) \<and> fl_result (fs_flights st ! f) = Some r \<longrightarrow>
         (\<exists>ws ws'. execute_effect h (fl_gateway (fs_flights st ! f)) (fl_request (fs_flights st ! f)) (fl_policy (fs_flights st ! f)) ws = (r, ws'))
         \<and> fs_flights st' ! f = fs_flights st ! f)"
proof -
  have ok: "flights_ok h st" by (rule flight_steps_ok [OF assms(1) flights_ok_none])
  have flight: "flight_ok h (fs_flights st ! f)" if "f < length (fs_flights st)" for f
    using flights_okD(3) [OF ok] that by (simp add: list_all_length)
  have key: "\<exists>key. rq_effect (fl_request (fs_flights st ! f)) = Some key
      \<and> fl_key (fs_flights st ! f) = execution_key h (fl_request (fs_flights st ! f)) (fl_policy (fs_flights st ! f)) key"
    if "f < length (fs_flights st)" for f
    using flight [OF that] by (auto simp: flight_ok_def same_call_def)
  have same: "fl_key (fs_flights st ! f) = execution_key h rq policy k"
    if "f < length (fs_flights st)" "rq_effect rq = Some k"
      "same_effect h rq policy (fl_request (fs_flights st ! f)) (fl_policy (fs_flights st ! f))" for rq policy f k
    using key [OF that(1)] that(2,3) by (auto simp: same_effect_keys)
  have joined: "same_effect h rq policy (fl_request (fs_flights st ! f)) (fl_policy (fs_flights st ! f))"
    if "f < length (fs_flights st)" "same_call h rq policy (fs_flights st ! f)" for rq policy f
    using key [OF that(1)] that(2) by (auto simp: same_call_def same_effect_keys)
  have in_table: "map_of (fs_table st) (execution_key h rq policy k) = Some f"
    if "running st f" "rq_effect rq = Some k"
      "same_effect h rq policy (fl_request (fs_flights st ! f)) (fl_policy (fs_flights st ! f))" for rq policy f k
    using flights_okD(2) [OF ok that(1)] same [OF _ that(2,3)] that(1) by (simp add: running_def)
  show ?thesis
  proof (intro conjI allI impI ballI)
    fix f rq policy tg assume f: "running st f \<and> same_effect h rq policy (fl_request (fs_flights st ! f)) (fl_policy (fs_flights st ! f))"
    then obtain k where k: "rq_effect rq = Some k" by (auto simp: same_effect_def)
    from in_table [OF conjunct1 [OF f] k conjunct2 [OF f]] k show "join_flight h tg rq policy st = st\<lparr>fs_calls := fs_calls st @ [(rq, policy, Some f)]\<rparr>"
      by (simp add: join_flight_def Let_def)
  next
    fix f g assume fg: "running st f \<and> running st g \<and> same_effect h (fl_request (fs_flights st ! f)) (fl_policy (fs_flights st ! f))
           (fl_request (fs_flights st ! g)) (fl_policy (fs_flights st ! g))"
    then obtain k where k: "rq_effect (fl_request (fs_flights st ! f)) = Some k" by (auto simp: same_effect_def)
    have "same_effect h (fl_request (fs_flights st ! f)) (fl_policy (fs_flights st ! f))
           (fl_request (fs_flights st ! f)) (fl_policy (fs_flights st ! f))" using k by (simp add: same_effect_def)
    with in_table [OF _ k this] in_table [OF _ k] fg have "Some f = Some g" by metis
    then show "f = g" by simp
  next
    fix c assume "c \<in> set (fs_calls st)"
    then have "call_ok h (fs_flights st) c" using flights_okD(4) [OF ok] unfolding list_all_iff by blast
    then show "case c of (rq, policy, joined) \<Rightarrow> (case joined of
         None \<Rightarrow> rq_effect rq = None
       | Some f \<Rightarrow> f < length (fs_flights st) \<and> same_effect h rq policy (fl_request (fs_flights st ! f)) (fl_policy (fs_flights st ! f)))"
      using joined by (auto simp: call_ok_def split: prod.splits option.splits)
  next
    fix f r assume f: "f < length (fs_flights st) \<and> fl_result (fs_flights st ! f) = Some r"
    then show "\<exists>ws ws'. execute_effect h (fl_gateway (fs_flights st ! f)) (fl_request (fs_flights st ! f)) (fl_policy (fs_flights st ! f)) ws = (r, ws')"
      using flight [of f] unfolding flight_ok_def by blast
    have "settled st f" using f by (simp add: settled_def)
    then show "fs_flights st' ! f = fs_flights st ! f" using settled_stays [OF assms(2)] by blast
  qed
qed

text \<open>Two gateways over one store ask for the same effect before the first execution has ended.\<close>

definition shared_flight :: "(nat, store) flights" where
  "shared_flight = join_flight demo_host (demo_tools ''b'' (in_memory demo_host demo_scope)) (demo_request (Some ''k'')) ''safe''
     (join_flight demo_host (demo_tools ''a'' (in_memory demo_host demo_scope)) (demo_request (Some ''k'')) ''safe'' (no_flights (0, empty_store)))"

lemma shared_flight_fields:
  "fs_calls shared_flight = [(demo_request (Some ''k''), ''safe'', Some 0), (demo_request (Some ''k''), ''safe'', Some 0)]"
  "fs_flights shared_flight = [\<lparr>fl_key = execution_key demo_host (demo_request (Some ''k'')) ''safe'' ''k'',
     fl_gateway = demo_tools ''a'' (in_memory demo_host demo_scope), fl_request = demo_request (Some ''k''), fl_policy = ''safe'', fl_result = None\<rparr>]"
  "fs_world shared_flight = (0, empty_store)"
proof -
  have "rq_effect (demo_request (Some ''k'')) = Some ''k''" by (simp add: demo_request_def)
  then show "fs_calls shared_flight = [(demo_request (Some ''k''), ''safe'', Some 0), (demo_request (Some ''k''), ''safe'', Some 0)]"
    "fs_flights shared_flight = [\<lparr>fl_key = execution_key demo_host (demo_request (Some ''k'')) ''safe'' ''k'',
     fl_gateway = demo_tools ''a'' (in_memory demo_host demo_scope), fl_request = demo_request (Some ''k''), fl_policy = ''safe'', fl_result = None\<rparr>]"
    "fs_world shared_flight = (0, empty_store)"
    by (simp_all add: shared_flight_def join_flight_def Let_def no_flights_def)
qed

lemma simultaneous_effects_share_execution_witness:
  "length (fs_flights (settle_flight demo_host 0 shared_flight)) = 1 \<and> length (fs_calls (settle_flight demo_host 0 shared_flight)) = 2
   \<and> (\<exists>ws ws'. execute_effect demo_host (demo_tools ''a'' (in_memory demo_host demo_scope)) (demo_request (Some ''k'')) ''safe'' ws
        = (Inr \<lparr>to_status = ''succeeded'', to_output = None\<rparr>, ws'))
   \<and> fs_world (settle_flight demo_host 0 shared_flight) = (1, demo_ledger ''a'')"
proof -
  let ?st = "settle_flight demo_host 0 shared_flight" and ?ops = "in_memory demo_host demo_scope"
  have "flight_steps demo_host ?ops (no_flights (0, empty_store)) shared_flight"
    unfolding shared_flight_def by (rule flight_steps.more [OF flight_steps.more [OF flight_steps.none flight_step.call] flight_step.call]) (simp_all add: demo_tools_def)
  then have steps: "flight_steps demo_host ?ops (no_flights (0, empty_store)) ?st"
    by (rule flight_steps.more [OF _ flight_step.answer]) (simp add: running_def shared_flight_fields)
  have "?st = shared_flight\<lparr>fs_flights := (fs_flights shared_flight)[0 := (fs_flights shared_flight ! 0)\<lparr>fl_result :=
      Some (Inr \<lparr>to_status = ''succeeded'', to_output = None\<rparr>)\<rparr>], fs_world := (1, demo_ledger ''a'')\<rparr>"
    unfolding settle_flight_def Let_def shared_flight_fields(2,3) nth_Cons_0 flight.select_convs demo_run prod.case ..
  then have st: "fs_flights ?st = [(fs_flights shared_flight ! 0)\<lparr>fl_result := Some (Inr \<lparr>to_status = ''succeeded'', to_output = None\<rparr>)\<rparr>]"
    "fs_calls ?st = fs_calls shared_flight" "fs_world ?st = (1, demo_ledger ''a'')"
    by (simp_all add: shared_flight_fields)
  from simultaneous_effects_share_execution [OF steps flight_steps.none] have "\<exists>ws ws'. execute_effect demo_host (fl_gateway (fs_flights ?st ! 0))
      (fl_request (fs_flights ?st ! 0)) (fl_policy (fs_flights ?st ! 0)) ws = (Inr \<lparr>to_status = ''succeeded'', to_output = None\<rparr>, ws')"
    unfolding st by auto
  then show ?thesis using st(2,3) unfolding st(1) by (simp add: shared_flight_fields)
qed

end
