(* ===== verification/SkillDocuments.thy ===== *)
theory SkillDocuments
  imports Examples
begin

text \<open>
  Reading a skill from its document (\<open>harness-v2/src/skill-catalog.ts\<close>): the front matter between two
  \<open>---\<close> lines names the skill, its version and the tools it allows and forbids. The regular
  expressions of the code are functions on code units.
\<close>

section \<open>Lines\<close>

text \<open>\<open>s.split(/\r?\n/)\<close>.\<close>

fun split_lines :: "string \<Rightarrow> string list" where
  "split_lines [] = [[]]"
| "split_lines (c # s) =
     (if c = CHR 0x0A then [] # split_lines s
      else if c = CHR 0x0D \<and> s \<noteq> [] \<and> hd s = CHR 0x0A then split_lines s
      else (case split_lines s of [] \<Rightarrow> [[c]] | l # ls \<Rightarrow> (c # l) # ls))"

text \<open>
  \<open>/(?:^|\n)---\r?\n/.exec(s)\<close>: the text before the first match and the text after it. \<open>start\<close> says
  whether this is the start of the text; a closing line later in it is preceded by a line feed.
\<close>

definition closing_line :: "string \<Rightarrow> string option" where
  "closing_line s =
     (if starts_with s (''---'' @ [CHR 0x0A]) then Some (drop 4 s)
      else if starts_with s (''---'' @ [CHR 0x0D, CHR 0x0A]) then Some (drop 5 s)
      else None)"

fun find_closing :: "bool \<Rightarrow> string \<Rightarrow> (string \<times> string) option" where
  "find_closing start [] = None"
| "find_closing start (c # s) =
     (case (if start then closing_line (c # s) else None) of
        Some rest \<Rightarrow> Some ([], rest)
      | None \<Rightarrow> (case (if c = CHR 0x0A then closing_line s else None) of
          Some rest \<Rightarrow> Some ([], rest)
        | None \<Rightarrow> map_option (\<lambda>(matter, rest). (c # matter, rest)) (find_closing False s)))"

text \<open>
  \<open>/^\s+-\s+(.+)$/.exec(line)\<close>: the captured text. The dot matches no line terminator; when only
  white space follows the dash, the last character of it is left to the capture.
\<close>

definition is_terminator :: "char \<Rightarrow> bool" where
  "is_terminator c \<longleftrightarrow> c = CHR 0x0A \<or> c = CHR 0x0D"

definition list_item :: "string \<Rightarrow> string option" where
  "list_item line =
     (let indent = takeWhile is_space line; after = dropWhile is_space line in
      if indent = [] \<or> after = [] \<or> hd after \<noteq> CHR ''-'' then None
      else let gap = takeWhile is_space (tl after); item = dropWhile is_space (tl after) in
        if gap = [] then None
        else if item \<noteq> [] then (if list_ex is_terminator item then None else Some item)
        else if length gap < 2 \<or> is_terminator (last gap) then None
        else Some [last gap])"

definition is_letter :: "char \<Rightarrow> bool" where
  "is_letter c \<longleftrightarrow> (let n = of_char c :: nat in 65 \<le> n \<and> n \<le> 90 \<or> 97 \<le> n \<and> n \<le> 122)"

text \<open>\<open>/^[A-Za-z_][A-Za-z0-9_-]*$/.test(key)\<close>\<close>

definition is_key :: "string \<Rightarrow> bool" where
  "is_key key \<longleftrightarrow> (case key of [] \<Rightarrow> False | c # cs \<Rightarrow> (is_letter c \<or> c = CHR ''_'')
     \<and> list_all (\<lambda>d. is_letter d \<or> is_digit d \<or> d = CHR ''_'' \<or> d = CHR ''-'') cs)"

section \<open>Front matter\<close>

datatype tool_list = AllowedTools | ForbiddenTools | IgnoredList

record front_matter =
  fm_name :: "string option"
  fm_version :: "string option"
  fm_allowed :: "string list option"
  fm_forbidden :: "string list option"
  fm_list :: "tool_list option"

definition unsupported_matter :: js_error where
  "unsupported_matter = PlainError ''Skill.document frontmatter is not supported''"

definition duplicate_matter :: "string \<Rightarrow> js_error" where
  "duplicate_matter key = PlainError (''Skill.document frontmatter contains duplicate '' @ key)"

definition matter_item :: "front_matter \<Rightarrow> string \<Rightarrow> front_matter parsed" where
  "matter_item fm item =
     (case fm_list fm of
        None \<Rightarrow> Inl unsupported_matter
      | Some IgnoredList \<Rightarrow> Inr fm
      | Some AllowedTools \<Rightarrow> r_bind (require_non_empty_string (JStr (js_trim item)) ''Skill.allowedTools'') (\<lambda>x.
          Inr (fm\<lparr>fm_allowed := map_option (\<lambda>xs. xs @ [x]) (fm_allowed fm)\<rparr>))
      | Some ForbiddenTools \<Rightarrow> r_bind (require_non_empty_string (JStr (js_trim item)) ''Skill.forbiddenTools'') (\<lambda>x.
          Inr (fm\<lparr>fm_forbidden := map_option (\<lambda>xs. xs @ [x]) (fm_forbidden fm)\<rparr>)))"

definition matter_pair :: "front_matter \<Rightarrow> string \<Rightarrow> string \<Rightarrow> front_matter parsed" where
  "matter_pair fm key value =
     (if key = ''name'' then
        (if fm_name fm \<noteq> None then Inl (duplicate_matter key)
         else r_bind (require_non_empty_string (JStr value) ''Skill.name'') (\<lambda>v. Inr (fm\<lparr>fm_name := Some v, fm_list := None\<rparr>)))
      else if key = ''version'' then
        (if fm_version fm \<noteq> None then Inl (duplicate_matter key)
         else r_bind (require_non_empty_string (JStr value) ''Skill.version'') (\<lambda>v. Inr (fm\<lparr>fm_version := Some v, fm_list := None\<rparr>)))
      else if key = ''allowed_tools'' then
        (if value \<noteq> [] then Inl unsupported_matter
         else if fm_allowed fm \<noteq> None then Inl (duplicate_matter key)
         else Inr (fm\<lparr>fm_allowed := Some [], fm_list := Some AllowedTools\<rparr>))
      else if key = ''forbidden_tools'' then
        (if value \<noteq> [] then Inl unsupported_matter
         else if fm_forbidden fm \<noteq> None then Inl (duplicate_matter key)
         else Inr (fm\<lparr>fm_forbidden := Some [], fm_list := Some ForbiddenTools\<rparr>))
      else Inr (fm\<lparr>fm_list := if value = [] then Some IgnoredList else None\<rparr>))"

definition matter_line :: "string \<Rightarrow> front_matter \<Rightarrow> front_matter parsed" where
  "matter_line line fm =
     (if line = [] then Inr fm
      else case list_item line of
        Some item \<Rightarrow> matter_item fm item
      | None \<Rightarrow>
          if CHR '':'' \<notin> set line then Inl unsupported_matter
          else let key = takeWhile (\<lambda>c. c \<noteq> CHR '':'') line; value = js_trim (tl (dropWhile (\<lambda>c. c \<noteq> CHR '':'') line)) in
            if \<not> is_key key then Inl unsupported_matter else matter_pair fm key value)"

fun matter_lines :: "string list \<Rightarrow> front_matter \<Rightarrow> front_matter parsed" where
  "matter_lines [] fm = Inr fm"
| "matter_lines (l # ls) fm = r_bind (matter_line l fm) (matter_lines ls)"

text \<open>Name, version, allowed tools, forbidden tools and content.\<close>

definition parse_frontmatter :: "string \<Rightarrow> (string \<times> string \<times> string list \<times> string list \<times> string) parsed" where
  "parse_frontmatter document =
     (if \<not> starts_with document (''---'' @ [CHR 0x0A]) \<and> \<not> starts_with document (''---'' @ [CHR 0x0D, CHR 0x0A])
      then Inl (PlainError ''Skill.document must start with YAML frontmatter'')
      else case find_closing True (tl (dropWhile (\<lambda>c. c \<noteq> CHR 0x0A) document)) of
        None \<Rightarrow> Inl (PlainError ''Skill.document frontmatter must be closed'')
      | Some (matter, content) \<Rightarrow>
          r_bind (matter_lines (split_lines matter) \<lparr>fm_name = None, fm_version = None, fm_allowed = None, fm_forbidden = None, fm_list = None\<rparr>) (\<lambda>fm.
          case (fm_name fm, fm_version fm, fm_allowed fm, fm_forbidden fm) of
            (Some n, Some v, Some al, Some fo) \<Rightarrow>
              r_bind (require_non_empty_string (JStr content) ''Skill.content'') (\<lambda>co. Inr (n, v, al, fo, co))
          | _ \<Rightarrow> Inl (PlainError ''Skill.document frontmatter is missing required fields'')))"

definition load_skill_catalog_entry :: "host \<Rightarrow> js \<Rightarrow> skill_entry parsed" where
  "load_skill_catalog_entry h skill =
     (let value = record_or_empty skill; provenance = record_or_empty (js_field value ''provenance'') in
      r_bind (require_non_empty_string (js_field value ''id'') ''Skill.id'') (\<lambda>i.
      r_bind (require_non_empty_string (js_field value ''document'') ''Skill.document'') (\<lambda>document.
      r_bind (parse_frontmatter document) (\<lambda>(n, v, al, fo, co).
      r_bind (require_non_empty_string (js_field provenance ''source'') ''Skill.provenance.source'') (\<lambda>source.
      r_bind (require_non_empty_string (js_field provenance ''uri'') ''Skill.provenance.uri'') (\<lambda>uri.
      Inr \<lparr>sk_id = i, sk_name = n, sk_version = v, sk_hash = sha256_of h document, sk_source = source, sk_uri = uri,
        sk_allowed_tools = al, sk_forbidden_tools = fo, sk_content = co\<rparr>))))))"

section \<open>Writing and loading a document\<close>

definition tool_text :: "string \<Rightarrow> string" where
  "tool_text t = ''  - '' @ t"

definition name_text :: "string \<Rightarrow> string" where
  "name_text v = ''name: '' @ v"

definition version_text :: "string \<Rightarrow> string" where
  "version_text v = ''version: '' @ v"

definition skill_lines :: "skill_entry \<Rightarrow> string list" where
  "skill_lines k = [name_text (sk_name k), version_text (sk_version k), ''allowed_tools:''] @ map tool_text (sk_allowed_tools k)
     @ [''forbidden_tools:''] @ map tool_text (sk_forbidden_tools k)"

definition add_line :: "string \<Rightarrow> string \<Rightarrow> string" where
  "add_line l s = l @ [CHR 0x0A] @ s"

definition skill_document :: "skill_entry \<Rightarrow> string" where
  "skill_document k = add_line ''---'' (foldr add_line (skill_lines k) (add_line ''---'' (sk_content k)))"

text \<open>A text that a line can hold, and one that an entry of a list can hold.\<close>

definition line_text :: "string \<Rightarrow> bool" where
  "line_text s \<longleftrightarrow> s \<noteq> [] \<and> js_trim s = s \<and> CHR 0x0A \<notin> set s"

definition item_text :: "string \<Rightarrow> bool" where
  "item_text s \<longleftrightarrow> s \<noteq> [] \<and> js_trim s = s \<and> \<not> list_ex is_terminator s"

definition writable_skill :: "skill_entry \<Rightarrow> bool" where
  "writable_skill k \<longleftrightarrow> \<not> is_blank (sk_id k) \<and> line_text (sk_name k) \<and> line_text (sk_version k)
     \<and> \<not> is_blank (sk_source k) \<and> \<not> is_blank (sk_uri k) \<and> \<not> is_blank (sk_content k)
     \<and> list_all item_text (sk_allowed_tools k) \<and> list_all item_text (sk_forbidden_tools k)"

definition skill_source :: "skill_entry \<Rightarrow> js" where
  "skill_source k = JObj [(''id'', JStr (sk_id k)), (''document'', JStr (skill_document k)),
     (''provenance'', JObj [(''source'', JStr (sk_source k)), (''uri'', JStr (sk_uri k))])]"

subsection \<open>Trimmed texts\<close>

lemma trim_ends: "js_trim s = [] \<or> \<not> is_space (hd (js_trim s)) \<and> \<not> is_space (last (js_trim s))"
proof (cases "js_trim s = []")
  case False
  let ?m = "dropWhile is_space s"
  have e: "js_trim s = rev (dropWhile is_space (rev ?m))" by (simp add: js_trim_def)
  then have ne: "dropWhile is_space (rev ?m) \<noteq> []" using False by simp
  have l: "\<not> is_space (last (js_trim s))" using hd_dropWhile [OF ne] ne by (simp add: e last_rev)
  obtain t where t: "rev ?m = t @ dropWhile is_space (rev ?m)" by (metis takeWhile_dropWhile_id)
  have m: "?m = js_trim s @ rev t" using arg_cong [OF t, of rev] by (simp add: e)
  then have "?m \<noteq> []" using False by simp
  then have "\<not> is_space (hd ?m)" by (rule hd_dropWhile)
  then show ?thesis using m l False by simp
qed simp

lemma dropWhile_kept: "s = [] \<or> \<not> P (hd s) \<Longrightarrow> dropWhile P s = s"
  by (cases s) auto

lemma trimmed_iff: "js_trim s = s \<longleftrightarrow> s = [] \<or> \<not> is_space (hd s) \<and> \<not> is_space (last s)"
proof
  assume "js_trim s = s" then show "s = [] \<or> \<not> is_space (hd s) \<and> \<not> is_space (last s)" using trim_ends [of s] by simp
next
  assume e: "s = [] \<or> \<not> is_space (hd s) \<and> \<not> is_space (last s)"
  then have "dropWhile is_space s = s" by (auto intro: dropWhile_kept)
  moreover have "dropWhile is_space (rev s) = rev s" using e by (auto intro!: dropWhile_kept simp: hd_rev)
  ultimately show "js_trim s = s" by (simp add: js_trim_def)
qed

lemma trim_again [simp]: "js_trim (js_trim s) = js_trim s"
  unfolding trimmed_iff by (rule trim_ends)

lemma set_trim: "c \<in> set (js_trim s) \<Longrightarrow> c \<in> set s"
  unfolding js_trim_def by (metis set_dropWhileD set_rev)

lemma trim_space: "js_trim (CHR '' '' # s) = js_trim s"
  by (simp add: js_trim_def is_space_def)

lemma trimmed_facts:
  assumes "js_trim s = s" "s \<noteq> []"
  shows "\<not> is_blank s" "takeWhile is_space s = []" "dropWhile is_space s = s"
  using assms by (simp_all add: is_blank_def) (cases s; simp add: trimmed_iff)+

subsection \<open>Lines\<close>

definition plain_line :: "string \<Rightarrow> bool" where
  "plain_line l \<longleftrightarrow> CHR 0x0A \<notin> set l \<and> (l = [] \<or> last l \<noteq> CHR 0x0D) \<and> l \<noteq> ''---''"

lemma split_line:
  "CHR 0x0A \<notin> set l \<Longrightarrow> l = [] \<or> last l \<noteq> CHR 0x0D \<Longrightarrow> split_lines (l @ CHR 0x0A # s) = l # split_lines s \<and> split_lines l = [l]"
proof (induction l)
  case (Cons c l)
  then show ?case by (cases l) auto
qed simp

lemma split_lines_newline: "l \<in> set (split_lines s) \<Longrightarrow> CHR 0x0A \<notin> set l"
  by (induction s arbitrary: l rule: split_lines.induct) (auto split: if_splits list.splits)

fun join_lines :: "string list \<Rightarrow> string" where
  "join_lines [] = []"
| "join_lines [l] = l"
| "join_lines (l # l' # ls) = add_line l (join_lines (l' # ls))"

lemma split_join: "ls \<noteq> [] \<Longrightarrow> \<forall>l \<in> set ls. plain_line l \<Longrightarrow> split_lines (join_lines ls) = ls"
proof (induction ls rule: join_lines.induct)
  case (2 l)
  then show ?case using split_line [of l "[]"] by (simp add: plain_line_def)
next
  case (3 l l' ls)
  then have "split_lines (add_line l (join_lines (l' # ls))) = l # split_lines (join_lines (l' # ls))"
    using split_line [of l "join_lines (l' # ls)"] by (simp add: plain_line_def add_line_def)
  with 3 show ?case by simp
qed simp

lemma closing_line_plain:
  assumes "plain_line l" shows "closing_line (add_line l s) = None"
proof -
  have first: "takeWhile (\<lambda>c. c \<noteq> CHR 0x0A) (l @ CHR 0x0A # s) = l"
    using assms by (subst takeWhile_append2) (auto simp: plain_line_def)
  have "\<not> starts_with (l @ CHR 0x0A # s) (''---'' @ [CHR 0x0A])"
  proof
    assume "starts_with (l @ CHR 0x0A # s) (''---'' @ [CHR 0x0A])"
    then obtain r where r: "l @ CHR 0x0A # s = (''---'' @ [CHR 0x0A]) @ r" unfolding starts_with_iff by blast
    have "l = ''---''" using first unfolding r by simp
    with assms show False by (simp add: plain_line_def)
  qed
  moreover have "\<not> starts_with (l @ CHR 0x0A # s) (''---'' @ [CHR 0x0D, CHR 0x0A])"
  proof
    assume "starts_with (l @ CHR 0x0A # s) (''---'' @ [CHR 0x0D, CHR 0x0A])"
    then obtain r where r: "l @ CHR 0x0A # s = (''---'' @ [CHR 0x0D, CHR 0x0A]) @ r" unfolding starts_with_iff by blast
    have "l = ''---'' @ [CHR 0x0D]" using first unfolding r by simp
    with assms show False by (simp add: plain_line_def)
  qed
  ultimately show ?thesis by (simp add: closing_line_def add_line_def)
qed

lemma find_closing_newline:
  "find_closing False (CHR 0x0A # s) =
     (case closing_line s of Some rest \<Rightarrow> Some ([], rest) | None \<Rightarrow> map_option (\<lambda>(m, rest). (CHR 0x0A # m, rest)) (find_closing False s))"
  by simp

lemma find_closing_other:
  "c \<noteq> CHR 0x0A \<Longrightarrow> find_closing False (c # s) = map_option (\<lambda>(m, rest). (c # m, rest)) (find_closing False s)"
  by simp

lemma find_closing_line:
  "CHR 0x0A \<notin> set l \<Longrightarrow> find_closing False (add_line l s) =
     (case closing_line s of Some rest \<Rightarrow> Some (l, rest) | None \<Rightarrow> map_option (\<lambda>(m, rest). (add_line l m, rest)) (find_closing False s))"
proof (induction l)
  case Nil
  then show ?case by (simp only: add_line_def append.simps find_closing_newline)
next
  case (Cons c l)
  then have c: "c \<noteq> CHR 0x0A" by auto
  have step: "add_line (c # l) r = c # add_line l r" for r by (simp add: add_line_def)
  have "find_closing False (add_line l s) =
     (case closing_line s of Some rest \<Rightarrow> Some (l, rest) | None \<Rightarrow> map_option (\<lambda>(m, rest). (add_line l m, rest)) (find_closing False s))"
    using Cons by simp
  then show ?case unfolding step find_closing_other [OF c]
    by (cases "closing_line s"; cases "find_closing False s") (auto simp: step)
qed

lemma find_closing_start: "closing_line s = None \<Longrightarrow> find_closing True s = find_closing False s"
  by (cases s) auto

lemma closing_dashes: "closing_line (add_line ''---'' s) = Some s"
  by (simp add: closing_line_def add_line_def starts_with_def)

lemma find_closing_lines:
  "ls \<noteq> [] \<Longrightarrow> \<forall>l \<in> set ls. plain_line l \<Longrightarrow> find_closing False (foldr add_line ls (add_line ''---'' content)) = Some (join_lines ls, content)"
proof (induction ls rule: join_lines.induct)
  case (2 l)
  then show ?case by (simp add: find_closing_line closing_dashes plain_line_def)
next
  case (3 l l' ls)
  then have "closing_line (foldr add_line (l' # ls) (add_line ''---'' content)) = None" by (simp add: closing_line_plain)
  with 3 show ?case by (simp add: find_closing_line plain_line_def)
qed simp

lemma tool_line: assumes "item_text t" shows "list_item (tool_text t) = Some t"
proof -
  have "t \<noteq> []" "js_trim t = t" "\<not> list_ex is_terminator t" using assms by (auto simp: item_text_def)
  then show ?thesis using trimmed_facts [of t]
    by (simp add: list_item_def tool_text_def is_space_def [of "CHR '' ''"] is_space_def [of "CHR ''-''"])
qed

lemma matter_tool:
  assumes "item_text t"
  shows "fm_list fm = Some AllowedTools \<Longrightarrow> fm_allowed fm = Some xs \<Longrightarrow>
      matter_line (tool_text t) fm = Inr (fm\<lparr>fm_allowed := Some (xs @ [t])\<rparr>)"
    and "fm_list fm = Some ForbiddenTools \<Longrightarrow> fm_forbidden fm = Some xs \<Longrightarrow>
      matter_line (tool_text t) fm = Inr (fm\<lparr>fm_forbidden := Some (xs @ [t])\<rparr>)"
proof -
  have "tool_text t \<noteq> []" by (simp add: tool_text_def)
  moreover have "js_trim t = t" using assms by (simp add: item_text_def)
  moreover have "require_non_empty_string (JStr t) n = Inr t" for n
    using assms trimmed_facts(1) [of t] by (simp add: require_non_empty_string_iff item_text_def)
  ultimately show "fm_list fm = Some AllowedTools \<Longrightarrow> fm_allowed fm = Some xs \<Longrightarrow>
      matter_line (tool_text t) fm = Inr (fm\<lparr>fm_allowed := Some (xs @ [t])\<rparr>)"
    and "fm_list fm = Some ForbiddenTools \<Longrightarrow> fm_forbidden fm = Some xs \<Longrightarrow>
      matter_line (tool_text t) fm = Inr (fm\<lparr>fm_forbidden := Some (xs @ [t])\<rparr>)"
    using tool_line [OF assms] by (simp_all add: matter_line_def matter_item_def)
qed

lemma matter_allowed:
  "list_all item_text ts \<Longrightarrow> fm_list fm = Some AllowedTools \<Longrightarrow> fm_allowed fm = Some xs \<Longrightarrow>
   matter_lines (map tool_text ts @ ls) fm = matter_lines ls (fm\<lparr>fm_allowed := Some (xs @ ts)\<rparr>)"
proof (induction ts arbitrary: fm xs)
  case Nil
  then show ?case by (cases fm) simp
next
  case (Cons t ts)
  then show ?case by (simp add: matter_tool(1))
qed

lemma matter_forbidden:
  "list_all item_text ts \<Longrightarrow> fm_list fm = Some ForbiddenTools \<Longrightarrow> fm_forbidden fm = Some xs \<Longrightarrow>
   matter_lines (map tool_text ts @ ls) fm = matter_lines ls (fm\<lparr>fm_forbidden := Some (xs @ ts)\<rparr>)"
proof (induction ts arbitrary: fm xs)
  case Nil
  then show ?case by (cases fm) simp
next
  case (Cons t ts)
  then show ?case by (simp add: matter_tool(2))
qed

subsection \<open>Loading what was written\<close>

lemma list_item_none: "l \<noteq> [] \<Longrightarrow> \<not> is_space (hd l) \<Longrightarrow> list_item l = None"
  by (cases l) (simp_all add: list_item_def)

lemma matter_name:
  "line_text v \<Longrightarrow> fm_name fm = None \<Longrightarrow> matter_line (name_text v) fm = Inr (fm\<lparr>fm_name := Some v, fm_list := None\<rparr>)"
  using list_item_none [of "''name: '' @ v"] trimmed_facts(1) [of v]
  by (simp add: name_text_def matter_line_def is_space_def [of "CHR ''n''"] is_key_def is_letter_def matter_pair_def trim_space line_text_def
      require_non_empty_string_iff r_bind_def require_non_empty_string_def)

lemma matter_version:
  "line_text v \<Longrightarrow> fm_version fm = None \<Longrightarrow> matter_line (version_text v) fm = Inr (fm\<lparr>fm_version := Some v, fm_list := None\<rparr>)"
  using list_item_none [of "''version: '' @ v"] trimmed_facts(1) [of v]
  by (simp add: version_text_def matter_line_def is_space_def [of "CHR ''v''"] is_key_def is_letter_def matter_pair_def trim_space line_text_def
      require_non_empty_string_iff r_bind_def require_non_empty_string_def)

lemma matter_lists:
  "fm_allowed fm = None \<Longrightarrow> matter_line ''allowed_tools:'' fm = Inr (fm\<lparr>fm_allowed := Some [], fm_list := Some AllowedTools\<rparr>)"
  "fm_forbidden fm = None \<Longrightarrow> matter_line ''forbidden_tools:'' fm = Inr (fm\<lparr>fm_forbidden := Some [], fm_list := Some ForbiddenTools\<rparr>)"
  by (simp_all add: matter_line_def list_item_none is_space_def [of "CHR ''a''"] is_space_def [of "CHR ''f''"] is_key_def is_letter_def
      matter_pair_def js_trim_def)

lemma skill_lines_read:
  assumes "writable_skill k"
  shows "matter_lines (skill_lines k) \<lparr>fm_name = None, fm_version = None, fm_allowed = None, fm_forbidden = None, fm_list = None\<rparr> =
    Inr \<lparr>fm_name = Some (sk_name k), fm_version = Some (sk_version k), fm_allowed = Some (sk_allowed_tools k),
      fm_forbidden = Some (sk_forbidden_tools k), fm_list = Some ForbiddenTools\<rparr>"
  using assms matter_forbidden [where ls = "[]"]
  by (simp add: skill_lines_def writable_skill_def matter_name matter_version matter_lists matter_allowed)

lemma plain_text:
  assumes "line_text t" "CHR 0x0A \<notin> set p" "p \<noteq> []" "hd p \<noteq> CHR ''-''"
  shows "plain_line (p @ t)"
proof -
  have "\<not> is_space (last t)" "t \<noteq> []" using assms(1) by (auto simp: line_text_def trimmed_iff)
  moreover from this(1) have "last t \<noteq> CHR 0x0D" by (auto simp: is_space_def)
  ultimately show ?thesis using assms by (cases p) (auto simp: plain_line_def line_text_def)
qed

lemma item_line_text: "item_text t \<Longrightarrow> line_text t"
  by (auto simp: item_text_def line_text_def list_ex_iff is_terminator_def)

lemma text_plain:
  "line_text t \<Longrightarrow> plain_line (name_text t)" "line_text t \<Longrightarrow> plain_line (version_text t)" "item_text t \<Longrightarrow> plain_line (tool_text t)"
  using plain_text [of t "''name: ''"] plain_text [of t "''version: ''"] plain_text [of t "''  - ''"] item_line_text [of t]
  by (simp_all add: name_text_def version_text_def tool_text_def)

lemma skill_lines_plain: "writable_skill k \<Longrightarrow> \<forall>l \<in> set (skill_lines k). plain_line l"
  by (auto simp: writable_skill_def skill_lines_def list_all_iff text_plain) (simp_all add: plain_line_def)

lemma document_read:
  assumes "writable_skill k"
  shows "parse_frontmatter (skill_document k) = Inr (sk_name k, sk_version k, sk_allowed_tools k, sk_forbidden_tools k, sk_content k)"
proof -
  let ?body = "foldr add_line (skill_lines k) (add_line ''---'' (sk_content k))"
  have plain: "\<forall>l \<in> set (skill_lines k). plain_line l" by (rule skill_lines_plain [OF assms])
  have ne: "skill_lines k \<noteq> []" by (simp add: skill_lines_def)
  then obtain l ls where l: "skill_lines k = l # ls" by (cases "skill_lines k") auto
  have "closing_line ?body = None" using plain by (simp add: l closing_line_plain)
  then have f: "find_closing True ?body = Some (join_lines (skill_lines k), sk_content k)"
    using find_closing_lines [OF ne plain] by (simp add: find_closing_start)
  have start: "starts_with (skill_document k) (''---'' @ [CHR 0x0A])"
    and body: "tl (dropWhile (\<lambda>c. c \<noteq> CHR 0x0A) (skill_document k)) = ?body"
    by (simp_all add: skill_document_def add_line_def starts_with_def)
  show ?thesis using assms
    unfolding parse_frontmatter_def body f split_join [OF ne plain]
    by (simp add: start [simplified] f split_join [OF ne plain] skill_lines_read require_non_empty_string_iff writable_skill_def
        require_non_empty_string_def)
qed

lemma loads_written:
  assumes "writable_skill k"
  shows "load_skill_catalog_entry h (skill_source k) = Inr (k\<lparr>sk_hash := sha256_of h (skill_document k)\<rparr>)"
proof -
  have "\<not> is_blank (skill_document k)" by (simp add: skill_document_def add_line_def is_blank_iff is_space_def)
  then show ?thesis using assms
    by (cases k) (simp add: load_skill_catalog_entry_def skill_source_def document_read writable_skill_def parse_runs)
qed

subsection \<open>What is loaded can be written\<close>

definition matter_ok :: "front_matter \<Rightarrow> bool" where
  "matter_ok fm \<longleftrightarrow> pred_option line_text (fm_name fm) \<and> pred_option line_text (fm_version fm)
     \<and> pred_option (list_all item_text) (fm_allowed fm) \<and> pred_option (list_all item_text) (fm_forbidden fm)"

lemma list_item_ends:
  "list_item l = Some i \<Longrightarrow> i \<noteq> [] \<and> \<not> list_ex is_terminator i"
  by (auto simp: list_item_def Let_def split: if_splits)

lemma trim_item: "\<not> list_ex is_terminator i \<Longrightarrow> \<not> is_blank (js_trim i) \<Longrightarrow> item_text (js_trim i)"
  by (auto simp: item_text_def list_ex_iff is_blank_def dest: set_trim)

lemma trim_line: "CHR 0x0A \<notin> set l \<Longrightarrow> \<not> is_blank (js_trim l) \<Longrightarrow> line_text (js_trim l)"
  by (auto simp: line_text_def is_blank_def dest: set_trim)

lemma matter_item_ok:
  "matter_item fm i = Inr fm' \<Longrightarrow> \<not> list_ex is_terminator i \<Longrightarrow> matter_ok fm \<Longrightarrow> matter_ok fm'"
  by (auto simp: matter_item_def matter_ok_def res_simps parse_iffs option.pred_map comp_def trim_item elim!: option.pred_mono_strong
      split: option.splits tool_list.splits)

lemma matter_pair_ok:
  "matter_pair fm key (js_trim v) = Inr fm' \<Longrightarrow> CHR 0x0A \<notin> set v \<Longrightarrow> matter_ok fm \<Longrightarrow> matter_ok fm'"
  by (auto simp: matter_pair_def matter_ok_def res_simps parse_iffs trim_line split: if_splits)

lemma matter_line_ok:
  assumes "matter_line l fm = Inr fm'" "CHR 0x0A \<notin> set l" "matter_ok fm"
  shows "matter_ok fm'"
proof (cases "list_item l")
  case None
  have "CHR 0x0A \<notin> set (tl (dropWhile (\<lambda>c. c \<noteq> CHR '':'') l))"
    using assms(2) by (metis list.set_sel(2) set_dropWhileD tl_Nil)
  with None assms show ?thesis by (auto simp: matter_line_def Let_def intro: matter_pair_ok split: if_splits)
next
  case (Some i)
  with assms show ?thesis using list_item_ends [OF Some] by (auto simp: matter_line_def intro: matter_item_ok split: if_splits)
qed

lemma matter_lines_ok:
  "matter_lines ls fm = Inr fm' \<Longrightarrow> \<forall>l \<in> set ls. CHR 0x0A \<notin> set l \<Longrightarrow> matter_ok fm \<Longrightarrow> matter_ok fm'"
  by (induction ls arbitrary: fm) (auto simp: res_simps dest: matter_line_ok)

lemma loaded_writable:
  assumes "load_skill_catalog_entry h v = Inr k" shows "writable_skill k"
proof -
  obtain document n ver al fo co where p: "parse_frontmatter document = Inr (n, ver, al, fo, co)"
    and k: "sk_name k = n" "sk_version k = ver" "sk_allowed_tools k = al" "sk_forbidden_tools k = fo" "sk_content k = co"
      "\<not> is_blank (sk_id k)" "\<not> is_blank (sk_source k)" "\<not> is_blank (sk_uri k)"
    using assms by (auto simp: load_skill_catalog_entry_def Let_def res_simps parse_iffs split: prod.splits)
  from p obtain matter fm where m: "matter_lines (split_lines matter) \<lparr>fm_name = None, fm_version = None, fm_allowed = None, fm_forbidden = None, fm_list = None\<rparr> = Inr fm"
    and fm: "fm_name fm = Some n" "fm_version fm = Some ver" "fm_allowed fm = Some al" "fm_forbidden fm = Some fo" "\<not> is_blank co"
    by (auto simp: parse_frontmatter_def parse_iffs elim!: r_bindE split: if_split_asm option.split_asm prod.split_asm)
  have "matter_ok fm" by (rule matter_lines_ok [OF m]) (auto simp: matter_ok_def dest: split_lines_newline)
  then show ?thesis using k fm by (simp add: writable_skill_def matter_ok_def)
qed

section \<open>The property, an instance, and a document that is refused\<close>

text \<open>
  C17. Loading a skill is the inverse of writing its document: an entry comes back from its document,
  with the digest of the document, exactly when its name and version fit on a line, its tools fit in
  a list, and its texts are not blank; and every entry that any document yields is such an entry, so
  that it can be written and loaded again.
\<close>

theorem skill_document_round_trip:
  "(load_skill_catalog_entry h (skill_source k) = Inr (k\<lparr>sk_hash := sha256_of h (skill_document k)\<rparr>) \<longleftrightarrow> writable_skill k)
   \<and> (load_skill_catalog_entry h v = Inr k' \<longrightarrow> writable_skill k')"
proof -
  have "writable_skill (k\<lparr>sk_hash := x\<rparr>) \<longleftrightarrow> writable_skill k" for x by (simp add: writable_skill_def)
  then show ?thesis using loads_written [of k h] loaded_writable [of h] by metis
qed

definition reading_skill :: skill_entry where
  "reading_skill = \<lparr>sk_id = ''s'', sk_name = ''r: x'', sk_version = ''1'', sk_hash = [], sk_source = ''f'', sk_uri = ''u'',
     sk_allowed_tools = [''a'', ''b''], sk_forbidden_tools = [''c''], sk_content = ''t''\<rparr>"

lemma skill_document_round_trip_witness:
  "load_skill_catalog_entry demo_host (skill_source reading_skill)
     = Inr (reading_skill\<lparr>sk_hash := sha256_of demo_host (skill_document reading_skill)\<rparr>)
   \<and> writable_skill (reading_skill\<lparr>sk_hash := sha256_of demo_host (skill_document reading_skill)\<rparr>)"
proof -
  have "writable_skill reading_skill"
    by (simp add: writable_skill_def reading_skill_def line_text_def item_text_def is_terminator_def trimmed_iff is_blank_iff is_space_def)
  then show ?thesis using skill_document_round_trip [of demo_host reading_skill "skill_source reading_skill"
      "reading_skill\<lparr>sk_hash := sha256_of demo_host (skill_document reading_skill)\<rparr>"] by blast
qed

text \<open>
  The line feed of the last line of the front matter belongs to the closing line; a carriage return
  before it stays, and the dot of the pattern of list entries does not match it. A document with
  Windows line ends whose front matter ends with a list is refused, the same document with line feeds
  is read.
\<close>

definition with_line_ends :: "string \<Rightarrow> string" where
  "with_line_ends e = concat (map (\<lambda>l. l @ e) [''---'', ''name: a'', ''version: 1'', ''allowed_tools:'', ''forbidden_tools:'', ''  - x'', ''---'']) @ ''t''"

lemma carriage_returns_refuse_list:
  "parse_frontmatter (with_line_ends [CHR 0x0A]) = Inr (''a'', ''1'', [], [''x''], ''t'')"
  "parse_frontmatter (with_line_ends [CHR 0x0D, CHR 0x0A]) = Inl unsupported_matter"
  by code_simp+

end
