(* ===== verification/RunContext.thy ===== *)
theory RunContext
  imports Examples
begin

text \<open>
  The context a run is given (\<open>harness-v2/src/run-context.ts\<close>): goal, constraints, messages, tool
  calls still pending and memory hits, each with the events it comes from, parsed from an untrusted
  value; and its compaction, which replaces the messages by a summary.
\<close>

section \<open>The context\<close>

record provenance =
  pv_source :: string
  pv_events :: "string list"

record context_text =
  cx_content :: string
  cx_provenance :: provenance

record context_message =
  cm_role :: string
  cm_text :: context_text

record pending_call =
  pt_scope :: scope
  pt_run :: string
  pt_worker :: string
  pt_name :: string
  pt_input :: js
  pt_effect :: "string option"
  pt_call :: string
  pt_provenance :: provenance

record context_hit =
  ch_memory :: string
  ch_text :: context_text

record run_context =
  rx_scope :: scope
  rx_run :: string
  rx_worker :: string
  rx_goal :: context_text
  rx_constraints :: "context_text list"
  rx_messages :: "context_message list"
  rx_pending :: "pending_call list"
  rx_hits :: "context_hit list"

section \<open>Parsing\<close>

definition context_array :: "js \<Rightarrow> string \<Rightarrow> js list parsed" where
  "context_array input name =
     (case input of
        JArr xs \<Rightarrow> Inr xs
      | _ \<Rightarrow> Inl (SchemaValidationError (name @ '' must be an array'')))"

definition parse_provenance :: "js \<Rightarrow> string \<Rightarrow> provenance parsed" where
  "parse_provenance input name =
     r_bind (expect_record input name) (\<lambda>value.
     r_bind (context_array (js_field value ''sourceEventIds'') (name @ ''.sourceEventIds'')) (\<lambda>ids.
     if ids = [] then Inl (SchemaValidationError (name @ ''.sourceEventIds must contain provenance''))
     else r_bind (expect_non_empty_string (js_field value ''source'') (name @ ''.source'')) (\<lambda>source.
     r_bind (r_mapi (\<lambda>i v. expect_non_empty_string v (index_name (name @ ''.sourceEventIds'') i)) 0 ids) (\<lambda>events.
     Inr \<lparr>pv_source = source, pv_events = events\<rparr>))))"

text \<open>The content and provenance of a text, a message or a memory hit.\<close>

definition parse_text_fields :: "(string \<times> js) list \<Rightarrow> string \<Rightarrow> context_text parsed" where
  "parse_text_fields value name =
     r_bind (expect_non_empty_string (js_field value ''content'') (name @ ''.content'')) (\<lambda>content.
     r_bind (parse_provenance (js_field value ''provenance'') (name @ ''.provenance'')) (\<lambda>p.
     Inr \<lparr>cx_content = content, cx_provenance = p\<rparr>))"

definition parse_context_text :: "js \<Rightarrow> string \<Rightarrow> context_text parsed" where
  "parse_context_text input name = r_bind (expect_record input name) (\<lambda>value. parse_text_fields value name)"

definition parse_context_message :: "nat \<Rightarrow> js \<Rightarrow> context_message parsed" where
  "parse_context_message i input =
     (let name = index_name ''RunContext.transientMessages'' i in
      r_bind (expect_record input name) (\<lambda>value.
      r_bind (expect_non_empty_string (js_field value ''role'') (name @ ''.role'')) (\<lambda>role.
      r_bind (parse_text_fields value name) (\<lambda>t.
      Inr \<lparr>cm_role = role, cm_text = t\<rparr>))))"

definition parse_messages :: "js \<Rightarrow> context_message list parsed" where
  "parse_messages input =
     r_bind (context_array input ''RunContext.transientMessages'') (r_mapi parse_context_message 0)"

definition parse_pending_call :: "scope \<Rightarrow> string \<Rightarrow> string \<Rightarrow> nat \<Rightarrow> js \<Rightarrow> pending_call parsed" where
  "parse_pending_call s run worker i input =
     (let name = index_name ''RunContext.pendingToolCalls'' i in
      r_bind (expect_record input name) (\<lambda>value.
      r_bind (expect_non_empty_string (js_field value ''workspaceId'') (name @ ''.workspaceId'')) (\<lambda>ws.
      r_bind (expect_non_empty_string (js_field value ''channelId'') (name @ ''.channelId'')) (\<lambda>ch.
      r_bind (expect_non_empty_string (js_field value ''runId'') (name @ ''.runId'')) (\<lambda>r.
      r_bind (expect_non_empty_string (js_field value ''workerProfileId'') (name @ ''.workerProfileId'')) (\<lambda>wk.
      r_bind (expect_non_empty_string (js_field value ''name'') (name @ ''.name'')) (\<lambda>nm.
      r_bind (parse_json_value (js_field value ''input'') (name @ ''.input'')) (\<lambda>inp.
      r_bind (optional_field value ''effectKey'' (\<lambda>v. expect_non_empty_string v (name @ ''.effectKey''))) (\<lambda>eff.
      r_bind (expect_non_empty_string (js_field value ''toolCallId'') (name @ ''.toolCallId'')) (\<lambda>call.
      r_bind (parse_provenance (js_field value ''provenance'') (name @ ''.provenance'')) (\<lambda>p.
      if ws \<noteq> sc_workspace s \<or> ch \<noteq> sc_channel s \<or> r \<noteq> run \<or> wk \<noteq> worker
      then Inl (SchemaValidationError ''RunContext pending Tool call must match its bound scope, Run, and Worker'')
      else Inr \<lparr>pt_scope = \<lparr>sc_workspace = ws, sc_channel = ch\<rparr>, pt_run = r, pt_worker = wk, pt_name = nm,
        pt_input = inp, pt_effect = eff, pt_call = call, pt_provenance = p\<rparr>)))))))))))"

definition parse_pending_calls :: "scope \<Rightarrow> string \<Rightarrow> string \<Rightarrow> js \<Rightarrow> pending_call list parsed" where
  "parse_pending_calls s run worker input =
     r_bind (context_array input ''RunContext.pendingToolCalls'') (r_mapi (parse_pending_call s run worker) 0)"

definition parse_context_hit :: "nat \<Rightarrow> js \<Rightarrow> context_hit parsed" where
  "parse_context_hit i input =
     (let name = index_name ''RunContext.memoryHits'' i in
      r_bind (expect_record input name) (\<lambda>value.
      r_bind (expect_non_empty_string (js_field value ''memoryId'') (name @ ''.memoryId'')) (\<lambda>m.
      r_bind (parse_text_fields value name) (\<lambda>t.
      Inr \<lparr>ch_memory = m, ch_text = t\<rparr>))))"

definition parse_memory_hits :: "js \<Rightarrow> context_hit list parsed" where
  "parse_memory_hits input =
     r_bind (context_array input ''RunContext.memoryHits'') (r_mapi parse_context_hit 0)"

definition build_run_context :: "js \<Rightarrow> run_context parsed" where
  "build_run_context input =
     r_bind (expect_record input ''RunContext'') (\<lambda>value.
     r_bind (expect_non_empty_string (js_field value ''workspaceId'') ''RunContext.workspaceId'') (\<lambda>ws.
     r_bind (expect_non_empty_string (js_field value ''channelId'') ''RunContext.channelId'') (\<lambda>ch.
     r_bind (expect_non_empty_string (js_field value ''runId'') ''RunContext.runId'') (\<lambda>run.
     r_bind (expect_non_empty_string (js_field value ''workerProfileId'') ''RunContext.workerProfileId'') (\<lambda>worker.
     let s = \<lparr>sc_workspace = ws, sc_channel = ch\<rparr> in
     r_bind (parse_context_text (js_field value ''goal'') ''RunContext.goal'') (\<lambda>goal.
     r_bind (context_array (js_field value ''constraints'') ''RunContext.constraints'') (\<lambda>cs.
     r_bind (r_mapi (\<lambda>i v. parse_context_text v (index_name ''RunContext.constraints'' i)) 0 cs) (\<lambda>constraints.
     r_bind (parse_messages (js_field value ''transientMessages'')) (\<lambda>messages.
     r_bind (parse_pending_calls s run worker (js_field value ''pendingToolCalls'')) (\<lambda>pending.
     r_bind (parse_memory_hits (js_field value ''memoryHits'')) (\<lambda>hits.
     Inr \<lparr>rx_scope = s, rx_run = run, rx_worker = worker, rx_goal = goal, rx_constraints = constraints,
       rx_messages = messages, rx_pending = pending, rx_hits = hits\<rparr>)))))))))))"

section \<open>The object of a context\<close>

definition provenance_js :: "provenance \<Rightarrow> js" where
  "provenance_js p = JObj [(''source'', JStr (pv_source p)), (''sourceEventIds'', js_strings (pv_events p))]"

definition text_fields :: "context_text \<Rightarrow> (string \<times> js) list" where
  "text_fields t = [(''content'', JStr (cx_content t)), (''provenance'', provenance_js (cx_provenance t))]"

definition message_js :: "context_message \<Rightarrow> js" where
  "message_js m = JObj ((''role'', JStr (cm_role m)) # text_fields (cm_text m))"

definition pending_js :: "pending_call \<Rightarrow> js" where
  "pending_js c = JObj (scope_fields (pt_scope c) @ [(''runId'', JStr (pt_run c)), (''workerProfileId'', JStr (pt_worker c)),
     (''name'', JStr (pt_name c)), (''input'', pt_input c)] @ opt_field ''effectKey'' JStr (pt_effect c)
     @ [(''toolCallId'', JStr (pt_call c)), (''provenance'', provenance_js (pt_provenance c))])"

definition hit_js :: "context_hit \<Rightarrow> js" where
  "hit_js m = JObj ((''memoryId'', JStr (ch_memory m)) # text_fields (ch_text m))"

definition run_context_js :: "run_context \<Rightarrow> js" where
  "run_context_js c = JObj (scope_fields (rx_scope c) @ [(''runId'', JStr (rx_run c)), (''workerProfileId'', JStr (rx_worker c)),
     (''goal'', JObj (text_fields (rx_goal c))), (''constraints'', JArr (map (JObj \<circ> text_fields) (rx_constraints c))),
     (''transientMessages'', JArr (map message_js (rx_messages c))), (''pendingToolCalls'', JArr (map pending_js (rx_pending c))),
     (''memoryHits'', JArr (map hit_js (rx_hits c)))])"

section \<open>Compaction\<close>

definition context_sources :: "run_context \<Rightarrow> string list" where
  "context_sources c = js_dedup (pv_events (cx_provenance (rx_goal c))
     @ concat (map (\<lambda>t. pv_events (cx_provenance t)) (rx_constraints c))
     @ concat (map (\<lambda>m. pv_events (cx_provenance (cm_text m))) (rx_messages c))
     @ concat (map (\<lambda>t. pv_events (pt_provenance t)) (rx_pending c))
     @ concat (map (\<lambda>m. pv_events (cx_provenance (ch_text m))) (rx_hits c)))"

text \<open>
  \<open>{ ...context, transientMessages: [...] }\<close>: the object of the context with the summary as its
  only message. The summary is any value; \<open>summary?.summary\<close> of a value that is no object is
  \<open>undefined\<close>.
\<close>

definition compact_run_context :: "run_context \<Rightarrow> js \<Rightarrow> run_context parsed" where
  "compact_run_context c summary =
     r_bind (expect_non_empty_string (js_field (record_or_empty summary) ''summary'') ''RunContextSummary.summary'') (\<lambda>content.
     build_run_context (run_context_js (c\<lparr>rx_messages := [\<lparr>cm_role = ''summary'',
       cm_text = \<lparr>cx_content = content, cx_provenance = \<lparr>pv_source = ''compaction'', pv_events = context_sources c\<rparr>\<rparr>\<rparr>]\<rparr>)))"

section \<open>Parsing a context again\<close>

lemma context_array_iff: "context_array v n = Inr xs \<longleftrightarrow> v = JArr xs"
  by (auto simp: context_array_def split: js.splits)

definition provenance_ok :: "provenance \<Rightarrow> bool" where
  "provenance_ok p \<longleftrightarrow> \<not> is_blank (pv_source p) \<and> pv_events p \<noteq> [] \<and> (\<forall>x \<in> set (pv_events p). \<not> is_blank x)"

lemma context_ids_iff:
  "r_mapi (\<lambda>i v. expect_non_empty_string v (index_name n i)) 0 vs = Inr xs \<longleftrightarrow> vs = map JStr xs \<and> (\<forall>x \<in> set xs. \<not> is_blank x)"
  by (subst r_mapi_iff [OF expect_non_empty_string_iff]) (rule list_all2_strings)

lemma parse_provenance_ok: "parse_provenance v n = Inr p \<Longrightarrow> provenance_ok p"
  unfolding parse_provenance_def
  by (elim parse_elims) (auto simp: context_ids_iff parse_iffs provenance_ok_def)

lemma parse_provenance_run [parse_runs]: "provenance_ok p \<Longrightarrow> parse_provenance (provenance_js p) n = Inr p"
  by (simp add: parse_provenance_def provenance_js_def provenance_ok_def js_strings_def context_array_def parse_runs
      iffD2 [OF context_ids_iff conjI [OF refl]])

definition text_ok :: "context_text \<Rightarrow> bool" where
  "text_ok t \<longleftrightarrow> \<not> is_blank (cx_content t) \<and> provenance_ok (cx_provenance t)"

lemma parse_text_fields_ok: "parse_text_fields kvs n = Inr t \<Longrightarrow> text_ok t"
  unfolding parse_text_fields_def by (elim parse_elims) (auto simp: parse_iffs text_ok_def dest: parse_provenance_ok)

lemma parse_text_fields_run:
  "text_ok t \<Longrightarrow> js_field kvs ''content'' = JStr (cx_content t) \<Longrightarrow> js_field kvs ''provenance'' = provenance_js (cx_provenance t)
   \<Longrightarrow> parse_text_fields kvs n = Inr t"
  by (simp add: parse_text_fields_def text_ok_def parse_runs)

definition pending_ok :: "scope \<Rightarrow> string \<Rightarrow> string \<Rightarrow> pending_call \<Rightarrow> bool" where
  "pending_ok s run worker c \<longleftrightarrow> pt_scope c = s \<and> pt_run c = run \<and> pt_worker c = worker \<and> \<not> is_blank (pt_name c) \<and> is_json (pt_input c)
     \<and> (\<forall>e. pt_effect c = Some e \<longrightarrow> \<not> is_blank e) \<and> \<not> is_blank (pt_call c) \<and> provenance_ok (pt_provenance c)"

definition context_ok :: "run_context \<Rightarrow> bool" where
  "context_ok c \<longleftrightarrow> scope_ok (rx_scope c) \<and> \<not> is_blank (rx_run c) \<and> \<not> is_blank (rx_worker c) \<and> text_ok (rx_goal c)
     \<and> (\<forall>t \<in> set (rx_constraints c). text_ok t) \<and> (\<forall>m \<in> set (rx_messages c). \<not> is_blank (cm_role m) \<and> text_ok (cm_text m))
     \<and> (\<forall>t \<in> set (rx_pending c). pending_ok (rx_scope c) (rx_run c) (rx_worker c) t)
     \<and> (\<forall>m \<in> set (rx_hits c). \<not> is_blank (ch_memory m) \<and> text_ok (ch_text m))"

lemma optional_name_ok: "optional_field kvs k (\<lambda>v. expect_non_empty_string v n) = Inr (Some e) \<Longrightarrow> \<not> is_blank e"
  by (auto dest!: optional_field_Some simp: parse_iffs)

lemma parse_pending_call_ok: "parse_pending_call s run worker i v = Inr c \<Longrightarrow> pending_ok s run worker c"
  unfolding parse_pending_call_def
  by (elim parse_elims) (cases s, auto simp: parse_iffs pending_ok_def dest: parse_provenance_ok optional_name_ok)

lemma parse_pending_call_run:
  assumes "pending_ok s run worker c" "scope_ok s" "\<not> is_blank run" "\<not> is_blank worker"
  shows "parse_pending_call s run worker i (pending_js c) = Inr c"
proof -
  note ok = assms [unfolded pending_ok_def scope_ok_def]
  have "optional_field kvs ''effectKey'' (\<lambda>v. expect_non_empty_string v n) = Inr (pt_effect c)"
    if "js_field kvs ''effectKey'' = (case pt_effect c of None \<Rightarrow> JUndef | Some x \<Rightarrow> JStr x)" for kvs n
    using that ok by (intro optional_field_run [where g = JStr]) (auto simp: parse_runs)
  with ok show ?thesis
    by (cases c; cases s) (simp add: parse_pending_call_def pending_js_def parse_runs scope_fields_def)
qed

lemma parse_messages_ok: "parse_messages v = Inr ms \<Longrightarrow> m \<in> set ms \<Longrightarrow> \<not> is_blank (cm_role m) \<and> text_ok (cm_text m)"
  unfolding parse_messages_def parse_context_message_def
  by (auto simp: res_simps parse_iffs Let_def dest!: r_mapi_Inr_set parse_text_fields_ok)

lemma parse_memory_hits_ok: "parse_memory_hits v = Inr ms \<Longrightarrow> m \<in> set ms \<Longrightarrow> \<not> is_blank (ch_memory m) \<and> text_ok (ch_text m)"
  unfolding parse_memory_hits_def parse_context_hit_def
  by (auto simp: res_simps parse_iffs Let_def dest!: r_mapi_Inr_set parse_text_fields_ok)

lemma parse_pending_calls_ok: "parse_pending_calls s run worker v = Inr cs \<Longrightarrow> c \<in> set cs \<Longrightarrow> pending_ok s run worker c"
  unfolding parse_pending_calls_def by (auto simp: res_simps dest!: r_mapi_Inr_set parse_pending_call_ok)

lemma parse_context_text_ok: "parse_context_text v n = Inr t \<Longrightarrow> text_ok t"
  unfolding parse_context_text_def by (auto simp: res_simps dest: parse_text_fields_ok)

lemma constraints_ok: "r_mapi (\<lambda>i v. parse_context_text v (f i)) j vs = Inr ts \<Longrightarrow> t \<in> set ts \<Longrightarrow> text_ok t"
  by (auto dest!: r_mapi_Inr_set parse_context_text_ok)

lemma build_run_context_ok: "build_run_context v = Inr c \<Longrightarrow> context_ok c"
  unfolding build_run_context_def
  by (elim parse_elims)
    (auto simp: parse_iffs context_ok_def scope_ok_def dest: parse_messages_ok parse_memory_hits_ok parse_pending_calls_ok parse_context_text_ok constraints_ok)

lemma build_run_context_run:
  assumes "context_ok c" shows "build_run_context (run_context_js c) = Inr c"
proof -
  note ok = assms [unfolded context_ok_def]
  have again: "parse_context_text (JObj (text_fields t)) n = Inr t" if "text_ok t" for t n
    using that by (simp add: parse_context_text_def parse_runs parse_text_fields_run text_fields_def)
  have "parse_messages (JArr (map message_js (rx_messages c))) = Inr (rx_messages c)"
    using ok by (auto simp: parse_messages_def context_array_def parse_context_message_def message_js_def Let_def parse_runs text_fields_def
      parse_text_fields_run intro!: r_mapi_ok)
  moreover have "parse_memory_hits (JArr (map hit_js (rx_hits c))) = Inr (rx_hits c)"
    using ok by (auto simp: parse_memory_hits_def context_array_def parse_context_hit_def hit_js_def Let_def parse_runs text_fields_def
      parse_text_fields_run intro!: r_mapi_ok)
  moreover have "parse_pending_calls (rx_scope c) (rx_run c) (rx_worker c) (JArr (map pending_js (rx_pending c))) = Inr (rx_pending c)"
    using ok by (auto simp: parse_pending_calls_def context_array_def intro!: r_mapi_ok parse_pending_call_run)
  moreover have "r_mapi (\<lambda>i v. parse_context_text v (f i)) 0 (map (JObj \<circ> text_fields) (rx_constraints c)) = Inr (rx_constraints c)" for f
    using ok by (auto intro!: r_mapi_ok again)
  ultimately show ?thesis
    using ok again by (cases "rx_scope c") (simp add: build_run_context_def run_context_js_def scope_ok_def parse_runs context_array_def Let_def)
qed

section \<open>Compaction\<close>

lemma dedup_acc_append: "dedup_acc seen (xs @ ys) = dedup_acc seen xs @ dedup_acc (rev (dedup_acc seen xs) @ seen) ys"
  by (induction seen xs rule: dedup_acc.induct) auto

lemma dedup_acc_known: "set xs \<subseteq> set seen \<Longrightarrow> dedup_acc seen (xs @ ys) = dedup_acc seen ys"
  by (induction xs) auto

lemma dedup_again:
  assumes "set zs \<subseteq> set (xs @ ys)"
  shows "js_dedup (xs @ js_dedup (xs @ ys) @ zs) = js_dedup (xs @ ys)"
proof -
  let ?seen = "rev (js_dedup xs)"
  have D: "js_dedup (xs @ us) = js_dedup xs @ dedup_acc ?seen us" for us
    by (simp add: js_dedup_def dedup_acc_append)
  have seen: "set ?seen = set xs" by simp
  have "dedup_acc ?seen (js_dedup (xs @ ys) @ zs) = dedup_acc ?seen (dedup_acc ?seen ys @ zs)"
    unfolding D append_assoc by (rule dedup_acc_known) simp
  also have "\<dots> = dedup_acc ?seen ys @ dedup_acc (rev (dedup_acc ?seen ys) @ ?seen) zs"
    by (simp only: dedup_acc_append) (simp only: dedup_acc_distinct [of "dedup_acc ?seen ys" ?seen] distinct_dedup_acc set_dedup_acc Diff_disjoint Int_commute)
  also have "dedup_acc (rev (dedup_acc ?seen ys) @ ?seen) zs = []"
    using dedup_acc_known [of zs "rev (dedup_acc ?seen ys) @ ?seen" "[]"] assms by (auto simp: set_dedup_acc)
  finally show ?thesis by (simp only: D append_Nil2)
qed

lemma context_sources_ok: "context_ok c \<Longrightarrow> context_sources c \<noteq> [] \<and> (\<forall>x \<in> set (context_sources c). \<not> is_blank x)"
proof -
  assume ok: "context_ok c"
  have "set (context_sources c) \<noteq> {}" using ok by (auto simp: context_sources_def context_ok_def text_ok_def provenance_ok_def)
  moreover have "\<not> is_blank x" if "x \<in> set (context_sources c)" for x
    using that ok by (auto simp: context_sources_def context_ok_def text_ok_def pending_ok_def provenance_ok_def)
  ultimately show ?thesis by auto
qed

definition summarized :: "run_context \<Rightarrow> string \<Rightarrow> run_context" where
  "summarized c s = c\<lparr>rx_messages := [\<lparr>cm_role = ''summary'', cm_text = \<lparr>cx_content = s,
     cx_provenance = \<lparr>pv_source = ''compaction'', pv_events = context_sources c\<rparr>\<rparr>\<rparr>]\<rparr>"

lemma summarized_ok: "context_ok c \<Longrightarrow> \<not> is_blank s \<Longrightarrow> context_ok (summarized c s)"
  using context_sources_ok [of c]
  by (auto simp: context_ok_def summarized_def text_ok_def provenance_ok_def is_blank_iff is_space_def)

lemma compact_run: "context_ok c \<Longrightarrow> \<not> is_blank s \<Longrightarrow> compact_run_context c (JObj [(''summary'', JStr s)]) = Inr (summarized c s)"
  using build_run_context_run [OF summarized_ok] by (simp add: compact_run_context_def parse_runs summarized_def)

text \<open>The summary carries every event the context came from, so that compacting again adds and loses none.\<close>

lemma summarized_sources: "context_sources (summarized c s) = context_sources c"
proof -
  let ?xs = "pv_events (cx_provenance (rx_goal c)) @ concat (map (\<lambda>t. pv_events (cx_provenance t)) (rx_constraints c))"
  let ?zs = "concat (map (\<lambda>t. pv_events (pt_provenance t)) (rx_pending c)) @ concat (map (\<lambda>m. pv_events (cx_provenance (ch_text m))) (rx_hits c))"
  let ?ys = "concat (map (\<lambda>m. pv_events (cx_provenance (cm_text m))) (rx_messages c)) @ ?zs"
  have "context_sources c = js_dedup (?xs @ ?ys)" by (simp add: context_sources_def)
  moreover have "context_sources (summarized c s) = js_dedup (?xs @ js_dedup (?xs @ ?ys) @ ?zs)"
    by (simp add: summarized_def context_sources_def)
  moreover have "set ?zs \<subseteq> set (?xs @ ?ys)" by auto
  ultimately show ?thesis by (simp only: dedup_again)
qed

section \<open>Properties\<close>

definition demo_context :: run_context where
  "demo_context = \<lparr>rx_scope = demo_scope, rx_run = ''r'', rx_worker = ''k'',
     rx_goal = \<lparr>cx_content = ''g'', cx_provenance = \<lparr>pv_source = ''u'', pv_events = [''a'', ''a'']\<rparr>\<rparr>, rx_constraints = [],
     rx_messages = [\<lparr>cm_role = ''u'', cm_text = \<lparr>cx_content = ''m'', cx_provenance = \<lparr>pv_source = ''u'', pv_events = [''b'']\<rparr>\<rparr>\<rparr>],
     rx_pending = [\<lparr>pt_scope = demo_scope, pt_run = ''r'', pt_worker = ''k'', pt_name = ''t'', pt_input = JObj [], pt_effect = None,
       pt_call = ''c'', pt_provenance = \<lparr>pv_source = ''u'', pv_events = [''d'']\<rparr>\<rparr>],
     rx_hits = []\<rparr>"

lemma demo_context_builds: "build_run_context (run_context_js demo_context) = Inr demo_context"
  by (rule build_run_context_run)
    (simp add: context_ok_def demo_context_def demo_scope_def scope_ok_def text_ok_def provenance_ok_def pending_ok_def is_blank_iff is_space_def)

text \<open>
  C8. A built context is bound to its run and reads back. Whatever value a context is built from,
  every pending tool call in it has the scope, run and worker of the context, every part of it
  names at least one event it comes from, and building again from the object of the context gives
  the same context.
\<close>

theorem built_context_is_bound:
  assumes "build_run_context v = Inr c"
  shows "build_run_context (run_context_js c) = Inr c
    \<and> (\<forall>t \<in> set (rx_pending c). pt_scope t = rx_scope c \<and> pt_run t = rx_run c \<and> pt_worker t = rx_worker c)
    \<and> (\<forall>p \<in> {cx_provenance (rx_goal c)} \<union> (cx_provenance ` set (rx_constraints c)) \<union> ((cx_provenance \<circ> cm_text) ` set (rx_messages c))
          \<union> (pt_provenance ` set (rx_pending c)) \<union> ((cx_provenance \<circ> ch_text) ` set (rx_hits c)). pv_events p \<noteq> [])"
proof -
  have ok: "context_ok c" by (rule build_run_context_ok [OF assms])
  then show ?thesis using build_run_context_run [OF ok]
    by (auto simp: context_ok_def text_ok_def pending_ok_def provenance_ok_def)
qed

lemma built_context_is_bound_witness:
  "map pt_run (rx_pending demo_context) = [''r''] \<and> build_run_context (run_context_js demo_context) = Inr demo_context"
  using built_context_is_bound [OF demo_context_builds] by (simp add: demo_context_def)

text \<open>
  C19. Compaction loses no source. A blank summary is refused. Otherwise compacting replaces the
  messages by one message that holds the summary and names exactly the events that any part of
  the context came from; all else is kept, the result is a context that can be built again, and
  compacting it once more changes nothing.
\<close>

theorem compaction_loses_no_source:
  assumes "build_run_context v = Inr c"
  shows "(is_blank s \<longrightarrow> compact_run_context c (JObj [(''summary'', JStr s)])
          = Inl (SchemaValidationError ''RunContextSummary.summary must be a non-empty string''))
    \<and> (\<not> is_blank s \<longrightarrow> (\<exists>c' m. compact_run_context c (JObj [(''summary'', JStr s)]) = Inr c'
          \<and> c' = c\<lparr>rx_messages := [m]\<rparr> \<and> cx_content (cm_text m) = s
          \<and> set (pv_events (cx_provenance (cm_text m))) = set (pv_events (cx_provenance (rx_goal c)))
              \<union> (\<Union>t \<in> set (rx_constraints c). set (pv_events (cx_provenance t)))
              \<union> (\<Union>t \<in> set (rx_messages c). set (pv_events (cx_provenance (cm_text t))))
              \<union> (\<Union>t \<in> set (rx_pending c). set (pv_events (pt_provenance t)))
              \<union> (\<Union>t \<in> set (rx_hits c). set (pv_events (cx_provenance (ch_text t))))
          \<and> build_run_context (run_context_js c') = Inr c'
          \<and> compact_run_context c' (JObj [(''summary'', JStr s)]) = Inr c'))"
proof -
  have ok: "context_ok c" by (rule build_run_context_ok [OF assms])
  have again: "summarized (summarized c s) s = summarized c s"
    by (simp add: summarized_def [of "summarized c s"] summarized_sources) (simp add: summarized_def)
  have "compact_run_context c (JObj [(''summary'', JStr s)])
          = Inl (SchemaValidationError ''RunContextSummary.summary must be a non-empty string'')" if "is_blank s"
    using that by (simp add: compact_run_context_def expect_non_empty_string_def)
  moreover have "\<exists>m. summarized c s = c\<lparr>rx_messages := [m]\<rparr> \<and> cx_content (cm_text m) = s
      \<and> set (pv_events (cx_provenance (cm_text m))) = set (pv_events (cx_provenance (rx_goal c)))
              \<union> (\<Union>t \<in> set (rx_constraints c). set (pv_events (cx_provenance t)))
              \<union> (\<Union>t \<in> set (rx_messages c). set (pv_events (cx_provenance (cm_text t))))
              \<union> (\<Union>t \<in> set (rx_pending c). set (pv_events (pt_provenance t)))
              \<union> (\<Union>t \<in> set (rx_hits c). set (pv_events (cx_provenance (ch_text t))))"
    unfolding summarized_def by (intro exI conjI refl) (auto simp: context_sources_def)
  moreover have "compact_run_context c (JObj [(''summary'', JStr s)]) = Inr (summarized c s)"
      "build_run_context (run_context_js (summarized c s)) = Inr (summarized c s)"
      "compact_run_context (summarized c s) (JObj [(''summary'', JStr s)]) = Inr (summarized c s)" if "\<not> is_blank s"
    using compact_run [OF ok that] compact_run [OF summarized_ok [OF ok that] that] build_run_context_run [OF summarized_ok [OF ok that]]
    by (simp_all add: again)
  ultimately show ?thesis by blast
qed

lemma compaction_loses_no_source_witness:
  "\<exists>m. compact_run_context demo_context (JObj [(''summary'', JStr ''s'')]) = Inr (demo_context\<lparr>rx_messages := [m]\<rparr>)
     \<and> set (pv_events (cx_provenance (cm_text m))) = {''a'', ''b'', ''d''}"
proof -
  have "\<not> is_blank ''s''" by (simp add: is_blank_iff is_space_def)
  with compaction_loses_no_source [OF demo_context_builds, of "''s''"]
  obtain m where m: "compact_run_context demo_context (JObj [(''summary'', JStr ''s'')]) = Inr (demo_context\<lparr>rx_messages := [m]\<rparr>)"
    "set (pv_events (cx_provenance (cm_text m))) = set (pv_events (cx_provenance (rx_goal demo_context)))
              \<union> (\<Union>t \<in> set (rx_constraints demo_context). set (pv_events (cx_provenance t)))
              \<union> (\<Union>t \<in> set (rx_messages demo_context). set (pv_events (cx_provenance (cm_text t))))
              \<union> (\<Union>t \<in> set (rx_pending demo_context). set (pv_events (pt_provenance t)))
              \<union> (\<Union>t \<in> set (rx_hits demo_context). set (pv_events (cx_provenance (ch_text t))))" by blast
  then show ?thesis by (intro exI [of _ m]) (auto simp: demo_context_def)
qed

end
