(* ===== verification/Trace.thy ===== *)
theory Trace
  imports RunManager
begin

text \<open>
  The trace of a run (\<open>packages/trace/src/index.ts\<close>): the events of a run, in order, become a tree
  of spans (the agent, its turns, their inferences and tool calls), and a live cursor that reads
  the streams of the run as they grow. A span is known by its position in the list of spans, which
  stands for the object the code keeps a reference to.
\<close>

section \<open>Spans\<close>

datatype trace_status = SpanOk | SpanError | SpanUnset

datatype span_kind = AgentSpan | TurnSpan | InferenceSpan | ToolSpan

record span_event =
  se_name :: string
  se_time :: string
  se_attributes :: "(string \<times> js) list"

record span =
  sp_id :: string
  sp_parent :: "string option"
  sp_name :: string
  sp_kind :: span_kind
  sp_start :: string
  sp_end :: "string option"
  sp_duration :: int
  sp_status :: trace_status
  sp_attributes :: "js js_map"
  sp_events :: "span_event list"

record trace_options =
  op_run :: string
  op_surface :: string
  op_scope :: scope
  op_conversation :: "string option"

fun is_number :: "js \<Rightarrow> bool" where
  "is_number (JNum _) = True"
| "is_number JNonFinite = True"
| "is_number _ = False"

fun is_scalar :: "js \<Rightarrow> bool" where
  "is_scalar (JStr _) = True"
| "is_scalar (JBool _) = True"
| "is_scalar (JNum _) = True"
| "is_scalar _ = False"

definition scalar_attributes :: "js \<Rightarrow> (string \<times> js) list" where
  "scalar_attributes v = filter (\<lambda>kv. is_scalar (snd kv)) (record_or_empty v)"

definition new_span :: "string \<Rightarrow> string option \<Rightarrow> string \<Rightarrow> span_kind \<Rightarrow> string \<Rightarrow> js js_map \<Rightarrow> span" where
  "new_span i parent name kind start attributes = \<lparr>sp_id = i, sp_parent = parent, sp_name = name, sp_kind = kind, sp_start = start,
     sp_end = None, sp_duration = 0, sp_status = SpanUnset, sp_attributes = attributes, sp_events = []\<rparr>"

definition close_span :: "host \<Rightarrow> string \<Rightarrow> trace_status \<Rightarrow> span \<Rightarrow> span" where
  "close_span h time status target =
     (if sp_end target \<noteq> None then target
      else target\<lparr>sp_end := Some time,
        sp_duration := (case (date_parse h time, date_parse h (sp_start target)) of (Some t, Some u) \<Rightarrow> max 0 (t - u) | _ \<Rightarrow> 0),
        sp_status := status\<rparr>)"

section \<open>The events of a run\<close>

definition event_belongs_to_trace :: "trace_options \<Rightarrow> canonical_event \<Rightarrow> bool" where
  "event_belongs_to_trace opt e =
     (if sc_workspace (ev_scope e) \<noteq> sc_workspace (op_scope opt) \<or> sc_channel (ev_scope e) \<noteq> sc_channel (op_scope opt) then False
      else if ev_stream e = op_run opt then True
      else if \<not> is_record (ev_payload e) then False
      else if string_field (ev_payload e) ''parentRunId'' = Some (op_run opt) then True
      else if string_field (ev_payload e) ''runId'' \<noteq> Some (op_run opt) then False
      else starts_with (ev_stream e) (''tool:'' @ op_run opt @ '':'') \<or> starts_with (ev_stream e) ''effect:'')"

text \<open>The signs of \<open>localeCompare\<close> and of the difference of two times, which may be \<open>NaN\<close>.\<close>

definition locale_compare :: "host \<Rightarrow> string \<Rightarrow> string \<Rightarrow> int" where
  "locale_compare h a b = (if \<not> locale_le h b a then -1 else if \<not> locale_le h a b then 1 else 0)"

definition time_compare :: "host \<Rightarrow> string \<Rightarrow> string \<Rightarrow> int" where
  "time_compare h a b = (case (date_parse h a, date_parse h b) of (Some t, Some u) \<Rightarrow> t - u | _ \<Rightarrow> 0)"

definition js_or :: "int \<Rightarrow> int \<Rightarrow> int" where
  "js_or a b = (if a \<noteq> 0 then a else b)"

definition compare_events :: "host \<Rightarrow> canonical_event \<Rightarrow> canonical_event \<Rightarrow> int" where
  "compare_events h l r =
     js_or (time_compare h (ev_timestamp l) (ev_timestamp r))
       (js_or (locale_compare h (ev_stream l) (ev_stream r))
         (js_or (ev_seq l - ev_seq r) (locale_compare h (ev_id l) (ev_id r))))"

text \<open>The last key of the comparison, the index, is what makes the sort stable.\<close>

definition trace_events :: "host \<Rightarrow> trace_options \<Rightarrow> canonical_event list \<Rightarrow> canonical_event list" where
  "trace_events h opt events = sort_by (\<lambda>l r. compare_events h l r \<le> 0) (filter (event_belongs_to_trace opt) events)"

text \<open>\<open>a ?? b\<close>.\<close>

definition nullish_or :: "js \<Rightarrow> js \<Rightarrow> js" where
  "nullish_or a b = (if a = JUndef \<or> a = JNull then b else a)"

definition payload_name :: "string \<Rightarrow> string \<Rightarrow> canonical_event \<Rightarrow> string option" where
  "payload_name k k' e =
     (case ev_payload e of
        JObj kvs \<Rightarrow> (case nullish_or (js_field kvs k) (js_field kvs k') of JStr s \<Rightarrow> if s \<noteq> [] then Some s else None | _ \<Rightarrow> None)
      | _ \<Rightarrow> None)"

definition conversation_id_from_event :: "canonical_event list \<Rightarrow> string \<Rightarrow> string" where
  "conversation_id_from_event events fallback =
     (case find_map (payload_name ''thread_id'' ''threadId'') events of
        Some s \<Rightarrow> s
      | None \<Rightarrow> (case find_map (payload_name ''conversation_id'' ''conversationId'') events of Some s \<Rightarrow> s | None \<Rightarrow> fallback))"

definition is_run_terminal :: "string \<Rightarrow> bool" where
  "is_run_terminal ty \<longleftrightarrow> ty = ''run.completed'' \<or> ty = ''run.awaiting_input'' \<or> ty = ''run.awaiting_approval''
     \<or> ty = ''run.failed'' \<or> ty = ''run.timed_out'' \<or> ty = ''run.cancelled''"

section \<open>One event\<close>

text \<open>The spans so far, the current turn and inference, and the open tool calls by their identifier.\<close>

record tracer =
  tc_spans :: "span list"
  tc_turn :: "nat option"
  tc_inference :: "nat option"
  tc_tools :: "nat js_map"

definition update_span :: "nat \<Rightarrow> (span \<Rightarrow> span) \<Rightarrow> tracer \<Rightarrow> tracer" where
  "update_span k f t = t\<lparr>tc_spans := (tc_spans t)[k := f (tc_spans t ! k)]\<rparr>"

definition set_attribute :: "string \<Rightarrow> js \<Rightarrow> span \<Rightarrow> span" where
  "set_attribute k v s = s\<lparr>sp_attributes := js_set k v (sp_attributes s)\<rparr>"

definition span_open :: "tracer \<Rightarrow> nat option \<Rightarrow> bool" where
  "span_open t k = (case k of None \<Rightarrow> False | Some k \<Rightarrow> sp_end (tc_spans t ! k) = None)"

text \<open>\<open>if (x !== undefined) f(x)\<close>.\<close>

definition update_if :: "nat option \<Rightarrow> (span \<Rightarrow> span) \<Rightarrow> tracer \<Rightarrow> tracer" where
  "update_if k f t = (case k of None \<Rightarrow> t | Some k \<Rightarrow> update_span k f t)"

definition next_span_id :: "tracer \<Rightarrow> string" where
  "next_span_id t = ''s'' @ show_nat (length (tc_spans t) + 1)"

definition count_turns :: "tracer \<Rightarrow> nat" where
  "count_turns t = length (filter (\<lambda>s. sp_kind s = TurnSpan) (tc_spans t))"

definition append_span_event :: "canonical_event \<Rightarrow> tracer \<Rightarrow> tracer" where
  "append_span_event e t =
     (let target = (case string_field (ev_payload e) ''toolCallId'' of None \<Rightarrow> None | Some i \<Rightarrow> map_of (tc_tools t) i);
          container = (case target of
              Some k \<Rightarrow> k
            | None \<Rightarrow> if span_open t (tc_inference t) then the (tc_inference t)
                      else (case tc_turn t of Some k \<Rightarrow> k | None \<Rightarrow> 0)) in
      update_span container (\<lambda>s. s\<lparr>sp_events := sp_events s @
        [\<lparr>se_name = ev_type e, se_time = ev_timestamp e, se_attributes = scalar_attributes (ev_payload e)\<rparr>]\<rparr>) t)"

definition parent_id :: "tracer \<Rightarrow> string" where
  "parent_id t = sp_id (tc_spans t ! (case tc_turn t of Some k \<Rightarrow> k | None \<Rightarrow> 0))"

definition tool_call_id :: "canonical_event \<Rightarrow> string" where
  "tool_call_id e = (case string_field (ev_payload e) ''toolCallId'' of Some i \<Rightarrow> i | None \<Rightarrow> ev_id e)"

definition open_tool :: "canonical_event \<Rightarrow> tracer \<Rightarrow> tracer" where
  "open_tool e t =
     (let tool = (case string_field (ev_payload e) ''tool'' of Some s \<Rightarrow> s | None \<Rightarrow> ''unknown'');
          s = new_span (next_span_id t) (Some (parent_id t)) (''execute_tool '' @ tool) ToolSpan (ev_timestamp e)
            [(''gen_ai.operation.name'', JStr ''execute_tool''), (''gen_ai.tool.name'', JStr tool),
             (''anna.tool.call_id'', JStr (tool_call_id e))] in
      t\<lparr>tc_spans := tc_spans t @ [s], tc_tools := js_set (tool_call_id e) (length (tc_spans t)) (tc_tools t)\<rparr>)"

definition close_tool :: "string \<Rightarrow> tracer \<Rightarrow> tracer" where
  "close_tool i t = t\<lparr>tc_tools := filter (\<lambda>kv. fst kv \<noteq> i) (tc_tools t)\<rparr>"

definition trace_tool_started :: "host \<Rightarrow> canonical_event \<Rightarrow> tracer \<Rightarrow> tracer" where
  "trace_tool_started h e t =
     (if map_of (tc_tools t) (tool_call_id e) \<noteq> None then t
      else open_tool e (update_if (tc_inference t) (close_span h (ev_timestamp e) SpanOk) t))"

definition trace_tool_ended :: "host \<Rightarrow> canonical_event \<Rightarrow> tracer \<Rightarrow> tracer" where
  "trace_tool_ended h e t =
     (case map_of (tc_tools t) (tool_call_id e) of
        Some k \<Rightarrow>
          let failed = (string_field (ev_payload e) ''outcome'' = Some ''failed'' \<or> string_field (ev_payload e) ''status'' = Some ''failed''
                \<or> string_field (ev_payload e) ''status'' = Some ''unknown'') in
          close_tool (tool_call_id e) (update_span k (close_span h (ev_timestamp e) (if failed then SpanError else SpanOk)) t)
      | None \<Rightarrow> append_span_event e t)"

definition orphan_span :: "host \<Rightarrow> string \<Rightarrow> nat option \<Rightarrow> tracer \<Rightarrow> tracer" where
  "orphan_span h time k t =
     (if span_open t k then update_span (the k) (close_span h time SpanError \<circ> set_attribute ''anna.orphaned'' (JBool True)) t else t)"

definition child_status :: "tracer \<Rightarrow> nat \<Rightarrow> trace_status" where
  "child_status t k =
     (if \<exists>s \<in> set (tc_spans t). sp_parent s = Some (sp_id (tc_spans t ! k)) \<and> sp_status s = SpanError then SpanError else SpanOk)"

text \<open>\<open>if (currentTurn !== undefined && currentTurn.end_time === null) closeSpan(...)\<close>, with the status of its children.\<close>

definition close_turn :: "host \<Rightarrow> string \<Rightarrow> tracer \<Rightarrow> tracer" where
  "close_turn h time t =
     (if span_open t (tc_turn t) then update_span (the (tc_turn t)) (close_span h time (child_status t (the (tc_turn t)))) t else t)"

definition trace_run_end :: "host \<Rightarrow> canonical_event \<Rightarrow> tracer \<Rightarrow> tracer" where
  "trace_run_end h e t =
     (let status = (if ev_type e = ''run.completed'' then SpanOk
            else if ev_type e = ''run.awaiting_input'' \<or> ev_type e = ''run.awaiting_approval'' then SpanUnset else SpanError);
          orphaned = fold (orphan_span h (ev_timestamp e)) (tc_inference t # map (Some \<circ> snd) (tc_tools t)) t;
          closed = close_turn h (ev_timestamp e) orphaned in
      update_span 0 (set_attribute ''anna.outcome'' (JStr (drop 4 (ev_type e))) \<circ> close_span h (ev_timestamp e) status) closed)"

text \<open>A turn and its inference, and the number of turns so far on the root.\<close>

definition open_turn :: "canonical_event \<Rightarrow> js js_map \<Rightarrow> tracer \<Rightarrow> tracer" where
  "open_turn e attributes t =
     (let model = string_field (ev_payload e) ''model''; n = length (tc_spans t);
          turn = new_span (next_span_id t) (Some (sp_id (tc_spans t ! 0))) (''turn '' @ show_nat (count_turns t + 1)) TurnSpan
            (ev_timestamp e) attributes;
          t1 = t\<lparr>tc_spans := tc_spans t @ [turn], tc_turn := Some n\<rparr>;
          inference = new_span (next_span_id t1) (Some (sp_id turn)) (case model of None \<Rightarrow> ''chat'' | Some m \<Rightarrow> ''chat '' @ m) InferenceSpan
            (ev_timestamp e) ((''gen_ai.operation.name'', JStr ''chat'') # opt_field ''gen_ai.request.model'' JStr model);
          t2 = t1\<lparr>tc_spans := tc_spans t1 @ [inference], tc_inference := Some (n + 1)\<rparr> in
      update_span 0 (set_attribute ''anna.turns'' (JNum (of_nat (count_turns t2)))) t2)"

definition trace_model_requested :: "host \<Rightarrow> canonical_event \<Rightarrow> tracer \<Rightarrow> tracer" where
  "trace_model_requested h e t =
     (let t1 = orphan_span h (ev_timestamp e) (tc_inference t) t;
          t2 = (if span_open t1 (tc_turn t1) then update_span (the (tc_turn t1)) (close_span h (ev_timestamp e) SpanOk) t1 else t1);
          index = js_field (record_or_empty (ev_payload e)) ''requestIndex'' in
      open_turn e (if is_number index then [(''anna.request.index'', index)] else []) t2)"

text \<open>\<open>if (typeof x === "number" && Number.isFinite(x)) span.attributes[key] = x\<close>.\<close>

definition number_attribute :: "string \<Rightarrow> js \<Rightarrow> span \<Rightarrow> span" where
  "number_attribute k v s = (case v of JNum q \<Rightarrow> set_attribute k (JNum q) s | _ \<Rightarrow> s)"

definition trace_model_response :: "host \<Rightarrow> canonical_event \<Rightarrow> tracer \<Rightarrow> tracer" where
  "trace_model_response h e t =
     (if span_open t (tc_inference t) then
        let message = record_or_empty (js_field (record_or_empty (ev_payload e)) ''message'');
            usage = record_or_empty (js_field message ''usage'') in
        update_span (the (tc_inference t)) (\<lambda>s. close_span h (ev_timestamp e) SpanOk
          ((case js_field message ''stopReason'' of JStr r \<Rightarrow> set_attribute ''gen_ai.response.finish_reasons'' (JArr [JStr r]) | _ \<Rightarrow> (\<lambda>s. s))
            (number_attribute ''gen_ai.usage.output_tokens'' (js_field usage ''output'')
              (number_attribute ''gen_ai.usage.input_tokens'' (js_field usage ''input'') s)))) t
      else append_span_event e t)"

definition trace_tool_dispatch :: "canonical_event \<Rightarrow> tracer \<Rightarrow> tracer" where
  "trace_tool_dispatch e t = (if map_of (tc_tools t) (tool_call_id e) \<noteq> None then t else open_tool e t)"

definition trace_tool_response :: "host \<Rightarrow> canonical_event \<Rightarrow> tracer \<Rightarrow> tracer" where
  "trace_tool_response h e t =
     (case string_field (ev_payload e) ''toolCallId'' of
        None \<Rightarrow> append_span_event e t
      | Some i \<Rightarrow> (case map_of (tc_tools t) i of
          None \<Rightarrow> append_span_event e t
        | Some k \<Rightarrow>
            let status = string_field (js_field (record_or_empty (ev_payload e)) ''result'') ''status'' in
            close_tool i (update_span k (\<lambda>s. close_span h (ev_timestamp e) (if status = Some ''succeeded'' then SpanOk else SpanError)
              (case status of None \<Rightarrow> s | Some x \<Rightarrow> set_attribute ''anna.tool.status'' (JStr x) s)) t)))"

definition trace_turn_end :: "host \<Rightarrow> canonical_event \<Rightarrow> tracer \<Rightarrow> tracer" where
  "trace_turn_end h e t =
     (let t1 = append_span_event e t in
      if tc_inference t1 = None \<or> \<not> span_open t1 (tc_inference t1) then close_turn h (ev_timestamp e) t1 else t1)"

definition trace_turn_finished :: "host \<Rightarrow> canonical_event \<Rightarrow> tracer \<Rightarrow> tracer" where
  "trace_turn_finished h e t =
     (let usage = record_or_empty (js_field (record_or_empty (ev_payload e)) ''usage'');
          t1 = update_if (tc_inference t) (\<lambda>s. close_span h (ev_timestamp e) SpanOk
            (number_attribute ''anna.usage.cost'' (js_field usage ''cost'')
              (number_attribute ''gen_ai.usage.output_tokens'' (js_field usage ''output'')
                (number_attribute ''gen_ai.usage.input_tokens'' (js_field usage ''input'') s)))) t;
          t2 = update_if (tc_turn t) (close_span h (ev_timestamp e) SpanOk) t1 in
      t2\<lparr>tc_inference := None, tc_turn := None\<rparr>)"

definition trace_event :: "host \<Rightarrow> string \<Rightarrow> canonical_event \<Rightarrow> tracer \<Rightarrow> tracer" where
  "trace_event h run e t =
     (let ty = ev_type e; own = (ev_stream e = run); rec = is_record (ev_payload e);
          phase = string_field (ev_payload e) ''phase'' in
      if ty \<in> {''run.tool.started'', ''run.tool.completed'', ''tool.requested'', ''tool.result''} \<and> rec
      then if ty = ''run.tool.started'' \<or> ty = ''tool.requested'' then trace_tool_started h e t else trace_tool_ended h e t
      else if is_run_terminal ty \<and> own then trace_run_end h e t
      else if is_run_terminal ty then append_span_event e t
      else if ty = ''run.started'' \<and> own then t
      else if ty = ''run.model.requested'' \<and> own \<and> rec then trace_model_requested h e t
      else if ty = ''omp.model.response'' \<and> own \<and> rec then trace_model_response h e t
      else if ty = ''omp.tool.dispatch'' \<and> own \<and> rec then trace_tool_dispatch e t
      else if ty = ''omp.tool.response'' \<and> own \<and> rec then trace_tool_response h e t
      else if ty = ''run.progress'' \<and> rec \<and> phase = Some ''turn_end'' then trace_turn_end h e t
      else if ty \<noteq> ''run.progress'' \<or> \<not> rec then append_span_event e t
      else if phase = Some ''turn_finished'' then trace_turn_finished h e t
      else if phase \<noteq> Some ''model_response_started'' then append_span_event e t
      else open_turn e [] t)"

definition root_span :: "trace_options \<Rightarrow> canonical_event list \<Rightarrow> span" where
  "root_span opt events = new_span ''s1'' None (''invoke_agent '' @ op_surface opt) AgentSpan (ev_timestamp (hd events))
     [(''gen_ai.operation.name'', JStr ''invoke_agent''), (''gen_ai.agent.name'', JStr (''anna.'' @ op_surface opt)),
      (''gen_ai.conversation.id'', JStr (case op_conversation opt of Some c \<Rightarrow> c | None \<Rightarrow> conversation_id_from_event events (op_run opt))),
      (''anna.turns'', JNum 0)]"

text \<open>The spans of the document; its other fields are those of the options.\<close>

definition project_trace :: "host \<Rightarrow> canonical_event list \<Rightarrow> trace_options \<Rightarrow> span list" where
  "project_trace h events opt =
     (case trace_events h opt events of
        [] \<Rightarrow> []
      | evs \<Rightarrow> tc_spans (fold (trace_event h (op_run opt)) evs
          \<lparr>tc_spans = [root_span opt evs], tc_turn = None, tc_inference = None, tc_tools = []\<rparr>))"

section \<open>The live cursor\<close>

record live_trace =
  lt_events :: "canonical_event list"
  lt_last :: "int js_map"

definition take_event :: "string \<Rightarrow> canonical_event \<Rightarrow> live_trace \<Rightarrow> live_trace" where
  "take_event stream e lt =
     (case map_of (lt_last lt) stream of
        Some n \<Rightarrow> if ev_seq e \<le> n then lt
          else \<lparr>lt_events = lt_events lt @ [e], lt_last = js_set stream (ev_seq e) (lt_last lt)\<rparr>
      | None \<Rightarrow> \<lparr>lt_events = lt_events lt @ [e], lt_last = js_set stream (ev_seq e) (lt_last lt)\<rparr>)"

definition read_stream :: "'s channel_ops \<Rightarrow> string \<Rightarrow> (live_trace \<times> 's, js_error, unit) action" where
  "read_stream ops stream = (\<lambda>(lt, s).
     let last_seq = (case map_of (lt_last lt) stream of Some n \<Rightarrow> n | None \<Rightarrow> -1) in
     case co_read ops stream (if last_seq < 0 then None else Some last_seq) s of
       (Inl e, s') \<Rightarrow> (Inl e, (lt, s'))
     | (Inr events, s') \<Rightarrow> (Inr (), (fold (take_event stream) events lt, s')))"

text \<open>The document and the cursors of a snapshot; the cursor of the run's own stream is among them.\<close>

definition live_read ::
    "host \<Rightarrow> 's channel_ops \<Rightarrow> string \<Rightarrow> trace_options \<Rightarrow> (live_trace \<times> 's, js_error, span list \<times> (string \<times> int) list) action" where
  "live_read h ops stream opt =
     act_bind (on_store (co_list_run_stream_ids ops (op_run opt))) (\<lambda>ids.
     act_seq (act_for (read_stream ops) (sort (js_dedup (stream # ids))))
       (\<lambda>(lt, s). (Inr (project_trace h (lt_events lt) opt,
          sort_by (\<lambda>l r. locale_compare h (fst l) (fst r) \<le> 0) (lt_last lt)), (lt, s))))"

end
