(* ===== verification/TraceOrder.thy ===== *)
theory TraceOrder
  imports Trace SteadyActions "HOL-Library.Multiset"
begin

text \<open>
  What a trace depends on: not on the order in which the events were read, when their comparison
  can tell them apart. A live cursor has read of each stream a prefix, each event once, so its
  document is that of the events up to its positions.
\<close>

section \<open>The order of the events\<close>

definition good_compare :: "('a \<Rightarrow> 'a \<Rightarrow> int) \<Rightarrow> bool" where
  "good_compare c \<longleftrightarrow> (\<forall>a b. c a b < 0 \<longleftrightarrow> 0 < c b a) \<and> (\<forall>a b d. c a b \<le> 0 \<longrightarrow> c b d \<le> 0 \<longrightarrow> c a d \<le> 0)"

lemma good_compareD:
  "good_compare c \<Longrightarrow> c a b < 0 \<longleftrightarrow> 0 < c b a" "good_compare c \<Longrightarrow> c a b \<le> 0 \<Longrightarrow> c b d \<le> 0 \<Longrightarrow> c a d \<le> 0"
  unfolding good_compare_def by blast+

lemma good_compare_zero: "good_compare c \<Longrightarrow> c a b = 0 \<longleftrightarrow> c b a = 0"
  using good_compareD(1) [of c a b] good_compareD(1) [of c b a] by linarith

lemma good_compare_strict: 
  assumes c: "good_compare c" and le: "c a b \<le> 0" "c b d \<le> 0" and strict: "c a b < 0 \<or> c b d < 0"
  shows "c a d < 0"
proof (rule ccontr)
  assume "\<not> c a d < 0"
  with good_compareD(2) [OF c le] have "c a d = 0" by simp
  then have "c d a \<le> 0" using good_compare_zero [OF c, of a d] by simp
  then have "c b a \<le> 0" "c d b \<le> 0" using good_compareD(2) [OF c le(2)] good_compareD(2) [OF c _ le(1)] by simp_all
  with strict good_compareD(1) [OF c, of a b] good_compareD(1) [OF c, of b d] show False by simp
qed

lemma good_js_or:
  assumes c: "good_compare c" and d: "good_compare d" shows "good_compare (\<lambda>a b. js_or (c a b) (d a b))"
  unfolding good_compare_def
proof (intro conjI allI impI)
  fix x y show "js_or (c x y) (d x y) < 0 \<longleftrightarrow> 0 < js_or (c y x) (d y x)"
    using good_compareD(1) [OF c, of x y] good_compareD(1) [OF d, of x y] good_compare_zero [OF c, of x y] by (auto simp: js_or_def)
next
  fix x y z assume xy: "js_or (c x y) (d x y) \<le> 0" and yz: "js_or (c y z) (d y z) \<le> 0"
  then have le: "c x y \<le> 0" "c y z \<le> 0" by (auto simp: js_or_def split: if_splits)
  show "js_or (c x z) (d x z) \<le> 0"
  proof (cases "c x y < 0 \<or> c y z < 0")
    case True
    with good_compare_strict [OF c le] show ?thesis by (simp add: js_or_def)
  next
    case False
    with le have "c x y = 0" "c y z = 0" by simp_all
    with xy yz have "d x y \<le> 0" "d y z \<le> 0" by (simp_all add: js_or_def)
    with good_compareD(2) [OF d] good_compareD(2) [OF c le] show ?thesis by (auto simp: js_or_def)
  qed
qed

lemma good_int: "good_compare (\<lambda>a b. f a - f b :: int)"
  by (simp add: good_compare_def)

lemma locale_compare_iff:
  assumes "total_preorder (locale_le h)"
  shows "locale_compare h a b \<le> 0 \<longleftrightarrow> locale_le h a b" "locale_compare h a b < 0 \<longleftrightarrow> \<not> locale_le h b a"
    "0 < locale_compare h a b \<longleftrightarrow> \<not> locale_le h a b"
  using total_preorderD(1) [OF assms, of a b] by (auto simp: locale_compare_def)

lemma good_locale:
  assumes "total_preorder (locale_le h)" shows "good_compare (\<lambda>a b. locale_compare h (f a) (f b))"
  unfolding good_compare_def locale_compare_iff [OF assms] using total_preorderD(2) [OF assms] by blast

lemma good_total: "good_compare c \<Longrightarrow> total_preorder (\<lambda>a b. c a b \<le> 0)"
  unfolding total_preorder_def using good_compareD [of c] by (metis linorder_not_less nle_le)

lemma insort_by_cong: "(\<And>y. y \<in> set ys \<Longrightarrow> le x y = le' x y) \<Longrightarrow> insort_by le x ys = insort_by le' x ys"
  by (induction ys) auto

lemma sort_by_cong: "(\<And>a b. a \<in> set xs \<Longrightarrow> b \<in> set xs \<Longrightarrow> le a b = le' a b) \<Longrightarrow> sort_by le xs = sort_by le' xs"
proof (induction xs)
  case (Cons x xs)
  then have "sort_by le xs = sort_by le' xs" by simp
  moreover have "insort_by le x (sort_by le' xs) = insort_by le' x (sort_by le' xs)" using Cons.prems by (intro insort_by_cong) simp
  ultimately show ?case by simp
qed simp

lemma mset_insort_by [simp]: "mset (insort_by le x xs) = add_mset x (mset xs)"
  by (induction xs) auto

lemma mset_sort_by [simp]: "mset (sort_by le xs) = mset xs"
  by (induction xs) auto

lemma sorted_unique:
  "sorted_wrt le xs \<Longrightarrow> sorted_wrt le ys \<Longrightarrow> mset xs = mset ys \<Longrightarrow> (\<And>a b. a \<in> set xs \<Longrightarrow> b \<in> set xs \<Longrightarrow> le a b \<Longrightarrow> le b a \<Longrightarrow> a = b) \<Longrightarrow> xs = ys"
proof (induction xs arbitrary: ys)
  case (Cons x xs)
  then obtain y ys' where ys: "ys = y # ys'" by (cases ys) auto
  have sets: "set (x # xs) = set (y # ys')" using Cons.prems(3) ys by (metis mset_eq_setD)
  have "x = y"
  proof (rule ccontr)
    assume "x \<noteq> y"
    then have "x \<in> set ys'" "y \<in> set xs" using sets by (metis list.set(2) insert_iff)+
    then have "le y x" "le x y" using Cons.prems(1,2) ys by auto
    moreover have "y \<in> set (x # xs)" using sets by (metis list.set_intros(1))
    ultimately show False using Cons.prems(4) [of x y] \<open>x \<noteq> y\<close> by simp
  qed
  with Cons.prems ys Cons.IH [of ys'] show ?case by auto
qed simp

text \<open>Equal comparison, on events whose times can be read.\<close>

definition apart :: "host \<Rightarrow> canonical_event list \<Rightarrow> bool" where
  "apart h es \<longleftrightarrow> (\<forall>e \<in> set es. date_parse h (ev_timestamp e) \<noteq> None)
     \<and> (\<forall>e \<in> set es. \<forall>e' \<in> set es. compare_events h e e' = 0 \<longrightarrow> e = e')"

lemma sort_by_mset:
  assumes "total_preorder le" "mset xs = mset ys" "\<And>a b. a \<in> set xs \<Longrightarrow> b \<in> set xs \<Longrightarrow> le a b \<Longrightarrow> le b a \<Longrightarrow> a = b"
  shows "sort_by le xs = sort_by le ys"
  using assms by (intro sorted_unique [OF sorted_sort_by sorted_sort_by]) simp_all

lemma sort_events_order:
  assumes le: "total_preorder (locale_le h)" and same: "mset es = mset es'" and apart: "apart h es"
  shows "sort_by (\<lambda>l r. compare_events h l r \<le> 0) es = sort_by (\<lambda>l r. compare_events h l r \<le> 0) es'"
proof -
  define c :: "canonical_event \<Rightarrow> canonical_event \<Rightarrow> int" where "c = (\<lambda>l r. js_or ((\<lambda>l r. the (date_parse h (ev_timestamp l)) - the (date_parse h (ev_timestamp r))) l r)
       ((\<lambda>l r. js_or ((\<lambda>l r. locale_compare h (ev_stream l) (ev_stream r)) l r)
         ((\<lambda>l r. js_or ((\<lambda>l r. ev_seq l - ev_seq r) l r) ((\<lambda>l r. locale_compare h (ev_id l) (ev_id r)) l r)) l r)) l r))"
  have good: "good_compare c" unfolding c_def by (rule good_js_or [OF good_int good_js_or [OF good_locale [OF le] good_js_or [OF good_int good_locale [OF le]]]])
  have sets: "set es = set es'" using same by (rule mset_eq_setD)
  have c: "compare_events h a b = c a b" if "a \<in> set es" "b \<in> set es" for a b
  proof -
    from apart that obtain t u where "date_parse h (ev_timestamp a) = Some t" "date_parse h (ev_timestamp b) = Some u" unfolding apart_def by blast
    then show ?thesis by (simp add: compare_events_def c_def time_compare_def)
  qed
  have sorted: "sort_by (\<lambda>l r. compare_events h l r \<le> 0) xs = sort_by (\<lambda>a b. c a b \<le> 0) xs" if "set xs = set es" for xs
    using that by (intro sort_by_cong) (simp only: c)
  have "sort_by (\<lambda>a b. c a b \<le> 0) es = sort_by (\<lambda>a b. c a b \<le> 0) es'"
  proof (rule sort_by_mset [OF good_total [OF good] same])
    fix a b assume ab: "a \<in> set es" "b \<in> set es" and le: "c a b \<le> 0" "c b a \<le> 0"
    have "c a b = 0" using le good_compareD(1) [OF good, of a b] by linarith
    with ab show "a = b" using apart c by (simp add: apart_def)
  qed
  with sorted sets show ?thesis by simp
qed

lemma trace_events_order:
  assumes "total_preorder (locale_le h)" "mset es = mset es'" "apart h es"
  shows "trace_events h opt es = trace_events h opt es'"
  unfolding trace_events_def using assms by (intro sort_events_order) (auto simp: apart_def mset_filter)

lemma project_trace_order:
  "total_preorder (locale_le h) \<Longrightarrow> mset es = mset es' \<Longrightarrow> apart h es \<Longrightarrow> project_trace h es opt = project_trace h es' opt"
  by (simp add: project_trace_def trace_events_order)

section \<open>The live cursor\<close>

lemma update_concat:
  "distinct (map fst m) \<Longrightarrow> map_of m i = Some n \<Longrightarrow>
   mset (concat (map g (js_set i n' m))) + mset (g (i, n)) = mset (concat (map g m)) + mset (g (i, n'))"
proof (induction m)
  case (Cons kv m)
  show ?case
  proof (cases "fst kv = i")
    case True with Cons.prems show ?thesis by (cases kv) (auto simp: ac_simps)
  next
    case False with Cons show ?thesis by (cases kv) (auto simp: ac_simps)
  qed
qed simp

lemma take_events:
  assumes "\<forall>k < length es. ev_seq (es ! k) = int (m + k)" "\<forall>n. map_of (lt_last lt) i = Some n \<longrightarrow> n < int m"
  shows "fold (take_event i) es lt = \<lparr>lt_events = lt_events lt @ es, lt_last = (if es = [] then lt_last lt else js_set i (int (m + length es) - 1) (lt_last lt))\<rparr>"
  using assms
proof (induction es arbitrary: m lt)
  case (Cons e es)
  have e: "ev_seq e = int m" using Cons.prems(1) by force
  have "take_event i e lt = \<lparr>lt_events = lt_events lt @ [e], lt_last = js_set i (int m) (lt_last lt)\<rparr>" 
    using Cons.prems(2) by (auto simp: take_event_def e split: option.split)
  moreover have "\<forall>k < length es. ev_seq (es ! k) = int (Suc m + k)" using Cons.prems(1) by force
  ultimately show ?case using Cons.IH [of "Suc m" "\<lparr>lt_events = lt_events lt @ [e], lt_last = js_set i (int m) (lt_last lt)\<rparr>"]
    by simp
qed simp

text \<open>
  What a cursor has read: of every stream it keeps a position for, the events up to that position,
  each once.
\<close>

definition read_up_to :: "(string \<Rightarrow> canonical_event list) \<Rightarrow> string \<times> int \<Rightarrow> canonical_event list" where
  "read_up_to events = (\<lambda>(i, n). take (nat n + 1) (events i))"

definition cursor_ok :: "(string \<Rightarrow> canonical_event list) \<Rightarrow> live_trace \<Rightarrow> bool" where
  "cursor_ok events lt \<longleftrightarrow> distinct (map fst (lt_last lt))
     \<and> (\<forall>(i, n) \<in> set (lt_last lt). 0 \<le> n \<and> nat n < length (events i))
     \<and> mset (lt_events lt) = mset (concat (map (read_up_to events) (lt_last lt)))"

lemma cursor_later:
  assumes "cursor_ok events lt" "\<And>i. \<exists>new. events' i = events i @ new"
  shows "cursor_ok events' lt"
proof -
  have "read_up_to events' kv = read_up_to events kv" "nat (snd kv) < length (events' (fst kv))" if "kv \<in> set (lt_last lt)" for kv
  proof -
    obtain i n where kv: "kv = (i, n)" by (cases kv)
    from that assms(1) have n: "nat n < length (events i)" unfolding cursor_ok_def kv by blast
    obtain new where new: "events' i = events i @ new" using assms(2) by blast
    show "read_up_to events' kv = read_up_to events kv" "nat (snd kv) < length (events' (fst kv))" using n by (simp_all add: kv new read_up_to_def)
  qed
  then show ?thesis using assms(1) unfolding cursor_ok_def by (auto cong: map_cong)
qed

lemma filter_numbered:
  assumes "\<And>n. n < length es \<Longrightarrow> ev_seq (es ! n) = int n"
  shows "filter (\<lambda>e. int m \<le> ev_seq e) es = drop m es"
proof -
  have "filter (\<lambda>e. int m \<le> ev_seq e) (take m es) = []" using assms by (auto simp: filter_empty_conv in_set_conv_nth)
  moreover have "filter (\<lambda>e. int m \<le> ev_seq e) (drop m es) = drop m es" using assms by (auto simp: filter_id_conv in_set_conv_nth)
  ultimately show ?thesis by (metis append_Nil append_take_drop_id filter_append)
qed

lemma cursor_read:
  assumes ok: "cursor_ok events lt" and numbered: "\<And>n. n < length (events i) \<Longrightarrow> ev_seq (events i ! n) = int n"
    and pos: "last_seq = (case map_of (lt_last lt) i of Some n \<Rightarrow> n | None \<Rightarrow> -1)"
    and after: "after = (if last_seq < 0 then None else Some last_seq)"
    and lt': "lt' = fold (take_event i) (filter (\<lambda>e. case after of None \<Rightarrow> True | Some n \<Rightarrow> n < ev_seq e) (events i)) lt"
  shows "cursor_ok events lt' \<and> (events i \<noteq> [] \<longrightarrow> map_of (lt_last lt') i = Some (int (length (events i)) - 1))
    \<and> (\<forall>j. j \<noteq> i \<longrightarrow> map_of (lt_last lt') j = map_of (lt_last lt) j)"
proof -
  note cur = ok [unfolded cursor_ok_def]
  define m where "m = nat (last_seq + 1)"
  have bound: "0 \<le> n \<and> nat n < length (events j)" if "map_of (lt_last lt) j = Some n" for j n
    using cur map_of_SomeD [OF that] by blast
  have last_m: "last_seq = int m - 1" "m \<le> length (events i)" using bound [of i] by (auto simp: m_def pos split: option.split)
  have "filter (\<lambda>e. case after of None \<Rightarrow> True | Some n \<Rightarrow> n < ev_seq e) (events i) = filter (\<lambda>e. int m \<le> ev_seq e) (events i)"
  proof (rule filter_cong [OF refl])
    fix e assume "e \<in> set (events i)"
    then have "0 \<le> ev_seq e" using numbered by (auto simp: in_set_conv_nth)
    with last_m show "(case after of None \<Rightarrow> True | Some n \<Rightarrow> n < ev_seq e) = (int m \<le> ev_seq e)" by (auto simp: after)
  qed
  also have "\<dots> = drop m (events i)" by (rule filter_numbered [OF numbered])
  finally have lt': "lt' = fold (take_event i) (drop m (events i)) lt" by (simp add: lt')
  have "fold (take_event i) (drop m (events i)) lt = \<lparr>lt_events = lt_events lt @ drop m (events i), lt_last =
      (if drop m (events i) = [] then lt_last lt else js_set i (int (m + length (drop m (events i))) - 1) (lt_last lt))\<rparr>"
    using numbered last_m by (intro take_events) (auto simp: pos)
  then have lt': "lt_events lt' = lt_events lt @ drop m (events i)"
      "lt_last lt' = (if drop m (events i) = [] then lt_last lt else js_set i (int (length (events i)) - 1) (lt_last lt))"
    using last_m by (simp_all add: lt')
  show ?thesis
  proof (cases "drop m (events i) = []")
    case True
    with lt' have same: "lt' = lt" by simp
    have "map_of (lt_last lt) i = Some (int (length (events i)) - 1)" if "events i \<noteq> []"
      using True that last_m bound [of i] by (auto simp: pos split: option.splits)
    with same ok show ?thesis by simp
  next
    case False
    then have nonempty: "m < length (events i)" by simp
    define n' where "n' = int (length (events i)) - 1"
    have n': "nat n' + 1 = length (events i)" "0 \<le> n'" using nonempty by (cases "events i"; simp add: n'_def)+
    have lt'': "lt_last lt' = js_set i n' (lt_last lt)" using False lt' by (simp add: n'_def)
    have dist: "distinct (map fst (lt_last lt'))" using cur unfolding lt'' by (intro distinct_js_set) simp
    have bounds: "0 \<le> n \<and> nat n < length (events j)" if "(j, n) \<in> set (lt_last lt')" for j n
    proof -
      have "map_of (lt_last lt') j = Some n" using dist that by simp
      then show ?thesis using bound [of j n] n' by (auto simp: lt'' split: if_splits)
    qed
    have "mset (concat (map (read_up_to events) (lt_last lt'))) = mset (lt_events lt) + mset (drop m (events i))"
    proof (cases "map_of (lt_last lt) i")
      case None
      then have "m = 0" by (simp add: m_def pos)
      moreover have "read_up_to events (i, n') = events i" using n' by (simp add: read_up_to_def)
      ultimately show ?thesis using cur None by (simp add: lt'' js_set_new)
    next
      case (Some n)
      then have "read_up_to events (i, n) = take m (events i)" using bound [OF Some] by (simp add: read_up_to_def m_def pos nat_add_distrib)
      moreover have "read_up_to events (i, n') = events i" using n' by (simp add: read_up_to_def)
      moreover have "mset (events i) = mset (take m (events i)) + mset (drop m (events i))" by (metis append_take_drop_id mset_append)
      ultimately show ?thesis using update_concat [of "lt_last lt" i n "read_up_to events" n'] cur Some by (simp add: lt'')
    qed
    with dist bounds have "cursor_ok events lt'" unfolding cursor_ok_def lt'(1) by auto
    then show ?thesis by (simp add: lt'' n'_def)
  qed
qed

context channel_log
begin

lemma read_stream_run:
  assumes ok: "ok s" and lt: "cursor_ok (events s) lt" and run: "read_stream ops i (lt, s) = (r, (lt', s'))"
  shows "ok s' \<and> log_extends events command s s' \<and> r = Inr () \<and> cursor_ok (events s') lt'
    \<and> (events s i \<noteq> [] \<longrightarrow> (\<exists>n. map_of (lt_last lt') i = Some n \<and> int (length (events s i)) \<le> n + 1))
    \<and> (\<forall>j. j \<noteq> i \<longrightarrow> map_of (lt_last lt') j = map_of (lt_last lt) j)"
proof -
  define last_seq where "last_seq = (case map_of (lt_last lt) i of Some n \<Rightarrow> n | None \<Rightarrow> -1)"
  define after where "after = (if last_seq < 0 then None else Some last_seq)"
  obtain es s1 where rd: "co_read ops i after s = (es, s1)" by fastforce
  from read_law [OF ok rd] have s1: "ok s1" "log_extends events command s s1"
      "es = Inr (filter (\<lambda>e. case after of None \<Rightarrow> True | Some n \<Rightarrow> n < ev_seq e) (events s1 i))" by blast+
  have new: "\<exists>new. events s1 i = events s i @ new" for i using s1(2) unfolding log_extends_def by blast
  have cur: "cursor_ok (events s1) lt" by (rule cursor_later [OF lt new])
  have out: "s' = s1" "r = Inr ()" "lt' = fold (take_event i) (filter (\<lambda>e. case after of None \<Rightarrow> True | Some n \<Rightarrow> n < ev_seq e) (events s1 i)) lt"
  proof -
    have "read_stream ops i (lt, s) = (case co_read ops i after s of (Inl e, s') \<Rightarrow> (Inl e, (lt, s'))
        | (Inr events, s') \<Rightarrow> (Inr (), (fold (take_event i) events lt, s')))"
      by (simp only: read_stream_def prod.case Let_def last_seq_def after_def)
    with run rd s1(3) show "s' = s1" "r = Inr ()" "lt' = fold (take_event i) (filter (\<lambda>e. case after of None \<Rightarrow> True | Some n \<Rightarrow> n < ev_seq e) (events s1 i)) lt"
      by (auto simp del: split_paired_all)
  qed
  note read = cursor_read [OF cur numbered [OF s1(1)] last_seq_def after_def out(3)]
  obtain more where more: "events s1 i = events s i @ more" using new by blast
  have "\<exists>n. map_of (lt_last lt') i = Some n \<and> int (length (events s i)) \<le> n + 1" if "events s i \<noteq> []"
    using read that unfolding more by simp
  with read s1 out show ?thesis by simp
qed

lemma read_streams_run:
  assumes "ok s" "cursor_ok (events s) lt" "distinct ids" "act_for (read_stream ops) ids (lt, s) = (r, (lt', s'))"
  shows "ok s' \<and> log_extends events command s s' \<and> r = Inr () \<and> cursor_ok (events s') lt'
    \<and> (\<forall>i \<in> set ids. events s i \<noteq> [] \<longrightarrow> (\<exists>n. map_of (lt_last lt') i = Some n \<and> int (length (events s i)) \<le> n + 1))
    \<and> (\<forall>j. j \<notin> set ids \<longrightarrow> map_of (lt_last lt') j = map_of (lt_last lt) j)"
  using assms
proof (induction ids arbitrary: lt s)
  case (Cons i ids)
  obtain q lt1 s1 where one: "read_stream ops i (lt, s) = (q, (lt1, s1))" by (metis prod.exhaust)
  note s1 = read_stream_run [OF Cons.prems(1,2) one]
  then have rest: "act_for (read_stream ops) ids (lt1, s1) = (r, (lt', s'))"
    using Cons.prems(4) one by (simp add: act_seq_def act_bind_def)
  have "ok s1" "cursor_ok (events s1) lt1" using s1 by blast+
  note ih = Cons.IH [OF this _ rest]
  have dist: "distinct ids" "i \<notin> set ids" using Cons.prems(3) by simp_all
  have grow: "length (events s j) \<le> length (events s1 j)" "events s j \<noteq> [] \<longrightarrow> events s1 j \<noteq> []" for j
  proof -
    obtain new where "events s1 j = events s j @ new" using s1 unfolding log_extends_def by blast
    then show "length (events s j) \<le> length (events s1 j)" "events s j \<noteq> [] \<longrightarrow> events s1 j \<noteq> []" by simp_all
  qed
  have later: "\<exists>n. map_of (lt_last lt') j = Some n \<and> int (length (events s j)) \<le> n + 1" if "j \<in> set ids" "events s j \<noteq> []" for j
  proof -
    from ih [OF dist(1)] that grow(2) obtain n where "map_of (lt_last lt') j = Some n" "int (length (events s1 j)) \<le> n + 1" by blast
    with grow(1) [of j] show ?thesis by auto
  qed
  have kept: "map_of (lt_last lt') i = map_of (lt_last lt1) i" using ih [OF dist(1)] dist(2) by blast
  have ext: "log_extends events command s s'" using s1 ih [OF dist(1)] by (blast intro: log_extends_trans)
  have "ok s' \<and> r = Inr () \<and> cursor_ok (events s') lt'" using ih [OF dist(1)] by blast
  moreover have "\<exists>n. map_of (lt_last lt') j = Some n \<and> int (length (events s j)) \<le> n + 1" if "j \<in> set (i # ids)" "events s j \<noteq> []" for j
    using later that s1 kept by (cases "j = i") simp_all
  moreover have "map_of (lt_last lt') j = map_of (lt_last lt) j" if "j \<notin> set (i # ids)" for j
    using ih [OF dist(1)] s1 that by simp
  ultimately show ?case using ext by simp
qed (simp add: act_return_def)

end

lemma distinct_streams_read: "distinct (sort (js_dedup (i # ids)))"
  by simp

text \<open>On the in-memory store, other clients at work: a read keeps the cursor and catches up with every stream it lists.\<close>

lemma live_read_run:
  assumes h: "good_host h" and ok: "store_ok h st" and lt: "cursor_ok (\<lambda>i. stream_events h s i st) lt"
    and run: "live_read h (interleaved (in_memory h s)) stream opt (lt, (st, map (others h) calls)) = (r, (lt', (st', fs')))"
  shows "store_ok h st' \<and> cursor_ok (\<lambda>i. stream_events h s i st') lt'
    \<and> r = Inr (project_trace h (lt_events lt') opt, sort_by (\<lambda>l r. locale_compare h (fst l) (fst r) \<le> 0) (lt_last lt'))
    \<and> (stream_events h s stream st \<noteq> [] \<longrightarrow>
        (\<exists>n. map_of (lt_last lt') stream = Some n \<and> int (length (stream_events h s stream st)) \<le> n + 1))"
proof -
  let ?ok = "\<lambda>sf. store_ok h (fst sf) \<and> (\<forall>f \<in> set (snd sf). polite (store_ok h) (\<lambda>st i. stream_events h s i st) (run_entry h s) f)"
  let ?ids = "co_list_run_stream_ids (interleaved (in_memory h s)) (op_run opt)"
  have ok0: "?ok (st, map (others h) calls)" using ok by (auto intro: good_host.others_polite [OF h])
  obtain q sf1 where ids: "?ids (st, map (others h) calls) = (q, sf1)" by (metis surj_pair)
  have listed: "?ok sf1 \<and> log_extends (\<lambda>sf i. stream_events h s i (fst sf)) (\<lambda>sf. run_entry h s (fst sf)) (st, map (others h) calls) sf1
      \<and> (\<exists>ids. q = Inr ids)"
  proof (rule disturb_law [OF _ ok0])
    show "disturb (list_run_stream_ids h s (op_run opt)) (st, map (others h) calls) = (q, sf1)"
      using ids by (simp add: interleaved_def in_memory_def)
    fix st0 r0 st1 assume "store_ok h st0" "list_run_stream_ids h s (op_run opt) st0 = (r0, st1)"
    then show "store_ok h st1 \<and> log_extends (\<lambda>st i. stream_events h s i st) (run_entry h s) st0 st1 \<and> (\<exists>ids. r0 = Inr ids)"
      by (auto simp: list_run_stream_ids_def)
  qed
  then obtain listed_ids where q: "q = Inr listed_ids" by blast
  obtain st1 fs1 where sf1: "sf1 = (st1, fs1)" by (cases sf1)
  have new: "\<exists>new. stream_events h s i st1 = stream_events h s i st @ new" for i
    using listed unfolding log_extends_def sf1 fst_conv by blast
  obtain u lt2 sf2 where loop: "act_for (read_stream (interleaved (in_memory h s))) (sort (js_dedup (stream # listed_ids))) (lt, sf1) = (u, (lt2, sf2))"
    by (metis prod.exhaust)
  have cur: "cursor_ok (\<lambda>i. stream_events h s i (fst sf1)) lt" unfolding sf1 fst_conv by (rule cursor_later [OF lt new])
  note all = channel_log.read_streams_run [OF good_host.busy_log [OF h] conjunct1 [OF listed] cur distinct_streams_read loop]
  have "live_read h (interleaved (in_memory h s)) stream opt (lt, (st, map (others h) calls))
      = (Inr (project_trace h (lt_events lt2) opt, sort_by (\<lambda>l r. locale_compare h (fst l) (fst r) \<le> 0) (lt_last lt2)), (lt2, sf2))"
    using ids loop all by (simp add: live_read_def act_bind_run on_store_def q act_seq_def)
  with run have out: "lt' = lt2" "sf2 = (st', fs')"
      "r = Inr (project_trace h (lt_events lt') opt, sort_by (\<lambda>l r. locale_compare h (fst l) (fst r) \<le> 0) (lt_last lt'))" by auto
  have "\<exists>n. map_of (lt_last lt') stream = Some n \<and> int (length (stream_events h s stream st)) \<le> n + 1" if "stream_events h s stream st \<noteq> []"
  proof -
    obtain more where more: "stream_events h s stream st1 = stream_events h s stream st @ more" using new by blast
    have "stream \<in> set (sort (js_dedup (stream # listed_ids)))" by simp
    with all that more obtain n where "map_of (lt_last lt2) stream = Some n" "int (length (stream_events h s stream st1)) \<le> n + 1"
      unfolding sf1 by fastforce
    with more out show ?thesis by simp
  qed
  with all out show ?thesis by simp
qed

text \<open>
  The events a cursor has read from the store can be told apart when \<open>localeCompare\<close> tells the names
  of its streams apart: two events of one stream have different numbers.
\<close>

definition names_apart :: "host \<Rightarrow> (string \<times> int) list \<Rightarrow> bool" where
  "names_apart h cursors \<longleftrightarrow> (\<forall>(i, m) \<in> set cursors. \<forall>(j, n) \<in> set cursors. locale_compare h i j = 0 \<longrightarrow> i = j)"

lemma read_events_apart:
  assumes ok: "store_ok h st" and names: "names_apart h (lt_last lt)"
    and cur: "cursor_ok (\<lambda>i. stream_events h s i st) lt"
  shows "apart h (lt_events lt)"
proof -
  have pos: "\<exists>i m k. (i, m) \<in> set (lt_last lt) \<and> k < length (stream_events h s i st) \<and> e = stream_events h s i st ! k"
    if "e \<in> set (lt_events lt)" for e
  proof -
    have "set (lt_events lt) = set (concat (map (read_up_to (\<lambda>i. stream_events h s i st)) (lt_last lt)))"
      using cur unfolding cursor_ok_def by (metis mset_eq_setD)
    with that obtain i n where "(i, n) \<in> set (lt_last lt)" "e \<in> set (take (nat n + 1) (stream_events h s i st))"
      by (auto simp: read_up_to_def)
    moreover from this have "e \<in> set (stream_events h s i st)" by (blast dest: in_set_takeD)
    ultimately show ?thesis by (auto simp: in_set_conv_nth)
  qed
  note log = log_ok_nth [of h st _ s] and log_ok = ok [unfolded store_ok_def, THEN conjunct1]
  show ?thesis unfolding apart_def
  proof (intro conjI ballI impI)
    fix e assume "e \<in> set (lt_events lt)"
    with pos obtain i k where "k < length (stream_events h s i st)" "e = stream_events h s i st ! k" by blast
    with log(1) [OF log_ok] show "date_parse h (ev_timestamp e) \<noteq> None" by (simp add: event_ok_def)
  next
    fix e e' assume e: "e \<in> set (lt_events lt)" and e': "e' \<in> set (lt_events lt)" and eq: "compare_events h e e' = 0"
    obtain i m k where k: "(i, m) \<in> set (lt_last lt)" "k < length (stream_events h s i st)" "e = stream_events h s i st ! k"
      using pos [OF e] by blast
    obtain j n l where l: "(j, n) \<in> set (lt_last lt)" "l < length (stream_events h s j st)" "e' = stream_events h s j st ! l"
      using pos [OF e'] by blast
    have "locale_compare h (ev_stream e) (ev_stream e') = 0" "ev_seq e = ev_seq e'"
      using eq by (auto simp: compare_events_def js_or_def split: if_splits)
    moreover have "ev_stream e = i" "ev_stream e' = j" "ev_seq e = int k" "ev_seq e' = int l"
      using k l log(3,4) [OF log_ok] by simp_all
    ultimately have "locale_compare h i j = 0" "k = l" by simp_all
    with names k(1) l(1) have "i = j" unfolding names_apart_def by blast
    with \<open>k = l\<close> k l show "e = e'" by simp
  qed
qed

end
