(* ===== verification/EvalSet.thy ===== *)
theory EvalSet
  imports TraceOrder
begin

text \<open>
  Evaluation of what a run left behind (\<open>packages/eval/src/index.ts\<close>): the contract a run must have
  kept, a score of its quality against a rubric, the regression case a failure becomes, the release
  gate, reports over a set of cases, and the fixture sets. Weights, scores and metrics are exact
  rationals here.
\<close>

section \<open>Evidence\<close>

record eval_span =
  es_id :: string
  es_kind :: string
  es_status :: trace_status
  es_attributes :: "(string \<times> js) list option"

record eval_trace =
  et_id :: string
  et_spans :: "eval_span list"

record eval_metrics =
  em_stability :: "rat option"
  em_latency :: "rat option"
  em_cost :: "rat option"

record eval_evidence =
  ee_trace_id :: string
  ee_events :: "canonical_event list"
  ee_artifacts :: "artifact list"
  ee_trace :: "eval_trace option"
  ee_metrics :: "eval_metrics option"

datatype contract_failure =
    InvalidEvidence | MissingRequiredEvent | ProhibitedSideEffect | MissingRequiredArtifact | MissingTerminalEvent | OrphanedTrace

text \<open>\<open>typeof value === "string" && value.length > 0 ? value : undefined\<close>\<close>

definition string_value :: "js \<Rightarrow> string option" where
  "string_value v = (case v of JStr s \<Rightarrow> if s = [] then None else Some s | _ \<Rightarrow> None)"

definition event_belongs_to_run :: "canonical_event \<Rightarrow> string \<Rightarrow> bool" where
  "event_belongs_to_run e t =
     (if ev_stream e = t then True
      else if \<not> is_record (ev_payload e) \<or> js_field (record_or_empty (ev_payload e)) ''runId'' \<noteq> JStr t then False
      else starts_with (ev_stream e) (''tool:'' @ t @ '':'') \<or> starts_with (ev_stream e) ''effect:'')"

definition ordered_events :: "host \<Rightarrow> canonical_event list \<Rightarrow> canonical_event list" where
  "ordered_events h es = sort_by (\<lambda>l r. compare_events h l r \<le> 0) es"

definition validate_evidence :: "host \<Rightarrow> eval_evidence \<Rightarrow> contract_failure option" where
  "validate_evidence h ev =
     (if ee_trace_id ev = [] \<or> ee_events ev = [] then Some InvalidEvidence
      else if \<not> list_all (\<lambda>e. r_is_ok (parse_canonical_event h (event_js e))) (ee_events ev)
        \<or> \<not> list_all (\<lambda>a. r_is_ok (parse_artifact (artifact_js a))) (ee_artifacts ev) then Some InvalidEvidence
      else let first = hd (ee_events ev) in
        if list_ex (\<lambda>e. sc_workspace (ev_scope e) \<noteq> sc_workspace (ev_scope first) \<or> sc_channel (ev_scope e) \<noteq> sc_channel (ev_scope first)
             \<or> \<not> event_belongs_to_run e (ee_trace_id ev)) (ee_events ev) then Some InvalidEvidence
        else if list_ex (\<lambda>a. sc_workspace (ar_scope a) \<noteq> sc_workspace (ev_scope first) \<or> sc_channel (ar_scope a) \<noteq> sc_channel (ev_scope first)
             \<or> ar_run_id a \<noteq> ee_trace_id ev) (ee_artifacts ev) then Some InvalidEvidence
        else if \<not> distinct (map (\<lambda>e. ev_stream e @ '':'' @ show_int (ev_seq e)) (ee_events ev)) \<or> \<not> distinct (map ev_id (ee_events ev))
          then Some InvalidEvidence
        else if (case ee_trace ev of None \<Rightarrow> False | Some t \<Rightarrow> et_id t \<noteq> ee_trace_id ev) then Some InvalidEvidence
        else None)"

section \<open>The contract\<close>

record contract_options =
  co_version :: "string option"
  co_events :: "string list option"
  co_effects :: "string list option"
  co_artifacts :: "string list option"
  co_terminal :: "bool option"

record contract_result =
  cr_passed :: bool
  cr_version :: string
  cr_reason :: "contract_failure option"
  cr_failed :: "string list"
  cr_checked :: "string list"

text \<open>\<open>x ?? d\<close> for an optional field.\<close>

definition or_else :: "'a option \<Rightarrow> 'a \<Rightarrow> 'a" where
  "or_else x d = (case x of None \<Rightarrow> d | Some a \<Rightarrow> a)"

fun failure_text :: "contract_failure \<Rightarrow> string" where
  "failure_text InvalidEvidence = ''invalid_evidence''"
| "failure_text MissingRequiredEvent = ''missing_required_event''"
| "failure_text ProhibitedSideEffect = ''prohibited_side_effect''"
| "failure_text MissingRequiredArtifact = ''missing_required_artifact''"
| "failure_text MissingTerminalEvent = ''missing_terminal_event''"
| "failure_text OrphanedTrace = ''orphaned_trace''"

text \<open>The failed rules and the reason so far; \<open>reason ??= r\<close> keeps the first one.\<close>

type_synonym verdict = "string list \<times> contract_failure option"

definition report :: "contract_failure \<Rightarrow> string \<Rightarrow> verdict \<Rightarrow> verdict" where
  "report r rule v = (fst v @ [rule], (case snd v of None \<Rightarrow> Some r | Some q \<Rightarrow> Some q))"

definition check_events :: "string list \<Rightarrow> canonical_event list \<Rightarrow> verdict \<Rightarrow> verdict" where
  "check_events required events v =
     fold (\<lambda>t v. if t \<notin> set (map ev_type events) then report MissingRequiredEvent (''required_event:'' @ t) v else v) required v"

definition event_effect_key :: "canonical_event \<Rightarrow> string option" where
  "event_effect_key e =
     (let payload = record_or_empty (ev_payload e) in
      case string_value (js_field payload ''effectKey'') of
        Some k \<Rightarrow> Some k
      | None \<Rightarrow> string_value (js_field payload ''effect_key''))"

definition check_effects :: "string list \<Rightarrow> canonical_event list \<Rightarrow> verdict \<Rightarrow> verdict" where
  "check_effects prohibited events v =
     (if prohibited = [] then v
      else fold (\<lambda>e v.
        if \<not> starts_with (ev_type e) ''tool.effect.'' then v
        else case event_effect_key e of
          Some k \<Rightarrow> if k \<in> set prohibited then report ProhibitedSideEffect (''prohibited_effect:'' @ k) v else v
        | None \<Rightarrow> v) events v)"

definition check_artifacts :: "string list \<Rightarrow> artifact list \<Rightarrow> verdict \<Rightarrow> verdict" where
  "check_artifacts required artifacts v =
     fold (\<lambda>k v. if k \<notin> set (map ar_kind (filter (\<lambda>a. ar_validation a = ''passed'') artifacts))
       then report MissingRequiredArtifact (''required_artifact:'' @ k) v else v) required v"

definition check_terminal :: "bool \<Rightarrow> canonical_event list \<Rightarrow> verdict \<Rightarrow> verdict" where
  "check_terminal required events v =
     (if required \<and> \<not> list_ex (\<lambda>e. is_run_terminal (ev_type e)) events then report MissingTerminalEvent ''required_terminal_event'' v else v)"

definition orphaned_span :: "eval_evidence \<Rightarrow> bool" where
  "orphaned_span ev = (case ee_trace ev of
     None \<Rightarrow> False
   | Some t \<Rightarrow> list_ex (\<lambda>s. es_status s = SpanError \<and>
       (case es_attributes s of None \<Rightarrow> False | Some kvs \<Rightarrow> js_field kvs ''anna.orphaned'' = JBool True)) (et_spans t))"

definition check_orphans :: "eval_evidence \<Rightarrow> verdict \<Rightarrow> verdict" where
  "check_orphans ev v = (if orphaned_span ev then report OrphanedTrace ''orphaned_trace'' v else v)"

definition evaluate_contract :: "host \<Rightarrow> eval_evidence \<Rightarrow> contract_options \<Rightarrow> contract_result" where
  "evaluate_contract h ev opt =
     (let checked = map ev_id (ordered_events h (ee_events ev)); version = or_else (co_version opt) ''contract-1'' in
      case validate_evidence h ev of
        Some r \<Rightarrow> \<lparr>cr_passed = False, cr_version = version, cr_reason = Some r, cr_failed = [failure_text r], cr_checked = checked\<rparr>
      | None \<Rightarrow>
          let events = ordered_events h (ee_events ev);
            v1 = check_events (or_else (co_events opt) []) events ([], None);
            v2 = check_effects (or_else (co_effects opt) []) events v1;
            v3 = check_artifacts (or_else (co_artifacts opt) []) (ee_artifacts ev) v2;
            v4 = check_terminal (or_else (co_terminal opt) True) events v3;
            v5 = check_orphans ev v4 in
          \<lparr>cr_passed = (fst v5 = []), cr_version = version, cr_reason = snd v5, cr_failed = fst v5, cr_checked = checked\<rparr>)"

section \<open>Quality\<close>

record criterion =
  cn_id :: string
  cn_description :: string
  cn_weight :: rat

record rubric =
  rb_id :: string
  rb_version :: string
  rb_criteria :: "criterion list"
  rb_passing :: rat

record quality_options =
  qo_prompt :: string
  qo_model :: string
  qo_rubric :: rubric
  qo_scores :: "(string \<times> js) list"

record quality_result =
  qr_passed :: bool
  qr_score :: rat
  qr_key :: string
  qr_prompt :: string
  qr_model :: string
  qr_rubric :: string
  qr_rubric_version :: string
  qr_failed :: "string list"

fun assert_criteria :: "string list \<Rightarrow> criterion list \<Rightarrow> unit parsed" where
  "assert_criteria ids [] = Inr ()"
| "assert_criteria ids (c # cs) =
     (if cn_id c = [] \<or> cn_description c = [] \<or> \<not> cn_weight c > 0
      then Inl (PlainError ''Eval rubric criteria must define positive weights'')
      else if cn_id c \<in> set ids then Inl (PlainError (''Eval rubric criterion is duplicated: '' @ cn_id c))
      else assert_criteria (cn_id c # ids) cs)"

definition assert_rubric :: "rubric \<Rightarrow> unit parsed" where
  "assert_rubric rb =
     (if rb_id rb = [] \<or> rb_version rb = [] \<or> rb_criteria rb = []
      then Inl (PlainError ''Eval rubric must define an id, version, and criteria'')
      else if \<not> (rb_passing rb \<ge> 0 \<and> rb_passing rb \<le> 1)
      then Inl (PlainError ''Eval rubric passingScore must be between 0 and 1'')
      else assert_criteria [] (rb_criteria rb))"

definition score_for :: "(string \<times> js) list \<Rightarrow> string \<Rightarrow> rat parsed" where
  "score_for scores i =
     (case js_field scores i of
        JNum q \<Rightarrow> if q < 0 \<or> q > 1 then Inl (PlainError (''Quality Eval score is missing or invalid: '' @ i)) else Inr q
      | _ \<Rightarrow> Inl (PlainError (''Quality Eval score is missing or invalid: '' @ i)))"

fun weigh :: "(string \<times> js) list \<Rightarrow> criterion list \<Rightarrow> rat \<Rightarrow> rat parsed" where
  "weigh scores [] acc = Inr acc"
| "weigh scores (c # cs) acc = r_bind (score_for scores (cn_id c)) (\<lambda>q. weigh scores cs (acc + q * cn_weight c))"

fun failed_criteria :: "(string \<times> js) list \<Rightarrow> rat \<Rightarrow> criterion list \<Rightarrow> string list parsed" where
  "failed_criteria scores passing [] = Inr []"
| "failed_criteria scores passing (c # cs) =
     r_bind (score_for scores (cn_id c)) (\<lambda>q. r_bind (failed_criteria scores passing cs) (\<lambda>names.
       Inr (if q < passing then cn_id c # names else names)))"

fun status_text :: "trace_status \<Rightarrow> string" where
  "status_text SpanOk = ''ok''"
| "status_text SpanError = ''error''"
| "status_text SpanUnset = ''unset''"

definition eval_span_js :: "eval_span \<Rightarrow> js" where
  "eval_span_js s = JObj ([(''spanId'', JStr (es_id s)), (''kind'', JStr (es_kind s)), (''status'', JStr (status_text (es_status s)))]
     @ opt_field ''attributes'' JObj (es_attributes s))"

definition eval_trace_js :: "eval_trace \<Rightarrow> js" where
  "eval_trace_js t = JObj [(''traceId'', JStr (et_id t)), (''spans'', JArr (map eval_span_js (et_spans t)))]"

definition eval_metrics_js :: "eval_metrics \<Rightarrow> js" where
  "eval_metrics_js m = JObj (opt_field ''stability'' JNum (em_stability m) @ opt_field ''latencyMs'' JNum (em_latency m)
     @ opt_field ''cost'' JNum (em_cost m))"

definition evidence_js :: "host \<Rightarrow> eval_evidence \<Rightarrow> js" where
  "evidence_js h ev = JObj ([(''traceId'', JStr (ee_trace_id ev)), (''events'', JArr (map event_js (ordered_events h (ee_events ev)))),
     (''artifacts'', JArr (map artifact_js (sort_by (\<lambda>l r. locale_compare h (ar_id l) (ar_id r) \<le> 0) (ee_artifacts ev))))]
     @ opt_field ''trace'' eval_trace_js (ee_trace ev) @ opt_field ''metrics'' eval_metrics_js (ee_metrics ev))"

definition criterion_js :: "criterion \<Rightarrow> js" where
  "criterion_js c = JObj [(''id'', JStr (cn_id c)), (''description'', JStr (cn_description c)), (''weight'', JNum (cn_weight c))]"

definition rubric_js :: "rubric \<Rightarrow> js" where
  "rubric_js rb = JObj [(''id'', JStr (rb_id rb)), (''version'', JStr (rb_version rb)),
     (''criteria'', JArr (map criterion_js (rb_criteria rb))), (''passingScore'', JNum (rb_passing rb))]"

definition cache_key :: "host \<Rightarrow> eval_evidence \<Rightarrow> quality_options \<Rightarrow> string" where
  "cache_key h ev opt = ''quality:'' @ sha256_hex h (stable_json h (JObj
     [(''evidence'', evidence_js h ev), (''promptVersion'', JStr (qo_prompt opt)), (''modelVersion'', JStr (qo_model opt)),
      (''rubric'', rubric_js (qo_rubric opt)), (''scores'', JObj (qo_scores opt))]))"

definition evaluate_quality :: "host \<Rightarrow> eval_evidence \<Rightarrow> quality_options \<Rightarrow> quality_result parsed" where
  "evaluate_quality h ev opt =
     (case validate_evidence h ev of
        Some r \<Rightarrow> Inl (PlainError (''Quality Eval evidence is invalid: '' @ failure_text r))
      | None \<Rightarrow>
          let rb = qo_rubric opt in
          r_bind (assert_rubric rb) (\<lambda>_.
          let weight = foldl (\<lambda>t c. t + cn_weight c) 0 (rb_criteria rb) in
          r_bind (weigh (qo_scores opt) (rb_criteria rb) 0) (\<lambda>weighted.
          let score = weighted / weight in
          r_bind (failed_criteria (qo_scores opt) (rb_passing rb) (rb_criteria rb)) (\<lambda>failed.
          Inr \<lparr>qr_passed = (score \<ge> rb_passing rb), qr_score = score, qr_key = cache_key h ev opt, qr_prompt = qo_prompt opt,
            qr_model = qo_model opt, qr_rubric = rb_id rb, qr_rubric_version = rb_version rb, qr_failed = failed\<rparr>))))"

section \<open>Regression cases and the release gate\<close>

datatype classification = ContractFailure | QualityFailure | TraceFailure | MixedFailure

record regression_case =
  rc_id :: string
  rc_trace :: string
  rc_class :: classification
  rc_events :: "string list"
  rc_contract :: contract_result
  rc_quality :: "quality_result option"

fun class_text :: "classification \<Rightarrow> string" where
  "class_text ContractFailure = ''contract_failure''"
| "class_text QualityFailure = ''quality_failure''"
| "class_text TraceFailure = ''trace_failure''"
| "class_text MixedFailure = ''mixed_failure''"

definition quality_failed :: "quality_result option \<Rightarrow> bool" where
  "quality_failed q = (case q of None \<Rightarrow> False | Some r \<Rightarrow> \<not> qr_passed r)"

definition materialize_regression_case ::
    "host \<Rightarrow> eval_evidence \<Rightarrow> contract_result \<Rightarrow> quality_result option \<Rightarrow> regression_case parsed" where
  "materialize_regression_case h ev contract quality =
     (let trace_failure = orphaned_span ev;
          contract_failure = list_ex (\<lambda>rule. rule \<noteq> ''orphaned_trace'') (cr_failed contract);
          quality_failure = quality_failed quality;
          failures = of_bool trace_failure + of_bool contract_failure + of_bool quality_failure :: nat in
      if failures = 0 then Inl (PlainError ''Regression Case requires a failed Eval'')
      else let class = (if failures > 1 then MixedFailure else if trace_failure then TraceFailure
            else if contract_failure then ContractFailure else QualityFailure) in
        Inr \<lparr>rc_id = ''regression:'' @ ee_trace_id ev @ '':'' @ class_text class, rc_trace = ee_trace_id ev, rc_class = class,
          rc_events = map ev_id (ordered_events h (ee_events ev)), rc_contract = contract, rc_quality = quality\<rparr>)"

datatype gate_block = BlockedByContract | BlockedByQuality

text \<open>Whether the release passes, and what blocks it.\<close>

definition evaluate_release_gate :: "contract_result \<Rightarrow> quality_result option \<Rightarrow> bool \<times> gate_block list" where
  "evaluate_release_gate contract quality =
     (let b1 = (if \<not> cr_passed contract then [BlockedByContract] else []);
          b2 = (if quality_failed quality then b1 @ [BlockedByQuality] else b1) in
      (b2 = [], b2))"

section \<open>Sets of cases\<close>

record eval_case =
  ec_id :: string
  ec_evidence :: eval_evidence
  ec_contract :: contract_result
  ec_quality :: "quality_result option"

record eval_report =
  er_set :: string
  er_total :: nat
  er_passed :: nat
  er_blocked :: nat
  er_stability :: "rat option"
  er_quality :: "rat option"
  er_latency :: "rat option"
  er_cost :: "rat option"
  er_cases :: "eval_case list"

definition average :: "rat list \<Rightarrow> rat option" where
  "average xs = (if xs = [] then None else Some (foldl (+) 0 xs / of_nat (length xs)))"

definition summarize_eval_set :: "string \<Rightarrow> eval_case list \<Rightarrow> eval_report" where
  "summarize_eval_set i cases =
     (let passed = length (filter (\<lambda>c. cr_passed (ec_contract c) \<and> \<not> quality_failed (ec_quality c)) cases);
          metrics = List.map_filter (\<lambda>c. ee_metrics (ec_evidence c)) cases;
          mean = (\<lambda>key. average (List.map_filter key metrics)) in
      \<lparr>er_set = i, er_total = length cases, er_passed = passed, er_blocked = length cases - passed, er_stability = mean em_stability,
        er_quality = average (List.map_filter (\<lambda>c. map_option qr_score (ec_quality c)) cases), er_latency = mean em_latency,
        er_cost = mean em_cost, er_cases = cases\<rparr>)"

section \<open>The fixture sets\<close>

definition fixture_record :: "string \<Rightarrow> string \<Rightarrow> int \<Rightarrow> string \<Rightarrow> string \<Rightarrow> js \<Rightarrow> canonical_event" where
  "fixture_record i stream n ty time payload = \<lparr>ev_id = i, ev_scope = \<lparr>sc_workspace = ''workspace-eval-fixture'',
     sc_channel = ''channel-eval-fixture''\<rparr>, ev_stream = stream, ev_seq = n, ev_type = ty, ev_timestamp = time,
     ev_schema_version = 1, ev_payload = payload\<rparr>"

definition fixture_event :: "string \<Rightarrow> string \<Rightarrow> int \<Rightarrow> string \<Rightarrow> string \<Rightarrow> js \<Rightarrow> js" where
  "fixture_event i stream n ty time payload = event_js (fixture_record i stream n ty time payload)"

definition fixture_artifact :: "string \<Rightarrow> string \<Rightarrow> artifact" where
  "fixture_artifact case_id run = \<lparr>ar_id = case_id @ '':artifact'', ar_scope = \<lparr>sc_workspace = ''workspace-eval-fixture'',
     sc_channel = ''channel-eval-fixture''\<rparr>, ar_run_id = run, ar_kind = ''smoke_artifact'', ar_uri = ''artifact://'' @ case_id,
     ar_hash = ''sha256:'' @ case_id, ar_version = ''1'', ar_validation = ''passed'', ar_review = ''accepted''\<rparr>"

text \<open>The types and payloads between the first and the last event.\<close>

definition smoke_middle :: "string \<Rightarrow> string \<Rightarrow> (string \<times> js) list" where
  "smoke_middle case_id scenario =
     (let run = JStr (''smoke:'' @ case_id) in
      if scenario = ''completion'' then
        [(''run.progress'', JObj [(''phase'', JStr ''model_response_started'')]),
         (''run.progress'', JObj [(''phase'', JStr ''turn_finished''), (''usage'', JObj [(''input'', JNum 8), (''output'', JNum 3)])])]
      else if scenario = ''artifact'' then
        [(''artifact.validated'', JObj [(''artifactId'', JStr (case_id @ '':artifact'')), (''validationStatus'', JStr ''passed'')])]
      else if scenario = ''memory'' then
        [(''memory.hit'', JObj [(''runId'', run), (''sourceRunId'', JStr ''source-run''), (''sourceEventIds'', JArr [JStr ''source-event''])])]
      else if scenario = ''approval'' then
        [(''tool.approval.requested'', JObj [(''runId'', run), (''approvalId'', JStr (case_id @ '':approval''))])]
      else [])"

definition fixture_time :: "nat \<Rightarrow> string \<Rightarrow> string" where
  "fixture_time n rest = ''2026-08-20T00:00:0'' @ show_nat n @ rest"

definition smoke_evidence :: "host \<Rightarrow> string \<Rightarrow> string \<Rightarrow> eval_evidence parsed" where
  "smoke_evidence h case_id scenario =
     (let trace_id = ''smoke:'' @ case_id; middle = smoke_middle case_id scenario; n = length middle;
          terminal = (if scenario = ''approval'' then ''run.awaiting_approval'' else ''run.completed'') in
      r_bind (parse_canonical_event h (fixture_event (case_id @ '':started'') trace_id 0 ''run.started'' (fixture_time 0 ''.000Z'') (JObj []))) (\<lambda>first.
      r_bind (r_mapi (\<lambda>i m. parse_canonical_event h (fixture_event (case_id @ '':middle:'' @ show_nat i) trace_id (int i + 1) (fst m)
          (fixture_time (i + 1) ''.500Z'') (snd m))) 0 middle) (\<lambda>middles.
      r_bind (parse_canonical_event h (fixture_event (case_id @ '':completed'') trace_id (int n + 1) terminal
          (fixture_time (n + 1) ''.000Z'') (JObj []))) (\<lambda>final.
      r_bind (parse_artifact (artifact_js (fixture_artifact case_id trace_id))) (\<lambda>a.
      Inr \<lparr>ee_trace_id = trace_id, ee_events = first # middles @ [final], ee_artifacts = [a], ee_trace = None,
        ee_metrics = Some \<lparr>em_stability = Some 1, em_latency = Some 1000, em_cost = Some 0\<rparr>\<rparr>)))))"

definition fixture_rubric :: rubric where
  "fixture_rubric = \<lparr>rb_id = ''eval-fixture'', rb_version = ''1'',
     rb_criteria = [\<lparr>cn_id = ''evidence'', cn_description = ''Evidence is complete'', cn_weight = 1\<rparr>], rb_passing = 8 / 10\<rparr>"

definition fixture_quality :: quality_options where
  "fixture_quality = \<lparr>qo_prompt = ''fixture-prompt-1'', qo_model = ''fixture-model-1'', qo_rubric = fixture_rubric,
     qo_scores = [(''evidence'', JNum 1)]\<rparr>"

text \<open>\<open>effects\<close> are the options of the call: absent, or the keys it prohibits.\<close>

definition eval_case_of :: "host \<Rightarrow> string \<Rightarrow> eval_evidence \<Rightarrow> string list option \<Rightarrow> eval_case parsed" where
  "eval_case_of h case_id ev effects =
     r_bind (evaluate_quality h ev fixture_quality) (\<lambda>q.
       Inr \<lparr>ec_id = case_id, ec_evidence = ev,
         ec_contract = evaluate_contract h ev \<lparr>co_version = None, co_events = None, co_effects = effects,
           co_artifacts = Some [''smoke_artifact''], co_terminal = None\<rparr>,
         ec_quality = Some q\<rparr>)"

definition run_smoke_set :: "host \<Rightarrow> eval_case list parsed" where
  "run_smoke_set h = r_map (\<lambda>i. r_bind (smoke_evidence h i i) (\<lambda>ev. eval_case_of h i ev None))
     [''completion'', ''artifact'', ''memory'', ''approval'']"

definition dev_case_id :: "nat \<Rightarrow> string" where
  "dev_case_id i = ''dev-'' @ (if length (show_nat (i + 1)) < 2 then ''0'' else []) @ show_nat (i + 1)"

definition dev_case :: "host \<Rightarrow> nat \<Rightarrow> eval_case parsed" where
  "dev_case h i =
     (let case_id = dev_case_id i in
      r_bind (smoke_evidence h case_id ([''completion'', ''artifact'', ''memory'', ''approval''] ! (i mod 4))) (\<lambda>ev.
      if i = 15 then
        r_bind (parse_canonical_event h (fixture_event (case_id @ '':prohibited-effect'') (ee_trace_id ev) 1 ''tool.effect.succeeded''
          (fixture_time 1 ''.000Z'') (JObj [(''effectKey'', JStr ''prohibited'')]))) (\<lambda>prohibited.
        r_bind (r_map (\<lambda>e. parse_canonical_event h (event_js (e\<lparr>ev_seq := ev_seq e + 1\<rparr>))) (tl (ee_events ev))) (\<lambda>shifted.
        eval_case_of h case_id (ev\<lparr>ee_events := hd (ee_events ev) # prohibited # shifted\<rparr>) (Some [''prohibited''])))
      else eval_case_of h case_id ev None))"

definition run_dev_set :: "host \<Rightarrow> eval_case list parsed" where
  "run_dev_set h = r_map (dev_case h) [0..<16]"

end
