(* ===== verification/EvalProperties.thy ===== *)
theory EvalProperties
  imports EvalSet Examples
begin

text \<open>
  The properties of evaluation: what it takes to pass, that the order in which evidence was
  collected does not matter, that the release gate blocks exactly what becomes a regression case,
  and the bounds of a quality score; and the fixture sets, evaluated.
\<close>

section \<open>The rules\<close>

lemma report_simps [simp]:
  "fst (report r rule v) = fst v @ [rule]" "snd (report r rule v) = Some (or_else (snd v) r)"
  by (simp_all add: report_def or_else_def split: option.split)

lemma report_all:
  "fst (fold (\<lambda>x v. if P x then report r (f x) v else v) xs v) = fst v @ map f (filter P xs)"
  "snd (fold (\<lambda>x v. if P x then report r (f x) v else v) xs v) = (if list_ex P xs then Some (or_else (snd v) r) else snd v)"
  by (induction xs arbitrary: v) (auto simp: or_else_def)

definition bad_effect :: "string list \<Rightarrow> canonical_event \<Rightarrow> bool" where
  "bad_effect prohibited e \<longleftrightarrow> starts_with (ev_type e) ''tool.effect.'' \<and> (case event_effect_key e of None \<Rightarrow> False | Some k \<Rightarrow> k \<in> set prohibited)"

lemma check_effects_report:
  "check_effects prohibited events v =
     fold (\<lambda>e v. if bad_effect prohibited e then report ProhibitedSideEffect (''prohibited_effect:'' @ the (event_effect_key e)) v else v) events v"
proof -
  have "(\<lambda>e v. if \<not> starts_with (ev_type e) ''tool.effect.'' then v
        else case event_effect_key e of
          Some k \<Rightarrow> if k \<in> set prohibited then report ProhibitedSideEffect (''prohibited_effect:'' @ k) v else v
        | None \<Rightarrow> v) = (\<lambda>e v. if bad_effect prohibited e then report ProhibitedSideEffect (''prohibited_effect:'' @ the (event_effect_key e)) v else v)"
    by (intro ext) (auto simp: bad_effect_def split: option.splits)
  moreover have "fold (\<lambda>e v. if bad_effect [] e then report r (f e) v else v) events v = v" for r f
    by (induction events arbitrary: v) (auto simp: bad_effect_def split: option.splits)
  ultimately show ?thesis by (auto simp: check_effects_def)
qed

definition missing_events :: "eval_evidence \<Rightarrow> contract_options \<Rightarrow> string list" where
  "missing_events ev opt = filter (\<lambda>t. t \<notin> ev_type ` set (ee_events ev)) (or_else (co_events opt) [])"

definition missing_artifacts :: "eval_evidence \<Rightarrow> contract_options \<Rightarrow> string list" where
  "missing_artifacts ev opt = filter (\<lambda>k. k \<notin> ar_kind ` {a \<in> set (ee_artifacts ev). ar_validation a = ''passed''}) (or_else (co_artifacts opt) [])"

definition no_end :: "eval_evidence \<Rightarrow> contract_options \<Rightarrow> bool" where
  "no_end ev opt \<longleftrightarrow> or_else (co_terminal opt) True \<and> \<not> (\<exists>e \<in> set (ee_events ev). is_run_terminal (ev_type e))"

definition bad_effects :: "host \<Rightarrow> eval_evidence \<Rightarrow> contract_options \<Rightarrow> canonical_event list" where
  "bad_effects h ev opt = filter (bad_effect (or_else (co_effects opt) [])) (ordered_events h (ee_events ev))"

lemma set_ordered [simp]: "set (ordered_events h es) = set es"
  by (simp add: ordered_events_def)

lemma failed_rules:
  assumes "validate_evidence h ev = None"
  shows "cr_failed (evaluate_contract h ev opt) = map (\<lambda>t. ''required_event:'' @ t) (missing_events ev opt)
      @ map (\<lambda>e. ''prohibited_effect:'' @ the (event_effect_key e)) (bad_effects h ev opt)
      @ map (\<lambda>k. ''required_artifact:'' @ k) (missing_artifacts ev opt)
      @ (if no_end ev opt then [''required_terminal_event''] else []) @ (if orphaned_span ev then [''orphaned_trace''] else [])"
    and "cr_reason (evaluate_contract h ev opt) =
      (if missing_events ev opt \<noteq> [] then Some MissingRequiredEvent
       else if bad_effects h ev opt \<noteq> [] then Some ProhibitedSideEffect
       else if missing_artifacts ev opt \<noteq> [] then Some MissingRequiredArtifact
       else if no_end ev opt then Some MissingTerminalEvent
       else if orphaned_span ev then Some OrphanedTrace else None)"
  using assms
  by (simp_all add: evaluate_contract_def Let_def check_events_def check_effects_report check_artifacts_def check_terminal_def check_orphans_def
      report_all missing_events_def missing_artifacts_def no_end_def bad_effects_def list_ex_iff or_else_def filter_empty_conv)
    (auto simp: report_all or_else_def list_ex_iff)

lemma contract_passed_iff: "cr_passed (evaluate_contract h ev opt) \<longleftrightarrow> cr_failed (evaluate_contract h ev opt) = []"
  by (simp add: evaluate_contract_def Let_def split: option.split)


lemma no_missing:
  "missing_events ev opt = [] \<longleftrightarrow> (\<forall>t \<in> set (or_else (co_events opt) []). \<exists>e \<in> set (ee_events ev). ev_type e = t)"
  "missing_artifacts ev opt = [] \<longleftrightarrow> (\<forall>k \<in> set (or_else (co_artifacts opt) []). \<exists>a \<in> set (ee_artifacts ev). ar_kind a = k \<and> ar_validation a = ''passed'')"
  "bad_effects h ev opt = [] \<longleftrightarrow> (\<forall>e \<in> set (ee_events ev). \<not> bad_effect (or_else (co_effects opt) []) e)"
  by (auto simp: missing_events_def missing_artifacts_def bad_effects_def filter_empty_conv)

lemma bad_effects_none:
  "bad_effects h ev opt = [] \<longleftrightarrow> (\<forall>e \<in> set (ee_events ev). starts_with (ev_type e) ''tool.effect.'' \<longrightarrow>
          (\<forall>k. event_effect_key e = Some k \<longrightarrow> k \<notin> set (or_else (co_effects opt) [])))"
  by (auto simp: no_missing bad_effect_def split: option.splits)

lemma ended_iff: "no_end ev opt = False \<longleftrightarrow> (co_terminal opt \<noteq> Some False \<longrightarrow> (\<exists>e \<in> set (ee_events ev). is_run_terminal (ev_type e)))"
  by (auto simp: no_end_def or_else_def split: option.splits)

lemma passed_conditions:
  "(cr_passed (evaluate_contract h ev opt) \<longleftrightarrow>
     validate_evidence h ev = None
     \<and> (\<forall>t \<in> set (or_else (co_events opt) []). \<exists>e \<in> set (ee_events ev). ev_type e = t)
     \<and> (\<forall>e \<in> set (ee_events ev). starts_with (ev_type e) ''tool.effect.'' \<longrightarrow>
          (\<forall>k. event_effect_key e = Some k \<longrightarrow> k \<notin> set (or_else (co_effects opt) [])))
     \<and> (\<forall>k \<in> set (or_else (co_artifacts opt) []). \<exists>a \<in> set (ee_artifacts ev). ar_kind a = k \<and> ar_validation a = ''passed'')
     \<and> (co_terminal opt \<noteq> Some False \<longrightarrow> (\<exists>e \<in> set (ee_events ev). is_run_terminal (ev_type e)))
     \<and> \<not> orphaned_span ev)
   \<and> (cr_reason (evaluate_contract h ev opt) = None \<longleftrightarrow> cr_passed (evaluate_contract h ev opt))"
proof (cases "validate_evidence h ev")
  case None
  show ?thesis unfolding bad_effects_none [of h, symmetric] ended_iff [symmetric] no_missing(1) [symmetric] no_missing(2) [symmetric]
      contract_passed_iff failed_rules(1) [OF None] failed_rules(2) [OF None] using None by auto
next
  case (Some r)
  then show ?thesis by (simp add: evaluate_contract_def Let_def)
qed

text \<open>
  C31. A run passes its contract exactly when its evidence is coherent, every required event type
  occurs, no event of an effect carries a prohibited key, every required kind of artifact is there
  and passed validation, the run has ended (unless that is not required) and no span of its trace is
  orphaned. A reason is given exactly when it fails.
\<close>

theorem contract_passes_iff:
  "(cr_passed (evaluate_contract h ev opt) \<longleftrightarrow>
     validate_evidence h ev = None
     \<and> (\<forall>t \<in> set (or_else (co_events opt) []). \<exists>e \<in> set (ee_events ev). ev_type e = t)
     \<and> (\<forall>e \<in> set (ee_events ev). starts_with (ev_type e) ''tool.effect.'' \<longrightarrow>
          (\<forall>k. event_effect_key e = Some k \<longrightarrow> k \<notin> set (or_else (co_effects opt) [])))
     \<and> (\<forall>k \<in> set (or_else (co_artifacts opt) []). \<exists>a \<in> set (ee_artifacts ev). ar_kind a = k \<and> ar_validation a = ''passed'')
     \<and> (co_terminal opt \<noteq> Some False \<longrightarrow> (\<exists>e \<in> set (ee_events ev). is_run_terminal (ev_type e)))
     \<and> \<not> orphaned_span ev)
   \<and> (cr_reason (evaluate_contract h ev opt) = None \<longleftrightarrow> cr_passed (evaluate_contract h ev opt))"
  by (rule passed_conditions)

section \<open>Gate and regression cases\<close>

lemma validate_Some: "validate_evidence h ev = None \<or> validate_evidence h ev = Some InvalidEvidence"
  by (simp add: validate_evidence_def Let_def)

lemma failure_text_other: "validate_evidence h ev = Some r \<Longrightarrow> failure_text r \<noteq> ''orphaned_trace''"
  using validate_Some [of h ev] by (elim disjE) simp_all

lemma list_ex_map_all: "(\<And>x. P (f x)) \<Longrightarrow> list_ex P (map f xs) \<longleftrightarrow> xs \<noteq> []"
  by (cases xs) auto

text \<open>The conditions of a contract that the events and artifacts decide, not the spans.\<close>

definition meets_contract :: "eval_evidence \<Rightarrow> contract_options \<Rightarrow> bool" where
  "meets_contract ev opt \<longleftrightarrow> (\<forall>t \<in> set (or_else (co_events opt) []). \<exists>e \<in> set (ee_events ev). ev_type e = t)
     \<and> (\<forall>e \<in> set (ee_events ev). starts_with (ev_type e) ''tool.effect.'' \<longrightarrow>
          (\<forall>k. event_effect_key e = Some k \<longrightarrow> k \<notin> set (or_else (co_effects opt) [])))
     \<and> (\<forall>k \<in> set (or_else (co_artifacts opt) []). \<exists>a \<in> set (ee_artifacts ev). ar_kind a = k \<and> ar_validation a = ''passed'')
     \<and> (co_terminal opt \<noteq> Some False \<longrightarrow> (\<exists>e \<in> set (ee_events ev). is_run_terminal (ev_type e)))"

lemma passed_meets:
  "cr_passed (evaluate_contract h ev opt) \<longleftrightarrow> validate_evidence h ev = None \<and> meets_contract ev opt \<and> \<not> orphaned_span ev"
  using passed_conditions [of h ev opt] unfolding meets_contract_def by blast

lemma other_rule:
  "list_ex (\<lambda>rule. rule \<noteq> ''orphaned_trace'') (cr_failed (evaluate_contract h ev opt))
     \<longleftrightarrow> \<not> (validate_evidence h ev = None \<and> meets_contract ev opt)"
proof (cases "validate_evidence h ev")
  case None
  have "list_ex (\<lambda>rule. rule \<noteq> ''orphaned_trace'') (cr_failed (evaluate_contract h ev opt)) \<longleftrightarrow>
      missing_events ev opt \<noteq> [] \<or> bad_effects h ev opt \<noteq> [] \<or> missing_artifacts ev opt \<noteq> [] \<or> no_end ev opt"
    unfolding failed_rules(1) [OF None] by (simp add: list_ex_map_all)
  moreover have "meets_contract ev opt \<longleftrightarrow>
      \<not> (missing_events ev opt \<noteq> [] \<or> bad_effects h ev opt \<noteq> [] \<or> missing_artifacts ev opt \<noteq> [] \<or> no_end ev opt)"
    unfolding meets_contract_def no_missing(1) [symmetric] no_missing(2) [symmetric] bad_effects_none [of h, symmetric] ended_iff [symmetric]
    by auto
  ultimately show ?thesis using None by blast
next
  case (Some r)
  then show ?thesis using failure_text_other [OF Some] by (simp add: evaluate_contract_def Let_def)
qed

text \<open>
  C35. The release gate and the regression cases agree on every evaluated run. A run can fail in three
  ways: a span of its trace is orphaned; its evidence is not coherent or does not meet the contract
  otherwise; its quality was evaluated and is below the bar. The gate lets the run pass exactly when it
  fails in none of them, and is blocked by the contract for the first two and by quality for the third.
  Exactly the runs that are blocked give a regression case. Its class is the one way the run fails in,
  or mixed when there are several; it carries the verdicts, and names the run and the events the
  contract was checked against.
\<close>

theorem gate_blocks_regressions:
  "let c = evaluate_contract h ev opt;
       bad_trace = orphaned_span ev;
       bad_contract = (\<not> (validate_evidence h ev = None \<and> meets_contract ev opt));
       bad_quality = (\<exists>q. quality = Some q \<and> \<not> qr_passed q)
   in evaluate_release_gate c quality = (\<not> bad_trace \<and> \<not> bad_contract \<and> \<not> bad_quality,
         (if bad_trace \<or> bad_contract then [BlockedByContract] else []) @ (if bad_quality then [BlockedByQuality] else []))
    \<and> materialize_regression_case h ev c quality =
       (if \<not> bad_trace \<and> \<not> bad_contract \<and> \<not> bad_quality then Inl (PlainError ''Regression Case requires a failed Eval'')
        else let class = (if bad_trace \<and> \<not> bad_contract \<and> \<not> bad_quality then TraceFailure
            else if bad_contract \<and> \<not> bad_trace \<and> \<not> bad_quality then ContractFailure
            else if bad_quality \<and> \<not> bad_trace \<and> \<not> bad_contract then QualityFailure
            else MixedFailure)
          in Inr \<lparr>rc_id = ''regression:'' @ ee_trace_id ev @ '':'' @ class_text class, rc_trace = ee_trace_id ev, rc_class = class,
            rc_events = cr_checked c, rc_contract = c, rc_quality = quality\<rparr>)"
proof -
  define bad_contract where "bad_contract = (\<not> (validate_evidence h ev = None \<and> meets_contract ev opt))"
  have passed: "cr_passed (evaluate_contract h ev opt) \<longleftrightarrow> \<not> orphaned_span ev \<and> \<not> bad_contract"
    unfolding bad_contract_def passed_meets by blast
  have quality: "quality_failed quality \<longleftrightarrow> (\<exists>q. quality = Some q \<and> \<not> qr_passed q)"
    by (simp add: quality_failed_def split: option.split)
  have checked: "cr_checked (evaluate_contract h ev opt) = map ev_id (ordered_events h (ee_events ev))"
    by (simp add: evaluate_contract_def Let_def split: option.split)
  show ?thesis
    unfolding Let_def materialize_regression_case_def evaluate_release_gate_def passed quality [symmetric] other_rule
      bad_contract_def [symmetric] checked
    by (cases "orphaned_span ev"; cases bad_contract; cases "quality_failed quality") simp_all
qed

section \<open>The order of the evidence\<close>

definition apart_artifacts :: "host \<Rightarrow> artifact list \<Rightarrow> bool" where
  "apart_artifacts h as \<longleftrightarrow> (\<forall>a \<in> set as. \<forall>b \<in> set as. locale_compare h (ar_id a) (ar_id b) = 0 \<longrightarrow> a = b)"

definition same_evidence :: "eval_evidence \<Rightarrow> eval_evidence \<Rightarrow> bool" where
  "same_evidence ev ev' \<longleftrightarrow> ee_trace_id ev' = ee_trace_id ev \<and> mset (ee_events ev') = mset (ee_events ev)
     \<and> mset (ee_artifacts ev') = mset (ee_artifacts ev) \<and> ee_trace ev' = ee_trace ev \<and> ee_metrics ev' = ee_metrics ev"

lemma if_Some_None: "(if b then Some x else y) = None \<longleftrightarrow> \<not> b \<and> y = None"
  by simp

lemma validate_None_iff:
  "validate_evidence h ev = None \<longleftrightarrow> ee_trace_id ev \<noteq> [] \<and> ee_events ev \<noteq> []
     \<and> (\<forall>e \<in> set (ee_events ev). r_is_ok (parse_canonical_event h (event_js e)))
     \<and> (\<forall>a \<in> set (ee_artifacts ev). r_is_ok (parse_artifact (artifact_js a)))
     \<and> (\<forall>e \<in> set (ee_events ev). sc_workspace (ev_scope e) = sc_workspace (ev_scope (hd (ee_events ev)))
          \<and> sc_channel (ev_scope e) = sc_channel (ev_scope (hd (ee_events ev))) \<and> event_belongs_to_run e (ee_trace_id ev))
     \<and> (\<forall>a \<in> set (ee_artifacts ev). sc_workspace (ar_scope a) = sc_workspace (ev_scope (hd (ee_events ev)))
          \<and> sc_channel (ar_scope a) = sc_channel (ev_scope (hd (ee_events ev))) \<and> ar_run_id a = ee_trace_id ev)
     \<and> distinct (map (\<lambda>e. ev_stream e @ '':'' @ show_int (ev_seq e)) (ee_events ev)) \<and> distinct (map ev_id (ee_events ev))
     \<and> (\<forall>t. ee_trace ev = Some t \<longrightarrow> et_id t = ee_trace_id ev)"
proof -
  let ?f = "hd (ee_events ev)"
  have events: "list_ex (\<lambda>e. sc_workspace (ev_scope e) \<noteq> sc_workspace (ev_scope ?f) \<or> sc_channel (ev_scope e) \<noteq> sc_channel (ev_scope ?f)
             \<or> \<not> event_belongs_to_run e (ee_trace_id ev)) (ee_events ev) \<longleftrightarrow>
      \<not> (\<forall>e \<in> set (ee_events ev). sc_workspace (ev_scope e) = sc_workspace (ev_scope ?f)
          \<and> sc_channel (ev_scope e) = sc_channel (ev_scope ?f) \<and> event_belongs_to_run e (ee_trace_id ev))"
    unfolding list_ex_iff by blast
  have artifacts: "list_ex (\<lambda>a. sc_workspace (ar_scope a) \<noteq> sc_workspace (ev_scope ?f) \<or> sc_channel (ar_scope a) \<noteq> sc_channel (ev_scope ?f)
             \<or> ar_run_id a \<noteq> ee_trace_id ev) (ee_artifacts ev) \<longleftrightarrow>
      \<not> (\<forall>a \<in> set (ee_artifacts ev). sc_workspace (ar_scope a) = sc_workspace (ev_scope ?f)
          \<and> sc_channel (ar_scope a) = sc_channel (ev_scope ?f) \<and> ar_run_id a = ee_trace_id ev)"
    unfolding list_ex_iff by blast
  have trace: "(case ee_trace ev of None \<Rightarrow> False | Some t \<Rightarrow> et_id t \<noteq> ee_trace_id ev) \<longleftrightarrow> \<not> (\<forall>t. ee_trace ev = Some t \<longrightarrow> et_id t = ee_trace_id ev)"
    by (cases "ee_trace ev") simp_all
  show ?thesis unfolding validate_evidence_def Let_def if_Some_None events artifacts trace list_all_iff
    by (simp only: de_Morgan_disj not_not) (intro iffI conjI; (elim conjE)?; (assumption | rule refl))
qed

lemma validate_order:
  assumes same: "same_evidence ev ev'" and ok: "validate_evidence h ev = None" shows "validate_evidence h ev' = None"
proof -
  have sets: "set (ee_events ev') = set (ee_events ev)" "set (ee_artifacts ev') = set (ee_artifacts ev)"
    and rest: "ee_trace_id ev' = ee_trace_id ev" "ee_trace ev' = ee_trace ev"
    using same by (auto simp: same_evidence_def dest: mset_eq_setD)
  have d: "distinct (map f (ee_events ev')) = distinct (map f (ee_events ev))" for f :: "canonical_event \<Rightarrow> string"
    using same by (intro mset_eq_imp_distinct_iff) (simp add: same_evidence_def)
  note v = ok [unfolded validate_None_iff]
  have ne: "ee_events ev \<noteq> []" using v by blast
  then have "hd (ee_events ev') \<in> set (ee_events ev)" using sets(1) by (metis hd_in_set set_empty)
  then have scope: "sc_workspace (ev_scope (hd (ee_events ev'))) = sc_workspace (ev_scope (hd (ee_events ev)))"
    "sc_channel (ev_scope (hd (ee_events ev'))) = sc_channel (ev_scope (hd (ee_events ev)))" using v by blast+
  have "ee_events ev' \<noteq> []" using ne sets(1) by (metis set_empty)
  then show ?thesis using v unfolding validate_None_iff sets rest d scope by (elim conjE) (intro conjI; assumption)
qed

lemma same_evidence_sym: "same_evidence ev ev' \<Longrightarrow> same_evidence ev' ev"
  by (simp add: same_evidence_def)

lemma validate_same: "same_evidence ev ev' \<Longrightarrow> validate_evidence h ev' = validate_evidence h ev"
  using validate_order [of ev ev' h] validate_order [of ev' ev h] validate_Some [of h ev] validate_Some [of h ev'] same_evidence_sym [of ev ev']
  by auto


lemma ordered_same:
  "total_preorder (locale_le h) \<Longrightarrow> apart h (ee_events ev) \<Longrightarrow> same_evidence ev ev' \<Longrightarrow>
   ordered_events h (ee_events ev') = ordered_events h (ee_events ev)"
  unfolding ordered_events_def by (rule sort_events_order [symmetric]) (simp_all add: same_evidence_def)

lemma artifacts_same:
  assumes le: "total_preorder (locale_le h)" and apart: "apart_artifacts h (ee_artifacts ev)" and same: "same_evidence ev ev'"
  shows "sort_by (\<lambda>l r. locale_compare h (ar_id l) (ar_id r) \<le> 0) (ee_artifacts ev') = sort_by (\<lambda>l r. locale_compare h (ar_id l) (ar_id r) \<le> 0) (ee_artifacts ev)"
proof (rule sort_by_mset [OF good_total [OF good_locale [OF le]], symmetric])
  show "mset (ee_artifacts ev) = mset (ee_artifacts ev')" using same by (simp add: same_evidence_def)
  fix a b assume "a \<in> set (ee_artifacts ev)" "b \<in> set (ee_artifacts ev)" "locale_compare h (ar_id a) (ar_id b) \<le> 0" "locale_compare h (ar_id b) (ar_id a) \<le> 0"
  moreover from this have "locale_compare h (ar_id a) (ar_id b) = 0" using locale_compare_iff [OF le, of "ar_id a" "ar_id b"]
    locale_compare_iff [OF le, of "ar_id b" "ar_id a"] by linarith
  ultimately show "a = b" using apart by (simp add: apart_artifacts_def)
qed

text \<open>Artifacts with the same identifier keep the order in which they were collected, and so does the cache key.\<close>

lemma same_id_artifacts_keep_order:
  assumes "total_preorder (locale_le h)" and "ar_id a = ar_id b"
  shows "evidence_js h (ev\<lparr>ee_artifacts := [a, b]\<rparr>) = evidence_js h (ev\<lparr>ee_artifacts := [b, a]\<rparr>) \<longleftrightarrow> artifact_js a = artifact_js b"
proof -
  have "locale_compare h i i \<le> 0" for i using locale_compare_iff(1) [OF assms(1), of i i] total_preorderD(1) [OF assms(1), of i i] by blast
  then show ?thesis using assms(2) by (auto simp: evidence_js_def)
qed

lemma failed_rules_order:
  assumes "same_evidence ev ev'"
  shows "mset (cr_failed (evaluate_contract h ev' opt)) = mset (cr_failed (evaluate_contract h ev opt))
    \<and> cr_reason (evaluate_contract h ev' opt) = cr_reason (evaluate_contract h ev opt)"
proof (cases "validate_evidence h ev")
  case None
  then have None': "validate_evidence h ev' = None" using validate_same [OF assms, of h] by simp
  have sets: "set (ee_events ev') = set (ee_events ev)" "set (ee_artifacts ev') = set (ee_artifacts ev)" "ee_trace ev' = ee_trace ev"
    using assms by (auto simp: same_evidence_def dest: mset_eq_setD)
  have same: "missing_events ev' opt = missing_events ev opt" "missing_artifacts ev' opt = missing_artifacts ev opt"
      "no_end ev' opt = no_end ev opt" "orphaned_span ev' = orphaned_span ev"
    by (simp_all add: missing_events_def missing_artifacts_def no_end_def orphaned_span_def sets)
  have effects: "mset (bad_effects h ev' opt) = mset (bad_effects h ev opt)"
    using assms by (simp add: bad_effects_def ordered_events_def mset_filter same_evidence_def)
  then have "bad_effects h ev' opt = [] \<longleftrightarrow> bad_effects h ev opt = []" by (metis mset_zero_iff)
  with effects show ?thesis unfolding failed_rules [OF None] failed_rules [OF None'] same by simp
next
  case (Some r)
  then show ?thesis using validate_same [OF assms, of h] by (simp add: evaluate_contract_def Let_def)
qed

text \<open>
  C40. What an evaluation decides does not depend on the order in which events and artifacts were
  collected. For the same evidence in another order the contract is passed or not for the same reason,
  with the same rules failed and events checked up to their order; the quality is the same up to its
  cache key; and the regression case is the same up to the order of the events it names. When the
  events can be told apart by time, stream, number and identifier, then contract and regression case
  are equal; when the artifacts can be told apart by their identifiers as well, so is the quality with
  its cache key.
\<close>

theorem evaluation_ignores_order:
  assumes le: "total_preorder (locale_le h)" and same: "same_evidence ev ev'"
  shows "cr_passed (evaluate_contract h ev' opt) = cr_passed (evaluate_contract h ev opt)
    \<and> cr_reason (evaluate_contract h ev' opt) = cr_reason (evaluate_contract h ev opt)
    \<and> mset (cr_failed (evaluate_contract h ev' opt)) = mset (cr_failed (evaluate_contract h ev opt))
    \<and> mset (cr_checked (evaluate_contract h ev' opt)) = mset (cr_checked (evaluate_contract h ev opt))
    \<and> map_sum id (qr_key_update (\<lambda>_. [])) (evaluate_quality h ev' qopt) = map_sum id (qr_key_update (\<lambda>_. [])) (evaluate_quality h ev qopt)
    \<and> map_sum id (\<lambda>r. (r\<lparr>rc_events := []\<rparr>, mset (rc_events r))) (materialize_regression_case h ev' contract quality)
      = map_sum id (\<lambda>r. (r\<lparr>rc_events := []\<rparr>, mset (rc_events r))) (materialize_regression_case h ev contract quality)
    \<and> (apart h (ee_events ev) \<longrightarrow> evaluate_contract h ev' opt = evaluate_contract h ev opt
         \<and> materialize_regression_case h ev' contract quality = materialize_regression_case h ev contract quality)
    \<and> (apart h (ee_events ev) \<and> apart_artifacts h (ee_artifacts ev) \<longrightarrow> evaluate_quality h ev' qopt = evaluate_quality h ev qopt)"
proof -
  have trace: "ee_trace_id ev' = ee_trace_id ev" "ee_trace ev' = ee_trace ev" "ee_metrics ev' = ee_metrics ev"
    and artifacts: "set (ee_artifacts ev') = set (ee_artifacts ev)"
    and events: "mset (ee_events ev') = mset (ee_events ev)"
    using same by (auto simp: same_evidence_def dest: mset_eq_setD)
  have orphaned: "orphaned_span ev' = orphaned_span ev" by (simp add: orphaned_span_def trace)
  note rules = failed_rules_order [OF same, of h opt]
  have passed: "cr_passed (evaluate_contract h ev' opt) = cr_passed (evaluate_contract h ev opt)"
    using rules unfolding contract_passed_iff by (metis mset_zero_iff)
  have checked: "mset (cr_checked (evaluate_contract h ev' opt)) = mset (cr_checked (evaluate_contract h ev opt))"
    using events by (simp add: evaluate_contract_def Let_def ordered_events_def mset_map split: option.split)
  have quality_up_to: "map_sum id (qr_key_update (\<lambda>_. [])) (evaluate_quality h ev' qopt)
      = map_sum id (qr_key_update (\<lambda>_. [])) (evaluate_quality h ev qopt)"
    unfolding evaluate_quality_def validate_same [OF same] by (auto simp: r_bind_def Let_def split: option.split sum.split)
  have case_up_to: "map_sum id (\<lambda>r. (r\<lparr>rc_events := []\<rparr>, mset (rc_events r))) (materialize_regression_case h ev' contract quality)
      = map_sum id (\<lambda>r. (r\<lparr>rc_events := []\<rparr>, mset (rc_events r))) (materialize_regression_case h ev contract quality)"
    using events unfolding materialize_regression_case_def orphaned trace by (simp add: Let_def ordered_events_def mset_map)
  have exact: "evaluate_contract h ev' opt = evaluate_contract h ev opt
      \<and> materialize_regression_case h ev' contract quality = materialize_regression_case h ev contract quality"
    if "apart h (ee_events ev)"
  proof -
    note ordered = ordered_same [OF le that same]
    have "check_artifacts req (ee_artifacts ev') v = check_artifacts req (ee_artifacts ev) v" for req v
      by (simp add: check_artifacts_def artifacts)
    then have "evaluate_contract h ev' opt = evaluate_contract h ev opt"
      by (simp add: evaluate_contract_def Let_def ordered validate_same [OF same] check_orphans_def orphaned split: option.split)
    moreover have "materialize_regression_case h ev' contract quality = materialize_regression_case h ev contract quality"
      unfolding materialize_regression_case_def orphaned trace ordered ..
    ultimately show ?thesis ..
  qed
  have "evaluate_quality h ev' qopt = evaluate_quality h ev qopt" if "apart h (ee_events ev)" "apart_artifacts h (ee_artifacts ev)"
  proof -
    have key: "cache_key h ev' qopt = cache_key h ev qopt"
      by (simp add: cache_key_def evidence_js_def trace ordered_same [OF le that(1) same] artifacts_same [OF le that(2) same])
    show ?thesis unfolding evaluate_quality_def validate_same [OF same] key ..
  qed
  with rules passed checked quality_up_to case_up_to exact show ?thesis by simp
qed

section \<open>Quality\<close>

lemma foldl_weights: "foldl (\<lambda>t c. t + cn_weight c) a cs = a + sum_list (map cn_weight cs)"
  by (induction cs arbitrary: a) (simp_all add: algebra_simps)

lemma score_range: "score_for scores i = Inr q \<Longrightarrow> 0 \<le> q \<and> q \<le> 1"
  by (auto simp: score_for_def split: js.splits if_splits)

lemma assert_criteria_weights: "assert_criteria ids cs = Inr u \<Longrightarrow> c \<in> set cs \<Longrightarrow> 0 < cn_weight c"
  by (induction ids cs rule: assert_criteria.induct) (auto split: if_splits)

lemma weigh_least:
  "weigh scores cs acc = Inr x \<Longrightarrow> \<forall>c \<in> set cs. 0 < cn_weight c \<and> (\<forall>q. score_for scores (cn_id c) = Inr q \<longrightarrow> p \<le> q) \<Longrightarrow>
   acc + p * sum_list (map cn_weight cs) \<le> x"
proof (induction cs arbitrary: acc)
  case (Cons c cs)
  from Cons.prems(1) obtain q where q: "score_for scores (cn_id c) = Inr q" and x: "weigh scores cs (acc + q * cn_weight c) = Inr x"
    by (auto simp: res_simps)
  have "p * cn_weight c \<le> q * cn_weight c" using Cons.prems(2) q by (auto intro!: mult_right_mono)
  moreover have "acc + q * cn_weight c + p * sum_list (map cn_weight cs) \<le> x" by (rule Cons.IH [OF x]) (use Cons.prems(2) in simp)
  ultimately show ?case unfolding list.map sum_list.Cons distrib_left by linarith
qed simp

lemma weigh_most:
  "weigh scores cs acc = Inr x \<Longrightarrow> \<forall>c \<in> set cs. 0 < cn_weight c \<and> (\<forall>q. score_for scores (cn_id c) = Inr q \<longrightarrow> q \<le> p) \<Longrightarrow>
   x \<le> acc + p * sum_list (map cn_weight cs)"
proof (induction cs arbitrary: acc)
  case (Cons c cs)
  from Cons.prems(1) obtain q where q: "score_for scores (cn_id c) = Inr q" and x: "weigh scores cs (acc + q * cn_weight c) = Inr x"
    by (auto simp: res_simps)
  have "q * cn_weight c \<le> p * cn_weight c" using Cons.prems(2) q by (auto intro!: mult_right_mono)
  moreover have "x \<le> acc + q * cn_weight c + p * sum_list (map cn_weight cs)" by (rule Cons.IH [OF x]) (use Cons.prems(2) in simp)
  ultimately show ?case unfolding list.map sum_list.Cons distrib_left by linarith
qed simp

lemma failed_criteria_set:
  "failed_criteria scores p cs = Inr names \<Longrightarrow>
   set names = {cn_id c | c. c \<in> set cs \<and> (\<exists>q. score_for scores (cn_id c) = Inr q \<and> q < p)}
   \<and> (\<forall>c \<in> set cs. \<exists>q. score_for scores (cn_id c) = Inr q)"
proof (induction cs arbitrary: names)
  case (Cons c cs)
  from Cons.prems obtain q ns where q: "score_for scores (cn_id c) = Inr q" and ns: "failed_criteria scores p cs = Inr ns"
    and names: "names = (if q < p then cn_id c # ns else ns)" by (auto simp: res_simps)
  from Cons.IH [OF ns] q names show ?case by auto
qed simp


lemma weigh_below:
  "weigh scores cs acc = Inr x \<Longrightarrow> cs \<noteq> [] \<Longrightarrow> \<forall>c \<in> set cs. 0 < cn_weight c \<and> (\<forall>q. score_for scores (cn_id c) = Inr q \<longrightarrow> q < p) \<Longrightarrow>
   x < acc + p * sum_list (map cn_weight cs)"
proof (induction cs arbitrary: acc)
  case (Cons c cs)
  from Cons.prems(1) obtain q where q: "score_for scores (cn_id c) = Inr q" and x: "weigh scores cs (acc + q * cn_weight c) = Inr x"
    by (auto simp: res_simps)
  have "q * cn_weight c < p * cn_weight c" using Cons.prems(3) q by (auto intro!: mult_strict_right_mono)
  moreover have "x \<le> acc + q * cn_weight c + p * sum_list (map cn_weight cs)"
    by (rule weigh_most [OF x]) (use Cons.prems(3) less_imp_le in \<open>auto\<close>)
  ultimately show ?case unfolding list.map sum_list.Cons distrib_left by linarith
qed simp

text \<open>
  A score is a weighted mean: it lies between 0 and 1, a run that fails no criterion passes, and one
  that passes does not fail them all.
\<close>

lemma quality_is_a_mean:
  assumes "evaluate_quality h ev opt = Inr r"
  shows "0 \<le> qr_score r" "qr_score r \<le> 1" "qr_failed r = [] \<Longrightarrow> qr_passed r"
    "qr_passed r \<Longrightarrow> \<exists>c \<in> set (rb_criteria (qo_rubric opt)). \<exists>q. score_for (qo_scores opt) (cn_id c) = Inr q \<and> rb_passing (qo_rubric opt) \<le> q"
proof -
  let ?cs = "rb_criteria (qo_rubric opt)" and ?p = "rb_passing (qo_rubric opt)" and ?W = "sum_list (map cn_weight (rb_criteria (qo_rubric opt)))"
  obtain x names where rub: "assert_rubric (qo_rubric opt) = Inr ()" and x: "weigh (qo_scores opt) ?cs 0 = Inr x"
    and names: "failed_criteria (qo_scores opt) ?p ?cs = Inr names"
    and r: "qr_score r = x / ?W" "qr_passed r \<longleftrightarrow> ?p \<le> x / ?W" "qr_failed r = names"
    using assms by (auto simp: evaluate_quality_def Let_def foldl_weights elim!: r_bindE split: option.splits)
  have ne: "?cs \<noteq> []" and crit: "assert_criteria [] ?cs = Inr ()" using rub by (auto simp: assert_rubric_def split: if_splits)
  have pos: "\<forall>c \<in> set ?cs. 0 < cn_weight c" using assert_criteria_weights [OF crit] by blast
  then have W: "0 < ?W" using ne by (cases ?cs) (auto intro!: add_pos_nonneg sum_list_nonneg simp: less_imp_le)
  have "0 \<le> x" using weigh_least [OF x, of 0] pos score_range by simp
  moreover have "x \<le> ?W" using weigh_most [OF x, of 1] pos score_range by simp
  ultimately show "0 \<le> qr_score r" "qr_score r \<le> 1" using W by (simp_all add: r)
  note fails = failed_criteria_set [OF names]
  show "qr_passed r" if "qr_failed r = []"
  proof -
    have "\<forall>c \<in> set ?cs. 0 < cn_weight c \<and> (\<forall>q. score_for (qo_scores opt) (cn_id c) = Inr q \<longrightarrow> ?p \<le> q)"
      using fails that pos r(3) by fastforce
    from weigh_least [OF x this] W show ?thesis by (simp add: r pos_le_divide_eq)
  qed
  show "\<exists>c \<in> set ?cs. \<exists>q. score_for (qo_scores opt) (cn_id c) = Inr q \<and> ?p \<le> q" if "qr_passed r"
  proof (rule ccontr)
    assume "\<not> ?thesis"
    then have "\<forall>c \<in> set ?cs. 0 < cn_weight c \<and> (\<forall>q. score_for (qo_scores opt) (cn_id c) = Inr q \<longrightarrow> q < ?p)" using pos by force
    from weigh_below [OF x ne this] W that show False by (simp add: r pos_le_divide_eq)
  qed
qed


section \<open>The fixture sets\<close>

text \<open>The host reads the times the fixtures are written with.\<close>

definition fixture_times :: "host \<Rightarrow> bool" where
  "fixture_times h \<longleftrightarrow> list_all (\<lambda>n. date_parse h (fixture_time n ''.000Z'') \<noteq> None \<and> date_parse h (fixture_time n ''.500Z'') \<noteq> None) [0..<4]"

lemma fixture_timesD:
  "fixture_times h \<Longrightarrow> n < 4 \<Longrightarrow> date_parse h (fixture_time n ''.000Z'') \<noteq> None"
  "fixture_times h \<Longrightarrow> n < 4 \<Longrightarrow> date_parse h (fixture_time n ''.500Z'') \<noteq> None"
  by (auto simp: fixture_times_def list_all_iff)

lemma fixture_time_text: "\<not> is_blank (fixture_time n rest)"
  by (simp add: fixture_time_def is_blank_iff is_space_def)

lemma fixture_scope_text: "\<not> is_blank ''workspace-eval-fixture''" "\<not> is_blank ''channel-eval-fixture''"
  by (simp_all add: is_blank_iff is_space_def)

lemma fixture_parses:
  assumes "\<not> is_blank i" "\<not> is_blank stream" "0 \<le> n" "n \<le> 9" "\<not> is_blank ty" "date_parse h (fixture_time k rest) \<noteq> None" "is_json payload"
  shows "parse_canonical_event h (event_js (fixture_record i stream n ty (fixture_time k rest) payload))
    = Inr (fixture_record i stream n ty (fixture_time k rest) payload)"
  unfolding parse_canonical_event_js using assms
  by (simp add: event_ok_def fixture_record_def scope_ok_def max_safe_def fixture_time_text fixture_scope_text)

lemma fixture_artifact_parses: "parse_artifact (artifact_js (fixture_artifact i (''smoke:'' @ i))) = Inr (fixture_artifact i (''smoke:'' @ i))"
  by (simp add: fixture_artifact_def parse_artifact_def artifact_js_def parse_runs parse_scope_fields_def is_blank_iff is_space_def)

definition smoke_events :: "string \<Rightarrow> string \<Rightarrow> canonical_event list" where
  "smoke_events i scenario =
     (let middle = smoke_middle i scenario in
      fixture_record (i @ '':started'') (''smoke:'' @ i) 0 ''run.started'' (fixture_time 0 ''.000Z'') (JObj [])
      # map (\<lambda>k. fixture_record (i @ '':middle:'' @ show_nat k) (''smoke:'' @ i) (int k + 1) (fst (middle ! k)) (fixture_time (k + 1) ''.500Z'') (snd (middle ! k)))
          [0..<length middle]
      @ [fixture_record (i @ '':completed'') (''smoke:'' @ i) (int (length middle) + 1)
          (if scenario = ''approval'' then ''run.awaiting_approval'' else ''run.completed'') (fixture_time (length middle + 1) ''.000Z'') (JObj [])])"

definition smoke_record :: "string \<Rightarrow> string \<Rightarrow> eval_evidence" where
  "smoke_record i scenario = \<lparr>ee_trace_id = ''smoke:'' @ i, ee_events = smoke_events i scenario,
     ee_artifacts = [fixture_artifact i (''smoke:'' @ i)], ee_trace = None,
     ee_metrics = Some \<lparr>em_stability = Some 1, em_latency = Some 1000, em_cost = Some 0\<rparr>\<rparr>"

lemma r_mapi_nth: "(\<And>k. k < length xs \<Longrightarrow> f (i + k) (xs ! k) = Inr (g (i + k))) \<Longrightarrow> r_mapi f i xs = Inr (map g [i..<i + length xs])"
proof (induction xs arbitrary: i)
  case (Cons x xs)
  have "r_mapi f (Suc i) xs = Inr (map g [Suc i..<Suc i + length xs])" using Cons.prems [of "Suc _"] by (intro Cons.IH) simp
  moreover have "f i x = Inr (g i)" using Cons.prems [of 0] by simp
  ultimately show ?case by (simp add: upt_conv_Cons del: upt_Suc)
qed simp

lemma smoke_middle_small: "length (smoke_middle i s) < 3"
  "k < length (smoke_middle i s) \<Longrightarrow> \<not> is_blank (fst (smoke_middle i s ! k)) \<and> is_json (snd (smoke_middle i s ! k))"
  by (auto simp: smoke_middle_def Let_def less_Suc_eq is_blank_iff is_space_def nth_Cons split: if_splits nat.splits)

lemma smoke_ids: "\<not> is_blank (i @ '':started'')" "\<not> is_blank (i @ '':middle:'' @ s)" "\<not> is_blank (i @ '':completed'')" "\<not> is_blank (''smoke:'' @ i)"
  "\<not> is_blank ''run.started''" "\<not> is_blank ''run.completed''" "\<not> is_blank ''run.awaiting_approval''"
  by (auto simp: is_blank_iff is_space_def)

lemma smoke_event_parses:
  assumes "fixture_times h" "e \<in> set (smoke_events i s)" shows "parse_canonical_event h (event_js e) = Inr e"
proof -
  let ?m = "smoke_middle i s"
  have n: "length ?m < 3" by (rule smoke_middle_small)
  from assms(2) consider
      (first) "e = fixture_record (i @ '':started'') (''smoke:'' @ i) 0 ''run.started'' (fixture_time 0 ''.000Z'') (JObj [])"
    | (middle) k where "k < length ?m" "e = fixture_record (i @ '':middle:'' @ show_nat k) (''smoke:'' @ i) (int k + 1) (fst (?m ! k))
        (fixture_time (k + 1) ''.500Z'') (snd (?m ! k))"
    | (final) "e = fixture_record (i @ '':completed'') (''smoke:'' @ i) (int (length ?m) + 1)
        (if s = ''approval'' then ''run.awaiting_approval'' else ''run.completed'') (fixture_time (length ?m + 1) ''.000Z'') (JObj [])"
    by (fastforce simp: smoke_events_def Let_def)
  then show ?thesis
  proof cases
    case first
    show ?thesis unfolding first
      by (rule fixture_parses) (use fixture_timesD(1) [OF assms(1), of 0] in \<open>simp_all add: smoke_ids [simplified]\<close>)
  next
    case (middle k)
    with n have k1: "k + 1 < 4" by simp
    show ?thesis unfolding middle(2)
    proof (rule fixture_parses)
      show "\<not> is_blank (i @ '':middle:'' @ show_nat k)" "\<not> is_blank (''smoke:'' @ i)" by (rule smoke_ids)+
      show "0 \<le> int k + 1" "int k + 1 \<le> 9" using k1 by simp_all
      show "\<not> is_blank (fst (?m ! k))" "is_json (snd (?m ! k))" using smoke_middle_small(2) [OF middle(1)] by blast+
      show "date_parse h (fixture_time (k + 1) ''.500Z'') \<noteq> None" by (rule fixture_timesD(2) [OF assms(1) k1])
    qed
  next
    case final
    show ?thesis unfolding final
      by (rule fixture_parses) (use n fixture_timesD(1) [OF assms(1), of "length ?m + 1"] in \<open>simp_all add: smoke_ids [simplified]\<close>)
  qed
qed

lemma smoke_evidence_parses:
  assumes "fixture_times h" shows "smoke_evidence h i s = Inr (smoke_record i s)"
proof -
  let ?m = "smoke_middle i s"
  note parses = smoke_event_parses [OF assms, of _ i s]
  have middles: "r_mapi (\<lambda>k m. parse_canonical_event h (fixture_event (i @ '':middle:'' @ show_nat k) (''smoke:'' @ i) (int k + 1) (fst m)
          (fixture_time (k + 1) ''.500Z'') (snd m))) 0 ?m
      = Inr (map (\<lambda>k. fixture_record (i @ '':middle:'' @ show_nat k) (''smoke:'' @ i) (int k + 1) (fst (?m ! k)) (fixture_time (k + 1) ''.500Z'') (snd (?m ! k))) [0..<0 + length ?m])"
    by (rule r_mapi_nth, unfold fixture_event_def add_0, rule parses) (simp add: smoke_events_def Let_def)
  have first: "parse_canonical_event h (fixture_event (i @ '':started'') (''smoke:'' @ i) 0 ''run.started'' (fixture_time 0 ''.000Z'') (JObj []))
      = Inr (fixture_record (i @ '':started'') (''smoke:'' @ i) 0 ''run.started'' (fixture_time 0 ''.000Z'') (JObj []))"
    unfolding fixture_event_def by (rule parses) (simp add: smoke_events_def Let_def)
  have final: "parse_canonical_event h (fixture_event (i @ '':completed'') (''smoke:'' @ i) (int (length ?m) + 1)
        (if s = ''approval'' then ''run.awaiting_approval'' else ''run.completed'') (fixture_time (length ?m + 1) ''.000Z'') (JObj []))
      = Inr (fixture_record (i @ '':completed'') (''smoke:'' @ i) (int (length ?m) + 1)
        (if s = ''approval'' then ''run.awaiting_approval'' else ''run.completed'') (fixture_time (length ?m + 1) ''.000Z'') (JObj []))"
    unfolding fixture_event_def by (rule parses) (simp add: smoke_events_def Let_def)
  show ?thesis
    unfolding smoke_evidence_def Let_def first middles final fixture_artifact_parses r_bind_Inr smoke_record_def smoke_events_def add_0 ..
qed

lemma smoke_events_fields:
  "map ev_seq (smoke_events i s) = map int [0..<length (smoke_middle i s) + 2]"
  "map ev_id (smoke_events i s) = (i @ '':started'') # map (\<lambda>k. i @ '':middle:'' @ show_nat k) [0..<length (smoke_middle i s)] @ [i @ '':completed'']"
  "e \<in> set (smoke_events i s) \<Longrightarrow> ev_stream e = ''smoke:'' @ i \<and> sc_workspace (ev_scope e) = ''workspace-eval-fixture'' \<and> sc_channel (ev_scope e) = ''channel-eval-fixture''"
  "\<exists>e \<in> set (smoke_events i s). is_run_terminal (ev_type e)"
proof -
  have "[0..<length (smoke_middle i s) + 2] = 0 # map Suc [0..<length (smoke_middle i s)] @ [length (smoke_middle i s) + 1]"
    unfolding map_Suc_upt by (auto simp: upt_conv_Cons Suc_le_eq)
  then show "map ev_seq (smoke_events i s) = map int [0..<length (smoke_middle i s) + 2]"
    by (simp add: smoke_events_def Let_def fixture_record_def)
qed (auto simp: smoke_events_def Let_def fixture_record_def is_run_terminal_def)


lemma distinct_seqs:
  assumes "distinct (map ev_seq es)" "\<And>e. e \<in> set es \<Longrightarrow> ev_stream e = t"
  shows "distinct (map (\<lambda>e. ev_stream e @ '':'' @ show_int (ev_seq e)) es)"
  using assms by (auto simp: distinct_map inj_on_def show_int_inj)

lemma fixture_evidence_valid:
  assumes "ee_trace_id ev = ''smoke:'' @ i" "ee_events ev \<noteq> []" "ee_artifacts ev = [fixture_artifact i (''smoke:'' @ i)]" "ee_trace ev = None"
    and parse: "\<And>e. e \<in> set (ee_events ev) \<Longrightarrow> parse_canonical_event h (event_js e) = Inr e"
    and same: "\<And>e. e \<in> set (ee_events ev) \<Longrightarrow> ev_stream e = ''smoke:'' @ i \<and> sc_workspace (ev_scope e) = ''workspace-eval-fixture'' \<and> sc_channel (ev_scope e) = ''channel-eval-fixture''"
    and "distinct (map ev_seq (ee_events ev))" "distinct (map ev_id (ee_events ev))"
  shows "validate_evidence h ev = None"
proof -
  have hd: "sc_workspace (ev_scope (hd (ee_events ev))) = ''workspace-eval-fixture''" "sc_channel (ev_scope (hd (ee_events ev))) = ''channel-eval-fixture''"
    using same [of "hd (ee_events ev)"] assms(2) by simp_all
  show ?thesis unfolding validate_None_iff hd
  proof (intro conjI ballI allI impI)
    show "distinct (map (\<lambda>e. ev_stream e @ '':'' @ show_int (ev_seq e)) (ee_events ev))" by (rule distinct_seqs) (use assms in auto)
    show "r_is_ok (parse_artifact (artifact_js a))" if "a \<in> set (ee_artifacts ev)" for a
      using that assms(3) fixture_artifact_parses [of i] by simp
    show "event_belongs_to_run e (ee_trace_id ev)" if "e \<in> set (ee_events ev)" for e
      using same [OF that] assms(1) by (simp add: event_belongs_to_run_def)
  qed (use assms in \<open>auto simp: fixture_artifact_def\<close>)
qed

lemma smoke_valid:
  assumes "fixture_times h" shows "validate_evidence h (smoke_record i s) = None"
proof (rule fixture_evidence_valid [of _ i])
  show "ee_events (smoke_record i s) \<noteq> []" by (simp add: smoke_record_def smoke_events_def Let_def)
  show "distinct (map ev_seq (ee_events (smoke_record i s)))" by (auto simp: smoke_record_def smoke_events_fields(1) distinct_map)
  show "distinct (map ev_id (ee_events (smoke_record i s)))"
    by (simp add: smoke_record_def smoke_events_fields(2)) (auto simp: distinct_map inj_on_def show_nat_inj)
  show "parse_canonical_event h (event_js e) = Inr e" if "e \<in> set (ee_events (smoke_record i s))" for e
    using that by (simp add: smoke_record_def smoke_event_parses [OF assms])
  show "ev_stream e = ''smoke:'' @ i \<and> sc_workspace (ev_scope e) = ''workspace-eval-fixture'' \<and> sc_channel (ev_scope e) = ''channel-eval-fixture''"
    if "e \<in> set (ee_events (smoke_record i s))" for e
    using that by (intro smoke_events_fields(3) [of _ i s]) (simp add: smoke_record_def)
qed (simp_all add: smoke_record_def)

lemma fixture_quality_passes:
  assumes "validate_evidence h ev = None"
  obtains q where "evaluate_quality h ev fixture_quality = Inr q" "qr_passed q" "qr_score q = 1"
  using assms
  by (auto simp: evaluate_quality_def fixture_quality_def fixture_rubric_def assert_rubric_def score_for_def)

definition case_outcome :: "eval_case \<Rightarrow> bool" where
  "case_outcome c \<longleftrightarrow> fst (evaluate_release_gate (ec_contract c) (ec_quality c))"

lemma fixture_artifact_fields: "ar_kind (fixture_artifact i r) = ''smoke_artifact''" "ar_validation (fixture_artifact i r) = ''passed''"
  by (simp_all add: fixture_artifact_def)

lemma fixture_case:
  assumes "validate_evidence h ev = None" "ee_artifacts ev = [fixture_artifact i run]" "ee_trace ev = None"
    and "\<exists>e \<in> set (ee_events ev). is_run_terminal (ev_type e)"
  shows "\<exists>c. eval_case_of h i ev effects = Inr c \<and> (case_outcome c \<longleftrightarrow> (\<forall>e \<in> set (ee_events ev). \<not> bad_effect (or_else effects []) e))"
proof -
  obtain q where q: "evaluate_quality h ev fixture_quality = Inr q" "qr_passed q" using fixture_quality_passes [OF assms(1)] by metis
  let ?opt = "\<lparr>co_version = None, co_events = None, co_effects = effects, co_artifacts = Some [''smoke_artifact''], co_terminal = None\<rparr>"
  have rest: "missing_events ev ?opt = []" "missing_artifacts ev ?opt = []" "no_end ev ?opt = False" "orphaned_span ev = False"
    using assms(2,3,4) fixture_artifact_fields [of i run] by (simp_all add: no_missing no_end_def or_else_def orphaned_span_def)
  have "cr_passed (evaluate_contract h ev ?opt) \<longleftrightarrow> bad_effects h ev ?opt = []"
    unfolding contract_passed_iff failed_rules(1) [OF assms(1)] rest by simp
  then show ?thesis using q by (simp add: eval_case_of_def case_outcome_def evaluate_release_gate_def Let_def quality_failed_def no_missing)
qed


lemma smoke_case:
  assumes "fixture_times h"
  shows "\<exists>c. r_bind (smoke_evidence h i s) (\<lambda>ev. eval_case_of h i ev None) = Inr c \<and> case_outcome c"
  using fixture_case [OF smoke_valid [OF assms, of i s], of i "''smoke:'' @ i" None] smoke_events_fields(4) [of i s]
  by (auto simp: smoke_evidence_parses [OF assms] smoke_record_def bad_effect_def or_else_def split: option.splits)

definition with_prohibited :: "string \<Rightarrow> canonical_event list" where
  "with_prohibited i = [fixture_record (i @ '':started'') (''smoke:'' @ i) 0 ''run.started'' (fixture_time 0 ''.000Z'') (JObj []),
     fixture_record (i @ '':prohibited-effect'') (''smoke:'' @ i) 1 ''tool.effect.succeeded'' (fixture_time 1 ''.000Z'') (JObj [(''effectKey'', JStr ''prohibited'')]),
     fixture_record (i @ '':middle:'' @ show_nat 0) (''smoke:'' @ i) 2 ''tool.approval.requested'' (fixture_time 1 ''.500Z'')
       (JObj [(''runId'', JStr (''smoke:'' @ i)), (''approvalId'', JStr (i @ '':approval''))]),
     fixture_record (i @ '':completed'') (''smoke:'' @ i) 3 ''run.awaiting_approval'' (fixture_time 2 ''.000Z'') (JObj [])]"

lemma approval_events:
  "smoke_events i ''approval'' =
     [fixture_record (i @ '':started'') (''smoke:'' @ i) 0 ''run.started'' (fixture_time 0 ''.000Z'') (JObj []),
      fixture_record (i @ '':middle:'' @ show_nat 0) (''smoke:'' @ i) 1 ''tool.approval.requested'' (fixture_time 1 ''.500Z'')
       (JObj [(''runId'', JStr (''smoke:'' @ i)), (''approvalId'', JStr (i @ '':approval''))]),
      fixture_record (i @ '':completed'') (''smoke:'' @ i) 2 ''run.awaiting_approval'' (fixture_time 2 ''.000Z'') (JObj [])]"
  by (simp add: smoke_events_def smoke_middle_def Let_def numeral_2_eq_2)

lemma prohibited_ids: "\<not> is_blank (i @ '':prohibited-effect'')" "\<not> is_blank ''tool.effect.succeeded''" "\<not> is_blank ''tool.approval.requested''"
  by (auto simp: is_blank_iff is_space_def)

lemma prohibited_parses:
  assumes "fixture_times h" "e \<in> set (with_prohibited i)" shows "parse_canonical_event h (event_js e) = Inr e"
proof -
  have times: "date_parse h (fixture_time 0 ''.000Z'') \<noteq> None" "date_parse h (fixture_time 1 ''.000Z'') \<noteq> None"
    "date_parse h (fixture_time 1 ''.500Z'') \<noteq> None" "date_parse h (fixture_time 2 ''.000Z'') \<noteq> None"
    by (rule fixture_timesD [OF assms(1)], simp)+
  show ?thesis using assms(2) unfolding with_prohibited_def set_simps
    by (elim insertE emptyE; hypsubst; intro fixture_parses)
      (simp_all add: smoke_ids [simplified] prohibited_ids [simplified] times [simplified])
qed


lemma shifted_events:
  "map (\<lambda>e. e\<lparr>ev_seq := ev_seq e + 1\<rparr>) (tl (smoke_events i ''approval'')) = tl (tl (with_prohibited i))"
  by (simp add: approval_events with_prohibited_def fixture_record_def)

lemma r_map_same: "(\<And>x. x \<in> set xs \<Longrightarrow> f (g x) = Inr (g x)) \<Longrightarrow> r_map (\<lambda>x. f (g x)) xs = Inr (map g xs)"
  by (induction xs) auto

lemma shifted_parses:
  assumes "fixture_times h"
  shows "r_map (\<lambda>e. parse_canonical_event h (event_js (e\<lparr>ev_seq := ev_seq e + 1\<rparr>))) (tl (smoke_events i ''approval'')) = Inr (tl (tl (with_prohibited i)))"
proof -
  have "parse_canonical_event h (event_js (e\<lparr>ev_seq := ev_seq e + 1\<rparr>)) = Inr (e\<lparr>ev_seq := ev_seq e + 1\<rparr>)"
    if "e \<in> set (tl (smoke_events i ''approval''))" for e
  proof (rule prohibited_parses [OF assms, of _ i])
    have "e\<lparr>ev_seq := ev_seq e + 1\<rparr> \<in> set (tl (tl (with_prohibited i)))"
      unfolding shifted_events [symmetric] using that by simp
    then show "e\<lparr>ev_seq := ev_seq e + 1\<rparr> \<in> set (with_prohibited i)" by (simp add: with_prohibited_def)
  qed
  from r_map_same [of "tl (smoke_events i ''approval'')" "\<lambda>e. parse_canonical_event h (event_js e)" "\<lambda>e. e\<lparr>ev_seq := ev_seq e + 1\<rparr>", OF this]
  show ?thesis unfolding shifted_events by simp
qed

lemma prohibited_case:
  assumes "fixture_times h"
  shows "\<exists>c. eval_case_of h i ((smoke_record i ''approval'')\<lparr>ee_events := with_prohibited i\<rparr>) (Some [''prohibited'']) = Inr c \<and> \<not> case_outcome c"
proof -
  let ?ev = "(smoke_record i ''approval'')\<lparr>ee_events := with_prohibited i\<rparr>"
  have valid: "validate_evidence h ?ev = None"
  proof (rule fixture_evidence_valid [of _ i])
    show "parse_canonical_event h (event_js e) = Inr e" if "e \<in> set (ee_events ?ev)" for e
      using that by (simp add: prohibited_parses [OF assms])
    show "ev_stream e = ''smoke:'' @ i \<and> sc_workspace (ev_scope e) = ''workspace-eval-fixture'' \<and> sc_channel (ev_scope e) = ''channel-eval-fixture''"
      if "e \<in> set (ee_events ?ev)" for e
      using that by (auto simp: with_prohibited_def fixture_record_def)
  qed (simp_all add: smoke_record_def, simp_all add: with_prohibited_def fixture_record_def)
  have "bad_effect (or_else (Some [''prohibited'']) []) (with_prohibited i ! 1)"
    by (simp add: with_prohibited_def fixture_record_def bad_effect_def or_else_def starts_with_def event_effect_key_def string_value_def Let_def)
  moreover have "with_prohibited i ! 1 \<in> set (with_prohibited i)" by (simp add: with_prohibited_def)
  moreover have "\<exists>e \<in> set (with_prohibited i). is_run_terminal (ev_type e)" by (simp add: with_prohibited_def fixture_record_def is_run_terminal_def)
  ultimately show ?thesis using fixture_case [OF valid, of i "''smoke:'' @ i" "Some [''prohibited'']"]
    by (auto simp: smoke_record_def)
qed

lemma dev_case_outcome:
  assumes "fixture_times h"
  shows "\<exists>c. dev_case h i = Inr c \<and> (case_outcome c \<longleftrightarrow> i \<noteq> 15)"
proof (cases "i = 15")
  case False
  show ?thesis unfolding dev_case_def Let_def if_not_P [OF False] using smoke_case [OF assms] False by simp
next
  case True
  let ?i = "dev_case_id 15"
  have scenario: "[''completion'', ''artifact'', ''memory'', ''approval''] ! (15 mod 4) = ''approval''" by simp
  have prohibited: "parse_canonical_event h (fixture_event (?i @ '':prohibited-effect'') (''smoke:'' @ ?i) 1 ''tool.effect.succeeded''
          (fixture_time 1 ''.000Z'') (JObj [(''effectKey'', JStr ''prohibited'')])) = Inr (with_prohibited ?i ! 1)"
    unfolding fixture_event_def using prohibited_parses [OF assms, of "with_prohibited ?i ! 1" ?i] by (simp add: with_prohibited_def)
  have fields: "ee_trace_id (smoke_record ?i ''approval'') = ''smoke:'' @ ?i" "ee_events (smoke_record ?i ''approval'') = smoke_events ?i ''approval''"
    by (simp_all add: smoke_record_def)
  have events: "hd (smoke_events ?i ''approval'') # with_prohibited ?i ! 1 # tl (tl (with_prohibited ?i)) = with_prohibited ?i"
    by (simp add: approval_events with_prohibited_def)
  have "dev_case h 15 = eval_case_of h ?i ((smoke_record ?i ''approval'')\<lparr>ee_events := with_prohibited ?i\<rparr>) (Some [''prohibited''])"
    unfolding dev_case_def Let_def scenario smoke_evidence_parses [OF assms] r_bind_Inr fields prohibited shifted_parses [OF assms] events by simp
  with prohibited_case [OF assms, of ?i] True show ?thesis by simp
qed

lemma r_map_total:
  "(\<And>x. x \<in> set xs \<Longrightarrow> \<exists>y. f x = Inr y \<and> P x y) \<Longrightarrow> \<exists>ys. r_map f xs = Inr ys \<and> list_all2 P xs ys"
proof (induction xs)
  case (Cons x xs)
  obtain y where "f x = Inr y" "P x y" using Cons.prems by fastforce
  moreover obtain ys where "r_map f xs = Inr ys" "list_all2 P xs ys" using Cons by fastforce
  ultimately show ?case by auto
qed simp

lemma length_filter_all2: "list_all2 (\<lambda>x y. Q y \<longleftrightarrow> R x) xs ys \<Longrightarrow> length (filter Q ys) = length (filter R xs)"
  by (induction rule: list_all2_induct) auto

lemma case_outcome_iff: "case_outcome = (\<lambda>c. cr_passed (ec_contract c) \<and> \<not> quality_failed (ec_quality c))"
  by (rule ext) (simp add: case_outcome_def evaluate_release_gate_def Let_def)

lemma report_counts: "er_passed (summarize_eval_set i cases) = length (filter case_outcome cases)"
  "er_blocked (summarize_eval_set i cases) = length cases - length (filter case_outcome cases)"
  by (simp_all add: summarize_eval_set_def Let_def case_outcome_iff)

text \<open>
  The fixture sets come out as they are meant to: every smoke case passes the gate, and of the sixteen
  development cases exactly the last one, which has a prohibited effect, is blocked.
\<close>

lemma fixture_sets:
  assumes "fixture_times h"
  shows "\<exists>cases. run_smoke_set h = Inr cases \<and> length cases = 4 \<and> list_all case_outcome cases"
    and "\<exists>cases. run_dev_set h = Inr cases \<and> length cases = 16 \<and> \<not> case_outcome (cases ! 15)
      \<and> er_passed (summarize_eval_set i cases) = 15 \<and> er_blocked (summarize_eval_set i cases) = 1"
proof -
  have "\<exists>cases. run_smoke_set h = Inr cases \<and> list_all2 (\<lambda>i c. case_outcome c) [''completion'', ''artifact'', ''memory'', ''approval''] cases"
    unfolding run_smoke_set_def by (rule r_map_total) (rule smoke_case [OF assms])
  then show "\<exists>cases. run_smoke_set h = Inr cases \<and> length cases = 4 \<and> list_all case_outcome cases"
    by (auto simp: list_all2_Cons1)
  obtain cases where c: "run_dev_set h = Inr cases" and all: "list_all2 (\<lambda>i c. case_outcome c \<longleftrightarrow> i \<noteq> 15) [0..<16] cases"
    using r_map_total [of "[0..<16]" "dev_case h" "\<lambda>i c. case_outcome c \<longleftrightarrow> i \<noteq> 15"] dev_case_outcome [OF assms] unfolding run_dev_set_def by blast
  have n: "length cases = 16" using list_all2_lengthD [OF all] by simp
  have "\<not> case_outcome (cases ! 15)" using list_all2_nthD [OF all, of 15] by simp
  moreover have "length (filter case_outcome cases) = 15" using length_filter_all2 [OF all] by (simp add: upt_rec)
  ultimately show "\<exists>cases. run_dev_set h = Inr cases \<and> length cases = 16 \<and> \<not> case_outcome (cases ! 15)
      \<and> er_passed (summarize_eval_set i cases) = 15 \<and> er_blocked (summarize_eval_set i cases) = 1"
    using c n by (auto simp: report_counts)
qed

section \<open>An instance\<close>

definition eval_demo :: "canonical_event list \<Rightarrow> eval_evidence" where
  "eval_demo es = \<lparr>ee_trace_id = ''r'', ee_events = es, ee_artifacts = [], ee_trace = None, ee_metrics = None\<rparr>"

definition demo_contract :: contract_options where
  "demo_contract = \<lparr>co_version = None, co_events = Some [''run.started''], co_effects = Some [''k''], co_artifacts = None, co_terminal = None\<rparr>"

definition demo_events :: "canonical_event list" where
  "demo_events = [demo_event ''a'' 0 ''run.started'', demo_event ''b'' 1 ''run.completed'']"

lemma demo_events_parse: "e \<in> set demo_events \<Longrightarrow> parse_canonical_event demo_host (event_js e) = Inr e"
  by (auto simp: demo_events_def parse_canonical_event_js max_safe_def intro!: demo_event_ok) (simp_all add: is_blank_iff is_space_def)

lemma eval_demo_valid: "validate_evidence demo_host (eval_demo demo_events) = None"
proof -
  have "r_is_ok (parse_canonical_event demo_host (event_js e))" if "e \<in> set demo_events" for e
    using demo_events_parse [OF that] by simp
  then show ?thesis unfolding validate_None_iff
    by (simp add: eval_demo_def) (simp add: demo_events_def demo_event_def event_belongs_to_run_def show_int_inj)
qed

lemma contract_passes_iff_witness: "cr_passed (evaluate_contract demo_host (eval_demo demo_events) demo_contract)"
proof -
  have "\<exists>e \<in> set demo_events. ev_type e = ''run.started''" "\<exists>e \<in> set demo_events. is_run_terminal (ev_type e)"
    "\<forall>e \<in> set demo_events. \<not> starts_with (ev_type e) ''tool.effect.''"
    by (simp_all add: demo_events_def demo_event_def is_run_terminal_def starts_with_def)
  then show ?thesis using contract_passes_iff [of demo_host "eval_demo demo_events" demo_contract]
    by (simp add: eval_demo_valid) (simp add: eval_demo_def demo_contract_def or_else_def orphaned_span_def)
qed

lemma evaluation_ignores_order_witness:
  "evaluate_contract demo_host (eval_demo (rev demo_events)) demo_contract = evaluate_contract demo_host (eval_demo demo_events) demo_contract
   \<and> evaluate_quality demo_host (eval_demo (rev demo_events)) fixture_quality = evaluate_quality demo_host (eval_demo demo_events) fixture_quality"
proof -
  have "apart demo_host (ee_events (eval_demo demo_events))"
    by (simp add: apart_def eval_demo_def demo_events_def demo_event_def demo_host_def parse_millis_def is_digit_def compare_events_def js_or_def time_compare_def locale_compare_def)
  moreover have "apart_artifacts demo_host (ee_artifacts (eval_demo demo_events))" by (simp add: apart_artifacts_def eval_demo_def)
  moreover have "same_evidence (eval_demo demo_events) (eval_demo (rev demo_events))" by (simp add: same_evidence_def eval_demo_def)
  ultimately show ?thesis using evaluation_ignores_order [OF total_preorder_demo_host] by blast
qed

end
