(* ===== verification/TraceTree.thy ===== *)
theory TraceTree
  imports Trace
begin

text \<open>
  The shape of a trace: its spans form a tree whatever the events, and the only open spans are the
  root and those the tracer still refers to, provided that no turn starts while another is open.
\<close>

section \<open>The tree\<close>

text \<open>What an update of a span leaves alone, and what it keeps true of it.\<close>

definition span_sane :: "span \<Rightarrow> bool" where
  "span_sane s \<longleftrightarrow> 0 \<le> sp_duration s \<and> (sp_end s = None \<longrightarrow> sp_duration s = 0 \<and> sp_status s = SpanUnset)"

definition tame :: "(span \<Rightarrow> span) \<Rightarrow> bool" where
  "tame f \<longleftrightarrow> (\<forall>s. sp_id (f s) = sp_id s \<and> sp_parent (f s) = sp_parent s \<and> sp_kind (f s) = sp_kind s \<and> sp_start (f s) = sp_start s
     \<and> (span_sane s \<longrightarrow> span_sane (f s)) \<and> (sp_end s \<noteq> None \<longrightarrow> sp_end (f s) = sp_end s \<and> sp_status (f s) = sp_status s))"

named_theorems tame_intros \<open>rules for \<open>tame\<close>\<close>

lemma tame_close [tame_intros]: "tame (close_span h time status)"
  by (auto simp: tame_def close_span_def span_sane_def split: option.splits)

lemma tame_set [tame_intros]: "tame (set_attribute k v)"
  by (simp add: tame_def set_attribute_def span_sane_def)

lemma tame_number [tame_intros]: "tame (number_attribute k v)"
  by (auto simp: tame_def number_attribute_def set_attribute_def span_sane_def split: js.splits)

lemma tame_comp: "tame f \<Longrightarrow> tame g \<Longrightarrow> tame (\<lambda>s. f (g s))"
  by (auto simp: tame_def)

lemma tame_compose [tame_intros]: "tame f \<Longrightarrow> tame g \<Longrightarrow> tame (f \<circ> g)"
  using tame_comp [of f g] by (simp add: comp_def)

lemma tame_event [tame_intros]: "tame (\<lambda>s. s\<lparr>sp_events := f s\<rparr>)"
  by (simp add: tame_def span_sane_def)

lemma tame_id: "tame (\<lambda>s. s)"
  by (simp add: tame_def)

lemma tame_case_js [tame_intros]: "(\<And>r. tame (f r)) \<Longrightarrow> tame (case v of JStr r \<Rightarrow> f r | _ \<Rightarrow> (\<lambda>s. s))"
  by (cases v) (auto intro: tame_id)

lemma tame_case_option [tame_intros]: "(\<And>r. tame (f r)) \<Longrightarrow> tame (\<lambda>s. case v of None \<Rightarrow> s | Some r \<Rightarrow> f r s)"
  by (cases v) (auto intro: tame_id)

text \<open>
  The spans form a tree: every span but the root names an earlier one as its parent, turns are
  children of the root, inferences children of turns, tool calls children of the root or a turn.
\<close>

definition span_tree :: "span list \<Rightarrow> bool" where
  "span_tree ss \<longleftrightarrow> ss \<noteq> [] \<and> sp_kind (ss ! 0) = AgentSpan \<and> sp_parent (ss ! 0) = None
     \<and> (\<forall>k < length ss. sp_id (ss ! k) = ''s'' @ show_nat (k + 1))
     \<and> (\<forall>k < length ss. 0 < k \<longrightarrow> (\<exists>j < k. sp_parent (ss ! k) = Some (sp_id (ss ! j)) \<and>
          (case sp_kind (ss ! k) of AgentSpan \<Rightarrow> False | TurnSpan \<Rightarrow> j = 0 | InferenceSpan \<Rightarrow> sp_kind (ss ! j) = TurnSpan
           | ToolSpan \<Rightarrow> j = 0 \<or> sp_kind (ss ! j) = TurnSpan)))
     \<and> (\<forall>s \<in> set ss. span_sane s)"

lemma span_tree_update: "span_tree ss \<Longrightarrow> tame f \<Longrightarrow> span_tree (ss[k := f (ss ! k)])"
proof (cases "k < length ss")
  case True
  assume tree: "span_tree ss" and f: "tame f"
  have same: "sp_id (ss[k := f (ss ! k)] ! i) = sp_id (ss ! i)" "sp_parent (ss[k := f (ss ! k)] ! i) = sp_parent (ss ! i)"
      "sp_kind (ss[k := f (ss ! k)] ! i) = sp_kind (ss ! i)" for i
    using f True by (cases "i = k"; simp add: tame_def)+
  have "span_sane s" if "s \<in> set (ss[k := f (ss ! k)])" for s
  proof -
    from that have "s \<in> insert (f (ss ! k)) (set ss)" using set_update_subset_insert by fast
    with tree f True show ?thesis by (auto simp: span_tree_def tame_def)
  qed
  with tree show ?thesis unfolding span_tree_def same length_list_update by simp
qed (simp add: list_update_beyond)

lemma span_tree_append:
  assumes tree: "span_tree ss" and s: "span_sane s" "sp_id s = ''s'' @ show_nat (length ss + 1)"
    and parent: "sp_parent s = Some (sp_id (ss ! j))" "j < length ss"
      "case sp_kind s of AgentSpan \<Rightarrow> False | TurnSpan \<Rightarrow> j = 0 | InferenceSpan \<Rightarrow> sp_kind (ss ! j) = TurnSpan
           | ToolSpan \<Rightarrow> j = 0 \<or> sp_kind (ss ! j) = TurnSpan"
  shows "span_tree (ss @ [s])"
proof -
  have "\<exists>j < k. sp_parent ((ss @ [s]) ! k) = Some (sp_id ((ss @ [s]) ! j)) \<and>
          (case sp_kind ((ss @ [s]) ! k) of AgentSpan \<Rightarrow> False | TurnSpan \<Rightarrow> j = 0 | InferenceSpan \<Rightarrow> sp_kind ((ss @ [s]) ! j) = TurnSpan
           | ToolSpan \<Rightarrow> j = 0 \<or> sp_kind ((ss @ [s]) ! j) = TurnSpan)" if "k < length (ss @ [s])" "0 < k" for k
  proof (cases "k = length ss")
    case True with parent show ?thesis by (intro exI [of _ j]) (auto simp: nth_append split: span_kind.splits)
  next
    case False
    with that have "k < length ss" by simp
    moreover from this tree that(2) obtain i where "i < k" "sp_parent (ss ! k) = Some (sp_id (ss ! i))"
      "case sp_kind (ss ! k) of AgentSpan \<Rightarrow> False | TurnSpan \<Rightarrow> i = 0 | InferenceSpan \<Rightarrow> sp_kind (ss ! i) = TurnSpan
           | ToolSpan \<Rightarrow> i = 0 \<or> sp_kind (ss ! i) = TurnSpan"
      unfolding span_tree_def by blast
    ultimately show ?thesis by (intro exI [of _ i]) (auto simp: nth_append split: span_kind.splits)
  qed
  with tree s show ?thesis unfolding span_tree_def by (auto simp: nth_append less_Suc_eq)
qed

lemma new_span_simps [simp]:
  "sp_id (new_span i p n k t a) = i" "sp_parent (new_span i p n k t a) = p" "sp_kind (new_span i p n k t a) = k"
  "sp_end (new_span i p n k t a) = None" "span_sane (new_span i p n k t a)" "sp_attributes (new_span i p n k t a) = a"
  "sp_start (new_span i p n k t a) = t" "sp_status (new_span i p n k t a) = SpanUnset"
  by (simp_all add: new_span_def span_sane_def)

section \<open>The invariant\<close>

text \<open>The references a tracer keeps point at spans of the right kind, and each open tool call has one.\<close>

definition tracer_ok :: "tracer \<Rightarrow> bool" where
  "tracer_ok t \<longleftrightarrow> span_tree (tc_spans t)
     \<and> (\<forall>k. tc_turn t = Some k \<longrightarrow> k < length (tc_spans t) \<and> sp_kind (tc_spans t ! k) = TurnSpan)
     \<and> (\<forall>k. tc_inference t = Some k \<longrightarrow> k < length (tc_spans t) \<and> sp_kind (tc_spans t ! k) = InferenceSpan)
     \<and> distinct (map fst (tc_tools t))
     \<and> (\<forall>k \<in> snd ` set (tc_tools t). k < length (tc_spans t) \<and> sp_kind (tc_spans t ! k) = ToolSpan)"

lemma update_span_simps [simp]:
  "tc_turn (update_span k f t) = tc_turn t" "tc_inference (update_span k f t) = tc_inference t" "tc_tools (update_span k f t) = tc_tools t"
  "length (tc_spans (update_span k f t)) = length (tc_spans t)"
  by (simp_all add: update_span_def)

lemma update_span_kind: "tame f \<Longrightarrow> sp_kind (tc_spans (update_span k f t) ! i) = sp_kind (tc_spans t ! i)"
  by (cases "k < length (tc_spans t)"; cases "i = k") (simp_all add: update_span_def tame_def list_update_beyond)

lemma ok_update: "tracer_ok t \<Longrightarrow> tame f \<Longrightarrow> tracer_ok (update_span k f t)"
  using span_tree_update [of "tc_spans t" f k] by (simp add: tracer_ok_def update_span_kind) (simp add: update_span_def)

lemma ok_update_if: "tracer_ok t \<Longrightarrow> tame f \<Longrightarrow> tracer_ok (update_if k f t)"
  by (simp add: update_if_def ok_update split: option.split)

lemma ok_append_event: "tracer_ok t \<Longrightarrow> tracer_ok (append_span_event e t)"
  by (simp add: append_span_event_def Let_def ok_update tame_intros)

lemma ok_close_tool: "tracer_ok t \<Longrightarrow> tracer_ok (close_tool i t)"
  by (auto simp: tracer_ok_def close_tool_def distinct_map_filter)

lemma root_position: "tracer_ok t \<Longrightarrow> 0 < length (tc_spans t)"
  by (simp add: tracer_ok_def span_tree_def)

lemma nth_append_kind: "k < length ss \<Longrightarrow> sp_kind ((ss @ [s]) ! k) = sp_kind (ss ! k)"
  by (simp add: nth_append)

lemma ok_open_tool: 
  assumes ok: "tracer_ok t" and new: "map_of (tc_tools t) (tool_call_id e) = None" shows "tracer_ok (open_tool e t)"
proof -
  let ?j = "case tc_turn t of Some k \<Rightarrow> k | None \<Rightarrow> 0"
  have j: "?j < length (tc_spans t)" "?j = 0 \<or> sp_kind (tc_spans t ! ?j) = TurnSpan"
    using ok root_position [OF ok] by (auto simp: tracer_ok_def split: option.splits)
  have "span_tree (tc_spans (open_tool e t))"
    unfolding open_tool_def Let_def
    using ok j by (auto simp: tracer_ok_def next_span_id_def parent_id_def intro!: span_tree_append [where j = ?j])
  with ok new show ?thesis
    by (auto simp: tracer_ok_def open_tool_def Let_def js_set_new nth_append map_of_eq_None_iff) 
qed

lemma ok_open_turn: assumes ok: "tracer_ok t" shows "tracer_ok (open_turn e a t)"
proof -
  define turn where "turn = new_span (next_span_id t) (Some (sp_id (tc_spans t ! 0))) (''turn '' @ show_nat (count_turns t + 1)) TurnSpan (ev_timestamp e) a"
  define t1 where "t1 = t\<lparr>tc_spans := tc_spans t @ [turn], tc_turn := Some (length (tc_spans t))\<rparr>"
  define inference where "inference = new_span (next_span_id t1) (Some (sp_id turn))
      (case string_field (ev_payload e) ''model'' of None \<Rightarrow> ''chat'' | Some m \<Rightarrow> ''chat '' @ m) InferenceSpan
            (ev_timestamp e) ((''gen_ai.operation.name'', JStr ''chat'') # opt_field ''gen_ai.request.model'' JStr (string_field (ev_payload e) ''model''))"
  define t2 where "t2 = t1\<lparr>tc_spans := tc_spans t1 @ [inference], tc_inference := Some (length (tc_spans t) + 1)\<rparr>"
  have turn: "open_turn e a t = update_span 0 (set_attribute ''anna.turns'' (JNum (of_nat (count_turns t2)))) t2"
    by (simp add: open_turn_def Let_def turn_def t1_def inference_def t2_def)
  have tree: "span_tree (tc_spans t @ [turn])"
    using ok root_position [OF ok] by (intro span_tree_append [where j = 0]) (auto simp: tracer_ok_def turn_def next_span_id_def)
  then have "tracer_ok t1"
    using ok by (auto simp: tracer_ok_def t1_def turn_def nth_append)
  moreover have "span_tree (tc_spans t1 @ [inference])"
    using tree by (intro span_tree_append [where j = "length (tc_spans t)"]) (auto simp: t1_def inference_def next_span_id_def turn_def)
  ultimately have "tracer_ok t2"
    by (auto simp: tracer_ok_def t2_def nth_append inference_def) (simp_all add: t1_def)
  then show ?thesis unfolding turn by (rule ok_update) (rule tame_set)
qed

lemma ok_orphan: "tracer_ok t \<Longrightarrow> tracer_ok (orphan_span h time k t)"
  by (simp add: orphan_span_def ok_update tame_intros)

lemma ok_orphans: "tracer_ok t \<Longrightarrow> tracer_ok (fold (orphan_span h time) ks t)"
  by (induction ks arbitrary: t) (simp_all add: ok_orphan)

lemma ok_close_turn: "tracer_ok t \<Longrightarrow> tracer_ok (close_turn h time t)"
  by (simp add: close_turn_def ok_update tame_intros)

lemma update_if_tools [simp]: "tc_tools (update_if k f t) = tc_tools t"
  by (simp add: update_if_def split: option.split)

lemma ok_trace_event: assumes ok: "tracer_ok t" shows "tracer_ok (trace_event h run e t)"
proof -
  have "tracer_ok (trace_tool_started h e t)"
    using ok by (simp add: trace_tool_started_def ok_open_tool ok_update_if tame_intros)
  moreover have "tracer_ok (trace_tool_ended h e t)"
    using ok by (simp add: trace_tool_ended_def Let_def ok_close_tool ok_update ok_append_event tame_intros split: option.split)
  moreover have "tracer_ok (trace_run_end h e t)"
    using ok by (simp add: trace_run_end_def Let_def ok_update ok_close_turn ok_orphan ok_orphans tame_intros)
  moreover have "tracer_ok (trace_model_requested h e t)"
    using ok by (simp add: trace_model_requested_def Let_def ok_open_turn ok_update ok_orphan tame_intros)
  moreover have "tracer_ok (trace_model_response h e t)"
    unfolding trace_model_response_def Let_def
    using ok_update [OF ok tame_comp [OF tame_close tame_comp [OF tame_case_js [OF tame_set] tame_comp [OF tame_number tame_number]]]]
    by (simp add: ok ok_append_event)
  moreover have "tracer_ok (trace_tool_dispatch e t)"
    using ok by (simp add: trace_tool_dispatch_def ok_open_tool)
  moreover have "tracer_ok (trace_tool_response h e t)"
    unfolding trace_tool_response_def Let_def
    by (simp add: ok ok_append_event ok_close_tool ok_update tame_comp [OF tame_close tame_case_option [OF tame_set]]
      tame_comp [OF tame_close tame_set] split: option.split)
  moreover have "tracer_ok (trace_turn_end h e t)"
    using ok by (simp add: trace_turn_end_def Let_def ok_close_turn ok_append_event)
  moreover have "tracer_ok (trace_turn_finished h e t)"
  proof -
    have "tracer_ok (t'\<lparr>tc_inference := None, tc_turn := None\<rparr>)" if "tracer_ok t'" for t' using that by (simp add: tracer_ok_def)
    moreover have "tame (\<lambda>s. close_span h x SpanOk (number_attribute k1 v1 (number_attribute k2 v2 (number_attribute k3 v3 s))))" for x k1 v1 k2 v2 k3 v3
      by (rule tame_comp [OF tame_close tame_comp [OF tame_number tame_comp [OF tame_number tame_number]]])
    ultimately show ?thesis unfolding trace_turn_finished_def Let_def by (simp add: ok_update_if ok tame_close)
  qed
  ultimately show ?thesis
    using ok by (simp add: trace_event_def Let_def ok_append_event ok_open_turn)
qed

lemma ok_trace_events: "tracer_ok t \<Longrightarrow> tracer_ok (fold (trace_event h run) es t)"
  by (induction es arbitrary: t) (simp_all add: ok_trace_event)

lemma show_nat_one: "show_nat (Suc 0) = ''1''"
  by (simp add: show_nat.simps) code_simp

lemma ok_root: "tracer_ok \<lparr>tc_spans = [root_span opt evs], tc_turn = None, tc_inference = None, tc_tools = []\<rparr>"
  by (simp add: tracer_ok_def span_tree_def root_span_def show_nat_one)

section \<open>Open spans\<close>

definition open_at :: "tracer \<Rightarrow> nat \<Rightarrow> bool" where
  "open_at t k \<longleftrightarrow> sp_end (tc_spans t ! k) = None"

lemma open_at_simps [simp]:
  "open_at (t\<lparr>tc_tools := m\<rparr>) k = open_at t k" "open_at (t\<lparr>tc_turn := x\<rparr>) k = open_at t k"
  "open_at (t\<lparr>tc_inference := x\<rparr>) k = open_at t k"
  by (simp_all add: open_at_def)

lemma span_open_at: "span_open t k \<longleftrightarrow> (\<exists>i. k = Some i \<and> open_at t i)"
  by (simp add: span_open_def open_at_def split: option.split)

text \<open>An open span is the root or referred to; an idle tracer refers to no open turn or inference.\<close>

definition tracked :: "tracer \<Rightarrow> bool" where
  "tracked t \<longleftrightarrow> (\<forall>k < length (tc_spans t). open_at t k \<longrightarrow>
     k = 0 \<or> tc_turn t = Some k \<or> tc_inference t = Some k \<or> k \<in> snd ` set (tc_tools t))"

definition idle :: "tracer \<Rightarrow> bool" where
  "idle t \<longleftrightarrow> \<not> span_open t (tc_turn t) \<and> \<not> span_open t (tc_inference t)"

text \<open>A tracer with the same references and spans, none of which has been opened again.\<close>

definition calms :: "tracer \<Rightarrow> tracer \<Rightarrow> bool" where
  "calms t t' \<longleftrightarrow> tc_turn t' = tc_turn t \<and> tc_inference t' = tc_inference t \<and> tc_tools t' = tc_tools t
     \<and> length (tc_spans t') = length (tc_spans t) \<and> (\<forall>k. open_at t' k \<longrightarrow> open_at t k)"

lemma calms_refl [simp]: "calms t t" and calms_trans: "calms t t' \<Longrightarrow> calms t' t'' \<Longrightarrow> calms t t''"
  by (auto simp: calms_def)

lemma calms_update: "tame f \<Longrightarrow> calms t (update_span k f t)"
proof -
  assume f: "tame f"
  have "open_at t i" if o: "open_at (update_span k f t) i" for i
  proof (cases "i = k \<and> k < length (tc_spans t)")
    case True
    with f have "sp_end (tc_spans t ! k) \<noteq> None \<longrightarrow> sp_end (tc_spans (update_span k f t) ! k) = sp_end (tc_spans t ! k)"
      by (simp add: update_span_def tame_def)
    with o True show ?thesis unfolding open_at_def by metis
  next
    case False
    then have "tc_spans (update_span k f t) ! i = tc_spans t ! i" by (cases "k < length (tc_spans t)") (auto simp: update_span_def list_update_beyond)
    with o show ?thesis by (simp add: open_at_def)
  qed
  then show ?thesis by (simp add: calms_def)
qed

lemma calms_update_if: "tame f \<Longrightarrow> calms t (update_if k f t)"
  by (simp add: update_if_def calms_update split: option.split)

lemma calms_orphan: "calms t (orphan_span h time k t)"
  by (simp add: orphan_span_def calms_update tame_intros)

lemma calms_orphans: "calms t (fold (orphan_span h time) ks t)"
  by (induction ks arbitrary: t) (auto intro: calms_trans [OF calms_orphan])

lemma calms_close_turn: "calms t (close_turn h time t)"
  by (simp add: close_turn_def calms_update tame_intros)

lemma calms_append_event: "calms t (append_span_event e t)"
  by (simp add: append_span_event_def Let_def calms_update tame_intros)

lemma calms_tracked: "calms t t' \<Longrightarrow> tracked t \<Longrightarrow> tracked t'"
  unfolding calms_def tracked_def by auto

lemma calms_idle: "calms t t' \<Longrightarrow> idle t \<Longrightarrow> idle t'"
  unfolding calms_def idle_def span_open_at by auto

text \<open>The updates that close a span.\<close>

definition closer :: "(span \<Rightarrow> span) \<Rightarrow> bool" where
  "closer f \<longleftrightarrow> tame f \<and> (\<forall>s. sp_end (f s) \<noteq> None)"

lemma closer_close: "closer (close_span h time status)"
  unfolding closer_def by (simp add: tame_close) (simp add: close_span_def)

lemma closer_comp: "closer f \<Longrightarrow> tame g \<Longrightarrow> closer (\<lambda>s. f (g s))"
  unfolding closer_def by (simp add: tame_comp)

lemma closer_set: "closer f \<Longrightarrow> closer (set_attribute k v \<circ> f)"
  unfolding closer_def by (simp add: tame_compose tame_set) (simp add: set_attribute_def)

lemma closer_compose: "closer f \<Longrightarrow> tame g \<Longrightarrow> closer (f \<circ> g)"
  using closer_comp [of f g] by (simp add: comp_def)

lemma closer_tame: "closer f \<Longrightarrow> tame f"
  by (simp add: closer_def)

lemma update_closes: "k < length (tc_spans t) \<Longrightarrow> closer f \<Longrightarrow> \<not> open_at (update_span k f t) k"
  unfolding open_at_def by (simp add: update_span_def closer_def)

lemma calms_closed: "calms t t' \<Longrightarrow> \<not> open_at t k \<Longrightarrow> \<not> open_at t' k"
  unfolding calms_def by blast

lemma orphan_closes: "k < length (tc_spans t) \<Longrightarrow> \<not> open_at (orphan_span h time (Some k) t) k"
  by (auto simp: orphan_span_def span_open_at update_closes closer_compose closer_close tame_set)

lemma orphans_close: "Some k \<in> set ks \<Longrightarrow> k < length (tc_spans t) \<Longrightarrow> \<not> open_at (fold (orphan_span h time) ks t) k"
proof (induction ks arbitrary: t)
  case (Cons x ks)
  have len: "length (tc_spans (orphan_span h time x t)) = length (tc_spans t)" using calms_orphan [of t h time x] by (simp add: calms_def)
  show ?case
  proof (cases "x = Some k")
    case True
    then show ?thesis using calms_closed [OF calms_orphans orphan_closes [OF Cons.prems(2)]] by simp
  next
    case False with Cons len show ?thesis by simp
  qed
qed simp

lemma close_turn_closes: "tc_turn t = Some k \<Longrightarrow> k < length (tc_spans t) \<Longrightarrow> \<not> open_at (close_turn h time t) k"
  by (auto simp: close_turn_def span_open_at update_closes closer_close)

text \<open>Removing the entry of a tool call that has been closed.\<close>

lemma tracked_close_tool:
  assumes ok: "tracer_ok t" and tr: "tracked t" and k: "map_of (tc_tools t) i = Some k" "\<not> open_at t k"
  shows "tracked (close_tool i t)"
proof -
  have d: "distinct (map fst (tc_tools t))" using ok by (simp add: tracer_ok_def)
  have "j \<in> snd ` set (tc_tools (close_tool i t))" if "j \<in> snd ` set (tc_tools t)" "j \<noteq> k" for j
  proof -
    from that(1) obtain x where x: "(x, j) \<in> set (tc_tools t)" by auto
    then have "x \<noteq> i" using k(1) d that(2) by (metis map_of_is_SomeI option.inject)
    with x show ?thesis by (force simp: close_tool_def)
  qed
  moreover have "tc_turn (close_tool i t) = tc_turn t" "tc_inference (close_tool i t) = tc_inference t" "tc_spans (close_tool i t) = tc_spans t"
    by (simp_all add: close_tool_def)
  ultimately show ?thesis using tr k(2) unfolding tracked_def open_at_def by metis
qed

lemma idle_close_tool: "idle t \<Longrightarrow> idle (close_tool i t)"
  by (simp add: idle_def span_open_at close_tool_def)

lemma tracked_open_tool: "map_of (tc_tools t) (tool_call_id e) = None \<Longrightarrow> tracked t \<Longrightarrow> tracked (open_tool e t)"
  by (auto simp: tracked_def open_tool_def Let_def js_set_new open_at_def nth_append less_Suc_eq)

lemma idle_open_tool: "tracer_ok t \<Longrightarrow> idle t \<Longrightarrow> idle (open_tool e t)"
  by (auto simp: idle_def span_open_at open_at_def open_tool_def Let_def tracer_ok_def nth_append)

lemma open_turn_form:
  "\<exists>f s s'. tame f \<and> open_turn e a t = update_span 0 f
     (t\<lparr>tc_spans := tc_spans t @ [s, s'], tc_turn := Some (length (tc_spans t)), tc_inference := Some (length (tc_spans t) + 1)\<rparr>)"
proof -
  define turn where "turn = new_span (next_span_id t) (Some (sp_id (tc_spans t ! 0))) (''turn '' @ show_nat (count_turns t + 1)) TurnSpan (ev_timestamp e) a"
  define t1 where "t1 = t\<lparr>tc_spans := tc_spans t @ [turn], tc_turn := Some (length (tc_spans t))\<rparr>"
  define inference where "inference = new_span (next_span_id t1) (Some (sp_id turn))
      (case string_field (ev_payload e) ''model'' of None \<Rightarrow> ''chat'' | Some m \<Rightarrow> ''chat '' @ m) InferenceSpan
            (ev_timestamp e) ((''gen_ai.operation.name'', JStr ''chat'') # opt_field ''gen_ai.request.model'' JStr (string_field (ev_payload e) ''model''))"
  define t2 where "t2 = t1\<lparr>tc_spans := tc_spans t1 @ [inference], tc_inference := Some (length (tc_spans t) + 1)\<rparr>"
  have "open_turn e a t = update_span 0 (set_attribute ''anna.turns'' (JNum (of_nat (count_turns t2)))) t2"
    by (simp add: open_turn_def Let_def turn_def t1_def inference_def t2_def)
  moreover have "t2 = t\<lparr>tc_spans := tc_spans t @ [turn, inference], tc_turn := Some (length (tc_spans t)), tc_inference := Some (length (tc_spans t) + 1)\<rparr>"
    by (simp add: t1_def t2_def)
  ultimately show ?thesis using tame_set by blast
qed

lemma tracked_open_turn:
  assumes ok: "tracer_ok t" and tr: "tracked t" "idle t" shows "tracked (open_turn e a t)"
proof -
  obtain f s s' where f: "tame f" "open_turn e a t = update_span 0 f
     (t\<lparr>tc_spans := tc_spans t @ [s, s'], tc_turn := Some (length (tc_spans t)), tc_inference := Some (length (tc_spans t) + 1)\<rparr>)"
    using open_turn_form by blast
  have "tracked (t\<lparr>tc_spans := tc_spans t @ [s, s'], tc_turn := Some (length (tc_spans t)), tc_inference := Some (length (tc_spans t) + 1)\<rparr>)"
    using tr ok by (auto simp: tracked_def idle_def span_open_at open_at_def nth_append less_Suc_eq tracer_ok_def)
  then show ?thesis unfolding f(2) by (rule calms_tracked [OF calms_update [OF f(1)]])
qed

section \<open>Turns that are closed before the next one\<close>

definition starts_turn :: "canonical_event \<Rightarrow> bool" where
  "starts_turn e \<longleftrightarrow> ev_type e = ''run.progress'' \<and> string_field (ev_payload e) ''phase'' = Some ''model_response_started''"

definition requests_model :: "string \<Rightarrow> canonical_event \<Rightarrow> bool" where
  "requests_model run e \<longleftrightarrow> ev_type e = ''run.model.requested'' \<and> ev_stream e = run \<and> is_record (ev_payload e)"

definition ends_run :: "string \<Rightarrow> canonical_event \<Rightarrow> bool" where
  "ends_run run e \<longleftrightarrow> is_run_terminal (ev_type e) \<and> ev_stream e = run"

definition ends_turns :: "string \<Rightarrow> canonical_event \<Rightarrow> bool" where
  "ends_turns run e \<longleftrightarrow> ends_run run e
     \<or> (ev_type e = ''run.progress'' \<and> string_field (ev_payload e) ''phase'' = Some ''turn_finished'')"

text \<open>No turn starts while another may be open; \<open>run.model.requested\<close> closes the one before it.\<close>

fun turns_paired :: "string \<Rightarrow> bool \<Rightarrow> canonical_event list \<Rightarrow> bool" where
  "turns_paired run busy [] = True"
| "turns_paired run busy (e # es) =
     (if starts_turn e then \<not> busy \<and> turns_paired run True es
      else turns_paired run (requests_model run e \<or> busy \<and> \<not> ends_turns run e) es)"

lemma turn_finished_closes:
  assumes ok: "tracer_ok t" shows "(tracked t \<longrightarrow> tracked (trace_turn_finished h e t)) \<and> idle (trace_turn_finished h e t)"
proof -
  have "\<exists>f. closer f \<and> trace_turn_finished h e t =
      (update_if (tc_turn t) (close_span h (ev_timestamp e) SpanOk) (update_if (tc_inference t) f t))\<lparr>tc_inference := None, tc_turn := None\<rparr>"
    unfolding trace_turn_finished_def Let_def
    by (rule exI, rule conjI [rotated], rule refl, rule closer_comp [OF closer_close tame_comp [OF tame_number tame_comp [OF tame_number tame_number]]])
  then obtain f where f: "closer f" "trace_turn_finished h e t =
      (update_if (tc_turn t) (close_span h (ev_timestamp e) SpanOk) (update_if (tc_inference t) f t))\<lparr>tc_inference := None, tc_turn := None\<rparr>"
    by blast
  define t1 where "t1 = update_if (tc_inference t) f t"
  define t2 where "t2 = update_if (tc_turn t) (close_span h (ev_timestamp e) SpanOk) t1"
  have c1: "calms t t1" and c2: "calms t1 t2" by (simp_all add: t1_def t2_def calms_update_if closer_tame f(1) tame_close)
  note c = calms_trans [OF c1 c2]
  have "\<not> open_at t2 k" if "tc_inference t = Some k" for k
  proof -
    have "k < length (tc_spans t)" using that ok by (simp add: tracer_ok_def)
    then have "\<not> open_at t1 k" using that by (simp add: t1_def update_if_def update_closes f(1))
    then show ?thesis by (rule calms_closed [OF c2])
  qed
  moreover have "\<not> open_at t2 k" if "tc_turn t = Some k" for k
  proof -
    have "k < length (tc_spans t1)" using that ok c1 by (simp add: tracer_ok_def calms_def)
    then show ?thesis using that by (simp add: t2_def update_if_def update_closes closer_close)
  qed
  moreover have "trace_turn_finished h e t = t2\<lparr>tc_inference := None, tc_turn := None\<rparr>" by (simp add: f(2) t2_def t1_def)
  ultimately show ?thesis using c unfolding tracked_def calms_def idle_def span_open_def by auto
qed

lemma tracked_trace_event:
  assumes ok: "tracer_ok t" and tr: "tracked t" and start: "starts_turn e \<longrightarrow> idle t"
  shows "tracked (trace_event h run e t)"
proof -
  have "tracked (trace_tool_started h e t)"
    unfolding trace_tool_started_def
    by (simp add: tr tracked_open_tool calms_tracked [OF calms_update_if [OF tame_close] tr])
  moreover have closed: "tracked (close_tool i (update_span k f t))"
    if "closer f" "map_of (tc_tools t) i = Some k" for f i k
  proof -
    have "k < length (tc_spans t)" using ok that(2) unfolding tracer_ok_def by (metis image_eqI map_of_SomeD snd_conv)
    with that show ?thesis
      by (intro tracked_close_tool [of _ i k]) (simp_all add: ok_update [OF ok] calms_tracked [OF calms_update tr] update_closes closer_tame)
  qed
  have "tracked (trace_tool_ended h e t)"
    unfolding trace_tool_ended_def Let_def
    by (simp add: closed closer_close calms_tracked [OF calms_append_event tr] split: option.split)
  moreover have "tracked (trace_run_end h e t)"
    unfolding trace_run_end_def Let_def
    by (intro calms_tracked [OF calms_update] calms_tracked [OF calms_close_turn] calms_tracked [OF calms_orphans] tr tame_intros)
  moreover have "tracked (trace_model_requested h e t)"
  proof -
    let ?t1 = "orphan_span h (ev_timestamp e) (tc_inference t) t"
    let ?t2 = "if span_open ?t1 (tc_turn ?t1) then update_span (the (tc_turn ?t1)) (close_span h (ev_timestamp e) SpanOk) ?t1 else ?t1"
    have c1: "calms t ?t1" by (rule calms_orphan)
    have c2: "calms ?t1 ?t2" by (simp add: calms_update tame_close)
    note c = calms_trans [OF c1 c2]
    have "\<not> open_at ?t2 k" if "tc_turn t = Some k" for k
    proof -
      have k: "k < length (tc_spans ?t1)" "tc_turn ?t1 = Some k" using that ok c1 by (auto simp: tracer_ok_def calms_def)
      then show ?thesis by (auto simp: span_open_at update_closes closer_close)
    qed
    moreover have "\<not> open_at ?t2 k" if "tc_inference t = Some k" for k
    proof -
      have "k < length (tc_spans t)" using that ok by (simp add: tracer_ok_def)
      from orphan_closes [OF this, of h "ev_timestamp e"] have "\<not> open_at ?t1 k" by (simp add: that)
      then show ?thesis by (rule calms_closed [OF c2])
    qed
    ultimately have "idle ?t2" using c by (auto simp: idle_def span_open_at calms_def)
    moreover have "tracer_ok ?t2" using ok by (simp add: ok_update ok_orphan tame_close)
    ultimately show ?thesis unfolding trace_model_requested_def Let_def by (intro tracked_open_turn calms_tracked [OF c tr])
  qed
  moreover have "tracked (trace_model_response h e t)"
    unfolding trace_model_response_def Let_def
    using calms_tracked [OF calms_update [OF tame_comp [OF tame_close tame_comp [OF tame_case_js [OF tame_set] tame_comp [OF tame_number tame_number]]]] tr]
    by (simp add: calms_tracked [OF calms_append_event tr])
  moreover have "tracked (trace_tool_dispatch e t)"
    by (simp add: trace_tool_dispatch_def tr tracked_open_tool)
  moreover have "tracked (trace_tool_response h e t)"
    unfolding trace_tool_response_def Let_def
    by (simp add: closed closer_comp [OF closer_close tame_case_option [OF tame_set]] closer_comp [OF closer_close tame_set]
      calms_tracked [OF calms_append_event tr] split: option.split)
  moreover have "tracked (trace_turn_end h e t)"
    by (simp add: trace_turn_end_def Let_def calms_tracked [OF calms_close_turn] calms_tracked [OF calms_append_event tr])
  moreover have "tracked (trace_turn_finished h e t)" using turn_finished_closes [OF ok] tr by blast
  moreover have "tracked (append_span_event e t)" by (rule calms_tracked [OF calms_append_event tr])
  moreover have "tracked (open_turn e [] t)" if "starts_turn e" using that start tracked_open_turn [OF ok tr] by simp
  ultimately show ?thesis
    using tr unfolding trace_event_def Let_def starts_turn_def by simp
qed

text \<open>What keeps a tracer idle, and what makes it idle.\<close>

lemma run_end_closes:
  assumes ok: "tracer_ok t"
  shows "calms t (trace_run_end h e t)" "\<not> open_at (trace_run_end h e t) 0"
    "tc_turn t = Some k \<or> tc_inference t = Some k \<or> k \<in> snd ` set (tc_tools t) \<Longrightarrow> \<not> open_at (trace_run_end h e t) k"
proof -
  let ?ks = "tc_inference t # map (Some \<circ> snd) (tc_tools t)"
  define t1 where "t1 = fold (orphan_span h (ev_timestamp e)) ?ks t"
  define t2 where "t2 = close_turn h (ev_timestamp e) t1"
  obtain st where e: "trace_run_end h e t = update_span 0 (set_attribute ''anna.outcome'' (JStr (drop 4 (ev_type e))) \<circ> close_span h (ev_timestamp e) st) t2"
    by (simp add: trace_run_end_def Let_def t2_def t1_def del: fold.simps)
  have c1: "calms t t1" unfolding t1_def by (rule calms_orphans)
  have c2: "calms t1 t2" unfolding t2_def by (rule calms_close_turn)
  have c3: "calms t2 (trace_run_end h e t)" unfolding e by (intro calms_update tame_intros)
  note c23 = calms_trans [OF c2 c3]
  show "calms t (trace_run_end h e t)" by (rule calms_trans [OF c1 c23])
  have "0 < length (tc_spans t2)" using root_position [OF ok] calms_trans [OF c1 c2] by (simp add: calms_def)
  then show "\<not> open_at (trace_run_end h e t) 0" unfolding e by (rule update_closes) (rule closer_set [OF closer_close])
  assume k: "tc_turn t = Some k \<or> tc_inference t = Some k \<or> k \<in> snd ` set (tc_tools t)"
  have len: "k < length (tc_spans t)" using k ok by (auto simp: tracer_ok_def)
  show "\<not> open_at (trace_run_end h e t) k"
  proof (cases "tc_turn t = Some k")
    case True
    then have "\<not> open_at t2 k" using len c1 unfolding t2_def by (intro close_turn_closes) (simp_all add: calms_def)
    then show ?thesis by (rule calms_closed [OF c3])
  next
    case False
    with k have in_ks: "Some k \<in> set ?ks" by auto
    have "\<not> open_at t1 k" unfolding t1_def by (rule orphans_close [OF in_ks len])
    then show ?thesis by (rule calms_closed [OF c23])
  qed
qed

lemma run_end_idle: "tracer_ok t \<Longrightarrow> idle (trace_run_end h e t)"
  using run_end_closes [where t = t and h = h and e = e] unfolding idle_def span_open_at calms_def by auto

lemma idle_trace_event:
  assumes ok: "tracer_ok t" and start: "\<not> starts_turn e" "\<not> requests_model run e" and idle: "idle t \<or> ends_turns run e"
  shows "idle (trace_event h run e t)"
proof (cases "ends_turns run e")
  case True
  then show ?thesis
    using run_end_idle [OF ok] conjunct2 [OF turn_finished_closes [OF ok]]
    unfolding ends_turns_def ends_run_def trace_event_def Let_def is_run_terminal_def
    by (auto simp: string_field_def split: js.splits)
next
  case False
  with idle have idle: "idle t" by simp
  note calm = calms_idle [OF _ idle]
  have append: "idle (append_span_event e t)" by (rule calm [OF calms_append_event])
  have "idle (trace_tool_started h e t)"
    unfolding trace_tool_started_def
    using idle_open_tool [OF ok_update_if [OF ok tame_close] calm [OF calms_update_if [OF tame_close]]] by (simp add: idle)
  moreover have "idle (trace_tool_ended h e t)"
    unfolding trace_tool_ended_def Let_def
    by (simp add: append idle_close_tool calm [OF calms_update [OF tame_close]] split: option.split)
  moreover have "idle (trace_model_response h e t)"
    unfolding trace_model_response_def Let_def
    using calm [OF calms_update [OF tame_comp [OF tame_close tame_comp [OF tame_case_js [OF tame_set] tame_comp [OF tame_number tame_number]]]]]
    by (simp add: append)
  moreover have "idle (trace_tool_dispatch e t)"
    by (simp add: trace_tool_dispatch_def idle idle_open_tool [OF ok idle])
  moreover have "idle (trace_tool_response h e t)"
    unfolding trace_tool_response_def Let_def
    by (simp add: append idle_close_tool calm [OF calms_update] tame_comp [OF tame_close tame_case_option [OF tame_set]]
      tame_comp [OF tame_close tame_set] split: option.split)
  moreover have "idle (trace_turn_end h e t)"
    by (simp add: trace_turn_end_def Let_def calms_idle [OF calms_close_turn append] append)
  ultimately show ?thesis
    using False start idle append unfolding trace_event_def Let_def starts_turn_def requests_model_def ends_turns_def ends_run_def
    by (simp add: is_run_terminal_def run_end_idle [OF ok]) blast
qed

lemma tracked_trace:
  "tracer_ok t \<Longrightarrow> tracked t \<Longrightarrow> (\<not> busy \<Longrightarrow> idle t) \<Longrightarrow> turns_paired run busy es \<Longrightarrow> tracked (fold (trace_event h run) es t)"
proof (induction es arbitrary: t busy)
  case (Cons e es)
  have ok: "tracer_ok (trace_event h run e t)" by (rule ok_trace_event [OF Cons.prems(1)])
  have tr: "tracked (trace_event h run e t)"
    using Cons.prems by (intro tracked_trace_event) (auto split: if_splits)
  show ?case
  proof (cases "starts_turn e")
    case True
    with Cons.prems(4) Cons.IH [OF ok tr, of True] show ?thesis by simp
  next
    case False
    with Cons.prems(4) have "turns_paired run (requests_model run e \<or> busy \<and> \<not> ends_turns run e) es" by simp
    with Cons.IH [OF ok tr, of "requests_model run e \<or> busy \<and> \<not> ends_turns run e"] idle_trace_event [OF Cons.prems(1) False] Cons.prems(3)
    show ?thesis by auto
  qed
qed simp

lemma turns_paired_append: "turns_paired run busy (xs @ ys) \<Longrightarrow> turns_paired run busy xs"
  by (induction xs arbitrary: busy) (auto split: if_splits)

end
