(* ===== verification/TraceProperties.thy ===== *)
theory TraceProperties
  imports TraceTree TraceOrder RunProperties
begin

text \<open>
  The properties of the trace, each with an instance, and two runs whose trace is not what it
  should be: a turn that another one displaces, and a run that is resumed.
\<close>

section \<open>Example\<close>

definition demo_options :: trace_options where
  "demo_options = \<lparr>op_run = ''r'', op_surface = ''x'', op_scope = demo_scope, op_conversation = None\<rparr>"

definition demo_phase :: "string \<Rightarrow> int \<Rightarrow> string \<Rightarrow> canonical_event" where
  "demo_phase i n phase = (demo_event i n ''run.progress'')\<lparr>ev_payload := JObj [(''phase'', JStr phase)]\<rparr>"

text \<open>
  C22. The spans of a trace form a tree, whatever events it is made from. Their identifiers are
  numbered in the order of the list; every span but the first names an earlier one as its parent:
  turns are children of the agent, inferences children of a turn, tool calls children of the agent
  or a turn; no duration is negative, and a span that is open has none.
\<close>

theorem trace_is_a_tree: "project_trace h events opt = [] \<or> span_tree (project_trace h events opt)"
proof (cases "trace_events h opt events")
  case (Cons e es)
  show ?thesis using ok_trace_events [OF ok_root, of h "op_run opt" "e # es" opt "e # es"] by (simp add: project_trace_def Cons tracer_ok_def)
qed (simp add: project_trace_def)


text \<open>
  C10. The trace of a run that has ended has no open span. When the last event of the run is one
  that ends or suspends it, and no turn was started by a progress event while another one could
  still be open, every span of the trace has an end.
\<close>

theorem ended_trace_is_closed:
  assumes "trace_events h opt events = evs @ [e]" and "ends_run (op_run opt) e" and "turns_paired (op_run opt) False evs"
    and "s \<in> set (project_trace h events opt)"
  shows "sp_end s \<noteq> None"
proof -
  let ?t0 = "\<lparr>tc_spans = [root_span opt (evs @ [e])], tc_turn = None, tc_inference = None, tc_tools = []\<rparr>"
  define t where "t = fold (trace_event h (op_run opt)) evs ?t0"
  have doc: "project_trace h events opt = tc_spans (trace_run_end h e t)"
  proof -
    have "trace_event h (op_run opt) e t = trace_run_end h e t"
      using assms(2) unfolding ends_run_def trace_event_def Let_def is_run_terminal_def by auto
    moreover have "project_trace h events opt = tc_spans (fold (trace_event h (op_run opt)) (evs @ [e]) ?t0)"
      unfolding project_trace_def assms(1) by (cases evs) simp_all
    ultimately show ?thesis by (simp add: t_def)
  qed
  have ok: "tracer_ok t" unfolding t_def by (rule ok_trace_events [OF ok_root])
  have "tracked ?t0" by (simp add: tracked_def)
  then have "tracked t" unfolding t_def using assms(3) by (intro tracked_trace [OF ok_root]) (simp_all add: idle_def span_open_def)
  then have "\<not> open_at (trace_run_end h e t) k" if "k < length (tc_spans t)" for k
    using that run_end_closes [OF ok, where h = h and e = e] unfolding tracked_def calms_def by metis
  moreover have "length (tc_spans (trace_run_end h e t)) = length (tc_spans t)" using run_end_closes(1) [OF ok] by (simp add: calms_def)
  ultimately show ?thesis using assms(4) unfolding doc by (auto simp: in_set_conv_nth open_at_def)
qed

lemma ended_trace_is_closed_witness:
  "None \<notin> sp_end ` set (project_trace demo_host [demo_event ''b'' 1 ''run.completed'', demo_event ''a'' 0 ''run.model.requested''] demo_options)"
proof -
  have "trace_events demo_host demo_options [demo_event ''b'' 1 ''run.completed'', demo_event ''a'' 0 ''run.model.requested'']
      = [demo_event ''a'' 0 ''run.model.requested''] @ [demo_event ''b'' 1 ''run.completed'']"
    by (simp add: trace_events_def event_belongs_to_trace_def demo_event_def demo_options_def compare_events_def time_compare_def locale_compare_def
        js_or_def demo_host_def split: option.split)
  from ended_trace_is_closed [OF this] show ?thesis
    by (fastforce simp: ends_run_def is_run_terminal_def demo_event_def demo_options_def starts_turn_def)
qed

text \<open>
  C28. A live document is a projection of what has been written. Let a cursor that has read of
  each stream the events up to its position, once, read again while other clients write. The
  document it answers with is the trace of the events up to the positions it reports, each once, in
  the order in which they were read; the cursor is again such a cursor; and it has caught up with all
  that was in the stream of the run when the read began. When \<open>localeCompare\<close> tells the names of the
  streams apart, the document does not depend on the order of the reading: it is what projecting all
  these events at once gives, in whatever order.
\<close>

theorem live_trace_is_projection:
  assumes "digits_ok h" and "total_preorder (locale_le h)" and "reachable_store h st"
    and "cursor_ok (\<lambda>i. stream_events h s i st) lt"
    and "live_read h (interleaved (in_memory h s)) stream opt (lt, (st, map (others h) calls)) = (r, (lt', (st', fs')))"
  shows "\<exists>cursors es. r = Inr (project_trace h es opt, cursors)
    \<and> mset es = mset (concat (map (read_up_to (\<lambda>i. stream_events h s i st')) cursors))
    \<and> (names_apart h cursors \<longrightarrow> (\<forall>es'. mset es' = mset es \<longrightarrow> project_trace h es' opt = project_trace h es opt))
    \<and> cursor_ok (\<lambda>i. stream_events h s i st') lt' \<and> mset cursors = mset (lt_last lt')
    \<and> (stream_events h s stream st \<noteq> [] \<longrightarrow> (\<exists>n. map_of cursors stream = Some n \<and> int (length (stream_events h s stream st)) \<le> n + 1))"
proof -
  have h: "good_host h" using assms(1,2) by (rule good_host.intro)
  have ok: "store_ok h st" by (rule reachable_store_ok [OF assms(2,3)])
  note run = live_read_run [OF h ok assms(4,5)]
  let ?streams = "\<lambda>i. stream_events h s i st'"
  define cursors where "cursors = sort_by (\<lambda>l r. locale_compare h (fst l) (fst r) \<le> 0) (lt_last lt')"
  have cur: "cursor_ok ?streams lt'" using run by blast
  have cursors: "mset cursors = mset (lt_last lt')" by (simp add: cursors_def)
  have events: "mset (lt_events lt') = mset (concat (map (read_up_to ?streams) cursors))"
  proof -
    have "mset (concat (map (read_up_to ?streams) xs)) = sum_mset (image_mset (mset \<circ> read_up_to ?streams) (mset xs))" for xs
      by (induction xs) simp_all
    with cursors cur show ?thesis by (simp add: cursor_ok_def)
  qed
  have order: "project_trace h es' opt = project_trace h (lt_events lt') opt"
    if names: "names_apart h cursors" and same: "mset es' = mset (lt_events lt')" for es'
  proof -
    have "set cursors = set (lt_last lt')" using cursors by (rule mset_eq_setD)
    with names have "names_apart h (lt_last lt')" unfolding names_apart_def by simp
    then have "apart h (lt_events lt')" using read_events_apart [OF _ _ cur] run by blast
    then show ?thesis by (rule project_trace_order [OF assms(2) same [symmetric], symmetric])
  qed
  have positions: "map_of cursors = map_of (lt_last lt')"
  proof -
    have "distinct (map fst (lt_last lt'))" using cur by (simp add: cursor_ok_def)
    moreover from this have "distinct (map fst cursors)" using cursors mset_eq_imp_distinct_iff [of "map fst cursors" "map fst (lt_last lt')"] by (simp add: mset_map)
    ultimately show ?thesis using mset_eq_setD [OF cursors] map_of_inject_set by blast
  qed
  have caught_up: "\<exists>n. map_of cursors stream = Some n \<and> int (length (stream_events h s stream st)) \<le> n + 1"
    if "stream_events h s stream st \<noteq> []" using run that unfolding positions by blast
  have "r = Inr (project_trace h (lt_events lt') opt, cursors)" using run by (simp add: cursors_def)
  then show ?thesis
    by (intro exI [of _ cursors] exI [of _ "lt_events lt'"] conjI allI impI)
      (assumption | rule events cursors cur order caught_up)+
qed

lemma live_trace_is_projection_witness:
  "\<exists>doc cursors. fst (live_read demo_host (interleaved (in_memory demo_host demo_scope)) ''r'' demo_options
      (\<lparr>lt_events = [], lt_last = []\<rparr>, (demo_run_with ''run.started'', []))) = Inr (doc, cursors) \<and> map_of cursors ''r'' \<noteq> None"
proof -
  obtain r lt' st' fs' where run: "live_read demo_host (interleaved (in_memory demo_host demo_scope)) ''r'' demo_options
      (\<lparr>lt_events = [], lt_last = []\<rparr>, (demo_run_with ''run.started'', map (others demo_host) [])) = (r, (lt', (st', fs')))" by (metis prod.exhaust)
  have "cursor_ok (\<lambda>i. stream_events demo_host demo_scope i (demo_run_with ''run.started'')) \<lparr>lt_events = [], lt_last = []\<rparr>" by (simp add: cursor_ok_def)
  from live_trace_is_projection [OF digits_ok_demo_host total_preorder_demo_host demo_started_run(1) this run]
  obtain doc cursors where "r = Inr (doc, cursors)"
      "stream_events demo_host demo_scope ''r'' (demo_run_with ''run.started'') \<noteq> [] \<longrightarrow>
       (\<exists>n. map_of cursors ''r'' = Some n \<and> int (length (stream_events demo_host demo_scope ''r'' (demo_run_with ''run.started''))) \<le> n + 1)"
    by (elim exE conjE) blast
  moreover have "stream_events demo_host demo_scope ''r'' (demo_run_with ''run.started'') \<noteq> []" using demo_started_run(3) by auto
  ultimately show ?thesis using run by auto
qed

section \<open>Traces that are not closed\<close>

text \<open>
  A turn that a second \<open>model_response_started\<close> displaces is never closed; a run that was suspended
  and then completed keeps the status and the end its root span got when it was suspended.
\<close>

lemma displaced_turn_stays_open:
  "list_ex (\<lambda>s. sp_kind s = TurnSpan \<and> sp_end s = None)
     (project_trace demo_host [demo_phase ''a'' 0 ''model_response_started'', demo_phase ''b'' 1 ''model_response_started'',
        demo_event ''d'' 2 ''run.completed''] demo_options)"
  by code_simp

lemma resumed_run_has_unset_root:
  "let root = hd (project_trace demo_host [demo_event ''a'' 0 ''run.awaiting_approval'', demo_event ''b'' 1 ''run.completed''] demo_options)
   in map_of (sp_attributes root) ''anna.outcome'' = Some (JStr ''completed'') \<and> sp_status root = SpanUnset"
  by code_simp

end
