(* ===== verification/Projections.thy ===== *)
theory Projections
  imports RunProperties
begin

text \<open>
  Projections (\<open>event-store/src/projection-runner.ts\<close>, \<open>harness-state.ts\<close>): folding a stream
  into a stored state, one commit per event, and the harness state of a run. The state is the
  JSON value the store keeps; a reducer maps it and an event to the next state.
\<close>

section \<open>The runner\<close>

text \<open>
  The loop over the events after the cursor. Every event is reduced from the state that was
  loaded before the loop, as in the source.
\<close>

fun project_events ::
    "'s channel_ops \<Rightarrow> string \<Rightarrow> string \<Rightarrow> projection_snapshot \<Rightarrow> (js \<Rightarrow> canonical_event \<Rightarrow> js) \<Rightarrow> canonical_event list \<Rightarrow>
     ('s, js_error, projection_snapshot option) action" where
  "project_events ops projector stream snapshot reduce [] = act_return None"
| "project_events ops projector stream snapshot reduce (e # es) = act_bind
     (co_commit_projection ops \<lparr>pc_projector = projector, pc_stream = stream, pc_event_id = ev_id e,
        pc_event_seq = ev_seq e, pc_expected_version = ps_version snapshot, pc_state = reduce (ps_state snapshot) e\<rparr>)
     (\<lambda>(committed, applied).
        if applied then act_return (Some committed)
        else project_events ops projector stream snapshot reduce es)"

definition project_next ::
    "'s channel_ops \<Rightarrow> string \<Rightarrow> string \<Rightarrow> js \<Rightarrow> (js \<Rightarrow> canonical_event \<Rightarrow> js) \<Rightarrow>
     ('s, js_error, projection_snapshot option) action" where
  "project_next ops projector stream initial reduce = act_bind (co_load_projection ops projector stream) (\<lambda>current.
     act_bind (case current of
         Some p \<Rightarrow> act_return p
       | None \<Rightarrow> act_lift (r_bind (parse_json_value initial ''ProjectionReducer.initialState'') (\<lambda>s.
           Inr \<lparr>ps_state = s, ps_version = 0, ps_last_seq = -1\<rparr>))) (\<lambda>snapshot.
     act_bind (co_read ops stream (Some (ps_last_seq snapshot))) (\<lambda>events.
     project_events ops projector stream snapshot reduce events)))"

text \<open>
  \<open>while (await projectNext(...) !== undefined)\<close>, with fuel: \<open>None\<close> when the fuel is spent and
  events remain.
\<close>

fun drain ::
    "nat \<Rightarrow> 's channel_ops \<Rightarrow> string \<Rightarrow> string \<Rightarrow> js \<Rightarrow> (js \<Rightarrow> canonical_event \<Rightarrow> js) \<Rightarrow>
     's \<Rightarrow> ((js_error, unit) res \<times> 's) option" where
  "drain 0 ops projector stream initial reduce st = None"
| "drain (Suc fuel) ops projector stream initial reduce st =
     (case project_next ops projector stream initial reduce st of
        (Inl e, st') \<Rightarrow> Some (Inl e, st')
      | (Inr None, st') \<Rightarrow> Some (Inr (), st')
      | (Inr (Some _), st') \<Rightarrow> drain fuel ops projector stream initial reduce st')"

section \<open>The harness state\<close>

text \<open>\<open>TERMINAL_STATUS[event.type]\<close>: the table, or what every object inherits.\<close>

definition terminal_status :: "string \<Rightarrow> js" where
  "terminal_status ty =
     (case map_of terminal_outcomes ty of
        Some s \<Rightarrow> JStr s
      | None \<Rightarrow> if ty = ''__proto__'' then JObj [] else if ty \<in> set object_prototype_keys then JFun else JUndef)"

definition initial_state :: "string \<Rightarrow> (string \<times> js) list" where
  "initial_state run_id = [(''runId'', JStr run_id), (''status'', JStr ''queued''), (''lastSeq'', JNum (-1))]"

text \<open>\<open>typeof payload.k === "string" ? payload.k : state.k\<close>, spread only when it is defined.\<close>

definition carry :: "(string \<times> js) list \<Rightarrow> string \<Rightarrow> (string \<times> js) list \<Rightarrow> (string \<times> js) list" where
  "carry payload k state =
     (case as_string (js_field payload k) of
        Some s \<Rightarrow> js_set k (JStr s) state
      | None \<Rightarrow> state)"

definition harness_reduce :: "js \<Rightarrow> canonical_event \<Rightarrow> js" where
  "harness_reduce state e =
     (let payload = record_or_empty (ev_payload e);
          s0 = record_or_empty state;
          s1 = carry payload ''laneId'' (carry payload ''parentEventId'' (carry payload ''parentRunId'' s0));
          status = (if terminal_status (ev_type e) = JUndef
                    then if is_running_event (ev_type e) then JStr ''running'' else js_field s0 ''status''
                    else terminal_status (ev_type e))
      in JObj (js_set ''lastEventType'' (JStr (ev_type e))
           (js_set ''lastSeq'' (JNum (of_int (ev_seq e))) (js_set ''status'' status s1))))"

definition harness_seed :: "string \<Rightarrow> start_run option \<Rightarrow> js" where
  "harness_seed run_id command =
     (case command of
        Some c \<Rightarrow> (case rf_parent (sr_fields c) of
            Some (parent, event) \<Rightarrow>
              JObj (initial_state run_id @ [(''parentRunId'', JStr parent), (''parentEventId'', JStr event)]
                @ opt_field ''laneId'' JStr (rf_lane (sr_fields c)))
          | None \<Rightarrow> JObj (initial_state run_id))
      | None \<Rightarrow> JObj (initial_state run_id))"

definition project_harness_state :: "nat \<Rightarrow> 's channel_ops \<Rightarrow> string \<Rightarrow> 's \<Rightarrow> ((js_error, js) res \<times> 's) option" where
  "project_harness_state fuel ops run_id st =
     (case co_get_run_command ops run_id st of
        (Inl e, st1) \<Rightarrow> Some (Inl e, st1)
      | (Inr command, st1) \<Rightarrow>
        let seed = harness_seed run_id command in
        case drain fuel ops ''harness-state'' run_id seed harness_reduce st1 of
          None \<Rightarrow> None
        | Some (Inl e, st2) \<Rightarrow> Some (Inl e, st2)
        | Some (Inr _, st2) \<Rightarrow> Some (act_bind (co_load_projection ops ''harness-state'' run_id) (\<lambda>snapshot.
            act_return (case snapshot of None \<Rightarrow> seed | Some p \<Rightarrow> ps_state p)) st2))"

text \<open>
  The family: the parent and the streams listed for it, in locale order of their run ids. \<open>Promise.all\<close>
  lets every projection run to its end, also when one fails, and then rejects. Each has its own stream
  and cursor; here they run one after another, and the error is that of the first that fails.
\<close>

fun project_all :: "nat \<Rightarrow> 's channel_ops \<Rightarrow> string list \<Rightarrow> 's \<Rightarrow> ((js_error, js list) res \<times> 's) option" where
  "project_all fuel ops [] st = Some (Inr [], st)"
| "project_all fuel ops (i # is) st =
     (case project_harness_state fuel ops i st of
        None \<Rightarrow> None
      | Some (r, st1) \<Rightarrow> (case project_all fuel ops is st1 of
          None \<Rightarrow> None
        | Some (rs, st2) \<Rightarrow> Some (r_bind r (\<lambda>x. r_bind rs (\<lambda>xs. Inr (x # xs))), st2)))"

definition state_run_id :: "js \<Rightarrow> string" where
  "state_run_id state = (case string_field state ''runId'' of Some s \<Rightarrow> s | None \<Rightarrow> [])"

definition project_run_family :: "host \<Rightarrow> nat \<Rightarrow> 's channel_ops \<Rightarrow> string \<Rightarrow> 's \<Rightarrow> ((js_error, js list) res \<times> 's) option" where
  "project_run_family h fuel ops parent st =
     (case co_list_run_stream_ids ops parent st of
        (Inl e, st1) \<Rightarrow> Some (Inl e, st1)
      | (Inr ids, st1) \<Rightarrow> (case project_all fuel ops (js_dedup (parent # ids)) st1 of
          None \<Rightarrow> None
        | Some (Inl e, st2) \<Rightarrow> Some (Inl e, st2)
        | Some (Inr xs, st2) \<Rightarrow> Some (Inr (sort_by (\<lambda>a b. locale_le h (state_run_id a) (state_run_id b)) xs), st2)))"

section \<open>Folding the log\<close>

text \<open>The stored projection is the fold of the first \<open>k\<close> events, all of which it has acknowledged.\<close>

definition in_sync ::
    "host \<Rightarrow> scope \<Rightarrow> string \<Rightarrow> string \<Rightarrow> js \<Rightarrow> (js \<Rightarrow> canonical_event \<Rightarrow> js) \<Rightarrow> nat \<Rightarrow> store \<Rightarrow> bool" where
  "in_sync h s p stream init f k st \<longleftrightarrow>
     (let es = stream_events h s stream st in
      k \<le> length es
      \<and> acknowledged h s p stream st = ev_id ` set (take k es)
      \<and> map_of (st_projections st) (projection_key h s p stream) =
          (if k = 0 then None
           else Some \<lparr>ps_state = foldl f init (take k es), ps_version = int k, ps_last_seq = int k - 1\<rparr>))"

lemma fresh_in_sync:
  "st_projections st = [] \<Longrightarrow> st_receipts st = [] \<Longrightarrow> in_sync h s p stream init f 0 st"
  by (simp add: in_sync_def acknowledged_def Let_def)

lemma log_ids_distinct:
  assumes log: "log_ok h st" and i: "i < length (stream_events h s stream st)" and j: "j < length (stream_events h s stream st)"
    and same: "ev_id (stream_events h s stream st ! i) = ev_id (stream_events h s stream st ! j)"
  shows "i = j"
proof -
  note a = log_ok_nth [OF log i] and b = log_ok_nth [OF log j]
  from a b same have "stream_events h s stream st ! i = stream_events h s stream st ! j" by (metis option.inject)
  with a b show ?thesis by (metis of_nat_eq_iff)
qed

lemma read_after_cursor:
  assumes log: "log_ok h st" and k: "k \<le> length (stream_events h s stream st)"
  shows "filter (\<lambda>e. int k - 1 < ev_seq e) (stream_events h s stream st) = drop k (stream_events h s stream st)"
proof -
  let ?es = "stream_events h s stream st"
  have "ev_seq e < int k" if "e \<in> set (take k ?es)" for e
    using that log_ok_nth [OF log, of _ s stream] by (auto simp: in_set_conv_nth)
  then have "filter (\<lambda>e. int k - 1 < ev_seq e) (take k ?es) = []" by (force simp: filter_empty_conv)
  moreover have "int k - 1 < ev_seq e" if "e \<in> set (drop k ?es)" for e
    using that k log_ok_nth [OF log, of _ s stream] by (auto simp: in_set_conv_nth nth_drop)
  then have "filter (\<lambda>e. int k - 1 < ev_seq e) (drop k ?es) = drop k ?es" by (simp add: filter_id_conv)
  ultimately show ?thesis by (metis append_Nil append_take_drop_id filter_append)
qed

lemma project_next_start:
  assumes log: "log_ok h st" and sync: "in_sync h s p stream init f k st"
    and js: "is_json (foldl f init (take k (stream_events h s stream st)))" and "is_json init"
  shows "project_next (in_memory h s) p stream init f st =
    project_events (in_memory h s) p stream
      \<lparr>ps_state = foldl f init (take k (stream_events h s stream st)), ps_version = int k, ps_last_seq = int k - 1\<rparr>
      f (drop k (stream_events h s stream st)) st"
proof -
  from sync have k: "k \<le> length (stream_events h s stream st)" by (simp add: in_sync_def Let_def)
  then show ?thesis
    using sync js \<open>is_json init\<close> log read_events_run [OF log, of s stream "Some (int k - 1)"] read_after_cursor [OF log k]
    by (cases "k = 0") (simp_all add: in_sync_def Let_def project_next_def act_bind_def act_lift_def act_return_def
        load_projection_def clone_option_def clone_projection_run parse_json_value_run)
qed

text \<open>Committing the next event of a projection that is in sync.\<close>

lemma commit_next_event:
  assumes log: "log_ok h st" and sync: "in_sync h s p stream init f k st" and lt: "k < length (stream_events h s stream st)"
  shows "commit_projection h s \<lparr>pc_projector = p, pc_stream = stream, pc_event_id = ev_id (stream_events h s stream st ! k),
      pc_event_seq = ev_seq (stream_events h s stream st ! k), pc_expected_version = int k, pc_state = x\<rparr> st =
    (case parse_json_value x ''ProjectionCommit.state'' of
       Inl err \<Rightarrow> (Inl err, st)
     | Inr y \<Rightarrow> (Inr (\<lparr>ps_state = x, ps_version = int k + 1, ps_last_seq = int k\<rparr>, True),
         st\<lparr>st_projections := js_set (projection_key h s p stream)
              \<lparr>ps_state = x, ps_version = int k + 1, ps_last_seq = int k\<rparr> (st_projections st),
            st_receipts := st_receipts st @ [receipt_key h s p stream (ev_id (stream_events h s stream st ! k))]\<rparr>))"
proof -
  let ?es = "stream_events h s stream st"
  have new: "receipt_key h s p stream (ev_id (?es ! k)) \<notin> set (st_receipts st)"
  proof
    assume "receipt_key h s p stream (ev_id (?es ! k)) \<in> set (st_receipts st)"
    then have "ev_id (?es ! k) \<in> acknowledged h s p stream st" by (simp add: acknowledged_def)
    then have "ev_id (?es ! k) \<in> ev_id ` set (take k ?es)" using sync by (simp add: in_sync_def Let_def)
    then obtain j where "j < k" "ev_id (?es ! j) = ev_id (?es ! k)" by (auto simp: in_set_conv_nth)
    with log_ids_distinct [OF log _ lt, of j] lt show False by simp
  qed
  note facts = log_ok_nth [OF log lt] new sync [unfolded in_sync_def Let_def]
  show ?thesis
  proof (cases "is_json x")
    case True
    then show ?thesis using facts
      by (simp add: commit_projection_def Let_def clone_projection_result_def clone_projection_run parse_json_value_run)
  next
    case False
    then obtain err where "parse_json_value x ''ProjectionCommit.state'' = Inl err"
      by (cases "parse_json_value x ''ProjectionCommit.state''") (auto simp: parse_json_value_iff)
    then show ?thesis using facts by (simp add: commit_projection_def Let_def)
  qed
qed

lemma project_next_step:
  assumes log: "log_ok h st" and sync: "in_sync h s p stream init f k st"
    and json: "\<forall>j \<le> length (stream_events h s stream st). is_json (foldl f init (take j (stream_events h s stream st)))"
  shows "if k = length (stream_events h s stream st) then project_next (in_memory h s) p stream init f st = (Inr None, st)
    else \<exists>q st'. project_next (in_memory h s) p stream init f st = (Inr (Some q), st')
      \<and> in_sync h s p stream init f (Suc k) st' \<and> st_streams st' = st_streams st \<and> st_events st' = st_events st
      \<and> st_commands st' = st_commands st"
proof -
  let ?es = "stream_events h s stream st"
  from sync have k: "k \<le> length ?es" by (simp add: in_sync_def Let_def)
  note start = project_next_start [OF log sync json [rule_format, OF k] json [rule_format, of 0, simplified]]
  show ?thesis
  proof (cases "k = length ?es")
    case True
    then show ?thesis by (simp add: start act_return_def)
  next
    case False
    with k have lt: "k < length ?es" by simp
    let ?e = "?es ! k" and ?q = "\<lparr>ps_state = foldl f init (take (Suc k) ?es), ps_version = int k + 1, ps_last_seq = int k\<rparr>"
    have drop: "drop k ?es = ?e # drop (Suc k) ?es" by (rule Cons_nth_drop_Suc [OF lt, symmetric])
    have fold: "f (foldl f init (take k ?es)) ?e = foldl f init (take (Suc k) ?es)" by (simp add: take_Suc_conv_app_nth [OF lt])
    have js': "is_json (foldl f init (take (Suc k) ?es))" using json lt by (simp add: Suc_leI)
    define st' where "st' = st\<lparr>st_projections := js_set (projection_key h s p stream) ?q (st_projections st),
        st_receipts := st_receipts st @ [receipt_key h s p stream (ev_id ?e)]\<rparr>"
    have "project_next (in_memory h s) p stream init f st = (Inr (Some ?q), st')"
      by (simp add: start drop act_bind_def fold act_return_def commit_next_event [OF log sync lt]
          parse_json_value_run [OF js'] st'_def)
    moreover have "stream_events h s stream st' = ?es" by (simp add: st'_def stream_events_def)
    moreover have "acknowledged h s p stream st' = insert (ev_id ?e) (acknowledged h s p stream st)"
      by (auto simp: acknowledged_def st'_def)
    ultimately show ?thesis
      using lt sync by (simp add: in_sync_def Let_def take_Suc_conv_app_nth [OF lt] st'_def add.commute)
  qed
qed

lemma log_ok_same: "st_streams st' = st_streams st \<Longrightarrow> st_events st' = st_events st \<Longrightarrow> log_ok h st \<Longrightarrow> log_ok h st'"
  by (simp add: log_ok_def stream_events_def stored_event_def)

lemma drain_folds:
  assumes "log_ok h st" and "in_sync h s p stream init f k st"
    and "\<forall>j \<le> length (stream_events h s stream st). is_json (foldl f init (take j (stream_events h s stream st)))"
    and "length (stream_events h s stream st) < k + fuel"
  shows "\<exists>st'. drain fuel (in_memory h s) p stream init f st = Some (Inr (), st')
    \<and> in_sync h s p stream init f (length (stream_events h s stream st)) st'
    \<and> st_streams st' = st_streams st \<and> st_events st' = st_events st \<and> st_commands st' = st_commands st"
  using assms
proof (induction fuel arbitrary: k st)
  case 0
  then show ?case by (simp add: in_sync_def Let_def)
next
  case (Suc fuel)
  let ?es = "stream_events h s stream st"
  note next' = project_next_step [OF Suc.prems(1,2,3)]
  show ?case
  proof (cases "k = length ?es")
    case True
    with next' Suc.prems(2) show ?thesis by simp
  next
    case False
    with next' obtain q st1 where st1: "project_next (in_memory h s) p stream init f st = (Inr (Some q), st1)"
      "in_sync h s p stream init f (Suc k) st1" "st_streams st1 = st_streams st" "st_events st1 = st_events st"
      "st_commands st1 = st_commands st" by auto
    have same: "stream_events h s stream st1 = ?es" using st1(3) by (simp add: stream_events_def)
    from Suc.IH [OF log_ok_same [OF st1(3,4) Suc.prems(1)] st1(2)] Suc.prems(3,4) same
    obtain st' where "drain fuel (in_memory h s) p stream init f st1 = Some (Inr (), st')"
      "in_sync h s p stream init f (length ?es) st'" "st_streams st' = st_streams st1" "st_events st' = st_events st1"
      "st_commands st' = st_commands st1" by auto
    with st1 show ?thesis by simp
  qed
qed

section \<open>The harness state of a run\<close>

definition plain_type :: "string \<Rightarrow> bool" where
  "plain_type ty \<longleftrightarrow> ty \<notin> set object_prototype_keys"

lemma terminal_status_plain:
  "plain_type ty \<Longrightarrow> terminal_status ty = (case terminal_outcome ty of Some (Some s) \<Rightarrow> JStr s | _ \<Rightarrow> JUndef)"
  by (auto simp: terminal_status_def terminal_outcome_def plain_type_def object_prototype_keys_def split: option.splits)

lemma outcome_plain: "plain_type ty \<Longrightarrow> terminal_outcome ty \<noteq> Some None"
  by (auto simp: terminal_outcome_def plain_type_def split: option.splits)

lemma set_js_set: "set (js_set k v m) \<subseteq> insert (k, v) (set m)"
  by (induction m) auto

lemma json_js_set: "\<forall>kv \<in> set m. is_json (snd kv) \<Longrightarrow> is_json v \<Longrightarrow> \<forall>kv \<in> set (js_set k v m). is_json (snd kv)"
  using set_js_set [of k v m] by fastforce

lemma js_field_js_set [simp]: "js_field (js_set k v m) k' = (if k' = k then v else js_field m k')"
  by (simp add: js_field_def)

lemma json_carry: "\<forall>kv \<in> set m. is_json (snd kv) \<Longrightarrow> \<forall>kv \<in> set (carry payload k m). is_json (snd kv)"
  unfolding carry_def by (cases "as_string (js_field payload k)") (simp_all only: option.case, rule json_js_set, simp_all)

lemma carry_status: "k \<noteq> ''status'' \<Longrightarrow> js_field (carry payload k m) ''status'' = js_field m ''status''"
  by (simp add: carry_def split: option.splits)

text \<open>A harness state: a JSON object with a status.\<close>

definition harness_state :: "js \<Rightarrow> string \<Rightarrow> bool" where
  "harness_state state status \<longleftrightarrow> (\<exists>kvs. state = JObj kvs \<and> (\<forall>kv \<in> set kvs. is_json (snd kv)) \<and> js_field kvs ''status'' = JStr status)"

definition next_status :: "string \<Rightarrow> string \<Rightarrow> string" where
  "next_status status ty =
     (case terminal_outcome ty of Some (Some s) \<Rightarrow> s
      | _ \<Rightarrow> if is_running_event ty then ''running'' else status)"

lemma harness_reduce_state:
  assumes "harness_state state status" and "plain_type (ev_type e)"
  shows "harness_state (harness_reduce state e) (next_status status (ev_type e))"
proof -
  from assms(1) obtain kvs where kvs: "state = JObj kvs" "\<forall>kv \<in> set kvs. is_json (snd kv)" "js_field kvs ''status'' = JStr status"
    by (auto simp: harness_state_def)
  have st: "(if terminal_status (ev_type e) = JUndef then if is_running_event (ev_type e) then JStr ''running'' else js_field kvs ''status''
      else terminal_status (ev_type e)) = JStr (next_status status (ev_type e))"
    using kvs(3) by (simp add: terminal_status_plain [OF assms(2)] next_status_def split: option.splits)
  define m where "m = js_set ''lastEventType'' (JStr (ev_type e)) (js_set ''lastSeq'' (JNum (of_int (ev_seq e)))
    (js_set ''status'' (JStr (next_status status (ev_type e)))
      (carry (record_or_empty (ev_payload e)) ''laneId'' (carry (record_or_empty (ev_payload e)) ''parentEventId''
        (carry (record_or_empty (ev_payload e)) ''parentRunId'' kvs)))))"
  have "harness_reduce state e = JObj m"
    by (simp only: harness_reduce_def Let_def kvs(1) record_or_empty.simps st m_def)
  moreover have "\<forall>kv \<in> set m. is_json (snd kv)"
    unfolding m_def by (rule json_js_set json_carry kvs(2))+ simp_all
  moreover have "js_field m ''status'' = JStr (next_status status (ev_type e))" by (simp add: m_def)
  ultimately show ?thesis by (simp add: harness_state_def)
qed

lemma harness_fold:
  "harness_state state status \<Longrightarrow> \<forall>e \<in> set es. plain_type (ev_type e) \<Longrightarrow>
   harness_state (foldl harness_reduce state es) (foldl next_status status (map ev_type es))"
  by (induction es arbitrary: state status) (auto intro: harness_reduce_state)

lemma harness_state_json: "harness_state state status \<Longrightarrow> is_json state"
  by (auto simp: harness_state_def)

lemma harness_seed_state: "harness_state (harness_seed i c) ''queued''"
  by (auto simp: harness_state_def harness_seed_def initial_state_def opt_field_def split: option.splits)

lemma next_status_decisive: "plain_type ty \<Longrightarrow> decisive ty \<Longrightarrow> next_status a ty = next_status b ty"
  using outcome_plain [of ty] by (auto simp: next_status_def decisive_def split: option.splits)

lemma next_status_idle: "\<not> decisive ty \<Longrightarrow> next_status a ty = a"
  by (simp add: next_status_def decisive_def)

lemma status_fold_find:
  assumes "\<forall>ty \<in> set tys. plain_type ty"
  shows "foldl next_status status tys =
     (case find decisive (rev tys) of None \<Rightarrow> status | Some ty \<Rightarrow> next_status status ty)"
  using assms
proof (induction tys rule: rev_induct)
  case (snoc ty tys)
  then show ?case
    using next_status_decisive [of ty "foldl next_status status tys" status] by (auto simp: next_status_idle)
qed simp

lemma view_status:
  assumes "\<forall>ty \<in> set tys. plain_type ty"
  shows "map_option ru_status (run_view c tys) = Some (foldl next_status ''queued'' tys)"
proof (cases "find decisive (rev tys)")
  case None
  then show ?thesis by (simp add: run_view_def status_fold_find [OF assms] active_run_def)
next
  case (Some ty)
  with find_SomeD [OF Some] assms have "plain_type ty" "decisive ty" by auto
  with Some outcome_plain [of ty] show ?thesis
    by (auto simp: run_view_def status_fold_find [OF assms] event_view_def terminal_run_def active_run_def
        next_status_def decisive_def split: option.splits)
qed

end
