(* ===== verification/ProjectionProperties.thy ===== *)
theory ProjectionProperties
  imports Projections
begin

text \<open>
  The projections' properties: the loop folds every event of a stream exactly once, the harness
  state it computes agrees with the run manager, and an inherited event type stops it.
\<close>

section \<open>Example\<close>

lemma demo_unprojected:
  assumes "\<not> is_blank ty"
  shows "in_sync demo_host demo_scope p ''r'' init f 0 (demo_run_with ty)"
proof -
  have "st_projections demo_claims = []" "st_receipts demo_claims = []"
    using frame_projections [of "CallClaimStart demo_start" demo_host demo_scope empty_store]
    by (simp_all add: demo_claims_def empty_store_def del: run_call.simps)
  then show ?thesis by (intro fresh_in_sync) (simp_all add: demo_run_with_push [OF assms] push_event_def)
qed

lemma demo_run_stream:
  "\<not> is_blank ty \<Longrightarrow> stream_events demo_host demo_scope ''r'' (demo_run_with ty) = [demo_event ''a'' 0 ty]"
  by (simp add: demo_run_with_push demo_claims_streams) (simp add: demo_event_def)

lemma demo_event_fields [simp]:
  "ev_id (demo_event i n ty) = i" "ev_type (demo_event i n ty) = ty" "ev_seq (demo_event i n ty) = n"
  by (simp_all add: demo_event_def)

section \<open>Properties\<close>

text \<open>
  C20. Projecting a stream to its end is a left fold that uses every event exactly once. From a
  store whose projection is the fold of the first \<open>k\<close> events, with fuel for the remaining ones
  and the final check, the loop returns normally; the projection is then the fold of the whole
  stream at version and cursor of its length, the log and the commands are untouched, and
  running the loop again returns at once and changes nothing.
\<close>

theorem projection_folds_every_event_once:
  assumes "reachable_store h st" and "in_sync h s p stream init f k st"
    and "\<forall>j \<le> length (stream_events h s stream st). is_json (foldl f init (take j (stream_events h s stream st)))"
    and "length (stream_events h s stream st) < k + fuel"
  shows "\<exists>st'. drain fuel (in_memory h s) p stream init f st = Some (Inr (), st')
    \<and> fst (load_projection h s p stream st') =
        Inr (if stream_events h s stream st = [] then None
             else Some \<lparr>ps_state = foldl f init (stream_events h s stream st),
               ps_version = int (length (stream_events h s stream st)), ps_last_seq = int (length (stream_events h s stream st)) - 1\<rparr>)
    \<and> (\<forall>s' i. stream_events h s' i st' = stream_events h s' i st) \<and> st_commands st' = st_commands st
    \<and> drain (Suc 0) (in_memory h s) p stream init f st' = Some (Inr (), st')"
proof -
  let ?es = "stream_events h s stream st"
  note log = reachable_log_ok [OF assms(1)]
  from drain_folds [OF log assms(2-4)] obtain st' where st': "drain fuel (in_memory h s) p stream init f st = Some (Inr (), st')"
    "in_sync h s p stream init f (length ?es) st'" "st_streams st' = st_streams st" "st_events st' = st_events st"
    "st_commands st' = st_commands st" by blast
  have same: "stream_events h s' i st' = stream_events h s' i st" for s' i using st'(3) by (simp add: stream_events_def)
  have "is_json (foldl f init ?es)" using assms(3) [rule_format, of "length ?es"] by simp
  then have "fst (load_projection h s p stream st') =
        Inr (if ?es = [] then None else Some \<lparr>ps_state = foldl f init ?es, ps_version = int (length ?es), ps_last_seq = int (length ?es) - 1\<rparr>)"
    using st'(2) by (simp add: in_sync_def Let_def same load_projection_def clone_option_def clone_projection_run)
  moreover have "project_next (in_memory h s) p stream init f st' = (Inr None, st')"
    using project_next_step [OF log_ok_same [OF st'(3,4) log] st'(2)] assms(3) by (simp add: same)
  ultimately show ?thesis using st' same by simp
qed

lemma projection_folds_every_event_once_witness:
  "\<exists>st'. drain 2 (in_memory demo_host demo_scope) ''t'' ''r'' (JArr []) (\<lambda>s e. JArr [s, JStr (ev_id e)]) (demo_run_with ''run.started'')
       = Some (Inr (), st')
     \<and> fst (load_projection demo_host demo_scope ''t'' ''r'' st')
         = Inr (Some \<lparr>ps_state = JArr [JArr [], JStr ''a''], ps_version = 1, ps_last_seq = 0\<rparr>)"
proof -
  have "\<forall>j \<le> 1. is_json (foldl (\<lambda>s e. JArr [s, JStr (ev_id e)]) (JArr []) (take j [demo_event ''a'' 0 ''run.started'']))"
    by (auto simp: le_Suc_eq)
  with projection_folds_every_event_once [OF demo_started_run(1) demo_unprojected [OF demo_blank(1)],
      where fuel = 2 and p = "''t''" and init = "JArr []" and f = "\<lambda>s e. JArr [s, JStr (ev_id e)]"]
  show ?thesis by (auto simp: demo_run_stream demo_blank demo_event_def)
qed

text \<open>
  C21. The two readings of a run agree. Let no event of the run carry the name of an inherited
  property as its type (what happens otherwise is below), and let the stored projection be in step with
  the log. Then the harness state computed by the incremental projection returns normally with fuel
  for the stream, is the fold of all events, and its status is the status the run manager reports.
\<close>

theorem harness_state_agrees_with_run_manager:
  assumes "total_preorder (locale_le h)" and "reachable_store h st"
    and "in_sync h s ''harness-state'' i (harness_seed i (run_entry h s st i)) harness_reduce k st"
    and "\<forall>e \<in> set (stream_events h s i st). plain_type (ev_type e)"
    and "length (stream_events h s i st) < fuel"
  shows "\<exists>state st'. project_harness_state fuel (in_memory h s) i st = Some (Inr state, st')
    \<and> state = foldl harness_reduce (harness_seed i (run_entry h s st i)) (stream_events h s i st)
    \<and> (\<forall>r. fst (rm_get (in_memory h s) i st) = Inr (Some r) \<longrightarrow> string_field state ''status'' = Some (ru_status r))"
proof -
  let ?es = "stream_events h s i st" and ?seed = "harness_seed i (run_entry h s st i)"
  note log = reachable_log_ok [OF assms(2)] and ok = reachable_store_ok [OF assms(1,2)]
  have state: "harness_state (foldl harness_reduce ?seed (take j ?es)) (foldl next_status ''queued'' (map ev_type (take j ?es)))" for j
    using assms(4) by (intro harness_fold harness_seed_state) (auto dest: in_set_takeD)
  then have json: "is_json (foldl harness_reduce ?seed (take j ?es))" for j by (rule harness_state_json)
  from drain_folds [OF log assms(3), where fuel = fuel] json assms(5)
  obtain st' where st': "drain fuel (in_memory h s) ''harness-state'' i ?seed harness_reduce st = Some (Inr (), st')"
    "in_sync h s ''harness-state'' i ?seed harness_reduce (length ?es) st'" "st_streams st' = st_streams st" by auto
  have same: "stream_events h s i st' = ?es" using st'(3) by (simp add: stream_events_def)
  let ?state = "foldl harness_reduce ?seed ?es"
  have "project_harness_state fuel (in_memory h s) i st = Some (Inr ?state, st')"
    using st' json [of "length ?es"] get_command_entry [OF ok, of s i]
    by (simp add: project_harness_state_def Let_def act_bind_def load_projection_def in_sync_def same clone_option_def
        clone_projection_run act_return_def)
  moreover have "string_field ?state ''status'' = Some (ru_status r)" if r: "fst (rm_get (in_memory h s) i st) = Inr (Some r)" for r
  proof -
    from r obtain c where "run_view c (map ev_type ?es) = Some r" by (auto simp: in_memory_get [OF ok] split: option.splits)
    with view_status [of "map ev_type ?es" c] assms(4) have "foldl next_status ''queued'' (map ev_type ?es) = ru_status r" by simp
    with state [of "length ?es"] show ?thesis by (auto simp: harness_state_def string_field_def)
  qed
  ultimately show ?thesis by blast
qed

lemma harness_state_agrees_with_run_manager_witness:
  "\<exists>state st'. project_harness_state 2 (in_memory demo_host demo_scope) ''r'' (demo_run_with ''run.started'') = Some (Inr state, st')
     \<and> string_field state ''status'' = Some ''running''"
proof -
  have "plain_type ''run.started''" by (simp add: plain_type_def object_prototype_keys_def)
  moreover have "fst (rm_get (in_memory demo_host demo_scope) ''r'' (demo_run_with ''run.started'')) = Inr (Some (active_run demo_start ''running''))"
    by (simp add: in_memory_get [OF reachable_store_ok [OF total_preorder_demo_host demo_started_run(1)]] demo_started_run
        demo_outcomes run_view_def event_view_def decisive_def)
  ultimately show ?thesis
    using harness_state_agrees_with_run_manager [OF total_preorder_demo_host demo_started_run(1) demo_unprojected [OF demo_blank(1)],
        where fuel = 2]
    by (simp add: demo_run_stream demo_blank demo_event_fields active_run_def) blast
qed

lemma inherited_status:
  assumes "ty \<in> set object_prototype_keys" "ty \<noteq> ''__proto__''"
  shows "terminal_status ty = JFun"
proof -
  have "map_of terminal_outcomes ty = None"
    using assms unfolding object_prototype_keys_def terminal_outcomes_def by (simp, elim disjE) simp_all
  with assms show ?thesis by (simp add: terminal_status_def)
qed

lemma js_set_in: "(k, v) \<in> set (js_set k v m)"
  by (induction m) auto

lemma js_set_other: "k' \<noteq> k \<Longrightarrow> (k', x) \<in> set (js_set k v m) \<longleftrightarrow> (k', x) \<in> set m"
  by (induction m) auto

lemma not_json_entry: "(k, v) \<in> set m \<Longrightarrow> \<not> is_json v \<Longrightarrow> \<not> is_json (JObj m)"
  by force

lemma reduce_function_status:
  assumes "terminal_status (ev_type e) = JFun"
  shows "\<not> is_json (harness_reduce state e)"
proof -
  show ?thesis unfolding harness_reduce_def Let_def assms
    by (rule not_json_entry [where k = "''status''" and v = JFun]) (simp_all add: js_set_other js_set_in)
qed

lemma json_error:
  "parse_json_value v n = Inl e \<Longrightarrow> \<exists>m. e = SchemaValidationError m"
  "parse_json_items vs n i = Inl e \<Longrightarrow> \<exists>m. e = SchemaValidationError m"
  "parse_json_entries kvs n = Inl e \<Longrightarrow> \<exists>m. e = SchemaValidationError m"
  by (induction v n and vs n i and kvs n rule: parse_json_value_parse_json_items_parse_json_entries.induct)
    (auto simp: res_simps)

text \<open>
  An event whose type is the name of an inherited function stops the harness projection
  for good. Once the projection has reached such an event, every further attempt fails with a
  schema error, whatever its fuel, and leaves the store, and so the cursor, where it was.
\<close>

theorem inherited_event_type_stops_projection:
  assumes "total_preorder (locale_le h)" and "reachable_store h st"
    and "in_sync h s ''harness-state'' i (harness_seed i (run_entry h s st i)) harness_reduce k st"
    and "k < length (stream_events h s i st)" and "\<forall>j < k. plain_type (ev_type (stream_events h s i st ! j))"
    and "ev_type (stream_events h s i st ! k) \<in> set object_prototype_keys - {''__proto__''}"
  shows "\<exists>m. project_harness_state (Suc fuel) (in_memory h s) i st = Some (Inl (SchemaValidationError m), st)"
proof -
  let ?es = "stream_events h s i st" and ?seed = "harness_seed i (run_entry h s st i)"
  let ?state = "foldl harness_reduce ?seed (take k ?es)"
  note log = reachable_log_ok [OF assms(2)] and ok = reachable_store_ok [OF assms(1,2)]
  have "harness_state ?state (foldl next_status ''queued'' (map ev_type (take k ?es)))"
    using assms(5) by (intro harness_fold harness_seed_state) (auto simp: in_set_conv_nth)
  then have json: "is_json ?state" by (rule harness_state_json)
  have json0: "is_json ?seed" by (rule harness_state_json [OF harness_seed_state])
  have fails: "\<not> is_json (harness_reduce ?state (?es ! k))"
    using inherited_status assms(6) by (intro reduce_function_status) auto
  obtain err where err: "parse_json_value (harness_reduce ?state (?es ! k)) ''ProjectionCommit.state'' = Inl err"
    using fails by (cases "parse_json_value (harness_reduce ?state (?es ! k)) ''ProjectionCommit.state''") (auto simp: parse_json_value_iff)
  have drop: "drop k ?es = ?es ! k # drop (Suc k) ?es" by (rule Cons_nth_drop_Suc [OF assms(4), symmetric])
  have "project_next (in_memory h s) ''harness-state'' i ?seed harness_reduce st = (Inl err, st)"
    by (simp add: project_next_start [OF log assms(3) json json0] drop act_bind_def commit_next_event [OF log assms(3,4)] err)
  with json_error(1) [OF err] show ?thesis
    by (auto simp: project_harness_state_def Let_def get_command_entry [OF ok])
qed

lemma inherited_event_type_stops_projection_witness:
  "\<exists>m. project_harness_state 5 (in_memory demo_host demo_scope) ''r'' (demo_run_with ''toString'')
     = Some (Inl (SchemaValidationError m), demo_run_with ''toString'')"
proof -
  have "''toString'' \<in> set object_prototype_keys - {''__proto__''}" by (simp add: object_prototype_keys_def)
  with inherited_event_type_stops_projection [OF total_preorder_demo_host demo_run_with_facts(1) [OF demo_blank(3)]
      demo_unprojected [OF demo_blank(3)], where fuel = 4]
  show ?thesis by (simp add: demo_run_stream demo_blank)
qed

end
