(* ===== verification/Memory.thy ===== *)
theory Memory
  imports RunProperties
begin

text \<open>
  Channel memory (\<open>harness-v2/src/memory-events.ts\<close>, \<open>memory-projection.ts\<close>):
  memories are proposed, edited, decided and deleted by events of one stream per channel, every
  question is answered by scanning that stream, and a channel may read another channel's memories
  while a grant of that channel stands.
\<close>

section \<open>Events\<close>

definition memory_stream :: string where
  "memory_stream = ''channel-memory''"

record stored_candidate =
  sc_id :: string
  sc_content :: string
  sc_run :: string
  sc_events :: "string list"

text \<open>A decision or deletion: \<open>StoredAcceptance\<close>, \<open>StoredDeletion\<close>, \<open>StoredCandidateDeletion\<close>.\<close>

record stored_decision =
  de_id :: string
  de_actor :: string
  de_event :: string
  de_at :: string

text \<open>\<open>StoredEdit\<close> and \<open>StoredCandidateEdit\<close>.\<close>

record stored_edit =
  ed_id :: string
  ed_content :: string
  ed_actor :: string
  ed_event :: string
  ed_at :: string

record stored_grant =
  gr_id :: string
  gr_target :: string
  gr_actor :: string
  gr_event :: string
  gr_at :: string

record stored_revocation =
  rv_id :: string
  rv_target :: string
  rv_actor :: string

definition read_memory_events :: "'s channel_ops \<Rightarrow> ('s, js_error, canonical_event list) action" where
  "read_memory_events ops = co_read ops memory_stream None"

definition next_sequence :: "canonical_event list \<Rightarrow> int" where
  "next_sequence es = foldl (\<lambda>n e. max n (ev_seq e + 1)) 0 es"

definition string_items :: "js \<Rightarrow> string list option" where
  "string_items v =
     (case v of JArr xs \<Rightarrow> if list_all (\<lambda>x. as_string x \<noteq> None) xs then Some (List.map_filter as_string xs) else None
      | _ \<Rightarrow> None)"

definition proposed_candidate :: "canonical_event \<Rightarrow> stored_candidate option" where
  "proposed_candidate e =
     (if ev_type e \<noteq> ''memory.candidate.proposed'' then None
      else case (string_field (ev_payload e) ''candidateId'', string_field (ev_payload e) ''content'',
                 string_field (ev_payload e) ''sourceRunId'',
                 string_items (js_field (record_or_empty (ev_payload e)) ''sourceEventIds'')) of
        (Some i, Some c, Some r, Some es) \<Rightarrow> Some \<lparr>sc_id = i, sc_content = c, sc_run = r, sc_events = es\<rparr>
      | _ \<Rightarrow> None)"

text \<open>\<open>candidateDecision\<close> and the two deletions: an identifier and an actor.\<close>

definition decision_event :: "string \<Rightarrow> string \<Rightarrow> canonical_event \<Rightarrow> stored_decision option" where
  "decision_event ty key e =
     (if ev_type e \<noteq> ty then None
      else case (string_field (ev_payload e) key, string_field (ev_payload e) ''actorId'') of
        (Some i, Some a) \<Rightarrow> Some \<lparr>de_id = i, de_actor = a, de_event = ev_id e, de_at = ev_timestamp e\<rparr>
      | _ \<Rightarrow> None)"

definition accepted_candidate :: "canonical_event \<Rightarrow> stored_decision option" where
  "accepted_candidate = decision_event ''memory.accepted'' ''candidateId''"

definition rejected_candidate :: "canonical_event \<Rightarrow> stored_decision option" where
  "rejected_candidate = decision_event ''memory.rejected'' ''candidateId''"

definition deleted_memory_event :: "canonical_event \<Rightarrow> stored_decision option" where
  "deleted_memory_event = decision_event ''memory.deleted'' ''memoryId''"

definition deleted_candidate :: "canonical_event \<Rightarrow> stored_decision option" where
  "deleted_candidate = decision_event ''memory.candidate.deleted'' ''candidateId''"

definition edit_event :: "string \<Rightarrow> string \<Rightarrow> canonical_event \<Rightarrow> stored_edit option" where
  "edit_event ty key e =
     (if ev_type e \<noteq> ty then None
      else case (string_field (ev_payload e) key, string_field (ev_payload e) ''content'',
                 string_field (ev_payload e) ''actorId'') of
        (Some i, Some c, Some a) \<Rightarrow>
          Some \<lparr>ed_id = i, ed_content = c, ed_actor = a, ed_event = ev_id e, ed_at = ev_timestamp e\<rparr>
      | _ \<Rightarrow> None)"

definition edited_memory :: "canonical_event \<Rightarrow> stored_edit option" where
  "edited_memory = edit_event ''memory.edited'' ''memoryId''"

definition edited_candidate :: "canonical_event \<Rightarrow> stored_edit option" where
  "edited_candidate = edit_event ''memory.candidate.edited'' ''candidateId''"

definition non_empty_field :: "js \<Rightarrow> string \<Rightarrow> string option" where
  "non_empty_field payload k = (case string_field payload k of Some (c # cs) \<Rightarrow> Some (c # cs) | _ \<Rightarrow> None)"

definition workspace_read_granted :: "canonical_event \<Rightarrow> stored_grant option" where
  "workspace_read_granted e =
     (if ev_type e \<noteq> ''memory.workspace_read.granted'' then None
      else case (non_empty_field (ev_payload e) ''grantId'', non_empty_field (ev_payload e) ''targetChannelId'',
                 non_empty_field (ev_payload e) ''actorId'') of
        (Some i, Some t, Some a) \<Rightarrow>
          Some \<lparr>gr_id = i, gr_target = t, gr_actor = a, gr_event = ev_id e, gr_at = ev_timestamp e\<rparr>
      | _ \<Rightarrow> None)"

definition workspace_read_revoked :: "canonical_event \<Rightarrow> stored_revocation option" where
  "workspace_read_revoked e =
     (if ev_type e \<noteq> ''memory.workspace_read.revoked'' then None
      else case (non_empty_field (ev_payload e) ''grantId'', non_empty_field (ev_payload e) ''targetChannelId'',
                 non_empty_field (ev_payload e) ''actorId'') of
        (Some i, Some t, Some a) \<Rightarrow> Some \<lparr>rv_id = i, rv_target = t, rv_actor = a\<rparr>
      | _ \<Rightarrow> None)"

section \<open>Projection\<close>

text \<open>\<open>toLowerCase\<close> and the classes \<open>\p{L}\<close>, \<open>\p{N}\<close> on Latin-1.\<close>

definition lower_char :: "char \<Rightarrow> char" where
  "lower_char c = (let n = of_char c :: nat in
     if 65 \<le> n \<and> n \<le> 90 \<or> 192 \<le> n \<and> n \<le> 222 \<and> n \<noteq> 215 then char_of (n + 32) else c)"

definition to_lower :: "string \<Rightarrow> string" where
  "to_lower s = map lower_char s"

definition is_word_char :: "char \<Rightarrow> bool" where
  "is_word_char c = (let n = of_char c :: nat in
     48 \<le> n \<and> n \<le> 57 \<or> 65 \<le> n \<and> n \<le> 90 \<or> 97 \<le> n \<and> n \<le> 122
     \<or> n \<in> {170, 178, 179, 181, 185, 186, 188, 189, 190} \<or> 192 \<le> n \<and> n \<noteq> 215 \<and> n \<noteq> 247)"

text \<open>The parts between separators: \<open>split(/[^\p{L}\p{N}]+/u)\<close> without its empty parts.\<close>

fun word_parts :: "string \<Rightarrow> string \<Rightarrow> string list" where
  "word_parts acc [] = [rev acc]"
| "word_parts acc (c # cs) =
     (if is_word_char c then word_parts (c # acc) cs else rev acc # word_parts [] cs)"

definition memory_stop_words :: "string list" where
  "memory_stop_words =
     [''a'', ''an'', ''and'', ''are'', ''as'', ''at'', ''be'', ''before'', ''by'', ''for'', ''from'', ''in'',
      ''into'', ''is'', ''it'', ''of'', ''on'', ''or'', ''the'', ''to'', ''with'']"

definition memory_query_tokens :: "string \<Rightarrow> string list" where
  "memory_query_tokens text =
     filter (\<lambda>t. t \<noteq> [] \<and> t \<notin> set memory_stop_words) (word_parts [] (to_lower text))"

text \<open>\<open>s.includes(t)\<close>.\<close>

fun text_includes :: "string \<Rightarrow> string \<Rightarrow> bool" where
  "text_includes [] t = (t = [])"
| "text_includes (c # cs) t = (starts_with (c # cs) t \<or> text_includes cs t)"

record accepted_memory_entry =
  am_id :: string
  am_content :: string
  am_run :: string
  am_events :: "string list"
  am_scope :: scope
  am_accepted :: stored_decision
  am_edit :: "stored_edit option"
  am_grant :: "stored_grant option"

definition candidate_by_id :: "canonical_event list \<Rightarrow> string \<Rightarrow> stored_candidate option" where
  "candidate_by_id es i = find_map (\<lambda>e. case proposed_candidate e of
     Some c \<Rightarrow> if sc_id c = i then Some c else None | None \<Rightarrow> None) es"

fun decision_for_candidate :: "canonical_event list \<Rightarrow> string \<Rightarrow> stored_decision option" where
  "decision_for_candidate [] i = None"
| "decision_for_candidate (e # es) i =
     (let decided = (case accepted_candidate e of Some d \<Rightarrow> Some d | None \<Rightarrow> rejected_candidate e) in
      if map_option de_id decided = Some i then decided
      else if map_option de_id (deleted_candidate e) = Some i then deleted_candidate e
      else decision_for_candidate es i)"

fun accepted_memory :: "canonical_event list \<Rightarrow> string \<Rightarrow> stored_decision option" where
  "accepted_memory [] i = None"
| "accepted_memory (e # es) i =
     (if map_option de_id (accepted_candidate e) = Some i then accepted_candidate e
      else if map_option de_id (rejected_candidate e) = Some i then None
      else accepted_memory es i)"

text \<open>The loops that keep the last match.\<close>

definition deleted_memory :: "canonical_event list \<Rightarrow> string \<Rightarrow> stored_decision option" where
  "deleted_memory es i = foldl (\<lambda>found e.
     if map_option de_id (deleted_memory_event e) = Some i then deleted_memory_event e else found) None es"

definition candidate_deletion :: "canonical_event list \<Rightarrow> string \<Rightarrow> stored_decision option" where
  "candidate_deletion es i = find_map (\<lambda>e.
     if map_option de_id (deleted_candidate e) = Some i then deleted_candidate e else None) es"

definition latest_edited_memory :: "canonical_event list \<Rightarrow> string \<Rightarrow> stored_edit option" where
  "latest_edited_memory es i = foldl (\<lambda>found e.
     if map_option ed_id (edited_memory e) = Some i then edited_memory e else found) None es"

definition latest_edited_candidate :: "canonical_event list \<Rightarrow> string \<Rightarrow> stored_edit option" where
  "latest_edited_candidate es i = foldl (\<lambda>found e.
     if map_option ed_id (edited_candidate e) = Some i then edited_candidate e else found) None es"

definition current_edit :: "canonical_event list \<Rightarrow> string \<Rightarrow> stored_edit option" where
  "current_edit es i = (case latest_edited_memory es i of Some x \<Rightarrow> Some x | None \<Rightarrow> latest_edited_candidate es i)"

definition retrieve_event :: "canonical_event list \<Rightarrow> scope \<Rightarrow> string list \<Rightarrow> canonical_event \<Rightarrow> accepted_memory_entry list" where
  "retrieve_event es s tokens e =
     (case proposed_candidate e of
        None \<Rightarrow> []
      | Some c \<Rightarrow>
        let edit = current_edit es (sc_id c);
            content = (case edit of Some x \<Rightarrow> ed_content x | None \<Rightarrow> sc_content c) in
        case accepted_memory es (sc_id c) of
          None \<Rightarrow> []
        | Some a \<Rightarrow>
          if deleted_memory es (sc_id c) \<noteq> None \<or> \<not> list_all (\<lambda>t. text_includes (to_lower content) t) tokens then []
          else [\<lparr>am_id = sc_id c, am_content = content, am_run = sc_run c, am_events = sc_events c, am_scope = s,
                 am_accepted = a, am_edit = edit, am_grant = None\<rparr>])"

definition retrieve_accepted_memories :: "canonical_event list \<Rightarrow> scope \<Rightarrow> string list \<Rightarrow> accepted_memory_entry list" where
  "retrieve_accepted_memories es s tokens =
     (if tokens = [] then [] else concat (map (retrieve_event es s tokens) es))"

definition workspace_read_grant_by_id :: "canonical_event list \<Rightarrow> string \<Rightarrow> stored_grant option" where
  "workspace_read_grant_by_id es i = find_map (\<lambda>e. case workspace_read_granted e of
     Some g \<Rightarrow> if gr_id g = i then Some g else None | None \<Rightarrow> None) es"

text \<open>\<open>flatMap\<close> with the events before and after each event.\<close>

fun active_grants_from :: "canonical_event list \<Rightarrow> canonical_event list \<Rightarrow> stored_grant list" where
  "active_grants_from before [] = []"
| "active_grants_from before (e # later) =
     (case workspace_read_granted e of
        None \<Rightarrow> []
      | Some g \<Rightarrow>
          if list_ex (\<lambda>x. map_option gr_id (workspace_read_granted x) = Some (gr_id g)) before
             \<or> list_ex (\<lambda>x. case workspace_read_revoked x of
                 None \<Rightarrow> False | Some r \<Rightarrow> rv_id r = gr_id g \<and> rv_target r = gr_target g) later
          then [] else [g])
     @ active_grants_from (before @ [e]) later"

definition active_workspace_read_grants :: "canonical_event list \<Rightarrow> stored_grant list" where
  "active_workspace_read_grants es = active_grants_from [] es"

record deleted_entry =
  dm_candidate :: stored_candidate
  dm_scope :: scope
  dm_accepted :: "stored_decision option"
  dm_deletion :: stored_decision

definition deleted_channel_memory :: "canonical_event list \<Rightarrow> scope \<Rightarrow> string \<Rightarrow> deleted_entry option" where
  "deleted_channel_memory es s i =
     (case (candidate_by_id es i, accepted_memory es i, deleted_memory es i) of
        (Some c, Some a, Some d) \<Rightarrow> Some \<lparr>dm_candidate = c, dm_scope = s, dm_accepted = Some a, dm_deletion = d\<rparr>
      | _ \<Rightarrow> None)"

definition deleted_memory_candidate :: "canonical_event list \<Rightarrow> scope \<Rightarrow> string \<Rightarrow> deleted_entry option" where
  "deleted_memory_candidate es s i =
     (case (candidate_by_id es i, candidate_deletion es i) of
        (Some c, Some d) \<Rightarrow>
          if map_option de_event (decision_for_candidate es i) \<noteq> Some (de_event d) then None
          else Some \<lparr>dm_candidate = c, dm_scope = s, dm_accepted = None, dm_deletion = d\<rparr>
      | _ \<Rightarrow> None)"

end
