(* ===== verification/MemoryRepository.thy ===== *)
theory MemoryRepository
  imports Memory
begin

text \<open>
  The memory repository (\<open>harness-v2/src/memory-repository.ts\<close>): every operation checks its
  arguments and the owner, reads the memory stream of the channel, decides on what it read, and
  appends one event under the next number of that stream, which the store refuses when another
  client was faster.
\<close>

section \<open>The repository\<close>

text \<open>
  What \<open>createChannelMemoryRepository\<close> closes over: the parsed scope, the memory policy of the
  profile, the owner check (a service outside the sources: its verdict is a parameter) and the
  store, scoped to any channel of the workspace.
\<close>

record 's memory_repo =
  mr_scope :: scope
  mr_policy :: memory_policy
  mr_owner :: "scope \<Rightarrow> string \<Rightarrow> unit parsed"
  mr_store :: "scope \<Rightarrow> 's channel_ops"

definition create_memory_repository ::
    "host \<Rightarrow> (scope \<Rightarrow> 's channel_ops) \<Rightarrow> (scope \<Rightarrow> string \<Rightarrow> unit parsed) \<Rightarrow> js \<Rightarrow> js \<Rightarrow> 's memory_repo parsed" where
  "create_memory_repository h store owner scope_input snapshot_input =
     r_bind (parse_channel_scope scope_input) (\<lambda>s.
     r_bind (parse_resolved_profile h snapshot_input) (\<lambda>p.
     Inr \<lparr>mr_scope = s, mr_policy = rp_memory p, mr_owner = owner, mr_store = store\<rparr>))"

definition mr_ops :: "'s memory_repo \<Rightarrow> 's channel_ops" where
  "mr_ops repo = mr_store repo (mr_scope repo)"

text \<open>\<open>appendMemoryEvent\<close>; \<open>stamp\<close> is the fresh event identifier and the time.\<close>

definition memory_event :: "scope \<Rightarrow> string \<times> string \<Rightarrow> string \<Rightarrow> int \<Rightarrow> string \<Rightarrow> js \<Rightarrow> canonical_event" where
  "memory_event s stamp stream n ty payload =
     \<lparr>ev_id = fst stamp, ev_scope = s, ev_stream = stream, ev_seq = n, ev_type = ty, ev_timestamp = snd stamp,
      ev_schema_version = 1, ev_payload = payload\<rparr>"

definition append_memory_event ::
    "'s memory_repo \<Rightarrow> string \<times> string \<Rightarrow> canonical_event list \<Rightarrow> string \<Rightarrow> (string \<times> js) list \<Rightarrow> ('s, js_error, unit) action" where
  "append_memory_event repo stamp events ty payload =
     co_append (mr_ops repo) (memory_event (mr_scope repo) stamp memory_stream (next_sequence events) ty (JObj payload))"

definition non_empty_string :: "string \<Rightarrow> string \<Rightarrow> string parsed" where
  "non_empty_string v name = (if v = [] then Inl (PlainError (name @ '' must be a non-empty string'')) else Inr v)"

definition provenance_unavailable :: js_error where
  "provenance_unavailable = PlainError ''Memory candidate provenance is unavailable''"

definition assert_candidate_provenance ::
    "'s channel_ops \<Rightarrow> string \<Rightarrow> string list \<Rightarrow> ('s, js_error, start_run) action" where
  "assert_candidate_provenance ops run_id event_ids =
     (if run_id = [] \<or> event_ids = [] \<or> [] \<in> set event_ids then act_throw provenance_unavailable
      else act_bind (co_get_run_command ops run_id) (\<lambda>found.
        case found of
          None \<Rightarrow> act_throw provenance_unavailable
        | Some source \<Rightarrow> act_bind (co_read ops run_id None) (\<lambda>events.
            if list_all (\<lambda>i. i \<in> set (map ev_id events)) event_ids then act_return source
            else act_throw provenance_unavailable)))"

definition assert_undecided :: "canonical_event list \<Rightarrow> string \<Rightarrow> unit parsed" where
  "assert_undecided es i =
     (if candidate_by_id es i = None then Inl (PlainError ''Memory candidate was not found'')
      else if decision_for_candidate es i \<noteq> None then Inl (PlainError ''Memory candidate has already been decided'')
      else Inr ())"

definition assert_active :: "canonical_event list \<Rightarrow> string \<Rightarrow> unit parsed" where
  "assert_active es i =
     (if accepted_memory es i = None then Inl (PlainError ''Channel Memory was not found'')
      else if deleted_memory es i \<noteq> None then Inl (PlainError ''Channel Memory has been deleted'')
      else Inr ())"

definition mr_propose ::
    "'s memory_repo \<Rightarrow> string \<times> string \<Rightarrow> string \<Rightarrow> string \<Rightarrow> string \<Rightarrow> string list \<Rightarrow> ('s, js_error, unit) action" where
  "mr_propose repo stamp i content run_id event_ids =
     (if mem_write (mr_policy repo) \<noteq> ''propose'' then act_throw (PlainError ''Memory writes are disabled by the RunProfile'')
      else let ids = js_dedup event_ids in
      act_bind (assert_candidate_provenance (mr_ops repo) run_id ids) (\<lambda>source.
      if mem_write (rp_memory (rf_snapshot (sr_fields source))) \<noteq> ''propose''
      then act_throw (PlainError ''Memory writes are disabled by the source RunProfile'')
      else act_bind (act_lift (parse_memory_candidate (JObj ([(''id'', JStr i)] @ scope_fields (mr_scope repo)
          @ [(''content'', JStr content), (''sourceEventIds'', js_strings ids)])))) (\<lambda>candidate.
      act_bind (read_memory_events (mr_ops repo)) (\<lambda>events.
      if candidate_by_id events (mc_id candidate) \<noteq> None then act_throw (PlainError ''Memory candidate already exists'')
      else append_memory_event repo stamp events ''memory.candidate.proposed''
        [(''candidateId'', JStr (mc_id candidate)), (''content'', JStr (mc_content candidate)),
         (''sourceRunId'', JStr run_id), (''sourceEventIds'', js_strings (mc_sources candidate))]))))"

text \<open>What every owner operation does first.\<close>

definition as_owner :: "'s memory_repo \<Rightarrow> string \<Rightarrow> ('s, js_error, 'a) action \<Rightarrow> ('s, js_error, 'a) action" where
  "as_owner repo actor m =
     act_bind (act_lift (non_empty_string actor ''actorId'')) (\<lambda>a.
     act_bind (act_lift (mr_owner repo (mr_scope repo) a)) (\<lambda>_. m))"

definition mr_edit_candidate :: "'s memory_repo \<Rightarrow> string \<times> string \<Rightarrow> string \<Rightarrow> string \<Rightarrow> string \<Rightarrow> ('s, js_error, unit) action" where
  "mr_edit_candidate repo stamp i content actor = as_owner repo actor (
     act_bind (act_lift (non_empty_string i ''candidateId'')) (\<lambda>i.
     act_bind (act_lift (non_empty_string content ''content'')) (\<lambda>content.
     act_bind (read_memory_events (mr_ops repo)) (\<lambda>events.
     act_bind (act_lift (assert_undecided events i)) (\<lambda>_.
     append_memory_event repo stamp events ''memory.candidate.edited''
       [(''candidateId'', JStr i), (''content'', JStr content), (''actorId'', JStr actor)])))))"

text \<open>\<open>deleteCandidate\<close>, \<open>accept\<close> and \<open>reject\<close> differ in the event they append.\<close>

definition mr_decide :: "'s memory_repo \<Rightarrow> string \<times> string \<Rightarrow> string \<Rightarrow> string \<Rightarrow> string \<Rightarrow> ('s, js_error, unit) action" where
  "mr_decide repo stamp ty i actor = as_owner repo actor (
     act_bind (act_lift (non_empty_string i ''candidateId'')) (\<lambda>i.
     act_bind (read_memory_events (mr_ops repo)) (\<lambda>events.
     act_bind (act_lift (assert_undecided events i)) (\<lambda>_.
     append_memory_event repo stamp events ty [(''candidateId'', JStr i), (''actorId'', JStr actor)]))))"

definition mr_delete_candidate :: "'s memory_repo \<Rightarrow> string \<times> string \<Rightarrow> string \<Rightarrow> string \<Rightarrow> ('s, js_error, unit) action" where
  "mr_delete_candidate repo stamp = mr_decide repo stamp ''memory.candidate.deleted''"

definition mr_accept :: "'s memory_repo \<Rightarrow> string \<times> string \<Rightarrow> string \<Rightarrow> string \<Rightarrow> ('s, js_error, unit) action" where
  "mr_accept repo stamp = mr_decide repo stamp ''memory.accepted''"

definition mr_reject :: "'s memory_repo \<Rightarrow> string \<times> string \<Rightarrow> string \<Rightarrow> string \<Rightarrow> ('s, js_error, unit) action" where
  "mr_reject repo stamp = mr_decide repo stamp ''memory.rejected''"

definition mr_edit :: "'s memory_repo \<Rightarrow> string \<times> string \<Rightarrow> string \<Rightarrow> string \<Rightarrow> string \<Rightarrow> ('s, js_error, unit) action" where
  "mr_edit repo stamp i content actor = as_owner repo actor (
     act_bind (act_lift (non_empty_string i ''memoryId'')) (\<lambda>i.
     act_bind (act_lift (non_empty_string content ''content'')) (\<lambda>content.
     act_bind (read_memory_events (mr_ops repo)) (\<lambda>events.
     act_bind (act_lift (assert_active events i)) (\<lambda>_.
     append_memory_event repo stamp events ''memory.edited''
       [(''memoryId'', JStr i), (''content'', JStr content), (''actorId'', JStr actor)])))))"

definition mr_delete :: "'s memory_repo \<Rightarrow> string \<times> string \<Rightarrow> string \<Rightarrow> string \<Rightarrow> ('s, js_error, unit) action" where
  "mr_delete repo stamp i actor = as_owner repo actor (
     act_bind (act_lift (non_empty_string i ''memoryId'')) (\<lambda>i.
     act_bind (read_memory_events (mr_ops repo)) (\<lambda>events.
     act_bind (act_lift (assert_active events i)) (\<lambda>_.
     append_memory_event repo stamp events ''memory.deleted'' [(''memoryId'', JStr i), (''actorId'', JStr actor)]))))"

definition mr_grant :: "'s memory_repo \<Rightarrow> string \<times> string \<Rightarrow> string \<Rightarrow> string \<Rightarrow> string \<Rightarrow> ('s, js_error, unit) action" where
  "mr_grant repo stamp grant_id target actor = as_owner repo actor (
     act_bind (act_lift (non_empty_string grant_id ''grantId'')) (\<lambda>grant_id.
     act_bind (act_lift (non_empty_string target ''targetChannelId'')) (\<lambda>target.
     if target = sc_channel (mr_scope repo) then act_throw (PlainError ''Workspace Memory grants must target another Channel'')
     else act_bind (read_memory_events (mr_ops repo)) (\<lambda>events.
     if workspace_read_grant_by_id events grant_id \<noteq> None then act_throw (PlainError ''Workspace Memory grant already exists'')
     else append_memory_event repo stamp events ''memory.workspace_read.granted''
       [(''grantId'', JStr grant_id), (''targetChannelId'', JStr target), (''actorId'', JStr actor)]))))"

definition mr_revoke :: "'s memory_repo \<Rightarrow> string \<times> string \<Rightarrow> string \<Rightarrow> string \<Rightarrow> ('s, js_error, unit) action" where
  "mr_revoke repo stamp grant_id actor = as_owner repo actor (
     act_bind (act_lift (non_empty_string grant_id ''grantId'')) (\<lambda>grant_id.
     act_bind (read_memory_events (mr_ops repo)) (\<lambda>events.
     case find (\<lambda>g. gr_id g = grant_id) (active_workspace_read_grants events) of
       None \<Rightarrow> act_throw (PlainError ''Workspace Memory grant was not found'')
     | Some g \<Rightarrow> append_memory_event repo stamp events ''memory.workspace_read.revoked''
         [(''grantId'', JStr grant_id), (''targetChannelId'', JStr (gr_target g)), (''actorId'', JStr actor)])))"

definition mr_inspect :: "'s memory_repo \<Rightarrow> string \<Rightarrow> ('s, js_error, deleted_entry option) action" where
  "mr_inspect repo i =
     act_bind (act_lift (non_empty_string i ''memoryId'')) (\<lambda>i.
     act_bind (read_memory_events (mr_ops repo)) (\<lambda>events.
     act_return (deleted_channel_memory events (mr_scope repo) i)))"

definition mr_inspect_candidate :: "'s memory_repo \<Rightarrow> string \<Rightarrow> ('s, js_error, deleted_entry option) action" where
  "mr_inspect_candidate repo i =
     act_bind (act_lift (non_empty_string i ''candidateId'')) (\<lambda>i.
     act_bind (read_memory_events (mr_ops repo)) (\<lambda>events.
     act_return (deleted_memory_candidate events (mr_scope repo) i)))"

text \<open>The memories reachable through the grants a retrieval names: pairs of grant and source channel.\<close>

fun granted_memories ::
    "'s memory_repo \<Rightarrow> string list \<Rightarrow> (string \<times> string) list \<Rightarrow> ('s, js_error, accepted_memory_entry list) action" where
  "granted_memories repo tokens [] = act_return []"
| "granted_memories repo tokens ((grant_id, source) # refs) =
     (if grant_id = [] \<or> source = [] \<or> source = sc_channel (mr_scope repo) then granted_memories repo tokens refs
      else act_bind (act_lift (parse_channel_scope (scope_js \<lparr>sc_workspace = sc_workspace (mr_scope repo), sc_channel = source\<rparr>))) (\<lambda>s.
      act_bind (read_memory_events (mr_store repo s)) (\<lambda>events.
      case find (\<lambda>g. gr_id g = grant_id \<and> gr_target g = sc_channel (mr_scope repo)) (active_workspace_read_grants events) of
        None \<Rightarrow> granted_memories repo tokens refs
      | Some g \<Rightarrow> act_bind (granted_memories repo tokens refs) (\<lambda>rest.
          act_return (map (\<lambda>m. m\<lparr>am_grant := Some g\<rparr>) (retrieve_accepted_memories events s tokens) @ rest)))))"

definition hit_payload :: "nat \<Rightarrow> accepted_memory_entry \<Rightarrow> js" where
  "hit_payload rank m = JObj (
     [(''memoryId'', JStr (am_id m)), (''sourceWorkspaceId'', JStr (sc_workspace (am_scope m))),
      (''sourceChannelId'', JStr (sc_channel (am_scope m))), (''sourceRunId'', JStr (am_run m)),
      (''sourceEventIds'', js_strings (am_events m)), (''acceptedEventId'', JStr (de_event (am_accepted m))),
      (''rank'', JNum (of_nat rank))]
     @ opt_field ''workspaceGrantId'' (JStr \<circ> gr_id) (am_grant m)
     @ opt_field ''grantEventId'' (JStr \<circ> gr_event) (am_grant m))"

text \<open>One \<open>memory.hit\<close> per memory, in order; \<open>stamp\<close> is called for each.\<close>

fun append_hits ::
    "'s memory_repo \<Rightarrow> (nat \<Rightarrow> string \<times> string) \<Rightarrow> string \<Rightarrow> int \<Rightarrow> nat \<Rightarrow> accepted_memory_entry list \<Rightarrow> ('s, js_error, unit) action" where
  "append_hits repo stamp run_id n i [] = act_return ()"
| "append_hits repo stamp run_id n i (m # ms) = act_seq
     (co_append (mr_ops repo) (memory_event (mr_scope repo) (stamp i) run_id n ''memory.hit'' (hit_payload (Suc i) m)))
     (append_hits repo stamp run_id (n + 1) (Suc i) ms)"

text \<open>The command of the run a retrieval names; \<open>nonEmptyString\<close> and the claim are checked.\<close>

definition retrieval_run :: "'s memory_repo \<Rightarrow> string option \<Rightarrow> ('s, js_error, start_run option) action" where
  "retrieval_run repo run_id =
     (case run_id of
        None \<Rightarrow> act_return None
      | Some i \<Rightarrow>
          act_bind (act_lift (non_empty_string i ''runId'')) (\<lambda>i.
          act_bind (co_get_run_command (mr_ops repo) i) (\<lambda>found.
          case found of
            None \<Rightarrow> act_throw (PlainError ''Run was not claimed'')
          | Some c \<Rightarrow> act_return (Some c))))"

text \<open>
  The end of a retrieval. Its query is a string and its limit an integer by their types, so two of
  the checks of its arguments have no counterpart.
\<close>

definition record_hits ::
    "'s memory_repo \<Rightarrow> (nat \<Rightarrow> string \<times> string) \<Rightarrow> string option \<Rightarrow> accepted_memory_entry list \<Rightarrow>
     ('s, js_error, accepted_memory_entry list) action" where
  "record_hits repo stamp run_id memories =
     (case run_id of
        None \<Rightarrow> act_return memories
      | Some i \<Rightarrow> act_bind (co_read (mr_ops repo) i None) (\<lambda>run_events.
          if \<not> list_ex (\<lambda>e. ev_type e = ''run.started'') run_events
          then act_throw (PlainError ''Run has not started'')
          else act_seq (append_hits repo stamp i (next_sequence run_events) 0 memories) (act_return memories)))"

definition mr_retrieve ::
    "'s memory_repo \<Rightarrow> (nat \<Rightarrow> string \<times> string) \<Rightarrow> string \<Rightarrow> int \<Rightarrow> string option \<Rightarrow> (string \<times> string) list \<Rightarrow>
     ('s, js_error, accepted_memory_entry list) action" where
  "mr_retrieve repo stamp query limit run_id refs =
     (if limit < 1 \<or> 32 < limit
      then act_throw (PlainError ''Memory retrieval limit must be a positive integer no greater than 32'')
      else if mem_read (mr_policy repo) = ''none''
      then act_throw (PlainError ''Memory reads are disabled by the RunProfile'')
      else act_bind (retrieval_run repo run_id) (\<lambda>command.
      if (case command of None \<Rightarrow> False | Some c \<Rightarrow> mem_read (rp_memory (rf_snapshot (sr_fields c))) = ''none'')
      then act_throw (PlainError ''Memory reads are disabled by the RunProfile'')
      else act_bind (read_memory_events (mr_ops repo)) (\<lambda>events.
      let tokens = memory_query_tokens query in
      act_bind (granted_memories repo tokens refs) (\<lambda>granted.
      record_hits repo stamp run_id
        (take (nat limit) (retrieve_accepted_memories events (mr_scope repo) tokens @ granted))))))"

end
