(* ===== verification/MemoryLifecycle.thy ===== *)
theory MemoryLifecycle
  imports MemoryRepository
begin

text \<open>
  The life cycle of a memory as a state machine over the events of the memory stream, the
  discipline the repository keeps (\<open>legal\<close>: which event may follow which log), the proof that the
  projection's scans compute the machine's state on a disciplined log, and the events other than
  memories in it: grants to read from another channel.
\<close>

section \<open>The life of a memory\<close>

datatype memory_status = Unproposed | Pending string | Active string | Refused | Discarded | Forgotten

text \<open>What one event makes of the memory \<open>i\<close>.\<close>

definition next_memory_status :: "string \<Rightarrow> memory_status \<Rightarrow> canonical_event \<Rightarrow> memory_status" where
  "next_memory_status i st e =
     (case st of
        Unproposed \<Rightarrow> (case proposed_candidate e of Some c \<Rightarrow> if sc_id c = i then Pending (sc_content c) else st | None \<Rightarrow> st)
      | Pending _ \<Rightarrow>
          if map_option de_id (accepted_candidate e) = Some i then (case st of Pending c \<Rightarrow> Active c | _ \<Rightarrow> st)
          else if map_option de_id (rejected_candidate e) = Some i then Refused
          else if map_option de_id (deleted_candidate e) = Some i then Discarded
          else (case edited_candidate e of Some x \<Rightarrow> if ed_id x = i then Pending (ed_content x) else st | None \<Rightarrow> st)
      | Active _ \<Rightarrow>
          if map_option de_id (deleted_memory_event e) = Some i then Forgotten
          else (case edited_memory e of Some x \<Rightarrow> if ed_id x = i then Active (ed_content x) else st | None \<Rightarrow> st)
      | _ \<Rightarrow> st)"

definition memory_status :: "canonical_event list \<Rightarrow> string \<Rightarrow> memory_status" where
  "memory_status es i = foldl (next_memory_status i) Unproposed es"

lemma memory_status_snoc [simp]: "memory_status (es @ [e]) i = next_memory_status i (memory_status es i) e"
  by (simp add: memory_status_def)

text \<open>The events about memories that the repository may append to the log \<open>es\<close>.\<close>

definition legal :: "canonical_event list \<Rightarrow> canonical_event \<Rightarrow> bool" where
  "legal es e \<longleftrightarrow>
     pred_option (\<lambda>c. candidate_by_id es (sc_id c) = None) (proposed_candidate e)
     \<and> pred_option (\<lambda>d. assert_undecided es (de_id d) = Inr ()) (accepted_candidate e)
     \<and> pred_option (\<lambda>d. assert_undecided es (de_id d) = Inr ()) (rejected_candidate e)
     \<and> pred_option (\<lambda>d. assert_undecided es (de_id d) = Inr ()) (deleted_candidate e)
     \<and> pred_option (\<lambda>x. assert_undecided es (ed_id x) = Inr ()) (edited_candidate e)
     \<and> pred_option (\<lambda>x. assert_active es (ed_id x) = Inr ()) (edited_memory e)
     \<and> pred_option (\<lambda>d. assert_active es (de_id d) = Inr ()) (deleted_memory_event e)"

definition disciplined :: "canonical_event list \<Rightarrow> bool" where
  "disciplined es \<longleftrightarrow> list_all (\<lambda>n. legal (take n es) (es ! n)) [0..<length es]"

lemma disciplined_Nil [simp]: "disciplined []"
  by (simp add: disciplined_def)

lemma disciplined_snoc [simp]: "disciplined (es @ [e]) \<longleftrightarrow> disciplined es \<and> legal es e"
  by (auto simp: disciplined_def list_all_iff nth_append)

lemma disciplined_prefix: "disciplined (es @ fs) \<Longrightarrow> disciplined es"
proof (induction fs rule: rev_induct)
  case (snoc f fs)
  then show ?case using disciplined_snoc [of "es @ fs" f] by simp
qed simp

lemma disciplined_legal: "disciplined (es @ e # fs) \<Longrightarrow> legal es e"
  using disciplined_prefix [of "es @ [e]" fs] by simp

section \<open>The scans, one event at a time\<close>

text \<open>Every kind of event answers to one parser only.\<close>

lemmas memory_event_defs = proposed_candidate_def accepted_candidate_def rejected_candidate_def
  deleted_memory_event_def deleted_candidate_def edited_memory_def edited_candidate_def
  decision_event_def edit_event_def

lemma memory_event_type:
  "proposed_candidate e = Some c \<Longrightarrow> ev_type e = ''memory.candidate.proposed''"
  "accepted_candidate e = Some d \<Longrightarrow> ev_type e = ''memory.accepted''"
  "rejected_candidate e = Some d \<Longrightarrow> ev_type e = ''memory.rejected''"
  "deleted_candidate e = Some d \<Longrightarrow> ev_type e = ''memory.candidate.deleted''"
  "deleted_memory_event e = Some d \<Longrightarrow> ev_type e = ''memory.deleted''"
  "edited_candidate e = Some x \<Longrightarrow> ev_type e = ''memory.candidate.edited''"
  "edited_memory e = Some x \<Longrightarrow> ev_type e = ''memory.edited''"
  by (simp_all add: memory_event_defs split: if_splits)

text \<open>The parsers' results on an event of another type.\<close>

lemma other_memory_event:
  "ev_type e \<noteq> ''memory.candidate.proposed'' \<Longrightarrow> proposed_candidate e = None"
  "ev_type e \<noteq> ''memory.accepted'' \<Longrightarrow> accepted_candidate e = None"
  "ev_type e \<noteq> ''memory.rejected'' \<Longrightarrow> rejected_candidate e = None"
  "ev_type e \<noteq> ''memory.candidate.deleted'' \<Longrightarrow> deleted_candidate e = None"
  "ev_type e \<noteq> ''memory.deleted'' \<Longrightarrow> deleted_memory_event e = None"
  "ev_type e \<noteq> ''memory.candidate.edited'' \<Longrightarrow> edited_candidate e = None"
  "ev_type e \<noteq> ''memory.edited'' \<Longrightarrow> edited_memory e = None"
  by (simp_all add: memory_event_defs)

lemma scans_Nil [simp]:
  "candidate_by_id [] i = None" "deleted_memory [] i = None" "candidate_deletion [] i = None"
  "latest_edited_memory [] i = None" "latest_edited_candidate [] i = None"
  by (simp_all add: candidate_by_id_def deleted_memory_def candidate_deletion_def latest_edited_memory_def
      latest_edited_candidate_def)

lemma scans_snoc [simp]:
  "candidate_by_id (es @ [e]) i = (case candidate_by_id es i of Some c \<Rightarrow> Some c
     | None \<Rightarrow> (case proposed_candidate e of Some c \<Rightarrow> if sc_id c = i then Some c else None | None \<Rightarrow> None))"
  "deleted_memory (es @ [e]) i = (if map_option de_id (deleted_memory_event e) = Some i then deleted_memory_event e
     else deleted_memory es i)"
  "candidate_deletion (es @ [e]) i = (case candidate_deletion es i of Some d \<Rightarrow> Some d
     | None \<Rightarrow> if map_option de_id (deleted_candidate e) = Some i then deleted_candidate e else None)"
  "latest_edited_memory (es @ [e]) i = (if map_option ed_id (edited_memory e) = Some i then edited_memory e
     else latest_edited_memory es i)"
  "latest_edited_candidate (es @ [e]) i = (if map_option ed_id (edited_candidate e) = Some i then edited_candidate e
     else latest_edited_candidate es i)"
  by (simp_all add: candidate_by_id_def deleted_memory_def candidate_deletion_def latest_edited_memory_def
      latest_edited_candidate_def find_map_append del: map_option_eq_Some split: option.split)

lemma decision_for_candidate_snoc:
  "decision_for_candidate (es @ [e]) i = (case decision_for_candidate es i of Some d \<Rightarrow> Some d
     | None \<Rightarrow> decision_for_candidate [e] i)"
proof (induction es)
  case (Cons x es)
  then show ?case
    by (simp add: Let_def del: map_option_eq_Some split: option.split)
qed simp

lemma accepted_memory_snoc_first:
  "decision_for_candidate es i = None \<Longrightarrow> accepted_memory (es @ [e]) i = accepted_memory [e] i"
proof (induction es)
  case (Cons x es)
  have "rejected_candidate x = None" if "accepted_candidate x = Some d" for d
    using memory_event_type(2) [OF that] by (simp add: other_memory_event)
  with Cons show ?case
    by (cases "accepted_candidate x") (simp_all add: Let_def del: map_option_eq_Some split: if_splits option.splits)
qed simp

lemma accepted_memory_snoc_other:
  "map_option de_id (accepted_candidate e) \<noteq> Some i \<Longrightarrow> map_option de_id (rejected_candidate e) \<noteq> Some i \<Longrightarrow>
    accepted_memory (es @ [e]) i = accepted_memory es i"
  by (induction es) (simp_all del: map_option_eq_Some)


lemma memory_event_cases:
  obtains (proposed) c where "proposed_candidate e = Some c" "accepted_candidate e = None" "rejected_candidate e = None"
      "deleted_candidate e = None" "deleted_memory_event e = None" "edited_candidate e = None" "edited_memory e = None"
  | (accepted) d where "proposed_candidate e = None" "accepted_candidate e = Some d" "rejected_candidate e = None"
      "deleted_candidate e = None" "deleted_memory_event e = None" "edited_candidate e = None" "edited_memory e = None"
  | (rejected) d where "proposed_candidate e = None" "accepted_candidate e = None" "rejected_candidate e = Some d"
      "deleted_candidate e = None" "deleted_memory_event e = None" "edited_candidate e = None" "edited_memory e = None"
  | (discarded) d where "proposed_candidate e = None" "accepted_candidate e = None" "rejected_candidate e = None"
      "deleted_candidate e = Some d" "deleted_memory_event e = None" "edited_candidate e = None" "edited_memory e = None"
  | (deleted) d where "proposed_candidate e = None" "accepted_candidate e = None" "rejected_candidate e = None"
      "deleted_candidate e = None" "deleted_memory_event e = Some d" "edited_candidate e = None" "edited_memory e = None"
  | (candidate_edited) x where "proposed_candidate e = None" "accepted_candidate e = None" "rejected_candidate e = None"
      "deleted_candidate e = None" "deleted_memory_event e = None" "edited_candidate e = Some x" "edited_memory e = None"
  | (memory_edited) x where "proposed_candidate e = None" "accepted_candidate e = None" "rejected_candidate e = None"
      "deleted_candidate e = None" "deleted_memory_event e = None" "edited_candidate e = None" "edited_memory e = Some x"
  | (other) "proposed_candidate e = None" "accepted_candidate e = None" "rejected_candidate e = None"
      "deleted_candidate e = None" "deleted_memory_event e = None" "edited_candidate e = None" "edited_memory e = None"
proof (cases "proposed_candidate e")
  case (Some c)
  with memory_event_type(1) [OF Some] show thesis by (intro proposed) (simp_all add: other_memory_event)
next
  case p: None
  show thesis
  proof (cases "accepted_candidate e")
    case (Some d)
    with memory_event_type(2) [OF Some] show thesis by (intro accepted) (simp_all add: other_memory_event)
  next
    case a: None
    show thesis
    proof (cases "rejected_candidate e")
      case (Some d)
      with memory_event_type(3) [OF Some] show thesis by (intro rejected) (simp_all add: other_memory_event)
    next
      case r: None
      show thesis
      proof (cases "deleted_candidate e")
        case (Some d)
        with memory_event_type(4) [OF Some] show thesis by (intro discarded) (simp_all add: other_memory_event)
      next
        case dc: None
        show thesis
        proof (cases "deleted_memory_event e")
          case (Some d)
          with memory_event_type(5) [OF Some] show thesis by (intro deleted) (simp_all add: other_memory_event)
        next
          case dm: None
          show thesis
          proof (cases "edited_candidate e")
            case (Some x)
            with memory_event_type(6) [OF Some] show thesis by (intro candidate_edited) (simp_all add: other_memory_event)
          next
            case ec: None
            show thesis
              using p a r dc dm ec memory_edited other by (cases "edited_memory e") blast+
          qed
        qed
      qed
    qed
  qed
qed

section \<open>The scans agree with the life cycle\<close>

definition current_content :: "canonical_event list \<Rightarrow> string \<Rightarrow> string option" where
  "current_content es i = (case current_edit es i of Some x \<Rightarrow> Some (ed_content x)
     | None \<Rightarrow> map_option sc_content (candidate_by_id es i))"

text \<open>What the seven scans find for a memory in each state.\<close>

definition scans_agree :: "canonical_event list \<Rightarrow> string \<Rightarrow> memory_status \<Rightarrow> bool" where
  "scans_agree es i st \<longleftrightarrow>
     (candidate_by_id es i = None \<longleftrightarrow> st = Unproposed)
     \<and> (decision_for_candidate es i = None \<longleftrightarrow> (st = Unproposed \<or> (\<exists>c. st = Pending c)))
     \<and> (accepted_memory es i = None \<longleftrightarrow> \<not> (st = Forgotten \<or> (\<exists>c. st = Active c)))
     \<and> (deleted_memory es i = None \<longleftrightarrow> st \<noteq> Forgotten)
     \<and> (candidate_deletion es i = (if st = Discarded then decision_for_candidate es i else None))
     \<and> (latest_edited_memory es i \<noteq> None \<longrightarrow> st = Forgotten \<or> (\<exists>c. st = Active c))
     \<and> (latest_edited_candidate es i \<noteq> None \<longrightarrow> st \<noteq> Unproposed)
     \<and> (\<forall>c. st = Pending c \<or> st = Active c \<longrightarrow> current_content es i = Some c)"

lemma scans_agree_Nil: "scans_agree [] i Unproposed"
  by (simp add: scans_agree_def)

lemma scans_agree_step:
  assumes "scans_agree es i st" "legal es e"
  shows "scans_agree (es @ [e]) i (next_memory_status i st e)"
  using assms unfolding scans_agree_def legal_def assert_undecided_def assert_active_def current_content_def current_edit_def
  by (cases e rule: memory_event_cases; cases st)
    (auto simp: next_memory_status_def decision_for_candidate_snoc accepted_memory_snoc_other accepted_memory_snoc_first
      split: option.splits if_splits)

lemma disciplined_scans: "disciplined es \<Longrightarrow> scans_agree es i (memory_status es i)"
proof (induction es rule: rev_induct)
  case (snoc e es)
  then show ?case by (simp add: scans_agree_step)
qed (simp add: scans_agree_Nil memory_status_def)

lemma undecided_iff_pending:
  "disciplined es \<Longrightarrow> assert_undecided es i = Inr () \<longleftrightarrow> (\<exists>c. memory_status es i = Pending c)"
  using disciplined_scans [of es i] by (auto simp: scans_agree_def assert_undecided_def)

lemma active_iff_status: "disciplined es \<Longrightarrow> assert_active es i = Inr () \<longleftrightarrow> (\<exists>c. memory_status es i = Active c)"
  using disciplined_scans [of es i] by (auto simp: scans_agree_def assert_active_def)

text \<open>Once decided, always decided; once deleted, always deleted, discipline or not.\<close>

lemma decision_stays: "decision_for_candidate es i = Some d \<Longrightarrow> decision_for_candidate (es @ fs) i = Some d"
proof (induction fs rule: rev_induct)
  case (snoc f fs)
  then show ?case using decision_for_candidate_snoc [of "es @ fs" f i] by simp
qed simp

lemma candidate_stays: "candidate_by_id es i = Some c \<Longrightarrow> candidate_by_id (es @ fs) i = Some c"
  by (simp add: candidate_by_id_def find_map_append)

lemma deleted_stays: "deleted_memory es i \<noteq> None \<Longrightarrow> deleted_memory (es @ fs) i \<noteq> None"
proof (induction fs rule: rev_induct)
  case (snoc f fs)
  then show ?case using scans_snoc(2) [of "es @ fs" f i] by (auto split: if_splits)
qed simp

lemma decided_at: "decision_for_candidate [e] i \<noteq> None \<Longrightarrow> decision_for_candidate (es @ e # fs) i \<noteq> None"
  using decision_stays [of "es @ [e]" i _ fs] decision_for_candidate_snoc [of es e i] by (fastforce split: option.splits)

lemma deleted_at: "deleted_memory [e] i \<noteq> None \<Longrightarrow> deleted_memory (es @ e # fs) i \<noteq> None"
  using deleted_stays [of "es @ [e]" i fs] scans_snoc(2) [of "[]" e i] scans_snoc(2) [of es e i] by (auto split: if_splits)

section \<open>Grants\<close>

definition revokes :: "canonical_event \<Rightarrow> stored_grant \<Rightarrow> bool" where
  "revokes e g = (case workspace_read_revoked e of None \<Rightarrow> False | Some r \<Rightarrow> rv_id r = gr_id g \<and> rv_target r = gr_target g)"

text \<open>The grants in force, kept up to date event by event, with the identifiers used so far.\<close>

definition grant_step :: "string list \<times> stored_grant list \<Rightarrow> canonical_event \<Rightarrow> string list \<times> stored_grant list" where
  "grant_step = (\<lambda>(used, active) e.
     let kept = filter (\<lambda>g. \<not> revokes e g) active in
     case workspace_read_granted e of
       None \<Rightarrow> (used, kept)
     | Some g \<Rightarrow> (gr_id g # used, if gr_id g \<in> set used then kept else kept @ [g]))"

definition grants_in_force :: "canonical_event list \<Rightarrow> stored_grant list" where
  "grants_in_force es = snd (foldl grant_step ([], []) es)"

lemma active_grants_snoc:
  "active_grants_from before (es @ [e]) = filter (\<lambda>g. \<not> revokes e g) (active_grants_from before es)
     @ (case workspace_read_granted e of None \<Rightarrow> [] | Some g \<Rightarrow>
          if list_ex (\<lambda>x. map_option gr_id (workspace_read_granted x) = Some (gr_id g)) (before @ es) then [] else [g])"
proof (induction es arbitrary: before)
  case (Cons x es)
  show ?case
    by (simp add: Cons.IH revokes_def del: map_option_eq_Some split: option.split)
qed (simp add: revokes_def del: map_option_eq_Some split: option.split)

lemma grant_step_fold:
  "set (fst (foldl grant_step ([], []) es)) = {i. \<exists>x \<in> set es. map_option gr_id (workspace_read_granted x) = Some i}
   \<and> snd (foldl grant_step ([], []) es) = active_workspace_read_grants es"
proof (induction es rule: rev_induct)
  case (snoc e es)
  obtain used active where ua: "foldl grant_step ([], []) es = (used, active)" by (cases "foldl grant_step ([], []) es")
  have "gr_id g \<in> set used \<longleftrightarrow> list_ex (\<lambda>x. map_option gr_id (workspace_read_granted x) = Some (gr_id g)) es" for g
    using snoc ua by (auto simp: list_ex_iff)
  with snoc ua show ?case
    by (auto simp: grant_step_def active_workspace_read_grants_def active_grants_snoc Let_def split: option.split)
qed (simp add: active_workspace_read_grants_def)

end
