(* ===== verification/MemoryLog.thy ===== *)
theory MemoryLog
  imports MemoryLifecycle
begin

text \<open>
  The repository's operations over a memory log that others append to as well. The locale
  \<open>memory_log\<close> is what the repository relies on: reads see the log, appends are refused unless
  the log is as it was read. Its lemma \<open>op_effect\<close> says what any operation does to the log, at
  whatever points other clients step in; the in-memory store is an instance, alone and shared.
\<close>

section \<open>Reading an event the store takes for another\<close>

lemma string_items_canon: "string_items (canon v) = string_items v"
  by (cases v) (simp_all add: string_items_def list_all_iff List.map_filter_def filter_map comp_def)

lemma same_event_items:
  "same_event e e' \<Longrightarrow> string_items (js_field (record_or_empty (ev_payload e)) k) = string_items (js_field (record_or_empty (ev_payload e')) k)"
  by (metis same_event_fields record_field_canon string_items_canon)

text \<open>So every parser of a memory event gives the same.\<close>

lemma same_event_parse:
  assumes "same_event e e'"
  shows "proposed_candidate e = proposed_candidate e'" "accepted_candidate e = accepted_candidate e'"
    "rejected_candidate e = rejected_candidate e'" "deleted_candidate e = deleted_candidate e'"
    "deleted_memory_event e = deleted_memory_event e'" "edited_candidate e = edited_candidate e'"
    "edited_memory e = edited_memory e'" "workspace_read_granted e = workspace_read_granted e'"
    "workspace_read_revoked e = workspace_read_revoked e'"
  using same_event_fields [OF assms]
  by (simp_all only: memory_event_defs workspace_read_granted_def workspace_read_revoked_def non_empty_field_def
      same_event_string [OF assms] same_event_items [OF assms])

section \<open>The operations as values\<close>

datatype memory_op =
    Propose string string string "string list"
  | EditCandidate string string string
  | DeleteCandidate string string
  | Accept string string
  | Reject string string
  | Edit string string string
  | Delete string string
  | GrantRead string string string
  | RevokeRead string string

fun run_memory_op :: "'s memory_repo \<Rightarrow> string \<times> string \<Rightarrow> memory_op \<Rightarrow> ('s, js_error, unit) action" where
  "run_memory_op repo stamp (Propose i content run es) = mr_propose repo stamp i content run es"
| "run_memory_op repo stamp (EditCandidate i content a) = mr_edit_candidate repo stamp i content a"
| "run_memory_op repo stamp (DeleteCandidate i a) = mr_delete_candidate repo stamp i a"
| "run_memory_op repo stamp (Accept i a) = mr_accept repo stamp i a"
| "run_memory_op repo stamp (Reject i a) = mr_reject repo stamp i a"
| "run_memory_op repo stamp (Edit i content a) = mr_edit repo stamp i content a"
| "run_memory_op repo stamp (Delete i a) = mr_delete repo stamp i a"
| "run_memory_op repo stamp (GrantRead g t a) = mr_grant repo stamp g t a"
| "run_memory_op repo stamp (RevokeRead g a) = mr_revoke repo stamp g a"

text \<open>What the event of an operation says, and to which log the operation applies.\<close>

fun op_event :: "memory_op \<Rightarrow> canonical_event \<Rightarrow> bool" where
  "op_event (Propose i content run es) e \<longleftrightarrow>
     proposed_candidate e = Some \<lparr>sc_id = i, sc_content = content, sc_run = run, sc_events = js_dedup es\<rparr>"
| "op_event (EditCandidate i content a) e \<longleftrightarrow> (\<exists>x. edited_candidate e = Some x \<and> ed_id x = i \<and> ed_content x = content \<and> ed_actor x = a)"
| "op_event (DeleteCandidate i a) e \<longleftrightarrow> (\<exists>d. deleted_candidate e = Some d \<and> de_id d = i \<and> de_actor d = a)"
| "op_event (Accept i a) e \<longleftrightarrow> (\<exists>d. accepted_candidate e = Some d \<and> de_id d = i \<and> de_actor d = a)"
| "op_event (Reject i a) e \<longleftrightarrow> (\<exists>d. rejected_candidate e = Some d \<and> de_id d = i \<and> de_actor d = a)"
| "op_event (Edit i content a) e \<longleftrightarrow> (\<exists>x. edited_memory e = Some x \<and> ed_id x = i \<and> ed_content x = content \<and> ed_actor x = a)"
| "op_event (Delete i a) e \<longleftrightarrow> (\<exists>d. deleted_memory_event e = Some d \<and> de_id d = i \<and> de_actor d = a)"
| "op_event (GrantRead g t a) e \<longleftrightarrow> (\<exists>x. workspace_read_granted e = Some x \<and> gr_id x = g \<and> gr_target x = t \<and> gr_actor x = a)"
| "op_event (RevokeRead g a) e \<longleftrightarrow> (\<exists>r. workspace_read_revoked e = Some r \<and> rv_id r = g \<and> rv_actor r = a)"

lemma op_event_same: "same_event e e' \<Longrightarrow> op_event op e \<longleftrightarrow> op_event op e'"
  by (cases op) (simp_all add: same_event_parse)

fun op_allowed :: "canonical_event list \<Rightarrow> memory_op \<Rightarrow> canonical_event \<Rightarrow> bool" where
  "op_allowed es (Propose i _ _ _) e \<longleftrightarrow> candidate_by_id es i = None"
| "op_allowed es (EditCandidate i _ _) e \<longleftrightarrow> assert_undecided es i = Inr ()"
| "op_allowed es (DeleteCandidate i _) e \<longleftrightarrow> assert_undecided es i = Inr ()"
| "op_allowed es (Accept i _) e \<longleftrightarrow> assert_undecided es i = Inr ()"
| "op_allowed es (Reject i _) e \<longleftrightarrow> assert_undecided es i = Inr ()"
| "op_allowed es (Edit i _ _) e \<longleftrightarrow> assert_active es i = Inr ()"
| "op_allowed es (Delete i _) e \<longleftrightarrow> assert_active es i = Inr ()"
| "op_allowed es (GrantRead g _ _) e \<longleftrightarrow> workspace_read_grant_by_id es g = None"
| "op_allowed es (RevokeRead g _) e \<longleftrightarrow> (\<exists>x \<in> set (active_workspace_read_grants es). gr_id x = g \<and> revokes e x)"

lemma op_allowed_same: "same_event e e' \<Longrightarrow> op_allowed es op e \<longleftrightarrow> op_allowed es op e'"
  by (cases op) (simp_all add: revokes_def same_event_parse)

lemma op_legal: "op_event op e \<Longrightarrow> op_allowed es op e \<Longrightarrow> legal es e"
  by (cases op; cases e rule: memory_event_cases)
    (auto simp: legal_def dest!: memory_event_type simp: workspace_read_granted_def workspace_read_revoked_def split: if_splits)

text \<open>
  An operation that has happened since the log was \<open>es\<close>: its event stands at a later place of the
  log, right after a log that allowed it.
\<close>

definition happened :: "canonical_event list \<Rightarrow> canonical_event list \<Rightarrow> memory_op \<Rightarrow> bool" where
  "happened es es' op \<longleftrightarrow> (\<exists>more e post. es' = (es @ more) @ e # post \<and> op_event op e \<and> op_allowed (es @ more) op e)"

lemma happened_append: "happened es es' op \<Longrightarrow> happened es (es' @ fs) op"
  unfolding happened_def by fastforce

lemma happened_since: "happened (es @ fs) es' op \<Longrightarrow> happened es es' op"
  unfolding happened_def by (metis append.assoc)

text \<open>
  What an action does to the memory log, from the states whose log satisfies \<open>P\<close>: it keeps the
  invariant, the log only grows, and after a normal return the operation has happened.
\<close>

definition memory_effect ::
    "('s \<Rightarrow> bool) \<Rightarrow> ('s \<Rightarrow> canonical_event list) \<Rightarrow> memory_op \<Rightarrow> (canonical_event list \<Rightarrow> bool) \<Rightarrow> ('s, js_error, unit) action \<Rightarrow> bool" where
  "memory_effect ok mlog op P m \<longleftrightarrow> (\<forall>st r st'. ok st \<longrightarrow> P (mlog st) \<longrightarrow> m st = (r, st') \<longrightarrow>
     ok st' \<and> (\<exists>new. mlog st' = mlog st @ new) \<and> (r = Inr () \<longrightarrow> happened (mlog st) (mlog st') op))"

lemma next_sequence_numbered:
  "(\<And>n. n < length es \<Longrightarrow> ev_seq (es ! n) = int n) \<Longrightarrow> next_sequence es = int (length es)"
proof (induction es rule: rev_induct)
  case (snoc e es)
  have "next_sequence es = int (length es)"
  proof (rule snoc.IH)
    fix n assume "n < length es" then show "ev_seq (es ! n) = int n" using snoc.prems [of n] by (simp add: nth_append)
  qed
  moreover have "ev_seq e = int (length es)" using snoc.prems [of "length es"] by simp
  ultimately show ?case by (simp add: next_sequence_def)
qed (simp add: next_sequence_def)

lemma candidate_parses:
  "parse_memory_candidate (JObj ((''id'', JStr i) # scope_fields s @ [(''content'', JStr content), (''sourceEventIds'', js_strings es)]))
     = Inr c \<Longrightarrow> mc_id c = i \<and> mc_content c = content \<and> mc_sources c = es"
  unfolding parse_memory_candidate_def
  by (elim parse_elims; simp only: parse_iffs ids_iff)
    (auto simp: scope_fields_def js_strings_def inj_map_eq_map inj_def split: if_splits)

lemma string_items_strings [simp]: "string_items (js_strings xs) = Some xs"
  by (simp add: string_items_def js_strings_def list_all_iff List.map_filter_def filter_map comp_def)

lemma active_grant_from:
  "g \<in> set (active_grants_from before es) \<Longrightarrow> \<exists>e \<in> set es. workspace_read_granted e = Some g"
  by (induction es arbitrary: before) (fastforce split: option.splits if_splits)+

lemma non_empty_field_iff: "non_empty_field p k = Some x \<longleftrightarrow> string_field p k = Some x \<and> x \<noteq> []"
  by (auto simp: non_empty_field_def split: option.splits list.splits)

lemma non_empty_field_run: "string_field p k = Some x \<Longrightarrow> x \<noteq> [] \<Longrightarrow> non_empty_field p k = Some x"
  by (simp add: non_empty_field_iff)

lemma granted_target: "workspace_read_granted e = Some g \<Longrightarrow> gr_target g \<noteq> []"
  by (auto simp: workspace_read_granted_def non_empty_field_iff split: if_splits option.splits)

section \<open>The store as the repository relies on it\<close>

locale memory_log =
  fixes ops :: "'s channel_ops" and ok :: "'s \<Rightarrow> bool" and mlog :: "'s \<Rightarrow> canonical_event list"
  assumes numbered: "ok st \<Longrightarrow> n < length (mlog st) \<Longrightarrow> ev_seq (mlog st ! n) = int n"
    and discipline: "ok st \<Longrightarrow> disciplined (mlog st)"
    and read_law: "ok st \<Longrightarrow> co_read ops i None st = (r, st') \<Longrightarrow>
      ok st' \<and> (\<exists>new. mlog st' = mlog st @ new) \<and> (i = memory_stream \<longrightarrow> r = Inr (mlog st'))"
    and command_law: "ok st \<Longrightarrow> co_get_run_command ops i st = (got, st') \<Longrightarrow> ok st' \<and> (\<exists>new. mlog st' = mlog st @ new)"
    and append_law: "ok st \<Longrightarrow> mlog st = xs @ ys \<Longrightarrow> ev_stream e = memory_stream \<Longrightarrow> ev_seq e = int (length xs) \<Longrightarrow>
      legal xs e \<Longrightarrow> co_append ops e st = (appended, st') \<Longrightarrow>
      ok st' \<and> (\<exists>new. mlog st' = mlog st @ new)
      \<and> (appended = Inr () \<longrightarrow> (\<exists>e' post. same_event e' e \<and> mlog st' = xs @ e' # post))"

context memory_log
begin

abbreviation effect where "effect \<equiv> memory_effect ok mlog"

lemma effect_throw: "effect op P (act_throw x)"
  by (simp add: memory_effect_def act_throw_def)

lemma effect_if: "(b \<Longrightarrow> effect op P m) \<Longrightarrow> (\<not> b \<Longrightarrow> effect op P n) \<Longrightarrow> effect op P (if b then m else n)"
  by simp

lemma effect_lift: "(\<And>a. x = Inr a \<Longrightarrow> effect op P (f a)) \<Longrightarrow> effect op P (act_bind (act_lift x) f)"
  by (cases x) (auto simp: memory_effect_def act_bind_def act_lift_def)

lemma effect_chain:
  assumes m: "effect op P m" and st1: "ok st1" "mlog st1 = mlog st @ new" "P (mlog st1)" and run: "m st1 = (r, st')"
  shows "ok st' \<and> (\<exists>new. mlog st' = mlog st @ new) \<and> (r = Inr () \<longrightarrow> happened (mlog st) (mlog st') op)"
proof -
  have "ok st' \<and> (\<exists>new. mlog st' = mlog st1 @ new) \<and> (r = Inr () \<longrightarrow> happened (mlog st1) (mlog st') op)"
    using m [unfolded memory_effect_def] st1(1,3) run by blast
  then show ?thesis unfolding st1(2) using happened_since by (metis append.assoc)
qed

lemma effect_after:
  assumes "\<And>st r st'. ok st \<Longrightarrow> m st = (r, st') \<Longrightarrow> ok st' \<and> (\<exists>new. mlog st' = mlog st @ new)"
    and "\<And>a. effect op (\<lambda>_. True) (f a)"
  shows "effect op P (act_bind m f)"
  unfolding memory_effect_def
proof (intro allI impI)
  fix st r st' assume ok: "ok st" and run: "act_bind m f st = (r, st')"
  obtain x st1 where m: "m st = (x, st1)" by (cases "m st")
  from assms(1) [OF ok m] obtain new where st1: "ok st1" "mlog st1 = mlog st @ new" by blast
  show "ok st' \<and> (\<exists>new. mlog st' = mlog st @ new) \<and> (r = Inr () \<longrightarrow> happened (mlog st) (mlog st') op)"
  proof (cases x)
    case (Inl y)
    with run m st1 show ?thesis by (auto simp: act_bind_def)
  next
    case (Inr a)
    with run m have "f a st1 = (r, st')" by (simp add: act_bind_def)
    with effect_chain [OF assms(2) st1(1,2) TrueI] show ?thesis by blast
  qed
qed

lemma effect_command: "(\<And>a. effect op (\<lambda>_. True) (f a)) \<Longrightarrow> effect op P (act_bind (co_get_run_command ops i) f)"
  by (rule effect_after) (blast dest: command_law)+

lemma effect_read_run: "(\<And>a. effect op (\<lambda>_. True) (f a)) \<Longrightarrow> effect op P (act_bind (co_read ops i None) f)"
  by (rule effect_after) (blast dest: read_law)+

lemma effect_read:
  assumes "\<And>es. effect op ((=) es) (f es)"
  shows "effect op P (act_bind (read_memory_events ops) f)"
  unfolding memory_effect_def read_memory_events_def
proof (intro allI impI)
  fix st r st' assume ok: "ok st" and run: "act_bind (co_read ops memory_stream None) f st = (r, st')"
  obtain x st1 where m: "co_read ops memory_stream None st = (x, st1)" by (cases "co_read ops memory_stream None st")
  from read_law [OF ok m] obtain new where st1: "ok st1" "mlog st1 = mlog st @ new" "x = Inr (mlog st1)" by blast
  with run m have "f (mlog st1) st1 = (r, st')" by (simp add: act_bind_def)
  with effect_chain [OF assms st1(1,2) refl]
  show "ok st' \<and> (\<exists>new. mlog st' = mlog st @ new) \<and> (r = Inr () \<longrightarrow> happened (mlog st) (mlog st') op)" by blast
qed

lemma effect_append:
  assumes "op_allowed es op (memory_event (mr_scope repo) stamp memory_stream (next_sequence es) ty (JObj payload))" and "mr_ops repo = ops"
    and "op_event op (memory_event (mr_scope repo) stamp memory_stream (next_sequence es) ty (JObj payload))"
  shows "effect op ((=) es) (append_memory_event repo stamp es ty payload)"
  unfolding memory_effect_def append_memory_event_def assms(2)
proof (intro allI impI)
  let ?e = "memory_event (mr_scope repo) stamp memory_stream (next_sequence es) ty (JObj payload)"
  fix st r st' assume ok: "ok st" and es: "es = mlog st" and run: "co_append ops ?e st = (r, st')"
  have "next_sequence es = int (length es)" using numbered [OF ok] by (intro next_sequence_numbered) (simp add: es)
  then have "ev_seq ?e = int (length es)" "ev_stream ?e = memory_stream" by (simp_all add: memory_event_def)
  note law = append_law [OF ok _ this(2,1) op_legal [OF assms(3,1)] run, of "[]"]
  have "happened es (mlog st') op" if "same_event e' ?e" "mlog st' = es @ e' # post" for e' post
    unfolding happened_def using assms(1,3) op_event_same [OF that(1)] op_allowed_same [OF that(1)] that(2)
    by (intro exI [of _ "[]"] exI [of _ e'] exI [of _ post]) simp
  moreover from law have "ok st' \<and> (\<exists>new. mlog st' = mlog st @ new)
      \<and> (r = Inr () \<longrightarrow> (\<exists>e' post. same_event e' ?e \<and> mlog st' = es @ e' # post))" by (simp add: es)
  ultimately show "ok st' \<and> (\<exists>new. mlog st' = mlog st @ new) \<and> (r = Inr () \<longrightarrow> happened (mlog st) (mlog st') op)"
    unfolding es by blast
qed

lemma effect_provenance:
  "(\<And>a. effect op (\<lambda>_. True) (f a)) \<Longrightarrow> effect op P (act_bind (assert_candidate_provenance ops run ids) f)"
proof (rule effect_after)
  fix st r st' assume ok: "ok st" and run: "assert_candidate_provenance ops run ids st = (r, st')"
  obtain x st1 where c: "co_get_run_command ops run st = (x, st1)" by (cases "co_get_run_command ops run st")
  obtain y st2 where e: "co_read ops run None st1 = (y, st2)" by (cases "co_read ops run None st1")
  from command_law [OF ok c] obtain new where st1: "ok st1" "mlog st1 = mlog st @ new" by blast
  from read_law [OF st1(1) e] obtain more where st2: "ok st2" "mlog st2 = mlog st1 @ more" by blast
  have "st' = st \<or> st' = st1 \<or> st' = st2"
    using run c e unfolding assert_candidate_provenance_def
    by (auto simp: act_bind_def act_throw_def act_return_def split: if_splits sum.splits option.splits)
  with ok st1 st2 show "ok st' \<and> (\<exists>new. mlog st' = mlog st @ new)" by auto
qed

lemmas effect_rules = effect_throw effect_lift effect_provenance effect_read

lemmas payload_facts = memory_event_defs memory_event_def string_field_def non_empty_field_def
  workspace_read_granted_def workspace_read_revoked_def non_empty_string_def

lemma op_effect:
  assumes ops: "mr_ops repo = ops"
  shows "effect op P (run_memory_op repo stamp op)"
proof (cases op)
  case (Propose i content run es)
  show ?thesis
    unfolding Propose run_memory_op.simps mr_propose_def Let_def ops
    by (intro effect_if effect_rules effect_append)
     (auto simp: ops payload_facts dest!: candidate_parses)
next
  case (EditCandidate i content a)
  show ?thesis
    unfolding EditCandidate run_memory_op.simps mr_edit_candidate_def as_owner_def ops
    by (intro effect_rules effect_append; auto simp: ops payload_facts split: if_splits)
next
  case (DeleteCandidate i a)
  show ?thesis
    unfolding DeleteCandidate run_memory_op.simps mr_delete_candidate_def mr_decide_def as_owner_def ops
    by (intro effect_rules effect_append; auto simp: ops payload_facts split: if_splits)
next
  case (Accept i a)
  show ?thesis
    unfolding Accept run_memory_op.simps mr_accept_def mr_decide_def as_owner_def ops
    by (intro effect_rules effect_append; auto simp: ops payload_facts split: if_splits)
next
  case (Reject i a)
  show ?thesis
    unfolding Reject run_memory_op.simps mr_reject_def mr_decide_def as_owner_def ops
    by (intro effect_rules effect_append; auto simp: ops payload_facts split: if_splits)
next
  case (Edit i content a)
  show ?thesis
    unfolding Edit run_memory_op.simps mr_edit_def as_owner_def ops
    by (intro effect_rules effect_append; auto simp: ops payload_facts split: if_splits)
next
  case (Delete i a)
  show ?thesis
    unfolding Delete run_memory_op.simps mr_delete_def as_owner_def ops
    by (intro effect_rules effect_append; auto simp: ops payload_facts split: if_splits)
next
  case (GrantRead g t a)
  show ?thesis
    unfolding GrantRead run_memory_op.simps mr_grant_def as_owner_def ops
    by (intro effect_rules effect_if effect_append; auto simp: ops payload_facts neq_Nil_conv split: if_splits)
next
  case (RevokeRead g a)
  show ?thesis
    unfolding RevokeRead run_memory_op.simps mr_revoke_def as_owner_def ops
  proof (intro effect_rules)
    fix a' u i es assume "non_empty_string a ''actorId'' = Inr a'" and "non_empty_string g ''grantId'' = Inr i"
    then have a': "a \<noteq> []" "g \<noteq> []" "i = g" by (simp_all add: non_empty_string_def split: if_splits)
    show "effect (RevokeRead g a) ((=) es) (case find (\<lambda>g. gr_id g = i) (active_workspace_read_grants es) of
         None \<Rightarrow> act_throw (PlainError ''Workspace Memory grant was not found'')
       | Some x \<Rightarrow> append_memory_event repo stamp es ''memory.workspace_read.revoked''
          [(''grantId'', JStr i), (''targetChannelId'', JStr (gr_target x)), (''actorId'', JStr a)])"
    proof (cases "find (\<lambda>g. gr_id g = i) (active_workspace_read_grants es)")
      case (Some x)
      then have x: "x \<in> set (active_workspace_read_grants es)" "gr_id x = g" by (auto simp: find_Some_iff a')
      with active_grant_from granted_target have "gr_target x \<noteq> []" unfolding active_workspace_read_grants_def by blast
      with a' have "op_event (RevokeRead g a) (memory_event (mr_scope repo) stamp memory_stream (next_sequence es)
          ''memory.workspace_read.revoked''
          (JObj [(''grantId'', JStr i), (''targetChannelId'', JStr (gr_target x)), (''actorId'', JStr a)]))"
        by (simp add: memory_event_def workspace_read_revoked_def non_empty_field_run string_field_def)
      moreover from x a' \<open>gr_target x \<noteq> []\<close> have "op_allowed es (RevokeRead g a) (memory_event (mr_scope repo) stamp memory_stream (next_sequence es)
          ''memory.workspace_read.revoked''
          (JObj [(''grantId'', JStr i), (''targetChannelId'', JStr (gr_target x)), (''actorId'', JStr a)]))"
        by (auto simp: memory_event_def revokes_def workspace_read_revoked_def non_empty_field_run string_field_def intro!: bexI [of _ x])
      ultimately have "effect (RevokeRead g a) ((=) es) (append_memory_event repo stamp es ''memory.workspace_read.revoked''
          [(''grantId'', JStr i), (''targetChannelId'', JStr (gr_target x)), (''actorId'', JStr a)])"
        using ops by (intro effect_append)
      with Some show ?thesis by (simp only: option.case)
    qed (simp add: effect_throw)
  qed
qed

end


section \<open>The in-memory store, alone and shared\<close>

definition memory_log_of :: "host \<Rightarrow> scope \<Rightarrow> store \<Rightarrow> canonical_event list" where
  "memory_log_of h s st = stream_events h s memory_stream st"

definition memory_ok :: "host \<Rightarrow> scope \<Rightarrow> store \<Rightarrow> bool" where
  "memory_ok h s st \<longleftrightarrow> store_ok h st \<and> disciplined (memory_log_of h s st)"

lemma append_event_memory:
  assumes h: "digits_ok h" and ok: "memory_ok h s st" and xs: "memory_log_of h s st = xs @ ys"
    and e: "ev_stream e = memory_stream" "ev_seq e = int (length xs)" "legal xs e"
    and run: "append_event h s e st = (r, st')"
  shows "memory_ok h s st' \<and> (\<exists>new. memory_log_of h s st' = memory_log_of h s st @ new)
    \<and> (r = Inr () \<longrightarrow> (\<exists>e' post. same_event e' e \<and> memory_log_of h s st' = xs @ e' # post))"
proof -
  have so: "store_ok h st" and log: "log_ok h st" using ok by (simp_all add: memory_ok_def store_ok_def)
  have "st_commands st' = st_commands st" using frame_commands [of "CallAppend e" h s st] run by simp
  then have "commands_ok h st' = commands_ok h st" "st_commands st' = st_commands st" by (simp_all only: commands_ok_def)
  then have so': "store_ok h st'" using append_event_log_ok [OF log run] so by (simp add: store_ok_def)
  have here: "\<exists>post. memory_log_of h s st' = xs @ e' # post"
    if e': "e' \<in> set (memory_log_of h s st')" "same_event e' e" "memory_log_of h s st' = xs @ zs" for e' zs
  proof -
    from e'(1) obtain n where n: "n < length (memory_log_of h s st')" "memory_log_of h s st' ! n = e'"
      by (auto simp: in_set_conv_nth)
    with so' have "ev_seq e' = int n" using log_ok_nth(4) [of h st' n s memory_stream]
      by (simp add: memory_log_of_def store_ok_def)
    with same_event_fields [OF e'(2)] e(2) have "n = length xs" by simp
    with n e'(3) show ?thesis by (metis id_take_nth_drop append_eq_conv_conj)
  qed
  have stored: "\<exists>e' \<in> set (memory_log_of h s st'). same_event e' e" if "r = Inr ()"
    using append_stores [OF h log run [unfolded that]] e(1) by (simp add: memory_log_of_def)
  from append_event_cases [OF run] show ?thesis
  proof (elim disjE conjE)
    assume st': "st' = st"
    with here stored xs ok show ?thesis by (metis append_Nil2)
  next
    assume st': "st' = push_event h s e st" and n: "ev_seq e = int (length (stream_events h s (ev_stream e) st))"
    with e xs have ys: "ys = []" by (simp add: memory_log_of_def)
    have new: "memory_log_of h s st' = memory_log_of h s st @ [e]" using e(1) by (simp add: st' memory_log_of_def)
    with ok so' e(3) xs ys have "memory_ok h s st'" by (simp add: memory_ok_def)
    with new xs ys show ?thesis by auto
  qed
qed

sublocale good_host \<subseteq> memory: memory_log "in_memory h s" "memory_ok h s" "memory_log_of h s"
proof
  fix st n assume "memory_ok h s st" "n < length (memory_log_of h s st)"
  then show "ev_seq (memory_log_of h s st ! n) = int n"
    using log_ok_nth(4) [of h st n s memory_stream] by (simp add: memory_ok_def store_ok_def memory_log_of_def)
next
  fix st assume "memory_ok h s st" then show "disciplined (memory_log_of h s st)" by (simp add: memory_ok_def)
next
  fix st i r st' assume ok: "memory_ok h s st" and "co_read (in_memory h s) i None st = (r, st')"
  then have "r = Inr (stream_events h s i st)" "st' = st" by (auto simp: read_all memory_ok_def)
  with ok show "memory_ok h s st' \<and> (\<exists>new. memory_log_of h s st' = memory_log_of h s st @ new)
      \<and> (i = memory_stream \<longrightarrow> r = Inr (memory_log_of h s st'))" by (simp add: memory_log_of_def)
next
  fix st i got st' assume ok: "memory_ok h s st" and "co_get_run_command (in_memory h s) i st = (got, st')"
  then have "st' = st" by (simp add: get_command_entry memory_ok_def)
  with ok show "memory_ok h s st' \<and> (\<exists>new. memory_log_of h s st' = memory_log_of h s st @ new)" by simp
next
  fix st xs ys e r st'
  assume "memory_ok h s st" "memory_log_of h s st = xs @ ys" "ev_stream e = memory_stream" "ev_seq e = int (length xs)"
    "legal xs e" "co_append (in_memory h s) e st = (r, st')"
  from append_event_memory [OF digits this(1-5)] this(6)
  show "memory_ok h s st' \<and> (\<exists>new. memory_log_of h s st' = memory_log_of h s st @ new)
    \<and> (r = Inr () \<longrightarrow> (\<exists>e' post. same_event e' e \<and> memory_log_of h s st' = xs @ e' # post))" by simp
qed

text \<open>Updates of other clients that keep the discipline and only let the log grow.\<close>

definition orderly :: "('s \<Rightarrow> bool) \<Rightarrow> ('s \<Rightarrow> canonical_event list) \<Rightarrow> ('s \<Rightarrow> 's) \<Rightarrow> bool" where
  "orderly ok mlog f \<longleftrightarrow> (\<forall>st. ok st \<longrightarrow> ok (f st) \<and> (\<exists>new. mlog (f st) = mlog st @ new))"

lemma disturb_orderly:
  assumes ok: "ok (fst sf) \<and> (\<forall>f \<in> set (snd sf). orderly ok mlog f)" and run: "disturb m sf = (r, sf')"
  obtains st where "ok st" "\<exists>new. mlog st = mlog (fst sf) @ new" "m st = (r, fst sf')" "\<forall>f \<in> set (snd sf'). orderly ok mlog f"
proof (cases "snd sf")
  case Nil
  then obtain st where sf: "sf = (st, [])" by (cases sf) simp
  obtain x st' where m: "m st = (x, st')" by (cases "m st")
  with run sf have "r = x" "sf' = (st', [])" by (simp_all add: disturb_def)
  with ok sf m show thesis by (intro that [of st]) simp_all
next
  case (Cons f fs)
  then obtain st where sf: "sf = (st, f # fs)" by (cases sf) simp
  obtain x st' where m: "m (f st) = (x, st')" by (cases "m (f st)")
  with run sf have "r = x" "sf' = (st', fs)" by (simp_all add: disturb_def)
  with ok sf m show thesis by (intro that [of "f st"]) (simp_all add: orderly_def)
qed

context memory_log
begin

lemma shared_log:
  "memory_log (interleaved ops) (\<lambda>sf. ok (fst sf) \<and> (\<forall>f \<in> set (snd sf). orderly ok mlog f)) (\<lambda>sf. mlog (fst sf))"
proof (unfold_locales, goal_cases)
  case (1 sf n) then show ?case using numbered by blast
next
  case (2 sf) then show ?case using discipline by blast
next
  case (3 sf i r sf')
  from disturb_orderly [OF 3(1) 3(2) [unfolded interleaved_simps]] obtain st where
    st: "ok st" "\<exists>new. mlog st = mlog (fst sf) @ new" "co_read ops i None st = (r, fst sf')" "\<forall>f \<in> set (snd sf'). orderly ok mlog f"
    by blast
  from read_law [OF st(1,3)] st(2,4) show ?case by auto
next
  case (4 sf i got sf')
  from disturb_orderly [OF 4(1) 4(2) [unfolded interleaved_simps]] obtain st where
    st: "ok st" "\<exists>new. mlog st = mlog (fst sf) @ new" "co_get_run_command ops i st = (got, fst sf')" "\<forall>f \<in> set (snd sf'). orderly ok mlog f"
    by blast
  from command_law [OF st(1,3)] st(2,4) show ?case by auto
next
  case (5 sf xs ys e r sf')
  from disturb_orderly [OF 5(1) 5(6) [unfolded interleaved_simps]] obtain st new where
    st: "ok st" "mlog st = mlog (fst sf) @ new" "co_append ops e st = (r, fst sf')" "\<forall>f \<in> set (snd sf'). orderly ok mlog f"
    by blast
  from append_law [OF st(1) _ 5(3-5) st(3), of "ys @ new"] st(2,4) 5(2) show ?case by auto
qed

end

sublocale good_host \<subseteq> shared: memory_log "interleaved (in_memory h s)"
    "\<lambda>sf. memory_ok h s (fst sf) \<and> (\<forall>f \<in> set (snd sf). orderly (memory_ok h s) (memory_log_of h s) f)"
    "\<lambda>sf. memory_log_of h s (fst sf)"
  by (rule memory.shared_log)

context good_host
begin

lemmas shared_memory_log = shared.memory_log_axioms

lemmas plain_memory_log = memory.memory_log_axioms

end

end
