(* ===== verification/MemoryExamples.thy ===== *)
theory MemoryExamples
  imports MemoryLog
begin

text \<open>
  Small memory logs on the concrete host, for the examples of the memory properties: a proposal,
  its acceptance, and a grant to another channel, with the repository of an owner named \<open>o\<close>.
\<close>

section \<open>Example logs\<close>

definition demo_note :: "string \<Rightarrow> int \<Rightarrow> string \<Rightarrow> (string \<times> js) list \<Rightarrow> canonical_event" where
  "demo_note i n ty kvs = memory_event demo_scope (i, ''7'') memory_stream n ty (JObj kvs)"

definition demo_proposal :: canonical_event where
  "demo_proposal = demo_note ''m0'' 0 ''memory.candidate.proposed''
     [(''candidateId'', JStr ''m''), (''content'', JStr ''Tea''), (''sourceRunId'', JStr ''r''),
      (''sourceEventIds'', js_strings [''a''])]"

definition demo_acceptance :: canonical_event where
  "demo_acceptance = demo_note ''m1'' 1 ''memory.accepted'' [(''candidateId'', JStr ''m''), (''actorId'', JStr ''o'')]"

definition demo_grant :: canonical_event where
  "demo_grant = demo_note ''m2'' 2 ''memory.workspace_read.granted''
     [(''grantId'', JStr ''g''), (''targetChannelId'', JStr ''d''), (''actorId'', JStr ''o'')]"

definition demo_notes :: "canonical_event list \<Rightarrow> store" where
  "demo_notes es = foldl (\<lambda>st e. push_event demo_host demo_scope e st) empty_store es"

lemma demo_notes_simps [simp]:
  "demo_notes [] = empty_store" "demo_notes (es @ [e]) = push_event demo_host demo_scope e (demo_notes es)"
  by (simp_all add: demo_notes_def)

lemma demo_note_parts [simp]:
  "ev_id (demo_note i n ty kvs) = i" "ev_scope (demo_note i n ty kvs) = demo_scope"
  "ev_stream (demo_note i n ty kvs) = memory_stream" "ev_seq (demo_note i n ty kvs) = n" "ev_type (demo_note i n ty kvs) = ty"
  "ev_payload (demo_note i n ty kvs) = JObj kvs"
  by (simp_all add: demo_note_def memory_event_def)

lemma demo_note_ok:
  "\<not> is_blank i \<Longrightarrow> \<not> is_blank ty \<Longrightarrow> 0 \<le> n \<Longrightarrow> n \<le> max_safe \<Longrightarrow> \<forall>kv \<in> set kvs. is_json (snd kv) \<Longrightarrow>
    event_ok demo_host (demo_note i n ty kvs)"
  by (simp add: event_ok_def) (simp add: demo_note_def memory_event_def memory_stream_def scope_ok_def demo_scope_def is_blank_iff is_space_def
      demo_host_def parse_millis_def is_digit_def max_safe_def)

lemma demo_notes_ok:
  "event_ok demo_host demo_proposal" "event_ok demo_host demo_acceptance" "event_ok demo_host demo_grant"
  unfolding demo_proposal_def demo_acceptance_def demo_grant_def
  by (rule demo_note_ok; simp add: is_blank_iff is_space_def max_safe_def js_strings_def)+

lemma demo_notes_store:
  "store_ok demo_host (demo_notes [])" "store_ok demo_host (demo_notes [demo_proposal])"
  "store_ok demo_host (demo_notes [demo_proposal, demo_acceptance])"
  "store_ok demo_host (demo_notes [demo_proposal, demo_acceptance, demo_grant])"
proof -
  show empty: "store_ok demo_host (demo_notes [])"
    using reachable_store_ok [OF total_preorder_demo_host reachable_empty] by simp
  have open_log: "\<not> sealed [demo_proposal]" "\<not> sealed [demo_proposal, demo_acceptance]" "\<not> sealed []"
    by (simp_all add: sealed_def demo_proposal_def demo_acceptance_def is_terminal_event_def final_event_types_def)
  show one: "store_ok demo_host (demo_notes [demo_proposal])"
    using store_ok_push [OF empty demo_notes_ok(1), of demo_scope] demo_notes_simps(2) [of "[]" demo_proposal]
    by (simp add: open_log) (simp add: demo_proposal_def)
  show two: "store_ok demo_host (demo_notes [demo_proposal, demo_acceptance])"
    using store_ok_push [OF one demo_notes_ok(2), of demo_scope] demo_notes_simps(2) [of "[demo_proposal]" demo_acceptance]
      open_log demo_notes_simps(2) [of "[]" demo_proposal]
    by (simp add: demo_proposal_def demo_acceptance_def)
  show "store_ok demo_host (demo_notes [demo_proposal, demo_acceptance, demo_grant])"
    using store_ok_push [OF two demo_notes_ok(3), of demo_scope] demo_notes_simps(2) [of "[demo_proposal, demo_acceptance]" demo_grant]
      open_log demo_notes_simps(2) [of "[]" demo_proposal] demo_notes_simps(2) [of "[demo_proposal]" demo_acceptance]
    by (simp add: demo_proposal_def demo_acceptance_def demo_grant_def)
qed

lemma demo_notes_log:
  "stream_events demo_host demo_scope memory_stream (demo_notes []) = []"
  "stream_events demo_host demo_scope memory_stream (demo_notes [demo_proposal]) = [demo_proposal]"
  "stream_events demo_host demo_scope memory_stream (demo_notes [demo_proposal, demo_acceptance]) = [demo_proposal, demo_acceptance]"
  "stream_events demo_host demo_scope memory_stream (demo_notes [demo_proposal, demo_acceptance, demo_grant])
     = [demo_proposal, demo_acceptance, demo_grant]"
  by (simp_all add: demo_notes_def) (simp_all add: demo_proposal_def demo_acceptance_def demo_grant_def)

lemma demo_parses [simp]:
  "proposed_candidate demo_proposal = Some \<lparr>sc_id = ''m'', sc_content = ''Tea'', sc_run = ''r'', sc_events = [''a'']\<rparr>"
  "accepted_candidate demo_acceptance = Some \<lparr>de_id = ''m'', de_actor = ''o'', de_event = ''m1'', de_at = ''7''\<rparr>"
  "workspace_read_granted demo_grant = Some \<lparr>gr_id = ''g'', gr_target = ''d'', gr_actor = ''o'', gr_event = ''m2'', gr_at = ''7''\<rparr>"
  "ev_type demo_proposal = ''memory.candidate.proposed''" "ev_type demo_acceptance = ''memory.accepted''"
  "ev_type demo_grant = ''memory.workspace_read.granted''"
  by (simp_all add: demo_proposal_def demo_acceptance_def demo_grant_def memory_event_defs workspace_read_granted_def
      string_field_def non_empty_field_def) (simp_all add: demo_note_def memory_event_def)

lemma demo_none [simp]:
  "accepted_candidate demo_proposal = None" "rejected_candidate demo_proposal = None" "deleted_candidate demo_proposal = None"
  "deleted_memory_event demo_proposal = None" "edited_candidate demo_proposal = None" "edited_memory demo_proposal = None"
  "proposed_candidate demo_acceptance = None" "rejected_candidate demo_acceptance = None" "deleted_candidate demo_acceptance = None"
  "deleted_memory_event demo_acceptance = None" "edited_candidate demo_acceptance = None" "edited_memory demo_acceptance = None"
  "proposed_candidate demo_grant = None" "accepted_candidate demo_grant = None" "rejected_candidate demo_grant = None"
  "deleted_candidate demo_grant = None" "deleted_memory_event demo_grant = None" "edited_candidate demo_grant = None"
  "edited_memory demo_grant = None"
  by (simp_all add: other_memory_event)

lemma demo_no_grants [simp]:
  "workspace_read_granted demo_proposal = None" "workspace_read_granted demo_acceptance = None"
  "workspace_read_revoked demo_proposal = None" "workspace_read_revoked demo_acceptance = None" "workspace_read_revoked demo_grant = None"
  by (simp_all add: workspace_read_granted_def workspace_read_revoked_def)

lemma demo_disciplined:
  "disciplined [demo_proposal]" "disciplined [demo_proposal, demo_acceptance]"
  "disciplined [demo_proposal, demo_acceptance, demo_grant]"
  by (simp_all add: disciplined_def legal_def assert_undecided_def candidate_by_id_def nth_Cons')

lemma demo_memory_ok:
  "memory_ok demo_host demo_scope (demo_notes [demo_proposal])"
  "memory_ok demo_host demo_scope (demo_notes [demo_proposal, demo_acceptance])"
  "memory_ok demo_host demo_scope (demo_notes [demo_proposal, demo_acceptance, demo_grant])"
  by (simp_all only: memory_ok_def memory_log_of_def demo_notes_log demo_notes_store demo_disciplined simp_thms)

definition demo_repo :: "(scope \<Rightarrow> 's channel_ops) \<Rightarrow> 's memory_repo" where
  "demo_repo ops = \<lparr>mr_scope = demo_scope, mr_policy = \<lparr>mem_read = ''channel'', mem_write = ''propose''\<rparr>,
     mr_owner = (\<lambda>s a. if a = ''o'' then Inr () else Inl (PlainError ''not the owner'')), mr_store = ops\<rparr>"

lemma demo_repo_ops [simp]: "mr_ops (demo_repo ops) = ops demo_scope" "mr_scope (demo_repo ops) = demo_scope"
  by (simp_all add: demo_repo_def mr_ops_def)

text \<open>An owner's operation with nobody else at the store: read, decide, push.\<close>

lemma quiet_owner: "as_owner (demo_repo ops) ''o'' m st = m st"
  by (simp add: as_owner_def act_bind_def act_lift_def non_empty_string_def demo_repo_def)

lemma quiet_read:
  assumes "store_ok demo_host (demo_notes es)" "stream_events demo_host demo_scope memory_stream (demo_notes es) = es"
  shows "act_bind (read_memory_events (interleaved (in_memory demo_host demo_scope))) f (demo_notes es, []) = f es (demo_notes es, [])"
  using assms by (simp add: act_bind_def read_memory_events_def interleaved_simps disturb_def read_all)

lemma quiet_append:
  assumes log: "stream_events demo_host demo_scope memory_stream (demo_notes es) = es"
    and e: "event_ok demo_host e" "e = memory_event demo_scope stamp memory_stream (int (length es)) ty (JObj kvs)"
    and new: "stored_event demo_host demo_scope (fst stamp) (demo_notes es) = None" and open_log: "\<not> sealed es"
    and n: "next_sequence es = int (length es)"
  shows "append_memory_event (demo_repo (interleaved \<circ> in_memory demo_host)) stamp es ty kvs (demo_notes es, [])
    = (Inr (), (demo_notes (es @ [e]), []))"
proof -
  have "ev_scope e = demo_scope" "ev_id e = fst stamp" "ev_seq e = int (length es)" "ev_stream e = memory_stream"
    by (simp_all add: e(2) memory_event_def)
  with append_new [OF e(1), of demo_scope "demo_notes es"] log new open_log
  have "append_event demo_host demo_scope e (demo_notes es) = (Inr (), push_event demo_host demo_scope e (demo_notes es))"
    by (simp add: sealed_def)
  then show ?thesis by (simp add: append_memory_event_def n interleaved_simps disturb_def e(2))
qed

definition demo_deletion :: canonical_event where
  "demo_deletion = demo_note ''m2'' 2 ''memory.deleted'' [(''memoryId'', JStr ''m''), (''actorId'', JStr ''o'')]"

definition demo_revocation :: canonical_event where
  "demo_revocation = demo_note ''m3'' 3 ''memory.workspace_read.revoked''
     [(''grantId'', JStr ''g''), (''targetChannelId'', JStr ''d''), (''actorId'', JStr ''o'')]"

lemma demo_more_ok: "event_ok demo_host demo_deletion" "event_ok demo_host demo_revocation"
  unfolding demo_deletion_def demo_revocation_def
  by (rule demo_note_ok; simp add: is_blank_iff is_space_def max_safe_def)+

lemma demo_events_eq:
  "demo_acceptance = memory_event demo_scope (''m1'', ''7'') memory_stream 1 ''memory.accepted''
     (JObj [(''candidateId'', JStr ''m''), (''actorId'', JStr ''o'')])"
  "demo_deletion = memory_event demo_scope (''m2'', ''7'') memory_stream 2 ''memory.deleted''
     (JObj [(''memoryId'', JStr ''m''), (''actorId'', JStr ''o'')])"
  "demo_revocation = memory_event demo_scope (''m3'', ''7'') memory_stream 3 ''memory.workspace_read.revoked''
     (JObj [(''grantId'', JStr ''g''), (''targetChannelId'', JStr ''d''), (''actorId'', JStr ''o'')])"
  by (simp_all add: demo_acceptance_def demo_deletion_def demo_revocation_def demo_note_def)

lemma demo_seqs: "ev_seq demo_proposal = 0" "ev_seq demo_acceptance = 1" "ev_seq demo_grant = 2"
  "ev_id demo_proposal = ''m0''" "ev_id demo_acceptance = ''m1''" "ev_id demo_grant = ''m2''"
  "ev_stream demo_proposal = memory_stream" "ev_stream demo_acceptance = memory_stream" "ev_stream demo_grant = memory_stream"
  by (simp_all add: demo_proposal_def demo_acceptance_def demo_grant_def)

abbreviation demo_shared_repo where "demo_shared_repo \<equiv> demo_repo (interleaved \<circ> in_memory demo_host)"

lemma demo_open: "\<not> sealed [demo_proposal]" "\<not> sealed [demo_proposal, demo_acceptance]"
  "\<not> sealed [demo_proposal, demo_acceptance, demo_grant]"
  by (simp_all add: sealed_def is_terminal_event_def final_event_types_def)

lemma demo_accept:
  "run_memory_op demo_shared_repo (''m1'', ''7'') (Accept ''m'' ''o'') (demo_notes [demo_proposal], [])
     = (Inr (), (demo_notes [demo_proposal, demo_acceptance], []))"
proof -
  note append = quiet_append [OF demo_notes_log(2) demo_notes_ok(2) _ _ demo_open(1), of "(''m1'', ''7'')" "''memory.accepted''"
      "[(''candidateId'', JStr ''m''), (''actorId'', JStr ''o'')]", unfolded append.simps]
  have "append_memory_event demo_shared_repo (''m1'', ''7'') [demo_proposal] ''memory.accepted''
      [(''candidateId'', JStr ''m''), (''actorId'', JStr ''o'')] (demo_notes [demo_proposal], [])
      = (Inr (), (demo_notes [demo_proposal, demo_acceptance], []))"
    by (rule append) (simp_all add: demo_events_eq(1) next_sequence_def demo_seqs, simp add: demo_notes_def demo_seqs)
  moreover have "assert_undecided [demo_proposal] ''m'' = Inr ()" by (simp add: assert_undecided_def candidate_by_id_def)
  ultimately show ?thesis
    by (simp add: mr_accept_def mr_decide_def quiet_owner quiet_read demo_notes_store demo_notes_log act_bind_run act_lift_def non_empty_string_def)
qed

lemma demo_delete:
  "run_memory_op demo_shared_repo (''m2'', ''7'') (Delete ''m'' ''o'') (demo_notes [demo_proposal, demo_acceptance], [])
     = (Inr (), (demo_notes [demo_proposal, demo_acceptance, demo_deletion], []))"
proof -
  note append = quiet_append [OF demo_notes_log(3) demo_more_ok(1) _ _ demo_open(2), of "(''m2'', ''7'')" "''memory.deleted''"
      "[(''memoryId'', JStr ''m''), (''actorId'', JStr ''o'')]", unfolded append.simps]
  have "append_memory_event demo_shared_repo (''m2'', ''7'') [demo_proposal, demo_acceptance] ''memory.deleted''
      [(''memoryId'', JStr ''m''), (''actorId'', JStr ''o'')] (demo_notes [demo_proposal, demo_acceptance], [])
      = (Inr (), (demo_notes [demo_proposal, demo_acceptance, demo_deletion], []))"
    by (rule append) (simp_all add: demo_events_eq(2) next_sequence_def demo_seqs, simp add: demo_notes_def demo_seqs)
  moreover have "assert_active [demo_proposal, demo_acceptance] ''m'' = Inr ()" by (simp add: assert_active_def deleted_memory_def)
  ultimately show ?thesis
    by (simp add: mr_delete_def quiet_owner quiet_read demo_notes_store demo_notes_log act_bind_run act_lift_def non_empty_string_def)
qed

lemma demo_revoke:
  "run_memory_op demo_shared_repo (''m3'', ''7'') (RevokeRead ''g'' ''o'') (demo_notes [demo_proposal, demo_acceptance, demo_grant], [])
     = (Inr (), (demo_notes [demo_proposal, demo_acceptance, demo_grant, demo_revocation], []))"
proof -
  note append = quiet_append [OF demo_notes_log(4) demo_more_ok(2) _ _ demo_open(3), of "(''m3'', ''7'')"
      "''memory.workspace_read.revoked''" "[(''grantId'', JStr ''g''), (''targetChannelId'', JStr ''d''), (''actorId'', JStr ''o'')]", unfolded append.simps]
  have "append_memory_event demo_shared_repo (''m3'', ''7'') [demo_proposal, demo_acceptance, demo_grant]
      ''memory.workspace_read.revoked'' [(''grantId'', JStr ''g''), (''targetChannelId'', JStr ''d''), (''actorId'', JStr ''o'')]
      (demo_notes [demo_proposal, demo_acceptance, demo_grant], [])
      = (Inr (), (demo_notes [demo_proposal, demo_acceptance, demo_grant, demo_revocation], []))"
    by (rule append) (simp_all add: demo_events_eq(3) next_sequence_def demo_seqs, simp add: demo_notes_def demo_seqs)
  moreover have "active_workspace_read_grants [demo_proposal, demo_acceptance, demo_grant]
      = [\<lparr>gr_id = ''g'', gr_target = ''d'', gr_actor = ''o'', gr_event = ''m2'', gr_at = ''7''\<rparr>]"
    by (simp add: active_workspace_read_grants_def)
  ultimately show ?thesis
    by (simp add: mr_revoke_def quiet_owner quiet_read demo_notes_store demo_notes_log act_bind_run act_lift_def non_empty_string_def)
qed

end
