(* ===== verification/MemoryProperties.thy ===== *)
theory MemoryProperties
  imports MemoryExamples
begin

text \<open>
  The memory repository's properties: its projection implements the life cycle of a memory, its
  operations keep the discipline of the log when other clients interfere, a candidate is decided
  once, deletions and revocations are final.
\<close>

section \<open>The scans\<close>

text \<open>Retrieval as a filter over the proposals, in the order they were made.\<close>

definition proposals :: "canonical_event list \<Rightarrow> stored_candidate list" where
  "proposals es = List.map_filter proposed_candidate es"

lemma proposals_simps [simp]:
  "proposals [] = []" "proposals (es @ fs) = proposals es @ proposals fs"
  "proposals (e # es) = (case proposed_candidate e of None \<Rightarrow> proposals es | Some c \<Rightarrow> c # proposals es)"
  by (simp_all add: proposals_def List.map_filter_def split: option.split)

definition shown_content :: "canonical_event list \<Rightarrow> stored_candidate \<Rightarrow> string" where
  "shown_content es c = (case current_edit es (sc_id c) of Some x \<Rightarrow> ed_content x | None \<Rightarrow> sc_content c)"

definition retrievable :: "canonical_event list \<Rightarrow> string list \<Rightarrow> stored_candidate \<Rightarrow> bool" where
  "retrievable es tokens c \<longleftrightarrow> accepted_memory es (sc_id c) \<noteq> None \<and> deleted_memory es (sc_id c) = None
     \<and> (\<forall>t \<in> set tokens. text_includes (to_lower (shown_content es c)) t)"

definition memory_entry :: "canonical_event list \<Rightarrow> scope \<Rightarrow> stored_candidate \<Rightarrow> accepted_memory_entry" where
  "memory_entry es s c = \<lparr>am_id = sc_id c, am_content = shown_content es c, am_run = sc_run c, am_events = sc_events c,
     am_scope = s, am_accepted = the (accepted_memory es (sc_id c)), am_edit = current_edit es (sc_id c), am_grant = None\<rparr>"

lemma retrieve_event_eq:
  "retrieve_event es s tokens e = (case proposed_candidate e of None \<Rightarrow> []
     | Some c \<Rightarrow> if retrievable es tokens c then [memory_entry es s c] else [])"
  by (auto simp: retrieve_event_def retrievable_def memory_entry_def shown_content_def Let_def list_all_iff split: option.split)

lemma retrieve_eq:
  "retrieve_accepted_memories es s tokens
     = (if tokens = [] then [] else map (memory_entry es s) (filter (retrievable es tokens) (proposals es)))"
proof -
  have "concat (map (retrieve_event es s tokens) fs) = map (memory_entry es s) (filter (retrievable es tokens) (proposals fs))" for fs
    by (induction fs) (simp_all add: retrieve_event_eq split: option.split)
  then show ?thesis by (simp add: retrieve_accepted_memories_def)
qed

lemma proposals_distinct:
  "disciplined es \<Longrightarrow> distinct (map sc_id (proposals es)) \<and> (\<forall>c \<in> set (proposals es). candidate_by_id es (sc_id c) = Some c)"
proof (induction es rule: rev_induct)
  case (snoc e es)
  then have IH: "distinct (map sc_id (proposals es))" "\<And>c. c \<in> set (proposals es) \<Longrightarrow> candidate_by_id es (sc_id c) = Some c"
    and e: "legal es e" by simp_all
  show ?case
  proof (cases "proposed_candidate e")
    case (Some c)
    with e have "candidate_by_id es (sc_id c) = None" by (simp add: legal_def)
    with IH Some show ?thesis by force
  qed (use IH in simp)
qed simp

definition active_memories :: "canonical_event list \<Rightarrow> (string \<times> string) list" where
  "active_memories es = List.map_filter (\<lambda>c. case memory_status es (sc_id c) of
     Active text \<Rightarrow> Some (sc_id c, text) | _ \<Rightarrow> None) (proposals es)"

lemma retrieve_active:
  assumes d: "disciplined es" and t: "tokens \<noteq> []"
  shows "map (\<lambda>m. (am_id m, am_content m)) (retrieve_accepted_memories es s tokens)
    = filter (\<lambda>(i, text). \<forall>t \<in> set tokens. text_includes (to_lower text) t) (active_memories es)"
proof -
  have entry: "(retrievable es tokens c \<longleftrightarrow> (\<exists>text. memory_status es (sc_id c) = Active text
        \<and> (\<forall>t \<in> set tokens. text_includes (to_lower text) t)))
      \<and> (\<forall>text. memory_status es (sc_id c) = Active text \<longrightarrow> shown_content es c = text)" if "c \<in> set (proposals es)" for c
  proof -
    have "candidate_by_id es (sc_id c) = Some c" using proposals_distinct [OF d] that by blast
    with disciplined_scans [OF d, of "sc_id c"] show ?thesis
      by (cases "memory_status es (sc_id c)")
        (auto simp: scans_agree_def retrievable_def shown_content_def current_content_def split: option.splits)
  qed
  have "map (\<lambda>m. (am_id m, am_content m)) (map (memory_entry es s) (filter (retrievable es tokens) cs))
    = filter (\<lambda>(i, text). \<forall>t \<in> set tokens. text_includes (to_lower text) t)
       (List.map_filter (\<lambda>c. case memory_status es (sc_id c) of Active text \<Rightarrow> Some (sc_id c, text) | _ \<Rightarrow> None) cs)"
    if "set cs \<subseteq> set (proposals es)" for cs
    using that
  proof (induction cs)
    case (Cons c cs)
    then have "(retrievable es tokens c \<longleftrightarrow> (\<exists>text. memory_status es (sc_id c) = Active text
        \<and> (\<forall>t \<in> set tokens. text_includes (to_lower text) t)))
      \<and> (\<forall>text. memory_status es (sc_id c) = Active text \<longrightarrow> shown_content es c = text)" using entry by simp
    with Cons show ?case
      by (cases "memory_status es (sc_id c)") (auto simp: map_filter_simps memory_entry_def)
  qed (simp add: map_filter_simps)
  from this [of "proposals es"] t show ?thesis by (simp add: retrieve_eq active_memories_def)
qed

text \<open>
  C23. The memory projection implements a state machine. On a log that the repository's discipline
  produced, the scans that answer the repository's questions agree with the life cycle computed
  event by event: a candidate is undecided exactly while it is pending, a memory is active exactly
  after its acceptance and before its deletion, a deleted memory and a discarded candidate are
  reported exactly in those states, and a retrieval shows every active memory whose current text
  contains all tokens, once, in the order of the proposals.
\<close>

theorem memory_scans_follow_life_cycle:
  assumes "disciplined es"
  shows "(assert_undecided es i = Inr () \<longleftrightarrow> (\<exists>text. memory_status es i = Pending text))
    \<and> (assert_active es i = Inr () \<longleftrightarrow> (\<exists>text. memory_status es i = Active text))
    \<and> (deleted_channel_memory es s i \<noteq> None \<longleftrightarrow> memory_status es i = Forgotten)
    \<and> (deleted_memory_candidate es s i \<noteq> None \<longleftrightarrow> memory_status es i = Discarded)
    \<and> map (\<lambda>m. (am_id m, am_content m)) (retrieve_accepted_memories es s tokens)
      = (if tokens = [] then []
         else filter (\<lambda>(i, text). list_all (text_includes (to_lower text)) tokens) (active_memories es))
    \<and> distinct (map am_id (retrieve_accepted_memories es s tokens))"
proof (intro conjI)
  note scans = disciplined_scans [OF assms, of i, unfolded scans_agree_def]
  show "assert_undecided es i = Inr () \<longleftrightarrow> (\<exists>text. memory_status es i = Pending text)"
    "assert_active es i = Inr () \<longleftrightarrow> (\<exists>text. memory_status es i = Active text)"
    by (rule undecided_iff_pending [OF assms] active_iff_status [OF assms])+
  show "deleted_channel_memory es s i \<noteq> None \<longleftrightarrow> memory_status es i = Forgotten"
    using scans by (auto simp: deleted_channel_memory_def split: option.splits)
  show "deleted_memory_candidate es s i \<noteq> None \<longleftrightarrow> memory_status es i = Discarded"
    using scans by (auto simp: deleted_memory_candidate_def split: option.splits if_splits)
  show "map (\<lambda>m. (am_id m, am_content m)) (retrieve_accepted_memories es s tokens)
      = (if tokens = [] then []
         else filter (\<lambda>(i, text). list_all (text_includes (to_lower text)) tokens) (active_memories es))"
    using retrieve_active [OF assms] by (cases "tokens = []") (simp_all add: retrieve_eq list_all_iff)
  have "map am_id (map (memory_entry es s) cs) = map sc_id cs" for cs by (simp add: memory_entry_def)
  with proposals_distinct [OF assms] show "distinct (map am_id (retrieve_accepted_memories es s tokens))"
    by (simp add: retrieve_eq distinct_map_filter del: map_map)
qed

lemma memory_scans_follow_life_cycle_witness:
  "assert_active [demo_proposal, demo_acceptance] ''m'' = Inr ()
    \<and> map (\<lambda>m. (am_id m, am_content m)) (retrieve_accepted_memories [demo_proposal, demo_acceptance] demo_scope [''te''])
      = [(''m'', ''Tea'')]"
proof -
  have status: "memory_status [demo_proposal, demo_acceptance] ''m'' = Active ''Tea''"
    by (simp add: memory_status_def next_memory_status_def)
  then have "active_memories [demo_proposal, demo_acceptance] = [(''m'', ''Tea'')]"
    by (simp add: active_memories_def map_filter_simps)
  moreover have "text_includes (to_lower ''Tea'') ''te''" by code_simp
  ultimately show ?thesis
    using status memory_scans_follow_life_cycle [OF demo_disciplined(2), of "''m''" demo_scope "[''te'']"]
    by (simp del: text_includes.simps)
qed


section \<open>The other clients\<close>

fun call_stream :: "store_call \<Rightarrow> string option" where
  "call_stream (CallAppend e) = Some (ev_stream e)"
| "call_stream (CallAppendIdempotent e) = Some (ev_stream e)"
| "call_stream _ = None"

text \<open>
  What another client does between two accesses of this one: operations of any repository of the
  channel, calls of any channel that do not write its memory stream, one after the other.
\<close>

inductive peer :: "host \<Rightarrow> scope \<Rightarrow> (store \<Rightarrow> store) \<Rightarrow> bool" for h s where
  idle: "peer h s (\<lambda>st. st)"
| memory: "mr_ops repo = in_memory h s \<Longrightarrow> peer h s f \<Longrightarrow> peer h s (\<lambda>st. snd (run_memory_op repo stamp op (f st)))"
| call: "s' \<noteq> s \<or> call_stream c \<noteq> Some memory_stream \<Longrightarrow> peer h s f \<Longrightarrow>
    peer h s (\<lambda>st. if array_room h (f st) then run_call h s' c (f st) else f st)"

lemma call_keeps_stream:
  assumes "s' \<noteq> s \<or> call_stream c \<noteq> Some i"
  shows "stream_events h s i (run_call h s' c st) = stream_events h s i st"
proof (cases "log_call c")
  case False
  from frame_log [OF this, of h s' st] show ?thesis by (simp add: stream_events_def)
next
  case True
  then consider e where "c = CallAppend e" | e where "c = CallAppendIdempotent e" by (cases c) auto
  then show ?thesis
  proof cases
    case (1 e)
    show ?thesis using append_event_cases [OF surjective_pairing, of h s' e st] assms unfolding 1 by auto
  next
    case (2 e)
    show ?thesis using append_idempotent_cases [OF surjective_pairing, of h s' e st] assms unfolding 2 by auto
  qed
qed

lemma orderly_comp:
  assumes "orderly ok mlog f" and "\<And>st. ok st \<Longrightarrow> ok (g st) \<and> (\<exists>new. mlog (g st) = mlog st @ new)"
  shows "orderly ok mlog (\<lambda>st. g (f st))"
  using assms unfolding orderly_def by (metis append.assoc)

lemma peer_orderly:
  assumes h: "good_host h" and "peer h s f"
  shows "orderly (memory_ok h s) (memory_log_of h s) f"
  using assms(2)
proof (induction rule: peer.induct)
  case idle
  then show ?case by (simp add: orderly_def)
next
  case (memory repo f stamp op)
  show ?case
  proof (rule orderly_comp [OF memory.IH])
    fix st assume ok: "memory_ok h s st"
    note effect = memory_log.op_effect [OF good_host.plain_memory_log [OF h] memory.hyps(1), of op "\<lambda>_. True" stamp]
    from effect [unfolded memory_effect_def, rule_format, OF ok _ surjective_pairing]
    show "memory_ok h s (snd (run_memory_op repo stamp op st))
        \<and> (\<exists>new. memory_log_of h s (snd (run_memory_op repo stamp op st)) = memory_log_of h s st @ new)" by simp
  qed
next
  case (call s' c f)
  show ?case
  proof (rule orderly_comp [OF call.IH])
    fix st assume ok: "memory_ok h s st"
    then have so: "store_ok h st" by (simp add: memory_ok_def)
    have same: "memory_log_of h s (run_call h s' c st) = memory_log_of h s st"
      using call_keeps_stream [OF call.hyps(1)] by (simp add: memory_log_of_def)
    from h have order: "total_preorder (locale_le h)" by (simp add: good_host_def)
    show "memory_ok h s (if array_room h st then run_call h s' c st else st)
        \<and> (\<exists>new. memory_log_of h s (if array_room h st then run_call h s' c st else st) = memory_log_of h s st @ new)"
      using ok run_call_store_ok [OF order so] by (simp add: memory_ok_def same)
  qed
qed

text \<open>The repository over the store that peers use as well.\<close>

lemma shared_effect:
  assumes h: "good_host h" and repo: "mr_ops repo = interleaved (in_memory h s)"
    and ok: "memory_ok h s st" and peers: "\<forall>f \<in> set fs. peer h s f"
    and run: "run_memory_op repo stamp op (st, fs) = (r, (st', fs'))"
  shows "memory_ok h s st'" "\<exists>new. memory_log_of h s st' = memory_log_of h s st @ new"
    "r = Inr () \<Longrightarrow> happened (memory_log_of h s st) (memory_log_of h s st') op"
proof -
  note effect = memory_log.op_effect [OF good_host.shared_memory_log [OF h] repo, of op "\<lambda>_. True" stamp]
  have "memory_ok h s (fst (st, fs)) \<and> (\<forall>f \<in> set (snd (st, fs)). orderly (memory_ok h s) (memory_log_of h s) f)"
    using ok peers peer_orderly [OF h] by simp
  from effect [unfolded memory_effect_def, rule_format, OF this _ run]
  show "memory_ok h s st'" "\<exists>new. memory_log_of h s st' = memory_log_of h s st @ new"
    "r = Inr () \<Longrightarrow> happened (memory_log_of h s st) (memory_log_of h s st') op" by simp_all
qed

text \<open>
  C24. The repository keeps the discipline under concurrency. Whatever its operations return, and
  whatever repositories of the same channel and other clients of the store do between any two of
  its store accesses, the memory log stays disciplined and only grows; and when an operation
  returns normally, its event stands in the log directly after a log that allowed it.
\<close>

theorem memory_operations_keep_discipline:
  assumes "digits_ok h" and "total_preorder (locale_le h)" and "mr_ops repo = interleaved (in_memory h s)"
    and "memory_ok h s st" and "\<forall>f \<in> set fs. peer h s f"
    and "run_memory_op repo stamp op (st, fs) = (r, (st', fs'))"
  shows "memory_ok h s st' \<and> (\<exists>new. memory_log_of h s st' = memory_log_of h s st @ new)
    \<and> (r = Inr () \<longrightarrow> (\<exists>more e post. memory_log_of h s st' = (memory_log_of h s st @ more) @ e # post
         \<and> op_event op e \<and> op_allowed (memory_log_of h s st @ more) op e))"
  using shared_effect [OF good_host.intro [OF assms(1,2)] assms(3-6)] unfolding happened_def by blast

lemma memory_operations_keep_discipline_witness:
  "memory_ok demo_host demo_scope (demo_notes [demo_proposal, demo_acceptance])
    \<and> (\<exists>pre e post. [demo_proposal, demo_acceptance] = pre @ e # post \<and> op_event (Accept ''m'' ''o'') e)"
proof -
  have logs: "memory_log_of demo_host demo_scope (demo_notes [demo_proposal]) = [demo_proposal]"
    "memory_log_of demo_host demo_scope (demo_notes [demo_proposal, demo_acceptance]) = [demo_proposal, demo_acceptance]"
    by (simp_all only: memory_log_of_def demo_notes_log)
  note result = memory_operations_keep_discipline [OF digits_ok_demo_host total_preorder_demo_host _ demo_memory_ok(1) _ demo_accept,
      unfolded logs]
  have "memory_ok demo_host demo_scope (demo_notes [demo_proposal, demo_acceptance])"
    and "\<exists>more e post. [demo_proposal, demo_acceptance] = ([demo_proposal] @ more) @ e # post \<and> op_event (Accept ''m'' ''o'') e"
    using result by auto
  then show ?thesis by blast
qed

section \<open>Decisions\<close>

fun decides :: "memory_op \<Rightarrow> string \<Rightarrow> bool" where
  "decides (Accept j _) i \<longleftrightarrow> j = i"
| "decides (Reject j _) i \<longleftrightarrow> j = i"
| "decides (DeleteCandidate j _) i \<longleftrightarrow> j = i"
| "decides _ i \<longleftrightarrow> False"

fun needs_undecided :: "memory_op \<Rightarrow> string \<Rightarrow> bool" where
  "needs_undecided (EditCandidate j _ _) i \<longleftrightarrow> j = i"
| "needs_undecided op i \<longleftrightarrow> decides op i"

definition is_decision :: "string \<Rightarrow> canonical_event \<Rightarrow> bool" where
  "is_decision i e \<longleftrightarrow> decision_for_candidate [e] i \<noteq> None"

lemma undecided_log: "decision_for_candidate es i = None \<longleftrightarrow> (\<forall>e \<in> set es. \<not> is_decision i e)"
proof (induction es rule: rev_induct)
  case (snoc e es)
  have "decision_for_candidate (es @ [e]) i = None \<longleftrightarrow> decision_for_candidate es i = None \<and> \<not> is_decision i e"
    unfolding decision_for_candidate_snoc is_decision_def
    by (cases "decision_for_candidate es i") (simp_all del: decision_for_candidate.simps)
  with snoc show ?case by auto
qed simp

lemma decides_event: "decides op i \<Longrightarrow> op_event op e \<Longrightarrow> is_decision i e"
  by (cases op; cases e rule: memory_event_cases) (auto simp: is_decision_def Let_def)

lemma needs_undecided_allowed: "needs_undecided op i \<Longrightarrow> op_allowed es op e \<Longrightarrow> decision_for_candidate es i = None"
  by (cases op) (auto simp: assert_undecided_def split: if_splits)

lemma legal_decision: "legal es e \<Longrightarrow> is_decision i e \<Longrightarrow> decision_for_candidate es i = None"
  by (cases e rule: memory_event_cases)
    (auto simp: is_decision_def legal_def assert_undecided_def Let_def split: if_splits)

lemma one_decision: "disciplined es \<Longrightarrow> length (filter (is_decision i) es) \<le> 1"
proof (induction es rule: rev_induct)
  case (snoc e es)
  show ?case
  proof (cases "is_decision i e")
    case True
    with snoc.prems have "decision_for_candidate es i = None" by (auto intro: legal_decision)
    then have "\<forall>x \<in> set es. \<not> is_decision i x" by (simp only: undecided_log)
    then show ?thesis by (simp add: filter_empty_conv)
  qed (use snoc in simp)
qed simp

lemma happened_decision:
  "decides op i \<Longrightarrow> happened es es' op \<Longrightarrow> \<exists>e \<in> set es'. is_decision i e"
  unfolding happened_def using decides_event by fastforce

text \<open>
  C25. A candidate is decided once. After one repository has accepted, rejected or discarded a
  candidate, no repository of the channel can accept, reject, discard or edit it again, at
  any later state of the log and with peers at work; the log holds exactly one decision of it.
\<close>

theorem candidate_decided_once:
  assumes "digits_ok h" and "total_preorder (locale_le h)" and "mr_ops repo = interleaved (in_memory h s)"
    and "mr_ops repo' = interleaved (in_memory h s)"
    and "memory_ok h s st" and "\<forall>f \<in> set (fs @ gs). peer h s f" and "decides op i"
    and "run_memory_op repo stamp op (st, fs) = (Inr (), (st1, fs1))"
    and "memory_ok h s st2" and "memory_log_of h s st2 = memory_log_of h s st1 @ new" and "needs_undecided op' i"
    and "run_memory_op repo' stamp' op' (st2, gs) = (r, (st3, gs'))"
  shows "r \<noteq> Inr () \<and> length (filter (is_decision i) (memory_log_of h s st3)) = 1"
proof -
  have h: "good_host h" by (rule good_host.intro [OF assms(1,2)])
  have peers: "\<forall>f \<in> set fs. peer h s f" "\<forall>f \<in> set gs. peer h s f" using assms(6) by simp_all
  note first = shared_effect [OF h assms(3,5) peers(1) assms(8)]
  note second = shared_effect [OF h assms(4,9) peers(2) assms(12)]
  obtain e where e: "e \<in> set (memory_log_of h s st1)" "is_decision i e"
    using happened_decision [OF assms(7)] first(3) by blast
  then have e2: "e \<in> set (memory_log_of h s st2)" by (simp add: assms(10))
  have "r \<noteq> Inr ()"
  proof
    assume "r = Inr ()"
    from second(3) [OF this] obtain more e' where "op_allowed (memory_log_of h s st2 @ more) op' e'"
      unfolding happened_def by blast
    from needs_undecided_allowed [OF assms(11) this] e(2) e2 show False by (auto simp: undecided_log)
  qed
  moreover have "e \<in> set (memory_log_of h s st3)" using second(2) e2 by auto
  with e(2) have "filter (is_decision i) (memory_log_of h s st3) \<noteq> []" by (auto simp: filter_empty_conv)
  moreover have "length (filter (is_decision i) (memory_log_of h s st3)) \<le> 1"
    using second(1) one_decision by (simp add: memory_ok_def)
  ultimately show ?thesis by (cases "filter (is_decision i) (memory_log_of h s st3)") auto
qed

lemma candidate_decided_once_witness:
  "fst (run_memory_op demo_shared_repo (''m2'', ''7'') (Reject ''m'' ''o'') (demo_notes [demo_proposal, demo_acceptance], [])) \<noteq> Inr ()"
proof -
  obtain r st3 gs where run: "run_memory_op demo_shared_repo (''m2'', ''7'') (Reject ''m'' ''o'')
      (demo_notes [demo_proposal, demo_acceptance], []) = (r, (st3, gs))"
    by (metis prod.collapse)
  from candidate_decided_once [OF digits_ok_demo_host total_preorder_demo_host _ _ demo_memory_ok(1) _ _ demo_accept
      demo_memory_ok(2) _ _ run, of "''m''" "[]"] run
  show ?thesis by simp
qed


section \<open>Deletion and revocation\<close>

lemma forgotten_stays: "memory_status es i = Forgotten \<Longrightarrow> memory_status (es @ fs) i = Forgotten"
proof (induction fs rule: rev_induct)
  case (snoc f fs)
  then show ?case using memory_status_snoc [of "es @ fs" f i] by (simp add: next_memory_status_def)
qed simp

lemma deletion_forgets:
  assumes "disciplined es" and "happened es0 es (Delete i a)"
  shows "memory_status es i = Forgotten"
proof -
  obtain more e post where e: "es = (es0 @ more) @ e # post" "op_event (Delete i a) e" "op_allowed (es0 @ more) (Delete i a) e"
    using assms(2) unfolding happened_def by blast
  then have "disciplined (es0 @ more)" using assms(1) disciplined_prefix by blast
  with e(3) obtain c where "memory_status (es0 @ more) i = Active c" by (auto simp: active_iff_status)
  with e(2) have "memory_status ((es0 @ more) @ [e]) i = Forgotten"
    unfolding memory_status_snoc by (auto simp: next_memory_status_def)
  from forgotten_stays [OF this, of post] show ?thesis by (simp add: e(1))
qed

fun needs_active :: "memory_op \<Rightarrow> string \<Rightarrow> bool" where
  "needs_active (Edit j _ _) i \<longleftrightarrow> j = i"
| "needs_active (Delete j _) i \<longleftrightarrow> j = i"
| "needs_active _ i \<longleftrightarrow> False"

lemma needs_active_allowed: "needs_active op i \<Longrightarrow> op_allowed es op e \<Longrightarrow> assert_active es i = Inr ()"
  by (cases op) auto

text \<open>
  C26. A deleted memory stays deleted. After a repository has deleted a memory, at any later state
  of the log no retrieval shows it, inspection reports the deletion, and no repository of the
  channel can edit it or delete it again, with peers at work.
\<close>

theorem memory_deletion_is_final:
  assumes "digits_ok h" and "total_preorder (locale_le h)" and "mr_ops repo = interleaved (in_memory h s)"
    and "mr_ops repo' = interleaved (in_memory h s)"
    and "memory_ok h s st" and "\<forall>f \<in> set (fs @ gs). peer h s f"
    and "run_memory_op repo stamp (Delete i a) (st, fs) = (Inr (), (st1, fs1))"
    and "memory_ok h s st2" and "memory_log_of h s st2 = memory_log_of h s st1 @ new" and "needs_active op' i"
    and "run_memory_op repo' stamp' op' (st2, gs) = (r, (st3, gs'))"
  shows "r \<noteq> Inr () \<and> i \<notin> set (map am_id (retrieve_accepted_memories (memory_log_of h s st2) s tokens))
    \<and> deleted_channel_memory (memory_log_of h s st2) s i \<noteq> None"
proof -
  have h: "good_host h" by (rule good_host.intro [OF assms(1,2)])
  have peers: "\<forall>f \<in> set fs. peer h s f" "\<forall>f \<in> set gs. peer h s f" using assms(6) by simp_all
  note first = shared_effect [OF h assms(3,5) peers(1) assms(7)]
  note second = shared_effect [OF h assms(4,8) peers(2) assms(11)]
  have "memory_status (memory_log_of h s st1) i = Forgotten"
    using deletion_forgets first(1,3) by (simp add: memory_ok_def)
  then have gone: "memory_status (memory_log_of h s st2 @ more) i = Forgotten" for more
    using forgotten_stays by (simp add: assms(9))
  have d2: "disciplined (memory_log_of h s st2)" using assms(8) by (simp add: memory_ok_def)
  have "r \<noteq> Inr ()"
  proof
    assume "r = Inr ()"
    from second(3) [OF this] obtain more e post where e: "memory_log_of h s st3 = (memory_log_of h s st2 @ more) @ e # post"
      "op_allowed (memory_log_of h s st2 @ more) op' e" unfolding happened_def by blast
    from second(1) e(1) have "disciplined (memory_log_of h s st2 @ more)"
      unfolding memory_ok_def using disciplined_prefix by metis
    with needs_active_allowed [OF assms(10) e(2)] gone [of more] show False by (simp add: active_iff_status)
  qed
  moreover have scans: "scans_agree (memory_log_of h s st2) i Forgotten"
    using disciplined_scans [OF d2, of i] gone [of "[]"] by simp
  then have "i \<notin> set (map am_id (retrieve_accepted_memories (memory_log_of h s st2) s tokens))"
    by (auto simp: retrieve_eq memory_entry_def retrievable_def scans_agree_def)
  moreover from scans have "deleted_channel_memory (memory_log_of h s st2) s i \<noteq> None"
    by (auto simp: scans_agree_def deleted_channel_memory_def split: option.splits)
  ultimately show ?thesis by blast
qed

lemma memory_deletion_is_final_witness:
  "fst (run_memory_op demo_shared_repo (''m3'', ''7'') (Delete ''m'' ''o'')
      (demo_notes [demo_proposal, demo_acceptance, demo_deletion], [])) \<noteq> Inr ()"
proof -
  let ?st = "demo_notes [demo_proposal, demo_acceptance, demo_deletion]"
  obtain r st3 gs where run: "run_memory_op demo_shared_repo (''m3'', ''7'') (Delete ''m'' ''o'') (?st, []) = (r, (st3, gs))"
    by (metis prod.collapse)
  have "memory_ok demo_host demo_scope ?st"
    using shared_effect(1) [OF demo.good_host_axioms _ demo_memory_ok(2) _ demo_delete] by simp
  from memory_deletion_is_final [OF digits_ok_demo_host total_preorder_demo_host _ _ demo_memory_ok(2) _ demo_delete this _ _ run,
      of "[]"] run
  show ?thesis by simp
qed

lemma grant_fold_distinct:
  "distinct (map gr_id (snd (foldl grant_step ([], []) es)))
   \<and> gr_id ` set (snd (foldl grant_step ([], []) es)) \<subseteq> set (fst (foldl grant_step ([], []) es))"
proof (induction es rule: rev_induct)
  case (snoc e es)
  then show ?case
    by (cases "foldl grant_step ([], []) es")
      (auto simp: grant_step_def Let_def distinct_map_filter split: option.split)
qed simp

lemma unused_grant_stays:
  "i \<in> set used \<Longrightarrow> i \<notin> gr_id ` set active \<Longrightarrow>
   i \<in> set (fst (foldl grant_step (used, active) es)) \<and> i \<notin> gr_id ` set (snd (foldl grant_step (used, active) es))"
proof (induction es arbitrary: used active)
  case (Cons e es)
  obtain used' active' where step: "grant_step (used, active) e = (used', active')" by (cases "grant_step (used, active) e")
  then have "i \<in> set used' \<and> i \<notin> gr_id ` set active'"
    using Cons.prems by (auto simp: grant_step_def Let_def split: option.splits if_splits)
  with Cons.IH step show ?case by simp
qed simp

lemma revocation_ends:
  assumes x: "x \<in> set (active_workspace_read_grants es)" and e: "revokes e x" and fs: "fs = es @ e # rest"
  shows "(\<forall>y \<in> set (active_workspace_read_grants fs). gr_id y \<noteq> gr_id x)
    \<and> (\<exists>z \<in> set fs. map_option gr_id (workspace_read_granted z) = Some (gr_id x))"
proof -
  obtain used active where ua: "foldl grant_step ([], []) es = (used, active)" by (cases "foldl grant_step ([], []) es")
  have x': "x \<in> set active" using x grant_step_fold [of es] ua by simp
  have "workspace_read_granted e = None"
    using e by (auto simp: revokes_def workspace_read_revoked_def workspace_read_granted_def split: option.splits if_splits)
  then have step: "grant_step (used, active) e = (used, filter (\<lambda>g. \<not> revokes e g) active)" by (simp add: grant_step_def)
  have "distinct (map gr_id active)" and used: "gr_id ` set active \<subseteq> set used" using grant_fold_distinct [of es] ua by simp_all
  then have "gr_id x \<notin> gr_id ` set (filter (\<lambda>g. \<not> revokes e g) active)"
    using x' e by (auto simp: distinct_map inj_on_def)
  from unused_grant_stays [OF _ this, of used rest] used x' step ua
  have "gr_id x \<in> set (fst (foldl grant_step ([], []) fs)) \<and> gr_id x \<notin> gr_id ` set (snd (foldl grant_step ([], []) fs))"
    by (auto simp: fs)
  with grant_step_fold [of fs] have "gr_id x \<notin> gr_id ` set (active_workspace_read_grants fs)"
    "\<exists>z \<in> set fs. map_option gr_id (workspace_read_granted z) = Some (gr_id x)" by auto
  then show ?thesis by (metis imageI)
qed

text \<open>
  C27. A revoked grant stays revoked. After a repository has revoked a grant to read its channel,
  at any later state of the log the grant is not in force, and no repository of the channel can
  issue a grant under its identifier again.
\<close>

theorem grant_revocation_is_final:
  assumes "digits_ok h" and "total_preorder (locale_le h)" and "mr_ops repo = interleaved (in_memory h s)"
    and "mr_ops repo' = interleaved (in_memory h s)"
    and "memory_ok h s st" and "\<forall>f \<in> set (fs @ gs). peer h s f"
    and "run_memory_op repo stamp (RevokeRead g a) (st, fs) = (Inr (), (st1, fs1))"
    and "memory_ok h s st2" and "memory_log_of h s st2 = memory_log_of h s st1 @ new"
    and "run_memory_op repo' stamp' (GrantRead g t a') (st2, gs) = (r, (st3, gs'))"
  shows "r \<noteq> Inr () \<and> (\<forall>x \<in> set (active_workspace_read_grants (memory_log_of h s st2)). gr_id x \<noteq> g)"
proof -
  have h: "good_host h" by (rule good_host.intro [OF assms(1,2)])
  have peers: "\<forall>f \<in> set fs. peer h s f" "\<forall>f \<in> set gs. peer h s f" using assms(6) by simp_all
  note first = shared_effect [OF h assms(3,5) peers(1) assms(7)]
  note second = shared_effect [OF h assms(4,8) peers(2) assms(10)]
  obtain es more e x where log: "memory_log_of h s st1 = es @ e # more"
    and x: "x \<in> set (active_workspace_read_grants es)" "gr_id x = g" "revokes e x"
    using first(3) by (auto simp: happened_def) (metis append.assoc)
  have ended: "(\<forall>y \<in> set (active_workspace_read_grants (memory_log_of h s st2 @ later)). gr_id y \<noteq> g)
      \<and> (\<exists>z \<in> set (memory_log_of h s st2 @ later). map_option gr_id (workspace_read_granted z) = Some g)" for later
  proof -
    have "memory_log_of h s st2 @ later = es @ e # (more @ new @ later)" by (simp add: assms(9) log)
    from revocation_ends [OF x(1,3) this] show ?thesis unfolding x(2) .
  qed
  have "r \<noteq> Inr ()"
  proof
    assume "r = Inr ()"
    from second(3) [OF this] obtain later where "workspace_read_grant_by_id (memory_log_of h s st2 @ later) g = None"
      unfolding happened_def by auto
    with ended [of later] show False by (fastforce simp: workspace_read_grant_by_id_def find_map_None_iff split: option.splits if_splits)
  qed
  with ended [of "[]"] show ?thesis by simp
qed

lemma grant_revocation_is_final_witness:
  "fst (run_memory_op demo_shared_repo (''m4'', ''7'') (GrantRead ''g'' ''d'' ''o'')
      (demo_notes [demo_proposal, demo_acceptance, demo_grant, demo_revocation], [])) \<noteq> Inr ()"
proof -
  let ?st = "demo_notes [demo_proposal, demo_acceptance, demo_grant, demo_revocation]"
  obtain r st3 gs where run: "run_memory_op demo_shared_repo (''m4'', ''7'') (GrantRead ''g'' ''d'' ''o'') (?st, []) = (r, (st3, gs))"
    by (metis prod.collapse)
  have "memory_ok demo_host demo_scope ?st"
    using shared_effect(1) [OF demo.good_host_axioms _ demo_memory_ok(3) _ demo_revoke] by simp
  from grant_revocation_is_final [OF digits_ok_demo_host total_preorder_demo_host _ _ demo_memory_ok(3) _ demo_revoke this _ run,
      of "[]"] run
  show ?thesis by simp
qed

text \<open>
  The scan for the grants in force, which compares every grant with all events before and
  after it, computes what one pass over the log computes that drops a grant when it is revoked
  and ignores a grant whose identifier has been used.
\<close>

theorem active_grants_in_one_pass:
  "active_workspace_read_grants es = grants_in_force es \<and> distinct (map gr_id (active_workspace_read_grants es))"
  using grant_step_fold [of es] grant_fold_distinct [of es] by (simp add: grants_in_force_def)

end
