(* ===== verification/MemoryRetrieval.thy ===== *)
theory MemoryRetrieval
  imports MemoryProperties
begin

text \<open>
  Retrieval over the in-memory store: which memories it shows, from which channels, and what it
  writes into the run it serves; and the checks that come before any access.
\<close>

section \<open>What a retrieval returns\<close>

abbreviation channel_of :: "'s memory_repo \<Rightarrow> string" where
  "channel_of repo \<equiv> sc_channel (mr_scope repo)"

text \<open>A memory of another channel that a grant lets this channel see.\<close>

definition granted_from :: "host \<Rightarrow> store memory_repo \<Rightarrow> string list \<Rightarrow> (string \<times> string) list \<Rightarrow> store \<Rightarrow> accepted_memory_entry \<Rightarrow> bool" where
  "granted_from h repo tokens refs st m \<longleftrightarrow> (\<exists>g m'. am_grant m = Some g \<and> m = m'\<lparr>am_grant := Some g\<rparr>
     \<and> sc_workspace (am_scope m) = sc_workspace (mr_scope repo) \<and> sc_channel (am_scope m) \<noteq> channel_of repo
     \<and> (gr_id g, sc_channel (am_scope m)) \<in> set refs \<and> gr_target g = channel_of repo
     \<and> g \<in> set (active_workspace_read_grants (memory_log_of h (am_scope m) st))
     \<and> m' \<in> set (retrieve_accepted_memories (memory_log_of h (am_scope m) st) (am_scope m) tokens))"

lemma read_memory: "store_ok h st \<Longrightarrow> read_memory_events (in_memory h s) st = (Inr (memory_log_of h s st), st)"
  by (simp add: read_memory_events_def read_all memory_log_of_def)

lemma entry_scope: "m \<in> set (retrieve_accepted_memories es s tokens) \<Longrightarrow> am_scope m = s \<and> am_grant m = None"
  by (auto simp: retrieve_eq memory_entry_def split: if_splits)

lemma granted_from_more: "granted_from h repo tokens refs st m \<Longrightarrow> granted_from h repo tokens (x # refs) st m"
  by (auto simp: granted_from_def)

lemma granted_memories_run:
  assumes ok: "store_ok h st" and ops: "mr_store repo = in_memory h"
  shows "granted_memories repo tokens refs st = (r, st') \<Longrightarrow>
    st' = st \<and> (\<forall>ms. r = Inr ms \<longrightarrow> (\<forall>m \<in> set ms. granted_from h repo tokens refs st m))"
proof (induction refs arbitrary: r st')
  case (Cons ref refs)
  obtain i src where ref: "ref = (i, src)" by (cases ref)
  let ?s = "\<lparr>sc_workspace = sc_workspace (mr_scope repo), sc_channel = src\<rparr>"
  let ?es = "memory_log_of h ?s st"
  have skip: ?case if "granted_memories repo tokens refs st = (r, st')"
    using Cons.IH [OF that] granted_from_more by blast
  show ?case
  proof (cases "i = [] \<or> src = [] \<or> src = channel_of repo")
    case True
    with Cons.prems have "granted_memories repo tokens refs st = (r, st')" by (simp add: ref)
    then show ?thesis by (rule skip)
  next
    case False
    show ?thesis
    proof (cases "scope_ok ?s")
      case bad: False
      then have "parse_channel_scope (scope_js ?s) \<noteq> Inr x" for x by (simp add: parse_channel_scope_js)
      then obtain y where "parse_channel_scope (scope_js ?s) = Inl y" by (cases "parse_channel_scope (scope_js ?s)") auto
      with Cons.prems False show ?thesis by (auto simp: ref act_bind_def act_lift_def)
    next
      case True
      then have scope: "parse_channel_scope (scope_js ?s) = Inr ?s" by (simp add: parse_channel_scope_js)
      show ?thesis
      proof (cases "find (\<lambda>g. gr_id g = i \<and> gr_target g = channel_of repo) (active_workspace_read_grants ?es)")
        case None
        with Cons.prems False scope have "granted_memories repo tokens refs st = (r, st')"
          by (simp add: ref ops act_bind_run act_lift_def read_memory [OF ok])
        then show ?thesis by (rule skip)
      next
        case (Some g)
        then have g: "g \<in> set (active_workspace_read_grants ?es)" "gr_id g = i" "gr_target g = channel_of repo"
          by (auto simp: find_Some_iff)
        obtain r1 st1 where rest: "granted_memories repo tokens refs st = (r1, st1)"
          by (cases "granted_memories repo tokens refs st")
        note IH = Cons.IH [OF rest]
        have run: "granted_memories repo tokens (ref # refs) st = act_bind (granted_memories repo tokens refs) (\<lambda>rest.
            act_return (map (\<lambda>m. m\<lparr>am_grant := Some g\<rparr>) (retrieve_accepted_memories ?es ?s tokens) @ rest)) st"
          using False scope Some by (simp add: ref ops act_bind_run act_lift_def read_memory [OF ok])
        have here: "granted_from h repo tokens (ref # refs) st (m\<lparr>am_grant := Some g\<rparr>)"
          if m: "m \<in> set (retrieve_accepted_memories ?es ?s tokens)" for m
          unfolding granted_from_def using entry_scope [OF m] m g False
          by (intro exI [of _ g] exI [of _ m]) (simp add: ref)
        show ?thesis
        proof (cases r1)
          case (Inl y)
          with run rest IH Cons.prems show ?thesis by (auto simp: act_bind_def)
        next
          case (Inr ms)
          with run rest Cons.prems have r: "r = Inr (map (\<lambda>m. m\<lparr>am_grant := Some g\<rparr>) (retrieve_accepted_memories ?es ?s tokens) @ ms)"
            "st' = st1" by (simp_all add: act_bind_run act_return_def)
          have "\<And>x. granted_from h repo tokens refs st x \<Longrightarrow> granted_from h repo tokens (ref # refs) st x"
            by (rule granted_from_more)
          with IH Inr here r show ?thesis by auto
        qed
      qed
    qed
  qed
qed (simp add: act_return_def)

section \<open>Recording hits\<close>

definition hit_event :: "scope \<Rightarrow> (nat \<Rightarrow> string \<times> string) \<Rightarrow> string \<Rightarrow> nat \<Rightarrow> nat \<Rightarrow> accepted_memory_entry \<Rightarrow> canonical_event" where
  "hit_event s stamp run n i m = memory_event s (stamp i) run (int (n + i)) ''memory.hit'' (hit_payload (Suc i) m)"

lemma append_next:
  assumes h: "digits_ok h" and ok: "log_ok h st" and e: "ev_seq e = int (length (stream_events h s (ev_stream e) st))"
    and run: "append_event h s e st = (Inr (), st')"
  shows "st' = push_event h s e st"
  using append_event_cases [OF run]
proof
  assume st': "st' = st"
  from append_stores [OF h ok run] obtain e' where e': "e' \<in> set (stream_events h s (ev_stream e) st)" "same_event e' e"
    by (auto simp: st')
  then obtain n where "n < length (stream_events h s (ev_stream e) st)" "ev_seq e' = int n"
    using log_ok_nth(4) [OF ok] by (metis in_set_conv_nth)
  with same_event_fields [OF e'(2)] e show ?thesis by simp
qed simp

lemma append_hits_run:
  assumes h: "good_host h" and ops: "mr_ops repo = in_memory h (mr_scope repo)"
  shows "store_ok h st \<Longrightarrow> length (stream_events h (mr_scope repo) run st) = n + i \<Longrightarrow>
    append_hits repo stamp run (int (n + i)) i ms st = (Inr (), st') \<Longrightarrow>
    store_ok h st' \<and> (\<forall>s x. stream_events h s x st' = stream_events h s x st
      @ (if s = mr_scope repo \<and> x = run then map (\<lambda>j. hit_event (mr_scope repo) stamp run n (i + j) (ms ! j)) [0..<length ms] else []))"
proof (induction ms arbitrary: i st)
  case (Cons m ms)
  let ?e = "hit_event (mr_scope repo) stamp run n i m"
  have dig: "digits_ok h" and order: "total_preorder (locale_le h)" using h by (simp_all add: good_host_def)
  obtain st1 where a: "append_event h (mr_scope repo) ?e st = (Inr (), st1)"
    and rest: "append_hits repo stamp run (int (n + Suc i)) (Suc i) ms st1 = (Inr (), st')"
    using Cons.prems(3) by (auto simp: ops act_simps hit_event_def add_ac)
  have log: "log_ok h st" using Cons.prems(1) by (simp add: store_ok_def)
  have e: "ev_stream ?e = run" "ev_seq ?e = int (n + i)" by (simp_all add: hit_event_def memory_event_def)
  from append_next [OF dig log _ a] e Cons.prems(2) have st1: "st1 = push_event h (mr_scope repo) ?e st" by simp
  have "st_commands st1 = st_commands st" by (simp add: st1 push_event_def)
  then have "commands_ok h st1 = commands_ok h st" "st_commands st1 = st_commands st" by (simp_all only: commands_ok_def)
  with append_event_log_ok [OF log a] Cons.prems(1) have ok1: "store_ok h st1" by (simp add: store_ok_def)
  have "length (stream_events h (mr_scope repo) run st1) = n + Suc i" using Cons.prems(2) e by (simp add: st1)
  from Cons.IH [OF ok1 this rest]
  have IH: "store_ok h st'" "\<And>s x. stream_events h s x st' = stream_events h s x st1
      @ (if s = mr_scope repo \<and> x = run then map (\<lambda>j. hit_event (mr_scope repo) stamp run n (Suc i + j) (ms ! j)) [0..<length ms] else [])"
    by blast+
  have "map (\<lambda>j. hit_event (mr_scope repo) stamp run n (i + j) ((m # ms) ! j)) [0..<length (m # ms)]
      = ?e # map (\<lambda>j. hit_event (mr_scope repo) stamp run n (Suc i + j) (ms ! j)) [0..<length ms]"
    by (simp add: upt_conv_Cons map_Suc_upt [symmetric] comp_def del: upt_Suc)
  with IH show ?case by (auto simp: st1 e)
qed (simp add: act_return_def)


section \<open>Retrieval\<close>

definition remembered :: "host \<Rightarrow> store memory_repo \<Rightarrow> string list \<Rightarrow> (string \<times> string) list \<Rightarrow> store \<Rightarrow> accepted_memory_entry \<Rightarrow> bool" where
  "remembered h repo tokens refs st m \<longleftrightarrow>
     m \<in> set (retrieve_accepted_memories (memory_log_of h (mr_scope repo) st) (mr_scope repo) tokens)
     \<or> granted_from h repo tokens refs st m"

text \<open>The run a retrieval is recorded for: claimed in the channel, with a profile that reads memory.\<close>

definition recording_run :: "host \<Rightarrow> scope \<Rightarrow> store \<Rightarrow> string \<Rightarrow> bool" where
  "recording_run h s st i \<longleftrightarrow> i \<noteq> [] \<and> (\<exists>c. run_entry h s st i = Some c \<and> mem_read (rp_memory (rf_snapshot (sr_fields c))) \<noteq> ''none'')
     \<and> ''run.started'' \<in> set (map ev_type (stream_events h s i st))"

lemma retrieve_run:
  assumes h: "good_host h" and ok: "store_ok h st" and ops: "mr_store repo = in_memory h"
    and run: "mr_retrieve repo stamp query limit run_id refs st = (Inr ms, st')"
  shows "1 \<le> limit \<and> limit \<le> 32 \<and> mem_read (mr_policy repo) \<noteq> ''none'' \<and> length ms \<le> nat limit
    \<and> (\<forall>m \<in> set ms. remembered h repo (memory_query_tokens query) refs st m)
    \<and> mr_retrieve repo stamp query limit None refs st = (Inr ms, st)
    \<and> (\<forall>i. run_id = Some i \<longrightarrow> recording_run h (mr_scope repo) st i)
    \<and> (\<forall>s x. stream_events h s x st' = stream_events h s x st @ (if s = mr_scope repo \<and> run_id = Some x
         then map (\<lambda>j. hit_event s stamp x (length (stream_events h s x st)) j (ms ! j)) [0..<length ms] else []))"
proof -
  let ?t = "memory_query_tokens query"
  let ?own = "retrieve_accepted_memories (memory_log_of h (mr_scope repo) st) (mr_scope repo) ?t"
  have own: "mr_ops repo = in_memory h (mr_scope repo)" by (simp add: mr_ops_def ops)
  have limit: "1 \<le> limit" "limit \<le> 32" and policy: "mem_read (mr_policy repo) \<noteq> ''none''"
    using run by (auto simp: mr_retrieve_def act_throw_def split: if_splits)
  obtain command st1 where c: "retrieval_run repo run_id st = (Inr command, st1)"
    using run limit policy by (auto simp: mr_retrieve_def act_simps split: if_splits)
  have same: "st1 = st" and command: "case run_id of None \<Rightarrow> command = None
      | Some i \<Rightarrow> i \<noteq> [] \<and> (\<exists>c. command = Some c \<and> run_entry h (mr_scope repo) st i = Some c)"
    using c by (auto simp: retrieval_run_def own act_simps get_command_entry [OF ok] non_empty_string_def
        split: option.splits if_splits)
  have read: "\<not> (case command of None \<Rightarrow> False | Some c \<Rightarrow> mem_read (rp_memory (rf_snapshot (sr_fields c))) = ''none'')"
    using run limit policy c by (auto simp: mr_retrieve_def act_simps split: if_splits)
  obtain granted st2 where g: "granted_memories repo ?t refs st = (Inr granted, st2)"
    using run limit policy c read
    by (auto simp: mr_retrieve_def act_simps own same read_memory [OF ok] Let_def split: if_splits)
  from granted_memories_run [OF ok ops g] have st2: "st2 = st" and gr: "\<forall>m \<in> set granted. granted_from h repo ?t refs st m" by auto
  let ?ms = "take (nat limit) (?own @ granted)"
  have ms_run: "mr_retrieve repo stamp query limit None refs st = (Inr ?ms, st)"
    using limit policy g by (simp add: mr_retrieve_def retrieval_run_def record_hits_def act_bind_run act_return_def own
        read_memory [OF ok] st2 Let_def)
  have tail: "record_hits repo stamp run_id ?ms st = (Inr ms, st')"
    using run limit policy c read g
    by (simp add: mr_retrieve_def act_bind_run own same read_memory [OF ok] st2 Let_def del: take_append)
  have rem: "\<forall>m \<in> set ?ms. remembered h repo ?t refs st m"
    using gr by (auto simp: remembered_def dest!: in_set_takeD)
  have len: "length ?ms \<le> nat limit" by simp
  show ?thesis
  proof (cases run_id)
    case None
    with tail have "ms = ?ms" "st' = st" by (auto simp: record_hits_def act_return_def simp del: take_append)
    with limit policy ms_run rem len None show ?thesis by (simp del: take_append)
  next
    case (Some i)
    let ?es = "stream_events h (mr_scope repo) i st"
    have started: "''run.started'' \<in> set (map ev_type ?es)" and ms: "ms = ?ms"
      and hits: "append_hits repo stamp i (next_sequence ?es) 0 ?ms st = (Inr (), st')"
      using tail Some by (auto simp: record_hits_def own act_simps read_all [OF ok] list_ex_iff simp del: take_append intro: rev_image_eqI split: if_splits)
    have "next_sequence ?es = int (length ?es + 0)"
      using log_ok_nth(4) [of h st _ "mr_scope repo" i] ok by (simp add: next_sequence_numbered store_ok_def)
    with hits have "append_hits repo stamp i (int (length ?es + 0)) 0 ?ms st = (Inr (), st')" by simp
    from append_hits_run [OF h own ok _ this]
    have streams: "stream_events h s x st' = stream_events h s x st @ (if s = mr_scope repo \<and> run_id = Some x
         then map (\<lambda>j. hit_event s stamp x (length (stream_events h s x st)) j (ms ! j)) [0..<length ms] else [])" for s x
      unfolding ms Some by auto
    have "recording_run h (mr_scope repo) st i" using command read started by (auto simp: recording_run_def Some)
    with limit policy ms_run rem len streams ms Some show ?thesis by (simp del: take_append)
  qed
qed

text \<open>
  C29. A retrieval shows only what it may. It returns at most as many memories as asked for, up to
  32, and only under a profile that reads memory; each of them contains every token of the query,
  was accepted and is not deleted in the log of the channel it comes from, and comes from this
  channel or, through a named grant in force, from another channel of the same workspace that
  granted this channel the reading.
\<close>

theorem retrieval_is_confined:
  assumes "digits_ok h" and "total_preorder (locale_le h)" and "store_ok h st" and "mr_store repo = in_memory h"
    and "mr_retrieve repo stamp query limit run_id refs st = (Inr ms, st')" and "m \<in> set ms"
  shows "length ms \<le> nat limit \<and> limit \<le> 32 \<and> mem_read (mr_policy repo) \<noteq> ''none''
    \<and> memory_query_tokens query \<noteq> []
    \<and> (\<forall>t \<in> set (memory_query_tokens query). text_includes (to_lower (am_content m)) t)
    \<and> accepted_memory (memory_log_of h (am_scope m) st) (am_id m) \<noteq> None
    \<and> deleted_memory (memory_log_of h (am_scope m) st) (am_id m) = None
    \<and> sc_workspace (am_scope m) = sc_workspace (mr_scope repo)
    \<and> (sc_channel (am_scope m) \<noteq> channel_of repo \<longrightarrow>
        (\<exists>g \<in> set (active_workspace_read_grants (memory_log_of h (am_scope m) st)).
           am_grant m = Some g \<and> gr_target g = channel_of repo \<and> (gr_id g, sc_channel (am_scope m)) \<in> set refs))"
proof -
  note facts = retrieve_run [OF good_host.intro [OF assms(1,2)] assms(3-5)]
  from facts assms(6) have "remembered h repo (memory_query_tokens query) refs st m" by blast
  then obtain m' where m': "m' \<in> set (retrieve_accepted_memories (memory_log_of h (am_scope m) st) (am_scope m) (memory_query_tokens query))"
      "am_content m = am_content m'" "am_id m = am_id m'"
    and origin: "m = m' \<and> am_scope m = mr_scope repo \<or> granted_from h repo (memory_query_tokens query) refs st m"
    unfolding remembered_def using entry_scope by (fastforce simp: granted_from_def)
  from m' have "memory_query_tokens query \<noteq> []
      \<and> (\<forall>t \<in> set (memory_query_tokens query). text_includes (to_lower (am_content m)) t)
      \<and> accepted_memory (memory_log_of h (am_scope m) st) (am_id m) \<noteq> None
      \<and> deleted_memory (memory_log_of h (am_scope m) st) (am_id m) = None"
    by (auto simp: retrieve_eq memory_entry_def retrievable_def split: if_splits)
  moreover from origin have "sc_workspace (am_scope m) = sc_workspace (mr_scope repo)
      \<and> (sc_channel (am_scope m) \<noteq> channel_of repo \<longrightarrow>
        (\<exists>g \<in> set (active_workspace_read_grants (memory_log_of h (am_scope m) st)).
           am_grant m = Some g \<and> gr_target g = channel_of repo \<and> (gr_id g, sc_channel (am_scope m)) \<in> set refs))"
    unfolding granted_from_def by auto
  ultimately show ?thesis using facts by blast
qed

definition demo_reader :: "store memory_repo" where
  "demo_reader = (demo_repo (in_memory demo_host))\<lparr>mr_scope := other_scope\<rparr>"

definition demo_memory :: accepted_memory_entry where
  "demo_memory = \<lparr>am_id = ''m'', am_content = ''Tea'', am_run = ''r'', am_events = [''a''], am_scope = demo_scope,
     am_accepted = \<lparr>de_id = ''m'', de_actor = ''o'', de_event = ''m1'', de_at = ''7''\<rparr>, am_edit = None, am_grant = None\<rparr>"

lemma demo_tokens: "memory_query_tokens ''A tea'' = [''tea'']" "text_includes (to_lower ''Tea'') ''tea''"
  by code_simp+

lemma demo_retrieved:
  "retrieve_accepted_memories [demo_proposal, demo_acceptance] demo_scope [''tea''] = [demo_memory]"
  "retrieve_accepted_memories [demo_proposal, demo_acceptance, demo_grant] demo_scope [''tea''] = [demo_memory]"
  using demo_tokens(2)
  by (simp_all add: retrieve_accepted_memories_def retrieve_event_def current_edit_def latest_edited_memory_def
      latest_edited_candidate_def deleted_memory_def demo_memory_def del: text_includes.simps)

lemma demo_reads: "read_memory_events (in_memory demo_host demo_scope) (demo_notes [demo_proposal, demo_acceptance, demo_grant])
    = (Inr [demo_proposal, demo_acceptance, demo_grant], demo_notes [demo_proposal, demo_acceptance, demo_grant])"
  "read_memory_events (in_memory demo_host other_scope) (demo_notes [demo_proposal, demo_acceptance, demo_grant])
    = (Inr [], demo_notes [demo_proposal, demo_acceptance, demo_grant])"
  by (simp_all add: read_memory demo_notes_store memory_log_of_def demo_notes_log)
    (simp add: demo_notes_def other_scope_def demo_scope_def)

lemma demo_reader_retrieves:
  "mr_retrieve demo_reader stamp ''A tea'' 3 None [(''g'', ''c'')] (demo_notes [demo_proposal, demo_acceptance, demo_grant])
    = (Inr [demo_memory\<lparr>am_grant := Some \<lparr>gr_id = ''g'', gr_target = ''d'', gr_actor = ''o'', gr_event = ''m2'', gr_at = ''7''\<rparr>\<rparr>],
       demo_notes [demo_proposal, demo_acceptance, demo_grant])"
proof -
  have repo: "mr_scope demo_reader = other_scope" "mr_store demo_reader = in_memory demo_host"
    "mem_read (mr_policy demo_reader) = ''channel''" "mr_ops demo_reader = in_memory demo_host other_scope"
    by (simp_all add: demo_reader_def demo_repo_def mr_ops_def)
  have scopes: "sc_channel other_scope = ''d''" "sc_workspace other_scope = ''w''" "\<lparr>sc_workspace = ''w'', sc_channel = ''c''\<rparr> = demo_scope"
    by (simp_all add: other_scope_def demo_scope_def)
  have "scope_ok demo_scope" by (simp add: scope_ok_def demo_scope_def is_blank_iff is_space_def)
  then have parse: "parse_channel_scope (scope_js demo_scope) = Inr demo_scope" by (simp add: parse_channel_scope_js)
  have "active_workspace_read_grants [demo_proposal, demo_acceptance, demo_grant]
      = [\<lparr>gr_id = ''g'', gr_target = ''d'', gr_actor = ''o'', gr_event = ''m2'', gr_at = ''7''\<rparr>]"
    by (simp add: active_workspace_read_grants_def)
  then have "granted_memories demo_reader [''tea''] [(''g'', ''c'')] (demo_notes [demo_proposal, demo_acceptance, demo_grant])
      = (Inr [demo_memory\<lparr>am_grant := Some \<lparr>gr_id = ''g'', gr_target = ''d'', gr_actor = ''o'', gr_event = ''m2'', gr_at = ''7''\<rparr>\<rparr>],
       demo_notes [demo_proposal, demo_acceptance, demo_grant])"
    by (simp add: repo scopes parse act_bind_run act_lift_def act_return_def demo_reads demo_retrieved)
  then show ?thesis
    by (simp add: mr_retrieve_def repo retrieval_run_def act_bind_run act_return_def demo_reads demo_tokens record_hits_def
        retrieve_accepted_memories_def Let_def del: granted_memories.simps)
qed

lemma retrieval_is_confined_witness:
  "\<exists>g \<in> set (active_workspace_read_grants [demo_proposal, demo_acceptance, demo_grant]). gr_target g = ''d''"
proof -
  have parts: "sc_channel (mr_scope demo_reader) = ''d''" "mr_store demo_reader = in_memory demo_host"
    "am_scope (demo_memory\<lparr>am_grant := x\<rparr>) = demo_scope" "sc_channel demo_scope = ''c''" for x
    by (simp_all add: demo_reader_def demo_repo_def demo_memory_def other_scope_def demo_scope_def)
  have log: "memory_log_of demo_host demo_scope (demo_notes [demo_proposal, demo_acceptance, demo_grant])
      = [demo_proposal, demo_acceptance, demo_grant]" by (simp only: memory_log_of_def demo_notes_log)
  from retrieval_is_confined [OF digits_ok_demo_host total_preorder_demo_host demo_notes_store(4) parts(2)
      demo_reader_retrieves list.set_intros(1), unfolded parts log]
  have "''c'' \<noteq> ''d'' \<longrightarrow> ?thesis" by blast
  then show ?thesis by simp
qed

text \<open>
  C30. A retrieval for a run is recorded in the run. It returns what the same retrieval returns
  without a run, requires that the run was claimed, has started and may read memory, and appends to
  the run's stream one \<open>memory.hit\<close> event for every returned memory, in their order and with their
  ranks, under the next numbers of the stream; no other stream changes.
\<close>

theorem retrieval_records_hits:
  assumes "digits_ok h" and "total_preorder (locale_le h)" and "store_ok h st" and "mr_store repo = in_memory h"
    and "mr_retrieve repo stamp query limit (Some i) refs st = (Inr ms, st')"
  shows "mr_retrieve repo stamp query limit None refs st = (Inr ms, st)
    \<and> recording_run h (mr_scope repo) st i
    \<and> (\<forall>s x. stream_events h s x st' = stream_events h s x st @ (if s = mr_scope repo \<and> x = i
         then map (\<lambda>j. memory_event s (stamp j) i (int (length (stream_events h s i st) + j)) ''memory.hit''
           (hit_payload (Suc j) (ms ! j))) [0..<length ms] else []))"
  using retrieve_run [OF good_host.intro [OF assms(1,2)] assms(3-5)]
  by (auto simp: hit_event_def)

definition demo_run_notes :: store where
  "demo_run_notes = push_event demo_host demo_scope demo_acceptance (push_event demo_host demo_scope demo_proposal
     (demo_run_with ''run.started''))"

lemma demo_run_notes_facts:
  "store_ok demo_host demo_run_notes" "memory_log_of demo_host demo_scope demo_run_notes = [demo_proposal, demo_acceptance]"
  "stream_events demo_host demo_scope ''r'' demo_run_notes = [demo_event ''a'' 0 ''run.started'']"
  "run_entry demo_host demo_scope demo_run_notes ''r'' = Some demo_start"
proof -
  let ?st = "demo_run_with ''run.started''"
  have ok: "store_ok demo_host ?st" by (rule reachable_store_ok [OF total_preorder_demo_host demo_started_run(1)])
  have st: "stream_events demo_host demo_scope memory_stream ?st = []" "stored_event demo_host demo_scope ''m0'' ?st = None"
    "stored_event demo_host demo_scope ''m1'' ?st = None" "stream_events demo_host demo_scope ''r'' ?st = [demo_event ''a'' 0 ''run.started'']"
    by (simp_all add: demo_run_with_push demo_blank demo_claims_streams) (simp_all add: demo_event_def memory_stream_def)
  have parts: "ev_scope demo_proposal = demo_scope" "ev_scope demo_acceptance = demo_scope" "memory_stream \<noteq> ''r''"
    by (simp_all add: demo_proposal_def demo_acceptance_def memory_stream_def)
  have "store_ok demo_host (push_event demo_host demo_scope demo_proposal ?st)"
    by (rule store_ok_push [OF ok demo_notes_ok(1)]) (simp_all add: st demo_seqs parts sealed_def)
  then show "store_ok demo_host demo_run_notes" unfolding demo_run_notes_def
    by (rule store_ok_push [OF _ demo_notes_ok(2)]) (simp_all add: st demo_seqs parts demo_open)
  show "memory_log_of demo_host demo_scope demo_run_notes = [demo_proposal, demo_acceptance]"
    "stream_events demo_host demo_scope ''r'' demo_run_notes = [demo_event ''a'' 0 ''run.started'']"
    using parts by (simp_all add: memory_log_of_def demo_run_notes_def demo_seqs st)
  show "run_entry demo_host demo_scope demo_run_notes ''r'' = Some demo_start"
    using demo_started_run(4) by (simp add: demo_run_notes_def run_entry_def push_event_def)
qed

lemma retrieval_records_hits_witness:
  "\<exists>st'. mr_retrieve (demo_repo (in_memory demo_host)) (\<lambda>j. (''z'', ''7'')) ''A tea'' 3 (Some ''r'') [] demo_run_notes = (Inr [demo_memory], st')
     \<and> map ev_type (stream_events demo_host demo_scope ''r'' st') = [''run.started'', ''memory.hit'']"
proof -
  note facts = demo_run_notes_facts
  let ?e = "memory_event demo_scope (''z'', ''7'') ''r'' 1 ''memory.hit'' (hit_payload (Suc 0) demo_memory)"
  let ?st = "push_event demo_host demo_scope ?e demo_run_notes"
  have "is_json (hit_payload (Suc 0) demo_memory)" by (simp add: hit_payload_def demo_memory_def opt_field_def js_strings_def)
  then have "event_ok demo_host ?e"
    by (simp add: event_ok_def memory_event_def scope_ok_def demo_scope_def is_blank_iff is_space_def demo_host_def
        parse_millis_def is_digit_def max_safe_def)
  moreover have "stored_event demo_host demo_scope ''z'' demo_run_notes = None"
    by (simp add: demo_run_notes_def demo_run_with_push demo_blank demo_claims_streams demo_seqs) (simp add: demo_event_def)
  ultimately have append: "append_event demo_host demo_scope ?e demo_run_notes = (Inr (), ?st)"
    by (intro append_new) (simp_all add: memory_event_def facts(3) sealed_def demo_started_open)
  have read: "mem_read (rp_memory (rf_snapshot (sr_fields demo_start))) = ''channel''"
    by (simp add: demo_start_def demo_fields_def demo_snapshot_facts)
  have parts: "mr_scope (demo_repo (in_memory demo_host)) = demo_scope" "mr_ops (demo_repo (in_memory demo_host)) = in_memory demo_host demo_scope"
    "mem_read (mr_policy (demo_repo (in_memory demo_host))) = ''channel''"
    by (simp_all add: demo_repo_def mr_ops_def)
  have "ev_type (demo_event ''a'' 0 ''run.started'') = ''run.started''" "ev_seq (demo_event ''a'' 0 ''run.started'') = 0"
    by (simp_all add: demo_event_def)
  then have run: "mr_retrieve (demo_repo (in_memory demo_host)) (\<lambda>j. (''z'', ''7'')) ''A tea'' 3 (Some ''r'') [] demo_run_notes
      = (Inr [demo_memory], ?st)"
    by (simp add: mr_retrieve_def parts retrieval_run_def act_bind_run act_return_def act_lift_def non_empty_string_def read
        get_command_entry [OF facts(1)] read_memory [OF facts(1)] read_all [OF facts(1)] facts demo_retrieved demo_tokens(1)
        record_hits_def act_seq_def next_sequence_def append Let_def)
  have store: "mr_store (demo_repo (in_memory demo_host)) = in_memory demo_host" by (simp add: demo_repo_def)
  note hits = retrieval_records_hits [OF digits_ok_demo_host total_preorder_demo_host facts(1) store run, unfolded parts(1)]
  from hits [THEN conjunct2, THEN conjunct2, rule_format, of demo_scope "''r''"]
  have "stream_events demo_host demo_scope ''r'' ?st = stream_events demo_host demo_scope ''r'' demo_run_notes
      @ map (\<lambda>j. memory_event demo_scope (''z'', ''7'') ''r'' (int (length (stream_events demo_host demo_scope ''r'' demo_run_notes) + j))
          ''memory.hit'' (hit_payload (Suc j) ([demo_memory] ! j))) [0..<length [demo_memory]]"
    by (simp only: simp_thms if_True)
  then have "map ev_type (stream_events demo_host demo_scope ''r'' ?st) = [''run.started'', ''memory.hit'']"
    by (simp add: facts demo_event_def memory_event_def)
  with run show ?thesis by (intro exI conjI)
qed

section \<open>Access\<close>

fun op_actor :: "memory_op \<Rightarrow> string option" where
  "op_actor (Propose _ _ _ _) = None"
| "op_actor (EditCandidate _ _ a) = Some a"
| "op_actor (DeleteCandidate _ a) = Some a"
| "op_actor (Accept _ a) = Some a"
| "op_actor (Reject _ a) = Some a"
| "op_actor (Edit _ _ a) = Some a"
| "op_actor (Delete _ a) = Some a"
| "op_actor (GrantRead _ _ a) = Some a"
| "op_actor (RevokeRead _ a) = Some a"

lemma owner_first:
  "op_actor op = Some a \<Longrightarrow> \<exists>m. run_memory_op repo stamp op = as_owner repo a m"
  by (cases op) (auto simp: mr_edit_candidate_def mr_delete_candidate_def mr_accept_def mr_reject_def mr_decide_def mr_edit_def
      mr_delete_def mr_grant_def mr_revoke_def)

text \<open>
  Access is checked before anything is read or written, over any store: a proposal under a
  profile that forbids memory writes, an operation of a channel owner by somebody whom the
  authorization refuses or without a name, and a retrieval with a limit out of range or under a
  profile that forbids memory reads end with the corresponding error and leave the store as it was.
\<close>

theorem memory_access_is_checked:
  "(mem_write (mr_policy repo) \<noteq> ''propose'' \<longrightarrow>
      run_memory_op repo stamp (Propose i content run es) st = (Inl (PlainError ''Memory writes are disabled by the RunProfile''), st))
   \<and> (op_actor op = Some a \<longrightarrow> a \<noteq> [] \<longrightarrow> mr_owner repo (mr_scope repo) a = Inl x \<longrightarrow> run_memory_op repo stamp op st = (Inl x, st))
   \<and> (op_actor op = Some [] \<longrightarrow> run_memory_op repo stamp op st = (Inl (PlainError ''actorId must be a non-empty string''), st))
   \<and> (limit < 1 \<or> 32 < limit \<longrightarrow> mr_retrieve repo stamps query limit run_id refs st
        = (Inl (PlainError ''Memory retrieval limit must be a positive integer no greater than 32''), st))
   \<and> (1 \<le> limit \<longrightarrow> limit \<le> 32 \<longrightarrow> mem_read (mr_policy repo) = ''none'' \<longrightarrow> mr_retrieve repo stamps query limit run_id refs st
        = (Inl (PlainError ''Memory reads are disabled by the RunProfile''), st))"
proof (intro conjI impI)
  assume "op_actor op = Some a" "a \<noteq> []" "mr_owner repo (mr_scope repo) a = Inl x"
  then show "run_memory_op repo stamp op st = (Inl x, st)"
    using owner_first [of op a repo stamp] by (auto simp: as_owner_def act_bind_def act_lift_def non_empty_string_def)
next
  assume "op_actor op = Some []"
  then show "run_memory_op repo stamp op st = (Inl (PlainError ''actorId must be a non-empty string''), st)"
    using owner_first [of op "[]" repo stamp] by (auto simp: as_owner_def act_bind_def act_lift_def non_empty_string_def)
qed (auto simp: mr_propose_def mr_retrieve_def act_throw_def)

lemma memory_access_is_checked_witness:
  "run_memory_op (demo_repo (in_memory demo_host)) (''m9'', ''7'') (Delete ''m'' ''x'') empty_store
     = (Inl (PlainError ''not the owner''), empty_store)
   \<and> mr_retrieve (demo_repo (in_memory demo_host)) (\<lambda>j. (''z'', ''7'')) ''tea'' 33 None [] empty_store
     = (Inl (PlainError ''Memory retrieval limit must be a positive integer no greater than 32''), empty_store)"
  using memory_access_is_checked [of "demo_repo (in_memory demo_host)" "(''m9'', ''7'')" _ _ _ _ empty_store "Delete ''m'' ''x''" "''x''"
      "PlainError ''not the owner''" 33 "\<lambda>j. (''z'', ''7'')" "''tea''" None "[]"]
  by (simp add: demo_repo_def)

end
