(* ===== verification/ToolProperties.thy ===== *)
theory ToolProperties
  imports ToolExamples
begin

text \<open>
  The properties of the tool gateway, each with an instance: effects run at most once and are
  replayed, an intent cannot change, nothing reaches the sandbox without permission, every answer
  is on record, and approvals take effect.
\<close>

lemma others_calls:
  assumes "good_host h"
  shows "\<forall>f \<in> set (map (others h) calls). polite (store_ok h) (\<lambda>st i. stream_events h s i st) (run_entry h s) f"
  by (auto intro: good_host.others_polite [OF assms])

lemma others_log: 
  assumes "good_host h" "store_ok h st"
  shows "store_ok h (others h calls st) \<and> log_extends (\<lambda>st i. stream_events h s i st) (run_entry h s) st (others h calls st)"
  using good_host.others_polite [OF assms(1)] assms(2) by (simp add: polite_def)

lemma intent_text_input:
  assumes "digits_ok h" "is_json (rq_input rq)" "is_json (rq_input rq2)" "intent_text h rq policy = intent_text h rq2 policy2"
  shows "canon (rq_input rq) = canon (rq_input rq2)"
  using assms unfolding intent_text_def by (subst (asm) stable_json_eq_iff [OF assms(1)]) simp_all

text \<open>
  C32. An effect runs once. Take two calls for one effect key, each made by its own gateway on a
  store that any other clients use between its accesses, this pair included, and let the
  histories of the two calls go on to a common store. Then the sandbox of at most one of the two
  changed the world: the events that begin the effect carry different identifiers, and there is
  one.
\<close>

theorem effect_runs_once:
  assumes "digits_ok h" and "total_preorder (locale_le h)" and "store_ok h st" and "store_ok h st2"
    and "tg_ops tg = interleaved (in_memory h s)" and "tg_ops tg2 = interleaved (in_memory h s)"
    and "execute_effect h tg rq policy (w, (st, map (others h) calls)) = (r, (w', (st', fs)))"
    and "execute_effect h tg2 rq2 policy2 (v, (st2, map (others h) calls2)) = (r2, (v', (st2', fs2)))"
    and "rq_effect rq2 = rq_effect rq"
    and "fst (tg_stamp tg2 ''tool.effect.started'') \<noteq> fst (tg_stamp tg ''tool.effect.started'')"
    and "others h later st' = others h later2 st2'"
  shows "w' = w \<or> v' = v"
proof (rule ccontr)
  assume "\<not> (w' = w \<or> v' = v)"
  then have ran: "w' \<noteq> w" "v' \<noteq> v" by blast+
  have h: "good_host h" using assms(1,2) by (rule good_host.intro)
  note log = good_host.busy_log [OF h, of s] and polite = others_calls [OF h, of _ s]
  have ok: "store_ok h st'" "store_ok h st2'"
    using channel_log.steadyD [OF log channel_log.steady_execute [OF log assms(5)] _ assms(7)]
      channel_log.steadyD [OF log channel_log.steady_execute [OF log assms(6)] _ assms(8)] assms(3,4) polite
    by (simp_all add: fun_eq_iff)
  have "log_extends (\<lambda>st i. stream_events h s i (fst st)) (\<lambda>st. run_entry h s (fst st)) (st', fs) (others h later st', fs)"
      "log_extends (\<lambda>st i. stream_events h s i (fst st)) (\<lambda>st. run_entry h s (fst st)) (st2', fs2) (others h later st', fs)"
    using others_log [OF h ok(1), where calls = later and s = s] others_log [OF h ok(2), where calls = later2 and s = s] assms(11) by (simp_all add: log_extends_def)
  with channel_log.ran_once [OF log assms(5) _ assms(7) ran(1) assms(6) _ assms(8) ran(2) assms(9)] assms(3,4,10) polite
  show False by auto
qed

lemma effect_runs_once_witness:
  "fst (snd (execute_effect demo_host (demo_tools ''b'' (interleaved (in_memory demo_host demo_scope))) (demo_request (Some ''k'')) ''safe''
     (5, (empty_store, map (others demo_host) demo_race)))) = 5"
proof -
  let ?tools = "\<lambda>mark. demo_tools mark (interleaved (in_memory demo_host demo_scope))"
  have empty: "store_ok demo_host empty_store" using demo_calls_store(1) by (simp add: demo_calls_simps)
  have first: "execute_effect demo_host (?tools ''a'') (demo_request (Some ''k'')) ''safe'' (0, (empty_store, map (others demo_host) []))
      = (Inr \<lparr>to_status = ''succeeded'', to_output = None\<rparr>, (1, (demo_ledger ''a'', [])))"
    using demo_shared_run by simp
  define sf where "sf = execute_effect demo_host (?tools ''b'') (demo_request (Some ''k'')) ''safe'' (5, (empty_store, map (others demo_host) demo_race))"
  have second: "execute_effect demo_host (?tools ''b'') (demo_request (Some ''k'')) ''safe'' (5, (empty_store, map (others demo_host) demo_race))
      = (fst sf, (fst (snd sf), (fst (snd (snd sf)), snd (snd (snd sf)))))"
    unfolding sf_def by (simp only: prod.collapse)
  have common: "others demo_host [] (demo_ledger ''a'') = others demo_host [] (fst (snd (snd sf)))" by (simp add: sf_def demo_other_run)
  have "(1 :: nat) = 0 \<or> fst (snd sf) = 5"
    by (rule effect_runs_once [OF digits_ok_demo_host total_preorder_demo_host empty empty _ _ first second _ _ common]) (simp_all add: demo_tools_def)
  then show ?thesis unfolding sf_def [symmetric] by simp
qed

text \<open>
  C33. Nothing reaches the sandbox without permission. If a call of the gateway changed the world,
  then its call identifier, scope and worker were those the gateway takes, the tool is in the
  catalog, its schema took the input, and the policy allowed the normalized request, or asked for
  an approval that stands in the stream of the run after its request; and the decision of the
  policy was on record before, after the request itself. Other clients may use the store between
  any two accesses.
\<close>

theorem sandbox_needs_permission:
  assumes "digits_ok h" and "total_preorder (locale_le h)" and "store_ok h st"
    and "tg_ops tg = interleaved (in_memory h s)"
    and "tool_execute h tg rq (w, (st, map (others h) calls)) = (r, (w', (st', fs)))" and "w' \<noteq> w"
  shows "permitted tg rq (stream_events h s (rq_run rq) st')
    \<and> (\<exists>a \<in> set (stream_events h s (lifecycle_stream rq) st'). \<exists>b \<in> set (stream_events h s (lifecycle_stream rq) st').
        ev_type a = ''tool.requested'' \<and> ev_type b = ''tool.policy.decided'' \<and> ev_seq a < ev_seq b)"
proof -
  have h: "good_host h" using assms(1,2) by (rule good_host.intro)
  from channel_log.execute_permitted [OF good_host.busy_log [OF h] assms(4) _ assms(5,6)] assms(3) others_calls [OF h, of _ s]
  show ?thesis by simp
qed

lemma sandbox_needs_permission_witness:
  "permitted (demo_tools ''a'' (interleaved (in_memory demo_host demo_scope))) (demo_request None)
     (stream_events demo_host demo_scope ''r'' (demo_calls 3))"
proof -
  have "tool_execute demo_host (demo_tools ''a'' (interleaved (in_memory demo_host demo_scope))) (demo_request None)
      (0, (demo_calls 0, map (others demo_host) [])) = (Inr \<lparr>to_status = ''succeeded'', to_output = None\<rparr>, (1, (demo_calls 3, [])))"
    using demo_call_run by simp
  from sandbox_needs_permission [OF digits_ok_demo_host total_preorder_demo_host demo_calls_store(1) _ this, of demo_scope]
  show ?thesis by (simp add: demo_request_def) (simp add: demo_tools_def)
qed

text \<open>
  C34. A recorded effect is replayed. When a call for an effect has answered (its sandbox gave no
  result or one that succeeded, failed or is unknown), there is one answer that the same call gets
  from every gateway on the store it left, without touching the world or the store. It is the answer
  of the first call; only of a failure it can be less: the status and the reason, which is all the
  ledger keeps of a failure.
\<close>

theorem effect_is_replayed:
  assumes "digits_ok h" and "store_ok h st" and "tg_ops tg = in_memory h s"
    and "execute_effect h tg rq policy (w, st) = (Inr x, (w', st'))"
    and "fst (tg_sandbox tg rq w) = None \<or> to_status (the (fst (tg_sandbox tg rq w))) \<in> {''succeeded'', ''failed'', ''unknown''}"
  shows "\<exists>x'. (x' = x \<or> to_status x = ''failed''
        \<and> x' = \<lparr>to_status = ''failed'', to_output = map_option (\<lambda>m. JObj [(''reason'', JStr m)]) (result_reason x)\<rparr>)
    \<and> (\<forall>tg2 v. tg_ops tg2 = in_memory h s \<longrightarrow> execute_effect h tg2 rq policy (v, st') = (Inr x', (v, st')))"
  using effect_again [OF assms(3) _ assms(1,4,5)] assms(2) by (simp add: store_ok_def replays_def only_reason_def)

lemma effect_is_replayed_witness:
  "execute_effect demo_host (demo_tools ''b'' (in_memory demo_host demo_scope)) (demo_request (Some ''k'')) ''safe'' (9, demo_ledger ''a'')
      = (Inr \<lparr>to_status = ''succeeded'', to_output = None\<rparr>, (9, demo_ledger ''a''))"
proof -
  have empty: "store_ok demo_host empty_store" using demo_calls_store(1) by (simp add: demo_calls_simps)
  have "tg_ops (demo_tools i ops) = ops" for i ops by (simp add: demo_tools_def)
  moreover have "fst (tg_sandbox (demo_tools ''a'' (in_memory demo_host demo_scope)) (demo_request (Some ''k'')) 0) = None
      \<or> to_status (the (fst (tg_sandbox (demo_tools ''a'' (in_memory demo_host demo_scope)) (demo_request (Some ''k'')) 0))) \<in> {''succeeded'', ''failed'', ''unknown''}"
    by (simp add: demo_tools_def)
  ultimately show ?thesis using effect_is_replayed [OF digits_ok_demo_host empty _ demo_run, of demo_scope] by auto
qed

text \<open>
  A changed intent conflicts. After a call for an effect has reached the sandbox, a call with
  the same effect key and another input is answered with a conflict, whatever else happened on
  the store in between; the world and the store stay as they are. (The digest must tell the two
  intents apart.)
\<close>

theorem changed_intent_conflicts:
  assumes "digits_ok h" and "total_preorder (locale_le h)" and "store_ok h st"
    and "tg_ops tg = in_memory h s" and "tg_ops tg2 = in_memory h s"
    and "execute_effect h tg rq policy (w, st) = (r, (w', st'))" and "w' \<noteq> w"
    and "rq_effect rq2 = rq_effect rq" and "is_json (rq_input rq)" and "is_json (rq_input rq2)"
    and "canon (rq_input rq2) \<noteq> canon (rq_input rq)"
    and "(sha256_hex h (intent_text h rq policy) = sha256_hex h (intent_text h rq2 policy2)) = (intent_text h rq policy = intent_text h rq2 policy2)"
  shows "execute_effect h tg2 rq2 policy2 (v, others h later st')
    = (Inr (failed_with ''effect_key_conflict''), (v, others h later st'))"
proof -
  have h: "good_host h" using assms(1,2) by (rule good_host.intro)
  note log = good_host.in_memory_log [OF h, of s]
  have hash: "effect_intent_hash h rq policy \<noteq> effect_intent_hash h rq2 policy2"
    using intent_text_input [OF assms(1,9,10)] assms(11,12) by (auto simp: effect_intent_hash_def)
  have st': "store_ok h st'" using channel_log.steadyD [OF log channel_log.steady_execute [OF log assms(4)] assms(3,6)] by blast
  note u = others_log [OF h st', where calls = later and s = s]
  obtain key e where f: "rq_effect rq = Some key" "find starts_effect (stream_events h s (effect_stream key) st') = Some e"
      "same_field (ev_payload e) ''intentHash'' (JStr (effect_intent_hash h rq policy))"
    by (rule channel_log.ran_first [OF log assms(4,3,6,7)])
  then have e: "rq_effect rq = Some key" "e \<in> set (stream_events h s (effect_stream key) st')" "starts_effect e"
      "same_field (ev_payload e) ''intentHash'' (JStr (effect_intent_hash h rq policy))"
    by (auto simp: find_Some_iff in_set_conv_nth)
  have "e \<in> set (stream_events h s (effect_stream key) (others h later st'))"
    using channel_log.stays_in [OF log] e(2) u by blast
  moreover have "\<not> matches_effect_intent rq2 policy2 (effect_intent_hash h rq2 policy2) e"
    using e(4) hash by (auto simp: matches_effect_intent_def same_field_def)
  ultimately have "list_ex (\<lambda>e. starts_effect e \<and> \<not> matches_effect_intent rq2 policy2 (effect_intent_hash h rq2 policy2) e)
      (stream_events h s (effect_stream key) (others h later st'))"
    using e(3) by (auto simp: list_ex_iff)
  moreover have "log_ok h (others h later st')" using u by (simp add: store_ok_def)
  ultimately show ?thesis using e(1) assms(8) by (simp add: execute_run [OF _ assms(5)] Let_def)
qed

lemma changed_intent_conflicts_witness:
  "execute_effect demo_host (demo_tools ''b'' (in_memory demo_host demo_scope)) (demo_request (Some ''k'')\<lparr>rq_input := JBool True\<rparr>) ''safe''
      (9, demo_ledger ''a'') = (Inr (failed_with ''effect_key_conflict''), (9, demo_ledger ''a''))"
proof -
  have empty: "store_ok demo_host empty_store" using demo_calls_store(1) by (simp add: demo_calls_simps)
  from changed_intent_conflicts [OF digits_ok_demo_host total_preorder_demo_host empty _ _ demo_run, of demo_scope
      "demo_tools ''b'' (in_memory demo_host demo_scope)" "demo_request (Some ''k'')\<lparr>rq_input := JBool True\<rparr>" "''safe''" 9 "[]"]
  show ?thesis by (simp add: demo_request_def demo_host_def) (simp add: demo_tools_def)
qed

text \<open>
  C36. Every call that is answered is on record. When the gateway answers a call that has an
  identifier, then the stream of the call has, after all it had before, the event of the request
  and later the event of the result, with the status that was answered and its reason; and they
  name the scope and the worker of the gateway. Other clients may use the store between any two
  accesses.
\<close>

theorem tool_call_is_recorded:
  assumes "digits_ok h" and "total_preorder (locale_le h)" and "store_ok h st"
    and "tg_ops tg = interleaved (in_memory h s)" and "rq_call rq \<noteq> []"
    and "tool_execute h tg rq (w, (st, map (others h) calls)) = (Inr x, (w', (st', fs)))"
  shows "\<exists>a \<in> set (stream_events h s (lifecycle_stream rq) st'). \<exists>b \<in> set (stream_events h s (lifecycle_stream rq) st').
       length (stream_events h s (lifecycle_stream rq) st) \<le> ev_seq a \<and> ev_seq a < ev_seq b
     \<and> same_event a (lifecycle_event h (snd (tg_stamp tg ''tool.requested'')) (shown tg rq) (ev_seq a) ''tool.requested'' [])
     \<and> (\<exists>reason. same_event b (lifecycle_event h (snd (tg_stamp tg ''tool.result'')) (shown tg rq) (ev_seq b) ''tool.result''
         (case reason of None \<Rightarrow> result_details x | Some y \<Rightarrow> js_set ''reason'' (JStr y) (result_details x))))"
proof -
  have h: "good_host h" using assms(1,2) by (rule good_host.intro)
  from channel_log.execute_recorded [OF good_host.busy_log [OF h] assms(4) _ assms(6,5)] assms(3) others_calls [OF h, of _ s]
  show ?thesis by simp
qed

lemma tool_call_is_recorded_witness:
  "\<exists>b \<in> set (stream_events demo_host demo_scope ''tool:r:k'' (demo_calls 3)). ev_type b = ''tool.result''"
proof -
  have "tool_execute demo_host (demo_tools ''a'' (interleaved (in_memory demo_host demo_scope))) (demo_request None)
      (0, (demo_calls 0, map (others demo_host) [])) = (Inr \<lparr>to_status = ''succeeded'', to_output = None\<rparr>, (1, (demo_calls 3, [])))"
    using demo_call_run by simp
  from tool_call_is_recorded [OF digits_ok_demo_host total_preorder_demo_host demo_calls_store(1) _ _ this, of demo_scope]
  have "\<exists>b \<in> set (stream_events demo_host demo_scope (lifecycle_stream (demo_request None)) (demo_calls 3)).
      \<exists>n ds. same_event b (lifecycle_event demo_host ''7'' (shown (demo_tools ''a'' (interleaved (in_memory demo_host demo_scope))) (demo_request None)) n ''tool.result'' ds)"
    by (simp add: demo_tools_def demo_request_def) blast
  then show ?thesis by (auto simp: lifecycle_stream_def demo_request_def lifecycle_event_def dest!: same_event_fields)
qed

text \<open>
  C37. An answer takes effect. When a request for approval stands undecided in the run's stream and
  the gateway took an answer for it, then from then on, whatever clients do, the gateway finds the
  request decided, and as the answer says: an approval is not taken back, a denial neither.
\<close>

theorem approval_takes_effect:
  assumes "digits_ok h" and "total_preorder (locale_le h)" and "store_ok h st" and "tg_ops tg = in_memory h s"
    and "approval_for (stream_events h s (rq_run rq) st) rq approval = (Some request, None)"
    and "answer_approval tg an (w, st) = (Inr (), (w', st'))" and "answers an rq approval"
  shows "approval_for (stream_events h s (rq_run rq) (others h later st')) rq approval = (Some request, Some (an_decision an))"
proof -
  let ?es = "stream_events h s (rq_run rq) st"
  have h: "good_host h" using assms(1,2) by (rule good_host.intro)
  have run: "an_run an = rq_run rq" using assms(7) by (simp add: answers_def)
  have ok: "log_ok h st" using assms(3) by (simp add: store_ok_def)
  obtain r where r: "an_scope an = tg_scope tg" "log_ok h st'"
    "stream_events h s (rq_run rq) st' = ?es @ [answer_event tg an r (int (length ?es))]"
    using answer_run [OF ok assms(1,4,6)] run by metis
  have req: "find (\<lambda>e. is_approval_request e rq approval) ?es = Some request"
    and undecided: "find_map (\<lambda>e. if ev_seq e \<le> ev_seq request then None else approval_decision rq approval e) ?es = None"
    using assms(5) by (auto simp: approval_for_def split: option.splits)
  from req obtain n where "n < length ?es" "request = ?es ! n" by (auto simp: find_Some_iff)
  with log_ok_nth(4) [OF ok] have late: "ev_seq request < int (length ?es)" by simp
  have "store_ok h st'"
    using channel_log.steadyD [OF good_host.in_memory_log [OF h] channel_log.steady_answer [OF good_host.in_memory_log [OF h] assms(4)] assms(3,6)] by blast
  from others_log [OF h this, where calls = later and s = s] obtain new where
    "stream_events h s (rq_run rq) (others h later st') = stream_events h s (rq_run rq) st' @ new"
    unfolding log_extends_def by blast
  then have es: "stream_events h s (rq_run rq) (others h later st') = ?es @ answer_event tg an r (int (length ?es)) # new"
    using r(3) by simp
  have "ev_seq (answer_event tg an r n) = n" for n by (simp add: answer_event_def tool_event_def)
  then show ?thesis
    using late answer_decides [OF assms(7) r(1)] undecided
    by (simp add: es approval_for_def find_append_some [OF req] find_map_append)
qed

lemma approval_takes_effect_witness:
  "approval_for (stream_events demo_host demo_scope ''r'' (others demo_host [(other_scope, CallCancelSchedule ''x'')] demo_answered))
      (demo_request (Some ''k'')) ''approval:k'' = (Some demo_ask, Some ''approved'')"
  using approval_takes_effect [OF digits_ok_demo_host total_preorder_demo_host demo_asked_store(1) _ _ demo_answer_run,
      of demo_scope "demo_request (Some ''k'')" "''approval:k''" demo_ask "[(other_scope, CallCancelSchedule ''x'')]"]
  by (simp add: demo_request_def demo_asked_store(2) demo_ask_pending [unfolded demo_request_def] answers_def demo_answer_def demo_tools_def
      del: others.simps)

end
