(* ===== verification/Scheduler.thy ===== *)
theory Scheduler
  imports SteadyActions
begin

text \<open>
  The scheduler (\<open>packages/scheduler/src/index.ts\<close>): it records schedules within its policy, and a
  tick or a recovery claims the latest due occurrence of every active schedule and creates its
  run. The state of an action is a pair: what the service sees beside the store (its callback's
  world, the runs it created, the occurrences it is processing), and the store.
\<close>

section \<open>The store's operations for schedules\<close>

record 's schedule_ops =
  so_create :: "schedule \<Rightarrow> ('s, js_error, schedule) action"
  so_list :: "('s, js_error, schedule list) action"
  so_cancel :: "string \<Rightarrow> string \<Rightarrow> ('s, js_error, schedule option) action"
  so_claim :: "occurrence \<Rightarrow> ('s, js_error, occurrence_claim) action"
  so_skip :: "occurrence \<Rightarrow> ('s, js_error, bool) action"
  so_recovery :: "int \<Rightarrow> occurrence \<Rightarrow> string \<Rightarrow> ('s, js_error, bool) action"
  so_execution :: "int \<Rightarrow> occurrence \<Rightarrow> string \<Rightarrow> ('s, js_error, bool) action"
  so_occurrences :: "string \<Rightarrow> ('s, js_error, occurrence list) action"
  so_notifications :: "string \<Rightarrow> ('s, js_error, notification list) action"
  so_notify :: "notification \<Rightarrow> ('s, js_error, notification) action"
  so_has_trigger :: "schedule_trigger \<Rightarrow> ('s, js_error, bool) action"
  so_append :: "canonical_event \<Rightarrow> ('s, js_error, bool) action"

text \<open>The in-memory store takes no notice of the time of a cancellation.\<close>

definition in_memory_schedules :: "host \<Rightarrow> scope \<Rightarrow> store schedule_ops" where
  "in_memory_schedules h s = \<lparr>so_create = create_schedule h s, so_list = list_schedules h s,
     so_cancel = (\<lambda>i _. cancel_schedule h s i), so_claim = claim_occurrence h s, so_skip = skip_occurrence h s,
     so_recovery = claim_recovery h s, so_execution = claim_execution h s, so_occurrences = list_occurrences h s,
     so_notifications = list_notifications h s, so_notify = record_notification h s, so_has_trigger = has_trigger h s,
     so_append = append_idempotent h s\<rparr>"

text \<open>Other clients step in before every call, as in \<open>interleaved\<close>.\<close>

definition shared_schedules :: "'s schedule_ops \<Rightarrow> ('s \<times> ('s \<Rightarrow> 's) list) schedule_ops" where
  "shared_schedules ops = \<lparr>so_create = (\<lambda>x. disturb (so_create ops x)), so_list = disturb (so_list ops),
     so_cancel = (\<lambda>i t. disturb (so_cancel ops i t)), so_claim = (\<lambda>c. disturb (so_claim ops c)),
     so_skip = (\<lambda>c. disturb (so_skip ops c)), so_recovery = (\<lambda>t c w. disturb (so_recovery ops t c w)),
     so_execution = (\<lambda>t c w. disturb (so_execution ops t c w)), so_occurrences = (\<lambda>i. disturb (so_occurrences ops i)),
     so_notifications = (\<lambda>i. disturb (so_notifications ops i)), so_notify = (\<lambda>n. disturb (so_notify ops n)),
     so_has_trigger = (\<lambda>t. disturb (so_has_trigger ops t)), so_append = (\<lambda>e. disturb (so_append ops e))\<rparr>"

section \<open>The service\<close>

text \<open>
  \<open>sv_now\<close> is the clock of the options and \<open>sv_millis\<close> is \<open>Date.now()\<close>; \<open>sv_create\<close> is the
  \<open>createRun\<close> callback: false when it throws. \<open>sv_lease_lost\<close> says whether a renewal by the
  interval timer failed while the run was being created; the renewals themselves are updates by
  others.
\<close>

record ('w, 's) scheduler =
  sv_ops :: "'s schedule_ops"
  sv_now :: "'w \<Rightarrow> string \<times> 'w"
  sv_millis :: "'w \<Rightarrow> int"
  sv_create :: "start_run \<Rightarrow> 'w \<Rightarrow> bool \<times> 'w"
  sv_lease_lost :: "'w \<Rightarrow> bool"
  sv_permissions :: "string list"
  sv_tools :: "string list"
  sv_owner :: string

record 'w service =
  sw_world :: 'w
  sw_runs :: "start_run list"
  sw_busy :: "string list"

definition read_clock :: "('w, 's) scheduler \<Rightarrow> ('w service \<times> 's, js_error, string) action" where
  "read_clock sv = (\<lambda>(v, s). case sv_now sv (sw_world v) of (t, w') \<Rightarrow> (Inr t, (v\<lparr>sw_world := w'\<rparr>, s)))"

definition create_run :: "('w, 's) scheduler \<Rightarrow> start_run \<Rightarrow> ('w service \<times> 's, js_error, unit) action" where
  "create_run sv run = (\<lambda>(v, s).
     case sv_create sv run (sw_world v) of (returned, w') \<Rightarrow>
       (if returned then Inr () else Inl (PlainError ''createRun''), (v\<lparr>sw_world := w', sw_runs := sw_runs v @ [run]\<rparr>, s)))"

definition parse_instant :: "host \<Rightarrow> string \<Rightarrow> string \<Rightarrow> int parsed" where
  "parse_instant h t name =
     (case date_parse h t of None \<Rightarrow> Inl (PlainError (name @ '' must be a parseable timestamp'')) | Some i \<Rightarrow> Inr i)"

definition scheduler_stream :: string where
  "scheduler_stream = ''scheduler''"

definition append_once ::
    "host \<Rightarrow> ('w, 's) scheduler \<Rightarrow> schedule \<Rightarrow> string \<Rightarrow> string \<Rightarrow> (string \<times> js) list \<Rightarrow> ('w service \<times> 's, js_error, unit) action" where
  "append_once h sv sd i ty kvs = act_bind (read_clock sv) (\<lambda>time.
     act_bind (act_lift (clone_event h \<lparr>ev_id = i, ev_scope = sd_scope sd, ev_stream = scheduler_stream, ev_seq = 0, ev_type = ty,
       ev_timestamp = time, ev_schema_version = 1, ev_payload = JObj kvs\<rparr>)) (\<lambda>e.
     act_bind (on_store (so_append (sv_ops sv) e)) (\<lambda>_. act_return ())))"

definition assert_policy :: "('w, 's) scheduler \<Rightarrow> schedule \<Rightarrow> unit parsed" where
  "assert_policy sv sd =
     (if rf_permission (sd_run sd) \<notin> set (sv_permissions sv)
      then Inl (PlainError (''Schedule permission scope is not allowed: '' @ rf_permission (sd_run sd)))
      else case find (\<lambda>tool. tool \<notin> set (sv_tools sv)) (rp_allowed_tools (rf_snapshot (sd_run sd))) of
        Some tool \<Rightarrow> Inl (PlainError (''Schedule tool is not allowed: '' @ tool))
      | None \<Rightarrow> Inr ())"

definition needs_registration :: "schedule_trigger \<Rightarrow> bool" where
  "needs_registration t \<longleftrightarrow> trigger_kind t = ''connector_event'' \<or> trigger_kind t = ''monitor''"

definition sv_schedule :: "host \<Rightarrow> ('w, 's) scheduler \<Rightarrow> schedule \<Rightarrow> ('w service \<times> 's, js_error, schedule) action" where
  "sv_schedule h sv record =
     act_bind (act_lift (clone_schedule h record)) (\<lambda>sd.
     act_seq (act_lift (assert_policy sv sd))
     (act_bind (if needs_registration (sd_trigger sd) then on_store (so_has_trigger (sv_ops sv) (sd_trigger sd)) else act_return True) (\<lambda>known.
     if \<not> known then act_throw (PlainError (''Schedule trigger is not registered: '' @ trigger_kind (sd_trigger sd)))
     else
     act_bind (on_store (so_create (sv_ops sv) sd)) (\<lambda>sd.
     act_seq (append_once h sv sd (''schedule:'' @ sd_id sd @ '':created'') ''schedule.created''
       [(''scheduleId'', JStr (sd_id sd)), (''trigger'', trigger_js (sd_trigger sd)), (''dueAt'', JStr (sd_due sd))])
     (act_return sd)))))"

definition sv_cancel :: "host \<Rightarrow> ('w, 's) scheduler \<Rightarrow> string \<Rightarrow> ('w service \<times> 's, js_error, schedule option) action" where
  "sv_cancel h sv i =
     act_bind (read_clock sv) (\<lambda>time.
     act_bind (on_store (so_cancel (sv_ops sv) i time)) (\<lambda>cancelled.
     case cancelled of
       None \<Rightarrow> act_return None
     | Some sd \<Rightarrow> act_seq (append_once h sv sd (''schedule:'' @ sd_id sd @ '':cancelled'') ''schedule.cancelled'' [(''scheduleId'', JStr (sd_id sd))])
         (act_return (Some sd))))"

definition occurrence_for :: "schedule \<Rightarrow> string \<Rightarrow> string \<Rightarrow> occurrence" where
  "occurrence_for sd due claimed =
     \<lparr>oc_id = ''occurrence:'' @ sd_id sd @ '':'' @ due, oc_schedule_id = sd_id sd, oc_due = due,
      oc_run_id = ''scheduled-run:'' @ sd_id sd @ '':'' @ due, oc_command_id = ''scheduled-command:'' @ sd_id sd @ '':'' @ due,
      oc_claimed_at = claimed, oc_status = None, oc_scope = sd_scope sd\<rparr>"

text \<open>Instants are whole milliseconds less than \<open>2^53\<close> apart, so the quotient is exact.\<close>

definition latest_due :: "host \<Rightarrow> schedule \<Rightarrow> int \<Rightarrow> string option parsed" where
  "latest_due h sd now =
     r_bind (parse_instant h (sd_due sd) ''ScheduleRecord.dueAt'') (\<lambda>first.
     if now < first then Inr None
     else case sd_recurrence sd of
       None \<Rightarrow> Inr (Some (sd_due sd))
     | Some interval \<Rightarrow> Inr (Some (iso_string h (first + ((now - first) div interval) * interval))))"

definition busy_key :: "schedule \<Rightarrow> occurrence \<Rightarrow> string" where
  "busy_key sd c = sd_id sd @ '':'' @ oc_due c"

text \<open>The command an occurrence starts: a parsed specification has a trigger and an audience.\<close>

definition proactive_run :: "host \<Rightarrow> schedule \<Rightarrow> occurrence \<Rightarrow> start_run parsed" where
  "proactive_run h sd c =
     r_bind (parse_start_run h (start_run_js
       \<lparr>sr_command_id = oc_command_id c, sr_run_id = oc_run_id c, sr_surface = None, sr_fields = sd_run sd\<rparr>)) (\<lambda>run.
     Inr (run\<lparr>sr_fields := (sr_fields run)\<lparr>rf_trigger := map_option (\<lambda>(_, audience). (sd_trigger sd, audience)) (rf_trigger (sd_run sd))\<rparr>\<rparr>))"

definition execute_occurrence ::
    "host \<Rightarrow> ('w, 's) scheduler \<Rightarrow> schedule \<Rightarrow> string \<Rightarrow> string \<Rightarrow> occurrence \<Rightarrow> ('w service \<times> 's, js_error, unit) action" where
  "execute_occurrence h sv sd due now c =
     act_bind (act_lift (proactive_run h sd c)) (\<lambda>run.
     act_seq (create_run sv run) (\<lambda>(v, s).
     if sv_lease_lost sv (sw_world v) then (Inl (PlainError ''Schedule occurrence execution lease lost''), (v, s))
     else act_seq (append_once h sv sd (''schedule:'' @ sd_id sd @ '':occurrence:'' @ due @ '':claimed'') ''schedule.occurrence.claimed''
         [(''scheduleId'', JStr (sd_id sd)), (''occurrenceId'', JStr (oc_id c)), (''dueAt'', JStr due)])
       (act_seq (act_bind (on_store (so_notify (sv_ops sv)
           \<lparr>nt_id = ''notification:'' @ sd_id sd @ '':'' @ due, nt_schedule_id = sd_id sd, nt_occurrence_id = oc_id c, nt_run_id = oc_run_id c,
            nt_trigger = sd_trigger sd, nt_audience = (case rf_trigger (sd_run sd) of Some (_, audience) \<Rightarrow> audience | None \<Rightarrow> []),
            nt_created_at = now, nt_scope = sd_scope sd\<rparr>)) (\<lambda>_. act_return ()))
       (append_once h sv sd (''schedule:'' @ sd_id sd @ '':occurrence:'' @ due @ '':notification'') ''schedule.notification.created''
         [(''scheduleId'', JStr (sd_id sd)), (''occurrenceId'', JStr (oc_id c)), (''runId'', JStr (oc_run_id c))])) (v, s)))"

text \<open>A claimed occurrence: the lease, the execution claim, then the run. Each refusal ends the turn.\<close>

definition run_occurrence ::
    "host \<Rightarrow> ('w, 's) scheduler \<Rightarrow> schedule \<Rightarrow> string \<Rightarrow> string \<Rightarrow> occurrence \<Rightarrow> ('w service \<times> 's, js_error, unit) action" where
  "run_occurrence h sv sd due now c = (\<lambda>(v, s).
     if busy_key sd c \<in> set (sw_busy v) then (Inr (), (v, s))
     else act_bind (on_store (so_recovery (sv_ops sv) (sv_millis sv (sw_world v)) c (sv_owner sv))) (\<lambda>leased.
       if \<not> leased then act_return ()
       else (\<lambda>(v, s). act_bind (on_store (so_execution (sv_ops sv) (sv_millis sv (sw_world v)) c (sv_owner sv))) (\<lambda>started.
         if \<not> started then act_return ()
         else (\<lambda>(v, s). act_finally (execute_occurrence h sv sd due now c)
           (\<lambda>(v, s). (v\<lparr>sw_busy := removeAll (busy_key sd c) (sw_busy v)\<rparr>, s))
           (v\<lparr>sw_busy := sw_busy v @ [busy_key sd c]\<rparr>, s))) (v, s))) (v, s))"

definition skip_due ::
    "host \<Rightarrow> ('w, 's) scheduler \<Rightarrow> schedule \<Rightarrow> string \<Rightarrow> occurrence \<Rightarrow> ('w service \<times> 's, js_error, unit) action" where
  "skip_due h sv sd due c =
     act_bind (on_store (so_skip (sv_ops sv) c)) (\<lambda>skipped.
     act_bind (if skipped then act_return True
       else act_bind (on_store (so_occurrences (sv_ops sv) (sd_id sd))) (\<lambda>cs.
         act_return (case find (\<lambda>c. oc_due c = due) cs of Some c \<Rightarrow> oc_status c = Some ''skipped'' | None \<Rightarrow> False))) (\<lambda>record.
     if \<not> record then act_return ()
     else append_once h sv sd (''schedule:'' @ sd_id sd @ '':occurrence:'' @ due @ '':skipped'') ''schedule.occurrence.skipped''
       [(''scheduleId'', JStr (sd_id sd)), (''dueAt'', JStr due), (''trigger'', trigger_js (sd_trigger sd))]))"

definition claim_due ::
    "host \<Rightarrow> ('w, 's) scheduler \<Rightarrow> bool \<Rightarrow> schedule \<Rightarrow> string \<Rightarrow> string \<Rightarrow> occurrence \<Rightarrow> ('w service \<times> 's, js_error, unit) action" where
  "claim_due h sv recovering sd due now c =
     act_bind (on_store (so_claim (sv_ops sv) c)) (\<lambda>claim.
     case claim of
       Claimed c \<Rightarrow> run_occurrence h sv sd due now c
     | AlreadyClaimed c \<Rightarrow>
         if \<not> recovering \<or> oc_status c = Some ''skipped'' then act_return ()
         else act_bind (on_store (so_notifications (sv_ops sv) (sd_id sd))) (\<lambda>ns.
           if list_ex (\<lambda>n. nt_occurrence_id n = oc_id c) ns then act_return () else run_occurrence h sv sd due now c)
     | ScheduleInactive \<Rightarrow> act_return ())"

definition process_schedule ::
    "host \<Rightarrow> ('w, 's) scheduler \<Rightarrow> bool \<Rightarrow> string \<Rightarrow> int \<Rightarrow> schedule \<Rightarrow> ('w service \<times> 's, js_error, unit) action" where
  "process_schedule h sv recovering now millis sd =
     (if sd_status sd \<noteq> ''active'' then act_return ()
      else act_bind (act_lift (latest_due h sd millis)) (\<lambda>due.
        case due of
          None \<Rightarrow> act_return ()
        | Some due \<Rightarrow>
            if recovering \<and> sd_policy sd = ''skip'' then skip_due h sv sd due (occurrence_for sd due now)
            else claim_due h sv recovering sd due now (occurrence_for sd due now)))"

text \<open>\<open>tick\<close> is \<open>process_due\<close> with false, \<open>recover\<close> with true.\<close>

definition process_due :: "host \<Rightarrow> ('w, 's) scheduler \<Rightarrow> bool \<Rightarrow> ('w service \<times> 's, js_error, unit) action" where
  "process_due h sv recovering =
     act_bind (read_clock sv) (\<lambda>now.
     act_bind (act_lift (parse_instant h now ''Scheduler.now'')) (\<lambda>millis.
     act_bind (on_store (so_list (sv_ops sv))) (act_for (process_schedule h sv recovering now millis))))"

section \<open>The manual clock\<close>

text \<open>\<open>toISOString\<close> throws beyond \<open>8.64e15\<close> milliseconds, after the instant has moved.\<close>

definition clock_now :: "host \<Rightarrow> int \<Rightarrow> string parsed" where
  "clock_now h instant =
     (if \<bar>instant\<bar> \<le> 8640000000000000 then Inr (iso_string h instant) else Inl (PlainError ''Invalid time value''))"

definition clock_advance :: "host \<Rightarrow> js \<Rightarrow> int \<Rightarrow> string parsed \<times> int" where
  "clock_advance h milliseconds instant =
     (case milliseconds of
        JNum q \<Rightarrow>
          if is_safe_integer (JNum q) \<and> 0 \<le> the_int q then (clock_now h (instant + the_int q), instant + the_int q)
          else (Inl (PlainError ''ManualClock advance must be a non-negative integer''), instant)
      | _ \<Rightarrow> (Inl (PlainError ''ManualClock advance must be a non-negative integer''), instant))"

definition clock_set :: "host \<Rightarrow> string \<Rightarrow> int \<Rightarrow> string parsed \<times> int" where
  "clock_set h timestamp instant =
     (case parse_instant h timestamp ''ManualClock.timestamp'' of
        Inl e \<Rightarrow> (Inl e, instant)
      | Inr t \<Rightarrow> if t < instant then (Inl (PlainError ''ManualClock cannot move backwards''), instant) else (clock_now h t, t))"

end
