(* ===== verification/SchedulerRuns.thy ===== *)
theory SchedulerRuns
  imports Scheduler
begin

text \<open>
  Which runs a scheduler creates. The locale \<open>occurrence_store\<close> is what it relies on: started
  occurrences and recorded ones last, and an execution is granted only while the run has not been
  started. On every such store each action of the scheduler creates only runs that were not
  started before, each once. The in-memory store is one, alone and with other clients.
\<close>

section \<open>What the scheduler relies on\<close>

text \<open>One call of the interface, whatever it answers.\<close>

inductive schedule_step :: "'s schedule_ops \<Rightarrow> 's \<Rightarrow> 's \<Rightarrow> bool" for ops where
  create: "so_create ops x s = (r, s') \<Longrightarrow> schedule_step ops s s'"
| list: "so_list ops s = (r, s') \<Longrightarrow> schedule_step ops s s'"
| cancel: "so_cancel ops i t s = (r, s') \<Longrightarrow> schedule_step ops s s'"
| claim: "so_claim ops c s = (r, s') \<Longrightarrow> schedule_step ops s s'"
| skip: "so_skip ops c s = (r, s') \<Longrightarrow> schedule_step ops s s'"
| recovery: "so_recovery ops n c w s = (r, s') \<Longrightarrow> schedule_step ops s s'"
| execution: "so_execution ops n c w s = (r, s') \<Longrightarrow> schedule_step ops s s'"
| occurrences: "so_occurrences ops i s = (r, s') \<Longrightarrow> schedule_step ops s s'"
| notifications: "so_notifications ops i s = (r, s') \<Longrightarrow> schedule_step ops s s'"
| notify: "so_notify ops nt s = (r, s') \<Longrightarrow> schedule_step ops s s'"
| has_trigger: "so_has_trigger ops tr s = (r, s') \<Longrightarrow> schedule_step ops s s'"
| append: "so_append ops e s = (r, s') \<Longrightarrow> schedule_step ops s s'"

text \<open>
  A store of occurrences as the scheduler sees it. \<open>started\<close> holds of the runs whose occurrence
  has been started, \<open>known\<close> of the occurrences on record; both last. A claim answers with an
  occurrence on record, and an execution is granted only while the run has not been started.
\<close>

locale occurrence_store =
  fixes ops :: "'s schedule_ops" and ok :: "'s \<Rightarrow> bool" and started :: "'s \<Rightarrow> string \<Rightarrow> bool" and known :: "'s \<Rightarrow> occurrence \<Rightarrow> bool"
  assumes keeps: "ok s \<Longrightarrow> schedule_step ops s s' \<Longrightarrow>
      ok s' \<and> (\<forall>r. started s r \<longrightarrow> started s' r) \<and> (\<forall>c. known s c \<longrightarrow> known s' c)"
    and claim_known: "ok s \<Longrightarrow> so_claim ops c s = (Inr x, s') \<Longrightarrow> x = Claimed c' \<or> x = AlreadyClaimed c' \<Longrightarrow> known s' c'"
    and execution_fresh: "ok s \<Longrightarrow> known s c \<Longrightarrow> so_execution ops t c w s = (Inr True, s') \<Longrightarrow>
      \<not> started s (oc_run_id c) \<and> started s' (oc_run_id c)"
begin

definition advances :: "'s \<Rightarrow> 's \<Rightarrow> bool" where
  "advances s s' \<longleftrightarrow> (\<forall>r. started s r \<longrightarrow> started s' r) \<and> (\<forall>c. known s c \<longrightarrow> known s' c)"

lemma advances_refl [simp]: "advances s s"
  by (simp add: advances_def)

lemma advances_trans: "advances a b \<Longrightarrow> advances b c \<Longrightarrow> advances a c"
  by (simp add: advances_def)

text \<open>What an action may do: keep the store in order and create runs that were not started before, each once.\<close>

definition fresh_runs :: "'s \<Rightarrow> start_run list \<Rightarrow> 's \<Rightarrow> bool" where
  "fresh_runs s new s' \<longleftrightarrow> distinct (map sr_run_id new) \<and> (\<forall>x \<in> set new. \<not> started s (sr_run_id x) \<and> started s' (sr_run_id x))"

definition orderly where
  "orderly m \<longleftrightarrow> (\<forall>v s r v' s'. ok s \<longrightarrow> m (v, s) = (r, (v', s')) \<longrightarrow>
     ok s' \<and> advances s s' \<and> (\<exists>new. sw_runs v' = sw_runs v @ new \<and> fresh_runs s new s'))"

lemma orderlyD:
  assumes "orderly m" "ok s" "m (v, s) = (r, (v', s'))"
  obtains new where "ok s'" "advances s s'" "sw_runs v' = sw_runs v @ new" "fresh_runs s new s'"
  using assms unfolding orderly_def by blast

lemma fresh_runs_append:
  assumes "fresh_runs a xs b" "advances a b" "fresh_runs b ys c" "advances b c"
  shows "fresh_runs a (xs @ ys) c"
  using assms unfolding fresh_runs_def advances_def by (auto; metis)

lemma fresh_runs_Nil [simp]: "fresh_runs s [] s'"
  by (simp add: fresh_runs_def)

lemma orderly_bind: "orderly m \<Longrightarrow> (\<And>a. orderly (f a)) \<Longrightarrow> orderly (act_bind m f)"
  unfolding orderly_def [of "act_bind m f"]
proof (intro allI impI)
  fix v s r v' s' assume m: "orderly m" and f: "\<And>a. orderly (f a)" and ok: "ok s" and run: "act_bind m f (v, s) = (r, (v', s'))"
  from run show "ok s' \<and> advances s s' \<and> (\<exists>new. sw_runs v' = sw_runs v @ new \<and> fresh_runs s new s')"
  proof (cases rule: act_bind_cases)
    case (1 e) from orderlyD [OF m ok 1(1)] show ?thesis by blast
  next
    case (2 a vs)
    obtain v1 s1 where vs: "vs = (v1, s1)" by (cases vs)
    obtain xs where xs: "ok s1" "advances s s1" "sw_runs v1 = sw_runs v @ xs" "fresh_runs s xs s1"
      using orderlyD [OF m ok 2(1) [unfolded vs]] by blast
    obtain ys where ys: "ok s'" "advances s1 s'" "sw_runs v' = sw_runs v1 @ ys" "fresh_runs s1 ys s'"
      using orderlyD [OF f xs(1) 2(2) [unfolded vs]] by blast
    from xs(2) ys(2) have "advances s s'" by (rule advances_trans)
    moreover from fresh_runs_append [OF xs(4,2) ys(4,2)] have "fresh_runs s (xs @ ys) s'" .
    ultimately show ?thesis using xs(3) ys(1,3) by auto
  qed
qed

lemma orderly_seq: "orderly m \<Longrightarrow> orderly n \<Longrightarrow> orderly (act_seq m n)"
  unfolding act_seq_def by (rule orderly_bind)

lemma orderly_if: "orderly m \<Longrightarrow> orderly n \<Longrightarrow> orderly (if b then m else n)"
  by simp

lemma orderly_for: "(\<And>x. orderly (f x)) \<Longrightarrow> orderly (act_for f xs)"
  by (induction xs) (simp_all add: orderly_seq, simp add: orderly_def act_return_def)

text \<open>Most actions create no run at all.\<close>

definition inert where
  "inert m \<longleftrightarrow> (\<forall>v s r v' s'. ok s \<longrightarrow> m (v, s) = (r, (v', s')) \<longrightarrow> ok s' \<and> advances s s' \<and> sw_runs v' = sw_runs v)"

lemma inertD: "inert m \<Longrightarrow> ok s \<Longrightarrow> m (v, s) = (r, (v', s')) \<Longrightarrow> ok s' \<and> advances s s' \<and> sw_runs v' = sw_runs v"
  unfolding inert_def by blast

lemma orderly_inert: "inert m \<Longrightarrow> orderly m"
  unfolding inert_def orderly_def by (metis append_Nil2 fresh_runs_Nil)

lemma inert_bind: "inert m \<Longrightarrow> (\<And>a. inert (f a)) \<Longrightarrow> inert (act_bind m f)"
  unfolding inert_def [of "act_bind m f"]
proof (intro allI impI)
  fix v s r v' s' assume m: "inert m" and f: "\<And>a. inert (f a)" and ok: "ok s" and run: "act_bind m f (v, s) = (r, (v', s'))"
  from run show "ok s' \<and> advances s s' \<and> sw_runs v' = sw_runs v"
  proof (cases rule: act_bind_cases)
    case (1 e) from inertD [OF m ok 1(1)] show ?thesis .
  next
    case (2 a vs)
    obtain v1 s1 where vs: "vs = (v1, s1)" by (cases vs)
    from inertD [OF m ok 2(1) [unfolded vs]] inertD [OF f _ 2(2) [unfolded vs]] show ?thesis
      using advances_trans by fastforce
  qed
qed

lemma inert_seq: "inert m \<Longrightarrow> inert n \<Longrightarrow> inert (act_seq m n)"
  unfolding act_seq_def by (rule inert_bind)

lemma inert_idle: "inert (act_return x)" "inert (act_throw e)" "inert (act_lift q)" "inert (read_clock sv)"
  by (auto simp: inert_def act_return_def act_throw_def act_lift_def read_clock_def split: prod.splits)

lemma inert_if: "inert m \<Longrightarrow> inert n \<Longrightarrow> inert (if b then m else n)"
  by simp

lemma inert_option: "inert m \<Longrightarrow> (\<And>a. inert (f a)) \<Longrightarrow> inert (case x of None \<Rightarrow> m | Some a \<Rightarrow> f a)"
  by (cases x) simp_all

lemma inert_step: "(\<And>s r s'. m s = (r, s') \<Longrightarrow> schedule_step ops s s') \<Longrightarrow> inert (on_store m)"
  unfolding inert_def on_store_def advances_def using keeps by (fastforce split: prod.splits)

lemma inert_ops:
  "inert (on_store (so_create ops x))" "inert (on_store (so_list ops))" "inert (on_store (so_cancel ops i t))"
  "inert (on_store (so_claim ops c))" "inert (on_store (so_skip ops c))" "inert (on_store (so_recovery ops n c w))"
  "inert (on_store (so_execution ops n c w))"
  "inert (on_store (so_occurrences ops i))" "inert (on_store (so_notifications ops i))" "inert (on_store (so_notify ops nt))"
  "inert (on_store (so_has_trigger ops tr))" "inert (on_store (so_append ops e))"
  by (simp_all add: inert_step schedule_step.intros)

lemmas inert_basic = inert_bind inert_seq inert_idle inert_if inert_option inert_ops

lemma inert_append_once:
  assumes "sv_ops sv = ops"
  shows "inert (append_once h sv sd i ty kvs)"
  unfolding append_once_def assms by (intro inert_basic)

lemma inert_schedule:
  assumes "sv_ops sv = ops"
  shows "inert (sv_schedule h sv x)"
  unfolding sv_schedule_def assms by (intro inert_basic inert_append_once [OF assms])

lemma inert_cancel:
  assumes "sv_ops sv = ops"
  shows "inert (sv_cancel h sv i)"
  unfolding sv_cancel_def assms by (intro inert_basic inert_append_once [OF assms])

lemma inert_skip:
  assumes "sv_ops sv = ops"
  shows "inert (skip_due h sv sd due c)"
  unfolding skip_due_def assms by (intro inert_basic inert_append_once [OF assms])

text \<open>Once the occurrence has been started, at most its run is created.\<close>

lemma proactive_run_id: "proactive_run h sd c = Inr run \<Longrightarrow> sr_run_id run = oc_run_id c"
  by (auto simp: proactive_run_def parse_start_run_def start_run_js_def run_fields_js_def scope_fields_def parse_iffs res_simps
      elim!: parse_elims r_bindE)

lemma executed:
  assumes ops: "sv_ops sv = ops" and ok: "ok s" and run: "execute_occurrence h sv sd due now c (v, s) = (r, (v', s'))"
  shows "ok s' \<and> advances s s' \<and> sw_runs v' = sw_runs v @ (case proactive_run h sd c of Inl e \<Rightarrow> [] | Inr x \<Rightarrow> [x])"
proof (cases "proactive_run h sd c")
  case (Inl e)
  with run ok show ?thesis by (simp add: execute_occurrence_def act_bind_def act_lift_def)
next
  case (Inr x)
  obtain q v1 where q: "create_run sv x (v, s) = (q, (v1, s))" "sw_runs v1 = sw_runs v @ [x]"
    by (cases "sv_create sv x (sw_world v)") (simp add: create_run_def)
  define rest where "rest = act_seq (append_once h sv sd (''schedule:'' @ sd_id sd @ '':occurrence:'' @ due @ '':claimed'') ''schedule.occurrence.claimed''
         [(''scheduleId'', JStr (sd_id sd)), (''occurrenceId'', JStr (oc_id c)), (''dueAt'', JStr due)])
       (act_seq (act_bind (on_store (so_notify (sv_ops sv)
           \<lparr>nt_id = ''notification:'' @ sd_id sd @ '':'' @ due, nt_schedule_id = sd_id sd, nt_occurrence_id = oc_id c, nt_run_id = oc_run_id c,
            nt_trigger = sd_trigger sd, nt_audience = (case rf_trigger (sd_run sd) of Some (_, audience) \<Rightarrow> audience | None \<Rightarrow> []),
            nt_created_at = now, nt_scope = sd_scope sd\<rparr>)) (\<lambda>_. act_return ()))
       (append_once h sv sd (''schedule:'' @ sd_id sd @ '':occurrence:'' @ due @ '':notification'') ''schedule.notification.created''
         [(''scheduleId'', JStr (sd_id sd)), (''occurrenceId'', JStr (oc_id c)), (''runId'', JStr (oc_run_id c))]))"
  have "inert rest" unfolding rest_def ops by (intro inert_basic inert_append_once [OF ops])
  note rest = inertD [OF this ok]
  show ?thesis
  proof (cases "q = Inr () \<and> \<not> sv_lease_lost sv (sw_world v1)")
    case True
    with run Inr q(1) have "rest (v1, s) = (r, (v', s'))"
      by (simp add: execute_occurrence_def act_bind_def act_lift_def act_seq_def [of "create_run sv x"] rest_def)
    from rest [OF this] q(2) Inr show ?thesis by auto
  next
    case False
    with run Inr q(1) have "v' = v1 \<and> s' = s"
      by (cases q) (auto simp: execute_occurrence_def act_bind_def act_lift_def act_seq_def [of "create_run sv x"])
    with ok q(2) Inr show ?thesis by auto
  qed
qed

lemma orderly_run:
  assumes ops: "sv_ops sv = ops" and ok: "ok s" and known: "known s c"
    and run: "run_occurrence h sv sd due now c (v, s) = (r, (v', s'))"
  shows "ok s' \<and> advances s s' \<and> (\<exists>new. sw_runs v' = sw_runs v @ new \<and> fresh_runs s new s')"
proof (cases "busy_key sd c \<in> set (sw_busy v)")
  case True
  with run ok show ?thesis by (auto simp: run_occurrence_def)
next
  case False
  let ?recover = "on_store (so_recovery ops (sv_millis sv (sw_world v)) c (sv_owner sv))"
    and ?execution = "on_store (so_execution ops (sv_millis sv (sw_world v)) c (sv_owner sv))"
  obtain a s1 where a: "so_recovery ops (sv_millis sv (sw_world v)) c (sv_owner sv) s = (a, s1)" by fastforce
  have s1: "ok s1" "advances s s1" using keeps [OF ok schedule_step.recovery [OF a]] by (auto simp: advances_def)
  show ?thesis
  proof (cases "a = Inr True")
    case False
    with \<open>busy_key sd c \<notin> set (sw_busy v)\<close> run a ops have "v' = v \<and> s' = s1"
      by (cases a) (auto simp: run_occurrence_def act_bind_def on_store_def act_return_def split: if_splits)
    with s1 show ?thesis by auto
  next
    case leased: True
    obtain b s2 where b: "so_execution ops (sv_millis sv (sw_world v)) c (sv_owner sv) s1 = (b, s2)" by fastforce
    have s2: "ok s2" "advances s1 s2" using keeps [OF s1(1) schedule_step.execution [OF b]] by (auto simp: advances_def)
    show ?thesis
    proof (cases "b = Inr True")
      case False
      with \<open>busy_key sd c \<notin> set (sw_busy v)\<close> run a b leased ops have "v' = v \<and> s' = s2"
        by (cases b) (auto simp: run_occurrence_def act_bind_def on_store_def act_return_def split: if_splits)
      with s1 s2 advances_trans show ?thesis by auto
    next
      case True
      define v2 where "v2 = v\<lparr>sw_busy := sw_busy v @ [busy_key sd c]\<rparr>"
      obtain q v3 s3 where q: "execute_occurrence h sv sd due now c (v2, s2) = (q, (v3, s3))"
        by (cases "execute_occurrence h sv sd due now c (v2, s2)") auto
      have "s' = s3 \<and> sw_runs v' = sw_runs v3" using \<open>busy_key sd c \<notin> set (sw_busy v)\<close> run a b leased ops True q
        by (auto simp: run_occurrence_def act_bind_def on_store_def act_finally_def v2_def)
      moreover note executed [OF ops s2(1) q]
      moreover have "known s1 c" using known s1(2) by (simp add: advances_def)
      from execution_fresh [OF s1(1) this] b True have fresh: "\<not> started s1 (oc_run_id c)" "started s2 (oc_run_id c)" by auto
      moreover have "advances s s'" if "advances s2 s'" using s1(2) s2(2) that advances_trans by blast
      moreover have "fresh_runs s [x] s3" if "sr_run_id x = oc_run_id c" "advances s2 s3" for x
        using fresh s1(2) that by (auto simp: fresh_runs_def advances_def)
      ultimately show ?thesis using proactive_run_id [of h sd c] by (cases "proactive_run h sd c") (auto simp: v2_def)
    qed
  qed
qed

lemma orderly_claim:
  assumes ops: "sv_ops sv = ops"
  shows "orderly (claim_due h sv recovering sd due now c)"
  unfolding orderly_def
proof (intro allI impI)
  fix v s r v' s' assume ok: "ok s" and run: "claim_due h sv recovering sd due now c (v, s) = (r, (v', s'))"
  let ?goal = "ok s' \<and> advances s s' \<and> (\<exists>new. sw_runs v' = sw_runs v @ new \<and> fresh_runs s new s')"
  obtain a s1 where a: "so_claim ops c s = (a, s1)" by fastforce
  have s1: "ok s1" "advances s s1" using keeps [OF ok schedule_step.claim [OF a]] by (auto simp: advances_def)
  have later: ?goal if "ok s2" "advances s s2" "known s2 c'" "run_occurrence h sv sd due now c' (v, s2) = (r, (v', s'))" for s2 c'
  proof -
    from orderly_run [OF ops that(1,3,4)] obtain new where "ok s'" "advances s2 s'" "sw_runs v' = sw_runs v @ new" "fresh_runs s2 new s'"
      by blast
    moreover from this that(2) have "fresh_runs s new s'" by (auto simp: fresh_runs_def advances_def)
    moreover have "advances s s'" by (rule advances_trans [OF that(2) \<open>advances s2 s'\<close>])
    ultimately show ?thesis by blast
  qed
  have same: ?goal if "ok s2" "advances s s2" "v' = v" "s' = s2" for s2 using that by auto
  show ?goal
  proof (cases a)
    case (Inl e) with run a ops have "v' = v \<and> s' = s1" by (simp add: claim_due_def act_bind_def on_store_def)
    with same s1 show ?thesis by blast
  next
    case (Inr x)
    show ?thesis
    proof (cases x)
      case (Claimed c')
      with Inr run a ops have "run_occurrence h sv sd due now c' (v, s1) = (r, (v', s'))" by (simp add: claim_due_def act_bind_def on_store_def)
      with later s1 claim_known [OF ok] a Inr Claimed show ?thesis by blast
    next
      case ScheduleInactive
      with Inr run a ops have "v' = v \<and> s' = s1" by (simp add: claim_due_def act_bind_def on_store_def act_return_def)
      with same s1 show ?thesis by blast
    next
      case (AlreadyClaimed c')
      have known: "known s1 c'" using claim_known [OF ok] a Inr AlreadyClaimed by blast
      show ?thesis
      proof (cases "\<not> recovering \<or> oc_status c' = Some ''skipped''")
        case True
        with Inr AlreadyClaimed run a ops have "v' = v \<and> s' = s1" by (auto simp: claim_due_def act_bind_def on_store_def act_return_def)
        with same s1 show ?thesis by blast
      next
        case False
        obtain n s2 where n: "so_notifications ops (sd_id sd) s1 = (n, s2)" by fastforce
        have s2: "ok s2" "advances s1 s2" using keeps [OF s1(1) schedule_step.notifications [OF n]] by (auto simp: advances_def)
        have s: "advances s s2" using s1 s2 advances_trans by blast
        have known2: "known s2 c'" using known s2(2) by (simp add: advances_def)
        have tail: "act_bind (on_store (so_notifications ops (sd_id sd))) (\<lambda>ns.
            if list_ex (\<lambda>n. nt_occurrence_id n = oc_id c') ns then act_return () else run_occurrence h sv sd due now c') (v, s1) = (r, (v', s'))"
        proof -
          have "on_store (so_claim ops c) (v, s) = (Inr (AlreadyClaimed c'), (v, s1))" using a Inr AlreadyClaimed by (simp add: on_store_def)
          note next_state = act_bind_run(1) [where m = "on_store (so_claim ops c)" and s = "(v, s)", OF this]
          from run False show ?thesis unfolding claim_due_def ops next_state by simp
        qed
        show ?thesis
        proof (cases "\<exists>ns. n = Inr ns \<and> \<not> list_ex (\<lambda>n. nt_occurrence_id n = oc_id c') ns")
          case True
          with tail n have "run_occurrence h sv sd due now c' (v, s2) = (r, (v', s'))" by (auto simp: act_bind_def on_store_def)
          from later [OF s2(1) s known2 this] show ?thesis .
        next
          case False
          with tail n have "v' = v \<and> s' = s2" by (cases n) (simp_all add: act_bind_def on_store_def act_return_def)
          with same s2 s show ?thesis by blast
        qed
      qed
    qed
  qed
qed

lemma orderly_process:
  assumes ops: "sv_ops sv = ops"
  shows "orderly (process_due h sv recovering)"
proof -
  have "orderly (process_schedule h sv recovering now millis sd)" for now millis sd
    unfolding process_schedule_def
    by (intro orderly_if orderly_bind orderly_inert [OF inert_idle(1)] orderly_inert [OF inert_idle(3)])
      (simp split: option.split, intro conjI allI impI orderly_inert [OF inert_idle(1)] orderly_inert [OF inert_skip [OF ops]] orderly_claim [OF ops])
  then show ?thesis unfolding process_due_def ops
    by (intro orderly_bind orderly_for orderly_inert [OF inert_idle(4)] orderly_inert [OF inert_idle(3)] orderly_inert [OF inert_ops(2)])
qed

end

section \<open>The in-memory store\<close>

definition run_started :: "host \<Rightarrow> scope \<Rightarrow> store \<Rightarrow> string \<Rightarrow> bool" where
  "run_started h s st run \<longleftrightarrow> (\<exists>i c. occurrence_entry h s i st = Some c \<and> oc_status c = Some ''started'' \<and> oc_run_id c = run)"

definition on_record :: "host \<Rightarrow> scope \<Rightarrow> store \<Rightarrow> occurrence \<Rightarrow> bool" where
  "on_record h s st c \<longleftrightarrow> (\<exists>c'. occurrence_entry h s (oc_id c) st = Some c' \<and> oc_run_id c' = oc_run_id c)"

text \<open>Every claim is on record, and the occurrences that were not skipped have runs of their own.\<close>

definition occurrences_ok :: "host \<Rightarrow> store \<Rightarrow> bool" where
  "occurrences_ok h st \<longleftrightarrow>
     (\<forall>s c0 c. map_of (st_claims st) (claim_key h s c0) = Some c \<longrightarrow> on_record h s st c)
     \<and> (\<forall>s i j c d. occurrence_entry h s i st = Some c \<longrightarrow> occurrence_entry h s j st = Some d \<longrightarrow> oc_status c \<noteq> Some ''skipped'' \<longrightarrow>
          oc_status d \<noteq> Some ''skipped'' \<longrightarrow> oc_run_id c = oc_run_id d \<longrightarrow> i = j)"

text \<open>Occurrences on record keep their run.\<close>

definition keeps_record :: "host \<Rightarrow> store \<Rightarrow> store \<Rightarrow> bool" where
  "keeps_record h st st' \<longleftrightarrow> (\<forall>s i c. occurrence_entry h s i st = Some c \<longrightarrow>
     (\<exists>c'. occurrence_entry h s i st' = Some c' \<and> oc_run_id c' = oc_run_id c
        \<and> (oc_status c = Some ''started'' \<longrightarrow> oc_status c' = Some ''started'')))"

lemma keeps_record_lasting:
  "keeps_record h st st' \<Longrightarrow> run_started h s st run \<Longrightarrow> run_started h s st' run"
  "keeps_record h st st' \<Longrightarrow> on_record h s st c \<Longrightarrow> on_record h s st' c"
  unfolding keeps_record_def run_started_def on_record_def by metis+

lemma scoped_values_in:
  "occurrence_entry h s i st = Some c \<Longrightarrow> c \<in> set (scoped_values h s ''schedule-occurrence'' (st_occurrences st))"
  by (drule map_of_SomeD) (force simp: scoped_values_def)

lemma record_keeps:
  assumes ok: "occurrences_ok h st" and new: "occurrence_entry h s (oc_id c) st = None"
    and fresh: "oc_status c = Some ''skipped'' \<or> (\<forall>x \<in> set (scoped_values h s ''schedule-occurrence'' (st_occurrences st)). oc_run_id x \<noteq> oc_run_id c)"
  shows "occurrences_ok h (record_occurrence h s c st) \<and> keeps_record h st (record_occurrence h s c st)"
proof -
  let ?st = "record_occurrence h s c st"
  have entry: "occurrence_entry h s' i ?st = (if s' = s \<and> i = oc_id c then Some c else occurrence_entry h s' i st)" for s' i
    by (simp add: record_occurrence_def)
  have claims: "map_of (st_claims ?st) (claim_key h s' c0) = (if claim_key h s' c0 = claim_key h s c then Some c
      else map_of (st_claims st) (claim_key h s' c0))" for s' c0
    by (simp add: record_occurrence_def del: claim_key_inj)
  have keep: "keeps_record h st ?st"
    using new by (auto simp: keeps_record_def entry)
  have "on_record h s' ?st d" if "map_of (st_claims ?st) (claim_key h s' c0) = Some d" for s' c0 d
  proof (cases "claim_key h s' c0 = claim_key h s c")
    case True
    with that claims have "d = c" "s' = s" by auto
    then show ?thesis by (simp add: on_record_def entry)
  next
    case False
    from that have "map_of (st_claims st) (claim_key h s' c0) = Some d" unfolding claims if_not_P [OF False] .
    with ok have "on_record h s' st d" unfolding occurrences_ok_def by blast
    with keep show ?thesis by (rule keeps_record_lasting)
  qed
  moreover have "i = j" if "occurrence_entry h s' i ?st = Some a" "occurrence_entry h s' j ?st = Some b" "oc_status a \<noteq> Some ''skipped''"
      "oc_status b \<noteq> Some ''skipped''" "oc_run_id a = oc_run_id b" for s' i j a b
    using that fresh ok scoped_values_in [where h = h and s = s and st = st] unfolding entry occurrences_ok_def
    by (auto split: if_splits) 
  ultimately show ?thesis using keep unfolding occurrences_ok_def by blast
qed

lemma execution_keeps:
  assumes ok: "occurrences_ok h st" and x: "occurrence_entry h s i st = Some x" "oc_status x \<noteq> Some ''skipped''"
    and st': "st' = st\<lparr>st_occurrences := js_set (scoped_key h s ''schedule-occurrence'' i) (x\<lparr>oc_status := Some ''started''\<rparr>) (st_occurrences st)\<rparr>"
  shows "occurrences_ok h st' \<and> keeps_record h st st'"
proof -
  have entry: "occurrence_entry h s' j st' = (if s' = s \<and> j = i then Some (x\<lparr>oc_status := Some ''started''\<rparr>) else occurrence_entry h s' j st)" for s' j
    by (simp add: st')
  have claims: "st_claims st' = st_claims st" by (simp add: st')
  have keep: "keeps_record h st st'" using x by (auto simp: keeps_record_def entry)
  have "j = k" if e: "occurrence_entry h s' j st' = Some a" "occurrence_entry h s' k st' = Some b" "oc_status a \<noteq> Some ''skipped''"
      "oc_status b \<noteq> Some ''skipped''" "oc_run_id a = oc_run_id b" for s' j k a b
  proof -
    obtain a' where a': "occurrence_entry h s' j st = Some a'" "oc_status a' \<noteq> Some ''skipped''" "oc_run_id a' = oc_run_id a"
      using e(1,3) x unfolding entry by (auto split: if_splits)
    obtain b' where b': "occurrence_entry h s' k st = Some b'" "oc_status b' \<noteq> Some ''skipped''" "oc_run_id b' = oc_run_id b"
      using e(2,4) x unfolding entry by (auto split: if_splits)
    from ok a' b' e(5) show ?thesis unfolding occurrences_ok_def by metis
  qed
  moreover have "on_record h s' st' d" if "map_of (st_claims st') (claim_key h s' c0) = Some d" for s' c0 d
    using ok that keeps_record_lasting(2) [OF keep] unfolding claims occurrences_ok_def by blast
  ultimately show ?thesis using keep unfolding occurrences_ok_def by blast
qed

lemma keeps_record_refl: "st_occurrences st' = st_occurrences st \<Longrightarrow> keeps_record h st st'"
  by (simp add: keeps_record_def)

lemma occurrences_ok_cong:
  "st_occurrences st' = st_occurrences st \<Longrightarrow> st_claims st' = st_claims st \<Longrightarrow> occurrences_ok h st' = occurrences_ok h st"
  by (simp add: occurrences_ok_def on_record_def)

lemma run_call_occurrences:
  assumes ok: "occurrences_ok h st"
  shows "occurrences_ok h (run_call h s c st) \<and> keeps_record h st (run_call h s c st)"
proof (cases "occurrence_call c")
  case False
  from frame_occurrences [OF this, of h s st] ok occurrences_ok_cong keeps_record_refl show ?thesis by blast
next
  case True
  then consider d where "c = CallClaimOccurrence d" | d where "c = CallSkipOccurrence d" | t d w where "c = CallClaimExecution t d w"
    by (cases c) auto
  then show ?thesis
  proof cases
    case 1
    have "occurrences_ok h (snd (claim_occurrence h s d st)) \<and> keeps_record h st (snd (claim_occurrence h s d st))"
      using claim_occurrence_cases [OF surjective_pairing, of h s d st] ok keeps_record_refl [where st = st and st' = st and h = h]
        record_keeps [OF ok, of s]
      by (elim disjE exE conjE) simp_all
    then show ?thesis by (simp add: 1)
  next
    case 2
    have "occurrences_ok h (snd (skip_occurrence h s d st)) \<and> keeps_record h st (snd (skip_occurrence h s d st))"
      using skip_occurrence_cases [OF surjective_pairing, of h s d st] ok keeps_record_refl [where st = st and st' = st and h = h]
        record_keeps [OF ok, of s]
      by (elim disjE exE conjE) (auto dest!: clone_occurrence_same)
    then show ?thesis by (simp add: 2)
  next
    case 3
    have "occurrences_ok h (snd (claim_execution h s t d w st)) \<and> keeps_record h st (snd (claim_execution h s t d w st))"
      using claim_execution_cases [OF surjective_pairing, of h s t d w st]
    proof (elim disjE exE conjE)
      fix c' l x x' assume c: "occurrence_entry h s (oc_id c') st = Some x" "oc_status x \<noteq> Some ''skipped''"
        "clone_occurrence h (x\<lparr>oc_status := Some ''started''\<rparr>) = Inr x'"
        "snd (claim_execution h s t d w st) = st\<lparr>st_occurrences := js_set (scoped_key h s ''schedule-occurrence'' (oc_id c')) x' (st_occurrences st)\<rparr>"
      have "x' = x\<lparr>oc_status := Some ''started''\<rparr>" by (rule clone_occurrence_same [OF c(3)])
      from execution_keeps [OF ok c(1,2)] c(4) this show ?thesis by simp
    qed (use ok keeps_record_refl in simp)
    then show ?thesis by (simp add: 3)
  qed
qed

text \<open>Every call of the interface is a call of the store, or changes nothing.\<close>

lemma schedule_step_call:
  assumes "schedule_step (in_memory_schedules h s) st st'"
  shows "st' = st \<or> (\<exists>c. st' = run_call h s c st)"
  using assms
proof cases
  case (create x r) then show ?thesis by (auto simp: in_memory_schedules_def intro: exI [of _ "CallCreateSchedule x"])
next
  case (list r) then show ?thesis by (simp add: in_memory_schedules_def list_schedules_def)
next
  case (cancel i t r) then show ?thesis by (auto simp: in_memory_schedules_def intro: exI [of _ "CallCancelSchedule i"])
next
  case (claim c r) then show ?thesis by (auto simp: in_memory_schedules_def intro: exI [of _ "CallClaimOccurrence c"])
next
  case (skip c r) then show ?thesis by (auto simp: in_memory_schedules_def intro: exI [of _ "CallSkipOccurrence c"])
next
  case (recovery n c w r) then show ?thesis by (auto simp: in_memory_schedules_def intro: exI [of _ "CallClaimRecovery n c w"])
next
  case (execution n c w r) then show ?thesis by (auto simp: in_memory_schedules_def intro: exI [of _ "CallClaimExecution n c w"])
next
  case (occurrences i r) then show ?thesis by (simp add: in_memory_schedules_def list_occurrences_def)
next
  case (notifications i r) then show ?thesis by (simp add: in_memory_schedules_def list_notifications_def)
next
  case (notify nt r) then show ?thesis by (auto simp: in_memory_schedules_def intro: exI [of _ "CallRecordNotification nt"])
next
  case (has_trigger tr r) then show ?thesis by (simp add: in_memory_schedules_def has_trigger_def)
next
  case (append e r) then show ?thesis by (auto simp: in_memory_schedules_def intro: exI [of _ "CallAppendIdempotent e"])
qed

interpretation memory_schedules: occurrence_store "in_memory_schedules h s" "occurrences_ok h" "run_started h s" "on_record h s" for h s
proof
  fix st st' assume ok: "occurrences_ok h st" and "schedule_step (in_memory_schedules h s) st st'"
  from schedule_step_call [OF this(2)] have "occurrences_ok h st' \<and> keeps_record h st st'"
    using run_call_occurrences [OF ok, of s] ok keeps_record_refl by auto
  then show "occurrences_ok h st' \<and> (\<forall>r. run_started h s st r \<longrightarrow> run_started h s st' r) \<and> (\<forall>c. on_record h s st c \<longrightarrow> on_record h s st' c)"
    using keeps_record_lasting by blast
next
  fix st c x st' c' assume ok: "occurrences_ok h st" and "so_claim (in_memory_schedules h s) c st = (Inr x, st')"
    and x: "x = Claimed c' \<or> x = AlreadyClaimed c'"
  then have run: "claim_occurrence h s c st = (Inr x, st')" by (simp add: in_memory_schedules_def)
  from claim_occurrence_cases [OF run] show "on_record h s st' c'"
  proof (elim disjE exE conjE)
    assume same: "st' = st" and "\<forall>o'. Inr x \<noteq> Inr (Claimed o')"
    then have "x = AlreadyClaimed c'" using x by auto
    with run obtain d where d: "map_of (st_claims st) (claim_key h s d) = Some c'"
      by (auto simp: claim_occurrence_def act_bind_def act_lift_def split: sum.splits option.splits if_splits
          elim!: r_bindE dest!: clone_occurrence_same)
    with ok same show ?thesis unfolding occurrences_ok_def by blast
  next
    fix d assume "Inr x = r_bind (clone_occurrence h d) (\<lambda>c. Inr (Claimed c))" "st' = record_occurrence h s d st"
    moreover from this(1) [symmetric] obtain d' where "clone_occurrence h d = Inr d'" "x = Claimed d'" by (auto elim!: r_bindE)
    ultimately show ?thesis using x clone_occurrence_same by (auto simp: on_record_def record_occurrence_def)
  qed
next
  fix st c t w st' assume ok: "occurrences_ok h st" and known: "on_record h s st c"
    and "so_execution (in_memory_schedules h s) t c w st = (Inr True, st')"
  then have run: "claim_execution h s t c w st = (Inr True, st')" by (simp add: in_memory_schedules_def)
  from occurrence_started [OF run store_steps.start] obtain x where
    x: "occurrence_entry h s (oc_id c) st' = Some (x\<lparr>oc_status := Some ''started''\<rparr>)" "occurrence_entry h s (oc_id c) st = Some x"
      "oc_status x \<noteq> Some ''started''" "oc_status x \<noteq> Some ''skipped''" by blast
  have r: "oc_run_id x = oc_run_id c" using known x(2) by (auto simp: on_record_def)
  have "\<not> run_started h s st (oc_run_id c)"
  proof
    assume "run_started h s st (oc_run_id c)"
    then obtain i d where d: "occurrence_entry h s i st = Some d" "oc_status d = Some ''started''" "oc_run_id d = oc_run_id c"
      by (auto simp: run_started_def)
    have "oc_status d \<noteq> Some ''skipped''" using d(2) by simp
    from ok [unfolded occurrences_ok_def, THEN conjunct2, rule_format, OF d(1) x(2) this x(4)] d(3) r have "i = oc_id c" by simp
    with d x show False by simp
  qed
  moreover have "run_started h s st' (oc_run_id c)" using x(1) r by (force simp: run_started_def)
  ultimately show "\<not> run_started h s st (oc_run_id c) \<and> run_started h s st' (oc_run_id c)" by blast
qed

section \<open>The store with other clients\<close>

text \<open>An update by others that keeps what the scheduler relies on.\<close>

definition courteous :: "('s \<Rightarrow> bool) \<Rightarrow> ('s \<Rightarrow> string \<Rightarrow> bool) \<Rightarrow> ('s \<Rightarrow> occurrence \<Rightarrow> bool) \<Rightarrow> ('s \<Rightarrow> 's) \<Rightarrow> bool" where
  "courteous ok started known f \<longleftrightarrow> (\<forall>s. ok s \<longrightarrow>
     ok (f s) \<and> (\<forall>r. started s r \<longrightarrow> started (f s) r) \<and> (\<forall>c. known s c \<longrightarrow> known (f s) c))"

text \<open>A shared call is the call itself, after the others' next update if there is one.\<close>

definition stepped_in :: "('s \<times> ('s \<Rightarrow> 's) list) \<Rightarrow> 's \<Rightarrow> ('s \<Rightarrow> 's) list \<Rightarrow> bool" where
  "stepped_in sf s fs \<longleftrightarrow> (snd sf = [] \<and> s = fst sf \<and> fs = []) \<or> (\<exists>f. snd sf = f # fs \<and> s = f (fst sf))"

lemma disturb_stepped: "disturb m sf = (r, sf') \<Longrightarrow> \<exists>s. stepped_in sf s (snd sf') \<and> m s = (r, fst sf')"
  by (cases sf; cases "snd sf") (auto simp: disturb_def stepped_in_def split: prod.splits)

lemma disturbed_step:
  fixes m :: "('s, js_error, 'a) action"
  assumes "disturb m sf = (r, sf')" and "\<And>s. m s = (r, fst sf') \<Longrightarrow> schedule_step ops s (fst sf')"
  shows "\<exists>s. stepped_in sf s (snd sf') \<and> schedule_step ops s (fst sf')"
  using disturb_stepped [OF assms(1)] assms(2) by blast

lemma shared_step:
  assumes "schedule_step (shared_schedules ops) sf sf'"
  shows "\<exists>s. stepped_in sf s (snd sf') \<and> schedule_step ops s (fst sf')"
  using assms
proof cases
  case (create x r) then show ?thesis unfolding shared_schedules_def by (auto elim!: disturbed_step schedule_step.create)
next
  case (list r) then show ?thesis unfolding shared_schedules_def by (auto elim!: disturbed_step schedule_step.list)
next
  case (cancel i t r) then show ?thesis unfolding shared_schedules_def by (auto elim!: disturbed_step schedule_step.cancel)
next
  case (claim c r) then show ?thesis unfolding shared_schedules_def by (auto elim!: disturbed_step schedule_step.claim)
next
  case (skip c r) then show ?thesis unfolding shared_schedules_def by (auto elim!: disturbed_step schedule_step.skip)
next
  case (recovery n c w r) then show ?thesis unfolding shared_schedules_def by (auto elim!: disturbed_step schedule_step.recovery)
next
  case (execution n c w r) then show ?thesis unfolding shared_schedules_def by (auto elim!: disturbed_step schedule_step.execution)
next
  case (occurrences i r) then show ?thesis unfolding shared_schedules_def by (auto elim!: disturbed_step schedule_step.occurrences)
next
  case (notifications i r) then show ?thesis unfolding shared_schedules_def by (auto elim!: disturbed_step schedule_step.notifications)
next
  case (notify nt r) then show ?thesis unfolding shared_schedules_def by (auto elim!: disturbed_step schedule_step.notify)
next
  case (has_trigger tr r) then show ?thesis unfolding shared_schedules_def by (auto elim!: disturbed_step schedule_step.has_trigger)
next
  case (append e r) then show ?thesis unfolding shared_schedules_def by (auto elim!: disturbed_step schedule_step.append)
qed

context occurrence_store
begin

lemma stepped_in_keeps:
  assumes "stepped_in sf s fs" "ok (fst sf)" "\<forall>f \<in> set (snd sf). courteous ok started known f"
  shows "ok s \<and> (\<forall>r. started (fst sf) r \<longrightarrow> started s r) \<and> (\<forall>c. known (fst sf) c \<longrightarrow> known s c)
    \<and> (\<forall>f \<in> set fs. courteous ok started known f)"
  using assms by (auto simp: stepped_in_def courteous_def)

lemma shared:
  "occurrence_store (shared_schedules ops) (\<lambda>sf. ok (fst sf) \<and> (\<forall>f \<in> set (snd sf). courteous ok started known f))
     (\<lambda>sf. started (fst sf)) (\<lambda>sf. known (fst sf))"
proof (unfold_locales, goal_cases)
  case (1 sf sf')
  obtain s where s: "stepped_in sf s (snd sf')" "schedule_step ops s (fst sf')" using shared_step [OF 1(2)] by blast
  from stepped_in_keeps [OF s(1)] 1(1) keeps [OF _ s(2)] show ?case by blast
next
  case (2 sf c x sf' c')
  from 2(2) have "disturb (so_claim ops c) sf = (Inr x, sf')" by (simp add: shared_schedules_def)
  then obtain s where s: "stepped_in sf s (snd sf')" "so_claim ops c s = (Inr x, fst sf')" using disturb_stepped by blast
  from stepped_in_keeps [OF s(1)] 2(1) claim_known [OF _ s(2) 2(3)] show ?case by blast
next
  case (3 sf c t w sf')
  from 3(3) have "disturb (so_execution ops t c w) sf = (Inr True, sf')" by (simp add: shared_schedules_def)
  then obtain s where s: "stepped_in sf s (snd sf')" "so_execution ops t c w s = (Inr True, fst sf')" using disturb_stepped by blast
  from stepped_in_keeps [OF s(1)] 3(1,2) execution_fresh [OF _ _ s(2)] show ?case by blast
qed

end

lemma keeps_record_trans:
  assumes ab: "keeps_record h a b" and bc: "keeps_record h b c"
  shows "keeps_record h a c"
  unfolding keeps_record_def
proof (intro allI impI)
  fix s i x assume "occurrence_entry h s i a = Some x"
  with ab obtain y where y: "occurrence_entry h s i b = Some y" "oc_run_id y = oc_run_id x"
    "oc_status x = Some ''started'' \<longrightarrow> oc_status y = Some ''started''" unfolding keeps_record_def by blast
  from bc y(1) obtain z where "occurrence_entry h s i c = Some z" "oc_run_id z = oc_run_id y"
    "oc_status y = Some ''started'' \<longrightarrow> oc_status z = Some ''started''" unfolding keeps_record_def by blast
  with y show "\<exists>c'. occurrence_entry h s i c = Some c' \<and> oc_run_id c' = oc_run_id x
      \<and> (oc_status x = Some ''started'' \<longrightarrow> oc_status c' = Some ''started'')" by simp
qed

lemma others_occurrences:
  "occurrences_ok h st \<Longrightarrow> occurrences_ok h (others h calls st) \<and> keeps_record h st (others h calls st)"
proof (induction calls arbitrary: st)
  case Nil then show ?case by (simp add: keeps_record_refl)
next
  case (Cons sc calls)
  obtain s c where sc: "sc = (s, c)" by (cases sc)
  show ?case
  proof (cases "array_room h st")
    case True
    note one = run_call_occurrences [OF Cons.prems, of s c]
    from Cons.IH [OF one [THEN conjunct1]] keeps_record_trans [OF one [THEN conjunct2]]
    show ?thesis using True by (simp add: sc)
  qed (use Cons.prems in \<open>simp add: sc keeps_record_refl\<close>)
qed

lemma others_courteous: "courteous (occurrences_ok h) (run_started h s) (on_record h s) (others h calls)"
  unfolding courteous_def using others_occurrences keeps_record_lasting by blast

interpretation shared_memory: occurrence_store "shared_schedules (in_memory_schedules h s)"
    "\<lambda>sf. occurrences_ok h (fst sf) \<and> (\<forall>f \<in> set (snd sf). courteous (occurrences_ok h) (run_started h s) (on_record h s) f)"
    "\<lambda>sf. run_started h s (fst sf)" "\<lambda>sf. on_record h s (fst sf)" for h s
  by (rule memory_schedules.shared)

lemma reachable_occurrences_ok: "reachable_store h st \<Longrightarrow> occurrences_ok h st"
  by (erule reachable_invariant [where P = "occurrences_ok h"])
    (simp add: occurrences_ok_def empty_store_def, rule run_call_occurrences [THEN conjunct1])

end
