(* ===== verification/SchedulerExamples.thy ===== *)
theory SchedulerExamples
  imports SchedulerRuns
begin

text \<open>
  A schedule that recurs every ten instants, accepted by the parser, and a scheduler whose clock
  stands at 25: its tick claims the occurrence due at 23 and creates its run. \<open>due_runs\<close> says so
  for every due occurrence that is not claimed yet.
\<close>

definition demo_run :: run_fields where
  "demo_run = demo_fields\<lparr>rf_trigger := Some (ExplicitTrigger ''l'', [''u''])\<rparr>"

definition demo_schedule :: schedule where
  "demo_schedule = \<lparr>sd_id = ''s'', sd_scope = demo_scope, sd_kind = ''explicit'', sd_trigger = ExplicitTrigger ''l'',
     sd_due = ''3'', sd_policy = ''run_latest'', sd_status = ''active'', sd_run = demo_run, sd_recurrence = Some 10\<rparr>"

lemma demo_run_contract:
  assumes "same_run_fields kvs demo_run"
  shows "parse_run_contract demo_host n kvs = Inr (demo_run\<lparr>rf_goal := [], rf_scope := \<lparr>sc_workspace = [], sc_channel = []\<rparr>, rf_source_event := [], rf_permission := []\<rparr>)"
proof -
  have blank: "\<not> is_blank ''p''" "\<not> is_blank ''1''" "\<not> is_blank ''u''" "\<not> is_blank (CHR ''l'' # [])" "\<not> is_blank ''artifact_or_terminal''"
    by (simp_all add: is_blank_iff is_space_def)
  note get = run_fields_get [OF assms]
  have "optional_field kvs ''trigger'' (parse_schedule_trigger demo_host) = Inr (Some (ExplicitTrigger ''l''))"
    by (simp add: optional_field_def get demo_run_def trigger_js_def parse_schedule_trigger_def parse_runs blank)
  moreover have "optional_field kvs ''notificationAudience'' (\<lambda>v. parse_audience v (n @ ''.notificationAudience'')) = Inr (Some [''u''])"
    by (simp add: optional_field_def get demo_run_def js_strings_def parse_audience_def parse_runs blank)
  ultimately show ?thesis
    unfolding parse_run_contract_def
    by (simp add: parse_runs get) (simp add: demo_run_def demo_fields_def blank demo_snapshot_facts demo_budget_parses parse_runs get
        assert_run_profile_execution_contract_def budgets_match_def js_dedup_def optional_field_def both_or_neither_def)
qed

lemma demo_run_rest:
  assumes "same_run_fields kvs demo_run"
  shows "parse_run_rest n kvs [(''eventId'', JStr ''e'')] (demo_run\<lparr>rf_goal := [], rf_scope := \<lparr>sc_workspace = [], sc_channel = []\<rparr>, rf_source_event := [], rf_permission := []\<rparr>) = Inr demo_run"
proof -
  have blank: "\<not> is_blank ''g''" "\<not> is_blank ''w''" "\<not> is_blank ''c''" "\<not> is_blank ''e''" "\<not> is_blank ''x''"
    by (simp_all add: is_blank_iff is_space_def)
  show ?thesis unfolding parse_run_rest_iff
    by (simp add: run_fields_get [OF assms]) (simp add: demo_run_def demo_fields_def demo_scope_def scope_ok_def blank)
qed

lemma demo_run_parses:
  assumes same: "same_run_fields kvs demo_run" and "js_field kvs ''commandId'' = JStr command" "js_field kvs ''runId'' = JStr run"
    and "js_field kvs ''surfaceId'' = JUndef" "\<not> is_blank command" "\<not> is_blank run"
  shows "parse_start_run demo_host (JObj kvs) = Inr \<lparr>sr_command_id = command, sr_run_id = run, sr_surface = None, sr_fields = demo_run\<rparr>"
proof -
  have "js_field kvs ''source'' = JObj [(''eventId'', JStr ''e'')]"
    using run_fields_get(4) [OF same] by (simp add: demo_run_def demo_fields_def)
  then show ?thesis unfolding parse_start_run_def
    by (simp add: parse_runs assms demo_run_contract [OF same] demo_run_rest [OF same] optional_field_def)
qed

lemma demo_run_fields_surface: "js_field (run_fields_js f) ''surfaceId'' = JUndef"
  by (simp add: run_fields_js_def scope_fields_def opt_field_def split: option.splits)

lemma demo_run_starts:
  assumes "\<not> is_blank command" "\<not> is_blank run"
  shows "parse_start_run demo_host (start_run_js \<lparr>sr_command_id = command, sr_run_id = run, sr_surface = None, sr_fields = demo_run\<rparr>)
    = Inr \<lparr>sr_command_id = command, sr_run_id = run, sr_surface = None, sr_fields = demo_run\<rparr>"
proof -
  have "same_run_fields ([(''commandId'', JStr command), (''runId'', JStr run)] @ run_fields_js demo_run @ []) demo_run"
    by (rule same_run_fields_in) (auto simp: run_field_keys_def)
  from demo_run_parses [OF this _ _ _ assms] show ?thesis
    by (simp add: start_run_js_def opt_field_def demo_run_fields_surface)
qed

lemma demo_schedule_ok: "clone_schedule demo_host demo_schedule = Inr demo_schedule"
proof -
  let ?kvs = "js_set ''runId'' (JStr ''schedule-template-run'') (js_set ''commandId'' (JStr ''schedule-template-command'') (run_fields_js demo_run))"
  have same: "same_run_fields ?kvs demo_run" by (simp add: same_run_fields_def run_field_keys_def)
  have blank: "\<not> is_blank ''s''" "\<not> is_blank ''3''" "\<not> is_blank ''u''" "\<not> is_blank (CHR ''l'' # [])" "\<not> is_blank ''schedule-template-run''"
      "\<not> is_blank ''schedule-template-command''" "\<not> is_blank ''w''" "\<not> is_blank ''c''"
    by (simp_all add: is_blank_iff is_space_def)
  have start: "parse_start_run demo_host (JObj ?kvs)
      = Inr \<lparr>sr_command_id = ''schedule-template-command'', sr_run_id = ''schedule-template-run'', sr_surface = None, sr_fields = demo_run\<rparr>"
    by (rule demo_run_parses [OF same]) (simp_all add: demo_run_fields_surface blank)
  have trigger: "parse_schedule_trigger demo_host (trigger_js (ExplicitTrigger ''l'')) = Inr (ExplicitTrigger ''l'')"
    by (simp add: trigger_js_def parse_schedule_trigger_def parse_runs blank)
  have audience: "parse_audience (js_strings [''u'']) n = Inr [''u'']" for n
    by (simp add: js_strings_def parse_audience_def parse_runs blank)
  have get: "js_field (run_fields_js demo_run) ''trigger'' = trigger_js (ExplicitTrigger ''l'')"
      "js_field (run_fields_js demo_run) ''notificationAudience'' = js_strings [''u'']"
    using run_fields_get(13,14) [OF same_run_fields_refl, of demo_run] by (simp_all add: demo_run_def)
  have fields: "demo_run\<lparr>rf_parent := None, rf_lane := None, rf_trigger := Some (ExplicitTrigger ''l'', [''u''])\<rparr> = demo_run"
    by (simp add: demo_run_def demo_fields_def)
  have spec: "parse_scheduled_run_spec demo_host (JObj (run_fields_js demo_run)) = Inr demo_run"
    using start unfolding parse_scheduled_run_spec_def by (simp add: parse_runs get trigger audience fields)
  have due: "parse_timestamp demo_host (JStr ''3'') n = Inr ''3''" for n
    by (simp add: parse_timestamp_iff blank demo_host_def parse_millis_def is_digit_def)
  have recurrence: "parse_recurrence (JObj [(''kind'', JStr ''fixed_interval''), (''intervalMs'', JNum 10)]) = Inr 10"
    using parse_recurrence_iff [of "JObj [(''kind'', JStr ''fixed_interval''), (''intervalMs'', JNum 10)]" 10] by (simp add: max_safe_def)
  show ?thesis
    unfolding clone_schedule_def parse_schedule_def schedule_js_def
    by (simp add: demo_schedule_def parse_runs spec trigger opt_field_def blank due recurrence optional_field_def triggers_differ_def demo_scope_def
      scope_fields_def) (simp add: demo_run_def demo_fields_def demo_scope_def)
qed

definition demo_scheduler :: "'s schedule_ops \<Rightarrow> (nat, 's) scheduler" where
  "demo_scheduler ops = \<lparr>sv_ops = ops, sv_now = (\<lambda>w. (''25'', w)), sv_millis = (\<lambda>w. int w), sv_create = (\<lambda>run w. (True, w + 1)),
     sv_lease_lost = (\<lambda>w. False), sv_permissions = [''x''], sv_tools = rp_allowed_tools demo_snapshot, sv_owner = ''o''\<rparr>"

definition demo_due :: occurrence where
  "demo_due = occurrence_for demo_schedule ''23'' ''25''"

lemma demo_due_now: "latest_due demo_host demo_schedule 25 = Inr (Some ''23'')"
  by (simp add: latest_due_def parse_instant_def demo_schedule_def demo_host_def parse_millis_def is_digit_def show_int_def digits_value_def)
    (simp add: show_nat.simps, code_simp)

lemma demo_due_ok:
  "status = None \<or> status = Some ''started'' \<Longrightarrow> clone_occurrence demo_host (demo_due\<lparr>oc_status := status\<rparr>) = Inr (demo_due\<lparr>oc_status := status\<rparr>)"
  by (auto simp: clone_occurrence_def parse_schedule_occurrence_def occurrence_js_def demo_due_def occurrence_for_def demo_schedule_def
    parse_runs occurrence_status_def opt_field_def scope_fields_def parse_scope_fields_def demo_scope_def is_blank_iff is_space_def demo_host_def parse_millis_def is_digit_def)

definition demo_planned :: store where
  "demo_planned = snd (create_schedule demo_host demo_scope demo_schedule empty_store)"

lemma demo_planned: "demo_planned = empty_store\<lparr>st_schedules := [(scoped_key demo_host demo_scope ''schedule'' ''s'', demo_schedule)]\<rparr>"
  by (simp add: demo_planned_def create_schedule_def act_bind_def act_lift_def demo_schedule_ok)
    (simp add: demo_schedule_def empty_store_def)


lemma demo_proactive: "proactive_run demo_host demo_schedule demo_due
    = Inr \<lparr>sr_command_id = ''scheduled-command:s:23'', sr_run_id = ''scheduled-run:s:23'', sr_surface = None, sr_fields = demo_run\<rparr>"
proof -
  have "\<not> is_blank ''scheduled-command:s:23''" "\<not> is_blank ''scheduled-run:s:23''" by (simp_all add: is_blank_iff is_space_def)
  from demo_run_starts [OF this] show ?thesis
    by (simp add: proactive_run_def demo_due_def occurrence_for_def demo_schedule_def) (simp add: demo_run_def)
qed

lemma demo_claim: "claim_occurrence demo_host demo_scope demo_due demo_planned = (Inr (Claimed demo_due), record_occurrence demo_host demo_scope demo_due demo_planned)"
proof -
  have ok: "clone_occurrence demo_host demo_due = Inr demo_due"
    using demo_due_ok [of None] by (simp add: demo_due_def occurrence_for_def)
  have active: "schedule_active demo_host demo_scope ''s'' demo_planned"
    by (simp add: schedule_active_def demo_planned) (simp add: demo_schedule_def)
  have due: "oc_scope demo_due = demo_scope" "oc_schedule_id demo_due = ''s''"
    by (simp_all add: demo_due_def occurrence_for_def demo_schedule_def)
  show ?thesis
    by (simp add: claim_occurrence_def act_bind_def act_lift_def ok active due)
      (simp add: demo_planned empty_store_def scoped_values_def ok)
qed


lemma due_runs:
  assumes ops: "sv_ops sv = shared_schedules (in_memory_schedules h s)" and ok: "occurrences_ok h st"
    and sd: "sd_status sd = ''active''" "latest_due h sd millis = Inr (Some due)" "\<not> (recovering \<and> sd_policy sd = ''skip'')"
    and c: "c = occurrence_for sd due now" "proactive_run h sd c = Inr x"
    and claim: "claim_occurrence h s c st = (Inr (Claimed c), st1)"
    and lease: "map_of (st_leases st) (lease_key h s c) = None" and started: "clone_occurrence h (c\<lparr>oc_status := Some ''started''\<rparr>) = Inr c'"
    and free: "busy_key sd c \<notin> set (sw_busy v)"
    and run: "process_schedule h sv recovering now millis sd (v, (st, [])) = (r, (v', sf))"
  shows "sw_runs v' = sw_runs v @ [x]"
proof -
  have ok_c: "clone_occurrence h c = Inr c" by (rule occurrence_claimed(3) [OF claim store_steps.start])
  have status: "oc_status c = None" by (simp add: c(1) occurrence_for_def)
  have st1: "st1 = record_occurrence h s c st" "oc_scope c = s"
    using claim ok_c by (auto simp: claim_occurrence_def act_bind_def act_lift_def split: if_splits option.splits elim!: r_bindE)
  let ?now = "sv_millis sv (sw_world v)"
  define st2 where "st2 = st1\<lparr>st_leases := js_set (lease_key h s c) \<lparr>le_claimed_at = ?now, le_owner = sv_owner sv\<rparr> (st_leases st1)\<rparr>"
  have recovery: "claim_recovery h s ?now c (sv_owner sv) st1 = (Inr True, st2)"
    using st1 ok_c lease by (simp add: claim_recovery_def act_bind_def act_lift_def st2_def record_occurrence_def)
  obtain st3 where execution: "claim_execution h s ?now c (sv_owner sv) st2 = (Inr True, st3)"
    using st1 ok_c status started by (simp add: claim_execution_def act_bind_def act_lift_def st2_def record_occurrence_def Let_def)
  define v2 where "v2 = v\<lparr>sw_busy := sw_busy v @ [busy_key sd c]\<rparr>"
  obtain q v3 s3 where q: "execute_occurrence h sv sd due now c (v2, (st3, [])) = (q, (v3, s3))"
    by (cases "execute_occurrence h sv sd due now c (v2, (st3, []))") auto
  have next_state: "occurrences_ok h (run_call h s d b)" if "occurrences_ok h b" for d b using run_call_occurrences [OF that] by blast
  have "occurrences_ok h st3"
    using next_state [OF next_state [OF next_state [OF ok, of "CallClaimOccurrence c"], of "CallClaimRecovery ?now c (sv_owner sv)"],
      of "CallClaimExecution ?now c (sv_owner sv)"] by (simp add: claim recovery execution)
  then have "occurrences_ok h (fst (st3, [] :: (store \<Rightarrow> store) list)) \<and> (\<forall>f \<in> set (snd (st3, [] :: (store \<Rightarrow> store) list)). courteous (occurrences_ok h) (run_started h s) (on_record h s) f)"
    by simp
  from shared_memory.executed [OF ops this q] c(2) have "sw_runs v3 = sw_runs v @ [x]" by (simp add: v2_def)
  moreover have "sw_runs v' = sw_runs v3"
    using run sd c(1) free claim recovery execution q
    by (auto simp: process_schedule_def claim_due_def run_occurrence_def act_bind_def act_lift_def on_store_def act_finally_def v2_def ops in_memory_schedules_def shared_schedules_def disturb_def)
  ultimately show ?thesis by simp
qed


lemma demo_planned_reachable: "reachable_store demo_host demo_planned"
proof -
  have "store_steps demo_host empty_store (run_call demo_host demo_scope (CallCreateSchedule demo_schedule) empty_store)"
    by (rule store_steps.step [OF store_steps.start]) (simp add: array_room_def empty_store_def stream_events_def)
  then show ?thesis by (simp add: reachable_store_def demo_planned_def)
qed

text \<open>A tick of the sample scheduler, and another by a second one.\<close>

lemma demo_tick:
  fixes sv defines "sv \<equiv> demo_scheduler (shared_schedules (in_memory_schedules demo_host demo_scope))"
  shows "map sr_run_id (sw_runs (fst (snd (process_due demo_host sv False (\<lparr>sw_world = 0, sw_runs = [], sw_busy = []\<rparr>, (demo_planned, [])))))) = [''scheduled-run:s:23'']"
proof -
  let ?v = "\<lparr>sw_world = 0, sw_runs = [], sw_busy = []\<rparr> :: nat service"
  have now: "parse_instant demo_host ''25'' n = Inr 25" for n
    by (simp add: parse_instant_def demo_host_def parse_millis_def is_digit_def digits_value_def)
  have planned: "list_schedules demo_host demo_scope demo_planned = (Inr [demo_schedule], demo_planned)"
    by (simp add: list_schedules_def demo_planned scoped_values_def demo_schedule_ok)
  obtain r v' sf where run: "process_schedule demo_host sv False ''25'' 25 demo_schedule (?v, (demo_planned, [])) = (r, (v', sf))"
    by (cases "process_schedule demo_host sv False ''25'' 25 demo_schedule (?v, (demo_planned, []))") auto
  have "sw_runs v' = sw_runs ?v @ [\<lparr>sr_command_id = ''scheduled-command:s:23'', sr_run_id = ''scheduled-run:s:23'', sr_surface = None, sr_fields = demo_run\<rparr>]"
    by (rule due_runs [OF _ reachable_occurrences_ok [OF demo_planned_reachable] _ demo_due_now _ demo_due_def demo_proactive demo_claim _ demo_due_ok _ run])
      (simp_all add: sv_def demo_scheduler_def, simp_all add: demo_schedule_def demo_planned empty_store_def)
  with run show ?thesis
    by (cases r) (simp_all add: process_due_def act_bind_def act_lift_def act_seq_def act_return_def read_clock_def on_store_def
      sv_def demo_scheduler_def now shared_schedules_def disturb_def in_memory_schedules_def planned)
qed

end
