(* ===== verification/SchedulerProperties.thy ===== *)
theory SchedulerProperties
  imports SchedulerExamples
begin

text \<open>
  The properties of the scheduler, each with an instance: which occurrence is due, that its run is
  created at most once, and which schedules the service takes.
\<close>

lemma accepted_interval: "clone_schedule h x = Inr sd \<Longrightarrow> sd_recurrence sd = Some i \<Longrightarrow> 0 < i"
  unfolding clone_schedule_def parse_schedule_def
  by (elim parse_elims) (auto simp: parse_iffs parse_recurrence_iff dest!: optional_field_Some)

lemma appended_event:
  assumes "append_idempotent h s e st = (Inr b, st')"
  shows "stored_event h s (ev_id e) st' \<noteq> None"
  using assms unfolding append_idempotent_def
  by (cases "clone_event h e")
    (auto simp: act_bind_def act_lift_def clone_event_iff Let_def split: option.splits if_splits)

lemma appended_keeps:
  assumes "append_idempotent h s e st = (r, st')"
  shows "st_schedules st' = st_schedules st" "st_triggers st' = st_triggers st"
  using append_idempotent_cases [OF assms] by (auto simp: push_event_def)

lemma append_once_run:
  assumes ops: "sv_ops sv = in_memory_schedules h s" and run: "append_once h sv sd i ty kvs (v, st) = (r, (v', st'))"
  shows "st_schedules st' = st_schedules st \<and> st_triggers st' = st_triggers st \<and> (r = Inr () \<longrightarrow> stored_event h s i st' \<noteq> None)"
proof -
  obtain time w where time: "sv_now sv (sw_world v) = (time, w)" by fastforce
  define e where "e = \<lparr>ev_id = i, ev_scope = sd_scope sd, ev_stream = scheduler_stream, ev_seq = 0, ev_type = ty,
       ev_timestamp = time, ev_schema_version = 1, ev_payload = JObj kvs\<rparr>"
  show ?thesis
  proof (cases "clone_event h e")
    case (Inl x)
    with run time show ?thesis by (auto simp: append_once_def act_bind_def act_lift_def read_clock_def e_def)
  next
    case (Inr e')
    then have e': "e' = e" by (simp add: clone_event_iff)
    obtain q st1 where q: "append_idempotent h s e st = (q, st1)" by fastforce
    have "st' = st1 \<and> (r = Inr () \<longrightarrow> (\<exists>b. q = Inr b))"
      using run time Inr q unfolding e' by (cases q) (auto simp: append_once_def act_bind_def act_lift_def read_clock_def on_store_def act_return_def
        e_def ops in_memory_schedules_def)
    moreover have "ev_id e = i" by (simp add: e_def)
    ultimately show ?thesis using appended_keeps [OF q] appended_event [where e = e and h = h and s = s and st = st and st' = st1] q by auto
  qed
qed

lemma created_schedule:
  assumes "create_schedule h s p st = (Inr sd, st')" and "clone_schedule h p = Inr p"
  shows "\<exists>q. map_of (st_schedules st') (scoped_key h s ''schedule'' (sd_id p)) = Some q
    \<and> stable_json h (schedule_js q) = stable_json h (schedule_js p) \<and> clone_schedule h q = Inr sd \<and> st_triggers st' = st_triggers st"
  using assms by (auto simp: create_schedule_def act_bind_def act_lift_def Let_def split: option.splits if_splits)

lemma policy_kept:
  "assert_policy sv p = Inr u \<longleftrightarrow> rf_permission (sd_run p) \<in> set (sv_permissions sv) \<and> set (rp_allowed_tools (rf_snapshot (sd_run p))) \<subseteq> set (sv_tools sv)"
  by (auto simp: assert_policy_def find_None_iff dest: find_SomeD split: option.splits)

text \<open>
  \<open>tick\<close> and \<open>recover\<close> of services on one store, one after the other: each with the updates that
  other clients make between its accesses, and those that follow its turn.
\<close>

fun scheduler_turns ::
    "host \<Rightarrow> (('w, store \<times> (store \<Rightarrow> store) list) scheduler \<times> bool \<times> (scope \<times> store_call) list list \<times> (scope \<times> store_call) list) list
      \<Rightarrow> 'w \<Rightarrow> start_run list \<Rightarrow> store \<Rightarrow> start_run list \<times> store" where
  "scheduler_turns h [] w runs st = (runs, st)"
| "scheduler_turns h ((sv, recovering, calls, between) # turns) w runs st =
     (case process_due h sv recovering (\<lparr>sw_world = w, sw_runs = runs, sw_busy = []\<rparr>, (st, map (others h) calls)) of
        (_, (v, (st', _))) \<Rightarrow> scheduler_turns h turns (sw_world v) (sw_runs v) (others h between st'))"

text \<open>
  C38. An occurrence is due at the latest instant of its schedule that has come. For a schedule
  the parser accepted, nothing is due before its first instant. From then on the due instant is
  one of the schedule, not before the first and not after now, the next one is still to come, and
  it stays the due one until then. The host reads back the instants it writes.
\<close>

theorem latest_due_is_latest:
  assumes "clone_schedule h x = Inr sd" and "date_parse h (sd_due sd) = Some first"
    and "\<forall>t. first \<le> t \<and> t \<le> now \<longrightarrow> date_parse h (iso_string h t) = Some t"
  shows "(now < first \<and> latest_due h sd now = Inr None)
    \<or> (\<exists>due t. latest_due h sd now = Inr (Some due) \<and> date_parse h due = Some t \<and> first \<le> t \<and> t \<le> now
        \<and> (case sd_recurrence sd of None \<Rightarrow> t = first \<and> (\<forall>n \<ge> t. latest_due h sd n = Inr (Some due))
           | Some i \<Rightarrow> i dvd t - first \<and> now < t + i \<and> (\<forall>n. t \<le> n \<and> n < t + i \<longrightarrow> latest_due h sd n = Inr (Some due))))"
proof (cases "now < first")
  case True
  with assms(2) show ?thesis by (simp add: latest_due_def parse_instant_def)
next
  case False
  show ?thesis
  proof (cases "sd_recurrence sd")
    case None
    with assms(2) False show ?thesis by (simp add: latest_due_def parse_instant_def)
  next
    case (Some i)
    have i: "0 < i" using accepted_interval [OF assms(1) Some] .
    define t where "t = first + ((now - first) div i) * i"
    have "now - first = (now - first) div i * i + (now - first) mod i" by simp
    moreover have "0 \<le> (now - first) mod i" "(now - first) mod i < i" using i by simp_all
    moreover have "0 \<le> (now - first) div i * i" using False i by (simp add: pos_imp_zdiv_nonneg_iff)
    ultimately have t: "first \<le> t" "t \<le> now" "now < t + i" unfolding t_def by linarith+
    have "i dvd t - first" by (simp add: t_def)
    have same: "latest_due h sd n = Inr (Some (iso_string h t))" if "t \<le> n \<and> n < t + i" for n
    proof -
      have "(n - first) div i = (now - first) div i"
        using that by (intro int_div_pos_eq [where r = "n - t"]) (auto simp: t_def mult.commute)
      with that t(1) show ?thesis by (simp add: latest_due_def parse_instant_def assms(2) Some t_def)
    qed
    moreover have "date_parse h (iso_string h t) = Some t" using assms(3) t by blast
    ultimately show ?thesis using Some t same [of now] \<open>i dvd t - first\<close> by auto
  qed
qed

lemma latest_due_is_latest_witness:
  "\<exists>due t. latest_due demo_host demo_schedule 25 = Inr (Some due) \<and> date_parse demo_host due = Some t \<and> 3 \<le> t \<and> t \<le> 25 \<and> 10 dvd t - 3 \<and> 25 < t + 10"
proof -
  have "date_parse demo_host (sd_due demo_schedule) = Some 3"
    by (simp add: demo_schedule_def demo_host_def parse_millis_def is_digit_def digits_value_def)
  from latest_due_is_latest [OF demo_schedule_ok this, of 25] iso_date_demo_host show ?thesis
    by (auto simp: demo_schedule_def)
qed

text \<open>
  C39. A run is created at most once. Take any sequence of ticks and recoveries, each by a service
  of its own on the same store, while any other clients use the store between their accesses and
  between the turns. No two of the runs that are created, in one turn or in different turns, have
  the same identifier, whatever the callback that creates them does.
\<close>

theorem runs_created_once:
  assumes "reachable_store h st"
    and "\<forall>(sv, recovering, calls, between) \<in> set turns. sv_ops sv = shared_schedules (in_memory_schedules h s)"
  shows "distinct (map sr_run_id (fst (scheduler_turns h turns w [] st)))"
proof -
  have "distinct (map sr_run_id (fst (scheduler_turns h turns w runs st)))"
    if "occurrences_ok h st" "distinct (map sr_run_id runs)" "\<forall>x \<in> set runs. run_started h s st (sr_run_id x)" for runs
    using assms(2) that
  proof (induction turns arbitrary: w runs st)
    case Nil then show ?case by simp
  next
    case (Cons turn turns)
    obtain sv recovering calls between where turn: "turn = (sv, recovering, calls, between)" by (cases turn)
    obtain r v' st' fs where run: "process_due h sv recovering (\<lparr>sw_world = w, sw_runs = runs, sw_busy = []\<rparr>, (st, map (others h) calls)) = (r, (v', (st', fs)))"
      by (metis prod.exhaust)
    have orderly: "shared_memory.orderly h s (process_due h sv recovering)"
      by (rule shared_memory.orderly_process) (use Cons.prems(1) turn in auto)
    have "occurrences_ok h (fst (st, map (others h) calls))
        \<and> (\<forall>f \<in> set (snd (st, map (others h) calls)). courteous (occurrences_ok h) (run_started h s) (on_record h s) f)"
      using Cons.prems(2) by (simp add: others_courteous)
    from shared_memory.orderlyD [OF orderly this run]
    obtain new where new: "occurrences_ok h st'" "shared_memory.advances h s (st, map (others h) calls) (st', fs)"
      "sw_runs v' = runs @ new" "shared_memory.fresh_runs h s (st, map (others h) calls) new (st', fs)"
      by auto
    have later: "run_started h s (others h between st') i" if "run_started h s st' i" for i
      using others_occurrences [OF new(1)] that keeps_record_lasting(1) by blast
    have "distinct (map sr_run_id (sw_runs v'))" "\<forall>x \<in> set (sw_runs v'). run_started h s (others h between st') (sr_run_id x)"
      using new Cons.prems(3,4) later by (auto simp: shared_memory.fresh_runs_def shared_memory.advances_def)
    with Cons.IH [of "others h between st'" "sw_runs v'" "sw_world v'"] Cons.prems(1) others_occurrences [OF new(1)] run show ?case
      by (simp add: turn)
  qed
  then show ?thesis using reachable_occurrences_ok [OF assms(1)] by simp
qed

lemma runs_created_once_witness:
  "distinct (map sr_run_id (fst (scheduler_turns demo_host
     [(demo_scheduler (shared_schedules (in_memory_schedules demo_host demo_scope)), False, [[]], []),
      ((demo_scheduler (shared_schedules (in_memory_schedules demo_host demo_scope)))\<lparr>sv_owner := ''p''\<rparr>, True,
        [[], [(demo_scope, CallCancelSchedule ''s'')]], [(demo_scope, CallCreateSchedule demo_schedule)])]
     0 [] demo_planned)))"
  by (rule runs_created_once [OF demo_planned_reachable, where s = demo_scope]) (simp add: demo_scheduler_def)

text \<open>
  Schedules are taken within the policy. When the service takes a record, the parser accepts
  it, its permission and all its tools are those of the policy, a connector or monitor trigger is
  registered, and the store keeps the record under its identifier, with its creation in the log.
  A record the parser or the policy refuses, or whose trigger is not registered, changes nothing.
\<close>

theorem schedules_within_policy:
  assumes "total_preorder (locale_le h)" and "sv_ops sv = in_memory_schedules h s"
    and "sv_schedule h sv x (v, st) = (r, (v', st'))"
  shows "(case clone_schedule h x of
      Inl e \<Rightarrow> r = Inl e \<and> v' = v \<and> st' = st
    | Inr p \<Rightarrow>
        if rf_permission (sd_run p) \<in> set (sv_permissions sv) \<and> set (rp_allowed_tools (rf_snapshot (sd_run p))) \<subseteq> set (sv_tools sv)
          \<and> (needs_registration (sd_trigger p) \<longrightarrow> map_of (st_triggers st) (trigger_key h s (sd_trigger p)) \<noteq> None)
        then \<forall>sd. r = Inr sd \<longrightarrow> stored_event h s (''schedule:'' @ sd_id sd @ '':created'') st' \<noteq> None
          \<and> (\<exists>q. map_of (st_schedules st') (scoped_key h s ''schedule'' (sd_id p)) = Some q
              \<and> stable_json h (schedule_js q) = stable_json h (schedule_js p) \<and> clone_schedule h q = Inr sd)
        else (\<exists>m. r = Inl (PlainError m)) \<and> v' = v \<and> st' = st)"
proof (cases "clone_schedule h x")
  case (Inl e)
  with assms(3) have "r = Inl e \<and> v' = v \<and> st' = st" by (auto simp: sv_schedule_def act_bind_def act_lift_def)
  with Inl show ?thesis by simp
next
  case (Inr p)
  have p: "clone_schedule h p = Inr p" using Inr parse_schedule_again [OF assms(1)] by (simp add: clone_schedule_def)
  define registered where "registered = (\<not> needs_registration (sd_trigger p) \<or> map_of (st_triggers st) (trigger_key h s (sd_trigger p)) \<noteq> None)"
  show ?thesis
  proof (cases "assert_policy sv p = Inr () \<and> registered")
    case False
    have "(\<exists>m. r = Inl (PlainError m)) \<and> v' = v \<and> st' = st"
    proof (cases "assert_policy sv p")
      case (Inl e)
      then have "\<exists>m. e = PlainError m" by (auto simp: assert_policy_def split: if_splits option.splits)
      with Inl Inr assms(3) show ?thesis by (auto simp: sv_schedule_def act_bind_def act_seq_def act_lift_def)
    next
      case (Inr u)
      with False have "\<not> registered" by simp
      with Inr \<open>clone_schedule h x = Inr p\<close> assms(2,3) show ?thesis
        by (auto simp: registered_def sv_schedule_def act_bind_def act_seq_def act_lift_def act_throw_def on_store_def in_memory_schedules_def has_trigger_def)
    qed
    with False Inr show ?thesis by (auto simp: policy_kept registered_def)
  next
    case True
    obtain q st1 where q: "create_schedule h s p st = (q, st1)" by fastforce
    have taken: "stored_event h s (''schedule:'' @ sd_id sd @ '':created'') st' \<noteq> None \<and> q = Inr sd \<and> st_schedules st' = st_schedules st1" if "r = Inr sd" for sd
    proof (cases q)
      case (Inl e)
      with that True q \<open>clone_schedule h x = Inr p\<close> assms(2,3) show ?thesis
        by (auto simp: registered_def sv_schedule_def act_bind_def act_seq_def act_lift_def act_return_def on_store_def in_memory_schedules_def has_trigger_def split: if_splits)
    next
      case (Inr sd1)
      let ?append = "append_once h sv sd1 (''schedule:'' @ sd_id sd1 @ '':created'') ''schedule.created''
       [(''scheduleId'', JStr (sd_id sd1)), (''trigger'', trigger_js (sd_trigger sd1)), (''dueAt'', JStr (sd_due sd1))]"
      have "act_seq ?append (act_return sd1) (v, st1) = (r, (v', st'))"
        using True q Inr \<open>clone_schedule h x = Inr p\<close> assms(2,3)
        by (auto simp: registered_def sv_schedule_def act_bind_def act_seq_def [of "act_lift _"] act_lift_def act_return_def [of True] on_store_def
            in_memory_schedules_def has_trigger_def split: if_splits)
      with that have "?append (v, st1) = (Inr (), (v', st'))" "sd1 = sd"
        by (auto simp: act_seq_def act_return_def elim!: act_bind_cases)
      with append_once_run [OF assms(2) this(1)] Inr show ?thesis by simp
    qed
    have "stored_event h s (''schedule:'' @ sd_id sd @ '':created'') st' \<noteq> None
        \<and> (\<exists>q. map_of (st_schedules st') (scoped_key h s ''schedule'' (sd_id p)) = Some q
            \<and> stable_json h (schedule_js q) = stable_json h (schedule_js p) \<and> clone_schedule h q = Inr sd)" if "r = Inr sd" for sd
      using taken [OF that] created_schedule [OF _ p, of s st sd st1] q by auto
    then show ?thesis using True [unfolded policy_kept registered_def] by (simp add: Inr)
  qed
qed

lemma demo_schedule_taken:
  "fst (sv_schedule demo_host (demo_scheduler (in_memory_schedules demo_host demo_scope)) demo_schedule (\<lparr>sw_world = 0, sw_runs = [], sw_busy = []\<rparr>, empty_store)) = Inr demo_schedule"
proof -
  have created: "create_schedule demo_host demo_scope demo_schedule empty_store = (Inr demo_schedule, demo_planned)"
    by (simp add: demo_planned_def create_schedule_def act_bind_def act_lift_def demo_schedule_ok)
      (simp add: demo_schedule_def empty_store_def demo_schedule_ok [unfolded demo_schedule_def])
  have event: "clone_event demo_host \<lparr>ev_id = ''schedule:s:created'', ev_scope = demo_scope, ev_stream = scheduler_stream, ev_seq = 0,
      ev_type = ''schedule.created'', ev_timestamp = ''25'', ev_schema_version = 1,
      ev_payload = JObj [(''scheduleId'', JStr ''s''), (''trigger'', trigger_js (ExplicitTrigger ''l'')), (''dueAt'', JStr ''3'')]\<rparr>
    = Inr \<lparr>ev_id = ''schedule:s:created'', ev_scope = demo_scope, ev_stream = scheduler_stream, ev_seq = 0,
      ev_type = ''schedule.created'', ev_timestamp = ''25'', ev_schema_version = 1,
      ev_payload = JObj [(''scheduleId'', JStr ''s''), (''trigger'', trigger_js (ExplicitTrigger ''l'')), (''dueAt'', JStr ''3'')]\<rparr>" (is "_ = Inr ?e")
    by (rule clone_event_run) (simp add: event_ok_def scope_ok_def demo_scope_def is_blank_iff is_space_def demo_host_def parse_millis_def is_digit_def
      max_safe_def scheduler_stream_def trigger_js_def)
  have append: "fst (append_idempotent demo_host demo_scope ?e demo_planned) = Inr True"
    unfolding append_idempotent_def
    by (simp add: act_bind_def act_lift_def event) (simp add: demo_planned stored_event_def stream_events_def empty_store_def)
  have sd: "sd_id demo_schedule = ''s''" "sd_scope demo_schedule = demo_scope" "sd_trigger demo_schedule = ExplicitTrigger ''l''" "sd_due demo_schedule = ''3''"
      "rf_permission (sd_run demo_schedule) = ''x''" "rf_snapshot (sd_run demo_schedule) = demo_snapshot"
    by (simp_all add: demo_schedule_def demo_run_def demo_fields_def)
  have tools: "find (\<lambda>t. t \<notin> set ts) ts = None" for ts :: "string list" by (simp add: find_None_iff)
  obtain q st where q: "append_idempotent demo_host demo_scope ?e demo_planned = (q, st)" by fastforce
  with append have "q = Inr True" by simp
  with q show ?thesis
    by (simp add: sv_schedule_def demo_schedule_ok assert_policy_def demo_scheduler_def sd act_bind_def act_seq_def act_lift_def on_store_def
      in_memory_schedules_def created needs_registration_def act_return_def append_once_def read_clock_def event tools)
qed

lemma schedules_within_policy_witness:
  "stored_event demo_host demo_scope ''schedule:s:created''
     (snd (snd (sv_schedule demo_host (demo_scheduler (in_memory_schedules demo_host demo_scope)) demo_schedule (\<lparr>sw_world = 0, sw_runs = [], sw_busy = []\<rparr>, empty_store)))) \<noteq> None"
proof -
  let ?sv = "demo_scheduler (in_memory_schedules demo_host demo_scope)"
  obtain v' st' where run: "sv_schedule demo_host ?sv demo_schedule (\<lparr>sw_world = 0, sw_runs = [], sw_busy = []\<rparr>, empty_store) = (Inr demo_schedule, (v', st'))"
    using demo_schedule_taken by (metis prod.exhaust fst_conv)
  have ops: "sv_ops ?sv = in_memory_schedules demo_host demo_scope" by (simp add: demo_scheduler_def)
  have policy: "rf_permission (sd_run demo_schedule) \<in> set (sv_permissions ?sv)" "set (rp_allowed_tools (rf_snapshot (sd_run demo_schedule))) \<subseteq> set (sv_tools ?sv)"
      "\<not> needs_registration (sd_trigger demo_schedule)" "sd_id demo_schedule = ''s''"
    by (simp_all add: demo_schedule_def demo_run_def demo_fields_def demo_scheduler_def needs_registration_def)
  from schedules_within_policy [OF total_preorder_demo_host ops run] show ?thesis
    unfolding run by (simp add: demo_schedule_ok policy)
qed

end
