(* ===== verification/RunRuntime.thy ===== *)
theory RunRuntime
  imports RunProperties SteadyActions
begin

text \<open>
  The run runtime (\<open>event-store/src/run-runtime.ts\<close>): one process claims a run, drives it through a
  loop kernel and writes the event that ends it; at its start it closes the runs an earlier process
  left. The kernel, a client of the store of its own, is a parameter. The state of an action is the
  process and the store.
\<close>

section \<open>The process\<close>

text \<open>
  \<open>rt_store\<close> is \<open>eventStore.scope\<close>; \<open>rt_kernel\<close> is \<open>kernel.start\<close>, which answers with the status of
  an outcome or throws; \<open>rt_stamp\<close> draws an event identifier and reads the clock.
\<close>

record ('w, 's) run_runtime =
  rt_store :: "scope \<Rightarrow> 's channel_ops parsed"
  rt_kernel :: "start_run \<Rightarrow> ('w \<times> 's, js_error, string) action"
  rt_stamp :: "'w \<Rightarrow> (string \<times> string) \<times> 'w"

text \<open>The keys of the maps \<open>active\<close> and \<open>inFlight\<close>.\<close>

record 'w process =
  pr_world :: 'w
  pr_active :: "string list"
  pr_in_flight :: "string list"
  pr_closing :: bool

definition runtime_key :: "scope \<Rightarrow> string \<Rightarrow> string" where
  "runtime_key s run_id = sc_workspace s @ [CHR 0x00] @ sc_channel s @ [CHR 0x00] @ run_id"

definition key_for :: "start_run \<Rightarrow> string" where
  "key_for c = runtime_key (rf_scope (sr_fields c)) (sr_run_id c)"

definition is_suspended_event :: "string \<Rightarrow> bool" where
  "is_suspended_event ty \<longleftrightarrow> ty = ''run.awaiting_input'' \<or> ty = ''run.awaiting_approval''"

definition is_suspended_outcome :: "string \<Rightarrow> bool" where
  "is_suspended_outcome status \<longleftrightarrow> status = ''awaiting_input'' \<or> status = ''awaiting_approval''"

fun outcome_for_terminal_event :: "string \<Rightarrow> string option" where
  "outcome_for_terminal_event ty =
     (if ty = ''run.completed'' then Some ''completed''
      else if ty = ''run.awaiting_input'' then Some ''awaiting_input''
      else if ty = ''run.awaiting_approval'' then Some ''awaiting_approval''
      else if ty = ''run.failed'' then Some ''failed''
      else if ty = ''run.timed_out'' then Some ''timed_out''
      else if ty = ''run.cancelled'' then Some ''cancelled''
      else None)"

definition command_attribution :: "start_run \<Rightarrow> (string \<times> js) list" where
  "command_attribution c =
     (case rf_parent (sr_fields c) of
        None \<Rightarrow> []
      | Some (run, event) \<Rightarrow> [(''parentRunId'', JStr run), (''parentEventId'', JStr event)]
          @ opt_field ''laneId'' JStr (rf_lane (sr_fields c)))"

text \<open>\<open>store.append(this.event(command, seq, type, payload))\<close>\<close>

definition append_run_event ::
    "('w, 's) run_runtime \<Rightarrow> 's channel_ops \<Rightarrow> start_run \<Rightarrow> nat \<Rightarrow> string \<Rightarrow> (string \<times> js) list \<Rightarrow> ('w process \<times> 's, js_error, unit) action" where
  "append_run_event rt ops c n ty payload = (\<lambda>(p, s).
     case rt_stamp rt (pr_world p) of ((i, time), w) \<Rightarrow>
       on_store (co_append ops
         \<lparr>ev_id = i, ev_scope = rf_scope (sr_fields c), ev_stream = sr_run_id c, ev_seq = int n, ev_type = ty,
          ev_timestamp = time, ev_schema_version = 1, ev_payload = JObj (payload @ command_attribution c)\<rparr>)
         (p\<lparr>pr_world := w\<rparr>, s))"

definition run_events :: "'s channel_ops \<Rightarrow> string \<Rightarrow> ('w process \<times> 's, js_error, canonical_event list) action" where
  "run_events ops run_id = on_store (co_read ops run_id None)"

text \<open>The outcome of the last event, if that event ends or suspends the run.\<close>

definition last_outcome :: "canonical_event list \<Rightarrow> string option" where
  "last_outcome events =
     (if events \<noteq> [] \<and> (is_terminal_event (ev_type (last events)) \<or> is_suspended_event (ev_type (last events)))
      then outcome_for_terminal_event (ev_type (last events)) else None)"

section \<open>Driving a run\<close>

definition ensure_queued :: "('w, 's) run_runtime \<Rightarrow> 's channel_ops \<Rightarrow> start_run \<Rightarrow> ('w process \<times> 's, js_error, unit) action" where
  "ensure_queued rt ops c = act_bind (run_events ops (sr_run_id c)) (\<lambda>events.
     if events \<noteq> [] then act_return ()
     else append_run_event rt ops c 0 ''run.queued'' [(''phase'', JStr ''queued'')])"

definition close_run ::
    "('w, 's) run_runtime \<Rightarrow> 's channel_ops \<Rightarrow> start_run \<Rightarrow> string \<Rightarrow> (string \<times> js) list \<Rightarrow> ('w process \<times> 's, js_error, string) action" where
  "close_run rt ops c status payload = act_bind (run_events ops (sr_run_id c)) (\<lambda>events.
     case last_outcome events of
       Some outcome \<Rightarrow> act_return outcome
     | None \<Rightarrow> act_seq (append_run_event rt ops c (length events) (''run.'' @ status) payload) (act_return status))"

definition run_kernel :: "('w, 's) run_runtime \<Rightarrow> start_run \<Rightarrow> ('w process \<times> 's, js_error, string) action" where
  "run_kernel rt c = (\<lambda>(p, s). case rt_kernel rt c (pr_world p, s) of (r, (w, s')) \<Rightarrow> (r, (p\<lparr>pr_world := w\<rparr>, s')))"

text \<open>The \<open>catch\<close> takes whatever the \<open>try\<close> block throws.\<close>

definition drive :: "('w, 's) run_runtime \<Rightarrow> 's channel_ops \<Rightarrow> start_run \<Rightarrow> ('w process \<times> 's, js_error, string) action" where
  "drive rt ops c = (\<lambda>ps.
     case act_bind (run_kernel rt c) (\<lambda>outcome. close_run rt ops c outcome [(''outcome'', JStr outcome)]) ps of
       (Inr outcome, ps') \<Rightarrow> (Inr outcome, ps')
     | (Inl _, ps') \<Rightarrow> close_run rt ops c ''failed'' [(''errorType'', JStr ''runtime_bridge_failed'')] ps')"

text \<open>
  The handle of a run: settled with an outcome, driven by this call, or that of another call of
  this process, already started (\<open>ActiveHandle\<close>) or still starting (\<open>SharedHandle\<close>).
\<close>

datatype run_handle = Settled run string | Driven run | ActiveHandle | SharedHandle

definition queue_run :: "('w, 's) run_runtime \<Rightarrow> 's channel_ops \<Rightarrow> start_run \<Rightarrow> ('w process \<times> 's, js_error, run_handle) action" where
  "queue_run rt ops c = act_seq (ensure_queued rt ops c)
     (act_bind (on_store (rm_get ops (sr_run_id c))) (\<lambda>queued.
      case queued of
        None \<Rightarrow> act_throw (PlainError (''Run '' @ sr_run_id c @ '' became terminal before it started''))
      | Some q \<Rightarrow>
        if ru_outcome q \<noteq> None \<and> \<not> is_suspended_outcome (the (ru_outcome q))
        then act_throw (PlainError (''Run '' @ sr_run_id c @ '' became terminal before it started''))
        else (\<lambda>(p, s). (Inr (Driven q), (p\<lparr>pr_active := key_for c # pr_active p\<rparr>, s)))))"

text \<open>A run that has not ended: only \<open>resume\<close> drives one that is running already.\<close>

definition begin_open ::
    "('w, 's) run_runtime \<Rightarrow> 's channel_ops \<Rightarrow> start_run \<Rightarrow> bool \<Rightarrow> run \<Rightarrow> ('w process \<times> 's, js_error, run_handle) action" where
  "begin_open rt ops c allow_running r = (\<lambda>(p, s).
     if key_for c \<in> set (pr_active p) then (Inr ActiveHandle, (p, s))
     else if ru_status r = ''running'' \<and> \<not> allow_running
     then (Inl (PlainError (''Run '' @ sr_run_id c @ '' is already running; call resume(command) explicitly'')), (p, s))
     else queue_run rt ops c (p, s))"

definition begin_claimed ::
    "('w, 's) run_runtime \<Rightarrow> 's channel_ops \<Rightarrow> start_run \<Rightarrow> bool \<Rightarrow> run option \<Rightarrow> ('w process \<times> 's, js_error, run_handle) action" where
  "begin_claimed rt ops c allow_running current =
     (case current of
        None \<Rightarrow> act_throw (PlainError (''Claimed Run '' @ sr_run_id c @ '' cannot be rebuilt''))
      | Some r \<Rightarrow>
        if ru_outcome r \<noteq> None \<and> (\<not> is_suspended_outcome (the (ru_outcome r)) \<or> \<not> allow_running)
        then act_return (Settled r (the (ru_outcome r)))
        else begin_open rt ops c allow_running r)"

definition begin_once ::
    "('w, 's) run_runtime \<Rightarrow> start_run \<Rightarrow> bool \<Rightarrow> ('w process \<times> 's, js_error, run_handle) action" where
  "begin_once rt c allow_running =
     act_bind (act_lift (rt_store rt (rf_scope (sr_fields c)))) (\<lambda>ops.
     act_bind (on_store (rm_start ops c)) (\<lambda>_.
     act_bind (on_store (rm_get ops (sr_run_id c))) (begin_claimed rt ops c allow_running)))"

definition rt_begin :: "('w, 's) run_runtime \<Rightarrow> start_run \<Rightarrow> bool \<Rightarrow> ('w process \<times> 's, js_error, run_handle) action" where
  "rt_begin rt c allow_running = (\<lambda>(p, s).
     if pr_closing p then (Inl (PlainError ''Run Runtime is closing''), (p, s))
     else if key_for c \<in> set (pr_in_flight p) then (Inr SharedHandle, (p, s))
     else act_finally (begin_once rt c allow_running)
       (\<lambda>(p, s). (p\<lparr>pr_in_flight := removeAll (key_for c) (pr_in_flight p)\<rparr>, s))
       (p\<lparr>pr_in_flight := key_for c # pr_in_flight p\<rparr>, s))"

definition rt_start :: "('w, 's) run_runtime \<Rightarrow> start_run \<Rightarrow> ('w process \<times> 's, js_error, run_handle) action" where
  "rt_start rt c = rt_begin rt c False"

definition rt_resume :: "('w, 's) run_runtime \<Rightarrow> start_run \<Rightarrow> ('w process \<times> 's, js_error, run_handle) action" where
  "rt_resume rt c = rt_begin rt c True"

text \<open>\<open>handle.completion\<close> of a call that settled or drives the run itself; the run is then active no more.\<close>

definition completion :: "('w, 's) run_runtime \<Rightarrow> start_run \<Rightarrow> run_handle \<Rightarrow> ('w process \<times> 's, js_error, string option) action" where
  "completion rt c handle =
     (case handle of
        Settled r outcome \<Rightarrow> act_return (Some outcome)
      | Driven r \<Rightarrow> act_finally
          (act_bind (act_lift (rt_store rt (rf_scope (sr_fields c)))) (\<lambda>ops. act_bind (drive rt ops c) (\<lambda>outcome. act_return (Some outcome))))
          (\<lambda>(p, s). (p\<lparr>pr_active := removeAll (key_for c) (pr_active p)\<rparr>, s))
      | ActiveHandle \<Rightarrow> act_return None
      | SharedHandle \<Rightarrow> act_return None)"

section \<open>Runs that an earlier process left\<close>

definition settle_run ::
    "('w, 's) run_runtime \<Rightarrow> 's channel_ops \<Rightarrow> scope \<Rightarrow> string \<Rightarrow> ('w process \<times> 's, js_error, bool) action" where
  "settle_run rt ops scope run_id = (\<lambda>(p, s).
     if runtime_key scope run_id \<in> set (pr_active p) \<or> runtime_key scope run_id \<in> set (pr_in_flight p) then (Inr False, (p, s))
     else act_bind (on_store (co_get_run_command ops run_id)) (\<lambda>command.
       case command of
         None \<Rightarrow> act_return False
       | Some c \<Rightarrow> act_bind (run_events ops run_id) (\<lambda>events.
           if events \<noteq> [] \<and> (is_terminal_event (ev_type (last events)) \<or> is_suspended_event (ev_type (last events)))
           then act_return False
           else (\<lambda>ps. case append_run_event rt ops c (length events) ''run.failed'' [(''errorType'', JStr ''process_restarted'')] ps of
               (Inr u, ps') \<Rightarrow> (Inr True, ps')
             | (Inl err, ps') \<Rightarrow>
                 if err = EventSequenceConflictError \<or> err = TerminalEventConflictError then (Inr False, ps') else (Inl err, ps')))) (p, s))"

fun settle_runs ::
    "('w, 's) run_runtime \<Rightarrow> 's channel_ops \<Rightarrow> scope \<Rightarrow> string list \<Rightarrow> ('w process \<times> 's, js_error, string list) action" where
  "settle_runs rt ops scope [] = act_return []"
| "settle_runs rt ops scope (run_id # ids) = act_bind (settle_run rt ops scope run_id) (\<lambda>settled.
     act_bind (settle_runs rt ops scope ids) (\<lambda>rest. act_return (if settled then run_id # rest else rest)))"

definition settle_interrupted :: "('w, 's) run_runtime \<Rightarrow> scope \<Rightarrow> ('w process \<times> 's, js_error, string list) action" where
  "settle_interrupted rt scope = (\<lambda>(p, s).
     if pr_closing p then (Inr [], (p, s))
     else act_bind (act_lift (rt_store rt scope)) (\<lambda>ops.
       act_bind (on_store (co_active_run_ids ops)) (settle_runs rt ops scope)) (p, s))"

section \<open>Stopping\<close>

text \<open>
  Stopping a run that is active aborts it and awaits its completion; otherwise the answer is the
  outcome on record, if any.
\<close>

datatype stop_answer = Aborts | Recorded "string option"

definition rt_stop :: "('w, 's) run_runtime \<Rightarrow> scope \<Rightarrow> string \<Rightarrow> ('w process \<times> 's, js_error, stop_answer) action" where
  "rt_stop rt scope run_id = (\<lambda>(p, s).
     if pr_closing p then (Inr (Recorded None), (p, s))
     else if runtime_key scope run_id \<in> set (pr_active p) then (Inr Aborts, (p, s))
     else act_bind (act_lift (rt_store rt scope)) (\<lambda>ops.
       act_bind (on_store (co_get_run_command ops run_id)) (\<lambda>command.
       case command of
         None \<Rightarrow> act_return (Recorded None)
       | Some _ \<Rightarrow> act_bind (on_store (rm_get ops run_id)) (\<lambda>run.
           act_return (Recorded (case run of None \<Rightarrow> None | Some r \<Rightarrow> ru_outcome r))))) (p, s))"

text \<open>\<open>close\<close> aborts the runs in progress; from then on nothing begins.\<close>

definition rt_close :: "'w process \<Rightarrow> 'w process" where
  "rt_close p = p\<lparr>pr_closing := True\<rparr>"

end
