(* ===== verification/RunRuntimeLog.thy ===== *)
theory RunRuntimeLog
  imports RunRuntime
begin

text \<open>
  What the run runtime does to the log, on any channel log: whatever it answers, the event of the
  outcome is in the stream of the run, and an end that is on record is the one the run manager
  reports from then on.
\<close>

lemma outcome_event: "outcome_for_terminal_event ty = Some out \<Longrightarrow> ty = ''run.'' @ out"
  by (auto split: if_splits)

lemma last_outcome_event: "last_outcome es = Some out \<Longrightarrow> \<exists>e \<in> set es. ev_type e = ''run.'' @ out"
  by (auto simp: last_outcome_def simp del: outcome_for_terminal_event.simps dest!: outcome_event split: if_splits intro!: bexI [of _ "last es"])

lemma view_outcome_event:
  assumes "run_view c tys = Some r" "ru_outcome r = Some out"
  shows "''run.'' @ out \<in> set tys"
proof -
  from assms obtain ty where ty: "find decisive (rev tys) = Some ty" "terminal_outcome ty = Some (Some out)"
    by (auto simp: run_view_def event_view_def terminal_run_def active_run_def split: option.splits)
  from ty(2) have "ty = ''run.'' @ out" unfolding terminal_outcome_status terminal_outcomes_def by auto
  with find_SomeD [OF ty(1)] show ?thesis by simp
qed

lemma final_event: "out \<in> set final_statuses \<Longrightarrow> is_terminal_event (''run.'' @ out) \<and> terminal_outcome (''run.'' @ out) = Some (Some out)"
  by (auto simp: final_statuses_def is_terminal_event_def final_event_types_def terminal_outcome_def terminal_outcomes_def)

lemma lift_Inr: "act_bind (act_lift (Inr x)) f = f x"
  by (simp add: act_bind_def act_lift_def fun_eq_iff)

context channel_log
begin

text \<open>An action that has written the event of the outcome it answers with.\<close>

definition logs :: "string \<Rightarrow> ('w \<times> 's, js_error, string) action \<Rightarrow> bool" where
  "logs i m \<longleftrightarrow> (\<forall>p s out p' s'. ok s \<longrightarrow> m (p, s) = (Inr out, (p', s')) \<longrightarrow> ''run.'' @ out \<in> set (types s' i))"

lemma append_run_event_run:
  assumes "ok s" "append_run_event rt ops c n ty kvs (p, s) = (r, (p', s'))"
  shows "ok s' \<and> log_extends events command s s' \<and> (r = Inr () \<longrightarrow> ty \<in> set (types s' (sr_run_id c)))"
proof -
  obtain i time w where stamp: "rt_stamp rt (pr_world p) = ((i, time), w)" by (metis prod.exhaust)
  define e where "e = \<lparr>ev_id = i, ev_scope = rf_scope (sr_fields c), ev_stream = sr_run_id c, ev_seq = int n, ev_type = ty,
          ev_timestamp = time, ev_schema_version = 1, ev_payload = JObj (kvs @ command_attribution c)\<rparr>"
  have "co_append ops e s = (r, s')"
    using assms(2) stamp by (auto simp: append_run_event_def on_store_def e_def split: prod.splits)
  from append_law [OF assms(1) this] have law: "ok s'" "log_extends events command s s'"
    "r = Inr () \<longrightarrow> (\<exists>e' \<in> set (events s' (ev_stream e)). same_event e' e)" by blast+
  moreover have "ev_stream e = sr_run_id c" "ev_type e = ty" by (simp_all add: e_def)
  ultimately show ?thesis by (auto dest!: same_event_fields) (metis image_eqI)
qed

lemma steady_append_run: "steady (append_run_event rt ops c n ty kvs)"
  unfolding steady_def using append_run_event_run by blast

lemma steady_run_events: "steady (run_events ops i)"
  unfolding run_events_def by (rule steady_read)

lemma steady_close_run: "steady (close_run rt ops c status kvs)"
  unfolding close_run_def by (intro steady_basic steady_run_events steady_append_run)

lemma logs_close_run: "logs (sr_run_id c) (close_run rt ops c status kvs)"
  unfolding logs_def
proof (intro allI impI)
  fix p s out p' s' assume ok: "ok s" and run: "close_run rt ops c status kvs (p, s) = (Inr out, (p', s'))"
  obtain es s1 where rd: "co_read ops (sr_run_id c) None s = (es, s1)" by fastforce
  from read_law [OF ok rd] have s1: "ok s1" "es = Inr (events s1 (sr_run_id c))" by auto
  show "''run.'' @ out \<in> set (types s' (sr_run_id c))"
  proof (cases "last_outcome (events s1 (sr_run_id c))")
    case (Some o1)
    with run rd s1(2) have "out = o1" "s' = s1"
      by (simp_all add: close_run_def run_events_def act_bind_def on_store_def act_return_def)
    with last_outcome_event [OF Some] show ?thesis by force
  next
    case None
    with run rd s1(2) have "act_seq (append_run_event rt ops c (length (events s1 (sr_run_id c))) (''run.'' @ status) kvs) (act_return status) (p, s1)
        = (Inr out, (p', s'))"
      by (simp add: close_run_def run_events_def act_bind_def on_store_def)
    then have "append_run_event rt ops c (length (events s1 (sr_run_id c))) (''run.'' @ status) kvs (p, s1) = (Inr (), (p', s'))" "out = status"
      by (auto simp: act_return_def elim!: act_seq_cases)
    with append_run_event_run [OF s1(1) this(1)] show ?thesis by simp
  qed
qed

lemma steady_run_kernel: "steady (rt_kernel rt c) \<Longrightarrow> steady (run_kernel rt c)"
  unfolding steady_def [of "run_kernel rt c"] by (auto simp: run_kernel_def split: prod.splits dest: steadyD)

lemma drive_run:
  assumes kernel: "steady (rt_kernel rt c)"
  shows "steady (drive rt ops c)" "logs (sr_run_id c) (drive rt ops c)"
proof -
  let ?attempt = "act_bind (run_kernel rt c) (\<lambda>outcome. close_run rt ops c outcome [(''outcome'', JStr outcome)])"
  have attempt: "steady ?attempt" by (intro steady_bind steady_run_kernel [OF kernel] steady_close_run)
  have logs: "logs (sr_run_id c) ?attempt"
    unfolding logs_def
  proof (intro allI impI)
    fix p s out p' s' assume ok: "ok s" and run: "?attempt (p, s) = (Inr out, (p', s'))"
    from run show "''run.'' @ out \<in> set (types s' (sr_run_id c))"
    proof (cases rule: act_bind_cases)
      case (2 a ps)
      obtain p1 s1 where ps: "ps = (p1, s1)" by (cases ps)
      from steadyD [OF steady_run_kernel [OF kernel] ok 2(1) [unfolded ps]] have "ok s1" by blast
      with 2(2) ps logs_close_run show ?thesis unfolding logs_def by blast
    qed simp
  qed
  show "steady (drive rt ops c)"
    unfolding steady_def
  proof (intro allI impI)
    fix p s r p' s' assume ok: "ok s" and run: "drive rt ops c (p, s) = (r, (p', s'))"
    show "ok s' \<and> log_extends events command s s'"
    proof (cases "\<exists>out. ?attempt (p, s) = (Inr out, (p', s'))")
      case True with steadyD [OF attempt ok] show ?thesis by blast
    next
      case False
      with run obtain e p1 s1 where "?attempt (p, s) = (Inl e, (p1, s1))" "close_run rt ops c ''failed'' [(''errorType'', JStr ''runtime_bridge_failed'')] (p1, s1) = (r, (p', s'))"
        by (auto simp: drive_def split: prod.splits sum.splits)
      with steadyD [OF attempt ok] steadyD [OF steady_close_run] show ?thesis by (blast intro: log_extends_trans)
    qed
  qed
  show "logs (sr_run_id c) (drive rt ops c)"
    unfolding logs_def
  proof (intro allI impI)
    fix p s out p' s' assume ok: "ok s" and run: "drive rt ops c (p, s) = (Inr out, (p', s'))"
    show "''run.'' @ out \<in> set (types s' (sr_run_id c))"
    proof (cases "?attempt (p, s) = (Inr out, (p', s'))")
      case True with logs ok show ?thesis unfolding logs_def by blast
    next
      case False
      with run obtain e p1 s1 where "?attempt (p, s) = (Inl e, (p1, s1))" "close_run rt ops c ''failed'' [(''errorType'', JStr ''runtime_bridge_failed'')] (p1, s1) = (Inr out, (p', s'))"
        by (auto simp: drive_def split: prod.splits sum.splits)
      with steadyD [OF attempt ok] logs_close_run show ?thesis unfolding logs_def by blast
    qed
  qed
qed

lemma steady_get: "steady (on_store (rm_get ops i))"
  by (rule steady_on_store) (use get_view in blast)

lemma steady_start: "steady (on_store (rm_start ops c))"
proof (rule steady_on_store)
  fix s r s' assume ok: "ok s" and run: "rm_start ops c s = (r, s')"
  have claimed: "ok s'' \<and> log_extends events command s1 s''"
    if s1: "ok s1" and "act_bind (co_claim_start ops c) (\<lambda>claimed. rm_get ops (sr_run_id claimed)) s1 = (q, s'')" for s1 q s''
    using that(2)
  proof (cases rule: act_bind_cases)
    case (1 e) with claim_law [OF s1] show ?thesis by blast
  next
    case (2 a s2)
    from claim_law [OF s1 2(1)] have s2: "ok s2" "log_extends events command s1 s2" by blast+
    with get_view [OF s2(1) 2(2)] show ?thesis by (blast intro: log_extends_trans)
  qed
  show "ok s' \<and> log_extends events command s s'"
  proof (cases "rf_parent (sr_fields c)")
    case None
    with run claimed [OF ok] show ?thesis by (auto simp: rm_start_def act_seq_def act_bind_run act_return_def)
  next
    case (Some parent)
    obtain q s1 where q: "co_get_run_command ops (fst parent) s = (q, s1)" by fastforce
    from command_law [OF ok q] have s1: "ok s1" "log_extends events command s s1" "q = Inr (command s1 (fst parent))" by blast+
    show ?thesis
    proof (cases "command s1 (fst parent)")
      case None
      with run q s1 Some show ?thesis by (cases parent) (simp add: rm_start_def act_seq_def act_bind_def act_throw_def)
    next
      case (Some x)
      with run q s1(3) \<open>rf_parent (sr_fields c) = Some parent\<close>
      have "act_bind (co_claim_start ops c) (\<lambda>claimed. rm_get ops (sr_run_id claimed)) s1 = (r, s')"
        by (cases parent) (auto simp: rm_start_def act_seq_def act_bind_def act_return_def)
      with claimed [OF s1(1)] s1(2) show ?thesis by (blast intro: log_extends_trans)
    qed
  qed
qed

lemma steady_queue: "steady (queue_run rt ops c)"
proof -
  have queue: "steady (ensure_queued rt ops c)"
    unfolding ensure_queued_def by (intro steady_basic steady_run_events steady_append_run)
  have active: "steady (\<lambda>(p, s). (Inr (Driven q), (p\<lparr>pr_active := k # pr_active p\<rparr>, s)))" for q k by (auto simp: steady_def)
  show ?thesis unfolding queue_run_def
    by (intro steady_bind steady_get steady_option steady_if steady_throw steady_seq queue active)
qed

lemma steady_open: "steady (begin_open rt ops c allow r)"
  using steady_queue [of rt c] by (auto simp: steady_def begin_open_def split: if_splits)

lemma steady_claimed: "steady (begin_claimed rt ops c allow current)"
  unfolding begin_claimed_def by (intro steady_option steady_if steady_throw steady_return steady_open)

lemma steady_begin_once:
  assumes "rt_store rt (rf_scope (sr_fields c)) = Inr ops"
  shows "steady (begin_once rt c allow)"
proof -
  show ?thesis unfolding begin_once_def assms lift_Inr by (intro steady_bind steady_start steady_get steady_claimed)
qed

text \<open>A handle the call answers with names a claimed run, and a settled one an outcome on record.\<close>

definition handle_ok :: "'s \<Rightarrow> string \<Rightarrow> run_handle \<Rightarrow> bool" where
  "handle_ok s i handle \<longleftrightarrow> command s i \<noteq> None \<and> (\<forall>r out. handle = Settled r out \<longrightarrow> ''run.'' @ out \<in> set (types s i))"

lemma handle_ok_later: "handle_ok s i handle \<Longrightarrow> log_extends events command s s' \<Longrightarrow> handle_ok s' i handle"
proof -
  assume handle: "handle_ok s i handle" and ext: "log_extends events command s s'"
  from ext obtain new where "events s' i = events s i @ new" unfolding log_extends_def by blast
  then have "set (types s i) \<subseteq> set (types s' i)" by auto
  moreover have "command s' i \<noteq> None" using handle ext unfolding handle_ok_def log_extends_def by blast
  ultimately show ?thesis using handle unfolding handle_ok_def by blast
qed

lemma queue_never_settles:
  assumes "queue_run rt ops' c ps = (Inr handle, ps')"
  shows "handle \<noteq> Settled r out"
  using assms unfolding queue_run_def
proof (cases rule: act_seq_cases)
  case (2 u ps1)
  from 2(2) show ?thesis
  proof (cases rule: act_bind_cases)
    case (2 queued ps2)
    then show ?thesis by (cases queued; cases ps2) (auto simp: act_throw_def split: if_splits)
  qed simp
qed simp

lemma open_never_settles:
  assumes "begin_open rt ops' c allow x (p, s) = (Inr handle, ps)"
  shows "handle \<noteq> Settled r out"
proof (cases "queue_run rt ops' c (p, s) = (Inr handle, ps)")
  case True then show ?thesis by (rule queue_never_settles)
next
  case False with assms show ?thesis by (auto simp: begin_open_def split: if_splits)
qed

lemma begin_claimed_handle:
  assumes ok: "ok s" and command: "command s (sr_run_id c) = Some c'" and view: "run_view c' (types s (sr_run_id c)) = current"
    and run: "begin_claimed rt ops c allow current (p, s) = (Inr handle, (p', s'))"
  shows "handle_ok s' (sr_run_id c) handle"
proof (cases current)
  case None with run show ?thesis by (simp add: begin_claimed_def act_throw_def)
next
  case (Some r)
  from steadyD [OF steady_claimed ok run] command have "command s' (sr_run_id c) = Some c'" unfolding log_extends_def by blast
  moreover have "''run.'' @ out \<in> set (types s' (sr_run_id c))" if h: "handle = Settled x out" for x out
  proof (cases "ru_outcome r \<noteq> None \<and> (\<not> is_suspended_outcome (the (ru_outcome r)) \<or> \<not> allow)")
    case True
    with run Some h have "s' = s" "ru_outcome r = Some out" by (auto simp: begin_claimed_def act_return_def)
    with view_outcome_event [of c' "types s (sr_run_id c)" r out] view Some show ?thesis by (simp del: set_map)
  next
    case False
    from run have "begin_open rt ops c allow r (p, s) = (Inr handle, (p', s'))"
      unfolding begin_claimed_def Some option.case if_not_P [OF False] .
    from open_never_settles [OF this] h show ?thesis by blast
  qed
  ultimately show ?thesis by (simp add: handle_ok_def)
qed

lemma begin_once_handle:
  assumes store: "rt_store rt (rf_scope (sr_fields c)) = Inr ops" and ok: "ok s"
    and run: "begin_once rt c allow (p, s) = (Inr handle, (p', s'))"
  shows "handle_ok s' (sr_run_id c) handle"
proof -
  have "act_bind (on_store (rm_start ops c)) (\<lambda>_. act_bind (on_store (rm_get ops (sr_run_id c))) (begin_claimed rt ops c allow)) (p, s)
      = (Inr handle, (p', s'))"
    using run unfolding begin_once_def store lift_Inr .
  then show ?thesis
  proof (cases rule: act_bind_cases)
    case (2 a ps)
    obtain p1 s1 where ps: "ps = (p1, s1)" by (cases ps)
    from steadyD [OF steady_start ok 2(1) [unfolded ps]] have s1: "ok s1" by blast
    from 2(2) [unfolded ps] show ?thesis
    proof (cases rule: act_bind_cases)
      case (2 current ps)
      obtain p2 s2 where ps: "ps = (p2, s2)" by (cases ps)
      from 2(1) ps have "rm_get ops (sr_run_id c) s1 = (Inr current, s2)" by (auto simp: on_store_def split: prod.splits)
      from get_view [OF s1 this] have view: "ok s2" "current = None \<or> (\<exists>c'. command s2 (sr_run_id c) = Some c' \<and> run_view c' (types s2 (sr_run_id c)) = current)"
        by auto
      show ?thesis
      proof (cases current)
        case None with 2(2) ps show ?thesis by (simp add: begin_claimed_def act_throw_def)
      next
        case (Some r)
        with view begin_claimed_handle [OF view(1) _ _ 2(2) [unfolded ps]] show ?thesis by auto
      qed
    qed simp
  qed simp
qed

lemma completion_run:
  assumes store: "rt_store rt (rf_scope (sr_fields c)) = Inr ops" and kernel: "steady (rt_kernel rt c)" and ok: "ok s"
    and handle: "handle_ok s (sr_run_id c) handle" and run: "completion rt c handle (p, s) = (r, (p', s'))"
  shows "ok s' \<and> log_extends events command s s' \<and> (\<forall>out. r = Inr (Some out) \<longrightarrow> ''run.'' @ out \<in> set (types s' (sr_run_id c)))"
proof (cases handle)
  case (Driven x)
  obtain q p1 s1 where d: "drive rt ops c (p, s) = (q, (p1, s1))" by (metis prod.exhaust)
  have "s' = s1 \<and> (\<forall>out. r = Inr (Some out) \<longrightarrow> q = Inr out)"
    using run d Driven store by (cases q) (auto simp: completion_def act_finally_def act_bind_def act_lift_def act_return_def)
  with drive_run [OF kernel] d ok show ?thesis unfolding logs_def by (metis steadyD)
qed (use run ok handle in \<open>auto simp: completion_def act_return_def handle_ok_def\<close>)

text \<open>An end on record is what the run manager reports from then on.\<close>

lemma end_is_reported:
  assumes ok: "ok s" and logged: "''run.'' @ out \<in> set (types s i)" "out \<in> set final_statuses" and command: "command s i \<noteq> None"
    and get: "rm_get ops i s = (got, s')"
  shows "\<exists>r. got = Inr (Some r) \<and> ru_outcome r = Some out"
proof -
  from get_view [OF ok get] have s': "ok s'" "log_extends events command s s'" by blast+
  from s'(2) obtain new where "events s' i = events s i @ new" unfolding log_extends_def by blast
  with logged(1) have "''run.'' @ out \<in> set (types s' i)" by auto
  then obtain n where n: "n < length (events s' i)" "ev_type (events s' i ! n) = ''run.'' @ out" by (auto simp: in_set_conv_nth)
  have "n = length (events s' i) - 1" using final_last [OF s'(1), of n i] n final_event [OF logged(2)] by (metis Suc_lessI diff_Suc_1)
  moreover from n(1) obtain es e where es: "events s' i = es @ [e]" by (cases "events s' i" rule: rev_cases) auto
  ultimately have "ev_type e = ''run.'' @ out" using n(2) by simp
  with es have "rev (types s' i) = (''run.'' @ out) # rev (map ev_type es)" by simp
  then have "run_view c (types s' i) = terminal_run c (Some out)" for c
    using final_event [OF logged(2)] by (simp add: run_view_def decisive_def event_view_def)
  with get_view [OF ok get] command s'(2) show ?thesis
    by (auto simp: terminal_run_def log_extends_def)
qed

end
end
