(* ===== verification/RunRuntimeProperties.thy ===== *)
theory RunRuntimeProperties
  imports RunRuntimeLog
begin

text \<open>
  Properties of the run runtime: what a completion answers is on record for good, and a restart
  settles exactly the runs that were interrupted. The first holds on a channel that other clients
  use at the same time; the second is about the store alone.
\<close>

section \<open>Beginning and completing a run\<close>

context channel_log
begin

lemma rt_begin_run:
  assumes store: "rt_store rt (rf_scope (sr_fields c)) = Inr ops" and ok: "ok s"
    and run: "rt_begin rt c allow (p, s) = (Inr handle, (p', s'))"
  shows "ok s' \<and> log_extends events command s s' \<and> (handle_ok s' (sr_run_id c) handle \<or> handle = SharedHandle)"
proof (cases "pr_closing p \<or> key_for c \<in> set (pr_in_flight p)")
  case True
  with run ok show ?thesis by (auto simp: rt_begin_def split: if_splits)
next
  case False
  let ?p = "p\<lparr>pr_in_flight := key_for c # pr_in_flight p\<rparr>"
  obtain r q s1 where once: "begin_once rt c allow (?p, s) = (r, (q, s1))" by (metis prod.exhaust)
  with run False have "r = Inr handle" "s1 = s'" by (auto simp: rt_begin_def act_finally_def)
  with once steadyD [OF steady_begin_once [OF store] ok once] begin_once_handle [OF store ok] show ?thesis by blast
qed

lemma completed_run:
  assumes store: "rt_store rt (rf_scope (sr_fields c)) = Inr ops" and kernel: "steady (rt_kernel rt c)" and ok: "ok s"
    and handle: "handle_ok s (sr_run_id c) handle \<or> handle = SharedHandle"
    and run: "completion rt c handle (p, s) = (Inr (Some out), (p', s'))"
  shows "ok s' \<and> command s' (sr_run_id c) \<noteq> None \<and> ''run.'' @ out \<in> set (types s' (sr_run_id c))"
proof -
  have h: "handle_ok s (sr_run_id c) handle" using handle run by (auto simp: completion_def act_return_def)
  from completion_run [OF store kernel ok h run] h show ?thesis
    unfolding handle_ok_def log_extends_def by blast
qed

end

text \<open>
  A kernel is a client of the store: what it does there is a sequence of calls, mixed with those
  that others make meanwhile.
\<close>

definition kernel_client :: "host \<Rightarrow> ('w, store \<times> (store \<Rightarrow> store) list) run_runtime \<Rightarrow> bool" where
  "kernel_client h rt \<longleftrightarrow> (\<forall>c w st fs. \<exists>r w' calls. rt_kernel rt c (w, (st, fs)) = (r, (w', (others h calls st, fs))))"

lemma kernel_steady:
  assumes h: "good_host h" and kernel: "kernel_client h rt"
  shows "channel_log.steady (\<lambda>sf. store_ok h (fst sf) \<and> (\<forall>f \<in> set (snd sf). polite (store_ok h) (\<lambda>st i. stream_events h s i st) (run_entry h s) f))
     (\<lambda>sf i. stream_events h s i (fst sf)) (\<lambda>sf. run_entry h s (fst sf)) (rt_kernel rt c)"
  unfolding channel_log.steady_def [OF good_host.busy_log [OF h]]
proof (intro allI impI)
  fix w r w' and sf sf' :: "store \<times> (store \<Rightarrow> store) list"
  assume ok: "store_ok h (fst sf) \<and> (\<forall>f \<in> set (snd sf). polite (store_ok h) (\<lambda>st i. stream_events h s i st) (run_entry h s) f)"
    and run: "rt_kernel rt c (w, sf) = (r, (w', sf'))"
  obtain st fs where sf: "sf = (st, fs)" by (cases sf)
  from kernel run obtain calls where "sf' = (others h calls st, fs)" unfolding kernel_client_def sf by (metis prod.inject)
  with ok good_host.others_polite [OF h, of s calls]
  show "(store_ok h (fst sf') \<and> (\<forall>f \<in> set (snd sf'). polite (store_ok h) (\<lambda>st i. stream_events h s i st) (run_entry h s) f))
      \<and> log_extends (\<lambda>sf i. stream_events h s i (fst sf)) (\<lambda>sf. run_entry h s (fst sf)) sf sf'"
    by (simp add: sf polite_def log_extends_def)
qed

section \<open>Example: a claimed run is driven to its end\<close>

definition demo_runtime :: "'s channel_ops \<Rightarrow> (nat, 's) run_runtime" where
  "demo_runtime ops = \<lparr>rt_store = (\<lambda>s. Inr ops), rt_kernel = (\<lambda>c (w, s). (Inr ''completed'', (w, s))),
     rt_stamp = (\<lambda>w. ((replicate (Suc w) CHR ''x'', ''7''), Suc w))\<rparr>"

definition demo_process :: "nat process" where
  "demo_process = \<lparr>pr_world = 0, pr_active = [], pr_in_flight = [], pr_closing = False\<rparr>"

definition demo_queued :: store where
  "demo_queued = push_event demo_host demo_scope
     \<lparr>ev_id = ''x'', ev_scope = demo_scope, ev_stream = ''r'', ev_seq = 0, ev_type = ''run.queued'',
      ev_timestamp = ''7'', ev_schema_version = 1, ev_payload = JObj [(''phase'', JStr ''queued'')]\<rparr> demo_claims"

lemma demo_claims_again: "claim_start demo_host demo_scope demo_start demo_claims = (Inr demo_start, demo_claims)"
proof -
  have "clone_start_run demo_host demo_start = Inr demo_start" by (simp add: clone_start_run_def demo_start_parses)
  moreover have "rf_scope (sr_fields demo_start) = demo_scope" by (simp add: demo_start_def demo_fields_def)
  ultimately have "claim_start demo_host demo_scope demo_start empty_store = (Inr demo_start, demo_claims)"
    by (simp add: demo_claims_def claim_start_def act_bind_def act_lift_def Let_def) (simp add: empty_store_def)
  then show ?thesis by (rule claim_start_again [OF total_preorder_demo_host])
qed

lemma demo_claims_entry: "run_entry demo_host demo_scope demo_claims ''r'' = Some demo_start"
  using demo_claimed by (simp add: get_command_entry reachable_store_ok [OF total_preorder_demo_host reachable_demo_claims])

lemma quiet_disturb: "disturb f (st, []) = (case f st of (r, st') \<Rightarrow> (r, (st', [])))"
  by (simp add: disturb_def split: prod.splits)

lemma demo_append_queued: "append_event demo_host demo_scope
     \<lparr>ev_id = ''x'', ev_scope = demo_scope, ev_stream = ''r'', ev_seq = 0, ev_type = ''run.queued'',
      ev_timestamp = ''7'', ev_schema_version = 1, ev_payload = JObj [(''phase'', JStr ''queued'')]\<rparr> demo_claims = (Inr (), demo_queued)"
  unfolding demo_queued_def
  by (rule append_new) (simp_all add: demo_claims_streams event_ok_def demo_scope_def scope_ok_def is_blank_iff is_space_def demo_host_def parse_millis_def is_digit_def max_safe_def sealed_def)

lemma demo_claims_entries: "run_entry demo_host demo_scope demo_claims i \<noteq> None \<Longrightarrow> i = ''r''"
proof -
  have "clone_start_run demo_host demo_start = Inr demo_start" by (simp add: clone_start_run_def demo_start_parses)
  moreover have "rf_scope (sr_fields demo_start) = demo_scope" "sr_run_id demo_start = ''r''" by (simp_all add: demo_start_def demo_fields_def)
  moreover assume "run_entry demo_host demo_scope demo_claims i \<noteq> None"
  ultimately show "i = ''r''"
    by (simp add: demo_claims_def claim_start_def act_bind_def act_lift_def Let_def run_entry_def empty_store_def split: if_splits)
qed
lemma demo_queued_facts:
  "store_ok demo_host demo_queued" "run_entry demo_host demo_scope demo_queued ''r'' = Some demo_start"
  "run_types demo_host demo_scope ''r'' demo_queued = [''run.queued'']" "reachable_store demo_host demo_queued"
proof -
  have "array_room demo_host demo_claims" by (simp add: array_room_def demo_claims_streams)
  from reachable_call [OF reachable_demo_claims this, of demo_scope "CallAppend
     \<lparr>ev_id = ''x'', ev_scope = demo_scope, ev_stream = ''r'', ev_seq = 0, ev_type = ''run.queued'',
      ev_timestamp = ''7'', ev_schema_version = 1, ev_payload = JObj [(''phase'', JStr ''queued'')]\<rparr>"]
  show "reachable_store demo_host demo_queued" by (simp add: demo_append_queued)
  then show "store_ok demo_host demo_queued" by (rule reachable_store_ok [OF total_preorder_demo_host])
  show "run_entry demo_host demo_scope demo_queued ''r'' = Some demo_start"
    using demo_claims_entry by (simp add: demo_queued_def push_event_def run_entry_def)
  show "run_types demo_host demo_scope ''r'' demo_queued = [''run.queued'']"
    by (simp add: demo_queued_def demo_claims_streams)
qed

lemma demo_waits: "run_view c [] = Some (active_run c ''queued'')" "run_view c [''run.queued''] = Some (active_run c ''queued'')"
  by (simp_all add: run_view_def decisive_def is_running_event_def terminal_outcome_def terminal_outcomes_def object_prototype_keys_def)

lemma demo_start_simps: "sr_run_id demo_start = ''r''" "rf_scope (sr_fields demo_start) = demo_scope" "rf_parent (sr_fields demo_start) = None"
  by (simp_all add: demo_start_def demo_fields_def)

lemma demo_gets:
  "rm_get (in_memory demo_host demo_scope) ''r'' demo_claims = (Inr (Some (active_run demo_start ''queued'')), demo_claims)"
  "rm_get (in_memory demo_host demo_scope) ''r'' demo_queued = (Inr (Some (active_run demo_start ''queued'')), demo_queued)"
  by (simp_all add: in_memory_get demo_queued_facts demo_claims_entry demo_claims_streams demo_waits
      reachable_store_ok [OF total_preorder_demo_host reachable_demo_claims] del: list.map(2))

lemma demo_begins:
  "rt_begin (demo_runtime (interleaved (in_memory demo_host demo_scope))) demo_start False (demo_process, (demo_claims, []))
     = (Inr (Driven (active_run demo_start ''queued'')), (demo_process\<lparr>pr_world := 1, pr_active := [key_for demo_start]\<rparr>, (demo_queued, [])))"
proof -
  note get = quiet_get [of "in_memory demo_host demo_scope" "''r''"] demo_gets
  let ?ops = "interleaved (in_memory demo_host demo_scope)" and ?rt = "demo_runtime (interleaved (in_memory demo_host demo_scope))"
  have start: "rm_start ?ops demo_start (demo_claims, []) = (Inr (Some (active_run demo_start ''queued'')), (demo_claims, []))"
    by (simp add: rm_start_def demo_start_simps act_seq_def act_bind_run act_return_def interleaved_simps quiet_disturb demo_claims_again get)
  have append: "append_run_event ?rt ?ops demo_start 0 ''run.queued'' [(''phase'', JStr ''queued'')] (p, (demo_claims, []))
      = (Inr (), (p\<lparr>pr_world := 1\<rparr>, (demo_queued, [])))" if "pr_world p = 0" for p
    using that by (simp add: append_run_event_def demo_runtime_def demo_start_simps command_attribution_def on_store_def interleaved_simps quiet_disturb demo_append_queued)
  have queue: "queue_run ?rt ?ops demo_start (p, (demo_claims, []))
      = (Inr (Driven (active_run demo_start ''queued'')), (p\<lparr>pr_world := 1, pr_active := key_for demo_start # pr_active p\<rparr>, (demo_queued, [])))" if "pr_world p = 0" for p
    using append [OF that] by (simp add: queue_run_def ensure_queued_def run_events_def act_seq_def act_bind_run on_store_def demo_start_simps interleaved_simps quiet_disturb
      demo_claims_streams read_all reachable_store_ok [OF total_preorder_demo_host reachable_demo_claims] get) (simp add: active_run_def)
  have store: "rt_store ?rt s = Inr ?ops" for s by (simp add: demo_runtime_def)
  show ?thesis
    by (simp add: rt_begin_def demo_process_def act_finally_def begin_once_def store lift_Inr act_bind_run on_store_def start demo_start_simps get
        begin_claimed_def begin_open_def queue) (simp add: active_run_def queue)
qed

definition demo_completed :: store where
  "demo_completed = push_event demo_host demo_scope
     \<lparr>ev_id = ''xx'', ev_scope = demo_scope, ev_stream = ''r'', ev_seq = 1, ev_type = ''run.completed'',
      ev_timestamp = ''7'', ev_schema_version = 1, ev_payload = JObj [(''outcome'', JStr ''completed'')]\<rparr> demo_queued"

lemma demo_append_completed: "append_event demo_host demo_scope
     \<lparr>ev_id = ''xx'', ev_scope = demo_scope, ev_stream = ''r'', ev_seq = 1, ev_type = ''run.completed'',
      ev_timestamp = ''7'', ev_schema_version = 1, ev_payload = JObj [(''outcome'', JStr ''completed'')]\<rparr> demo_queued = (Inr (), demo_completed)"
  unfolding demo_completed_def
  by (rule append_new) (simp_all add: demo_queued_def demo_claims_streams event_ok_def demo_scope_def scope_ok_def is_blank_iff is_space_def
    demo_host_def parse_millis_def is_digit_def max_safe_def sealed_def is_terminal_event_def final_event_types_def)

lemma demo_completes:
  "completion (demo_runtime (interleaved (in_memory demo_host demo_scope))) demo_start (Driven r) (demo_process\<lparr>pr_world := 1, pr_active := a\<rparr>, (demo_queued, []))
     = (Inr (Some ''completed''), (demo_process\<lparr>pr_world := 2, pr_active := removeAll (key_for demo_start) a\<rparr>, (demo_completed, [])))"
proof -
  let ?ops = "interleaved (in_memory demo_host demo_scope)" and ?rt = "demo_runtime (interleaved (in_memory demo_host demo_scope))"
  have append: "append_run_event ?rt ?ops demo_start (Suc 0) ''run.completed'' [(''outcome'', JStr ''completed'')] (p, (demo_queued, []))
      = (Inr (), (p\<lparr>pr_world := 2\<rparr>, (demo_completed, [])))" if "pr_world p = Suc 0" for p
    using that demo_append_completed by (simp add: append_run_event_def demo_runtime_def demo_start_simps command_attribution_def on_store_def interleaved_simps quiet_disturb)
  obtain e where e: "stream_events demo_host demo_scope ''r'' demo_queued = [e]" "ev_type e = ''run.queued''"
    using demo_queued_facts(3) by (auto simp: map_eq_Cons_conv)
  have kernel: "run_kernel ?rt demo_start (p, s) = (Inr ''completed'', (p, s))" for p s
    by (simp add: run_kernel_def demo_runtime_def)
  have store: "rt_store ?rt s = Inr ?ops" for s by (simp add: demo_runtime_def)
  show ?thesis
    by (simp add: completion_def act_finally_def store lift_Inr drive_def act_bind_run kernel close_run_def run_events_def on_store_def interleaved_simps
        quiet_disturb read_all [OF demo_queued_facts(1)] demo_start_simps e last_outcome_def is_terminal_event_def final_event_types_def is_suspended_event_def
        act_seq_def append demo_process_def act_return_def)
qed

section \<open>A completion is on record\<close>

text \<open>
  C6. What a completion answers is on record. Let a call of the run runtime answer a handle, and
  let its completion answer an outcome, with any calls of other clients between any two store
  accesses, before, between and after the two calls, and with a kernel that is itself a client of
  the store. Then the event of that outcome is in the stream of the run; and if the outcome is an
  end, the run manager reports the run with that outcome from then on.
\<close>

theorem completion_is_on_record:
  assumes "digits_ok h" and "total_preorder (locale_le h)" and "reachable_store h st" and "kernel_client h rt"
    and "rt_store rt (rf_scope (sr_fields c)) = Inr (interleaved (in_memory h s))"
    and "rt_begin rt c allow (p, (st, map (others h) calls)) = (Inr handle, (p1, (st1, fs1)))"
    and "completion rt c handle (p2, (others h between st1, map (others h) calls2)) = (Inr (Some out), (p3, (st3, fs3)))"
    and "rm_get (interleaved (in_memory h s)) (sr_run_id c) (others h later st3, map (others h) calls3) = (got, sf)"
  shows "''run.'' @ out \<in> set (run_types h s (sr_run_id c) st3)
    \<and> (out \<in> {''completed'', ''failed'', ''timed_out'', ''cancelled''} \<longrightarrow> (\<exists>r. got = Inr (Some r) \<and> ru_outcome r = Some out))"
proof -
  have h: "good_host h" using assms(1,2) by (rule good_host.intro)
  note log = good_host.busy_log [OF h, of s] and kernel = kernel_steady [OF h assms(4), of s c]
  have polite: "\<forall>f \<in> set (map (others h) calls). polite (store_ok h) (\<lambda>st i. stream_events h s i st) (run_entry h s) f" for calls
    by (auto intro: good_host.others_polite [OF h])
  have later: "store_ok h (others h xs x) \<and> log_extends (\<lambda>st i. stream_events h s i st) (run_entry h s) x (others h xs x)" if "store_ok h x" for xs x
    using good_host.others_polite [OF h, of s xs] that by (simp add: polite_def)
  let ?ok = "\<lambda>sf. store_ok h (fst sf) \<and> (\<forall>f \<in> set (snd sf). polite (store_ok h) (\<lambda>st i. stream_events h s i st) (run_entry h s) f)"
  have "?ok (st, map (others h) calls)" using reachable_store_ok [OF assms(2,3)] polite by simp
  note begun = channel_log.rt_begin_run [OF log assms(5) this assms(6)]
  then have "store_ok h st1" by simp
  note s2 = later [OF this, of between]
  have ext: "log_extends (\<lambda>sf i. stream_events h s i (fst sf)) (\<lambda>sf. run_entry h s (fst sf)) (st1, fs1) (others h between st1, map (others h) calls2)"
    using s2 by (simp add: log_extends_def)
  have handle: "channel_log.handle_ok (\<lambda>sf i. stream_events h s i (fst sf)) (\<lambda>sf. run_entry h s (fst sf))
      (others h between st1, map (others h) calls2) (sr_run_id c) handle \<or> handle = SharedHandle"
    using begun channel_log.handle_ok_later [OF log _ ext] by blast
  have "?ok (others h between st1, map (others h) calls2)" using s2 polite by simp
  from channel_log.completed_run [OF log assms(5) kernel this handle assms(7)]
  have finished: "store_ok h st3" "run_entry h s st3 (sr_run_id c) \<noteq> None" "''run.'' @ out \<in> set (run_types h s (sr_run_id c) st3)" by simp_all
  from later [OF finished(1), of later] obtain new where new: "store_ok h (others h later st3)" "run_entry h s (others h later st3) (sr_run_id c) \<noteq> None"
      "stream_events h s (sr_run_id c) (others h later st3) = stream_events h s (sr_run_id c) st3 @ new"
    using finished(2) unfolding log_extends_def by blast
  have "\<exists>r. got = Inr (Some r) \<and> ru_outcome r = Some out" if "out \<in> set final_statuses"
    using channel_log.end_is_reported [OF log _ _ that _ assms(8)] new finished(3) polite by simp
  with finished(3) show ?thesis by (simp add: final_statuses_def)
qed

lemma completion_is_on_record_witness:
  "\<exists>r. fst (rm_get (interleaved (in_memory demo_host demo_scope)) ''r'' (demo_completed, [])) = Inr (Some r) \<and> ru_outcome r = Some ''completed''"
proof -
  let ?rt = "demo_runtime (interleaved (in_memory demo_host demo_scope))"
  have kernel: "kernel_client demo_host ?rt"
    unfolding kernel_client_def by (auto simp: demo_runtime_def intro!: exI [of _ "[]"])
  have others: "others demo_host [] = (\<lambda>st. st)" by (simp add: fun_eq_iff)
  obtain got sf where got: "rm_get (interleaved (in_memory demo_host demo_scope)) ''r'' (demo_completed, []) = (got, sf)" by (metis surj_pair)
  have "rt_store ?rt (rf_scope (sr_fields demo_start)) = Inr (interleaved (in_memory demo_host demo_scope))" by (simp add: demo_runtime_def)
  from completion_is_on_record [OF digits_ok_demo_host total_preorder_demo_host reachable_demo_claims kernel this,
      of False demo_process "[]" _ _ _ _ _ "[]" "[]" _ _ _ _ "[]" "[]" got sf, unfolded others list.map, OF demo_begins demo_completes]
  show ?thesis using got by (simp add: demo_start_simps)
qed

section \<open>Settling on the in-memory store\<close>

lemma clone_event_error:
  assumes "clone_event h e = Inl err" "is_json (ev_payload e)"
  shows "\<exists>m. err = SchemaValidationError m"
proof -
  have p: "parse_json_value (ev_payload e) n = Inr (ev_payload e)" for n
    using assms(2) by (simp add: parse_json_value_iff)
  show ?thesis
    using assms(1) unfolding clone_event_def parse_canonical_event_def event_js_def
    by (auto simp: res_simps expect_record_def parse_id_def parse_scope_fields_def expect_non_empty_string_def expect_non_negative_integer_def
      expect_positive_integer_def parse_timestamp_def p split: js.splits if_splits option.splits)
qed

text \<open>An event with the next number does not conflict with the numbering of a stream that has not ended.\<close>

lemma append_next_conflicts:
  assumes "append_event h s e st = (Inl err, st')" "is_json (ev_payload e)"
    and "ev_seq e = int (length (stream_events h s (ev_stream e) st))" "\<not> sealed (stream_events h s (ev_stream e) st)"
  shows "err \<noteq> EventSequenceConflictError \<and> err \<noteq> TerminalEventConflictError"
proof (cases "clone_event h e")
  case (Inl x)
  with clone_event_error [OF Inl assms(2)] assms(1) show ?thesis by (auto simp: append_event_def act_bind_def act_lift_def)
next
  case (Inr x)
  with assms show ?thesis
    by (auto simp: append_event_def act_bind_def act_lift_def clone_event_iff Let_def sealed_def list_ex_iff split: option.splits if_splits)
qed

lemma last_outcome_None:
  "last_outcome es = None \<longleftrightarrow> \<not> (es \<noteq> [] \<and> (is_terminal_event (ev_type (last es)) \<or> is_suspended_event (ev_type (last es))))"
  by (auto simp: last_outcome_def is_terminal_event_def final_event_types_def is_suspended_event_def)

text \<open>A run is interrupted when no event has ended or suspended it last and nobody here drives it.\<close>

definition interrupted :: "host \<Rightarrow> scope \<Rightarrow> 'w process \<Rightarrow> store \<Rightarrow> string \<Rightarrow> bool" where
  "interrupted h s p st i \<longleftrightarrow> run_entry h s st i \<noteq> None \<and> runtime_key s i \<notin> set (pr_active p) \<and> runtime_key s i \<notin> set (pr_in_flight p)
     \<and> last_outcome (stream_events h s i st) = None"

lemma interrupted_open: "store_ok h st \<Longrightarrow> interrupted h s p st i \<Longrightarrow> \<not> sealed (stream_events h s i st)"
proof
  assume ok: "store_ok h st" and i: "interrupted h s p st i" and "sealed (stream_events h s i st)"
  then obtain n where n: "n < length (stream_events h s i st)" "is_terminal_event (ev_type (stream_events h s i st ! n))"
    by (auto simp: sealed_def in_set_conv_nth)
  have "\<not> Suc n < length (stream_events h s i st)" using log_ok_nth [of h st n s i] ok n by (auto simp: store_ok_def)
  with n have "Suc n = length (stream_events h s i st)" by simp
  with n i show False by (cases "stream_events h s i st" rule: rev_cases) (auto simp: interrupted_def last_outcome_None)
qed

text \<open>Settling one run: the store afterwards, for a run that is interrupted and for one that is not.\<close>

lemma settle_run_exact:
  assumes h: "good_host h" and ok: "store_ok h st" and run: "settle_run rt (in_memory h s) s i (p, st) = (Inr b, (p', st'))"
  shows "store_ok h st' \<and> run_entry h s st' = run_entry h s st \<and> pr_active p' = pr_active p \<and> pr_in_flight p' = pr_in_flight p
    \<and> b = interrupted h s p st i \<and> (\<not> b \<longrightarrow> st' = st) \<and> (\<forall>j. j \<noteq> i \<longrightarrow> stream_events h s j st' = stream_events h s j st)
    \<and> (b \<longrightarrow> ''run.failed'' \<in> set (run_types h s i st'))"
proof (cases "interrupted h s p st i")
  case False
  with run ok show ?thesis
    by (auto simp: settle_run_def interrupted_def run_events_def on_store_def act_bind_def act_return_def get_command_entry [OF ok] read_all [OF ok]
      last_outcome_None split: if_splits option.splits)
next
  case True
  then obtain c where c: "run_entry h s st i = Some c" by (auto simp: interrupted_def)
  have sc: "rf_scope (sr_fields c) = s" "sr_run_id c = i" using commands_ok_in(1) c ok unfolding store_ok_def run_entry_def by blast+
  obtain x time w where stamp: "rt_stamp rt (pr_world p) = ((x, time), w)" by (metis prod.exhaust)
  define e where "e = \<lparr>ev_id = x, ev_scope = s, ev_stream = i, ev_seq = int (length (stream_events h s i st)), ev_type = ''run.failed'',
          ev_timestamp = time, ev_schema_version = 1, ev_payload = JObj ([(''errorType'', JStr ''process_restarted'')] @ command_attribution c)\<rparr>"
  obtain a st1 where a: "append_event h s e st = (a, st1)" by fastforce
  have e: "ev_stream e = i" "ev_seq e = int (length (stream_events h s i st))" "ev_type e = ''run.failed''" by (simp_all add: e_def)
  have "is_json (ev_payload e)" by (auto simp: e_def command_attribution_def opt_field_def split: option.splits prod.splits)
  note conflicts = append_next_conflicts [OF _ this, of h s st, unfolded e, OF _ refl interrupted_open [OF ok True]]
  have "(Inr b, (p', st')) = (case a of Inr u \<Rightarrow> (Inr True, (p\<lparr>pr_world := w\<rparr>, st1))
      | Inl err \<Rightarrow> if err = EventSequenceConflictError \<or> err = TerminalEventConflictError then (Inr False, (p\<lparr>pr_world := w\<rparr>, st1)) else (Inl err, (p\<lparr>pr_world := w\<rparr>, st1)))"
  proof -
    have idle: "\<not> (stream_events h s i st \<noteq> [] \<and> (is_terminal_event (ev_type (last (stream_events h s i st)))
        \<or> is_suspended_event (ev_type (last (stream_events h s i st)))))"
      and key: "\<not> (runtime_key s i \<in> set (pr_active p) \<or> runtime_key s i \<in> set (pr_in_flight p))"
      using True by (simp_all add: interrupted_def last_outcome_None)
    have "append_run_event rt (in_memory h s) c (length (stream_events h s i st)) ''run.failed'' [(''errorType'', JStr ''process_restarted'')] (p, st)
        = (a, (p\<lparr>pr_world := w\<rparr>, st1))"
      using a by (simp add: append_run_event_def stamp sc on_store_def e_def)
    then show ?thesis
      using run unfolding settle_run_def run_events_def on_store_def
      by (simp only: act_bind_def in_memory_simps get_command_entry [OF ok] read_all [OF ok] c prod.case sum.case option.case if_not_P [OF idle] if_not_P [OF key])
  qed
  with conflicts a have b: "b" "a = Inr ()" "st' = st1" "p' = p\<lparr>pr_world := w\<rparr>"
    by (cases a; force split: if_splits)+
  with a have run: "append_event h s e st = (Inr (), st')" by simp
  have "st_commands st' = st_commands st" using frame_commands [of "CallAppend e" h s st] run by simp
  then have "run_entry h s st' = run_entry h s st" by (simp add: run_entry_def fun_eq_iff)
  moreover have "store_ok h st'"
    using channel_log.append_law [OF good_host.in_memory_log [OF h] ok, of s e] run by simp
  moreover have "stream_events h s j st' = stream_events h s j st" if "j \<noteq> i" for j
    using append_event_cases [OF run] that e by auto
  moreover from append_stores [OF good_host.digits [OF h] _ run] ok obtain e' where "e' \<in> set (stream_events h s i st')" "same_event e' e"
    by (auto simp: store_ok_def e)
  then have "''run.failed'' \<in> set (run_types h s i st')" using e(3) by (auto dest!: same_event_fields) (metis image_eqI)
  ultimately show ?thesis using True b by simp
qed

lemma settle_runs_exact:
  assumes h: "good_host h" and "store_ok h st" "distinct ids" and "settle_runs rt (in_memory h s) s ids (p, st) = (Inr settled, (p', st'))"
  shows "store_ok h st' \<and> run_entry h s st' = run_entry h s st
    \<and> set settled = {i \<in> set ids. interrupted h s p st i}
    \<and> (\<forall>i. i \<notin> set settled \<longrightarrow> stream_events h s i st' = stream_events h s i st)
    \<and> (\<forall>i \<in> set settled. ''run.failed'' \<in> set (run_types h s i st'))"
  using assms(2-)
proof (induction ids arbitrary: p st settled)
  case Nil then show ?case by (simp add: act_return_def)
next
  case (Cons i ids)
  obtain b p1 st1 where one: "settle_run rt (in_memory h s) s i (p, st) = (Inr b, (p1, st1))"
    using Cons.prems(3) by (cases "settle_run rt (in_memory h s) s i (p, st)"; cases "fst (settle_run rt (in_memory h s) s i (p, st))")
      (auto simp: act_bind_def)
  note s1 = settle_run_exact [OF h Cons.prems(1) one]
  obtain rest where rest: "settle_runs rt (in_memory h s) s ids (p1, st1) = (Inr rest, (p', st'))" "settled = (if b then i # rest else rest)"
    using Cons.prems(3) one by (auto simp: act_bind_def act_return_def split: prod.splits sum.splits if_splits)
  have "distinct ids" "i \<notin> set ids" using Cons.prems(2) by simp_all
  from Cons.IH [OF _ this(1) rest(1)] s1 have ih: "store_ok h st'" "run_entry h s st' = run_entry h s st1"
      "set rest = {j \<in> set ids. interrupted h s p1 st1 j}"
      "\<forall>j. j \<notin> set rest \<longrightarrow> stream_events h s j st' = stream_events h s j st1" "\<forall>j \<in> set rest. ''run.failed'' \<in> set (run_types h s j st')"
    by blast+
  have b: "b = interrupted h s p st i" and unchanged: "\<not> b \<longrightarrow> st1 = st" and other: "\<forall>j. j \<noteq> i \<longrightarrow> stream_events h s j st1 = stream_events h s j st"
    and failed: "b \<longrightarrow> ''run.failed'' \<in> set (run_types h s i st1)" using s1 by blast+
  have frame: "run_entry h s st1 = run_entry h s st" "pr_active p1 = pr_active p" "pr_in_flight p1 = pr_in_flight p" using s1 by blast+
  have same: "interrupted h s p1 st1 j = interrupted h s p st j" if "j \<noteq> i" for j
    using frame other that by (simp add: interrupted_def)
  have set_rest: "set rest = {j \<in> set ids. interrupted h s p st j}" unfolding ih(3)
  proof (rule Collect_cong)
    fix j show "(j \<in> set ids \<and> interrupted h s p1 st1 j) = (j \<in> set ids \<and> interrupted h s p st j)"
      using same [of j] \<open>i \<notin> set ids\<close> by metis
  qed
  then have kept: "stream_events h s i st' = stream_events h s i st1" using ih(4) \<open>i \<notin> set ids\<close> by auto
  have settled: "set settled = (if b then {i} else {}) \<union> set rest" using rest(2) by simp
  have "set settled = {j \<in> set (i # ids). interrupted h s p st j}" unfolding settled set_rest b by auto
  moreover have "stream_events h s j st' = stream_events h s j st" if "j \<notin> set settled" for j
  proof (cases "j = i")
    case True
    with that settled have "\<not> b" by (simp split: if_splits)
    with unchanged kept True show ?thesis by simp
  next
    case False
    from that settled have "j \<notin> set rest" by simp
    with ih(4) other False show ?thesis by simp
  qed
  moreover have "''run.failed'' \<in> set (run_types h s j st')" if "j \<in> set settled" for j
  proof (cases "j \<in> set rest")
    case True with ih(5) show ?thesis by blast
  next
    case False
    with that settled have "b" "j = i" by (simp_all split: if_splits)
    with failed kept show ?thesis by simp
  qed
  ultimately show ?case using ih(1,2) frame(1) by simp
qed

text \<open>
  In terms of the log: unless the runtime is closing, the runs that settling answers with are the
  interrupted ones. Each of them is reported as failed afterwards; the stream of every other run is
  what it was.
\<close>

lemma settled_are_interrupted:
  assumes "digits_ok h" and "total_preorder (locale_le h)" and "reachable_store h st" and "rt_store rt s = Inr (in_memory h s)"
    and "settle_interrupted rt s (p, st) = (Inr settled, (p', st'))"
  shows "(if pr_closing p then settled = [] else set settled = {i. interrupted h s p st i})
    \<and> store_ok h st' \<and> run_entry h s st' = run_entry h s st
    \<and> (if i \<in> set settled then \<exists>r. rm_get (in_memory h s) i st' = (Inr (Some r), st') \<and> ru_outcome r = Some ''failed''
        else stream_events h s i st' = stream_events h s i st)"
proof (cases "pr_closing p")
  case True
  with assms(5) reachable_store_ok [OF assms(2,3)] show ?thesis by (simp add: settle_interrupted_def act_return_def)
next
  case False
  have h: "good_host h" using assms(1,2) by (rule good_host.intro)
  have ok: "store_ok h st" by (rule reachable_store_ok [OF assms(2,3)])
  obtain ids where ids: "active_run_ids h s st = (Inr ids, st)" "distinct ids"
      "set ids = {i. run_entry h s st i \<noteq> None \<and> \<not> sealed (stream_events h s i st)}"
    by (rule active_run_ids_facts [OF ok])
  have "settle_runs rt (in_memory h s) s ids (p, st) = (Inr settled, (p', st'))"
    using assms(4,5) False ids(1) by (simp add: settle_interrupted_def lift_Inr) (simp add: act_bind_def on_store_def)
  note all = settle_runs_exact [OF h ok ids(2) this]
  have "set settled = {i. interrupted h s p st i}"
    using all ids(3) interrupted_open [OF ok, of s p] unfolding interrupted_def by blast
  moreover have "\<exists>r. rm_get (in_memory h s) i st' = (Inr (Some r), st') \<and> ru_outcome r = Some ''failed''" if i: "i \<in> set settled"
  proof -
    have "run_entry h s st' i \<noteq> None" using all i by (auto simp: interrupted_def)
    moreover have "''run.'' @ ''failed'' \<in> set (run_types h s i st')" using all i by simp
    ultimately show ?thesis
      using channel_log.end_is_reported [OF good_host.in_memory_log [OF h], of st' "''failed''" s i] all in_memory_get [of h st' s i]
      by (auto simp: final_statuses_def)
  qed
  ultimately show ?thesis using all False by auto
qed

text \<open>What the run manager reports and the last event of the stream.\<close>

lemma ending_is_decisive: "is_terminal_event ty \<or> is_suspended_event ty \<Longrightarrow> terminal_outcome ty \<noteq> None \<and> decisive ty"
proof (elim disjE)
  assume "is_terminal_event ty" then show "terminal_outcome ty \<noteq> None \<and> decisive ty"
    using terminal_event_outcome [of ty] by (auto simp: decisive_def)
next
  assume "is_suspended_event ty" then show "terminal_outcome ty \<noteq> None \<and> decisive ty"
    by (auto simp: decisive_def is_suspended_event_def terminal_outcome_def terminal_outcomes_def)
qed

lemma view_is_active:
  assumes v: "run_view c tys = Some r" and final: "\<forall>n. Suc n < length tys \<longrightarrow> \<not> is_terminal_event (tys ! n)"
    and waits: "ru_status r \<in> {''awaiting_input'', ''awaiting_approval''} \<Longrightarrow> is_suspended_event (last tys)"
  shows "ru_status r \<in> {''queued'', ''running''} \<longleftrightarrow> \<not> (tys \<noteq> [] \<and> (is_terminal_event (last tys) \<or> is_suspended_event (last tys)))"
proof (cases "find decisive (rev tys)")
  case None
  then have "\<not> is_terminal_event (last tys) \<and> \<not> is_suspended_event (last tys)" if "tys \<noteq> []"
    using None last_in_set [OF that] ending_is_decisive [of "last tys"] by (auto simp: find_None_iff)
  with None v show ?thesis by (auto simp: run_view_def active_run_def)
next
  case (Some ty)
  then have ne: "tys \<noteq> []" and ty: "ty \<in> set tys" "decisive ty" by (auto dest: find_SomeD)
  have r: "event_view c ty = Some r" using v Some by (simp add: run_view_def)
  have decisive_last: "ty = last tys" if "is_terminal_event (last tys) \<or> is_suspended_event (last tys)"
    using ending_is_decisive [OF that] Some ne by (cases tys rule: rev_cases) auto
  show ?thesis
  proof (cases "terminal_outcome ty")
    case None
    with r have "ru_status r = ''running''" by (auto simp: event_view_def active_run_def)
    moreover have "\<not> is_terminal_event ty \<and> \<not> is_suspended_event ty"
      using None ending_is_decisive [of ty] by blast
    ultimately show ?thesis using decisive_last by auto
  next
    case (Some outcome)
    with r obtain status where status: "terminal_outcome ty = Some (Some status)" "ru_status r = status"
      by (auto simp: event_view_def terminal_run_def split: option.splits)
    then have "(ty, status) \<in> set terminal_outcomes" by (simp add: terminal_outcome_status)
    then have cases: "status \<in> {''awaiting_input'', ''awaiting_approval''} \<or> is_terminal_event ty" "status \<notin> {''queued'', ''running''}"
      by (auto simp: terminal_outcomes_def is_terminal_event_def final_event_types_def)
    obtain n where n: "n < length tys" "tys ! n = ty" using ty(1) by (auto simp: in_set_conv_nth)
    have "ty = last tys" if "is_terminal_event ty"
    proof -
      from final n that have "\<not> Suc n < length tys" by auto
      with n(1) have "n = length tys - 1" by simp
      with n(2) ne show ?thesis by (simp add: last_conv_nth)
    qed
    with cases waits status(2) ne show ?thesis by auto
  qed
qed

text \<open>
  C12. A restart settles the runs an earlier process left queued or running. Let the run manager
  report a run of the channel; and when it reports it as waiting for input or an approval, let the
  suspension be the last event of its stream (an answer that is not resumed yet is excluded, see
  below). Then settling answers with the run exactly when the runtime is not closing, the run is
  reported as queued or running and nobody in this process drives or starts it. Such a run is
  reported as failed afterwards; every other run, waiting or ended ones among them, keeps its stream
  and is reported as before. No stream of a run that is not answered with changes.
\<close>

theorem interrupted_runs_are_settled:
  assumes "digits_ok h" and "total_preorder (locale_le h)" and "reachable_store h st" and "rt_store rt s = Inr (in_memory h s)"
    and "settle_interrupted rt s (p, st) = (Inr settled, (p', st'))"
    and "rm_get (in_memory h s) i st = (Inr (Some r), st)"
    and "ru_status r \<in> {''awaiting_input'', ''awaiting_approval''} \<Longrightarrow> is_suspended_event (ev_type (last (stream_events h s i st)))"
  shows "(i \<in> set settled \<longleftrightarrow> \<not> pr_closing p \<and> ru_status r \<in> {''queued'', ''running''}
        \<and> runtime_key s i \<notin> set (pr_active p) \<and> runtime_key s i \<notin> set (pr_in_flight p))
    \<and> (if i \<in> set settled then \<exists>r'. rm_get (in_memory h s) i st' = (Inr (Some r'), st') \<and> ru_outcome r' = Some ''failed''
        else rm_get (in_memory h s) i st' = (Inr (Some r), st'))
    \<and> (\<forall>j. j \<notin> set settled \<longrightarrow> stream_events h s j st' = stream_events h s j st)"
proof -
  have ok: "store_ok h st" by (rule reachable_store_ok [OF assms(2,3)])
  note facts = settled_are_interrupted [OF assms(1-5)]
  obtain c where c: "run_entry h s st i = Some c" "run_view c (run_types h s i st) = Some r"
    using assms(6) by (auto simp: in_memory_get [OF ok] split: option.splits)
  have "\<forall>n. Suc n < length (run_types h s i st) \<longrightarrow> \<not> is_terminal_event (run_types h s i st ! n)"
    using log_ok_nth [of h st _ s i] ok by (auto simp: store_ok_def)
  moreover have "is_suspended_event (last (run_types h s i st))" if waits: "ru_status r \<in> {''awaiting_input'', ''awaiting_approval''}"
  proof -
    have "stream_events h s i st \<noteq> []"
    proof
      assume "stream_events h s i st = []"
      with c(2) have "active_run c ''queued'' = r" by (simp add: run_view_def)
      then have "ru_status r = ''queued''" by (auto simp: active_run_def)
      with waits show False by simp
    qed
    with assms(7) [OF waits] show ?thesis by (simp add: last_map)
  qed
  ultimately have "ru_status r \<in> {''queued'', ''running''} \<longleftrightarrow> last_outcome (stream_events h s i st) = None"
    unfolding last_outcome_None by (subst view_is_active [OF c(2)]) (simp_all add: last_map cong: conj_cong)
  then have "interrupted h s p st i \<longleftrightarrow> ru_status r \<in> {''queued'', ''running''}
      \<and> runtime_key s i \<notin> set (pr_active p) \<and> runtime_key s i \<notin> set (pr_in_flight p)"
    using c(1) by (auto simp: interrupted_def)
  moreover have "i \<in> set settled \<longleftrightarrow> \<not> pr_closing p \<and> interrupted h s p st i"
    using facts [of i] by (cases "pr_closing p") simp_all
  moreover have "rm_get (in_memory h s) i st' = (Inr (Some r), st')" if "i \<notin> set settled"
    using facts [of i] that c by (simp add: in_memory_get)
  moreover have "\<exists>r'. rm_get (in_memory h s) i st' = (Inr (Some r'), st') \<and> ru_outcome r' = Some ''failed''" if "i \<in> set settled"
    using facts [of i] that by simp
  moreover have "stream_events h s j st' = stream_events h s j st" if "j \<notin> set settled" for j
    using facts [of j] that by simp
  ultimately show ?thesis by simp
qed

lemma demo_settles:
  "\<exists>ps. settle_interrupted (demo_runtime (in_memory demo_host demo_scope)) demo_scope (demo_process\<lparr>pr_world := 1\<rparr>, demo_queued) = (Inr [''r''], ps)"
proof -
  let ?ops = "in_memory demo_host demo_scope" and ?rt = "demo_runtime (in_memory demo_host demo_scope)"
  let ?e = "\<lparr>ev_id = ''xx'', ev_scope = demo_scope, ev_stream = ''r'', ev_seq = 1, ev_type = ''run.failed'',
      ev_timestamp = ''7'', ev_schema_version = 1, ev_payload = JObj [(''errorType'', JStr ''process_restarted'')]\<rparr>"
  have append: "append_event demo_host demo_scope ?e demo_queued = (Inr (), push_event demo_host demo_scope ?e demo_queued)"
    by (rule append_new) (simp_all add: demo_queued_def demo_claims_streams event_ok_def demo_scope_def scope_ok_def is_blank_iff is_space_def
      demo_host_def parse_millis_def is_digit_def max_safe_def sealed_def is_terminal_event_def final_event_types_def)
  have fails: "append_run_event ?rt ?ops demo_start (Suc 0) ''run.failed'' [(''errorType'', JStr ''process_restarted'')] (demo_process\<lparr>pr_world := 1\<rparr>, demo_queued)
      = (Inr (), (demo_process\<lparr>pr_world := 2\<rparr>, push_event demo_host demo_scope ?e demo_queued))"
    using append by (simp add: append_run_event_def demo_runtime_def demo_process_def demo_start_simps command_attribution_def on_store_def)
  obtain e where e: "stream_events demo_host demo_scope ''r'' demo_queued = [e]" "ev_type e = ''run.queued''"
    using demo_queued_facts(3) by (auto simp: map_eq_Cons_conv)
  obtain ids where ids: "active_run_ids demo_host demo_scope demo_queued = (Inr ids, demo_queued)" "distinct ids"
      "set ids = {i. run_entry demo_host demo_scope demo_queued i \<noteq> None \<and> \<not> sealed (stream_events demo_host demo_scope i demo_queued)}"
    by (rule active_run_ids_facts [OF demo_queued_facts(1)])
  have "run_entry demo_host demo_scope demo_queued i = run_entry demo_host demo_scope demo_claims i" for i
    by (simp add: demo_queued_def push_event_def run_entry_def)
  then have "set ids = {''r''}" unfolding ids(3)
    using demo_claims_entries demo_queued_facts(2) by (auto simp: e sealed_def is_terminal_event_def final_event_types_def)
  with ids(2) have "ids = [''r'']" by (cases ids; cases "tl ids") auto
  with ids(1) have active: "active_run_ids demo_host demo_scope demo_queued = (Inr [''r''], demo_queued)" by simp
  have store: "rt_store ?rt s = Inr ?ops" for s by (simp add: demo_runtime_def)
  show ?thesis
    by (simp add: settle_interrupted_def demo_process_def store lift_Inr act_bind_run on_store_def active settle_run_def get_command_entry [OF demo_queued_facts(1)]
        demo_queued_facts(2) run_events_def read_all [OF demo_queued_facts(1)] e is_terminal_event_def final_event_types_def is_suspended_event_def
        fails [unfolded demo_process_def, simplified] act_return_def)
qed

lemma interrupted_runs_are_settled_witness:
  "\<exists>p st r. settle_interrupted (demo_runtime (in_memory demo_host demo_scope)) demo_scope (demo_process\<lparr>pr_world := 1\<rparr>, demo_queued) = (Inr [''r''], (p, st))
     \<and> rm_get (in_memory demo_host demo_scope) ''r'' st = (Inr (Some r), st) \<and> ru_outcome r = Some ''failed''"
proof -
  from demo_settles obtain p st where
    st: "settle_interrupted (demo_runtime (in_memory demo_host demo_scope)) demo_scope (demo_process\<lparr>pr_world := 1\<rparr>, demo_queued) = (Inr [''r''], (p, st))"
    by auto
  have store: "rt_store (demo_runtime (in_memory demo_host demo_scope)) demo_scope = Inr (in_memory demo_host demo_scope)" by (simp add: demo_runtime_def)
  have "rm_get (in_memory demo_host demo_scope) ''r'' demo_queued = (Inr (Some (active_run demo_start ''queued'')), demo_queued)"
    using demo_queued_facts by (simp add: in_memory_get run_view_def decisive_def is_running_event_def terminal_outcome_def
        terminal_outcomes_def object_prototype_keys_def)
  note settled = interrupted_runs_are_settled [OF digits_ok_demo_host total_preorder_demo_host demo_queued_facts(4) store st this]
  have "ru_status (active_run demo_start ''queued'') = ''queued''" by (simp add: active_run_def)
  with settled st show ?thesis by (simp only:) auto
qed

text \<open>
  A run that waits for an approval is suspended, but the answer to the approval is an event of its
  stream too: once it is there the run counts as interrupted, while the run manager still reports
  it as waiting. Settling then ends it with a failure.
\<close>

lemma answered_suspension_is_interrupted:
  assumes "store_ok h st" and "run_entry h s st i = Some c"
    and "run_types h s i st = tys @ [''run.awaiting_approval'', ''tool.approval.answered'']"
    and "runtime_key s i \<notin> set (pr_active p)" "runtime_key s i \<notin> set (pr_in_flight p)"
  shows "interrupted h s p st i
    \<and> (\<exists>r. rm_get (in_memory h s) i st = (Inr (Some r), st) \<and> ru_status r = ''awaiting_approval'')"
proof -
  from assms(3) obtain es e where e: "stream_events h s i st = es @ [e]" "ev_type e = ''tool.approval.answered''"
    by (cases "stream_events h s i st" rule: rev_cases) auto
  have "find decisive (rev (run_types h s i st)) = Some ''run.awaiting_approval''"
    by (simp add: assms(3) decisive_def is_running_event_def terminal_outcome_def terminal_outcomes_def object_prototype_keys_def)
  then have "run_view c (run_types h s i st) = terminal_run c (Some ''awaiting_approval'')"
    by (simp add: run_view_def event_view_def terminal_outcome_def terminal_outcomes_def)
  then show ?thesis
    using assms e by (simp add: interrupted_def last_outcome_def is_terminal_event_def final_event_types_def is_suspended_event_def in_memory_get terminal_run_def)
qed

end
