(* ===== verification/Spec2Isabelle.thy ===== *)
theory Spec2Isabelle
  imports ToolFlights SkillDocuments RunContext EvalProperties TraceProperties ProjectionProperties MemoryRetrieval ToolProperties SchedulerProperties RunRuntimeProperties
begin

text \<open>
  The harness core of Anna: the TypeScript packages that decide what an agent run may do, record
  what it did, and rebuild every view of it from that record. Paths below are relative to
  \<open>src/packages/\<close>.

  \<^bold>\<open>The program.\<close> A channel (a \<open>scope\<close>: workspace and channel) owns one append-only log
  of events, grouped in streams. A run is claimed by a command, which carries a resolved profile, the
  permissions of the run; its events are a stream of the channel. Everything else is
  a client of the log. The run manager reads the outcome of a run from its stream; the run runtime
  claims a run, drives it with a kernel and writes how it ended; the tool gateway lets the kernel
  act on the world, with permission and approval, and keeps a ledger of effects in the log; the
  memory repository keeps proposals, decisions and grants of the channel's memories in one stream;
  projections, traces and run contexts are views computed from events; evaluations judge what a run
  left behind; the scheduler creates runs when they are due.

  \<^bold>\<open>The theories.\<close>

  \<^item> \<open>Prelude\<close>, \<open>JsValue\<close>, \<open>StableJson\<close>: results (an error or a value), actions over a state that
  may throw, JavaScript's insertion-ordered maps; the values of JavaScript and the checks of
  \<open>harness-v2/src/schema.ts\<close> (\<open>expect_record\<close>, string and integer checks); the canonical
  printer \<open>stable_json\<close> with the proof that it decides equality of JSON values up to the order of
  members.

  \<^item> \<open>Catalogs\<close>: \<open>harness-v2/src/kernel-descriptor.ts\<close>, \<open>skill-catalog.ts\<close>,
  \<open>capability-catalog.ts\<close>: parsers, selection of a kernel, filtering by tools, digests. \<open>SkillDocuments\<close>:
  loading a skill from a document with front matter.

  \<^item> \<open>RunProfile\<close>, \<open>ProfileResolution\<close>: \<open>harness-v2/src/run-profile.ts\<close>, the parsers of the four
  policies and of the resolved profile, and \<open>resolveRunProfile\<close>; the result grants at most what
  every policy grants, and is accepted by its own parser.

  \<^item> \<open>Contracts\<close>, \<open>ContractFacts\<close>: \<open>harness-v2/src/contracts.ts\<close>, one record per interface of the
  source and its parser; every parser accepts the object of what it returned.

  \<^item> \<open>EventStore\<close>, \<open>EventLog\<close>, \<open>StoreInvariants\<close>, \<open>StoreLedger\<close>, \<open>StoreProperties\<close>:
  \<open>event-store/src/index.ts\<close>, \<open>codec.ts\<close>, \<open>errors.ts\<close>. The record \<open>store\<close> has one field per \<open>Map\<close>
  of the class, one definition per method; \<open>store_call\<close> is a call of any method in any scope, and
  a reachable store is the result of a list of calls. The lemmas: the log is well formed,
  append-only and sealed by terminal events, channels do not influence each other but through two
  listings of runs, and claims, commits and occurrences happen once.

  \<^item> \<open>ChannelOps\<close>, \<open>SteadyActions\<close>: \<open>harness-v2/src/interfaces.ts\<close>, the store as its clients see it,
  a record of operations. The locale \<open>channel_log\<close> states what the clients rely on; it is
  interpreted by the in-memory store (\<open>good_host.store\<close>) and by the same store when others call it
  between any two accesses (\<open>good_host.busy\<close>, over \<open>interleaved\<close>: the state is the store and a list
  of pending calls of others, of which some are made before each access).

  \<^item> \<open>RunManager\<close>, \<open>RunProperties\<close>: \<open>event-store/src/lifecycle.ts\<close>, \<open>run-manager.ts\<close>,
  \<open>channel-session.ts\<close>, \<open>resolved-run-profile.ts\<close>.

  \<^item> \<open>Projections\<close>, \<open>ProjectionProperties\<close>: \<open>event-store/src/projection-runner.ts\<close>,
  \<open>harness-state.ts\<close>.

  \<^item> \<open>RunRuntime\<close>, \<open>RunRuntimeLog\<close>, \<open>RunRuntimeProperties\<close>: \<open>event-store/src/run-runtime.ts\<close>.

  \<^item> \<open>Memory\<close>, \<open>MemoryRepository\<close>, \<open>MemoryLifecycle\<close>, \<open>MemoryLog\<close>, \<open>MemoryProperties\<close>,
  \<open>MemoryRetrieval\<close>, \<open>MemoryExamples\<close>: \<open>harness-v2/src/memory-types.ts\<close>, \<open>memory-events.ts\<close>,
  \<open>memory-projection.ts\<close>, \<open>memory-repository.ts\<close>. The abstract side is a state machine per memory;
  the scans of the projection compute its state, and the repository's operations keep the log in
  the discipline of that machine (locale \<open>memory_log\<close>, interpreted by the store alone and shared).

  \<^item> \<open>Tools\<close>, \<open>ToolLog\<close>, \<open>ToolCalls\<close>, \<open>ToolLedger\<close>, \<open>ToolFlights\<close>,
  \<open>ToolExamples\<close>, \<open>ToolProperties\<close>: \<open>harness-v2/src/tool-gateway-types.ts\<close>, \<open>tool-events.ts\<close>, \<open>tool-approval.ts\<close>, \<open>tool-effects.ts\<close>,
  \<open>tool-gateway.ts\<close>. A call acts on a world and a store; the table of effects in
  flight, which lets simultaneous calls of one process share an execution, is a step relation.

  \<^item> \<open>Scheduler\<close>, \<open>SchedulerRuns\<close>, \<open>SchedulerExamples\<close>, \<open>SchedulerProperties\<close>:
  \<open>scheduler/src/index.ts\<close> (locale \<open>occurrence_store\<close>, interpreted by the in-memory store alone and
  shared with other services).

  \<^item> \<open>RunContext\<close>: \<open>harness-v2/src/run-context.ts\<close>. \<open>EvalSet\<close>, \<open>EvalProperties\<close>: \<open>eval/src/index.ts\<close>,
  with its fixture sets evaluated. \<open>Trace\<close>, \<open>TraceTree\<close>, \<open>TraceOrder\<close>,
  \<open>TraceProperties\<close>: \<open>trace/src/index.ts\<close>.

  \<^item> \<open>Examples\<close>, \<open>MemoryExamples\<close>, \<open>ToolExamples\<close>, \<open>SchedulerExamples\<close>: concrete records on which
  the properties are applied.

  \<^bold>\<open>How the code is modelled.\<close> A class is a record of its state, a method a definition that takes
  and returns it; \<open>throw\<close> is the left side of a result and carries the code or the message of the
  error. An \<open>await\<close> of a store is an atomic access: between two of them other clients may act, and
  most properties of the clients are proved over \<open>interleaved\<close>; where one is about the store
  alone, its text says so. Strings are
  lists of 8-bit characters (the source's are UTF-16), numbers are rationals with the checks
  \<open>Number.isSafeInteger\<close> and \<open>Number.isFinite\<close> written out (scores and weights are computed without
  the rounding of doubles; a number that is not a safe integer is printed by the host), objects are
  lists of members in their order of insertion. The projections of a family, which \<open>Promise.all\<close> runs
  side by side on streams and cursors of their own, run one after another. Sorting is a stable
  insertion sort, which agrees with the platform's for every comparison that is a total preorder;
  where one may not be (times that cannot be read), only facts
  that do not depend on the order are stated. What the source takes from its platform (\<open>Date.parse\<close>, \<open>localeCompare\<close>,
  SHA-256) is the record \<open>host\<close>; what it takes from its caller (the kernel, the policy, the
  sandbox, the schemas, clocks and identifiers) is an argument. \<open>good_host\<close> asks of the host's order
  that it is a total preorder; \<open>demo_host\<close> is a host that satisfies it.

  \<^bold>\<open>Bounds and fuel.\<close> The projection loop takes fuel; as many steps as events remain are enough,
  which is part of its property. The other loops are structural recursions on lists. A stream is a
  JavaScript array; \<open>array_room\<close> says that none has reached the length an array can have, and is a
  premise where a call must succeed. Sequence numbers are checked against the safe integers as the
  code does.

  \<^bold>\<open>Not modelled.\<close> Abort controllers and the waiting of the runtime's \<open>close\<close> for active runs;
  freezing of values (they are immutable here). The SQLite store (\<open>sqlite-event-store.ts\<close>) is SQL
  under the same interface: its semantics is that of a database that is not part of this repository.
  The loop kernels (\<open>omp-loop-kernel\<close>, \<open>pi-loop-kernel\<close>), the worktree sandbox and the review
  capability (\<open>worktree-sandbox.ts\<close>, \<open>review-to-validated-patch.ts\<close>) drive processes, git and
  third-party agents; they appear as the arguments kernel and sandbox. The services and the
  desktop application around the packages compose what is modelled here and do I/O.
\<close>

end
